(* ===== verification/GoPrelude.thy ===== *)
theory GoPrelude
  imports Main "HOL-Library.List_Lexorder" "HOL-Library.Char_ord" "HOL-Library.Multiset"
begin

text \<open>
  What the components share: the part of the Go standard library the source calls
  (\<open>cmp.Compare\<close>, \<open>slices.SortFunc\<close>, \<open>slices.BinarySearchFunc\<close>, \<open>slices.Compact\<close>,
  \<open>strings\<close>, \<open>strconv\<close>), the contract of comparison functions as a locale, 64-bit
  signed arithmetic with its wrap-around, and the combinator for Go's
  \<open>if err := f(); err != nil { return err }\<close>.

  A Go string is a sequence of bytes and so is a HOL string (a \<open>char\<close> is one byte);
  \<open>strings.Compare\<close> is the lexicographic order of bytes, which is the order
  that \<open>List_Lexorder\<close> and \<open>Char_ord\<close> give to strings.
\<close>

named_theorems cmp_defs "definitions of the comparison functions of the source"
named_theorems err_simps "when a validator accepts"

section \<open>Comparison functions\<close>

text \<open>\<open>cmp.Compare\<close> and \<open>strings.Compare\<close>: negative, zero or positive.\<close>

definition cmp_compare :: "'a::linorder \<Rightarrow> 'a \<Rightarrow> int" where
  "cmp_compare a b = (if a < b then -1 else if a = b then 0 else 1)"

text \<open>
  \<open>if order := f(a, b); order != 0 { return order }; return g(a, b)\<close>: the second
  comparison decides where the first says equal.
\<close>

definition cmp_then :: "int \<Rightarrow> int \<Rightarrow> int" where
  "cmp_then c d = (if c \<noteq> 0 then c else d)"

text \<open>
  The contract \<open>slices.SortFunc\<close> states for its comparison function: a strict weak
  ordering, whose sign is antisymmetric.
\<close>

locale comparator =
  fixes cmp :: "'a \<Rightarrow> 'a \<Rightarrow> int"
  assumes cmp_flip: "cmp x y < 0 \<longleftrightarrow> 0 < cmp y x"
    and cmp_trans: "cmp x y \<le> 0 \<Longrightarrow> cmp y z \<le> 0 \<Longrightarrow> cmp x z \<le> 0"
begin

lemma cmp_total: "cmp x y \<le> 0 \<or> cmp y x \<le> 0"
  using cmp_flip [of x y] by linarith

lemma cmp_refl: "cmp x x = 0"
  using cmp_flip [of x x] by linarith

lemma cmp_not_le: "\<not> cmp x y \<le> 0 \<Longrightarrow> cmp y x \<le> 0"
  using cmp_total by blast

end

text \<open>
  \<open>slices.SortFunc\<close>. The library promises a permutation in ascending order; where the
  comparison says equal it may choose, and the model keeps the input order (as
  \<open>slices.SortStableFunc\<close> promises).
\<close>

fun insert_func :: "('a \<Rightarrow> 'a \<Rightarrow> int) \<Rightarrow> 'a \<Rightarrow> 'a list \<Rightarrow> 'a list" where
  "insert_func cmp x [] = [x]"
| "insert_func cmp x (y # ys) =
     (if cmp x y \<le> 0 then x # y # ys else y # insert_func cmp x ys)"

definition sort_func :: "('a \<Rightarrow> 'a \<Rightarrow> int) \<Rightarrow> 'a list \<Rightarrow> 'a list" where
  "sort_func cmp xs = foldr (insert_func cmp) xs []"

lemma sort_func_Nil [simp]: "sort_func cmp [] = []"
  by (simp add: sort_func_def)

lemma sort_func_Cons [simp]: "sort_func cmp (x # xs) = insert_func cmp x (sort_func cmp xs)"
  by (simp add: sort_func_def)

lemma mset_insert_func [simp]: "mset (insert_func cmp x xs) = add_mset x (mset xs)"
  by (induction xs) auto

lemma mset_sort_func [simp]: "mset (sort_func cmp xs) = mset xs"
  by (induction xs) auto

lemma set_sort_func [simp]: "set (sort_func cmp xs) = set xs"
  by (metis mset_sort_func set_mset_mset)

lemma length_sort_func [simp]: "length (sort_func cmp xs) = length xs"
  by (metis mset_sort_func size_mset)

lemma distinct_sort_func [simp]: "distinct (map f (sort_func cmp xs)) = distinct (map f xs)"
  by (metis mset_sort_func mset_map mset_eq_imp_distinct_iff)

lemma distinct_sort_func_plain [simp]: "distinct (sort_func cmp xs) = distinct xs"
  by (metis mset_sort_func mset_eq_imp_distinct_iff)

lemma sort_func_eq_Nil [simp]: "sort_func cmp xs = [] \<longleftrightarrow> xs = []"
  by (metis length_0_conv length_sort_func)

lemma mset_concat_perm: "mset xs = mset ys \<Longrightarrow> mset (concat xs) = mset (concat ys)"
  by (metis mset_concat mset_map sum_mset_sum_list)

lemma sort_func_id:
  "sorted_wrt (\<lambda>x y. cmp x y \<le> 0) xs \<Longrightarrow> sort_func cmp xs = xs"
proof (induction xs)
  case (Cons x xs)
  then show ?case by (cases xs) auto
qed simp

context comparator begin

lemma sorted_insert_func:
  "sorted_wrt (\<lambda>x y. cmp x y \<le> 0) xs \<Longrightarrow> sorted_wrt (\<lambda>x y. cmp x y \<le> 0) (insert_func cmp x xs)"
proof (induction xs)
  case (Cons y ys)
  show ?case
  proof (cases "cmp x y \<le> 0")
    case True
    with Cons.prems show ?thesis by (auto intro: cmp_trans)
  next
    case False
    then have "cmp y x \<le> 0" by (rule cmp_not_le)
    moreover have "set (insert_func cmp x ys) = insert x (set ys)"
      by (metis mset_insert_func set_mset_add_mset_insert set_mset_mset)
    ultimately show ?thesis using False Cons by auto
  qed
qed simp

lemma sorted_sort_func: "sorted_wrt (\<lambda>x y. cmp x y \<le> 0) (sort_func cmp xs)"
  by (induction xs) (auto intro: sorted_insert_func)

lemma sort_func_idem: "sort_func cmp (sort_func cmp xs) = sort_func cmp xs"
  by (intro sort_func_id sorted_sort_func)

text \<open>
  Two lists with the same elements sort to the same list where the comparison says equal
  of equal elements only: a map's iteration order cannot show in what is sorted.
\<close>

lemma sorted_wrt_unique:
  assumes "sorted_wrt (\<lambda>x y. cmp x y \<le> 0) xs" and "sorted_wrt (\<lambda>x y. cmp x y \<le> 0) ys"
    and "mset xs = mset ys"
    and "\<And>x y. x \<in> set xs \<Longrightarrow> y \<in> set xs \<Longrightarrow> cmp x y = 0 \<Longrightarrow> x = y"
  shows "xs = ys"
  using assms
proof (induction xs arbitrary: ys)
  case (Cons x xs)
  then obtain y ys' where ys: "ys = y # ys'" by (cases ys) auto
  have sets: "set (x # xs) = set ys" using Cons.prems(3) by (metis set_mset_mset)
  have "y = x \<or> y \<in> set xs" and "x = y \<or> x \<in> set ys'"
    using sets ys by auto
  then have "cmp x y \<le> 0" and "cmp y x \<le> 0"
    using Cons.prems(1,2) ys cmp_refl by auto
  then have "cmp x y = 0" using cmp_flip [of x y] cmp_flip [of y x] by linarith
  then have "x = y" using Cons.prems(4) [of x y] sets ys by auto
  with Cons.prems(3) ys have "mset xs = mset ys'" by simp
  then have "xs = ys'" using Cons.prems ys by (intro Cons.IH) auto
  with \<open>x = y\<close> ys show ?case by simp
qed simp

lemma sort_func_perm:
  assumes "mset xs = mset ys"
    and "\<And>x y. x \<in> set xs \<Longrightarrow> y \<in> set xs \<Longrightarrow> cmp x y = 0 \<Longrightarrow> x = y"
  shows "sort_func cmp xs = sort_func cmp ys"
  using assms by (intro sorted_wrt_unique sorted_sort_func) auto

end

lemma comparator_compare: "comparator (\<lambda>x y. cmp_compare (f x) (f y))"
  by unfold_locales (auto simp: cmp_compare_def split: if_splits)

lemma comparator_flip:
  assumes "comparator c" shows "comparator (\<lambda>x y. c y x)"
proof -
  have flip: "c x y < 0 \<longleftrightarrow> 0 < c y x" and trans: "c x y \<le> 0 \<Longrightarrow> c y z \<le> 0 \<Longrightarrow> c x z \<le> 0" for x y z
    using assms by (auto simp: comparator_def)
  show ?thesis
    by unfold_locales (use flip in blast, use trans in blast)
qed

lemma comparator_then:
  assumes "comparator c" and "comparator d"
  shows "comparator (\<lambda>x y. cmp_then (c x y) (d x y))"
proof -
  have c: "c x y < 0 \<longleftrightarrow> 0 < c y x" "c x y \<le> 0 \<Longrightarrow> c y z \<le> 0 \<Longrightarrow> c x z \<le> 0" for x y z
    using assms(1) by (auto simp: comparator_def)
  have d: "d x y < 0 \<longleftrightarrow> 0 < d y x" "d x y \<le> 0 \<Longrightarrow> d y z \<le> 0 \<Longrightarrow> d x z \<le> 0" for x y z
    using assms(2) by (auto simp: comparator_def)
  have zero: "c x y = 0 \<longleftrightarrow> c y x = 0" for x y
    using c(1) [of x y] c(1) [of y x] by linarith
  have strict: "c x z < 0" if "c x y < 0" "c y z \<le> 0" for x y z
  proof (rule ccontr)
    assume "\<not> c x z < 0"
    then have "c z x \<le> 0" using c(1) [of x z] by linarith
    with that(2) have "c y x \<le> 0" using c(2) by blast
    with that(1) show False using c(1) [of x y] by linarith
  qed
  have strict': "c x z < 0" if "c x y \<le> 0" "c y z < 0" for x y z
  proof (rule ccontr)
    assume "\<not> c x z < 0"
    then have "c z x \<le> 0" using c(1) [of x z] by linarith
    with that(1) have "c z y \<le> 0" using c(2) by blast
    with that(2) show False using c(1) [of y z] by linarith
  qed
  show ?thesis
  proof unfold_locales
    show "cmp_then (c x y) (d x y) < 0 \<longleftrightarrow> 0 < cmp_then (c y x) (d y x)" for x y
      using c(1) [of x y] c(1) [of y x] zero [of x y] d(1) [of x y]
      by (auto simp: cmp_then_def)
    show "cmp_then (c x z) (d x z) \<le> 0"
      if "cmp_then (c x y) (d x y) \<le> 0" "cmp_then (c y z) (d y z) \<le> 0" for x y z
    proof (cases "c x y = 0 \<and> c y z = 0")
      case True
      then have "c x z \<le> 0" "c z x \<le> 0" using c(2) zero by (metis order_refl)+
      then have "c x z = 0" using c(1) [of x z] c(1) [of z x] by linarith
      with that True show ?thesis by (auto simp: cmp_then_def intro: d(2))
    next
      case False
      with that have "c x z < 0"
        by (auto simp: cmp_then_def le_less split: if_splits intro: strict strict')
      then show ?thesis by (simp add: cmp_then_def)
    qed
  qed
qed

lemma cmp_compare_le [simp]: "cmp_compare a b \<le> 0 \<longleftrightarrow> a \<le> b"
  by (auto simp: cmp_compare_def)

lemma cmp_compare_eq [simp]: "cmp_compare a b = 0 \<longleftrightarrow> a = b"
  by (auto simp: cmp_compare_def)

lemma cmp_compare_less [simp]: "cmp_compare a b < 0 \<longleftrightarrow> a < b"
  by (auto simp: cmp_compare_def)

lemma cmp_then_eq [simp]: "cmp_then c d = 0 \<longleftrightarrow> c = 0 \<and> d = 0"
  by (auto simp: cmp_then_def)

text \<open>\<open>slices.Sort\<close> and \<open>slices.Sorted\<close> on ordered elements.\<close>

abbreviation sort_slice :: "'a::linorder list \<Rightarrow> 'a list" where
  "sort_slice \<equiv> sort_func cmp_compare"

interpretation ordered: comparator "cmp_compare :: 'a::linorder \<Rightarrow> 'a \<Rightarrow> int"
  using comparator_compare [of "\<lambda>x. x"] by simp

lemma sorted_sort_slice [simp]: "sorted (sort_slice xs)"
  using ordered.sorted_sort_func [of xs] by simp

lemma sort_slice_sort: "sort_slice xs = sort xs"
  by (rule properties_for_sort [symmetric]) simp_all

lemma strict_sorted_compact: "sorted xs \<Longrightarrow> sorted_wrt (<) (remdups_adj xs)"
  by (induction xs rule: remdups_adj.induct) (auto simp: less_le)

section \<open>Binary search\<close>

text \<open>
  The loop of \<open>slices.BinarySearchFunc\<close>: \<open>below x\<close> stands for
  \<open>cmp(x, target) < 0\<close>; it returns the index the target would be inserted at.
\<close>

function bsearch :: "('a \<Rightarrow> bool) \<Rightarrow> 'a list \<Rightarrow> nat \<Rightarrow> nat \<Rightarrow> nat" where
  "bsearch below xs i j =
     (if i < j then
        (let h = (i + j) div 2
         in if below (xs ! h) then bsearch below xs (h + 1) j else bsearch below xs i h)
      else i)"
  by pat_completeness auto
termination
  by (relation "measure (\<lambda>(below, xs, i, j). j - i)") auto

declare bsearch.simps [simp del]

lemma bsearch_bounds: "i \<le> j \<Longrightarrow> i \<le> bsearch below xs i j \<and> bsearch below xs i j \<le> j"
proof (induction below xs i j rule: bsearch.induct)
  case (1 below xs i j)
  show ?case
  proof (cases "i < j")
    case True
    let ?h = "(i + j) div 2"
    have h: "i \<le> ?h" "?h < j" using True by auto
    show ?thesis
    proof (cases "below (xs ! ?h)")
      case True
      with "1.IH"(1) [OF \<open>i < j\<close> refl True] h \<open>i < j\<close> show ?thesis
        by (subst (1 2) bsearch.simps) (simp add: Let_def)
    next
      case False
      with "1.IH"(2) [OF \<open>i < j\<close> refl False] h \<open>i < j\<close> show ?thesis
        by (subst (1 2) bsearch.simps) (simp add: Let_def)
    qed
  next
    case False
    with "1.prems" show ?thesis by (simp add: bsearch.simps)
  qed
qed

text \<open>
  On a list where what is below the target comes first, the search splits the list there.
\<close>

lemma bsearch_split:
  assumes "j \<le> length xs" and "i \<le> j"
    and "\<And>a b. a \<le> b \<Longrightarrow> b < length xs \<Longrightarrow> below (xs ! b) \<Longrightarrow> below (xs ! a)"
    and "\<forall>k < i. below (xs ! k)" and "\<forall>k. j \<le> k \<and> k < length xs \<longrightarrow> \<not> below (xs ! k)"
  shows "(\<forall>k < bsearch below xs i j. below (xs ! k)) \<and>
         (\<forall>k. bsearch below xs i j \<le> k \<and> k < length xs \<longrightarrow> \<not> below (xs ! k))"
  using assms
proof (induction below xs i j rule: bsearch.induct)
  case (1 below xs i j)
  show ?case
  proof (cases "i < j")
    case True
    let ?h = "(i + j) div 2"
    have h: "i \<le> ?h" "?h < j" "?h < length xs" using True "1.prems" by auto
    show ?thesis
    proof (cases "below (xs ! ?h)")
      case below: True
      have eq: "bsearch below xs i j = bsearch below xs (?h + 1) j"
        using True below by (subst bsearch.simps) (simp add: Let_def)
      have "below (xs ! k)" if "k < ?h + 1" for k
        using below "1.prems"(3) [of k ?h] h that by simp
      then show ?thesis
        unfolding eq using "1.prems" h by (intro "1.IH"(1) [OF True refl below]) auto
    next
      case above: False
      have eq: "bsearch below xs i j = bsearch below xs i ?h"
        using True above by (subst bsearch.simps) (simp add: Let_def)
      have "\<not> below (xs ! k)" if "?h \<le> k" "k < length xs" for k
        using above "1.prems"(3) [of ?h k] that by blast
      then show ?thesis
        unfolding eq using "1.prems" h by (intro "1.IH"(2) [OF True refl above]) auto
    qed
  next
    case False
    with "1.prems" show ?thesis by (simp add: bsearch.simps)
  qed
qed

text \<open>\<open>slices.BinarySearch\<close>'s second result: whether the target was found.\<close>

definition binary_search :: "'a::linorder list \<Rightarrow> 'a \<Rightarrow> bool" where
  "binary_search xs x =
     (let i = bsearch (\<lambda>y. y < x) xs 0 (length xs) in i < length xs \<and> xs ! i = x)"

lemma binary_search_mem:
  assumes "sorted xs" shows "binary_search xs x \<longleftrightarrow> x \<in> set xs"
proof -
  let ?i = "bsearch (\<lambda>y. y < x) xs 0 (length xs)"
  have mono: "a \<le> b \<Longrightarrow> b < length xs \<Longrightarrow> xs ! b < x \<Longrightarrow> xs ! a < x" for a b
    using assms by (meson le_less_trans sorted_nth_mono)
  have split: "(\<forall>k < ?i. xs ! k < x) \<and> (\<forall>k. ?i \<le> k \<and> k < length xs \<longrightarrow> \<not> xs ! k < x)"
    by (rule bsearch_split) (use mono in auto)
  show ?thesis
  proof
    assume "x \<in> set xs"
    then obtain k where k: "k < length xs" "xs ! k = x" by (auto simp: in_set_conv_nth)
    with split have "?i \<le> k" by (meson less_irrefl linorder_not_le)
    then have "xs ! ?i \<le> x" using assms k by (metis sorted_nth_mono)
    moreover have "?i < length xs" using \<open>?i \<le> k\<close> k by simp
    ultimately show "binary_search xs x"
      using split by (auto simp: binary_search_def Let_def)
  next
    assume "binary_search xs x"
    then show "x \<in> set xs" unfolding binary_search_def Let_def by (metis nth_mem)
  qed
qed

section \<open>Strings\<close>

abbreviation newline :: char where "newline \<equiv> CHR 0x0A"
abbreviation backslash :: char where "backslash \<equiv> CHR 0x5C"
abbreviation nul :: char where "nul \<equiv> CHR 0x00"

definition has_prefix :: "'a list \<Rightarrow> 'a list \<Rightarrow> bool" where
  "has_prefix s p = (take (length p) s = p)"

definition has_suffix :: "'a list \<Rightarrow> 'a list \<Rightarrow> bool" where
  "has_suffix s p = (length p \<le> length s \<and> drop (length s - length p) s = p)"

definition trim_prefix :: "string \<Rightarrow> string \<Rightarrow> string" where
  "trim_prefix s p = (if has_prefix s p then drop (length p) s else s)"

definition trim_suffix :: "string \<Rightarrow> string \<Rightarrow> string" where
  "trim_suffix s p = (if has_suffix s p then take (length s - length p) s else s)"

text \<open>\<open>strings.CutPrefix\<close>: \<open>None\<close> for the missing prefix.\<close>

definition cut_prefix :: "string \<Rightarrow> string \<Rightarrow> string option" where
  "cut_prefix s p = (if has_prefix s p then Some (drop (length p) s) else None)"

text \<open>\<open>strings.Cut\<close> at a one-byte separator.\<close>

fun cut_at :: "char \<Rightarrow> string \<Rightarrow> (string \<times> string) option" where
  "cut_at c [] = None"
| "cut_at c (x # xs) =
     (if x = c then Some ([], xs)
      else (case cut_at c xs of None \<Rightarrow> None | Some (a, b) \<Rightarrow> Some (x # a, b)))"

text \<open>\<open>strings.LastIndex\<close> of a one-byte string, -1 when it is absent.\<close>

fun last_index_from :: "char \<Rightarrow> string \<Rightarrow> int \<Rightarrow> int \<Rightarrow> int" where
  "last_index_from c [] i found = found"
| "last_index_from c (x # xs) i found =
     last_index_from c xs (i + 1) (if x = c then i else found)"

definition last_index :: "string \<Rightarrow> char \<Rightarrow> int" where
  "last_index s c = last_index_from c s 0 (-1)"

text \<open>\<open>strings.Join\<close>\<close>

fun join :: "string \<Rightarrow> string list \<Rightarrow> string" where
  "join sep [] = []"
| "join sep [x] = x"
| "join sep (x # y # ys) = x @ sep @ join sep (y # ys)"

text \<open>\<open>strings.ReplaceAll(path, `\`, "/")\<close>\<close>

definition replace_backslash :: "string \<Rightarrow> string" where
  "replace_backslash s = map (\<lambda>c. if c = backslash then CHR ''/'' else c) s"

text \<open>
  \<open>filepath.ToSlash\<close> on the platforms whose separator is a slash: the library returns
  the path as it is.
\<close>

definition to_slash :: "string \<Rightarrow> string" where
  "to_slash path = path"

text \<open>
  How many bytes the white-space rune at the head of a string takes, 0 for none: the
  ASCII spaces and the UTF-8 encodings of the runes of \<open>unicode.IsSpace\<close>.
\<close>

definition ascii_space :: "char \<Rightarrow> bool" where
  "ascii_space c = (c \<in> {CHR 0x09, CHR 0x0A, CHR 0x0B, CHR 0x0C, CHR 0x0D, CHR 0x20})"

definition wide_spaces :: "string list" where
  "wide_spaces =
     [[CHR 0xC2, CHR 0x85], [CHR 0xC2, CHR 0xA0], [CHR 0xE1, CHR 0x9A, CHR 0x80]] @
     map (\<lambda>c. [CHR 0xE2, CHR 0x80, c])
       [CHR 0x80, CHR 0x81, CHR 0x82, CHR 0x83, CHR 0x84, CHR 0x85, CHR 0x86, CHR 0x87,
        CHR 0x88, CHR 0x89, CHR 0x8A, CHR 0xA8, CHR 0xA9, CHR 0xAF] @
     [[CHR 0xE2, CHR 0x81, CHR 0x9F], [CHR 0xE3, CHR 0x80, CHR 0x80]]"

definition space_len :: "string list \<Rightarrow> string \<Rightarrow> nat" where
  "space_len wide s =
     (case s of [] \<Rightarrow> 0
      | c # _ \<Rightarrow> if ascii_space c then 1
          else (case find (has_prefix s) wide of None \<Rightarrow> 0 | Some w \<Rightarrow> length w))"

lemma space_len_le: "space_len wide s \<le> length s"
  by (auto simp: space_len_def has_prefix_def split: list.splits option.splits
      dest!: find_Some_iff [THEN iffD1] intro: take_eq_Nil)
     (metis length_take min.cobounded1 length_Cons)

function trim_left :: "string list \<Rightarrow> string \<Rightarrow> string" where
  "trim_left wide s =
     (let n = space_len wide s in if n = 0 then s else trim_left wide (drop n s))"
  by pat_completeness auto
termination
  by (relation "measure (\<lambda>(wide, s). length s)")
     (auto simp: space_len_def split: list.splits if_splits)

declare trim_left.simps [simp del]

text \<open>\<open>strings.TrimSpace\<close>: the right end is trimmed by the same rule on the reversed string.\<close>

definition trim_space :: "string \<Rightarrow> string" where
  "trim_space s = rev (trim_left (map rev wide_spaces) (rev (trim_left wide_spaces s)))"

text \<open>\<open>strings.Fields\<close>: the maximal runs of bytes that start no white space.\<close>

function string_fields_from :: "string \<Rightarrow> string \<Rightarrow> string list" where
  "string_fields_from cur s =
     (case s of
        [] \<Rightarrow> (if cur = [] then [] else [rev cur])
      | c # cs \<Rightarrow>
          (let n = space_len wide_spaces s
           in if n = 0 then string_fields_from (c # cur) cs
              else if cur = [] then string_fields_from [] (drop n s)
              else rev cur # string_fields_from [] (drop n s)))"
  by pat_completeness auto
termination
  by (relation "measure (\<lambda>(cur, s). length s)")
     (auto simp: space_len_def split: list.splits if_splits)

declare string_fields_from.simps [simp del]

definition string_fields :: "string \<Rightarrow> string list" where
  "string_fields s = string_fields_from [] s"

section \<open>Numbers\<close>

definition is_digit :: "char \<Rightarrow> bool" where
  "is_digit c = (CHR ''0'' \<le> c \<and> c \<le> CHR ''9'')"

definition digit_value :: "char \<Rightarrow> int" where
  "digit_value c = int (of_char c) - 48"

definition digits_value :: "string \<Rightarrow> int" where
  "digits_value s = foldl (\<lambda>n c. 10 * n + digit_value c) 0 s"

text \<open>\<open>strconv.ParseUint(s, 10, 64)\<close>\<close>

definition parse_uint64 :: "string \<Rightarrow> int option" where
  "parse_uint64 s =
     (if s \<noteq> [] \<and> list_all is_digit s \<and> digits_value s < 2 ^ 64
      then Some (digits_value s) else None)"

text \<open>\<open>strconv.Atoi\<close> with a 64-bit \<open>int\<close>.\<close>

definition atoi :: "string \<Rightarrow> int option" where
  "atoi s =
     (let neg = (case s of c # _ \<Rightarrow> c = CHR ''-'' | [] \<Rightarrow> False);
          digits = (case s of c # cs \<Rightarrow> if c = CHR ''-'' \<or> c = CHR ''+'' then cs else s | [] \<Rightarrow> []);
          n = (if neg then - digits_value digits else digits_value digits)
      in if digits \<noteq> [] \<and> list_all is_digit digits \<and> - (2 ^ 63) \<le> n \<and> n < 2 ^ 63
         then Some n else None)"

text \<open>\<open>strconv.Itoa\<close>, \<open>strconv.FormatInt\<close> in base 10 and the \<open>%d\<close> of \<open>fmt\<close>.\<close>

fun show_nat :: "nat \<Rightarrow> string" where
  "show_nat n =
     (if n < 10 then [char_of (48 + n)] else show_nat (n div 10) @ [char_of (48 + n mod 10)])"

declare show_nat.simps [simp del]

definition itoa :: "int \<Rightarrow> string" where
  "itoa i = (if i < 0 then CHR ''-'' # show_nat (nat (- i)) else show_nat (nat i))"

text \<open>64-bit signed arithmetic wraps around.\<close>

definition max_int64 :: int where "max_int64 = 2 ^ 63 - 1"

definition wrap64 :: "int \<Rightarrow> int" where
  "wrap64 i = (i + 2 ^ 63) mod 2 ^ 64 - 2 ^ 63"

lemma wrap64_id: "- (2 ^ 63) \<le> i \<Longrightarrow> i \<le> max_int64 \<Longrightarrow> wrap64 i = i"
  by (simp add: wrap64_def max_int64_def)

lemma wrap64_range: "- (2 ^ 63) \<le> wrap64 i \<and> wrap64 i \<le> max_int64"
proof -
  have "0 \<le> (i + 2 ^ 63) mod 2 ^ 64" "(i + 2 ^ 63) mod 2 ^ 64 < 2 ^ 64" by simp_all
  then show ?thesis by (simp add: wrap64_def max_int64_def)
qed

text \<open>Rendered numbers read back.\<close>

lemma of_char_digit:
  assumes "(n::nat) < 10" shows "(of_char (char_of (48 + n) :: char) :: int) = int (48 + n)"
proof -
  from assms
  have "(of_char (char_of (48 + n) :: char) :: nat) = 48 + n"
    by (simp add: of_char_of take_bit_eq_mod)
  then show ?thesis by (metis of_nat_of_char)
qed

lemma is_digit_char_of:
  assumes "(n::nat) < 10" shows "is_digit (char_of (48 + n))"
proof -
  from assms have "(of_char (char_of (48 + n) :: char) :: nat) = 48 + n"
    by (simp add: of_char_of take_bit_eq_mod)
  with assms show ?thesis by (simp add: is_digit_def less_eq_char_def)
qed

lemma digits_value_snoc: "digits_value (s @ [c]) = 10 * digits_value s + digit_value c"
  by (simp add: digits_value_def)

lemma digits_value_show_nat [simp]: "digits_value (show_nat n) = int n"
proof (induction n rule: show_nat.induct)
  case (1 n)
  show ?case
  proof (cases "n < 10")
    case True
    then show ?thesis
      by (subst show_nat.simps) (simp add: digits_value_def digit_value_def of_char_digit)
  next
    case False
    have "digit_value (char_of (48 + n mod 10)) = int (n mod 10)"
      by (simp add: digit_value_def of_char_digit)
    moreover have "10 * int (n div 10) + int (n mod 10) = int n" by presburger
    ultimately show ?thesis using False "1.IH"
      by (subst show_nat.simps) (simp add: digits_value_snoc)
  qed
qed

lemma list_all_is_digit_show_nat [simp]: "list_all is_digit (show_nat n)"
proof (induction n rule: show_nat.induct)
  case (1 n)
  then show ?case
    by (cases "n < 10"; subst show_nat.simps) (simp_all add: is_digit_char_of)
qed

lemma show_nat_not_Nil [simp]: "show_nat n \<noteq> []"
  by (subst show_nat.simps) simp

lemma show_nat_inj: "show_nat m = show_nat n \<Longrightarrow> m = n"
  by (metis digits_value_show_nat of_nat_eq_iff)

lemma digit_not_in_show_nat: "\<not> is_digit c \<Longrightarrow> c \<notin> set (show_nat n)"
  using list_all_is_digit_show_nat [of n] by (auto simp: list_all_iff)

lemma not_digit_chars [simp]:
  "\<not> is_digit (CHR ''-'')" "\<not> is_digit (CHR ''+'')" "\<not> is_digit (CHR '','')" "\<not> is_digit (CHR ''.'')"
  by (simp_all add: is_digit_def less_eq_char_def)

lemma show_nat_hd:
  assumes "show_nat n = c # cs" shows "c \<noteq> CHR ''-''" and "c \<noteq> CHR ''+''"
  using digit_not_in_show_nat [of "CHR ''-''" n] digit_not_in_show_nat [of "CHR ''+''" n] assms
  by auto

lemma itoa_inj: assumes "itoa i = itoa j" shows "i = j"
proof -
  have "show_nat n \<noteq> CHR ''-'' # cs" for n cs
    using show_nat_hd(1) by blast
  with assms show ?thesis
    by (auto simp: itoa_def split: if_splits dest!: show_nat_inj) (metis show_nat_hd(1))
qed

lemma atoi_show_nat: assumes "int n < 2 ^ 63" shows "atoi (show_nat n) = Some (int n)"
proof -
  obtain c cs where cs: "show_nat n = c # cs" by (cases "show_nat n") auto
  then have "digits_value (c # cs) = int n" "list_all is_digit (c # cs)"
    by (metis digits_value_show_nat, metis list_all_is_digit_show_nat)
  with cs show_nat_hd [OF cs] assms show ?thesis by (simp add: atoi_def)
qed

lemma atoi_itoa:
  assumes "- (2 ^ 63) \<le> i" "i < 2 ^ 63" shows "atoi (itoa i) = Some i"
proof (cases "i < 0")
  case True
  with assms show ?thesis by (simp add: itoa_def atoi_def)
next
  case False
  with assms atoi_show_nat [of "nat i"] show ?thesis by (simp add: itoa_def)
qed

lemma cut_at_append: "c \<notin> set a \<Longrightarrow> cut_at c (a @ c # b) = Some (a, b)"
  by (induction a) auto

lemma cut_at_Some: "cut_at c s = Some (a, b) \<Longrightarrow> s = a @ c # b \<and> c \<notin> set a"
  by (induction s arbitrary: a b) (auto split: if_splits option.splits)

section \<open>Paths\<close>

text \<open>
  \<open>path.Clean\<close>: the elements between slashes with the empty ones and the dots gone and
  every \<open>..\<close> taken back with the element before it.
\<close>

fun split_on :: "char \<Rightarrow> string \<Rightarrow> string list" where
  "split_on c [] = [[]]"
| "split_on c (x # xs) =
     (if x = c then [] # split_on c xs
      else (case split_on c xs of [] \<Rightarrow> [[x]] | w # ws \<Rightarrow> (x # w) # ws))"

fun clean_elements :: "bool \<Rightarrow> string list \<Rightarrow> string list \<Rightarrow> string list" where
  "clean_elements rooted kept [] = rev kept"
| "clean_elements rooted kept (e # es) =
     (if e = [] \<or> e = ''.'' then clean_elements rooted kept es
      else if e = ''..'' then
        (case kept of
           [] \<Rightarrow> clean_elements rooted (if rooted then [] else [e]) es
         | k # ks \<Rightarrow> if k = ''..'' then clean_elements rooted (e # kept) es
                     else clean_elements rooted ks es)
      else clean_elements rooted (e # kept) es)"

definition path_clean :: "string \<Rightarrow> string" where
  "path_clean p =
     (let rooted = has_prefix p ''/'';
          body = join ''/'' (clean_elements rooted [] (split_on (CHR ''/'') p))
      in if rooted then ''/'' @ body else if body = [] then ''.'' else body)"

text \<open>\<open>path.Dir\<close>: what stands before the last slash, cleaned.\<close>

definition path_dir :: "string \<Rightarrow> string" where
  "path_dir p = path_clean (take (nat (last_index p (CHR ''/'') + 1)) p)"

section \<open>Errors\<close>

text \<open>
  \<open>if err := f(); err != nil { return err }; rest\<close>: \<open>None\<close> is Go's nil error.
\<close>

definition err_then :: "'e option \<Rightarrow> 'e option \<Rightarrow> 'e option" where
  "err_then e rest = (case e of Some x \<Rightarrow> Some x | None \<Rightarrow> rest)"

lemma err_then_None [simp, err_simps]: "err_then e rest = None \<longleftrightarrow> e = None \<and> rest = None"
  by (auto simp: err_then_def split: option.splits)

lemma err_then_simps [simp]: "err_then (Some x) rest = Some x" "err_then None rest = rest"
  by (simp_all add: err_then_def)

lemma if_error_None [err_simps]:
  "(if c then Some e else rest) = None \<longleftrightarrow> \<not> c \<and> rest = None"
  by simp

text \<open>\<open>for _, item := range items { if err := f(item); err != nil { return err } }\<close>\<close>

fun first_error :: "('a \<Rightarrow> 'e option) \<Rightarrow> 'a list \<Rightarrow> 'e option" where
  "first_error f [] = None"
| "first_error f (x # xs) = err_then (f x) (first_error f xs)"

lemma first_error_None [simp, err_simps]: "first_error f xs = None \<longleftrightarrow> (\<forall>x \<in> set xs. f x = None)"
  by (induction xs) auto

end
