(* ===== verification/Coverage.thy ===== *)
theory Coverage
  imports GoPrelude
begin

text \<open>
  Coverage profiles, \<open>internal/golang/coverage.go\<close>: blocks and spans, the parser of
  \<open>go test -coverprofile\<close> output, the merge of two file coverages, the restriction to a
  project's packages and the lookup of one file by binary search. The lemmas show what a
  parsed profile satisfies (sorted, distinct, valid, covered within instrumented) and that
  lookup, merge and containment agree with the set of blocks a profile stands for.
\<close>

section \<open>Blocks, files and spans\<close>

record coverage_block =
  StartLine :: int
  StartColumn :: int
  EndLine :: int
  EndColumn :: int

definition block_contains :: "coverage_block \<Rightarrow> int \<Rightarrow> int \<Rightarrow> bool" where
  "block_contains block line column =
     (if line < StartLine block \<or> line > EndLine block then False
      else if line = StartLine block \<and> column < StartColumn block then False
      else if line = EndLine block \<and> column \<ge> EndColumn block then False
      else True)"

record file_coverage =
  fc_path :: string
  fc_blocks :: "coverage_block list"

definition file_contains :: "file_coverage \<Rightarrow> int \<Rightarrow> int \<Rightarrow> bool" where
  "file_contains file line column =
     list_ex (\<lambda>block. block_contains block line column) (fc_blocks file)"

definition no_file :: file_coverage where
  "no_file = \<lparr>fc_path = [], fc_blocks = []\<rparr>"

record coverage_span =
  SpanStartLine :: int
  SpanStartColumn :: int
  SpanEndLine :: int
  SpanEndColumn :: int

definition compare_positions :: "int \<Rightarrow> int \<Rightarrow> int \<Rightarrow> int \<Rightarrow> int" where
  "compare_positions firstLine firstColumn secondLine secondColumn =
     cmp_then (cmp_compare firstLine secondLine) (cmp_compare firstColumn secondColumn)"

definition compare_coverage_blocks :: "coverage_block \<Rightarrow> coverage_block \<Rightarrow> int" where
  "compare_coverage_blocks first second =
     cmp_then
       (compare_positions (StartLine first) (StartColumn first) (StartLine second) (StartColumn second))
       (compare_positions (EndLine first) (EndColumn first) (EndLine second) (EndColumn second))"

definition starts_within :: "file_coverage \<Rightarrow> coverage_span \<Rightarrow> bool" where
  "starts_within file span =
     list_ex (\<lambda>block.
       compare_positions (SpanStartLine span) (SpanStartColumn span)
         (StartLine block) (StartColumn block) \<le> 0 \<and>
       compare_positions (StartLine block) (StartColumn block)
         (SpanEndLine span) (SpanEndColumn span) \<le> 0) (fc_blocks file)"

record coverage =
  Covered :: "file_coverage list"
  Instrumented :: "file_coverage list"

section \<open>Restriction, lookup, merge\<close>

text \<open>The \<open>RelativeDir\<close> of each package is what the restriction reads of it.\<close>

definition restrict_file_coverage :: "file_coverage list \<Rightarrow> string list \<Rightarrow> file_coverage list" where
  "restrict_file_coverage files relativeDirs =
     (let directories = map path_clean relativeDirs
      in filter (\<lambda>file. path_dir (fc_path file) \<in> set directories) files)"

definition restrict_coverage :: "coverage \<Rightarrow> string list \<Rightarrow> coverage" where
  "restrict_coverage c relativeDirs =
     \<lparr>Covered = restrict_file_coverage (Covered c) relativeDirs,
      Instrumented = restrict_file_coverage (Instrumented c) relativeDirs\<rparr>"

definition find_file_coverage :: "file_coverage list \<Rightarrow> string \<Rightarrow> file_coverage \<times> bool" where
  "find_file_coverage files path =
     (let index = bsearch (\<lambda>file. cmp_compare (fc_path file) path < 0) files 0 (length files)
      in if index < length files \<and> cmp_compare (fc_path (files ! index)) path = 0
         then (files ! index, True) else (no_file, False))"

definition covered_paths :: "file_coverage list \<Rightarrow> string list" where
  "covered_paths files = map fc_path files"

text \<open>The map from paths to sets of blocks, as association lists without duplicates.\<close>

type_synonym block_map = "(string \<times> coverage_block list) list"

fun remember_coverage_block :: "block_map \<Rightarrow> string \<Rightarrow> coverage_block \<Rightarrow> block_map" where
  "remember_coverage_block [] path block = [(path, [block])]"
| "remember_coverage_block ((p, file) # blocks) path block =
     (if p = path then (p, if block \<in> set file then file else file @ [block]) # blocks
      else (p, file) # remember_coverage_block blocks path block)"

definition sorted_file_coverage :: "block_map \<Rightarrow> file_coverage list" where
  "sorted_file_coverage blocks =
     sort_func (\<lambda>first second. cmp_compare (fc_path first) (fc_path second))
       (map (\<lambda>(path, unique).
          \<lparr>fc_path = path, fc_blocks = sort_func compare_coverage_blocks unique\<rparr>) blocks)"

definition remember_file :: "file_coverage \<Rightarrow> block_map \<Rightarrow> block_map" where
  "remember_file file blocks =
     fold (\<lambda>block m. remember_coverage_block m (fc_path file) block) (fc_blocks file) blocks"

definition merge_file_coverage :: "file_coverage list \<Rightarrow> file_coverage list \<Rightarrow> file_coverage list" where
  "merge_file_coverage first second =
     sorted_file_coverage (fold remember_file second (fold remember_file first []))"

section \<open>The parser of coverage profiles\<close>

definition parse_coverage_position :: "string \<Rightarrow> (int \<times> int) option" where
  "parse_coverage_position position =
     (case cut_at (CHR ''.'') position of
        None \<Rightarrow> None
      | Some (line, column) \<Rightarrow>
          (case atoi line of
             None \<Rightarrow> None
           | Some lineNumber \<Rightarrow>
               if lineNumber < 1 then None
               else (case atoi column of
                       None \<Rightarrow> None
                     | Some columnNumber \<Rightarrow>
                         if columnNumber < 1 then None else Some (lineNumber, columnNumber))))"

definition parse_coverage_span :: "string \<Rightarrow> coverage_block option" where
  "parse_coverage_span span =
     (case cut_at (CHR '','') span of
        None \<Rightarrow> None
      | Some (start, end_) \<Rightarrow>
          (case parse_coverage_position start of
             None \<Rightarrow> None
           | Some (sl, sc) \<Rightarrow>
               (case parse_coverage_position end_ of
                  None \<Rightarrow> None
                | Some (el, ec) \<Rightarrow>
                    if el < sl \<or> el = sl \<and> ec < sc then None
                    else Some \<lparr>StartLine = sl, StartColumn = sc, EndLine = el, EndColumn = ec\<rparr>)))"

datatype coverage_error =
    NoModeHeader
  | MalformedLine nat
  | MalformedCount nat
  | MalformedLocation nat
  | MalformedSpan nat
  | OutsideModule string string
  | LineTooLong

text \<open>
  \<open>bufio.Scanner\<close> with \<open>ScanLines\<close>: lines without their end-of-line bytes; a line
  that does not fit the scanner's 64 KiB buffer ends the scan with an error.
\<close>

fun scan_lines :: "string \<Rightarrow> string \<Rightarrow> string list" where
  "scan_lines cur [] = (if cur = [] then [] else [rev cur])"
| "scan_lines cur (c # cs) = (if c = newline then rev cur # scan_lines [] cs else scan_lines (c # cur) cs)"

definition drop_cr :: "string \<Rightarrow> string" where
  "drop_cr line = (if line \<noteq> [] \<and> last line = CHR 0x0D then butlast line else line)"

definition fits_scanner :: "string \<Rightarrow> bool" where
  "fits_scanner line = (int (length line) < 65536)"

definition scanned :: "string \<Rightarrow> string list" where
  "scanned profile = map drop_cr (takeWhile fits_scanner (scan_lines [] profile))"

definition scan_failed :: "string \<Rightarrow> bool" where
  "scan_failed profile = list_ex (\<lambda>line. \<not> fits_scanner line) (scan_lines [] profile)"

text \<open>
  One line of the profile after the header, then the loop over the lines; \<open>n\<close> is the
  number of lines read before this one.
\<close>

definition parse_coverage_line :: "string \<Rightarrow> nat \<Rightarrow> string \<Rightarrow> coverage_error + (string \<times> coverage_block \<times> bool)" where
  "parse_coverage_line modulePath n line =
     (let fs = string_fields line; lines = n + 1
      in if length fs \<noteq> 3 then Inl (MalformedLine (lines + 1))
         else (case parse_uint64 (fs ! 2) of
           None \<Rightarrow> Inl (MalformedCount (lines + 1))
         | Some hits \<Rightarrow>
             (let location = fs ! 0; colon = last_index location (CHR '':'')
              in if colon < 1 then Inl (MalformedLocation (lines + 1))
                 else (case parse_coverage_span (drop (nat colon + 1) location) of
                   None \<Rightarrow> Inl (MalformedSpan (lines + 1))
                 | Some block \<Rightarrow>
                     (let path = replace_backslash (take (nat colon) location);
                          prefix = trim_suffix modulePath ''/'' @ ''/''
                      in if \<not> has_prefix path prefix then Inl (OutsideModule path modulePath)
                         else Inr (trim_prefix path prefix, block, hits > 0))))))"

fun parse_coverage_lines ::
  "string \<Rightarrow> nat \<Rightarrow> string list \<Rightarrow> block_map \<Rightarrow> block_map \<Rightarrow> coverage_error + (block_map \<times> block_map)" where
  "parse_coverage_lines modulePath n [] covered instrumented = Inr (covered, instrumented)"
| "parse_coverage_lines modulePath n (line # rest) covered instrumented =
     (case parse_coverage_line modulePath n line of
        Inl e \<Rightarrow> Inl e
      | Inr (relative, block, hit) \<Rightarrow>
          parse_coverage_lines modulePath (n + 1) rest
            (if hit then remember_coverage_block covered relative block else covered)
            (remember_coverage_block instrumented relative block))"

definition parse_coverage :: "string \<Rightarrow> string \<Rightarrow> coverage_error + coverage" where
  "parse_coverage profile modulePath =
     (case scanned profile of
        [] \<Rightarrow> Inl NoModeHeader
      | header # lines \<Rightarrow>
          if \<not> has_prefix header ''mode: '' then Inl NoModeHeader
          else (case parse_coverage_lines modulePath 0 lines [] [] of
                  Inl e \<Rightarrow> Inl e
                | Inr (covered, instrumented) \<Rightarrow>
                    if scan_failed profile then Inl LineTooLong
                    else Inr \<lparr>Covered = sorted_file_coverage covered,
                              Instrumented = sorted_file_coverage instrumented\<rparr>))"

definition coverage_files :: "string \<Rightarrow> string \<Rightarrow> coverage_error + string list" where
  "coverage_files profile modulePath =
     (case parse_coverage profile modulePath of
        Inl e \<Rightarrow> Inl e | Inr c \<Rightarrow> Inr (covered_paths (Covered c)))"

section \<open>The comparison functions are orderings\<close>

lemma compare_coverage_blocks_eq [simp]: "compare_coverage_blocks x y = 0 \<longleftrightarrow> x = y"
  by (auto simp: compare_coverage_blocks_def compare_positions_def)

interpretation by_position: comparator compare_coverage_blocks
  unfolding compare_coverage_blocks_def compare_positions_def
  by (intro comparator_then comparator_compare)

interpretation by_path: comparator "\<lambda>a b. cmp_compare (fc_path a) (fc_path b)"
  by (rule comparator_compare)

lemma compare_positions_le:
  "compare_positions l c l' c' \<le> 0 \<longleftrightarrow> l < l' \<or> l = l' \<and> c \<le> c'"
  by (auto simp: compare_positions_def cmp_then_def cmp_compare_def)

section \<open>Lookup\<close>

lemma find_file_coverage_find:
  assumes "sorted_wrt (<) (map fc_path files)"
  shows "find_file_coverage files path =
    (case find (\<lambda>f. fc_path f = path) files of None \<Rightarrow> (no_file, False) | Some f \<Rightarrow> (f, True))"
proof -
  let ?below = "\<lambda>f. cmp_compare (fc_path f) path < 0"
  let ?i = "bsearch ?below files 0 (length files)"
  have path_less: "fc_path (files ! a) < fc_path (files ! b)" if "a < b" "b < length files" for a b
    using assms that by (simp add: sorted_wrt_iff_nth_less)
  have mono: "a \<le> b \<Longrightarrow> b < length files \<Longrightarrow> ?below (files ! b) \<Longrightarrow> ?below (files ! a)" for a b
    using path_less [of a b] by (cases "a = b") auto
  have split: "(\<forall>k < ?i. ?below (files ! k)) \<and> (\<forall>k. ?i \<le> k \<and> k < length files \<longrightarrow> \<not> ?below (files ! k))"
    by (rule bsearch_split) (use mono in auto)
  show ?thesis
  proof (cases "find (\<lambda>f. fc_path f = path) files")
    case None
    then have "\<forall>f \<in> set files. fc_path f \<noteq> path" by (auto simp: find_None_iff)
    then show ?thesis unfolding None by (auto simp: find_file_coverage_def Let_def)
  next
    case (Some f)
    then obtain k where k: "k < length files" "files ! k = f" "fc_path f = path"
      by (auto simp: find_Some_iff)
    have "?i \<le> k" using split k by (metis cmp_compare_less less_irrefl linorder_not_le)
    moreover have "\<not> ?i < k" using path_less [of ?i k] split k by auto
    ultimately have "?i = k" by simp
    with k Some show ?thesis by (simp add: find_file_coverage_def Let_def)
  qed
qed

lemma find_file_coverage_contains:
  assumes "sorted_wrt (<) (map fc_path files)"
  shows "file_contains (fst (find_file_coverage files path)) line column \<longleftrightarrow>
    (\<exists>f \<in> set files. fc_path f = path \<and> file_contains f line column)"
proof (cases "find (\<lambda>f. fc_path f = path) files")
  case None
  then have "\<forall>f \<in> set files. fc_path f \<noteq> path" by (auto simp: find_None_iff)
  then show ?thesis
    unfolding find_file_coverage_find [OF assms] None by (simp add: no_file_def file_contains_def)
next
  case (Some f)
  then obtain k where k: "k < length files" "files ! k = f" "fc_path f = path"
    by (auto simp: find_Some_iff)
  have "distinct (map fc_path files)"
    using assms by (simp add: strict_sorted_iff)
  then have "g = f" if "g \<in> set files" "fc_path g = path" for g
    using that k by (metis distinct_map inj_onD nth_mem)
  with k Some show ?thesis by (auto simp: find_file_coverage_find [OF assms])
qed

section \<open>The relation a coverage stands for\<close>

definition block_relation :: "block_map \<Rightarrow> (string \<times> coverage_block) set" where
  "block_relation blocks = {(path, block). \<exists>file. (path, file) \<in> set blocks \<and> block \<in> set file}"

definition file_relation :: "file_coverage list \<Rightarrow> (string \<times> coverage_block) set" where
  "file_relation files = {(path, block). \<exists>file \<in> set files. path = fc_path file \<and> block \<in> set (fc_blocks file)}"

definition wf_block_map :: "block_map \<Rightarrow> bool" where
  "wf_block_map blocks \<longleftrightarrow>
     distinct (map fst blocks) \<and> (\<forall>(path, file) \<in> set blocks. distinct file \<and> file \<noteq> [])"

text \<open>
  A well-formed file coverage: strictly ascending by path, and in each file at least one
  block, the blocks strictly ascending by position.
\<close>

definition wf_files :: "file_coverage list \<Rightarrow> bool" where
  "wf_files files \<longleftrightarrow>
     sorted_wrt (<) (map fc_path files) \<and>
     (\<forall>file \<in> set files. fc_blocks file \<noteq> [] \<and>
        sorted_wrt (\<lambda>a b. compare_coverage_blocks a b < 0) (fc_blocks file))"

lemma block_relation_Nil [simp]: "block_relation [] = {}"
  by (simp add: block_relation_def)

lemma block_relation_Cons:
  "block_relation ((p, file) # blocks) = Pair p ` set file \<union> block_relation blocks"
  by (auto simp: block_relation_def)

lemma block_relation_remember [simp]:
  "block_relation (remember_coverage_block blocks path block) = insert (path, block) (block_relation blocks)"
  by (induction blocks path block rule: remember_coverage_block.induct)
     (auto simp: block_relation_Cons)

lemma remember_keys:
  "fst ` set (remember_coverage_block blocks path block) = insert path (fst ` set blocks)"
  by (induction blocks path block rule: remember_coverage_block.induct) auto

lemma wf_remember:
  "wf_block_map blocks \<Longrightarrow> wf_block_map (remember_coverage_block blocks path block)"
proof (induction blocks path block rule: remember_coverage_block.induct)
  case (2 p bs blocks path block)
  show ?case
  proof (cases "p = path")
    case False
    with 2 have "wf_block_map (remember_coverage_block blocks path block)"
      by (auto simp: wf_block_map_def)
    moreover have "p \<notin> fst ` set (remember_coverage_block blocks path block)"
      using 2(2) False by (auto simp: remember_keys wf_block_map_def)
    ultimately show ?thesis using False 2(2) by (auto simp: wf_block_map_def)
  qed (use 2(2) in \<open>auto simp: wf_block_map_def\<close>)
qed (simp add: wf_block_map_def)

lemma wf_block_map_Nil [simp]: "wf_block_map []"
  by (simp add: wf_block_map_def)

lemma remember_file_props:
  "wf_block_map m \<Longrightarrow> wf_block_map (remember_file file m) \<and>
   block_relation (remember_file file m) = block_relation m \<union> Pair (fc_path file) ` set (fc_blocks file)"
proof -
  have "wf_block_map m \<Longrightarrow> wf_block_map (fold (\<lambda>b m. remember_coverage_block m p b) bs m) \<and>
    block_relation (fold (\<lambda>b m. remember_coverage_block m p b) bs m) = block_relation m \<union> Pair p ` set bs"
    for p bs m
    by (induction bs arbitrary: m) (auto simp: wf_remember)
  then show "wf_block_map m \<Longrightarrow> ?thesis" by (simp add: remember_file_def)
qed

lemma remember_files_props:
  "wf_block_map m \<Longrightarrow> wf_block_map (fold remember_file files m) \<and>
   block_relation (fold remember_file files m) = block_relation m \<union> file_relation files"
proof (induction files arbitrary: m)
  case Nil
  then show ?case by (simp add: file_relation_def)
next
  case (Cons f fs)
  from remember_file_props [OF Cons.prems] Cons.IH show ?case
    by (auto simp: file_relation_def)
qed

lemma strictly_sorted_blocks:
  "distinct bs \<Longrightarrow> sorted_wrt (\<lambda>a b. compare_coverage_blocks a b < 0) (sort_func compare_coverage_blocks bs)"
proof -
  assume "distinct bs"
  then have "distinct (sort_func compare_coverage_blocks bs)" by simp
  with by_position.sorted_sort_func show ?thesis
    by (auto simp: sorted_wrt_iff_nth_less distinct_conv_nth less_le)
qed

lemma sorted_file_coverage_relation:
  "file_relation (sorted_file_coverage blocks) = block_relation blocks"
  by (force simp: file_relation_def block_relation_def sorted_file_coverage_def)

lemma wf_sorted_file_coverage:
  assumes "wf_block_map blocks" shows "wf_files (sorted_file_coverage blocks)"
proof -
  let ?files = "sorted_file_coverage blocks"
  have paths: "map fc_path (map (\<lambda>(path, unique). \<lparr>fc_path = path, fc_blocks = sort_func compare_coverage_blocks unique\<rparr>) blocks) = map fst blocks"
    by (induction blocks) auto
  then have "distinct (map fc_path ?files)"
    using assms unfolding sorted_file_coverage_def distinct_sort_func paths by (simp add: wf_block_map_def)
  moreover have "sorted (map fc_path ?files)"
    using by_path.sorted_sort_func by (simp add: sorted_file_coverage_def sorted_map)
  moreover have "fc_blocks f \<noteq> [] \<and> sorted_wrt (\<lambda>a b. compare_coverage_blocks a b < 0) (fc_blocks f)"
    if "f \<in> set ?files" for f
    using that assms by (auto simp: sorted_file_coverage_def wf_block_map_def strictly_sorted_blocks)
  ultimately show ?thesis by (simp add: wf_files_def strict_sorted_iff)
qed

lemma find_contains_relation:
  assumes "wf_files files"
  shows "file_contains (fst (find_file_coverage files path)) line column \<longleftrightarrow>
    (\<exists>block. (path, block) \<in> file_relation files \<and> block_contains block line column)"
  using assms find_file_coverage_contains [of files path line column]
  by (auto simp: wf_files_def file_relation_def file_contains_def list_ex_iff)


section \<open>Properties\<close>

definition valid_block :: "coverage_block \<Rightarrow> bool" where
  "valid_block b \<longleftrightarrow>
     1 \<le> StartLine b \<and> 1 \<le> StartColumn b \<and> 1 \<le> EndLine b \<and> 1 \<le> EndColumn b \<and>
     compare_positions (StartLine b) (StartColumn b) (EndLine b) (EndColumn b) \<le> 0"

lemma parse_coverage_position_Some:
  "parse_coverage_position s = Some (l, c) \<Longrightarrow> 1 \<le> l \<and> 1 \<le> c"
  by (auto simp: parse_coverage_position_def split: option.splits if_splits)

lemma parse_coverage_span_valid: "parse_coverage_span s = Some b \<Longrightarrow> valid_block b"
  by (auto simp: parse_coverage_span_def valid_block_def compare_positions_le
      split: option.splits if_splits dest!: parse_coverage_position_Some)

lemma parse_coverage_line_valid:
  "parse_coverage_line m n line = Inr (p, b, hit) \<Longrightarrow> valid_block b"
  by (auto simp: parse_coverage_line_def Let_def split: option.splits if_splits
      dest: parse_coverage_span_valid)

definition good_maps :: "block_map \<Rightarrow> block_map \<Rightarrow> bool" where
  "good_maps covered instrumented \<longleftrightarrow>
     wf_block_map covered \<and> wf_block_map instrumented \<and>
     block_relation covered \<subseteq> block_relation instrumented \<and>
     (\<forall>(p, b) \<in> block_relation instrumented. valid_block b)"

lemma parse_coverage_lines_good:
  "parse_coverage_lines m n lines covered instrumented = Inr (covered', instrumented') \<Longrightarrow>
   good_maps covered instrumented \<Longrightarrow> good_maps covered' instrumented'"
proof (induction m n lines covered instrumented rule: parse_coverage_lines.induct)
  case (2 m n line rest covered instrumented)
  then obtain p b hit where line: "parse_coverage_line m n line = Inr (p, b, hit)"
    by (auto split: sum.splits)
  have "good_maps (if hit then remember_coverage_block covered p b else covered)
          (remember_coverage_block instrumented p b)"
    using "2.prems"(2) parse_coverage_line_valid [OF line]
    by (auto simp: good_maps_def wf_remember)
  with 2 line show ?case by auto
qed simp

text \<open>
  Whatever \<open>ParseCoverage\<close> accepts is sorted and free of duplicates in both of its
  halves, holds only blocks whose positions are positive and ordered, and every block it
  reports as covered is a block it reports as instrumented.
\<close>

theorem parse_coverage_well_formed:
  assumes "parse_coverage profile modulePath = Inr c"
  shows "wf_files (Covered c) \<and> wf_files (Instrumented c) \<and>
    file_relation (Covered c) \<subseteq> file_relation (Instrumented c) \<and>
    (\<forall>(path, block) \<in> file_relation (Instrumented c). valid_block block)"
proof -
  from assms obtain lines covered instrumented where
    parsed: "parse_coverage_lines modulePath 0 lines [] [] = Inr (covered, instrumented)" and
    c: "c = \<lparr>Covered = sorted_file_coverage covered, Instrumented = sorted_file_coverage instrumented\<rparr>"
    by (auto simp: parse_coverage_def split: list.splits if_splits sum.splits)
  have "good_maps [] []" by (simp add: good_maps_def)
  with parsed have "good_maps covered instrumented" by (rule parse_coverage_lines_good)
  then show ?thesis
    by (simp add: c good_maps_def wf_sorted_file_coverage sorted_file_coverage_relation)
qed

definition sample_profile :: string where
  "sample_profile = ''mode: set'' @ [newline] @ ''m.test/a.go:3.2,5.16 1 1'' @ [newline] @
     ''m.test/a.go:7.2,9.3 2 0'' @ [newline]"

theorem parse_coverage_well_formed_witness:
  "\<exists>c. parse_coverage sample_profile ''m.test'' = Inr c \<and> wf_files (Covered c) \<and>
       file_relation (Covered c) \<subseteq> file_relation (Instrumented c)"
proof -
  have run: "parse_coverage sample_profile ''m.test'' =
    Inr \<lparr>Covered = [\<lparr>fc_path = ''a.go'', fc_blocks = [\<lparr>StartLine = 3, StartColumn = 2, EndLine = 5, EndColumn = 16\<rparr>]\<rparr>],
         Instrumented = [\<lparr>fc_path = ''a.go'', fc_blocks =
           [\<lparr>StartLine = 3, StartColumn = 2, EndLine = 5, EndColumn = 16\<rparr>,
            \<lparr>StartLine = 7, StartColumn = 2, EndLine = 9, EndColumn = 3\<rparr>]\<rparr>]\<rparr>"
    by code_simp
  from parse_coverage_well_formed [OF run] run show ?thesis by blast
qed

text \<open>
  Looking a position up in a merged coverage answers as looking it up in either of the
  two: \<open>MergeFileCoverage\<close> followed by \<open>FindFileCoverage\<close> and \<open>Contains\<close> is the
  disjunction of the two lookups, for every file and every position.
\<close>

theorem merge_contains:
  assumes "wf_files first" and "wf_files second"
  shows "file_contains (fst (find_file_coverage (merge_file_coverage first second) path)) line column \<longleftrightarrow>
    file_contains (fst (find_file_coverage first path)) line column \<or>
    file_contains (fst (find_file_coverage second path)) line column"
proof -
  have wf1: "wf_block_map (fold remember_file first [])"
    and rel1: "block_relation (fold remember_file first []) = file_relation first"
    using remember_files_props [of "[]" first] by simp_all
  from remember_files_props [OF wf1, of second] rel1
  have "wf_files (merge_file_coverage first second)"
    and "file_relation (merge_file_coverage first second) = file_relation first \<union> file_relation second"
    by (simp_all add: merge_file_coverage_def wf_sorted_file_coverage sorted_file_coverage_relation)
  then show ?thesis using assms by (auto simp: find_contains_relation)
qed

theorem merge_contains_witness:
  "let a = [\<lparr>fc_path = ''a.go'', fc_blocks = [\<lparr>StartLine = 3, StartColumn = 2, EndLine = 5, EndColumn = 16\<rparr>]\<rparr>];
       b = [\<lparr>fc_path = ''a.go'', fc_blocks = [\<lparr>StartLine = 7, StartColumn = 2, EndLine = 9, EndColumn = 3\<rparr>]\<rparr>]
   in file_contains (fst (find_file_coverage (merge_file_coverage a b) ''a.go'')) 8 1"
proof -
  let ?a = "[\<lparr>fc_path = ''a.go'', fc_blocks = [\<lparr>StartLine = 3, StartColumn = 2, EndLine = 5, EndColumn = 16\<rparr>]\<rparr>]"
  let ?b = "[\<lparr>fc_path = ''a.go'', fc_blocks = [\<lparr>StartLine = 7, StartColumn = 2, EndLine = 9, EndColumn = 3\<rparr>]\<rparr>]"
  have wf: "wf_files ?a" "wf_files ?b" by (simp_all add: wf_files_def)
  have "file_contains (fst (find_file_coverage ?b ''a.go'')) 8 1" by code_simp
  with merge_contains [OF wf, of "''a.go''" 8 1] show ?thesis by (simp add: Let_def)
qed

definition render_span :: "coverage_block \<Rightarrow> string" where
  "render_span b = itoa (StartLine b) @ ''.'' @ itoa (StartColumn b) @ '','' @
     itoa (EndLine b) @ ''.'' @ itoa (EndColumn b)"

definition small_positions :: "coverage_block \<Rightarrow> bool" where
  "small_positions b \<longleftrightarrow>
     StartLine b < 2 ^ 63 \<and> StartColumn b < 2 ^ 63 \<and> EndLine b < 2 ^ 63 \<and> EndColumn b < 2 ^ 63"

lemma itoa_chars: "1 \<le> i \<Longrightarrow> \<not> is_digit c \<Longrightarrow> c \<notin> set (itoa i)"
  by (simp add: itoa_def digit_not_in_show_nat)

lemma parse_position_render:
  assumes "1 \<le> l" "1 \<le> c" "l < 2 ^ 63" "c < 2 ^ 63"
  shows "parse_coverage_position (itoa l @ ''.'' @ itoa c) = Some (l, c)"
  using assms cut_at_append [of "CHR ''.''" "itoa l" "itoa c"] itoa_chars [of l "CHR ''.''"]
  by (simp add: parse_coverage_position_def atoi_itoa)

text \<open>
  A span written with \<open>strconv.Itoa\<close> the way the Go tool writes it into a profile is
  read back by \<open>parseCoverageSpan\<close> as the block it came from.
\<close>

theorem parse_coverage_span_roundtrip:
  assumes "valid_block b" and "small_positions b"
  shows "parse_coverage_span (render_span b) = Some b"
proof -
  let ?begun = "itoa (StartLine b) @ ''.'' @ itoa (StartColumn b)"
  let ?finish = "itoa (EndLine b) @ ''.'' @ itoa (EndColumn b)"
  have "CHR '','' \<notin> set ?begun"
    using assms by (auto simp: valid_block_def itoa_chars)
  then have cut: "cut_at (CHR '','') (render_span b) = Some (?begun, ?finish)"
    using cut_at_append [of "CHR '',''" ?begun ?finish] by (simp add: render_span_def)
  have start: "parse_coverage_position ?begun = Some (StartLine b, StartColumn b)"
    by (rule parse_position_render) (use assms in \<open>simp_all add: valid_block_def small_positions_def\<close>)
  have end_: "parse_coverage_position ?finish = Some (EndLine b, EndColumn b)"
    by (rule parse_position_render) (use assms in \<open>simp_all add: valid_block_def small_positions_def\<close>)
  have "\<not> (EndLine b < StartLine b \<or> EndLine b = StartLine b \<and> EndColumn b < StartColumn b)"
    using assms(1) unfolding valid_block_def compare_positions_le by linarith
  then show ?thesis
    unfolding parse_coverage_span_def cut option.case prod.case start end_ by simp
qed

theorem parse_coverage_span_roundtrip_witness:
  "let b = \<lparr>StartLine = 12, StartColumn = 2, EndLine = 14, EndColumn = 30\<rparr>
   in parse_coverage_span (render_span b) = Some b"
proof -
  let ?b = "\<lparr>StartLine = 12, StartColumn = 2, EndLine = 14, EndColumn = 30\<rparr>"
  have "valid_block ?b" "small_positions ?b"
    by (simp_all add: valid_block_def small_positions_def compare_positions_le)
  from parse_coverage_span_roundtrip [OF this] show ?thesis by (simp add: Let_def)
qed

end
