(* ===== verification/Targets.thy ===== *)
theory Targets
  imports Coverage "HOL-Library.AList"
begin

text \<open>
  The data mutation evaluation works on: targets and their measured evidence
  (\<open>internal/golang/targets.go\<close>, \<open>internal/assure/mutation.go\<close>,
  \<open>baseline.go\<close>, \<open>probe.go\<close>), what the source reads of a mutant and of the requests and
  results of the go-mutants library (which is not part of the repository, so its types hold
  the fields the source uses and nothing more), durations, and the environment a target
  behaves by. A \<open>nil\<close> coverage is \<open>None\<close>: the source tells it from an empty one.
\<close>

section \<open>Data\<close>

record target =
  t_ID :: string
  t_Name :: string
  t_Kind :: string
  t_Package :: string
  t_RelativeDir :: string
  t_Path :: string
  t_Line :: int
  t_Capabilities :: "string list"
  t_Dependencies :: "string list"

record target_evidence =
  te_Target :: target
  te_CoveredFiles :: "string list"
  te_Covered :: "file_coverage list option"
  te_Instrumented :: "file_coverage list option"
  te_Environment :: "string list"
  te_Duration :: int
  te_ProbeDuration :: int
  te_WholeTree :: bool
  te_Probed :: bool
  te_Infected :: "nat list"

abbreviation te_ID :: "target_evidence \<Rightarrow> string" where
  "te_ID target \<equiv> t_ID (te_Target target)"

definition infects :: "target_evidence \<Rightarrow> nat \<Rightarrow> bool" where
  "infects evidence index =
     (if \<not> te_Probed evidence then True else binary_search (te_Infected evidence) index)"

definition covered_list :: "target_evidence \<Rightarrow> file_coverage list" where
  "covered_list target = (case te_Covered target of None \<Rightarrow> [] | Some files \<Rightarrow> files)"

record branch_proof =
  BodyStartLine :: int
  BodyStartColumn :: int
  BodyEndLine :: int
  BodyEndColumn :: int

record mutant =
  mu_ID :: string
  mu_DisplayID :: string
  mu_Accepted :: bool
  mu_Path :: string
  mu_Package :: string
  mu_Rule :: string
  mu_Line :: int
  mu_Column :: int
  mu_Index :: nat
  mu_Probed :: bool
  mu_Branch :: "branch_proof option"
  mu_Original :: string
  mu_Replacement :: string

record rejection =
  rj_ID :: string
  rj_Diagnostic :: string

record catalog =
  cat_Mutants :: "mutant list"
  cat_Rejections :: "rejection list"

record exec_request =
  rq_Mutant :: string
  rq_Package :: string
  rq_Args :: "string list"
  rq_Env :: "string list"
  rq_Timeout :: int

record package_suite_coverage =
  sv_Covered :: "file_coverage list"
  sv_Instrumented :: "file_coverage list"
  sv_Duration :: int
  sv_WholeTree :: bool

record package_probe_evidence =
  pe_Measured :: bool
  pe_Infected :: "nat list"
  pe_Duration :: int
  pe_WholeTree :: bool

section \<open>Durations\<close>

text \<open>\<open>time.Duration\<close> is an \<open>int64\<close>; the sums saturate instead of wrapping around.\<close>

definition saturating_duration_sum :: "int \<Rightarrow> int \<Rightarrow> int" where
  "saturating_duration_sum acc duration =
     (if duration \<le> 0 then acc
      else if duration > wrap64 (max_int64 - acc) then max_int64
      else wrap64 (acc + duration))"

fun execution_timeout_from :: "int \<Rightarrow> int \<Rightarrow> int list \<Rightarrow> int" where
  "execution_timeout_from limit timeout [] = timeout"
| "execution_timeout_from limit timeout (sample # samples) =
     (let timeout' = saturating_duration_sum timeout sample
      in if limit > 0 \<and> timeout' \<ge> limit then limit
         else execution_timeout_from limit timeout' samples)"

definition mutation_execution_timeout :: "int \<Rightarrow> int list \<Rightarrow> int" where
  "mutation_execution_timeout limit samples = execution_timeout_from limit 0 samples"

definition control_execution_timeout :: "int \<Rightarrow> int list \<Rightarrow> int" where
  "control_execution_timeout limit samples =
     (let timeout = mutation_execution_timeout limit samples
      in if timeout = 0 then limit else timeout)"

definition mutation_planning_duration :: "target_evidence \<Rightarrow> int" where
  "mutation_planning_duration target =
     (if te_ProbeDuration target > 0 then te_ProbeDuration target else te_Duration target)"

definition is_duration :: "int \<Rightarrow> bool" where
  "is_duration d \<longleftrightarrow> - (2 ^ 63) \<le> d \<and> d \<le> max_int64"

lemma max_int64_pos: "0 < max_int64"
  by (simp add: max_int64_def)

lemma saturating_duration_sum_eq:
  assumes "0 \<le> acc" "acc \<le> max_int64" "is_duration d"
  shows "saturating_duration_sum acc d = min max_int64 (acc + max 0 d)"
proof -
  have "wrap64 (max_int64 - acc) = max_int64 - acc"
    using assms by (intro wrap64_id) (simp_all add: max_int64_def)
  moreover have "acc + d \<le> max_int64 \<Longrightarrow> 0 < d \<Longrightarrow> wrap64 (acc + d) = acc + d"
    using assms by (intro wrap64_id) (simp_all add: max_int64_def)
  ultimately show ?thesis
    using assms unfolding saturating_duration_sum_def by (auto simp: min_def max_def)
qed

text \<open>
  What a timeout computes: the sum of the positive samples, cut at the largest duration and
  at the limit.
\<close>

definition positive_sum :: "int list \<Rightarrow> int" where
  "positive_sum samples = sum_list (map (max 0) samples)"

lemma positive_sum_simps [simp]:
  "positive_sum [] = 0" "positive_sum (x # xs) = max 0 x + positive_sum xs"
  by (simp_all add: positive_sum_def)

lemma positive_sum_nonneg [simp]: "0 \<le> positive_sum xs"
  by (induction xs) auto

lemma execution_timeout_from_eq:
  assumes "0 \<le> t" "t \<le> max_int64" "list_all is_duration samples" "limit > 0 \<longrightarrow> t < limit"
  shows "execution_timeout_from limit t samples =
    (if limit > 0 then min limit (min max_int64 (t + positive_sum samples))
     else min max_int64 (t + positive_sum samples))"
  using assms
proof (induction samples arbitrary: t)
  case (Cons s samples)
  let ?t = "saturating_duration_sum t s"
  have t: "?t = min max_int64 (t + max 0 s)"
    using Cons.prems by (intro saturating_duration_sum_eq) auto
  show ?case
  proof (cases "limit > 0 \<and> ?t \<ge> limit")
    case True
    have nn: "0 \<le> positive_sum samples" by (rule positive_sum_nonneg)
    have run: "execution_timeout_from limit t (s # samples) = limit"
      using True by (simp add: Let_def)
    have "limit \<le> max_int64" "limit \<le> t + max 0 s" using True t by linarith+
    then have "limit \<le> min max_int64 (t + positive_sum (s # samples))"
      using nn positive_sum_simps(2) [of s samples] by linarith
    then show ?thesis using run True by simp
  next
    case False
    have bounds: "0 \<le> ?t" "?t \<le> max_int64" "limit > 0 \<longrightarrow> ?t < limit"
      using t Cons.prems False max_int64_pos by (auto simp: min_def max_def)
    have "execution_timeout_from limit t (s # samples) = execution_timeout_from limit ?t samples"
      using False by (auto simp: Let_def)
    also have "\<dots> = (if limit > 0 then min limit (min max_int64 (?t + positive_sum samples))
        else min max_int64 (?t + positive_sum samples))"
      using bounds Cons.prems by (intro Cons.IH) auto
    also have "min max_int64 (?t + positive_sum samples) = min max_int64 (t + positive_sum (s # samples))"
      using t positive_sum_nonneg [of samples] positive_sum_simps(2) [of s samples] by linarith
    finally show ?thesis .
  qed
qed (auto simp: min_def)

text \<open>
  A mutation's timeout is the saturated sum of its positive samples, and never more than
  the configured limit where there is one: no run of samples, however large, wraps around to
  a short or a negative budget.
\<close>

theorem mutation_execution_timeout_saturates:
  assumes "list_all is_duration samples"
  shows "mutation_execution_timeout limit samples =
    (if limit > 0 then min limit (min max_int64 (positive_sum samples))
     else min max_int64 (positive_sum samples))"
  using execution_timeout_from_eq [of 0 samples limit] assms max_int64_pos
  by (simp add: mutation_execution_timeout_def)

theorem mutation_execution_timeout_saturates_witness:
  "mutation_execution_timeout 0 [max_int64, 5, -3] = max_int64"
proof -
  have "list_all is_duration [max_int64, 5, -3]" by (simp add: is_duration_def max_int64_def)
  from mutation_execution_timeout_saturates [OF this, of 0] show ?thesis
    by (simp add: max_int64_def)
qed

section \<open>The environment a target behaves by\<close>

definition put_environment :: "string \<Rightarrow> (string \<times> string) list \<Rightarrow> (string \<times> string) list" where
  "put_environment entry values =
     (case cut_at (CHR ''='') entry of
        None \<Rightarrow> values
      | Some (key, value_) \<Rightarrow> if key = [] then values else AList.update key value_ values)"

text \<open>Keys are compared as they are written, as on every platform but Windows.\<close>

definition target_behavior_environment :: "string list \<Rightarrow> string list \<Rightarrow> string list" where
  "target_behavior_environment base overlay =
     sort_slice (map (\<lambda>(key, v). key @ ''='' @ v) (fold put_environment (base @ overlay) []))"

definition mutation_execution_environment :: "target_evidence \<Rightarrow> string" where
  "mutation_execution_environment target =
     t_Package (te_Target target) @ [nul] @
     join [nul] (target_behavior_environment [] (te_Environment target))"

section \<open>Requests\<close>

text \<open>\<open>regexp.QuoteMeta\<close>\<close>

definition regexp_meta :: string where
  "regexp_meta = backslash # ''.+*?()|[]{}^$''"

definition quote_meta :: "string \<Rightarrow> string" where
  "quote_meta s = concat (map (\<lambda>c. if c \<in> set regexp_meta then [backslash, c] else [c]) s)"

definition target_run_argument :: "target_evidence \<Rightarrow> string" where
  "target_run_argument target = ''-test.run=^'' @ quote_meta (t_Name (te_Target target)) @ ''$''"

definition batch_run_argument :: "target_evidence list \<Rightarrow> string" where
  "batch_run_argument targets =
     ''-test.run=^('' @ join ''|'' (map (\<lambda>t. quote_meta (t_Name (te_Target t))) targets) @ '')$''"

definition seed_request :: "mutant \<Rightarrow> target_evidence \<Rightarrow> int \<Rightarrow> exec_request" where
  "seed_request mutant target timeout =
     \<lparr>rq_Mutant = mu_ID mutant, rq_Package = t_Package (te_Target target),
      rq_Args = [target_run_argument target], rq_Env = te_Environment target, rq_Timeout = timeout\<rparr>"

definition batch_seed_request :: "mutant \<Rightarrow> target_evidence list \<Rightarrow> int \<Rightarrow> exec_request" where
  "batch_seed_request mutant targets timeout =
     (if length targets = 1 then seed_request mutant (targets ! 0) timeout
      else \<lparr>rq_Mutant = mu_ID mutant, rq_Package = t_Package (te_Target (targets ! 0)),
            rq_Args = [batch_run_argument targets], rq_Env = te_Environment (targets ! 0),
            rq_Timeout = timeout\<rparr>)"

definition batch_mutation_detail :: "target_evidence list \<Rightarrow> string" where
  "batch_mutation_detail targets =
     (if length targets = 1 then t_Name (te_Target (targets ! 0))
      else t_Package (te_Target (targets ! 0)) @ '' ('' @ itoa (int (length targets)) @ '' related targets)'')"

definition batch_mutation_plan :: "target_evidence list \<Rightarrow> string" where
  "batch_mutation_plan targets =
     (if length targets = 1 then ''individual:'' @ t_Name (te_Target (targets ! 0))
      else ''batch:'' @ t_Package (te_Target (targets ! 0)) @ ''('' @ itoa (int (length targets)) @ '')'')"

section \<open>Groups of targets that run together\<close>

definition compare_mutation_group_targets :: "target_evidence \<Rightarrow> target_evidence \<Rightarrow> int" where
  "compare_mutation_group_targets first second =
     cmp_then (cmp_compare (t_Package (te_Target first)) (t_Package (te_Target second)))
     (cmp_then (cmp_compare (t_Name (te_Target first)) (t_Name (te_Target second)))
     (cmp_then (cmp_compare (t_Kind (te_Target first)) (t_Kind (te_Target second)))
       (cmp_compare (te_ID first) (te_ID second))))"

definition mutation_group_planning_duration :: "target_evidence list \<Rightarrow> int" where
  "mutation_group_planning_duration targets =
     foldl (\<lambda>duration target. saturating_duration_sum duration (mutation_planning_duration target)) 0 targets"

definition compare_mutation_groups :: "target_evidence list \<Rightarrow> target_evidence list \<Rightarrow> int" where
  "compare_mutation_groups first second =
     cmp_then
       (cmp_compare (mutation_group_planning_duration first) (mutation_group_planning_duration second))
       (cmp_compare (mutation_execution_environment (first ! 0)) (mutation_execution_environment (second ! 0)))"

text \<open>
  The loop that appends a target to the group of its environment, opening a group at the end
  for an environment not seen before.
\<close>

fun add_to_group :: "target_evidence \<Rightarrow> (string \<times> target_evidence list) list \<Rightarrow> (string \<times> target_evidence list) list" where
  "add_to_group target [] = [(mutation_execution_environment target, [target])]"
| "add_to_group target ((key, batch) # groups) =
     (if key = mutation_execution_environment target then (key, batch @ [target]) # groups
      else (key, batch) # add_to_group target groups)"

definition mutation_target_groups :: "target_evidence list \<Rightarrow> target_evidence list list" where
  "mutation_target_groups targets =
     sort_func compare_mutation_groups
       (map (\<lambda>(key, batch). sort_func compare_mutation_group_targets batch) (fold add_to_group targets []))"

definition batch_mutation_control_durations :: "target_evidence list \<Rightarrow> int \<times> int" where
  "batch_mutation_control_durations targets =
     foldl (\<lambda>(baseline, probe) target.
        (saturating_duration_sum baseline (te_Duration target),
         saturating_duration_sum probe (te_ProbeDuration target))) (0, 0) targets"

interpretation group_targets: comparator compare_mutation_group_targets
  unfolding compare_mutation_group_targets_def by (intro comparator_then comparator_compare)

interpretation target_groups: comparator compare_mutation_groups
  unfolding compare_mutation_groups_def
  by (intro comparator_then comparator_compare comparator_compare [of "\<lambda>g. mutation_execution_environment (g ! 0)"])

definition group_table :: "(string \<times> target_evidence list) list \<Rightarrow> bool" where
  "group_table groups \<longleftrightarrow>
     distinct (map fst groups) \<and>
     (\<forall>(key, batch) \<in> set groups. batch \<noteq> [] \<and> (\<forall>t \<in> set batch. mutation_execution_environment t = key))"

lemma add_to_group_keys:
  "fst ` set (add_to_group t groups) = insert (mutation_execution_environment t) (fst ` set groups)"
  by (induction t groups rule: add_to_group.induct) auto

lemma group_table_add: "group_table groups \<Longrightarrow> group_table (add_to_group t groups)"
proof (induction t groups rule: add_to_group.induct)
  case (2 t key batch groups)
  show ?case
  proof (cases "key = mutation_execution_environment t")
    case False
    have "group_table (add_to_group t groups)"
      using 2 False by (auto simp: group_table_def)
    moreover have "key \<notin> fst ` set (add_to_group t groups)"
      using 2(2) False by (auto simp: add_to_group_keys group_table_def)
    ultimately show ?thesis using False 2(2) by (auto simp: group_table_def)
  qed (use 2(2) in \<open>auto simp: group_table_def\<close>)
qed (simp add: group_table_def)

lemma add_to_group_mset:
  "mset (concat (map snd (add_to_group t groups))) = add_mset t (mset (concat (map snd groups)))"
  by (induction t groups rule: add_to_group.induct) auto

lemma group_table_fold:
  "group_table groups \<Longrightarrow> group_table (fold add_to_group ts groups) \<and>
   mset (concat (map snd (fold add_to_group ts groups))) = mset ts + mset (concat (map snd groups))"
  by (induction ts arbitrary: groups) (simp_all add: group_table_add add_to_group_mset)

lemma mset_concat_map: "(\<And>g. mset (f g) = mset (snd g)) \<Longrightarrow> mset (concat (map f gs)) = mset (concat (map snd gs))"
  by (induction gs) auto

lemma target_groups_table:
  "\<exists>table. group_table table \<and> mset (concat (map snd table)) = mset ts \<and>
     mset (mutation_target_groups ts) =
     mset (map (\<lambda>(key, batch). sort_func compare_mutation_group_targets batch) table)"
  using group_table_fold [of "[]" ts]
  by (intro exI [of _ "fold add_to_group ts []"]) (simp add: group_table_def mutation_target_groups_def)

lemma mutation_target_groups_set:
  "g \<in> set (mutation_target_groups ts) \<Longrightarrow> g \<noteq> [] \<and> set g \<subseteq> set ts"
proof -
  assume g: "g \<in> set (mutation_target_groups ts)"
  obtain table where table: "group_table table" "mset (concat (map snd table)) = mset ts"
    "mset (mutation_target_groups ts) = mset (map (\<lambda>(key, batch). sort_func compare_mutation_group_targets batch) table)"
    using target_groups_table by blast
  from table(3) have "set (mutation_target_groups ts) = set (map (\<lambda>(key, batch). sort_func compare_mutation_group_targets batch) table)"
    by (rule mset_eq_setD)
  with g obtain key batch where kg: "(key, batch) \<in> set table"
    and eq: "g = sort_func compare_mutation_group_targets batch" by auto
  from table(2) have "set (concat (map snd table)) = set ts" by (rule mset_eq_setD)
  with kg have "set batch \<subseteq> set ts" by force
  with kg eq table(1) show ?thesis by (auto simp: group_table_def)
qed

text \<open>
  Grouping loses no target and runs none twice: the groups are a partition of the
  targets into non-empty batches that share their package and their environment, and two
  different batches never share both.
\<close>

theorem mutation_target_groups_partition:
  "mset (concat (mutation_target_groups ts)) = mset ts \<and>
   (\<forall>g \<in> set (mutation_target_groups ts). g \<noteq> [] \<and>
      (\<forall>t \<in> set g. mutation_execution_environment t = mutation_execution_environment (g ! 0))) \<and>
   distinct (map (\<lambda>g. mutation_execution_environment (g ! 0)) (mutation_target_groups ts))"
proof -
  let ?sort = "\<lambda>(key, batch). sort_func compare_mutation_group_targets batch"
  let ?env = "\<lambda>g. mutation_execution_environment (g ! 0)"
  obtain table where wf: "group_table table" and ts: "mset (concat (map snd table)) = mset ts"
    and groups: "mset (mutation_target_groups ts) = mset (map ?sort table)"
    using target_groups_table by blast
  have key: "?env (?sort kg) = fst kg \<and> ?sort kg \<noteq> [] \<and> (\<forall>t \<in> set (?sort kg). mutation_execution_environment t = fst kg)"
    if "kg \<in> set table" for kg
  proof -
    obtain k g where kg: "kg = (k, g)" by (cases kg)
    have "sort_func compare_mutation_group_targets g ! 0 \<in> set g"
      using that wf kg by (metis (mono_tags, lifting) group_table_def length_greater_0_conv nth_mem old.prod.case set_sort_func sort_func_eq_Nil)
    with that wf kg show ?thesis by (auto simp: group_table_def)
  qed
  have "mset (concat (mutation_target_groups ts)) = mset (concat (map ?sort table))"
    using groups by (rule mset_concat_perm)
  also have "\<dots> = mset (concat (map snd table))" by (rule mset_concat_map) (simp add: case_prod_beta)
  also note ts
  finally have concat: "mset (concat (mutation_target_groups ts)) = mset ts" .
  have elems: "set (mutation_target_groups ts) = ?sort ` set table"
    using mset_eq_setD [OF groups] by simp
  have "mset (map ?env (mutation_target_groups ts)) = mset (map ?env (map ?sort table))"
    using groups by (metis mset_map)
  also have "map ?env (map ?sort table) = map fst table" using key by simp
  finally have "distinct (map ?env (mutation_target_groups ts))"
    using wf by (metis group_table_def mset_eq_imp_distinct_iff)
  with concat elems key show ?thesis by auto
qed


definition sample_target :: "string \<Rightarrow> string \<Rightarrow> string list \<Rightarrow> target_evidence" where
  "sample_target i pkg environment =
     \<lparr>te_Target = \<lparr>t_ID = i, t_Name = ''Test'' @ i, t_Kind = ''test'', t_Package = pkg, t_RelativeDir = ''.'',
        t_Path = ''a_test.go'', t_Line = 1, t_Capabilities = [], t_Dependencies = []\<rparr>,
      te_CoveredFiles = [''a.go''], te_Covered = Some [], te_Instrumented = None,
      te_Environment = environment, te_Duration = 5, te_ProbeDuration = 0, te_WholeTree = False,
      te_Probed = False, te_Infected = []\<rparr>"

theorem mutation_target_groups_partition_witness:
  "let ts = [sample_target ''1'' ''p'' [], sample_target ''2'' ''p'' [''A=1''], sample_target ''3'' ''p'' []]
   in length (mutation_target_groups ts) = 2 \<and> mset (concat (mutation_target_groups ts)) = mset ts"
proof -
  let ?ts = "[sample_target ''1'' ''p'' [], sample_target ''2'' ''p'' [''A=1''], sample_target ''3'' ''p'' []]"
  have "length (mutation_target_groups ?ts) = 2" by code_simp
  then show ?thesis using mutation_target_groups_partition [of ?ts] by (simp add: Let_def)
qed

end
