(* ===== verification/Routing.thy ===== *)
theory Routing
  imports Targets
begin

text \<open>
  Which targets are run against a mutant, which are discharged without running, and when the
  package suite decides instead (\<open>routeMutant\<close> to \<open>compareMutationWitnesses\<close> of
  \<open>internal/assure/mutation.go\<close>, with the trace record a route leaves,
  \<open>internal/trace/event.go\<close>). A map of the source from target IDs is a set or an
  association list here, a map from packages a partial function.
\<close>

section \<open>Routes\<close>

record discharge =
  d_Target :: string
  d_Reason :: string

record mutation_route =
  mr_reaching :: "target_evidence list"
  mr_discharged :: "discharge list"
  mr_probeReaching :: "string list"
  mr_suiteCoverage :: string
  mr_suiteReached :: bool
  mr_suiteProbe :: string
  mr_suiteInfected :: bool
  mr_suiteDuration :: int
  mr_suiteWholeTree :: bool
  mr_granularity :: string
  mr_fallback :: string
  mr_fileCandidates :: nat

definition empty_route :: mutation_route where
  "empty_route =
     \<lparr>mr_reaching = [], mr_discharged = [], mr_probeReaching = [], mr_suiteCoverage = [],
      mr_suiteReached = False, mr_suiteProbe = [], mr_suiteInfected = False, mr_suiteDuration = 0,
      mr_suiteWholeTree = False, mr_granularity = [], mr_fallback = [], mr_fileCandidates = 0\<rparr>"

record route_record =
  rr_MutantID :: string
  rr_Rule :: string
  rr_Path :: string
  rr_Line :: int
  rr_Column :: int
  rr_ReachingTargets :: "string list"
  rr_Plan :: "string list"
  rr_Reason :: string
  rr_Granularity :: string
  rr_Fallback :: string
  rr_FileCandidates :: nat
  rr_Discharged :: "discharge list"
  rr_ProbeReaching :: "string list"
  rr_SuiteCoverage :: string
  rr_SuiteReached :: bool
  rr_SuiteProbe :: string
  rr_Probed :: bool
  rr_Reused :: bool

section \<open>The order targets are tried in\<close>

definition compare_mutation_witnesses :: "mutant \<Rightarrow> target_evidence \<Rightarrow> target_evidence \<Rightarrow> int" where
  "compare_mutation_witnesses mutant first second =
     (if mu_Probed mutant \<and> te_Probed first \<noteq> te_Probed second
      then (if te_Probed first then - 1 else 1)
      else
        (let order = (if mu_Probed mutant \<and> te_Probed first
                      then cmp_compare (length (te_Infected first)) (length (te_Infected second)) else 0)
         in if order \<noteq> 0 then order
            else cmp_compare (mutation_planning_duration first) (mutation_planning_duration second)))"

definition order_reaching_targets :: "mutant \<Rightarrow> target_evidence list \<Rightarrow> target_evidence list" where
  "order_reaching_targets mutant targets =
     (let measured = filter (\<lambda>t. mutation_planning_duration t > 0) targets;
          unmeasured = filter (\<lambda>t. \<not> mutation_planning_duration t > 0) targets
      in sort_func (compare_mutation_witnesses mutant) measured @ unmeasured)"

section \<open>Discharges\<close>

definition narrowed_branch_span :: "mutant \<Rightarrow> coverage_span option" where
  "narrowed_branch_span mutant =
     (case mu_Branch mutant of
        None \<Rightarrow> None
      | Some prf \<Rightarrow>
          (let sl = BodyStartLine prf; sc = BodyStartColumn prf;
               el = BodyEndLine prf; ec = BodyEndColumn prf
           in if sl < 1 \<or> sc < 1 \<or> el < 1 \<or> ec < 1 then None
              else if el < sl \<or> el = sl \<and> ec < sc then None
              else if mu_Line mutant > sl \<or> mu_Line mutant = sl \<and> mu_Column mutant \<ge> sc then None
              else Some \<lparr>SpanStartLine = sl, SpanStartColumn = sc, SpanEndLine = el, SpanEndColumn = ec\<rparr>))"

definition never_infected :: string where "never_infected = ''never-infected''"
definition branch_never_taken :: string where "branch_never_taken = ''branch-never-taken''"

text \<open>
  The two loops: a target is kept, or discharged with the reason. Where nothing is
  discharged, what is kept is what was given.
\<close>

definition discharge_targets ::
  "(target_evidence \<Rightarrow> bool) \<Rightarrow> string \<Rightarrow> target_evidence list \<Rightarrow> target_evidence list \<times> discharge list" where
  "discharge_targets keep reason reaching =
     (let discharged = map (\<lambda>t. \<lparr>d_Target = te_ID t, d_Reason = reason\<rparr>) (filter (\<lambda>t. \<not> keep t) reaching)
      in if discharged = [] then (reaching, []) else (filter keep reaching, discharged))"

definition discharge_never_infected ::
  "mutant \<Rightarrow> target_evidence list \<Rightarrow> target_evidence list \<times> discharge list" where
  "discharge_never_infected mutant reaching =
     (if \<not> mu_Probed mutant then (reaching, [])
      else discharge_targets (\<lambda>t. infects t (mu_Index mutant)) never_infected reaching)"

definition discharge_narrowed_branch ::
  "mutant \<Rightarrow> target_evidence list \<Rightarrow> file_coverage \<Rightarrow> string \<Rightarrow> target_evidence list \<times> discharge list" where
  "discharge_narrowed_branch mutant reaching instrumented path =
     (case narrowed_branch_span mutant of
        None \<Rightarrow> (reaching, [])
      | Some span \<Rightarrow>
          if \<not> starts_within instrumented span then (reaching, [])
          else discharge_targets
                 (\<lambda>t. te_Covered t = None \<or> starts_within (fst (find_file_coverage (covered_list t) path)) span)
                 branch_never_taken reaching)"

definition discharge_reaching_targets ::
  "mutant \<Rightarrow> target_evidence list \<Rightarrow> file_coverage \<Rightarrow> string \<Rightarrow> target_evidence list \<times> discharge list" where
  "discharge_reaching_targets mutant ordered instrumented path =
     (let (unbranched, branch) = discharge_narrowed_branch mutant ordered instrumented path;
          (kept, infection) = discharge_never_infected mutant unbranched
      in if branch = [] \<and> infection = [] then (ordered, [])
         else let proofs = map_of (rev (map (\<lambda>d. (d_Target d, d_Reason d)) (branch @ infection)))
              in (kept, concat (map (\<lambda>t. case proofs (te_ID t) of
                                           None \<Rightarrow> []
                                         | Some reason \<Rightarrow> [\<lparr>d_Target = te_ID t, d_Reason = reason\<rparr>]) ordered)))"

section \<open>The route of a mutant\<close>

definition file_mutation_route :: "mutant \<Rightarrow> target_evidence list \<Rightarrow> string \<Rightarrow> mutation_route" where
  "file_mutation_route mutant candidates fallback =
     empty_route\<lparr>mr_reaching := order_reaching_targets mutant candidates, mr_granularity := ''file'',
                mr_fallback := fallback, mr_fileCandidates := length candidates\<rparr>"

definition route_mutant :: "mutant \<Rightarrow> target_evidence list \<Rightarrow> file_coverage list \<Rightarrow> mutation_route" where
  "route_mutant mutant targets instrumented =
     (let path = to_slash (mu_Path mutant);
          candidates = filter (\<lambda>t. path \<in> set (te_CoveredFiles t)) targets
      in if mu_Line mutant \<le> 0 \<or> mu_Column mutant \<le> 0
         then file_mutation_route mutant candidates ''position-unknown''
         else
           let blocks = fst (find_file_coverage instrumented path)
           in if \<not> file_contains blocks (mu_Line mutant) (mu_Column mutant)
              then file_mutation_route mutant candidates ''outside-blocks''
              else
                let reaching = filter (\<lambda>t. te_Covered t = None \<or>
                      file_contains (fst (find_file_coverage (covered_list t) path)) (mu_Line mutant) (mu_Column mutant))
                      candidates;
                    (kept, discharged) =
                      discharge_reaching_targets mutant (order_reaching_targets mutant reaching) blocks path
                in empty_route\<lparr>mr_reaching := kept, mr_discharged := discharged,
                              mr_granularity := ''block'', mr_fileCandidates := length candidates\<rparr>)"

definition package_suite_coverage_target :: "string \<Rightarrow> string" where
  "package_suite_coverage_target pkg = ''package-suite-coverage:'' @ pkg"

definition package_suite_probe_target :: "string \<Rightarrow> string" where
  "package_suite_probe_target pkg = ''package-suite:'' @ pkg"

definition package_probe_infects :: "package_probe_evidence \<Rightarrow> nat \<Rightarrow> bool" where
  "package_probe_infects evidence index \<longleftrightarrow> index \<in> set (pe_Infected evidence)"

definition apply_suite_coverage_routing ::
  "mutant \<Rightarrow> mutation_route \<Rightarrow> (string \<rightharpoonup> package_suite_coverage) \<Rightarrow> mutation_route" where
  "apply_suite_coverage_routing mutant route suites =
     (if mr_reaching route \<noteq> [] \<or> mr_discharged route \<noteq> [] then route
      else case suites (mu_Package mutant) of
        None \<Rightarrow> route
      | Some suite \<Rightarrow>
          (let route = route\<lparr>mr_suiteDuration := sv_Duration suite\<rparr>
           in if mu_Line mutant \<le> 0 \<or> mu_Column mutant \<le> 0 then route
              else
                let path = to_slash (mu_Path mutant);
                    instrumented = fst (find_file_coverage (sv_Instrumented suite) path)
                in if \<not> file_contains instrumented (mu_Line mutant) (mu_Column mutant) then route
                   else
                     let covered = fst (find_file_coverage (sv_Covered suite) path)
                     in route\<lparr>mr_suiteCoverage := package_suite_coverage_target (mu_Package mutant),
                              mr_suiteReached := file_contains covered (mu_Line mutant) (mu_Column mutant),
                              mr_suiteWholeTree := sv_WholeTree suite\<rparr>))"

text \<open>
  The loop over the targets of \<open>applyProbeRouting\<close>: \<open>known\<close> holds the IDs the route has
  decided on, and a target found to infect is appended to the route and to \<open>known\<close>.
\<close>

fun add_probe_reaching ::
  "mutant \<Rightarrow> target_evidence list \<Rightarrow> string set \<Rightarrow> mutation_route \<Rightarrow> mutation_route" where
  "add_probe_reaching mutant [] known route = route"
| "add_probe_reaching mutant (target # targets) known route =
     (if te_ID target \<in> known \<or> \<not> mu_Probed mutant \<or> \<not> te_Probed target \<or> \<not> infects target (mu_Index mutant)
      then add_probe_reaching mutant targets known route
      else add_probe_reaching mutant targets (insert (te_ID target) known)
             (route\<lparr>mr_reaching := mr_reaching route @ [target],
                    mr_probeReaching := mr_probeReaching route @ [te_ID target]\<rparr>))"

definition suite_probe_routing ::
  "mutant \<Rightarrow> bool \<Rightarrow> mutation_route \<Rightarrow> (string \<rightharpoonup> package_probe_evidence) \<Rightarrow> mutation_route" where
  "suite_probe_routing mutant coverage_empty route suites =
     (if coverage_empty \<and> mu_Probed mutant then
        (case suites (mu_Package mutant) of
           None \<Rightarrow> route
         | Some suite \<Rightarrow>
             if \<not> pe_Measured suite then route
             else route\<lparr>mr_suiteProbe := package_suite_probe_target (mu_Package mutant),
                        mr_suiteInfected := package_probe_infects suite (mu_Index mutant),
                        mr_suiteDuration := (if mr_suiteDuration route = 0 then pe_Duration suite
                                             else mr_suiteDuration route),
                        mr_suiteWholeTree := pe_WholeTree suite\<rparr>)
      else route)"

definition apply_probe_routing ::
  "mutant \<Rightarrow> target_evidence list \<Rightarrow> mutation_route \<Rightarrow> (string \<rightharpoonup> package_probe_evidence) \<Rightarrow> mutation_route" where
  "apply_probe_routing mutant targets route suites =
     (let coverage_empty = (mr_reaching route = [] \<and> mr_discharged route = []);
          route = suite_probe_routing mutant coverage_empty route suites;
          route = (if mr_suiteCoverage route \<noteq> [] \<and> \<not> mr_suiteReached route \<and> mr_suiteInfected route
                   then route\<lparr>mr_suiteCoverage := []\<rparr> else route);
          check_positive_counterexample = (mr_suiteCoverage route \<noteq> [] \<and> \<not> mr_suiteReached route);
          suite_positively_reached =
            (mr_suiteProbe route = [] \<and> mr_suiteCoverage route \<noteq> [] \<and> mr_suiteReached route)
      in if coverage_empty \<and> \<not> check_positive_counterexample \<and>
            (suite_positively_reached \<or> mr_suiteInfected route)
         then route
         else
           let known = te_ID ` set (mr_reaching route) \<union> d_Target ` set (mr_discharged route);
               route = add_probe_reaching mutant targets known route
           in if mr_probeReaching route \<noteq> []
              then route\<lparr>mr_reaching := order_reaching_targets mutant (mr_reaching route)\<rparr>
              else route)"

text \<open>The three calls a mutant's evaluation opens with.\<close>

definition final_route ::
  "mutant \<Rightarrow> target_evidence list \<Rightarrow> file_coverage list \<Rightarrow> (string \<rightharpoonup> package_suite_coverage) \<Rightarrow>
   (string \<rightharpoonup> package_probe_evidence) \<Rightarrow> mutation_route" where
  "final_route mutant targets instrumented suite_coverage suite_probes =
     (let route = route_mutant mutant targets instrumented;
          route = apply_suite_coverage_routing mutant route suite_coverage
      in apply_probe_routing mutant targets route suite_probes)"

definition needed_probe_suite_packages ::
  "catalog \<Rightarrow> target_evidence list \<Rightarrow> file_coverage list \<Rightarrow> (string \<rightharpoonup> package_suite_coverage) \<Rightarrow> string list" where
  "needed_probe_suite_packages cat targets instrumented suites =
     (let needed = filter (\<lambda>mutant.
            if \<not> mu_Accepted mutant \<or> \<not> mu_Probed mutant \<or> mu_Package mutant = [] then False
            else
              let route = route_mutant mutant targets instrumented
              in if mr_reaching route \<noteq> [] \<or> mr_discharged route \<noteq> [] then False
                 else
                   let route = apply_suite_coverage_routing mutant route suites
                   in \<not> (mr_suiteCoverage route \<noteq> [] \<and> \<not> mr_suiteReached route)) (cat_Mutants cat)
      in sort_slice (remdups (map mu_Package needed)))"

definition aggregate_mutation_timeout ::
  "target_evidence list \<Rightarrow> int \<Rightarrow> (string \<rightharpoonup> package_suite_coverage) \<Rightarrow> (string \<rightharpoonup> package_probe_evidence) \<Rightarrow> int" where
  "aggregate_mutation_timeout targets limit suite_coverage suite_probes =
     (let (baseline, probe) = batch_mutation_control_durations targets;
          target_deadline = mutation_execution_timeout limit [baseline, probe];
          pkg = t_Package (te_Target (targets ! 0));
          coverage_samples = (case suite_coverage pkg of
             Some suite \<Rightarrow> if sv_Duration suite > 0 then [sv_Duration suite] else []
           | None \<Rightarrow> []);
          probe_samples = (case suite_probes pkg of
             Some suite \<Rightarrow> if pe_Measured suite \<and> pe_Duration suite > 0 then [pe_Duration suite] else []
           | None \<Rightarrow> []);
          suite_samples = coverage_samples @ probe_samples
      in if suite_samples = [] then target_deadline
         else mutation_execution_timeout limit
                [target_deadline, mutation_execution_timeout limit suite_samples])"

definition mutation_seed_route :: "mutant \<Rightarrow> mutation_route \<Rightarrow> string list \<Rightarrow> route_record" where
  "mutation_seed_route mutant route plans =
     (let base =
        \<lparr>rr_MutantID = mu_ID mutant, rr_Rule = mu_Rule mutant, rr_Path = mu_Path mutant,
         rr_Line = max (mu_Line mutant) 0, rr_Column = max (mu_Column mutant) 0,
         rr_ReachingTargets = [], rr_Plan = [], rr_Reason = ''coverage-reaching'',
         rr_Granularity = mr_granularity route, rr_Fallback = mr_fallback route,
         rr_FileCandidates = mr_fileCandidates route, rr_Discharged = mr_discharged route,
         rr_ProbeReaching = mr_probeReaching route, rr_SuiteCoverage = mr_suiteCoverage route,
         rr_SuiteReached = mr_suiteReached route, rr_SuiteProbe = mr_suiteProbe route,
         rr_Probed = mu_Probed mutant, rr_Reused = False\<rparr>
      in if mr_reaching route = [] \<and> mr_discharged route = [] then
           base\<lparr>rr_Plan := (if (mr_suiteCoverage route = [] \<or> mr_suiteReached route) \<and>
                                   (mr_suiteProbe route = [] \<or> mr_suiteInfected route)
                               then [''package-suite''] else []),
                   rr_Reason := ''unreached''\<rparr>
         else if mr_reaching route = [] then base
         else base\<lparr>rr_ReachingTargets := map te_ID (mr_reaching route),
                      rr_Reason := (if mr_probeReaching route \<noteq> [] then ''probe-reaching''
                                    else ''coverage-reaching''),
                      rr_Plan := plans\<rparr>)"

definition reused_mutation_route :: "mutant \<Rightarrow> mutation_route \<Rightarrow> route_record" where
  "reused_mutation_route mutant route =
     (mutation_seed_route mutant route [])\<lparr>rr_Plan := [''reused''], rr_Reused := True\<rparr>"

section \<open>The order is a stable permutation\<close>

definition witness_rank :: "mutant \<Rightarrow> target_evidence \<Rightarrow> nat" where
  "witness_rank mutant t = (if mu_Probed mutant \<and> \<not> te_Probed t then 1 else 0)"

definition witness_size :: "mutant \<Rightarrow> target_evidence \<Rightarrow> nat" where
  "witness_size mutant t = (if mu_Probed mutant \<and> te_Probed t then length (te_Infected t) else 0)"

lemma compare_mutation_witnesses_chain:
  "compare_mutation_witnesses mutant a b =
     cmp_then (cmp_compare (witness_rank mutant a) (witness_rank mutant b))
       (cmp_then (cmp_compare (witness_size mutant a) (witness_size mutant b))
         (cmp_compare (mutation_planning_duration a) (mutation_planning_duration b)))"
  by (auto simp: compare_mutation_witnesses_def witness_rank_def witness_size_def cmp_then_def
      cmp_compare_def Let_def)

interpretation witness_order: comparator "compare_mutation_witnesses mutant"
  unfolding compare_mutation_witnesses_chain by (intro comparator_then comparator_compare)

lemma mset_order_reaching_targets [simp]: "mset (order_reaching_targets mutant ts) = mset ts"
  by (simp add: order_reaching_targets_def Let_def)

lemma set_order_reaching_targets [simp]: "set (order_reaching_targets mutant ts) = set ts"
  by (metis mset_order_reaching_targets set_mset_mset)

lemma order_reaching_targets_eq_Nil [simp]: "order_reaching_targets mutant ts = [] \<longleftrightarrow> ts = []"
  by (metis mset_order_reaching_targets mset_zero_iff)

text \<open>
  Ordering the targets a mutant is run against loses and invents none: it puts those with
  a measured duration first, the likeliest witness at the head (for a probed mutant the probed
  targets, those that infect the fewest mutants first, then the quickest), and leaves those
  without a duration at the end in the order they came.
\<close>

theorem order_reaching_targets_correct:
  "\<exists>measured.
     order_reaching_targets mutant ts =
       measured @ filter (\<lambda>t. mutation_planning_duration t \<le> 0) ts \<and>
     mset measured = mset (filter (\<lambda>t. 0 < mutation_planning_duration t) ts) \<and>
     sorted_wrt (\<lambda>a b. compare_mutation_witnesses mutant a b \<le> 0) measured"
  by (rule exI [of _ "sort_func (compare_mutation_witnesses mutant)
        (filter (\<lambda>t. 0 < mutation_planning_duration t) ts)"])
    (simp add: order_reaching_targets_def Let_def not_less witness_order.sorted_sort_func)

section \<open>Discharging partitions the targets\<close>

lemma discharge_targets_eq:
  "discharge_targets keep reason ts =
     (filter keep ts, map (\<lambda>t. \<lparr>d_Target = te_ID t, d_Reason = reason\<rparr>) (filter (\<lambda>t. \<not> keep t) ts))"
  by (simp add: discharge_targets_def Let_def filter_empty_conv)

definition branch_kept :: "mutant \<Rightarrow> file_coverage \<Rightarrow> string \<Rightarrow> target_evidence \<Rightarrow> bool" where
  "branch_kept mutant instrumented path t =
     (case narrowed_branch_span mutant of
        None \<Rightarrow> True
      | Some span \<Rightarrow> starts_within instrumented span \<longrightarrow>
          te_Covered t = None \<or> starts_within (fst (find_file_coverage (covered_list t) path)) span)"

definition infection_kept :: "mutant \<Rightarrow> target_evidence \<Rightarrow> bool" where
  "infection_kept mutant t \<longleftrightarrow> mu_Probed mutant \<longrightarrow> infects t (mu_Index mutant)"

definition discharges :: "string \<Rightarrow> (target_evidence \<Rightarrow> bool) \<Rightarrow> target_evidence list \<Rightarrow> discharge list" where
  "discharges reason keep ts =
     map (\<lambda>t. \<lparr>d_Target = te_ID t, d_Reason = reason\<rparr>) (filter (\<lambda>t. \<not> keep t) ts)"

lemma kept_alone:
  "narrowed_branch_span mutant = Some span \<Longrightarrow> starts_within instrumented span \<Longrightarrow>
   branch_kept mutant instrumented path =
     (\<lambda>t. te_Covered t = None \<or> starts_within (fst (find_file_coverage (covered_list t) path)) span)"
  "mu_Probed mutant \<Longrightarrow> infection_kept mutant = (\<lambda>t. infects t (mu_Index mutant))"
  by (simp_all add: fun_eq_iff branch_kept_def infection_kept_def)

lemma discharge_narrowed_branch_eq:
  "discharge_narrowed_branch mutant ts instrumented path =
     (filter (branch_kept mutant instrumented path) ts,
      discharges branch_never_taken (branch_kept mutant instrumented path) ts)"
proof (cases "narrowed_branch_span mutant")
  case (Some span)
  show ?thesis
    by (cases "starts_within instrumented span")
      (simp_all add: Some discharge_narrowed_branch_def discharges_def discharge_targets_eq kept_alone,
        simp add: Some branch_kept_def)
qed (simp add: discharge_narrowed_branch_def discharges_def branch_kept_def)

lemma discharge_never_infected_eq:
  "discharge_never_infected mutant ts =
     (filter (infection_kept mutant) ts, discharges never_infected (infection_kept mutant) ts)"
  by (cases "mu_Probed mutant")
    (simp_all add: discharge_never_infected_def discharges_def discharge_targets_eq kept_alone,
      simp add: infection_kept_def)

definition discharge_of :: "mutant \<Rightarrow> file_coverage \<Rightarrow> string \<Rightarrow> target_evidence \<Rightarrow> discharge" where
  "discharge_of mutant instrumented path t =
     \<lparr>d_Target = te_ID t,
      d_Reason = (if branch_kept mutant instrumented path t then never_infected else branch_never_taken)\<rparr>"

definition kept_target :: "mutant \<Rightarrow> file_coverage \<Rightarrow> string \<Rightarrow> target_evidence \<Rightarrow> bool" where
  "kept_target mutant instrumented path t \<longleftrightarrow>
     branch_kept mutant instrumented path t \<and> infection_kept mutant t"

lemma concat_filter_map: "concat (map (\<lambda>t. if P t then [] else [f t]) ts) = map f (filter (\<lambda>t. \<not> P t) ts)"
  by (induction ts) auto

lemma discharge_reaching_targets_eq:
  assumes "distinct (map te_ID ts)"
  shows "discharge_reaching_targets mutant ts instrumented path =
    (filter (kept_target mutant instrumented path) ts,
     map (discharge_of mutant instrumented path) (filter (\<lambda>t. \<not> kept_target mutant instrumented path t) ts))"
proof -
  let ?b = "branch_kept mutant instrumented path" and ?i = "infection_kept mutant"
  let ?k = "kept_target mutant instrumented path" and ?d = "discharge_of mutant instrumented path"
  let ?branch = "discharges branch_never_taken ?b ts"
  let ?infection = "discharges never_infected ?i (filter ?b ts)"
  let ?L = "rev (map (\<lambda>d. (d_Target d, d_Reason d)) (?branch @ ?infection))"
  have removed: "filter (\<lambda>t. \<not> ?b t) ts @ filter (\<lambda>t. \<not> ?i t) (filter ?b ts) = [] \<longleftrightarrow> (\<forall>t \<in> set ts. ?k t)"
    by (auto simp: filter_empty_conv kept_target_def)
  have keys: "map fst ?L = rev (map te_ID (filter (\<lambda>t. \<not> ?b t) ts @ filter (\<lambda>t. \<not> ?i t) (filter ?b ts)))"
    by (simp add: discharges_def rev_map comp_def)
  have inj: "inj_on te_ID (set ts)" and dist: "distinct ts" using assms by (simp_all add: distinct_map)
  have "distinct (map fst ?L)"
    unfolding keys distinct_rev distinct_map using dist inj
    by (auto intro: inj_on_subset)
  then have proofs: "map_of ?L (te_ID t) =
      (if ?k t then None else Some (d_Reason (?d t)))" if t: "t \<in> set ts" for t
  proof (cases "?k t")
    case True
    then have "te_ID t \<notin> set (map fst ?L)"
      unfolding keys using t inj by (auto simp: kept_target_def dest: inj_onD)
    then have "map_of ?L (te_ID t) = None" by (simp only: map_of_eq_None_iff set_map not_False_eq_True)
    with True show ?thesis by (simp only: if_True)
  next
    case False
    then have "(te_ID t, d_Reason (?d t)) \<in> set ?L"
      using t by (auto simp: discharges_def discharge_of_def kept_target_def image_iff)
    with \<open>distinct (map fst ?L)\<close> False show ?thesis by (simp only: map_of_is_SomeI if_False)
  qed
  have dis: "concat (map (\<lambda>t. case map_of ?L (te_ID t) of None \<Rightarrow> []
        | Some reason \<Rightarrow> [\<lparr>d_Target = te_ID t, d_Reason = reason\<rparr>]) ts) =
      concat (map (\<lambda>t. if ?k t then [] else [?d t]) ts)"
    using proofs by (intro arg_cong [where f = concat] map_cong) (auto simp: discharge_of_def)
  have kept: "filter ?i (filter ?b ts) = filter ?k ts"
    by (auto simp: kept_target_def intro!: filter_cong)
  show ?thesis
  proof (cases "?branch = [] \<and> ?infection = []")
    case True
    then have "\<forall>t \<in> set ts. ?k t" using removed by (simp add: discharges_def)
    then have "filter ?k ts = ts" "filter (\<lambda>t. \<not> ?k t) ts = []" by (simp_all add: filter_empty_conv)
    with True show ?thesis
      by (simp add: discharge_reaching_targets_def discharge_narrowed_branch_eq discharge_never_infected_eq)
  next
    case False
    then show ?thesis
      using dis kept
      by (simp only: discharge_reaching_targets_def discharge_narrowed_branch_eq discharge_never_infected_eq
          Let_def prod.case if_False concat_filter_map)
  qed
qed

text \<open>The targets that reach a mutant by what was measured of their coverage.\<close>

definition reaches :: "mutant \<Rightarrow> target_evidence \<Rightarrow> bool" where
  "reaches mutant t \<longleftrightarrow>
     to_slash (mu_Path mutant) \<in> set (te_CoveredFiles t) \<and>
     (te_Covered t = None \<or>
      file_contains (fst (find_file_coverage (covered_list t) (to_slash (mu_Path mutant))))
        (mu_Line mutant) (mu_Column mutant))"

definition inside_blocks :: "mutant \<Rightarrow> file_coverage list \<Rightarrow> bool" where
  "inside_blocks mutant instrumented \<longleftrightarrow>
     0 < mu_Line mutant \<and> 0 < mu_Column mutant \<and>
     file_contains (fst (find_file_coverage instrumented (to_slash (mu_Path mutant))))
       (mu_Line mutant) (mu_Column mutant)"

definition proved_discharge :: "mutant \<Rightarrow> target_evidence list \<Rightarrow> file_coverage list \<Rightarrow> discharge \<Rightarrow> bool" where
  "proved_discharge mutant targets instrumented d \<longleftrightarrow>
     list_ex (\<lambda>t. te_ID t = d_Target d \<and> reaches mutant t \<and>
       (if d_Reason d = never_infected
        then mu_Probed mutant \<and> te_Probed t \<and> \<not> infects t (mu_Index mutant)
        else d_Reason d = branch_never_taken \<and>
          (case narrowed_branch_span mutant of
             None \<Rightarrow> False
           | Some span \<Rightarrow> te_Covered t \<noteq> None \<and>
               \<not> starts_within (fst (find_file_coverage (covered_list t) (to_slash (mu_Path mutant)))) span \<and>
               starts_within (fst (find_file_coverage instrumented (to_slash (mu_Path mutant)))) span))) targets"

lemma reason_differs [simp]: "branch_never_taken \<noteq> never_infected" "never_infected \<noteq> branch_never_taken"
  by (simp_all add: branch_never_taken_def never_infected_def)

lemma proved_discharge_of:
  assumes "t \<in> set targets" "reaches mutant t"
    and "\<not> kept_target mutant (fst (find_file_coverage instrumented path)) path t" "path = to_slash (mu_Path mutant)"
  shows "proved_discharge mutant targets instrumented
    (discharge_of mutant (fst (find_file_coverage instrumented path)) path t)"
proof -
  have "\<not> infection_kept mutant t \<Longrightarrow> mu_Probed mutant \<and> te_Probed t \<and> \<not> infects t (mu_Index mutant)"
    by (simp add: infection_kept_def infects_def split: if_split_asm)
  then show ?thesis
    using assms unfolding proved_discharge_def list_ex_iff
    by (intro bexI [of _ t]) (auto simp: discharge_of_def kept_target_def branch_kept_def split: option.splits if_splits)
qed

lemma route_mutant_inside:
  assumes "inside_blocks mutant instrumented" "distinct (map te_ID targets)"
  defines "path \<equiv> to_slash (mu_Path mutant)"
  defines "ordered \<equiv> order_reaching_targets mutant (filter (reaches mutant) targets)"
  defines "keep \<equiv> kept_target mutant (fst (find_file_coverage instrumented path)) path"
  shows "mr_reaching (route_mutant mutant targets instrumented) = filter keep ordered"
    and "mr_discharged (route_mutant mutant targets instrumented) =
      map (discharge_of mutant (fst (find_file_coverage instrumented path)) path) (filter (\<lambda>t. \<not> keep t) ordered)"
proof -
  have "distinct (map te_ID (filter (reaches mutant) targets))"
    using assms(2) by (simp add: distinct_map_filter)
  then have distinct: "distinct (map te_ID ordered)"
    unfolding ordered_def by (metis mset_map mset_order_reaching_targets mset_eq_imp_distinct_iff)
  have inner: "filter (\<lambda>t. te_Covered t = None \<or> file_contains (fst (find_file_coverage (covered_list t) path))
        (mu_Line mutant) (mu_Column mutant)) (filter (\<lambda>t. path \<in> set (te_CoveredFiles t)) targets)
      = filter (reaches mutant) targets"
    by (rule filter_filter [THEN trans]) (auto simp: reaches_def path_def intro!: filter_cong)
  show "mr_reaching (route_mutant mutant targets instrumented) = filter keep ordered"
    "mr_discharged (route_mutant mutant targets instrumented) =
      map (discharge_of mutant (fst (find_file_coverage instrumented path)) path) (filter (\<lambda>t. \<not> keep t) ordered)"
    using assms(1) inner discharge_reaching_targets_eq [OF distinct]
    by (simp_all add: route_mutant_def Let_def inside_blocks_def ordered_def keep_def flip: path_def)
qed

text \<open>
  C27. Routing a mutant inside an instrumented block decides every target that reaches it
  exactly once: the targets to run and the discharged ones together are the targets that
  reach it, and every discharge is backed by a measurement (the target was probed and never
  infects the mutant, or its measured coverage never starts a block in the branch the
  mutation narrows).
\<close>

theorem route_mutant_partition:
  assumes "inside_blocks mutant instrumented" "distinct (map te_ID targets)"
  shows "mset (map te_ID (mr_reaching (route_mutant mutant targets instrumented)) @
      map d_Target (mr_discharged (route_mutant mutant targets instrumented)))
      = mset (map te_ID (filter (reaches mutant) targets)) \<and>
    list_all (proved_discharge mutant targets instrumented)
      (mr_discharged (route_mutant mutant targets instrumented))"
proof -
  let ?path = "to_slash (mu_Path mutant)"
  let ?blocks = "fst (find_file_coverage instrumented ?path)"
  let ?keep = "kept_target mutant ?blocks ?path"
  let ?ordered = "order_reaching_targets mutant (filter (reaches mutant) targets)"
  note route = route_mutant_inside [OF assms]
  have ids: "d_Target \<circ> discharge_of mutant ?blocks ?path = te_ID"
    by (simp add: fun_eq_iff discharge_of_def)
  have "mset (map te_ID (mr_reaching (route_mutant mutant targets instrumented)) @
      map d_Target (mr_discharged (route_mutant mutant targets instrumented)))
      = image_mset te_ID (mset (filter ?keep ?ordered) + mset (filter (\<lambda>t. \<not> ?keep t) ?ordered))"
    unfolding route by (simp only: map_map ids mset_append mset_map image_mset_union)
  also have "\<dots> = image_mset te_ID (mset ?ordered)"
    by (simp only: mset_filter multiset_partition [symmetric])
  finally have "mset (map te_ID (mr_reaching (route_mutant mutant targets instrumented)) @
      map d_Target (mr_discharged (route_mutant mutant targets instrumented)))
      = mset (map te_ID (filter (reaches mutant) targets))" by simp
  moreover have "list_all (proved_discharge mutant targets instrumented)
      (mr_discharged (route_mutant mutant targets instrumented))"
    unfolding route by (auto simp: list_all_iff intro!: proved_discharge_of)
  ultimately show ?thesis by simp
qed

definition routed_mutant :: mutant where
  "routed_mutant =
     \<lparr>mu_ID = ''m1'', mu_DisplayID = ''1'', mu_Accepted = True, mu_Path = ''a.go'', mu_Package = ''p'',
      mu_Rule = ''cond'', mu_Line = 3, mu_Column = 2, mu_Index = 7, mu_Probed = True, mu_Branch = None,
      mu_Original = ''<'', mu_Replacement = ''<=''\<rparr>"

definition routed_coverage :: "file_coverage list" where
  "routed_coverage = [\<lparr>fc_path = ''a.go'',
     fc_blocks = [\<lparr>StartLine = 1, StartColumn = 1, EndLine = 5, EndColumn = 1\<rparr>]\<rparr>]"

definition routed_targets :: "target_evidence list" where
  "routed_targets =
     [(sample_target ''1'' ''p'' [])\<lparr>te_Covered := Some routed_coverage, te_Probed := True, te_Infected := [7]\<rparr>,
      (sample_target ''2'' ''p'' [])\<lparr>te_Covered := Some routed_coverage, te_Probed := True, te_Infected := [4]\<rparr>,
      sample_target ''3'' ''p'' []]"

lemma inside_routed: "inside_blocks routed_mutant routed_coverage \<and> distinct (map te_ID routed_targets)"
  by code_simp

theorem route_mutant_partition_witness:
  "let route = route_mutant routed_mutant routed_targets routed_coverage
   in map d_Target (mr_discharged route) = [''2''] \<and> map te_ID (mr_reaching route) = [''1''] \<and>
     list_all (proved_discharge routed_mutant routed_targets routed_coverage) (mr_discharged route)"
proof -
  have "map te_ID (mr_reaching (route_mutant routed_mutant routed_targets routed_coverage)) = [''1'']"
    "map d_Target (mr_discharged (route_mutant routed_mutant routed_targets routed_coverage)) = [''2'']"
    by code_simp+
  then show ?thesis
    using route_mutant_partition [of routed_mutant routed_coverage routed_targets] inside_routed
    by (simp add: Let_def)
qed

section \<open>What the suite and the probe change\<close>

definition probe_added :: "mutant \<Rightarrow> target_evidence list \<Rightarrow> string set \<Rightarrow> target_evidence list \<Rightarrow> bool" where
  "probe_added mutant ts known added \<longleftrightarrow>
     set added \<subseteq> set ts \<and> distinct (map te_ID added) \<and> known \<inter> te_ID ` set added = {} \<and>
     (\<forall>t \<in> set added. mu_Probed mutant \<and> te_Probed t \<and> infects t (mu_Index mutant)) \<and>
     (\<forall>t \<in> set ts. mu_Probed mutant \<and> te_Probed t \<and> infects t (mu_Index mutant) \<longrightarrow>
        te_ID t \<in> known \<union> te_ID ` set added)"

lemma add_probe_reaching_shape:
  "\<exists>added. probe_added mutant ts known added \<and>
     add_probe_reaching mutant ts known route =
       route\<lparr>mr_reaching := mr_reaching route @ added,
             mr_probeReaching := mr_probeReaching route @ map te_ID added\<rparr>"
proof (induction mutant ts known route rule: add_probe_reaching.induct)
  case (1 mutant known route)
  show ?case by (intro exI [of _ "[]"]) (simp add: probe_added_def)
next
  case (2 mutant t ts known route)
  show ?case
  proof (cases "te_ID t \<in> known \<or> \<not> mu_Probed mutant \<or> \<not> te_Probed t \<or> \<not> infects t (mu_Index mutant)")
    case True
    from 2(1) [OF this] obtain added where "probe_added mutant ts known added"
      "add_probe_reaching mutant ts known route = route\<lparr>mr_reaching := mr_reaching route @ added,
         mr_probeReaching := mr_probeReaching route @ map te_ID added\<rparr>" by blast
    with True show ?thesis by (intro exI [of _ added]) (auto simp: probe_added_def)
  next
    case False
    from 2(2) [OF this] obtain added where added: "probe_added mutant ts (insert (te_ID t) known) added"
      "add_probe_reaching mutant ts (insert (te_ID t) known)
         (route\<lparr>mr_reaching := mr_reaching route @ [t], mr_probeReaching := mr_probeReaching route @ [te_ID t]\<rparr>) =
       route\<lparr>mr_reaching := mr_reaching route @ t # added,
         mr_probeReaching := mr_probeReaching route @ te_ID t # map te_ID added\<rparr>" by auto
    with False have "probe_added mutant (t # ts) known (t # added)" by (auto simp: probe_added_def)
    with added(2) False show ?thesis by (intro exI [of _ "t # added"]) simp
  qed
qed

text \<open>
  The two ways a probe-routed route comes about: the shortcut that leaves the decision to the
  package suite, and the loop over the targets.
\<close>

definition suite_stage ::
  "mutant \<Rightarrow> mutation_route \<Rightarrow> (string \<rightharpoonup> package_probe_evidence) \<Rightarrow> mutation_route" where
  "suite_stage mutant route suites =
     (let route = suite_probe_routing mutant (mr_reaching route = [] \<and> mr_discharged route = []) route suites
      in if mr_suiteCoverage route \<noteq> [] \<and> \<not> mr_suiteReached route \<and> mr_suiteInfected route
         then route\<lparr>mr_suiteCoverage := []\<rparr> else route)"

definition suite_decides :: "mutation_route \<Rightarrow> bool" where
  "suite_decides route \<longleftrightarrow>
     mr_reaching route = [] \<and> mr_discharged route = [] \<and>
     (mr_suiteCoverage route = [] \<or> mr_suiteReached route) \<and>
     (mr_suiteProbe route = [] \<or> mr_suiteInfected route)"

lemma suite_decides_plan:
  "mr_reaching route = [] \<Longrightarrow> mr_discharged route = [] \<Longrightarrow>
   rr_Plan (mutation_seed_route mutant route plans) = (if suite_decides route then [''package-suite''] else [])"
  by (simp add: mutation_seed_route_def suite_decides_def Let_def)

lemma suite_stage_same [simp]:
  "mr_reaching (suite_stage mutant route suites) = mr_reaching route"
  "mr_discharged (suite_stage mutant route suites) = mr_discharged route"
  "mr_probeReaching (suite_stage mutant route suites) = mr_probeReaching route"
  by (simp_all add: suite_stage_def suite_probe_routing_def Let_def split: option.split)

lemma apply_probe_routing_cases:
  obtains (suite) "apply_probe_routing mutant ts route suites = suite_stage mutant route suites"
      "suite_decides (suite_stage mutant route suites)"
  | (loop) added where
      "probe_added mutant ts (te_ID ` set (mr_reaching route) \<union> d_Target ` set (mr_discharged route)) added"
      "mset (mr_reaching (apply_probe_routing mutant ts route suites)) = mset (mr_reaching route) + mset added"
      "mr_discharged (apply_probe_routing mutant ts route suites) = mr_discharged route"
      "mr_suiteCoverage (apply_probe_routing mutant ts route suites) = mr_suiteCoverage (suite_stage mutant route suites)"
      "mr_suiteReached (apply_probe_routing mutant ts route suites) = mr_suiteReached (suite_stage mutant route suites)"
      "mr_suiteProbe (apply_probe_routing mutant ts route suites) = mr_suiteProbe (suite_stage mutant route suites)"
      "mr_suiteInfected (apply_probe_routing mutant ts route suites) = mr_suiteInfected (suite_stage mutant route suites)"
proof -
  let ?s = "suite_stage mutant route suites"
  let ?known = "te_ID ` set (mr_reaching route) \<union> d_Target ` set (mr_discharged route)"
  let ?short = "(mr_reaching route = [] \<and> mr_discharged route = []) \<and>
    \<not> (mr_suiteCoverage ?s \<noteq> [] \<and> \<not> mr_suiteReached ?s) \<and>
    (mr_suiteProbe ?s = [] \<and> mr_suiteCoverage ?s \<noteq> [] \<and> mr_suiteReached ?s \<or> mr_suiteInfected ?s)"
  have eq: "apply_probe_routing mutant ts route suites =
    (if ?short then ?s
     else let r = add_probe_reaching mutant ts ?known ?s
          in if mr_probeReaching r \<noteq> [] then r\<lparr>mr_reaching := order_reaching_targets mutant (mr_reaching r)\<rparr> else r)"
    unfolding apply_probe_routing_def Let_def suite_stage_def [symmetric, unfolded Let_def] suite_stage_same
    by (simp only: conj_assoc)
  obtain added where added: "probe_added mutant ts ?known added"
    "add_probe_reaching mutant ts ?known ?s = ?s\<lparr>mr_reaching := mr_reaching ?s @ added,
       mr_probeReaching := mr_probeReaching ?s @ map te_ID added\<rparr>"
    using add_probe_reaching_shape by blast
  show thesis
  proof (cases ?short)
    case True
    have "apply_probe_routing mutant ts route suites = ?s" unfolding eq by (rule if_P [OF True])
    moreover have "suite_decides ?s" using True by (auto simp: suite_decides_def)
    ultimately show thesis by (rule suite)
  next
    case False
    then have run: "apply_probe_routing mutant ts route suites =
      (let r = add_probe_reaching mutant ts ?known ?s
          in if mr_probeReaching r \<noteq> [] then r\<lparr>mr_reaching := order_reaching_targets mutant (mr_reaching r)\<rparr> else r)"
      unfolding eq by (simp only: if_False)
    show thesis
      by (rule loop [OF added(1)]) (simp_all add: run added(2) Let_def)
  qed
qed

text \<open>
  Coverage never overrules a probe: whatever the measured coverage of the targets and of
  the package suite, a probed target that infects the mutant is run against it or was already
  decided on, unless the route hands the mutant to its package suite and plans to run that.
\<close>

theorem final_route_keeps_infecting:
  assumes "mu_Probed mutant" "t \<in> set targets" "te_Probed t" "infects t (mu_Index mutant)"
  shows "let route = final_route mutant targets instrumented suite_coverage suite_probes
    in te_ID t \<in> te_ID ` set (mr_reaching route) \<union> d_Target ` set (mr_discharged route) \<or>
      mr_reaching route = [] \<and> mr_discharged route = [] \<and>
      rr_Plan (mutation_seed_route mutant route []) = [''package-suite'']"
proof -
  define route where "route = final_route mutant targets instrumented suite_coverage suite_probes"
  let ?r = "apply_suite_coverage_routing mutant (route_mutant mutant targets instrumented) suite_coverage"
  have route: "route = apply_probe_routing mutant targets ?r suite_probes"
    by (simp add: route_def final_route_def Let_def)
  have "te_ID t \<in> te_ID ` set (mr_reaching route) \<union> d_Target ` set (mr_discharged route) \<or>
      mr_reaching route = [] \<and> mr_discharged route = [] \<and>
      rr_Plan (mutation_seed_route mutant route []) = [''package-suite'']" (is ?decided)
  proof (cases rule: apply_probe_routing_cases [of mutant targets ?r suite_probes, case_names suite loop])
    case suite
    then have "suite_decides route" by (simp add: route)
    then have "mr_reaching route = []" "mr_discharged route = []" by (simp_all add: suite_decides_def)
    with \<open>suite_decides route\<close> show ?decided by (simp add: suite_decides_plan)
  next
    case (loop added)
    have "set (mr_reaching route) = set (mr_reaching ?r) \<union> set added"
      using loop(2) by (metis route set_mset_mset set_mset_union)
    moreover have "mr_discharged route = mr_discharged ?r" using loop(3) by (simp add: route)
    ultimately show ?decided using loop(1) assms(1-4) by (auto simp: probe_added_def)
  qed
  then show ?thesis unfolding route_def Let_def .
qed

theorem final_route_keeps_infecting_witness:
  "let t = (sample_target ''1'' ''p'' [])\<lparr>te_CoveredFiles := [], te_Probed := True, te_Infected := [7]\<rparr>;
       route = final_route routed_mutant [t] routed_coverage (\<lambda>_. None) (\<lambda>_. None)
   in te_ID t \<in> te_ID ` set (mr_reaching route)"
proof -
  let ?t = "(sample_target ''1'' ''p'' [])\<lparr>te_CoveredFiles := [], te_Probed := True, te_Infected := [7]\<rparr>"
  let ?route = "final_route routed_mutant [?t] routed_coverage (\<lambda>_. None) (\<lambda>_. None)"
  have facts: "mu_Probed routed_mutant \<and> te_Probed ?t \<and> infects ?t (mu_Index routed_mutant)" by code_simp
  have reaching: "mr_reaching ?route \<noteq> [] \<and> mr_discharged ?route = []" by code_simp
  show ?thesis
    using final_route_keeps_infecting [of routed_mutant ?t "[?t]" routed_coverage "\<lambda>_. None" "\<lambda>_. None"] facts reaching
    by (simp add: Let_def del: set_map) 
qed

lemma apply_suite_coverage_same [simp]:
  "mr_reaching (apply_suite_coverage_routing mutant route suites) = mr_reaching route"
  "mr_discharged (apply_suite_coverage_routing mutant route suites) = mr_discharged route"
  "mr_suiteProbe (apply_suite_coverage_routing mutant route suites) = mr_suiteProbe route"
  "mr_suiteInfected (apply_suite_coverage_routing mutant route suites) = mr_suiteInfected route"
  by (simp_all add: apply_suite_coverage_routing_def Let_def split: option.split)

text \<open>What the package suite's coverage and its probe say against a mutant being reached.\<close>

definition suite_unreached :: "mutant \<Rightarrow> (string \<rightharpoonup> package_suite_coverage) \<Rightarrow> bool" where
  "suite_unreached mutant suites =
     (case suites (mu_Package mutant) of
        None \<Rightarrow> False
      | Some suite \<Rightarrow>
          inside_blocks mutant (sv_Instrumented suite) \<and> \<not> inside_blocks mutant (sv_Covered suite))"

definition suite_uninfected :: "mutant \<Rightarrow> (string \<rightharpoonup> package_probe_evidence) \<Rightarrow> bool" where
  "suite_uninfected mutant suites =
     (case suites (mu_Package mutant) of
        None \<Rightarrow> False
      | Some suite \<Rightarrow> mu_Probed mutant \<and> pe_Measured suite \<and> mu_Index mutant \<notin> set (pe_Infected suite))"

lemma suite_coverage_reached:
  "mr_suiteCoverage route = [] \<Longrightarrow>
   mr_suiteCoverage (apply_suite_coverage_routing mutant route suites) \<noteq> [] \<Longrightarrow>
   \<not> mr_suiteReached (apply_suite_coverage_routing mutant route suites) \<Longrightarrow> suite_unreached mutant suites"
  by (simp add: apply_suite_coverage_routing_def Let_def suite_unreached_def inside_blocks_def
      split: option.splits if_split_asm)

lemma suite_probe_infected:
  "mr_suiteProbe route = [] \<Longrightarrow> mr_suiteProbe (suite_stage mutant route suites) \<noteq> [] \<Longrightarrow>
   \<not> mr_suiteInfected (suite_stage mutant route suites) \<Longrightarrow> suite_uninfected mutant suites"
  by (simp add: suite_stage_def suite_probe_routing_def Let_def suite_uninfected_def package_probe_infects_def
      split: option.splits if_split_asm)

lemma suite_stage_coverage:
  "mr_suiteCoverage (suite_stage mutant route suites) \<noteq> [] \<Longrightarrow>
   \<not> mr_suiteReached (suite_stage mutant route suites) \<Longrightarrow>
   mr_suiteCoverage route \<noteq> [] \<and> \<not> mr_suiteReached route"
  by (simp add: suite_stage_def suite_probe_routing_def Let_def split: option.splits if_split_asm)

lemma route_mutant_suite [simp]:
  "mr_suiteCoverage (route_mutant mutant targets instrumented) = []"
  "mr_suiteProbe (route_mutant mutant targets instrumented) = []"
  "mr_suiteInfected (route_mutant mutant targets instrumented) = False"
  by (simp_all add: route_mutant_def file_mutation_route_def empty_route_def Let_def case_prod_beta)

definition may_reach :: "mutant \<Rightarrow> file_coverage list \<Rightarrow> target_evidence \<Rightarrow> bool" where
  "may_reach mutant instrumented t \<longleftrightarrow>
     (if inside_blocks mutant instrumented then reaches mutant t
      else to_slash (mu_Path mutant) \<in> set (te_CoveredFiles t))"

lemma route_mutant_outside:
  "\<not> inside_blocks mutant instrumented \<Longrightarrow>
   set (mr_reaching (route_mutant mutant targets instrumented)) =
     set (filter (may_reach mutant instrumented) targets)"
  by (auto simp: route_mutant_def file_mutation_route_def Let_def inside_blocks_def may_reach_def not_less)

lemma route_mutant_empty:
  assumes "distinct (map te_ID targets)"
    and "mr_reaching (route_mutant mutant targets instrumented) = []"
    and "mr_discharged (route_mutant mutant targets instrumented) = []"
  shows "\<forall>t \<in> set targets. \<not> may_reach mutant instrumented t"
proof (cases "inside_blocks mutant instrumented")
  case True
  then show ?thesis
    using assms route_mutant_inside [OF True assms(1)] by (auto simp: filter_empty_conv may_reach_def)
next
  case False
  then show ?thesis using route_mutant_outside [OF False, of targets] assms(2) by (auto simp: filter_empty_conv)
qed


end
