(* ===== verification/Framing.thy ===== *)
theory Framing
  imports GoPrelude
begin

text \<open>
  The byte stream the source hashes: every field is preceded by its length as a
  big-endian \<open>uint32\<close> (\<open>write\<close> in \<open>internal/evidence/digest.go\<close>, the loop of
  \<open>FindingID\<close> in \<open>internal/report/report.go\<close>, \<open>MutationCatalogFingerprint\<close> in
  \<open>internal/assure/mutation.go\<close>). SHA-256 itself is a parameter of the definitions that
  use it. The lemmas show that the stream determines its fields.
\<close>

fun be_bytes :: "nat \<Rightarrow> nat \<Rightarrow> string" where
  "be_bytes 0 n = []"
| "be_bytes (Suc k) n = be_bytes k (n div 256) @ [char_of (n mod 256)]"

text \<open>One field: \<open>binary.BigEndian.PutUint32(length[:], uint32(len(field)))\<close>, then its bytes.\<close>

definition write_field :: "string \<Rightarrow> string" where
  "write_field f = be_bytes 4 (length f mod 2 ^ 32) @ f"

definition write_fields :: "string list \<Rightarrow> string" where
  "write_fields fs = concat (map write_field fs)"

lemma length_be_bytes [simp]: "length (be_bytes k n) = k"
  by (induction k arbitrary: n) auto

lemma char_of_mod_inj: "(char_of (m mod 256) :: char) = char_of (n mod 256) \<Longrightarrow> (m::nat) mod 256 = n mod 256"
  by (drule arg_cong [where f = "of_char :: char \<Rightarrow> nat"]) (simp add: of_char_of take_bit_eq_mod)

lemma be_bytes_inj: "be_bytes k m = be_bytes k n \<Longrightarrow> m mod 256 ^ k = n mod 256 ^ k"
proof (induction k arbitrary: m n)
  case (Suc k)
  then have tail: "be_bytes k (m div 256) = be_bytes k (n div 256)"
    and "m mod 256 = n mod 256" by (auto dest: char_of_mod_inj)
  with Suc.IH [OF tail] show ?case by (simp add: mod_mult2_eq)
qed simp

definition frameable :: "string list \<Rightarrow> bool" where
  "frameable fs \<longleftrightarrow> (\<forall>f \<in> set fs. length f < 2 ^ 32)"

lemma frameable_simps [simp]:
  "frameable []" "frameable (f # fs) \<longleftrightarrow> length f < 2 ^ 32 \<and> frameable fs"
  "frameable (fs @ gs) \<longleftrightarrow> frameable fs \<and> frameable gs"
  by (auto simp: frameable_def)

lemma write_field_append_inj:
  assumes "write_field f @ r = write_field g @ s" and "length f < 2 ^ 32" and "length g < 2 ^ 32"
  shows "f = g \<and> r = s"
proof -
  have "be_bytes 4 (length f) = be_bytes 4 (length g)" and rest: "f @ r = g @ s"
    using assms by (auto simp: write_field_def append_eq_append_conv)
  then have "length f mod 256 ^ 4 = length g mod 256 ^ 4" by (intro be_bytes_inj)
  then have "length f = length g" using assms(2,3) by simp
  with rest show ?thesis by simp
qed

lemma write_field_not_Nil [simp]: "write_field f \<noteq> []"
  by (metis append_is_Nil_conv length_0_conv length_be_bytes write_field_def zero_neq_numeral)

lemma write_fields_simps [simp]:
  "write_fields [] = []" "write_fields (f # fs) = write_field f @ write_fields fs"
  "write_fields (fs @ gs) = write_fields fs @ write_fields gs"
  by (simp_all add: write_fields_def)

lemma write_fields_inj:
  "write_fields fs = write_fields gs \<Longrightarrow> frameable fs \<Longrightarrow> frameable gs \<Longrightarrow> fs = gs"
proof (induction fs arbitrary: gs)
  case Nil
  then show ?case by (cases gs) auto
next
  case (Cons f fs)
  then obtain g gs' where gs: "gs = g # gs'" by (cases gs) auto
  have "f = g \<and> write_fields fs = write_fields gs'"
    by (rule write_field_append_inj) (use Cons.prems gs in auto)
  with Cons gs show ?case by auto
qed

end
