(* ===== verification/EvidenceKey.thy ===== *)
theory EvidenceKey
  imports Framing
begin

text \<open>
  The keys reused evidence is bound to and the impact graph (\<open>internal/evidence/key.go\<close>,
  \<open>digest.go\<close> and \<open>graph.go\<close>). A Go map from strings to strings is an association list
  with distinct keys; a \<open>nil\<close> list that the key tells from an empty one is \<open>None\<close>. The
  hash is the parameter \<open>sha256\<close>, from bytes to the hexadecimal digest, and what the
  lemmas compare is the bytes it is applied to.
\<close>

type_synonym string_map = "(string \<times> string) list"

record target_inputs =
  ti_Files :: string_map
  ti_Dependencies :: string_map
  ti_Toolchain :: string
  ti_Platform :: string
  ti_Environment :: "string list"
  ti_Contract :: string
  ti_TestArgs :: "string list option"
  ti_BuildTags :: "string list option"
  ti_CommandTimeout :: int
  ti_TargetTimeout :: int
  ti_GoatestVersion :: string
  ti_GoatestBuild :: string
  ti_GoMutantsVersion :: string
  ti_Corpus :: string_map

record target_key =
  tk_Package :: string
  tk_Name :: string
  tk_Kind :: string
  tk_Key :: string
  tk_WholeTree :: bool

section \<open>What is hashed\<close>

definition sorted_map :: "string_map \<Rightarrow> string_map" where
  "sorted_map values =
     map (\<lambda>key. (key, case map_of values key of Some v \<Rightarrow> v | None \<Rightarrow> [])) (sort_slice (map fst values))"

definition pair_fields :: "string_map \<Rightarrow> string list" where
  "pair_fields values = concat (map (\<lambda>(key, v). [key, v]) values)"

definition map_fields :: "string \<Rightarrow> string_map \<Rightarrow> string list" where
  "map_fields domain values = domain # pair_fields (sorted_map values)"

definition list_fields :: "string \<Rightarrow> string list option \<Rightarrow> string list" where
  "list_fields domain values =
     domain # (case values of
        None \<Rightarrow> [''absent'']
      | Some vs \<Rightarrow> ''present'' # itoa (int (length vs)) # vs)"

definition target_behavior_fields :: "target_inputs \<Rightarrow> string list" where
  "target_behavior_fields inputs =
     [''goatest-mutation-evidence-key-v3''] @
     map_fields ''files'' (ti_Files inputs) @
     map_fields ''dependencies'' (ti_Dependencies inputs) @
     [''toolchain'', ti_Toolchain inputs, ''platform'', ti_Platform inputs, ''environment''] @
     sort_slice (ti_Environment inputs) @
     [''contract'', ti_Contract inputs] @
     list_fields ''test-args'' (ti_TestArgs inputs) @
     list_fields ''build-tags'' (ti_BuildTags inputs) @
     [''command-timeout'', itoa (ti_CommandTimeout inputs),
      ''target-timeout'', itoa (ti_TargetTimeout inputs),
      ''goatest'', ti_GoatestVersion inputs, ''goatest-build'', ti_GoatestBuild inputs,
      ''go-mutants'', ti_GoMutantsVersion inputs] @
     map_fields ''corpus'' (ti_Corpus inputs)"

definition target_behavior_key :: "(string \<Rightarrow> string) \<Rightarrow> target_inputs \<Rightarrow> string" where
  "target_behavior_key sha256 inputs = sha256 (write_fields (target_behavior_fields inputs))"

definition compare_target_keys :: "target_key \<Rightarrow> target_key \<Rightarrow> int" where
  "compare_target_keys first second =
     cmp_then (cmp_compare (tk_Package first) (tk_Package second))
     (cmp_then (cmp_compare (tk_Name first) (tk_Name second))
       (cmp_compare (tk_Kind first) (tk_Kind second)))"

definition suite_behavior_fields :: "(string \<Rightarrow> string) \<Rightarrow> target_inputs \<Rightarrow> target_key list \<Rightarrow> string list" where
  "suite_behavior_fields sha256 inputs targets =
     (let ordered = sort_func compare_target_keys targets
      in [''goatest-mutation-evidence-suite-key-v3'', ''targets'', itoa (int (length ordered))] @
         concat (map (\<lambda>t. [tk_Package t, tk_Name t, tk_Kind t, tk_Key t]) ordered) @
         [''package'', target_behavior_key sha256 inputs])"

definition suite_behavior_key :: "(string \<Rightarrow> string) \<Rightarrow> target_inputs \<Rightarrow> target_key list \<Rightarrow> string" where
  "suite_behavior_key sha256 inputs targets =
     sha256 (write_fields (suite_behavior_fields sha256 inputs targets))"

record evidence_inputs =
  ei_Files :: string_map
  ei_Dependencies :: string_map
  ei_Toolchain :: string
  ei_Platform :: string
  ei_Environment :: "string list"
  ei_Resources :: string_map
  ei_Corpus :: string_map
  ei_Contract :: string
  ei_GoatestVersion :: string
  ei_GoatestBuild :: string
  ei_GoMutantsVersion :: string

definition evidence_digest_fields :: "evidence_inputs \<Rightarrow> string list" where
  "evidence_digest_fields inputs =
     [''goatest-evidence-v2''] @
     map_fields ''files'' (ei_Files inputs) @
     map_fields ''dependencies'' (ei_Dependencies inputs) @
     [''toolchain'', ei_Toolchain inputs, ''platform'', ei_Platform inputs, ''environment''] @
     sort_slice (ei_Environment inputs) @
     map_fields ''resources'' (ei_Resources inputs) @
     map_fields ''corpus'' (ei_Corpus inputs) @
     [''contract'', ei_Contract inputs, ''goatest'', ei_GoatestVersion inputs,
      ''goatest-build'', ei_GoatestBuild inputs, ''go-mutants'', ei_GoMutantsVersion inputs]"

definition evidence_digest :: "(string \<Rightarrow> string) \<Rightarrow> evidence_inputs \<Rightarrow> string" where
  "evidence_digest sha256 inputs = sha256 (write_fields (evidence_digest_fields inputs))"

text \<open>Which files the scan leaves out, and which it counts as corpus (\<open>digest.go\<close>).\<close>

definition excluded_directory :: "string \<Rightarrow> bool" where
  "excluded_directory relative =
     (let first = (case cut_at (CHR ''/'') relative of Some (before, _) \<Rightarrow> before | None \<Rightarrow> relative)
      in first = ''.git'' \<or> first = ''.goatest'' \<or> first = ''reports'' \<or> first = ''dist'')"

fun contains_string :: "string \<Rightarrow> string \<Rightarrow> bool" where
  "contains_string sub [] = (sub = [])"
| "contains_string sub (c # cs) = (has_prefix (c # cs) sub \<or> contains_string sub cs)"

definition is_corpus :: "string \<Rightarrow> bool" where
  "is_corpus relative =
     (has_prefix relative ''testdata/fuzz/'' \<or> contains_string ''/testdata/fuzz/'' relative)"

section \<open>The impact graph\<close>

record graph_target =
  gt_ID :: string
  gt_Package :: string
  gt_Dependencies :: "string list"
  gt_CoveredFiles :: "string list"

record impact_graph =
  FilePackages :: string_map
  GraphTargets :: "graph_target list"

record graph_impact =
  ImpactTargets :: "string list"
  ImpactBroad :: bool

definition affects :: "string \<Rightarrow> string \<Rightarrow> graph_target \<Rightarrow> bool" where
  "affects path changed_package target =
     (has_suffix path ''_test.go'' \<and> gt_Package target = changed_package \<or>
      changed_package \<in> set (gt_Dependencies target) \<or> path \<in> set (gt_CoveredFiles target))"

fun affected_from :: "impact_graph \<Rightarrow> string list \<Rightarrow> string list \<Rightarrow> string list option" where
  "affected_from graph [] selected = Some selected"
| "affected_from graph (raw # changed) selected =
     (let path = replace_backslash raw in
      case map_of (FilePackages graph) path of
        None \<Rightarrow> None
      | Some changed_package \<Rightarrow>
          affected_from graph changed
            (fold (\<lambda>target selected. List.insert (gt_ID target) selected)
               (filter (affects path changed_package) (GraphTargets graph)) selected))"

definition affected :: "impact_graph \<Rightarrow> string list \<Rightarrow> graph_impact" where
  "affected graph changed =
     (case affected_from graph changed [] of
        None \<Rightarrow> \<lparr>ImpactTargets = sort_slice (map gt_ID (GraphTargets graph)), ImpactBroad = True\<rparr>
      | Some selected \<Rightarrow> \<lparr>ImpactTargets = sort_slice selected, ImpactBroad = False\<rparr>)"

definition graph_canonical :: "impact_graph \<Rightarrow> impact_graph" where
  "graph_canonical graph =
     graph\<lparr>GraphTargets :=
       sort_func (\<lambda>a b. cmp_compare (gt_ID a) (gt_ID b))
         (map (\<lambda>t. t\<lparr>gt_Dependencies := sort_slice (gt_Dependencies t),
                      gt_CoveredFiles := sort_slice (gt_CoveredFiles t)\<rparr>) (GraphTargets graph))\<rparr>"

section \<open>The hashed bytes determine the inputs\<close>

lemma pair_fields_simps [simp]:
  "pair_fields [] = []" "pair_fields ((k, v) # kvs) = k # v # pair_fields kvs"
  by (simp_all add: pair_fields_def)

lemma pair_fields_split:
  assumes "pair_fields xs @ t # r = pair_fields ys @ t # s" "t \<notin> fst ` set xs" "t \<notin> fst ` set ys"
  shows "xs = ys \<and> r = s"
  using assms
proof (induction xs arbitrary: ys)
  case Nil
  then show ?case by (cases ys) auto
next
  case (Cons x xs)
  then obtain y ys' where "ys = y # ys'" by (cases ys; cases x) auto
  with Cons show ?case by (cases x; cases y) auto
qed

lemma tag_split:
  assumes "xs @ t # r = ys @ t # s" "t \<notin> set xs" "t \<notin> set ys"
  shows "xs = ys \<and> r = s"
  using assms
proof (induction xs arbitrary: ys)
  case Nil
  then show ?case by (cases ys) auto
next
  case (Cons x xs)
  then show ?case by (cases ys) auto
qed

lemma pair_fields_inj: "pair_fields xs = pair_fields ys \<Longrightarrow> xs = ys"
proof (induction xs arbitrary: ys)
  case Nil
  then show ?case by (cases ys) auto
next
  case (Cons x xs)
  then obtain y ys' where "ys = y # ys'" by (cases ys; cases x) auto
  with Cons show ?case by (cases x; cases y) auto
qed

lemma fst_sorted_map [simp]: "fst ` set (sorted_map values) = fst ` set values"
  by (simp add: sorted_map_def image_image)

lemma map_of_sorted_map [simp]: "map_of (sorted_map values) = map_of values"
proof
  fix key
  show "map_of (sorted_map values) key = map_of values key"
  proof (cases "key \<in> fst ` set values")
    case True
    then obtain v where v: "map_of values key = Some v"
      by (metis map_of_eq_None_iff not_Some_eq)
    show ?thesis using True
      by (simp add: sorted_map_def map_of_map_restrict v)
  next
    case False
    then have "map_of values key = None" "map_of (sorted_map values) key = None"
      by (simp_all only: map_of_eq_None_iff fst_sorted_map not_False_eq_True)
    then show ?thesis by simp
  qed
qed

lemma list_fields_split:
  "list_fields domain xs @ r = list_fields domain ys @ s \<Longrightarrow> xs = ys \<and> r = s"
  by (auto simp: list_fields_def dest!: itoa_inj split: option.splits)

text \<open>
  The tags that end a map or the environment occur inside them only in the position of a
  value: no file is called \<open>dependencies\<close>, no dependency \<open>toolchain\<close>, no environment entry
  is the word \<open>contract\<close> (entries have an equals sign).
\<close>

definition separated :: "target_inputs \<Rightarrow> bool" where
  "separated inputs \<longleftrightarrow>
     ''dependencies'' \<notin> fst ` set (ti_Files inputs) \<and> ''toolchain'' \<notin> fst ` set (ti_Dependencies inputs) \<and>
     ''contract'' \<notin> set (ti_Environment inputs) \<and> frameable (target_behavior_fields inputs)"

text \<open>
  Two runs whose target keys hash the same bytes observed the same thing: the same files,
  dependencies and corpus with the same digests, the same environment, toolchain, platform,
  contract, arguments, tags, timeouts and versions. The framing needs every field below 4 GiB,
  and, because a map is framed without its size, no path or environment entry equal to the
  label of the section that follows it (\<open>separated\<close>).
\<close>

theorem target_behavior_fields_injective:
  assumes "write_fields (target_behavior_fields x) = write_fields (target_behavior_fields y)"
    and "separated x" "separated y"
  shows "map_of (ti_Files x) = map_of (ti_Files y) \<and>
    map_of (ti_Dependencies x) = map_of (ti_Dependencies y) \<and>
    map_of (ti_Corpus x) = map_of (ti_Corpus y) \<and>
    mset (ti_Environment x) = mset (ti_Environment y) \<and>
    ti_Toolchain x = ti_Toolchain y \<and> ti_Platform x = ti_Platform y \<and> ti_Contract x = ti_Contract y \<and>
    ti_TestArgs x = ti_TestArgs y \<and> ti_BuildTags x = ti_BuildTags y \<and>
    ti_CommandTimeout x = ti_CommandTimeout y \<and> ti_TargetTimeout x = ti_TargetTimeout y \<and>
    ti_GoatestVersion x = ti_GoatestVersion y \<and> ti_GoatestBuild x = ti_GoatestBuild y \<and>
    ti_GoMutantsVersion x = ti_GoMutantsVersion y"
proof -
  have fields: "target_behavior_fields x = target_behavior_fields y"
    using assms by (intro write_fields_inj) (auto simp: separated_def)
  define options where "options i =
     list_fields ''test-args'' (ti_TestArgs i) @ list_fields ''build-tags'' (ti_BuildTags i) @
     ''command-timeout'' # itoa (ti_CommandTimeout i) # ''target-timeout'' # itoa (ti_TargetTimeout i) #
     ''goatest'' # ti_GoatestVersion i # ''goatest-build'' # ti_GoatestBuild i #
     ''go-mutants'' # ti_GoMutantsVersion i # ''corpus'' # pair_fields (sorted_map (ti_Corpus i))"
    for i :: target_inputs
  define deps where "deps i = ti_Toolchain i # ''platform'' # ti_Platform i # ''environment'' #
     sort_slice (ti_Environment i) @ ''contract'' # ti_Contract i # options i" for i :: target_inputs
  have shape: "target_behavior_fields i = ''goatest-mutation-evidence-key-v3'' # ''files'' #
     pair_fields (sorted_map (ti_Files i)) @ ''dependencies'' #
     pair_fields (sorted_map (ti_Dependencies i)) @ ''toolchain'' # deps i" for i
    by (simp add: target_behavior_fields_def map_fields_def deps_def options_def)
  have files: "sorted_map (ti_Files x) = sorted_map (ti_Files y)" and
    rest: "pair_fields (sorted_map (ti_Dependencies x)) @ ''toolchain'' # deps x =
      pair_fields (sorted_map (ti_Dependencies y)) @ ''toolchain'' # deps y"
    using fields assms(2,3) pair_fields_split [of "sorted_map (ti_Files x)" "''dependencies''"]
    by (auto simp: shape separated_def)
  have dependencies: "sorted_map (ti_Dependencies x) = sorted_map (ti_Dependencies y)" and deps: "deps x = deps y"
    using pair_fields_split [OF rest] assms(2,3) by (auto simp: separated_def)
  have single: "ti_Toolchain x = ti_Toolchain y" "ti_Platform x = ti_Platform y"
    and body: "sort_slice (ti_Environment x) @ ''contract'' # ti_Contract x # options x =
      sort_slice (ti_Environment y) @ ''contract'' # ti_Contract y # options y"
    using deps by (simp_all add: deps_def)
  have env: "sort_slice (ti_Environment x) = sort_slice (ti_Environment y)"
    and tail: "ti_Contract x # options x = ti_Contract y # options y"
    using tag_split [OF body] assms(2,3) by (simp_all add: separated_def)
  have contract: "ti_Contract x = ti_Contract y" and options: "options x = options y" using tail by simp_all
  note test_args = list_fields_split [OF options [unfolded options_def]]
  note build_tags = list_fields_split [OF test_args [THEN conjunct2]]
  have args: "ti_TestArgs x = ti_TestArgs y" and tags: "ti_BuildTags x = ti_BuildTags y"
    and tail: "itoa (ti_CommandTimeout x) = itoa (ti_CommandTimeout y)"
      "itoa (ti_TargetTimeout x) = itoa (ti_TargetTimeout y)"
      "ti_GoatestVersion x = ti_GoatestVersion y" "ti_GoatestBuild x = ti_GoatestBuild y"
      "ti_GoMutantsVersion x = ti_GoMutantsVersion y"
      "pair_fields (sorted_map (ti_Corpus x)) = pair_fields (sorted_map (ti_Corpus y))"
    using test_args [THEN conjunct1] build_tags by simp_all
  have "mset (ti_Environment x) = mset (ti_Environment y)" using env by (metis mset_sort_func)
  moreover have "map_of (ti_Files x) = map_of (ti_Files y)" "map_of (ti_Dependencies x) = map_of (ti_Dependencies y)"
    "map_of (ti_Corpus x) = map_of (ti_Corpus y)"
    using files dependencies pair_fields_inj [OF tail(6)] by (metis map_of_sorted_map)+
  ultimately show ?thesis
    using single contract args tags tail itoa_inj by blast
qed

definition sample_inputs :: "string_map \<Rightarrow> string list \<Rightarrow> target_inputs" where
  "sample_inputs files environment =
     \<lparr>ti_Files = files, ti_Dependencies = [(''m'', ''v1'')], ti_Toolchain = ''go1.26'', ti_Platform = ''linux'',
      ti_Environment = environment, ti_Contract = ''c'', ti_TestArgs = None, ti_BuildTags = Some [],
      ti_CommandTimeout = 5, ti_TargetTimeout = 6, ti_GoatestVersion = ''1'', ti_GoatestBuild = ''b'',
      ti_GoMutantsVersion = ''2'', ti_Corpus = []\<rparr>"

theorem target_behavior_fields_injective_witness:
  "let x = sample_inputs [(''b.go'', ''2''), (''a.go'', ''1'')] [''B=2'', ''A=1''];
       y = sample_inputs [(''a.go'', ''1''), (''b.go'', ''2'')] [''A=1'', ''B=2'']
   in x \<noteq> y \<and> map_of (ti_Files x) = map_of (ti_Files y)"
proof -
  let ?x = "sample_inputs [(''b.go'', ''2''), (''a.go'', ''1'')] [''B=2'', ''A=1'']"
  let ?y = "sample_inputs [(''a.go'', ''1''), (''b.go'', ''2'')] [''A=1'', ''B=2'']"
  have fields: "target_behavior_fields ?x = target_behavior_fields ?y" by code_simp
  have "list_all (\<lambda>f. int (length f) < 2 ^ 32) (target_behavior_fields ?x)" by code_simp
  then have frameable: "frameable (target_behavior_fields ?x)"
    by (auto simp: frameable_def list_all_iff)
  have tags: "''dependencies'' \<notin> fst ` set (ti_Files ?x)" "''toolchain'' \<notin> fst ` set (ti_Dependencies ?x)"
    "''contract'' \<notin> set (ti_Environment ?x)" "''dependencies'' \<notin> fst ` set (ti_Files ?y)"
    "''toolchain'' \<notin> fst ` set (ti_Dependencies ?y)" "''contract'' \<notin> set (ti_Environment ?y)"
    by (simp_all add: sample_inputs_def)
  have "separated ?x" "separated ?y"
    using frameable tags fields by (simp_all add: separated_def)
  from target_behavior_fields_injective [OF _ this] fields
  have "map_of (ti_Files ?x) = map_of (ti_Files ?y)" by simp
  then show ?thesis by (simp add: Let_def sample_inputs_def)
qed


text \<open>A suite key does not depend on the order its targets were collected in.\<close>

interpretation target_keys: comparator compare_target_keys
  unfolding compare_target_keys_def by (intro comparator_then comparator_compare)

lemma suite_behavior_key_perm:
  assumes "mset xs = mset ys" and "distinct (map (\<lambda>t. (tk_Package t, tk_Name t, tk_Kind t)) xs)"
  shows "suite_behavior_key sha256 inputs xs = suite_behavior_key sha256 inputs ys"
proof -
  have inj: "inj_on (\<lambda>t. (tk_Package t, tk_Name t, tk_Kind t)) (set xs)" using assms(2) by (simp add: distinct_map)
  have "sort_func compare_target_keys xs = sort_func compare_target_keys ys"
    by (rule target_keys.sort_func_perm [OF assms(1)])
      (auto simp: compare_target_keys_def intro: inj_onD [OF inj])
  then show ?thesis by (simp add: suite_behavior_key_def suite_behavior_fields_def)
qed

section \<open>What the graph selects\<close>

lemma set_fold_insert: "set (fold (\<lambda>t selected. List.insert (f t) selected) ts selected) = f ` set ts \<union> set selected"
  by (induction ts arbitrary: selected) auto

lemma distinct_fold_insert:
  "distinct selected \<Longrightarrow> distinct (fold (\<lambda>t selected. List.insert (f t) selected) ts selected)"
  by (induction ts arbitrary: selected) auto

definition known_paths :: "impact_graph \<Rightarrow> string list \<Rightarrow> bool" where
  "known_paths graph changed = list_all (\<lambda>raw. map_of (FilePackages graph) (replace_backslash raw) \<noteq> None) changed"

definition touched_by :: "impact_graph \<Rightarrow> string list \<Rightarrow> graph_target \<Rightarrow> bool" where
  "touched_by graph changed target =
     list_ex (\<lambda>raw. case map_of (FilePackages graph) (replace_backslash raw) of
        None \<Rightarrow> False
      | Some pkg \<Rightarrow> affects (replace_backslash raw) pkg target) changed"

lemma affected_from_known:
  assumes "known_paths graph changed" "distinct selected"
  shows "\<exists>ids. affected_from graph changed selected = Some ids \<and> distinct ids \<and>
    set ids = set selected \<union> gt_ID ` {t \<in> set (GraphTargets graph). touched_by graph changed t}"
  using assms
proof (induction graph changed selected rule: affected_from.induct)
  case (2 graph raw changed selected)
  from 2(2) obtain pkg where pkg: "map_of (FilePackages graph) (replace_backslash raw) = Some pkg"
    by (auto simp: known_paths_def)
  define stage where "stage = fold (\<lambda>t selected. List.insert (gt_ID t) selected)
     (filter (affects (replace_backslash raw) pkg) (GraphTargets graph)) selected"
  have "distinct stage" using 2(3) by (simp add: stage_def distinct_fold_insert)
  with 2(1) [OF refl pkg] 2(2) obtain ids where "affected_from graph changed stage = Some ids" "distinct ids"
    "set ids = set stage \<union> gt_ID ` {t \<in> set (GraphTargets graph). touched_by graph changed t}"
    by (auto simp: known_paths_def stage_def)
  then show ?case using pkg
    by (intro exI [of _ ids]) (auto simp: Let_def stage_def touched_by_def set_fold_insert)
qed (simp add: touched_by_def)

lemma affected_from_unknown: "\<not> known_paths graph changed \<Longrightarrow> affected_from graph changed selected = None"
  by (induction graph changed selected rule: affected_from.induct)
    (auto simp: known_paths_def Let_def split: option.splits)

text \<open>
  Impact selection is exact: a change to a file the graph does not know selects every
  target; otherwise exactly the targets one of the changed files concerns are selected, once
  each and in order.
\<close>

theorem affected_exact:
  "affected graph changed =
    (if known_paths graph changed
     then \<lparr>ImpactTargets = sorted_list_of_set (gt_ID ` {t \<in> set (GraphTargets graph). touched_by graph changed t}),
           ImpactBroad = False\<rparr>
     else \<lparr>ImpactTargets = sort (map gt_ID (GraphTargets graph)), ImpactBroad = True\<rparr>)"
proof (cases "known_paths graph changed")
  case True
  then obtain ids where "affected_from graph changed [] = Some ids" "distinct ids"
    "set ids = gt_ID ` {t \<in> set (GraphTargets graph). touched_by graph changed t}"
    using affected_from_known [of graph changed "[]"] by auto
  with True show ?thesis
    by (simp add: affected_def sort_slice_sort) (metis sorted_list_of_set_sort_remdups distinct_remdups_id)
next
  case False
  then show ?thesis by (simp add: affected_def affected_from_unknown sort_slice_sort)
qed
end
