(* ===== verification/EvidenceStore.thy ===== *)
theory EvidenceStore
  imports EvidenceKey
begin

text \<open>
  The stored mutation evidence (\<open>internal/evidence/mutation.go\<close>): its records, the
  canonical order it is written in, and the validation it passes before it is written and
  after it is read. \<open>nil\<close> pointers are \<open>None\<close>; a map used as a set of identities is a list
  of those seen.
\<close>

section \<open>Data\<close>

record suite_key =
  sk_Package :: string
  sk_Key :: string
  sk_WholeTree :: bool

record finding_seed =
  fs_Kind :: string
  fs_Summary :: string

record mutation_record =
  rec_MutantID :: string
  rec_Path :: string
  rec_Package :: string
  rec_Outcome :: string
  rec_Provenance :: string
  rec_KilledBy :: "target_key list"
  rec_Exhausted :: "target_key list"
  rec_Suite :: "suite_key option"
  rec_Finding :: "finding_seed option"

record mutation_store =
  ms_Schema :: string
  ms_ModulePath :: string
  ms_Records :: "mutation_record list"

definition mutation_schema_v1 :: string where "mutation_schema_v1 = ''mutation-evidence-v1''"
definition outcome_killed :: string where "outcome_killed = ''killed''"
definition outcome_survived :: string where "outcome_survived = ''survived''"
definition outcome_unreached :: string where "outcome_unreached = ''unreached''"

datatype evidence_error =
    RequiresModulePath
  | RecordsMutantTwice string
  | MutantIDNotDigest string
  | RequiresPathAndPackage string
  | ProvenanceNotSnapshot string string
  | OutcomeNotReusable string string
  | KilledByTwice string string string
  | ExhaustsTwice string string string
  | SuiteRequiresPackage string
  | SuiteKeyNotDigest string string
  | FindingRequiresKindAndSummary string
  | TargetRequiresIdentity string string
  | TargetKeyNotDigest string string string
  | OutcomeShape string string
  | IdentityMismatch

section \<open>Validation\<close>

definition hex_char :: "char \<Rightarrow> bool" where
  "hex_char c \<longleftrightarrow> is_digit c \<or> CHR ''a'' \<le> c \<and> c \<le> CHR ''f''"

definition is_digest :: "string \<Rightarrow> bool" where
  "is_digest v \<longleftrightarrow> length v = 64 \<and> list_all hex_char v"

definition validate_target_key :: "string \<Rightarrow> string \<Rightarrow> target_key \<Rightarrow> evidence_error option" where
  "validate_target_key mutantID field target =
     (if tk_Package target = [] \<or> tk_Name target = [] \<or> tk_Kind target = []
      then Some (TargetRequiresIdentity mutantID field)
      else if \<not> is_digest (tk_Key target) then Some (TargetKeyNotDigest mutantID field (tk_Key target))
      else None)"

definition key_identity :: "target_key \<Rightarrow> string \<times> string \<times> string" where
  "key_identity target = (tk_Package target, tk_Name target, tk_Kind target)"

fun validate_key_list ::
  "(target_key \<Rightarrow> evidence_error option) \<Rightarrow> (target_key \<Rightarrow> evidence_error) \<Rightarrow>
   (string \<times> string \<times> string) list \<Rightarrow> target_key list \<Rightarrow> evidence_error option" where
  "validate_key_list valid twice seen [] = None"
| "validate_key_list valid twice seen (target # targets) =
     err_then (valid target)
       (if key_identity target \<in> set seen then Some (twice target)
        else validate_key_list valid twice (key_identity target # seen) targets)"

definition validate_keys :: "mutation_record \<Rightarrow> evidence_error option" where
  "validate_keys r =
     err_then
       (validate_key_list (validate_target_key (rec_MutantID r) ''killed_by'')
          (\<lambda>t. KilledByTwice (rec_MutantID r) (tk_Package t) (tk_Name t)) [] (rec_KilledBy r))
     (err_then
       (validate_key_list (validate_target_key (rec_MutantID r) ''exhausted'')
          (\<lambda>t. ExhaustsTwice (rec_MutantID r) (tk_Package t) (tk_Name t)) [] (rec_Exhausted r))
     (err_then
       (case rec_Suite r of
          None \<Rightarrow> None
        | Some suite \<Rightarrow>
            if sk_Package suite = [] then Some (SuiteRequiresPackage (rec_MutantID r))
            else if \<not> is_digest (sk_Key suite) then Some (SuiteKeyNotDigest (rec_MutantID r) (sk_Key suite))
            else None)
       (case rec_Finding r of
          None \<Rightarrow> None
        | Some seed \<Rightarrow>
            if fs_Kind seed = [] \<or> fs_Summary seed = []
            then Some (FindingRequiresKindAndSummary (rec_MutantID r)) else None)))"

definition validate_shape :: "mutation_record \<Rightarrow> evidence_error option" where
  "validate_shape r =
     (let shape_error = Some (OutcomeShape (rec_Outcome r) (rec_MutantID r)) in
      if rec_Outcome r = outcome_killed then
        if rec_KilledBy r = [] \<or> rec_Exhausted r \<noteq> [] \<or> rec_Suite r \<noteq> None \<or> rec_Finding r \<noteq> None
        then shape_error else None
      else if rec_Outcome r = outcome_survived then
        if rec_KilledBy r \<noteq> [] \<or> rec_Exhausted r = [] \<or> rec_Suite r \<noteq> None \<or> rec_Finding r = None
        then shape_error else None
      else if rec_Outcome r = outcome_unreached then
        if rec_KilledBy r \<noteq> [] \<or> rec_Exhausted r \<noteq> [] \<or> rec_Suite r = None \<or> rec_Finding r = None
        then shape_error else None
      else None)"

definition validate_record :: "mutation_record \<Rightarrow> evidence_error option" where
  "validate_record r =
     (if \<not> is_digest (rec_MutantID r) then Some (MutantIDNotDigest (rec_MutantID r))
      else if rec_Path r = [] \<or> rec_Package r = [] then Some (RequiresPathAndPackage (rec_MutantID r))
      else if (case cut_prefix (rec_Provenance r) ''snapshot='' of
                 None \<Rightarrow> True | Some snapshot \<Rightarrow> \<not> is_digest snapshot)
      then Some (ProvenanceNotSnapshot (rec_MutantID r) (rec_Provenance r))
      else if rec_Outcome r \<notin> set [outcome_killed, outcome_survived, outcome_unreached]
      then Some (OutcomeNotReusable (rec_MutantID r) (rec_Outcome r))
      else err_then (validate_keys r) (validate_shape r))"

fun validate_records :: "string list \<Rightarrow> mutation_record list \<Rightarrow> evidence_error option" where
  "validate_records seen [] = None"
| "validate_records seen (r # rs) =
     err_then (validate_record r)
       (if rec_MutantID r \<in> set seen then Some (RecordsMutantTwice (rec_MutantID r))
        else validate_records (rec_MutantID r # seen) rs)"

definition validate_store :: "mutation_store \<Rightarrow> evidence_error option" where
  "validate_store store =
     (if ms_ModulePath store = [] then Some RequiresModulePath
      else validate_records [] (ms_Records store))"

text \<open>
  The checks a decoded store passes before it is used (\<open>loadMutationWithHooks\<close>), and
  the shape a JSON record must have: which of the optional fields an outcome requires.
\<close>

definition accept_loaded :: "string \<Rightarrow> mutation_store \<Rightarrow> evidence_error + mutation_store" where
  "accept_loaded modulePath store =
     (if ms_Schema store \<noteq> mutation_schema_v1 \<or> ms_ModulePath store = [] \<or> ms_ModulePath store \<noteq> modulePath
      then Inl IdentityMismatch
      else case validate_store store of Some e \<Rightarrow> Inl e | None \<Rightarrow> Inr store)"

definition mutation_outcome_fields :: "string \<Rightarrow> string list option" where
  "mutation_outcome_fields outcome =
     (if outcome = outcome_killed then Some [''killed_by'']
      else if outcome = outcome_survived then Some [''exhausted'', ''finding'']
      else if outcome = outcome_unreached then Some [''suite'', ''finding'']
      else None)"

definition validate_outcome_fields :: "mutation_record \<Rightarrow> (string \<times> bool) list \<Rightarrow> evidence_error option" where
  "validate_outcome_fields r present =
     (case mutation_outcome_fields (rec_Outcome r) of
        None \<Rightarrow> None
      | Some required \<Rightarrow>
          first_error (\<lambda>(name, is_present).
            if (name \<in> set required) = is_present then None
            else Some (OutcomeShape (rec_Outcome r) (rec_MutantID r))) present)"

section \<open>The canonical store\<close>

definition canonical_record :: "mutation_record \<Rightarrow> mutation_record" where
  "canonical_record r =
     r\<lparr>rec_KilledBy := sort_func compare_target_keys (rec_KilledBy r),
       rec_Exhausted := sort_func compare_target_keys (rec_Exhausted r)\<rparr>"

definition compare_records :: "mutation_record \<Rightarrow> mutation_record \<Rightarrow> int" where
  "compare_records first second = cmp_compare (rec_MutantID first) (rec_MutantID second)"

definition canonical_store :: "mutation_store \<Rightarrow> mutation_store" where
  "canonical_store store =
     store\<lparr>ms_Records := sort_func compare_records (map canonical_record (ms_Records store))\<rparr>"

text \<open>What \<open>SaveMutation\<close> refuses before it writes, and the store it writes.\<close>

definition save_store :: "mutation_store \<Rightarrow> evidence_error + mutation_store" where
  "save_store store =
     (let store = store\<lparr>ms_Schema := mutation_schema_v1\<rparr> in
      case validate_store store of Some e \<Rightarrow> Inl e | None \<Rightarrow> Inr (canonical_store store))"

interpretation records_order: comparator compare_records
  unfolding compare_records_def by (rule comparator_compare)

section \<open>What a valid store is\<close>

definition good_key :: "target_key \<Rightarrow> bool" where
  "good_key t \<longleftrightarrow> tk_Package t \<noteq> [] \<and> tk_Name t \<noteq> [] \<and> tk_Kind t \<noteq> [] \<and> is_digest (tk_Key t)"

definition good_keys :: "target_key list \<Rightarrow> bool" where
  "good_keys ts \<longleftrightarrow> (\<forall>t \<in> set ts. good_key t) \<and> distinct (map key_identity ts)"

definition good_seed :: "finding_seed \<Rightarrow> bool" where
  "good_seed seed \<longleftrightarrow> fs_Kind seed \<noteq> [] \<and> fs_Summary seed \<noteq> []"

definition good_suite :: "suite_key \<Rightarrow> bool" where
  "good_suite suite \<longleftrightarrow> sk_Package suite \<noteq> [] \<and> is_digest (sk_Key suite)"

definition good_answer :: "mutation_record \<Rightarrow> bool" where
  "good_answer r \<longleftrightarrow>
     rec_Outcome r = outcome_killed \<and> rec_KilledBy r \<noteq> [] \<and> rec_Exhausted r = [] \<and>
       rec_Suite r = None \<and> rec_Finding r = None \<or>
     rec_Outcome r = outcome_survived \<and> rec_KilledBy r = [] \<and> rec_Exhausted r \<noteq> [] \<and>
       rec_Suite r = None \<and> (\<exists>seed. rec_Finding r = Some seed \<and> good_seed seed) \<or>
     rec_Outcome r = outcome_unreached \<and> rec_KilledBy r = [] \<and> rec_Exhausted r = [] \<and>
       (\<exists>suite. rec_Suite r = Some suite \<and> good_suite suite) \<and> (\<exists>seed. rec_Finding r = Some seed \<and> good_seed seed)"

definition good_record :: "mutation_record \<Rightarrow> bool" where
  "good_record r \<longleftrightarrow>
     is_digest (rec_MutantID r) \<and> rec_Path r \<noteq> [] \<and> rec_Package r \<noteq> [] \<and>
     (\<exists>snapshot. rec_Provenance r = ''snapshot='' @ snapshot \<and> is_digest snapshot) \<and>
     good_keys (rec_KilledBy r) \<and> good_keys (rec_Exhausted r) \<and> good_answer r"

definition good_store :: "mutation_store \<Rightarrow> bool" where
  "good_store store \<longleftrightarrow>
     ms_ModulePath store \<noteq> [] \<and> (\<forall>r \<in> set (ms_Records store). good_record r) \<and>
     distinct (map rec_MutantID (ms_Records store))"

lemma validate_target_key_None: "validate_target_key i f t = None \<longleftrightarrow> good_key t"
  by (simp add: validate_target_key_def good_key_def)

lemma validate_key_list_None:
  "validate_key_list valid twice seen ts = None \<longleftrightarrow>
     (\<forall>t \<in> set ts. valid t = None) \<and> distinct (map key_identity ts) \<and> key_identity ` set ts \<inter> set seen = {}"
  by (induction valid twice seen ts rule: validate_key_list.induct) auto

lemma outcomes_differ [simp]:
  "outcome_killed \<noteq> outcome_survived" "outcome_killed \<noteq> outcome_unreached" "outcome_survived \<noteq> outcome_unreached"
  "outcome_survived \<noteq> outcome_killed" "outcome_unreached \<noteq> outcome_killed" "outcome_unreached \<noteq> outcome_survived"
  by (simp_all add: outcome_killed_def outcome_survived_def outcome_unreached_def)

lemma validate_keys_None:
  "validate_keys r = None \<longleftrightarrow> good_keys (rec_KilledBy r) \<and> good_keys (rec_Exhausted r) \<and>
     (\<forall>suite. rec_Suite r = Some suite \<longrightarrow> good_suite suite) \<and> (\<forall>seed. rec_Finding r = Some seed \<longrightarrow> good_seed seed)"
  by (auto simp: validate_keys_def validate_key_list_None validate_target_key_None good_keys_def
      good_suite_def good_seed_def split: option.splits)

lemma validate_shape_None:
  "rec_Outcome r \<in> {outcome_killed, outcome_survived, outcome_unreached} \<Longrightarrow>
   (\<forall>suite. rec_Suite r = Some suite \<longrightarrow> good_suite suite) \<Longrightarrow>
   (\<forall>seed. rec_Finding r = Some seed \<longrightarrow> good_seed seed) \<Longrightarrow>
   validate_shape r = None \<longleftrightarrow> good_answer r"
  by (auto simp: validate_shape_def good_answer_def Let_def)

lemma good_answer_parts:
  "good_answer r \<Longrightarrow> rec_Outcome r \<in> {outcome_killed, outcome_survived, outcome_unreached} \<and>
     (\<forall>suite. rec_Suite r = Some suite \<longrightarrow> good_suite suite) \<and> (\<forall>seed. rec_Finding r = Some seed \<longrightarrow> good_seed seed)"
  by (auto simp: good_answer_def)

lemma cut_prefix_Some: "cut_prefix s p = Some r \<longleftrightarrow> s = p @ r"
  by (auto simp: cut_prefix_def has_prefix_def) (metis append_take_drop_id)

lemma snapshot_provenance:
  "(case cut_prefix p ''snapshot='' of None \<Rightarrow> True | Some snapshot \<Rightarrow> \<not> is_digest snapshot) \<longleftrightarrow>
     \<not> (\<exists>snapshot. p = ''snapshot='' @ snapshot \<and> is_digest snapshot)"
proof (cases "cut_prefix p ''snapshot=''")
  case None
  then show ?thesis using cut_prefix_Some [of p "''snapshot=''"] by fastforce
next
  case (Some snapshot)
  then have "p = ''snapshot='' @ snapshot" by (simp only: cut_prefix_Some)
  with Some show ?thesis by simp
qed

lemma answer_parts:
  "rec_Outcome r \<in> {outcome_killed, outcome_survived, outcome_unreached} \<and>
   ((\<forall>suite. rec_Suite r = Some suite \<longrightarrow> good_suite suite) \<and> (\<forall>seed. rec_Finding r = Some seed \<longrightarrow> good_seed seed)) \<and>
   validate_shape r = None \<longleftrightarrow> good_answer r"
  using validate_shape_None [of r] good_answer_parts [of r] by blast

lemma validate_record_None: "validate_record r = None \<longleftrightarrow> good_record r"
proof -
  have "validate_record r = None \<longleftrightarrow>
    is_digest (rec_MutantID r) \<and> (rec_Path r \<noteq> [] \<and> rec_Package r \<noteq> []) \<and>
    (\<exists>snapshot. rec_Provenance r = ''snapshot='' @ snapshot \<and> is_digest snapshot) \<and>
    rec_Outcome r \<in> {outcome_killed, outcome_survived, outcome_unreached} \<and>
    validate_keys r = None \<and> validate_shape r = None"
    unfolding validate_record_def snapshot_provenance if_error_None err_then_None
    by (simp only: not_not de_Morgan_disj list.set set_simps)
  then show ?thesis unfolding validate_keys_None good_record_def using answer_parts [of r] by blast
qed

lemma validate_records_None:
  "validate_records seen rs = None \<longleftrightarrow>
     (\<forall>r \<in> set rs. good_record r) \<and> distinct (map rec_MutantID rs) \<and> rec_MutantID ` set rs \<inter> set seen = {}"
  by (induction seen rs rule: validate_records.induct) (auto simp: validate_record_None)

lemma validate_store_None: "validate_store store = None \<longleftrightarrow> good_store store"
  by (simp add: validate_store_def good_store_def validate_records_None)

text \<open>
  C31. The validation of a store accepts exactly the well-formed ones: mutants are identified
  by digests and recorded once; a record names the snapshot of the run it came from; and it
  carries what its outcome needs and nothing else, killers for a kill, exhausted targets and
  a finding for a survival, a suite and a finding for an unreached mutant.
\<close>

theorem validate_store_iff: "validate_store store = None \<longleftrightarrow> good_store store"
  by (rule validate_store_None)

lemma good_keys_sort [simp]: "good_keys (sort_func cmp ts) = good_keys ts"
  by (simp add: good_keys_def)

lemma good_record_canonical [simp]: "good_record (canonical_record r) = good_record r"
  by (simp add: good_record_def canonical_record_def good_answer_def)

lemma canonical_record_idem: "canonical_record (canonical_record r) = canonical_record r"
  by (simp add: canonical_record_def target_keys.sort_func_idem)

lemma canonical_record_id [simp]: "rec_MutantID (canonical_record r) = rec_MutantID r"
  by (simp add: canonical_record_def)

lemma good_store_canonical: "good_store store \<Longrightarrow> good_store (canonical_store store)"
  by (auto simp: good_store_def canonical_store_def comp_def)

lemma canonical_store_idem: "canonical_store (canonical_store store) = canonical_store store"
proof -
  have "map canonical_record (sort_func compare_records (map canonical_record rs)) =
      sort_func compare_records (map canonical_record rs)" for rs
    by (rule map_idI) (auto simp: canonical_record_idem)
  then show ?thesis by (simp add: canonical_store_def records_order.sort_func_idem)
qed


definition sample_digest :: string where "sample_digest = replicate 64 (CHR ''a'')"

definition sample_store :: mutation_store where
  "sample_store =
     \<lparr>ms_Schema = [], ms_ModulePath = ''m'',
      ms_Records = [\<lparr>rec_MutantID = sample_digest, rec_Path = ''a.go'', rec_Package = ''m'', rec_Outcome = ''killed'',
        rec_Provenance = ''snapshot='' @ sample_digest,
        rec_KilledBy = [\<lparr>tk_Package = ''m'', tk_Name = ''TestB'', tk_Kind = ''test'', tk_Key = sample_digest, tk_WholeTree = False\<rparr>,
                        \<lparr>tk_Package = ''m'', tk_Name = ''TestA'', tk_Kind = ''test'', tk_Key = sample_digest, tk_WholeTree = True\<rparr>],
        rec_Exhausted = [], rec_Suite = None, rec_Finding = None\<rparr>]\<rparr>"


end
