(* ===== verification/GoTime.thy ===== *)
theory GoTime
  imports GoPrelude
begin

text \<open>
  What the source uses of the standard library's \<open>time\<close> package: \<open>time.Parse\<close> with the
  layouts \<open>RFC3339\<close> and \<open>RFC3339Nano\<close>, which accept the same strings, and the order of
  the instants it returns. An instant is the number of nanoseconds since the first day of
  the year 0 in UTC.
\<close>

definition leap_year :: "int \<Rightarrow> bool" where
  "leap_year y = (y mod 4 = 0 \<and> (y mod 100 \<noteq> 0 \<or> y mod 400 = 0))"

definition days_in :: "int \<Rightarrow> int \<Rightarrow> int" where
  "days_in month year =
     (if month = 2 then (if leap_year year then 29 else 28)
      else if month \<in> {4, 6, 9, 11} then 30 else 31)"

definition days_before :: "int \<Rightarrow> int \<Rightarrow> int" where
  "days_before year month =
     365 * year + (year + 3) div 4 - (year + 99) div 100 + (year + 399) div 400 +
     sum_list (map (\<lambda>m. days_in m year) [1..month - 1])"

definition digit_at :: "string \<Rightarrow> nat \<Rightarrow> bool" where
  "digit_at s i = (i < length s \<and> is_digit (s ! i))"

text \<open>\<open>getnum\<close>: one or two digits, two where the layout fixes the width.\<close>

definition get_num :: "string \<Rightarrow> bool \<Rightarrow> (int \<times> string) option" where
  "get_num s fixed =
     (if \<not> digit_at s 0 then None
      else if \<not> digit_at s 1 then
        (if fixed then None else Some (digit_value (s ! 0), drop 1 s))
      else Some (10 * digit_value (s ! 0) + digit_value (s ! 1), drop 2 s))"

definition expect :: "char \<Rightarrow> string \<Rightarrow> string option" where
  "expect c s = (case s of [] \<Rightarrow> None | x # xs \<Rightarrow> if x = c then Some xs else None)"

text \<open>The four-digit year, then the month and the day with their ranges.\<close>

definition parse_date :: "string \<Rightarrow> (int \<times> int \<times> int \<times> string) option" where
  "parse_date s =
     (if length s < 4 \<or> \<not> list_all is_digit (take 4 s) then None
      else Option.bind (expect (CHR ''-'') (drop 4 s)) (\<lambda>s1.
        Option.bind (get_num s1 True) (\<lambda>(month, s2).
        if month \<le> 0 \<or> 12 < month then None
        else Option.bind (expect (CHR ''-'') s2) (\<lambda>s3.
          Option.bind (get_num s3 True) (\<lambda>(day, s4).
          let year = digits_value (take 4 s)
          in if day < 1 \<or> day > days_in month year then None
             else Some (year, month, day, s4))))))"

text \<open>
  A fraction of any number of digits may follow the seconds, after a period or a comma;
  the digits beyond the ninth are dropped.
\<close>

definition parse_fraction :: "string \<Rightarrow> int \<times> string" where
  "parse_fraction s =
     (if length s \<ge> 2 \<and> (s ! 0 = CHR ''.'' \<or> s ! 0 = CHR '','') \<and> is_digit (s ! 1)
      then (let digits = takeWhile is_digit (tl s); kept = take 9 digits
            in (digits_value kept * 10 ^ (9 - length kept), drop (length digits + 1) s))
      else (0, s))"

definition parse_clock :: "string \<Rightarrow> (int \<times> string) option" where
  "parse_clock s =
     Option.bind (get_num s False) (\<lambda>(hour, s1).
     if 24 \<le> hour then None
     else Option.bind (expect (CHR '':'') s1) (\<lambda>s2.
       Option.bind (get_num s2 True) (\<lambda>(minute, s3).
       if 60 \<le> minute then None
       else Option.bind (expect (CHR '':'') s3) (\<lambda>s4.
         Option.bind (get_num s4 True) (\<lambda>(second, s5).
         if 60 \<le> second then None
         else (let (nanoseconds, s6) = parse_fraction s5
               in Some (((hour * 60 + minute) * 60 + second) * 10 ^ 9 + nanoseconds, s6)))))))"

text \<open>The zone: \<open>Z\<close>, or a sign, hours and minutes; nothing may follow it.\<close>

definition parse_zone :: "string \<Rightarrow> int option" where
  "parse_zone s =
     (if s = ''Z'' then Some 0
      else if length s \<noteq> 6 \<or> s ! 3 \<noteq> CHR '':'' then None
      else (case (get_num (take 2 (drop 1 s)) True, get_num (take 2 (drop 4 s)) True) of
              (Some (hours, _), Some (minutes, _)) \<Rightarrow>
                (if 24 < hours \<or> 60 < minutes then None
                 else if s ! 0 = CHR ''+'' then Some ((hours * 60 + minutes) * 60)
                 else if s ! 0 = CHR ''-'' then Some (- ((hours * 60 + minutes) * 60))
                 else None)
            | _ \<Rightarrow> None))"

definition parse_rfc3339 :: "string \<Rightarrow> int option" where
  "parse_rfc3339 s =
     Option.bind (parse_date s) (\<lambda>(year, month, day, s1).
     Option.bind (expect (CHR ''T'') s1) (\<lambda>s2.
     Option.bind (parse_clock s2) (\<lambda>(clock, s3).
     Option.bind (parse_zone s3) (\<lambda>offset.
     Some ((days_before year month + day - 1) * (86400 * 10 ^ 9) + clock - offset * 10 ^ 9)))))"

end
