(* ===== verification/Report.thy ===== *)
theory Report
  imports GoPrelude GoTime Framing
begin

text \<open>
  The assurance report, \<open>internal/report\<close>: its data (\<open>report.go\<close>), its canonical form,
  the identity of a finding, and the audit every report passes before it is written
  (\<open>audit.go\<close>). A nil slice and an empty one are both the empty list. Verdicts, run kinds
  and statuses are strings, as in the source, so that unknown values can occur.
\<close>

section \<open>Data\<close>

abbreviation SchemaV1 :: string where "SchemaV1 \<equiv> ''assurance-report-v1''"

abbreviation VerdictAssured :: string where "VerdictAssured \<equiv> ''ASSURED''"
abbreviation VerdictChangeAssured :: string where "VerdictChangeAssured \<equiv> ''CHANGE_ASSURED''"
abbreviation VerdictScopeAssured :: string where "VerdictScopeAssured \<equiv> ''SCOPE_ASSURED''"
abbreviation VerdictDefect :: string where "VerdictDefect \<equiv> ''DEFECT''"
abbreviation VerdictInsufficient :: string where "VerdictInsufficient \<equiv> ''INSUFFICIENT''"
abbreviation VerdictError :: string where "VerdictError \<equiv> ''ERROR''"
abbreviation VerdictReproduced :: string where "VerdictReproduced \<equiv> ''REPRODUCED''"
abbreviation VerdictResolved :: string where "VerdictResolved \<equiv> ''RESOLVED''"
abbreviation VerdictCompleted :: string where "VerdictCompleted \<equiv> ''COMPLETED''"

abbreviation RunFull :: string where "RunFull \<equiv> ''full''"
abbreviation RunChangeset :: string where "RunChangeset \<equiv> ''changeset''"
abbreviation RunPackage :: string where "RunPackage \<equiv> ''package''"
abbreviation RunReplay :: string where "RunReplay \<equiv> ''replay''"
abbreviation RunOperation :: string where "RunOperation \<equiv> ''operation''"

abbreviation MutantKilled :: string where "MutantKilled \<equiv> ''killed''"
abbreviation MutantSurvived :: string where "MutantSurvived \<equiv> ''survived''"
abbreviation MutantInconclusive :: string where "MutantInconclusive \<equiv> ''inconclusive''"
abbreviation MutantCompileRejected :: string where "MutantCompileRejected \<equiv> ''compile-rejected''"
abbreviation MutantAccepted :: string where "MutantAccepted \<equiv> ''accepted''"
abbreviation MutantOutOfScope :: string where "MutantOutOfScope \<equiv> ''out-of-scope''"
abbreviation MutantUnknown :: string where "MutantUnknown \<equiv> ''unknown''"

record scope_spec =
  sc_Kind :: string
  sc_Project :: string
  sc_Modules :: "string list"
  sc_Packages :: "string list"
  sc_Files :: "string list"
  sc_Ref :: string

record scope =
  Requested :: scope_spec
  Resolved :: scope_spec

record git_info =
  git_Available :: bool
  git_Commit :: string
  git_Dirty :: bool
  git_MergeBase :: string
  git_ChangedFiles :: "string list"

record repository =
  repo_Module :: string
  repo_Packages :: "string list"
  repo_Git :: git_info

record execution =
  TestArgs :: "string list"
  BuildTags :: "string list"
  MutationOperators :: "string list"
  MutationJobs :: int
  CommandTimeoutNS :: int
  TargetTimeoutNS :: int

record toolchain =
  tc_Go :: string
  tc_Goatest :: string
  tc_GoMutants :: string
  tc_OS :: string
  tc_Arch :: string

record timing =
  StartedAt :: string
  FinishedAt :: string
  DurationMS :: int

record cache_info =
  Derived :: bool
  SourceRunID :: string

record count_accounting =
  cDiscovered :: int
  cSelected :: int
  cExecuted :: int
  cSkipped :: int
  cExcluded :: int

record mutant_accounting =
  mDiscovered :: int
  mSelected :: int
  mExecuted :: int
  mKilled :: int
  mSurvived :: int
  mInconclusive :: int
  mCompileRejected :: int
  mAccepted :: int
  mOutOfScope :: int
  mUnknown :: int
  mReusedKilled :: int
  mReusedSurvived :: int

record mutant_disposition =
  md_ID :: string
  md_Status :: string
  md_Path :: string
  md_Line :: int
  md_Package :: string
  md_Rule :: string
  md_Detail :: string
  md_Reused :: bool
  md_Provenance :: string

record accounting =
  acc_Targets :: count_accounting
  acc_Mutants :: mutant_accounting
  acc_Race :: count_accounting

record target_disposition =
  td_ID :: string
  td_Name :: string
  td_Kind :: string
  td_Package :: string
  td_Path :: string
  td_Line :: int
  td_Status :: string
  td_DurationMS :: int
  td_Detail :: string

record resume =
  Attempts :: int
  ReusedTargets :: int
  ReusedRacePackages :: int
  ReusedMutants :: int

record limitation =
  lim_Code :: string
  lim_Summary :: string
  lim_Estimated :: bool

record acceptance =
  acc_ID :: string
  acc_Reason :: string
  acc_Expires :: string
  acc_Owner :: string
  acc_Ticket :: string

record evidence =
  ev_Kind :: string
  ev_ID :: string
  ev_Status :: string
  ev_Detail :: string

record finding =
  f_ID :: string
  f_Kind :: string
  f_Path :: string
  f_Line :: int
  f_Summary :: string
  f_Replay :: string
  f_Mutant :: string
  f_MutantID :: string

record repair =
  rp_ID :: string
  rp_Finding :: string
  rp_Path :: string
  rp_Status :: string
  rp_Diff :: string
  rp_Validation :: string
  rp_Reason :: string
  rp_Provenance :: string

record report =
  Schema :: string
  RunID :: string
  RunKind :: string
  Verdict :: string
  Contract :: string
  Snapshot :: string
  Scope :: scope
  Repository :: repository
  ConfigurationDigest :: string
  Execution :: execution
  Toolchain :: toolchain
  Timing :: timing
  Cache :: cache_info
  Accounting :: accounting
  Targets :: "target_disposition list"
  Mutants :: "mutant_disposition list"
  Resume :: "resume option"
  Acceptances :: "acceptance list"
  Evidence :: "evidence list"
  Findings :: "finding list"
  Repairs :: "repair list"
  Limitations :: "limitation list"

section \<open>The canonical form\<close>

definition canonical_strings :: "string list \<Rightarrow> string list" where
  "canonical_strings input = remdups_adj (sort_slice input)"

definition canonical_sequence :: "string list \<Rightarrow> string list" where
  "canonical_sequence input = input"

definition canonical_scope :: "scope_spec \<Rightarrow> scope_spec" where
  "canonical_scope input =
     input\<lparr>sc_Modules := canonical_strings (sc_Modules input),
           sc_Packages := canonical_strings (sc_Packages input),
           sc_Files := canonical_strings (sc_Files input)\<rparr>"

definition compare_evidence :: "evidence \<Rightarrow> evidence \<Rightarrow> int" where
  "compare_evidence a b =
     cmp_then (cmp_compare (ev_Kind a) (ev_Kind b)) (cmp_compare (ev_ID a) (ev_ID b))"

definition compare_targets :: "target_disposition \<Rightarrow> target_disposition \<Rightarrow> int" where
  "compare_targets a b =
     cmp_then (cmp_compare (td_DurationMS b) (td_DurationMS a)) (cmp_compare (td_ID a) (td_ID b))"

definition compare_limitations :: "limitation \<Rightarrow> limitation \<Rightarrow> int" where
  "compare_limitations a b =
     cmp_then (cmp_compare (lim_Code a) (lim_Code b)) (cmp_compare (lim_Summary a) (lim_Summary b))"

definition canonical_repository :: "repository \<Rightarrow> repository" where
  "canonical_repository r =
     r\<lparr>repo_Packages := canonical_strings (repo_Packages r),
       repo_Git := (repo_Git r)\<lparr>git_ChangedFiles := canonical_strings (git_ChangedFiles (repo_Git r))\<rparr>\<rparr>"

definition canonical_execution :: "execution \<Rightarrow> execution" where
  "canonical_execution e =
     e\<lparr>TestArgs := canonical_sequence (TestArgs e),
       BuildTags := canonical_sequence (BuildTags e),
       MutationOperators := canonical_sequence (MutationOperators e)\<rparr>"

definition canonical :: "report \<Rightarrow> report" where
  "canonical input =
     input\<lparr>Scope := \<lparr>Requested = canonical_scope (Requested (Scope input)),
                     Resolved = canonical_scope (Resolved (Scope input))\<rparr>,
           Repository := canonical_repository (Repository input),
           Execution := canonical_execution (Execution input),
           Evidence := sort_func compare_evidence (Evidence input),
           Acceptances := sort_func (\<lambda>a b. cmp_compare (acc_ID a) (acc_ID b)) (Acceptances input),
           Targets := sort_func compare_targets (Targets input),
           Mutants := sort_func (\<lambda>a b. cmp_compare (md_ID a) (md_ID b)) (Mutants input),
           Findings := sort_func (\<lambda>a b. cmp_compare (f_ID a) (f_ID b)) (Findings input),
           Repairs := sort_func (\<lambda>a b. cmp_compare (rp_ID a) (rp_ID b)) (Repairs input),
           Limitations := sort_func compare_limitations (Limitations input)\<rparr>"

text \<open>
  \<open>FindingID\<close>: sixteen hexadecimal digits of the SHA-256 of the framed fields;
  \<open>sha256\<close> maps bytes to the hexadecimal digest.
\<close>

definition finding_preimage :: "string list \<Rightarrow> string" where
  "finding_preimage fs = ''goatest-finding-v1'' @ [nul] @ write_fields fs"

definition finding_id :: "(string \<Rightarrow> string) \<Rightarrow> string list \<Rightarrow> string" where
  "finding_id sha256 fs = take 16 (sha256 (finding_preimage fs))"

section \<open>Lemmas\<close>

interpretation evidence_order: comparator compare_evidence
  unfolding compare_evidence_def by (intro comparator_then comparator_compare)

interpretation target_order: comparator compare_targets
  unfolding compare_targets_def
  by (intro comparator_then comparator_compare comparator_flip [OF comparator_compare])

interpretation limitation_order: comparator compare_limitations
  unfolding compare_limitations_def by (intro comparator_then comparator_compare)

interpretation acceptance_order: comparator "\<lambda>a b. cmp_compare (acc_ID a) (acc_ID b)"
  by (rule comparator_compare)

interpretation mutant_order: comparator "\<lambda>a b. cmp_compare (md_ID a) (md_ID b)"
  by (rule comparator_compare)

interpretation finding_order: comparator "\<lambda>a b. cmp_compare (f_ID a) (f_ID b)"
  by (rule comparator_compare)

interpretation repair_order: comparator "\<lambda>a b. cmp_compare (rp_ID a) (rp_ID b)"
  by (rule comparator_compare)

lemmas sort_idems [simp] =
  evidence_order.sort_func_idem target_order.sort_func_idem limitation_order.sort_func_idem
  acceptance_order.sort_func_idem mutant_order.sort_func_idem finding_order.sort_func_idem
  repair_order.sort_func_idem ordered.sort_func_idem

lemma canonical_strings_strict: "sorted_wrt (<) (canonical_strings xs)"
  by (simp add: canonical_strings_def strict_sorted_compact)

lemma canonical_strings_set [simp]: "set (canonical_strings xs) = set xs"
  by (simp add: canonical_strings_def)

lemma canonical_strings_fixed: "sorted_wrt (<) xs \<Longrightarrow> canonical_strings xs = xs"
proof -
  assume strict: "sorted_wrt (<) xs"
  then have "sort_slice xs = xs"
    by (intro sort_func_id) (auto elim: sorted_wrt_mono_rel [rotated])
  with strict show ?thesis
    by (simp add: canonical_strings_def remdups_adj_distinct strict_sorted_iff)
qed

lemma canonical_strings_idem [simp]: "canonical_strings (canonical_strings xs) = canonical_strings xs"
  by (intro canonical_strings_fixed canonical_strings_strict)

lemma canonical_strings_cong: "set xs = set ys \<Longrightarrow> canonical_strings xs = canonical_strings ys"
  by (metis canonical_strings_set canonical_strings_strict strict_sorted_equal)

lemma canonical_scope_idem [simp]: "canonical_scope (canonical_scope s) = canonical_scope s"
  by (simp add: canonical_scope_def)

text \<open>
  The canonical form is a fixed point: writing a report that was read back changes
  nothing.
\<close>

theorem canonical_idempotent: "canonical (canonical r) = canonical r"
  by (simp add: canonical_def canonical_repository_def canonical_execution_def canonical_sequence_def)

text \<open>
  Two reports with the same identity whose lists differ in order only. The identifiers of
  the entries tell them apart.
\<close>

definition keyed :: "('a \<Rightarrow> 'k) \<Rightarrow> 'a list \<Rightarrow> bool" where
  "keyed key xs \<longleftrightarrow> distinct (map key xs)"

lemma keyedD: "keyed key xs \<Longrightarrow> x \<in> set xs \<Longrightarrow> y \<in> set xs \<Longrightarrow> key x = key y \<Longrightarrow> x = y"
  by (simp add: keyed_def distinct_map inj_on_def)

definition keyed_report :: "report \<Rightarrow> bool" where
  "keyed_report r \<longleftrightarrow>
     keyed (\<lambda>e. (ev_Kind e, ev_ID e)) (Evidence r) \<and> keyed acc_ID (Acceptances r) \<and>
     keyed td_ID (Targets r) \<and> keyed md_ID (Mutants r) \<and> keyed f_ID (Findings r) \<and>
     keyed rp_ID (Repairs r) \<and> keyed (\<lambda>l. (lim_Code l, lim_Summary l)) (Limitations r)"

definition same_entries :: "report \<Rightarrow> report \<Rightarrow> bool" where
  "same_entries r s \<longleftrightarrow>
     mset (Evidence r) = mset (Evidence s) \<and> mset (Acceptances r) = mset (Acceptances s) \<and>
     mset (Targets r) = mset (Targets s) \<and> mset (Mutants r) = mset (Mutants s) \<and>
     mset (Findings r) = mset (Findings s) \<and> mset (Repairs r) = mset (Repairs s) \<and>
     mset (Limitations r) = mset (Limitations s) \<and>
     r\<lparr>Evidence := [], Acceptances := [], Targets := [], Mutants := [], Findings := [],
       Repairs := [], Limitations := []\<rparr> =
     s\<lparr>Evidence := [], Acceptances := [], Targets := [], Mutants := [], Findings := [],
       Repairs := [], Limitations := []\<rparr>"

lemma sorted_lists_agree:
  assumes "keyed_report r" and "same_entries r s"
  shows "sort_func compare_evidence (Evidence r) = sort_func compare_evidence (Evidence s)"
    and "sort_func (\<lambda>a b. cmp_compare (acc_ID a) (acc_ID b)) (Acceptances r) =
         sort_func (\<lambda>a b. cmp_compare (acc_ID a) (acc_ID b)) (Acceptances s)"
    and "sort_func compare_targets (Targets r) = sort_func compare_targets (Targets s)"
    and "sort_func (\<lambda>a b. cmp_compare (md_ID a) (md_ID b)) (Mutants r) =
         sort_func (\<lambda>a b. cmp_compare (md_ID a) (md_ID b)) (Mutants s)"
    and "sort_func (\<lambda>a b. cmp_compare (f_ID a) (f_ID b)) (Findings r) =
         sort_func (\<lambda>a b. cmp_compare (f_ID a) (f_ID b)) (Findings s)"
    and "sort_func (\<lambda>a b. cmp_compare (rp_ID a) (rp_ID b)) (Repairs r) =
         sort_func (\<lambda>a b. cmp_compare (rp_ID a) (rp_ID b)) (Repairs s)"
    and "sort_func compare_limitations (Limitations r) = sort_func compare_limitations (Limitations s)"
  using assms unfolding keyed_report_def same_entries_def
  by (auto intro!: evidence_order.sort_func_perm acceptance_order.sort_func_perm
      target_order.sort_func_perm mutant_order.sort_func_perm finding_order.sort_func_perm
      repair_order.sort_func_perm limitation_order.sort_func_perm
      dest: keyedD simp: compare_evidence_def compare_targets_def compare_limitations_def)

text \<open>
  The written form does not depend on the order in which concurrent work filled the
  lists of a report: two reports that hold the same entries have the same canonical form,
  where the entries of each list have distinct identifiers.
\<close>

theorem canonical_order_independent:
  assumes "keyed_report r" and "same_entries r s"
  shows "canonical r = canonical s"
proof -
  have "r\<lparr>Evidence := [], Acceptances := [], Targets := [], Mutants := [], Findings := [],
       Repairs := [], Limitations := []\<rparr> =
     s\<lparr>Evidence := [], Acceptances := [], Targets := [], Mutants := [], Findings := [],
       Repairs := [], Limitations := []\<rparr>"
    using assms(2) by (simp add: same_entries_def)
  then show ?thesis
    unfolding canonical_def sorted_lists_agree [OF assms] by (cases r, cases s) simp
qed

definition sample_evidence :: "string \<Rightarrow> evidence" where
  "sample_evidence i = \<lparr>ev_Kind = ''mutation'', ev_ID = i, ev_Status = ''killed'', ev_Detail = ''TestA''\<rparr>"

definition blank_scope :: scope_spec where
  "blank_scope = \<lparr>sc_Kind = RunFull, sc_Project = ''.'', sc_Modules = [], sc_Packages = [],
     sc_Files = [], sc_Ref = []\<rparr>"

definition blank_report :: report where
  "blank_report =
     \<lparr>Schema = SchemaV1, RunID = [], RunKind = [], Verdict = [], Contract = [], Snapshot = [],
      Scope = \<lparr>Requested = blank_scope, Resolved = blank_scope\<rparr>,
      Repository = \<lparr>repo_Module = [], repo_Packages = [],
        repo_Git = \<lparr>git_Available = False, git_Commit = [], git_Dirty = False, git_MergeBase = [],
          git_ChangedFiles = []\<rparr>\<rparr>,
      ConfigurationDigest = [],
      Execution = \<lparr>TestArgs = [], BuildTags = [], MutationOperators = [], MutationJobs = 1,
        CommandTimeoutNS = 0, TargetTimeoutNS = 0\<rparr>,
      Toolchain = \<lparr>tc_Go = [], tc_Goatest = [], tc_GoMutants = [], tc_OS = [], tc_Arch = []\<rparr>,
      Timing = \<lparr>StartedAt = [], FinishedAt = [], DurationMS = 0\<rparr>,
      Cache = \<lparr>Derived = False, SourceRunID = []\<rparr>,
      Accounting = \<lparr>acc_Targets = \<lparr>cDiscovered = 0, cSelected = 0, cExecuted = 0, cSkipped = 0, cExcluded = 0\<rparr>,
        acc_Mutants = \<lparr>mDiscovered = 0, mSelected = 0, mExecuted = 0, mKilled = 0, mSurvived = 0,
          mInconclusive = 0, mCompileRejected = 0, mAccepted = 0, mOutOfScope = 0, mUnknown = 0,
          mReusedKilled = 0, mReusedSurvived = 0\<rparr>,
        acc_Race = \<lparr>cDiscovered = 0, cSelected = 0, cExecuted = 0, cSkipped = 0, cExcluded = 0\<rparr>\<rparr>,
      Targets = [], Mutants = [], Resume = None, Acceptances = [], Evidence = [], Findings = [],
      Repairs = [], Limitations = []\<rparr>"

theorem canonical_order_independent_witness:
  "canonical (blank_report\<lparr>Evidence := [sample_evidence ''a'', sample_evidence ''b'']\<rparr>) =
   canonical (blank_report\<lparr>Evidence := [sample_evidence ''b'', sample_evidence ''a'']\<rparr>)"
  by (rule canonical_order_independent)
     (simp_all add: keyed_report_def keyed_def same_entries_def blank_report_def sample_evidence_def)

text \<open>
  Findings cannot share an identity by the way their fields run together: the bytes
  \<open>FindingID\<close> hashes determine the list of fields, each below the 4 GiB its length
  prefix can say.
\<close>

theorem finding_preimage_injective:
  assumes "finding_preimage fs = finding_preimage gs" and "frameable fs" and "frameable gs"
  shows "fs = gs"
  using assms by (intro write_fields_inj) (simp_all add: finding_preimage_def)

theorem finding_preimage_injective_witness:
  "finding_preimage [''mutation'', ''ab''] \<noteq> finding_preimage [''mutationa'', ''b'']"
proof
  assume "finding_preimage [''mutation'', ''ab''] = finding_preimage [''mutationa'', ''b'']"
  then have "[''mutation'', ''ab''] = [''mutationa'', ''b'']"
    by (rule finding_preimage_injective) simp_all
  then show False by simp
qed

end
