(* ===== verification/MutationEvidence.thy ===== *)
theory MutationEvidence
  imports Routing EvidenceStore Report
begin

text \<open>
  Reusing what an earlier run established about a mutant
  (\<open>internal/assure/mutation_evidence.go\<close>): the inputs a target's and a suite's behaviour
  is keyed by, the state of the run's evidence, the questions the evaluation asks it and the
  answers it records. The methods of \<open>MutationEvidence\<close> are functions that return the
  updated state; the source runs each under the state's mutex. A \<open>nil\<close> state, which every
  method accepts, is \<open>None\<close> in the evaluation. SHA-256 is the parameter \<open>sha\<close>.
\<close>

section \<open>The inputs a key covers\<close>

type_synonym target_identity = "string \<times> string \<times> string"

definition identify :: "target \<Rightarrow> target_identity" where
  "identify t = (t_Package t, t_Name t, t_Kind t)"

abbreviation identity :: "target_evidence \<Rightarrow> target_identity" where
  "identity t \<equiv> identify (te_Target t)"

record go_package =
  pk_ImportPath :: string
  pk_RelativeDir :: string
  pk_Dependencies :: "string list"
  pk_EmbedFiles :: "string list"

record target_key_sources =
  src_inputs :: evidence_inputs
  src_contract :: string
  src_testArgs :: "string list option"
  src_buildTags :: "string list option"
  src_commandTimeout :: int
  src_targetTimeout :: int
  src_repositoryReaders :: "(string \<times> bool) list"
  src_extraFiles :: "string list"
  src_packages :: "(string \<times> go_package) list"
  src_directory :: "(string \<times> string list) list"
  src_testdata :: "(string \<times> string list) list"
  src_corpus :: "(string \<times> string list) list"

definition lookup_list :: "(string \<times> 'a list) list \<Rightarrow> string \<Rightarrow> 'a list" where
  "lookup_list m key = (case map_of m key of None \<Rightarrow> [] | Some xs \<Rightarrow> xs)"

definition append_at :: "string \<Rightarrow> 'a \<Rightarrow> (string \<times> 'a list) list \<Rightarrow> (string \<times> 'a list) list" where
  "append_at key x m = AList.update key (lookup_list m key @ [x]) m"

definition lookup_bool :: "(string \<times> bool) list \<Rightarrow> string \<Rightarrow> bool" where
  "lookup_bool m key = (map_of m key = Some True)"

text \<open>\<open>strings.Index\<close>: the first position at which \<open>sub\<close> occurs.\<close>

fun index_string :: "string \<Rightarrow> string \<Rightarrow> nat option" where
  "index_string sub [] = (if sub = [] then Some 0 else None)"
| "index_string sub (c # cs) =
     (if has_prefix (c # cs) sub then Some 0 else map_option Suc (index_string sub cs))"

definition testdata_owner :: "string \<Rightarrow> string option" where
  "testdata_owner name =
     (case cut_prefix name ''testdata/'' of
        Some (c # cs) \<Rightarrow> Some ''.''
      | _ \<Rightarrow>
          (case index_string ''/testdata/'' name of
             Some index \<Rightarrow> if index > 0 then Some (take index name) else None
           | None \<Rightarrow> None))"

definition corpus_owner :: "string \<Rightarrow> (string \<times> string) option" where
  "corpus_owner name =
     (case testdata_owner name of
        None \<Rightarrow> None
      | Some owner \<Rightarrow>
          (let remainder = (if owner \<noteq> ''.'' then trim_prefix name (owner @ ''/'') else name) in
           case cut_prefix remainder ''testdata/fuzz/'' of
             None \<Rightarrow> None
           | Some remainder \<Rightarrow>
               (case cut_at (CHR ''/'') remainder of
                  None \<Rightarrow> None
                | Some (target, _) \<Rightarrow> if target = [] then None else Some (owner, target))))"

definition new_target_key_sources ::
  "evidence_inputs \<Rightarrow> go_package list \<Rightarrow> string \<Rightarrow> string list option \<Rightarrow> string list option \<Rightarrow>
   int \<Rightarrow> int \<Rightarrow> (string \<times> bool) list \<Rightarrow> target_key_sources" where
  "new_target_key_sources inputs packages contract test_args build_tags command_timeout target_timeout readers =
     (let names = map fst (ei_Files inputs);
          corpus_names = map fst (ei_Corpus inputs)
      in \<lparr>src_inputs = inputs, src_contract = contract, src_testArgs = test_args, src_buildTags = build_tags,
          src_commandTimeout = command_timeout, src_targetTimeout = target_timeout,
          src_repositoryReaders = readers,
          src_extraFiles = (if readers \<noteq> [] then sort_slice (names @ corpus_names) else []),
          src_packages = fold (\<lambda>pkg m. AList.update (pk_ImportPath pkg) pkg m) packages [],
          src_directory = fold (\<lambda>name m. if testdata_owner name = None then append_at (path_dir name) name m else m) names [],
          src_testdata = fold (\<lambda>name m. case testdata_owner name of
             Some owner \<Rightarrow> append_at owner name m | None \<Rightarrow> m) names [],
          src_corpus = fold (\<lambda>name m. case corpus_owner name of
             Some (owner, target) \<Rightarrow> append_at (owner @ [nul] @ target) name m | None \<Rightarrow> m) corpus_names []\<rparr>)"

text \<open>The \<open>include\<close> closure: a file's digest, or else the digest of a corpus entry.\<close>

definition include_file :: "target_key_sources \<Rightarrow> string \<Rightarrow> string_map \<Rightarrow> string_map" where
  "include_file sources name files =
     (case map_of (ei_Files (src_inputs sources)) name of
        Some digest \<Rightarrow> AList.update name digest files
      | None \<Rightarrow>
          (case map_of (ei_Corpus (src_inputs sources)) name of
             Some digest \<Rightarrow> AList.update name digest files
           | None \<Rightarrow> files))"

definition sources_closure :: "target_key_sources \<Rightarrow> target \<Rightarrow> go_package list" where
  "sources_closure sources t =
     (case map_of (src_packages sources) (t_Package t) of Some own \<Rightarrow> [own] | None \<Rightarrow> []) @
     concat (map (\<lambda>dependency. if dependency = t_Package t then []
                    else case map_of (src_packages sources) dependency of Some pkg \<Rightarrow> [pkg] | None \<Rightarrow> [])
              (t_Dependencies t))"

definition package_names :: "target_key_sources \<Rightarrow> target \<Rightarrow> go_package \<Rightarrow> string list" where
  "package_names sources t pkg =
     filter (\<lambda>name. \<not> (pk_ImportPath pkg \<noteq> t_Package t \<and> has_suffix name ''_test.go''))
       (lookup_list (src_directory sources) (pk_RelativeDir pkg)) @
     lookup_list (src_testdata sources) (pk_RelativeDir pkg) @ pk_EmbedFiles pkg"

definition narrow_inputs_for :: "target_key_sources \<Rightarrow> target \<Rightarrow> target_inputs" where
  "narrow_inputs_for sources t =
     (let inputs = src_inputs sources;
          names = [''go.mod'', ''go.sum''] @ concat (map (package_names sources t) (sources_closure sources t))
      in \<lparr>ti_Files = fold (include_file sources) names [], ti_Dependencies = ei_Dependencies inputs,
          ti_Toolchain = ei_Toolchain inputs, ti_Platform = ei_Platform inputs,
          ti_Environment = target_behavior_environment (ei_Environment inputs) [],
          ti_Contract = src_contract sources, ti_TestArgs = src_testArgs sources,
          ti_BuildTags = src_buildTags sources, ti_CommandTimeout = src_commandTimeout sources,
          ti_TargetTimeout = src_targetTimeout sources, ti_GoatestVersion = ei_GoatestVersion inputs,
          ti_GoatestBuild = ei_GoatestBuild inputs, ti_GoMutantsVersion = ei_GoMutantsVersion inputs,
          ti_Corpus =
            (if t_Kind t = ''fuzz''
             then fold (\<lambda>name m. AList.update name
                     (case map_of (ei_Corpus inputs) name of Some digest \<Rightarrow> digest | None \<Rightarrow> []) m)
                   (lookup_list (src_corpus sources) (t_RelativeDir t @ [nul] @ t_Name t)) []
             else [])\<rparr>)"

definition whole_tree_inputs_for :: "target_key_sources \<Rightarrow> target \<Rightarrow> target_inputs" where
  "whole_tree_inputs_for sources t =
     (let inputs = narrow_inputs_for sources t
      in inputs\<lparr>ti_Files := fold (include_file sources) (src_extraFiles sources) (ti_Files inputs)\<rparr>)"

definition sources_target_key ::
  "(string \<Rightarrow> string) \<Rightarrow> target_key_sources \<Rightarrow> target \<Rightarrow> string list \<Rightarrow> bool \<Rightarrow> string" where
  "sources_target_key sha sources t environment whole_tree =
     (if whole_tree \<and> \<not> lookup_bool (src_repositoryReaders sources) (t_Package t) then []
      else
        let inputs = (if whole_tree then whole_tree_inputs_for sources t else narrow_inputs_for sources t)
        in target_behavior_key sha
             (inputs\<lparr>ti_Environment := target_behavior_environment (ei_Environment (src_inputs sources)) environment\<rparr>))"

definition sources_suite_key ::
  "(string \<Rightarrow> string) \<Rightarrow> target_key_sources \<Rightarrow> string \<Rightarrow> target_key list \<Rightarrow> string list \<Rightarrow> bool \<Rightarrow> string" where
  "sources_suite_key sha sources pkg targets environment whole_tree =
     (case map_of (src_packages sources) pkg of
        None \<Rightarrow> []
      | Some owner \<Rightarrow>
          (let t = \<lparr>t_ID = [], t_Name = [], t_Kind = [], t_Package = pkg, t_RelativeDir = pk_RelativeDir owner,
                    t_Path = [], t_Line = 0, t_Capabilities = [], t_Dependencies = pk_Dependencies owner\<rparr>
           in if whole_tree \<and> \<not> lookup_bool (src_repositoryReaders sources) pkg then []
              else
                let inputs = (if whole_tree then whole_tree_inputs_for sources t else narrow_inputs_for sources t)
                in suite_behavior_key sha
                     (inputs\<lparr>ti_Environment := target_behavior_environment (ei_Environment (src_inputs sources)) environment\<rparr>)
                     targets))"

section \<open>The state of a run's evidence\<close>

record mutation_evidence =
  me_provenance :: string
  me_sources :: target_key_sources
  me_targets :: "target_evidence list"
  me_targetByID :: "target_identity \<rightharpoonup> target_evidence"
  me_suiteEnvironment :: "string list"
  me_records :: "(string \<times> mutation_record) list"
  me_keys :: "target_identity \<rightharpoonup> string"
  me_wholeKeys :: "target_identity \<rightharpoonup> string"
  me_baselineWholeTree :: "target_identity \<Rightarrow> bool"
  me_passed :: "target_identity \<Rightarrow> bool"
  me_suites :: "string \<rightharpoonup> string"
  me_wholeSuites :: "string \<rightharpoonup> string"
  me_suiteBaselineWhole :: "string \<Rightarrow> bool"
  me_recorded :: "(string \<times> mutation_record) list"
  me_reused :: "(string \<times> string) list"

text \<open>A map lookup of the source, which yields the empty string for an absent key.\<close>

definition look :: "('k \<rightharpoonup> string) \<Rightarrow> 'k \<Rightarrow> string" where
  "look m key = (case m key of None \<Rightarrow> [] | Some v \<Rightarrow> v)"

text \<open>
  \<open>suiteKeys\<close>: a package whose targets were all measured, passed and keyed has a suite key.
\<close>

definition suite_target_key :: "target_evidence \<Rightarrow> string \<Rightarrow> bool \<Rightarrow> target_key" where
  "suite_target_key t key whole_tree =
     \<lparr>tk_Package = t_Package (te_Target t), tk_Name = t_Name (te_Target t), tk_Kind = t_Kind (te_Target t),
      tk_Key = key, tk_WholeTree = whole_tree\<rparr>"

definition suite_keys ::
  "(string \<Rightarrow> string) \<Rightarrow> target_key_sources \<Rightarrow> target_evidence list \<Rightarrow> (target_identity \<rightharpoonup> string) \<Rightarrow>
   (target_identity \<Rightarrow> bool) \<Rightarrow> string list \<Rightarrow> bool \<Rightarrow> (string \<rightharpoonup> string)" where
  "suite_keys sha sources targets keys passed environment whole_tree =
     (let measured = (\<lambda>t. \<not> (te_Covered t = None \<or> \<not> passed (identity t) \<or> look keys (identity t) = []));
          by_package = (\<lambda>pkg. map (\<lambda>t. suite_target_key t (look keys (identity t)) whole_tree)
             (filter (\<lambda>t. t_Package (te_Target t) = pkg \<and> measured t) targets));
          unmeasured = (\<lambda>pkg. list_ex (\<lambda>t. t_Package (te_Target t) = pkg \<and> \<not> measured t) targets)
      in (\<lambda>pkg. if map_of (src_packages sources) pkg = None \<or> unmeasured pkg then None
                else let key = sources_suite_key sha sources pkg (by_package pkg) environment whole_tree
                     in if key = [] then None else Some key))"

definition new_mutation_evidence ::
  "mutation_store \<Rightarrow> (target_identity \<rightharpoonup> string) \<Rightarrow> (target_identity \<Rightarrow> bool) \<Rightarrow> (string \<rightharpoonup> string) \<Rightarrow>
   string \<Rightarrow> target_key_sources \<Rightarrow> mutation_evidence" where
  "new_mutation_evidence store keys passed suites provenance sources =
     \<lparr>me_provenance = provenance, me_sources = sources, me_targets = [], me_targetByID = Map.empty,
      me_suiteEnvironment = [],
      me_records = fold (\<lambda>r m. AList.update (rec_MutantID r) r m) (ms_Records store) [],
      me_keys = keys, me_wholeKeys = Map.empty, me_baselineWholeTree = (\<lambda>_. False), me_passed = passed,
      me_suites = suites, me_wholeSuites = Map.empty, me_suiteBaselineWhole = (\<lambda>_. False),
      me_recorded = [], me_reused = []\<rparr>"

definition new_run_mutation_evidence ::
  "(string \<Rightarrow> string) \<Rightarrow> mutation_store \<Rightarrow> target_key_sources \<Rightarrow> target_evidence list \<Rightarrow>
   target_disposition list \<Rightarrow> string list \<Rightarrow> string \<Rightarrow> mutation_evidence" where
  "new_run_mutation_evidence sha store sources targets inventory suite_environment snapshot =
     (let keys = fold (\<lambda>t m. m(identity t \<mapsto>
             sources_target_key sha sources (te_Target t) (te_Environment t) False)) targets Map.empty;
          whole = (\<lambda>i. \<exists>t \<in> set targets. identity t = i \<and> te_WholeTree (last (filter (\<lambda>u. identity u = i) targets)));
          passed = (\<lambda>i. \<exists>item \<in> set inventory. td_Status item = ''passed'' \<and>
             (td_Package item, td_Name item, td_Kind item) = i)
      in (new_mutation_evidence store keys passed
            (suite_keys sha sources targets keys passed suite_environment False) (''snapshot='' @ snapshot) sources)
         \<lparr>me_targets := targets, me_suiteEnvironment := suite_environment,
          me_targetByID := fold (\<lambda>t m. m(identity t \<mapsto> t)) targets Map.empty,
          me_baselineWholeTree := whole,
          me_suiteBaselineWhole := (\<lambda>pkg. \<exists>t \<in> set targets. t_Package (te_Target t) = pkg \<and> whole (identity t))\<rparr>)"

section \<open>The current keys\<close>

definition whole_target_key ::
  "(string \<Rightarrow> string) \<Rightarrow> mutation_evidence \<Rightarrow> target_identity \<Rightarrow> string \<times> mutation_evidence" where
  "whole_target_key sha c i =
     (case me_wholeKeys c i of
        Some key \<Rightarrow> (key, c)
      | None \<Rightarrow>
          (case me_targetByID c i of
             None \<Rightarrow> ([], c\<lparr>me_wholeKeys := (me_wholeKeys c)(i \<mapsto> [])\<rparr>)
           | Some t \<Rightarrow>
               (let key = sources_target_key sha (me_sources c) (te_Target t) (te_Environment t) True
                in (key, c\<lparr>me_wholeKeys := (me_wholeKeys c)(i \<mapsto> key)\<rparr>))))"

definition target_matches ::
  "(string \<Rightarrow> string) \<Rightarrow> mutation_evidence \<Rightarrow> target_identity \<Rightarrow> target_key \<Rightarrow> bool \<times> mutation_evidence" where
  "target_matches sha c i recorded =
     (if tk_WholeTree recorded then
        (let (key, c) = whole_target_key sha c i in (key \<noteq> [] \<and> key = tk_Key recorded, c))
      else if me_baselineWholeTree c i then (False, c)
      else (let key = look (me_keys c) i in (key \<noteq> [] \<and> key = tk_Key recorded, c)))"

definition evidence_target_key ::
  "(string \<Rightarrow> string) \<Rightarrow> mutation_evidence \<Rightarrow> target_evidence \<Rightarrow> (string \<times> bool) \<times> mutation_evidence" where
  "evidence_target_key sha c t =
     (if te_WholeTree t \<or> me_baselineWholeTree c (identity t)
      then (let (key, c) = whole_target_key sha c (identity t) in ((key, True), c))
      else ((look (me_keys c) (identity t), False), c))"

fun whole_suite_targets ::
  "(string \<Rightarrow> string) \<Rightarrow> mutation_evidence \<Rightarrow> string \<Rightarrow> target_evidence list \<Rightarrow> target_key list \<Rightarrow>
   target_key list option \<times> mutation_evidence" where
  "whole_suite_targets sha c pkg [] keys = (Some keys, c)"
| "whole_suite_targets sha c pkg (t # ts) keys =
     (if t_Package (te_Target t) \<noteq> pkg then whole_suite_targets sha c pkg ts keys
      else if te_Covered t = None \<or> \<not> me_passed c (identity t) then (None, c)
      else
        let (key, c) = whole_target_key sha c (identity t)
        in if key = [] then (None, c)
           else whole_suite_targets sha c pkg ts (keys @ [suite_target_key t key True]))"

definition whole_suite_key ::
  "(string \<Rightarrow> string) \<Rightarrow> mutation_evidence \<Rightarrow> string \<Rightarrow> string \<times> mutation_evidence" where
  "whole_suite_key sha c pkg =
     (case me_wholeSuites c pkg of
        Some key \<Rightarrow> (key, c)
      | None \<Rightarrow>
          (let (keys, c) = whole_suite_targets sha c pkg (me_targets c) [];
               key = (case keys of
                        None \<Rightarrow> []
                      | Some ks \<Rightarrow> sources_suite_key sha (me_sources c) pkg ks (me_suiteEnvironment c) True)
           in (key, c\<lparr>me_wholeSuites := (me_wholeSuites c)(pkg \<mapsto> key)\<rparr>)))"

definition suite_matches ::
  "(string \<Rightarrow> string) \<Rightarrow> mutation_evidence \<Rightarrow> string \<Rightarrow> suite_key \<Rightarrow> bool \<times> mutation_evidence" where
  "suite_matches sha c pkg recorded =
     (if sk_WholeTree recorded then
        (let (key, c) = whole_suite_key sha c pkg in (key \<noteq> [] \<and> key = sk_Key recorded, c))
      else if me_suiteBaselineWhole c pkg then (False, c)
      else (let key = look (me_suites c) pkg in (key \<noteq> [] \<and> key = sk_Key recorded, c)))"

definition evidence_suite_key ::
  "(string \<Rightarrow> string) \<Rightarrow> mutation_evidence \<Rightarrow> string \<Rightarrow> bool \<Rightarrow> (string \<times> bool) \<times> mutation_evidence" where
  "evidence_suite_key sha c pkg whole_tree =
     (if whole_tree \<or> me_suiteBaselineWhole c pkg
      then (let (key, c) = whole_suite_key sha c pkg in ((key, True), c))
      else ((look (me_suites c) pkg, False), c))"

section \<open>Reusing an answer\<close>

definition mutation_kill_record_detail :: "target_key list \<Rightarrow> string" where
  "mutation_kill_record_detail targets =
     (if length targets = 1 then tk_Name (targets ! 0)
      else tk_Package (targets ! 0) @ '' ('' @ itoa (int (length targets)) @ '' related targets)'')"

fun contains_recorded ::
  "(string \<Rightarrow> string) \<Rightarrow> mutation_evidence \<Rightarrow> target_evidence list \<Rightarrow> target_key list \<Rightarrow> bool \<times> mutation_evidence" where
  "contains_recorded sha c targets [] = (True, c)"
| "contains_recorded sha c targets (candidate # recorded) =
     (case find (\<lambda>t. key_identity candidate = identity t) targets of
        None \<Rightarrow> (False, c)
      | Some t \<Rightarrow>
          if \<not> me_passed c (identity t) then (False, c)
          else
            let (matches, c) = target_matches sha c (identity t) candidate
            in if \<not> matches then (False, c) else contains_recorded sha c targets recorded)"

definition contains_target_set ::
  "(string \<Rightarrow> string) \<Rightarrow> mutation_evidence \<Rightarrow> target_evidence list \<Rightarrow> target_key list \<Rightarrow> bool \<times> mutation_evidence" where
  "contains_target_set sha c targets recorded =
     (if length recorded > length targets then (False, c) else contains_recorded sha c targets recorded)"

fun reuse_kill_groups ::
  "(string \<Rightarrow> string) \<Rightarrow> mutation_evidence \<Rightarrow> mutant \<Rightarrow> mutation_record \<Rightarrow> target_evidence list list \<Rightarrow>
   (string \<times> string) option \<times> mutation_evidence" where
  "reuse_kill_groups sha c mutant r [] = (None, c)"
| "reuse_kill_groups sha c mutant r (batch # groups) =
     (let (contained, c) = contains_target_set sha c batch (rec_KilledBy r)
      in if \<not> contained then reuse_kill_groups sha c mutant r groups
         else (Some (mutation_kill_record_detail (rec_KilledBy r), rec_Provenance r),
               c\<lparr>me_reused := AList.update (mu_ID mutant) (rec_Provenance r) (me_reused c)\<rparr>))"

definition reuse_kill ::
  "(string \<Rightarrow> string) \<Rightarrow> mutation_evidence \<Rightarrow> mutant \<Rightarrow> mutation_route \<Rightarrow> (string \<times> string) option \<times> mutation_evidence" where
  "reuse_kill sha c mutant route =
     (case map_of (me_records c) (mu_ID mutant) of
        None \<Rightarrow> (None, c)
      | Some r \<Rightarrow>
          if rec_Outcome r \<noteq> outcome_killed \<or> rec_KilledBy r = [] then (None, c)
          else reuse_kill_groups sha c mutant r (mutation_target_groups (mr_reaching route)))"

text \<open>\<open>slices.ContainsFunc\<close> with the match as its last conjunct.\<close>

fun exhausted_matches ::
  "(string \<Rightarrow> string) \<Rightarrow> mutation_evidence \<Rightarrow> target_identity \<Rightarrow> target_key list \<Rightarrow> bool \<times> mutation_evidence" where
  "exhausted_matches sha c i [] = (False, c)"
| "exhausted_matches sha c i (candidate # exhausted) =
     (if key_identity candidate \<noteq> i then exhausted_matches sha c i exhausted
      else
        let (matches, c) = target_matches sha c i candidate
        in if matches then (True, c) else exhausted_matches sha c i exhausted)"

fun exhausts_each ::
  "(string \<Rightarrow> string) \<Rightarrow> mutation_evidence \<Rightarrow> target_key list \<Rightarrow> target_evidence list \<Rightarrow> bool \<times> mutation_evidence" where
  "exhausts_each sha c exhausted [] = (True, c)"
| "exhausts_each sha c exhausted (t # reaching) =
     (if te_Covered t = None \<or> \<not> me_passed c (identity t) then (False, c)
      else
        let (found, c) = exhausted_matches sha c (identity t) exhausted
        in if \<not> found then (False, c) else exhausts_each sha c exhausted reaching)"

definition exhausts ::
  "(string \<Rightarrow> string) \<Rightarrow> mutation_evidence \<Rightarrow> target_key list \<Rightarrow> target_evidence list \<Rightarrow> bool \<times> mutation_evidence" where
  "exhausts sha c exhausted reaching =
     (if reaching = [] then (False, c) else exhausts_each sha c exhausted reaching)"

definition suite_answers ::
  "(string \<Rightarrow> string) \<Rightarrow> mutation_evidence \<Rightarrow> mutant \<Rightarrow> suite_key option \<Rightarrow> mutation_route \<Rightarrow> bool \<times> mutation_evidence" where
  "suite_answers sha c mutant suite route =
     (case suite of
        None \<Rightarrow> (False, c)
      | Some s \<Rightarrow>
          if mr_reaching route \<noteq> [] \<or> mr_discharged route \<noteq> [] then (False, c)
          else if sk_Package s \<noteq> mu_Package mutant then (False, c)
          else suite_matches sha c (mu_Package mutant) s)"

definition reuse_verdict ::
  "(string \<Rightarrow> string) \<Rightarrow> mutation_evidence \<Rightarrow> mutant \<Rightarrow> mutation_route \<Rightarrow>
   (finding_seed \<times> string) option \<times> mutation_evidence" where
  "reuse_verdict sha c mutant route =
     (case map_of (me_records c) (mu_ID mutant) of
        None \<Rightarrow> (None, c)
      | Some r \<Rightarrow>
          (case rec_Finding r of
             None \<Rightarrow> (None, c)
           | Some seed \<Rightarrow>
               (let (answered, c) =
                  (if rec_Outcome r = outcome_survived then exhausts sha c (rec_Exhausted r) (mr_reaching route)
                   else if rec_Outcome r = outcome_unreached then suite_answers sha c mutant (rec_Suite r) route
                   else (False, c))
                in if \<not> answered then (None, c)
                   else (Some (seed, rec_Provenance r),
                         c\<lparr>me_reused := AList.update (mu_ID mutant) (rec_Provenance r) (me_reused c)\<rparr>))))"

section \<open>Recording an answer\<close>

definition record_answer :: "mutation_evidence \<Rightarrow> mutation_record \<Rightarrow> mutation_evidence" where
  "record_answer c r = c\<lparr>me_recorded := AList.update (rec_MutantID r) r (me_recorded c)\<rparr>"

definition base_record :: "mutation_evidence \<Rightarrow> mutant \<Rightarrow> string \<Rightarrow> mutation_record" where
  "base_record c mutant outcome =
     \<lparr>rec_MutantID = mu_ID mutant, rec_Path = to_slash (mu_Path mutant), rec_Package = mu_Package mutant,
      rec_Outcome = outcome, rec_Provenance = me_provenance c, rec_KilledBy = [], rec_Exhausted = [],
      rec_Suite = None, rec_Finding = None\<rparr>"

definition record_unreached ::
  "(string \<Rightarrow> string) \<Rightarrow> mutation_evidence \<Rightarrow> mutant \<Rightarrow> bool \<Rightarrow> string \<Rightarrow> string \<Rightarrow> mutation_evidence" where
  "record_unreached sha c mutant whole_tree kind summary =
     (if kind = [] \<or> summary = [] then c
      else
        let ((key, whole), c) = evidence_suite_key sha c (mu_Package mutant) whole_tree
        in if key = [] then c
           else record_answer c
             ((base_record c mutant outcome_unreached)
                \<lparr>rec_Suite := Some \<lparr>sk_Package = mu_Package mutant, sk_Key = key, sk_WholeTree = whole\<rparr>,
                 rec_Finding := Some \<lparr>fs_Kind = kind, fs_Summary = summary\<rparr>\<rparr>))"

text \<open>
  The loop that keys the targets of an answer: it stops, and nothing is recorded, at a
  target that is not admissible or has no key.
\<close>

fun key_targets ::
  "(string \<Rightarrow> string) \<Rightarrow> (target_evidence \<Rightarrow> bool) \<Rightarrow> mutation_evidence \<Rightarrow> target_evidence list \<Rightarrow>
   target_key list \<Rightarrow> target_key list option \<times> mutation_evidence" where
  "key_targets sha admissible c [] keys = (Some keys, c)"
| "key_targets sha admissible c (t # ts) keys =
     (if \<not> admissible t then (None, c)
      else
        let ((key, whole), c) = evidence_target_key sha c t
        in if key = [] then (None, c)
           else key_targets sha admissible c ts (keys @ [suite_target_key t key whole]))"

definition record_survived ::
  "(string \<Rightarrow> string) \<Rightarrow> mutation_evidence \<Rightarrow> mutant \<Rightarrow> target_evidence list \<Rightarrow> string \<Rightarrow> string \<Rightarrow> mutation_evidence" where
  "record_survived sha c mutant targets kind summary =
     (if targets = [] \<or> kind = [] \<or> summary = [] then c
      else
        let (keys, c) = key_targets sha (\<lambda>t. te_Covered t \<noteq> None \<and> me_passed c (identity t)) c targets []
        in case keys of
             None \<Rightarrow> c
           | Some exhausted \<Rightarrow>
               record_answer c ((base_record c mutant outcome_survived)
                 \<lparr>rec_Exhausted := exhausted, rec_Finding := Some \<lparr>fs_Kind = kind, fs_Summary = summary\<rparr>\<rparr>))"

definition record_kill ::
  "(string \<Rightarrow> string) \<Rightarrow> mutation_evidence \<Rightarrow> mutant \<Rightarrow> target_evidence list \<Rightarrow> mutation_evidence" where
  "record_kill sha c mutant targets =
     (if targets = [] then c
      else
        let (keys, c) = key_targets sha (\<lambda>t. identity t \<noteq> ([], [], []) \<and> me_passed c (identity t)) c targets []
        in case keys of
             None \<Rightarrow> c
           | Some killers \<Rightarrow>
               record_answer c ((base_record c mutant outcome_killed)\<lparr>rec_KilledBy := killers\<rparr>))"

definition evidence_disposition :: "mutation_evidence \<Rightarrow> string \<Rightarrow> bool \<times> string" where
  "evidence_disposition c mutantID = (map_of (me_reused c) mutantID \<noteq> None, look (map_of (me_reused c)) mutantID)"

text \<open>
  \<open>store\<close>: this run's answers, and the loaded ones it did not replace, for the mutants of the
  catalog.
\<close>

definition evidence_store :: "mutation_evidence \<Rightarrow> catalog \<Rightarrow> string \<Rightarrow> mutation_store" where
  "evidence_store c cat modulePath =
     (let known = (\<lambda>i. i \<in> set (map mu_ID (cat_Mutants cat)));
          recorded = filter (\<lambda>(i, r). known i) (me_recorded c);
          kept = filter (\<lambda>(i, r). known i \<and> map_of (me_recorded c) i = None) (me_records c)
      in \<lparr>ms_Schema = mutation_schema_v1, ms_ModulePath = modulePath,
          ms_Records = sort_func compare_records (map snd (recorded @ kept))\<rparr>)"

section \<open>The caches are transparent\<close>

text \<open>
  The state apart from its caches, and what a cache holds: the key its computation gives.
  A question asked of a consistent state has the same answer whatever was asked before.
\<close>

locale memo_table =
  fixes table :: "'s \<Rightarrow> 'k \<rightharpoonup> 'v" and store :: "'k \<Rightarrow> 'v \<Rightarrow> 's \<Rightarrow> 's" and compute :: "'s \<Rightarrow> 'k \<Rightarrow> 'v"
    and ask :: "'s \<Rightarrow> 'k \<Rightarrow> 'v \<times> 's"
  assumes table_store: "table (store k v s) = (table s)(k \<mapsto> v)"
    and compute_store: "compute (store k v s) = compute s"
    and ask_hit: "table s k = Some v \<Longrightarrow> ask s k = (v, s)"
    and ask_miss: "table s k = None \<Longrightarrow> ask s k = (compute s k, store k (compute s k) s)"
begin

definition consistent :: "'s \<Rightarrow> bool" where
  "consistent s \<longleftrightarrow> (\<forall>k v. table s k = Some v \<longrightarrow> v = compute s k)"

lemma ask_value: "consistent s \<Longrightarrow> fst (ask s k) = compute s k"
  by (cases "table s k") (auto simp: consistent_def ask_hit ask_miss)

lemma ask_consistent: "consistent s \<Longrightarrow> consistent (snd (ask s k))"
  by (cases "table s k") (auto simp: consistent_def ask_hit ask_miss table_store compute_store)

lemma ask_compute: "compute (snd (ask s k)) = compute s"
  by (cases "table s k") (auto simp: ask_hit ask_miss compute_store)

lemma ask_remembered: "table (snd (ask s k)) k \<noteq> None"
  by (cases "table s k") (auto simp: ask_hit ask_miss table_store)

end

definition whole_key_of :: "(string \<Rightarrow> string) \<Rightarrow> mutation_evidence \<Rightarrow> target_identity \<Rightarrow> string" where
  "whole_key_of sha c i =
     (case me_targetByID c i of
        None \<Rightarrow> []
      | Some t \<Rightarrow> sources_target_key sha (me_sources c) (te_Target t) (te_Environment t) True)"

interpretation whole_keys: memo_table me_wholeKeys
  "\<lambda>i key c. c\<lparr>me_wholeKeys := (me_wholeKeys c)(i \<mapsto> key)\<rparr>" "whole_key_of sha" "whole_target_key sha"
  by unfold_locales
    (simp_all add: whole_key_of_def whole_target_key_def fun_eq_iff Let_def split: option.split)

definition same_evidence :: "mutation_evidence \<Rightarrow> mutation_evidence \<Rightarrow> bool" where
  "same_evidence c c' \<longleftrightarrow>
     me_provenance c' = me_provenance c \<and>
     me_sources c' = me_sources c \<and>
     me_targets c' = me_targets c \<and>
     me_targetByID c' = me_targetByID c \<and>
     me_suiteEnvironment c' = me_suiteEnvironment c \<and>
     me_records c' = me_records c \<and>
     me_keys c' = me_keys c \<and>
     me_baselineWholeTree c' = me_baselineWholeTree c \<and>
     me_passed c' = me_passed c \<and>
     me_suites c' = me_suites c \<and>
     me_suiteBaselineWhole c' = me_suiteBaselineWhole c \<and>
     me_recorded c' = me_recorded c \<and>
     me_reused c' = me_reused c"

lemma same_evidence_fields:
  assumes "same_evidence c c'"
  shows "me_provenance c' = me_provenance c"
    "me_sources c' = me_sources c"
    "me_targets c' = me_targets c"
    "me_targetByID c' = me_targetByID c"
    "me_suiteEnvironment c' = me_suiteEnvironment c"
    "me_records c' = me_records c"
    "me_keys c' = me_keys c"
    "me_baselineWholeTree c' = me_baselineWholeTree c"
    "me_passed c' = me_passed c"
    "me_suites c' = me_suites c"
    "me_suiteBaselineWhole c' = me_suiteBaselineWhole c"
    "me_recorded c' = me_recorded c"
    "me_reused c' = me_reused c"
  using assms by (simp_all only: same_evidence_def)

lemma same_evidence_refl [simp]: "same_evidence c c"
  by (simp add: same_evidence_def)

lemma same_evidence_trans: "same_evidence c d \<Longrightarrow> same_evidence d e \<Longrightarrow> same_evidence c e"
  by (simp add: same_evidence_def)

definition suite_measured :: "(string \<Rightarrow> string) \<Rightarrow> mutation_evidence \<Rightarrow> target_evidence \<Rightarrow> bool" where
  "suite_measured sha c t \<longleftrightarrow> te_Covered t \<noteq> None \<and> me_passed c (identity t) \<and> whole_key_of sha c (identity t) \<noteq> []"

definition whole_suite_of :: "(string \<Rightarrow> string) \<Rightarrow> mutation_evidence \<Rightarrow> string \<Rightarrow> string" where
  "whole_suite_of sha c pkg =
     (let ts = filter (\<lambda>t. t_Package (te_Target t) = pkg) (me_targets c)
      in if list_all (suite_measured sha c) ts
         then sources_suite_key sha (me_sources c) pkg
                (map (\<lambda>t. suite_target_key t (whole_key_of sha c (identity t)) True) ts) (me_suiteEnvironment c) True
         else [])"

definition caches_ok :: "(string \<Rightarrow> string) \<Rightarrow> mutation_evidence \<Rightarrow> bool" where
  "caches_ok sha c \<longleftrightarrow>
     (\<forall>i key. me_wholeKeys c i = Some key \<longrightarrow> key = whole_key_of sha c i) \<and>
     (\<forall>pkg key. me_wholeSuites c pkg = Some key \<longrightarrow> key = whole_suite_of sha c pkg)"

definition answers :: "(string \<Rightarrow> string) \<Rightarrow> mutation_evidence \<Rightarrow> 'a \<times> mutation_evidence \<Rightarrow> 'a \<Rightarrow> bool" where
  "answers sha c result v \<longleftrightarrow> fst result = v \<and> caches_ok sha (snd result) \<and> same_evidence c (snd result)"

lemma answersI: "caches_ok sha c \<Longrightarrow> answers sha c (v, c) v"
  by (simp add: answers_def)

lemma answersE:
  assumes "answers sha c result v"
  obtains c' where "result = (v, c')" "caches_ok sha c'" "same_evidence c c'"
  using assms by (cases result) (auto simp: answers_def)

lemma whole_key_of_same: "same_evidence c c' \<Longrightarrow> whole_key_of sha c' = whole_key_of sha c"
  by (rule ext) (simp only: whole_key_of_def same_evidence_fields)

lemma whole_suite_of_same: "same_evidence c c' \<Longrightarrow> whole_suite_of sha c' = whole_suite_of sha c"
  by (rule ext) (simp only: whole_suite_of_def suite_measured_def [abs_def] same_evidence_fields whole_key_of_same)

lemma answers_extend:
  "answers sha c' result v \<Longrightarrow> same_evidence c c' \<Longrightarrow> answers sha c result v"
  by (auto simp: answers_def intro: same_evidence_trans)

lemma whole_target_key_answers:
  assumes "caches_ok sha c"
  shows "answers sha c (whole_target_key sha c i) (whole_key_of sha c i)"
proof (cases "me_wholeKeys c i")
  case (Some key)
  then have "key = whole_key_of sha c i" using assms unfolding caches_ok_def by blast
  with Some assms show ?thesis by (simp add: answers_def whole_keys.ask_hit)
next
  case None
  let ?c = "c\<lparr>me_wholeKeys := (me_wholeKeys c)(i \<mapsto> whole_key_of sha c i)\<rparr>"
  have same: "same_evidence c ?c" by (simp add: same_evidence_def)
  then have "caches_ok sha ?c"
    using assms unfolding caches_ok_def whole_key_of_same [OF same] whole_suite_of_same [OF same]
    by (simp del: split_paired_All)
  with same None show ?thesis by (simp add: answers_def whole_keys.ask_miss)
qed

definition matches_of :: "(string \<Rightarrow> string) \<Rightarrow> mutation_evidence \<Rightarrow> target_identity \<Rightarrow> target_key \<Rightarrow> bool" where
  "matches_of sha c i recorded =
     (let key = (if tk_WholeTree recorded then whole_key_of sha c i else look (me_keys c) i)
      in (tk_WholeTree recorded \<or> \<not> me_baselineWholeTree c i) \<and> key \<noteq> [] \<and> key = tk_Key recorded)"

lemma matches_of_same: "same_evidence c c' \<Longrightarrow> matches_of sha c' = matches_of sha c"
  by (rule ext)+ (simp only: matches_of_def same_evidence_fields whole_key_of_same)

lemma target_matches_answers:
  assumes "caches_ok sha c"
  shows "answers sha c (target_matches sha c i recorded) (matches_of sha c i recorded)"
proof -
  obtain c' where "whole_target_key sha c i = (whole_key_of sha c i, c')" "caches_ok sha c'" "same_evidence c c'"
    using whole_target_key_answers [OF assms] by (rule answersE)
  then show ?thesis
    using assms by (simp add: target_matches_def matches_of_def answers_def Let_def)
qed

definition contains_of ::
  "(string \<Rightarrow> string) \<Rightarrow> mutation_evidence \<Rightarrow> target_evidence list \<Rightarrow> target_key list \<Rightarrow> bool" where
  "contains_of sha c targets recorded =
     list_all (\<lambda>k. key_identity k \<in> set (map identity targets) \<and> me_passed c (key_identity k) \<and>
        matches_of sha c (key_identity k) k) recorded"

lemma contains_of_same: "same_evidence c c' \<Longrightarrow> contains_of sha c' = contains_of sha c"
  by (rule ext)+ (simp only: contains_of_def same_evidence_fields matches_of_same)

lemma contains_recorded_answers:
  "caches_ok sha c \<Longrightarrow> answers sha c (contains_recorded sha c targets recorded) (contains_of sha c targets recorded)"
proof (induction sha c targets recorded rule: contains_recorded.induct)
  case (1 sha c targets)
  then show ?case by (simp add: contains_of_def answersI)
next
  case (2 sha c targets k recorded)
  show ?case
  proof (cases "find (\<lambda>t. key_identity k = identity t) targets")
    case None
    then have "key_identity k \<notin> set (map identity targets)" by (auto simp: find_None_iff)
    then have "\<not> contains_of sha c targets (k # recorded)" by (simp add: contains_of_def)
    with None 2(2) show ?thesis by (simp add: answersI)
  next
    case (Some t)
    then have id: "key_identity k = identity t" and mem: "key_identity k \<in> set (map identity targets)"
      by (auto simp: find_Some_iff)
    show ?thesis
    proof (cases "me_passed c (identity t)")
      case False
      then have "\<not> contains_of sha c targets (k # recorded)" using id by (simp add: contains_of_def)
      with Some False 2(2) show ?thesis by (simp add: answersI)
    next
      case True
      obtain c' where c': "target_matches sha c (identity t) k = (matches_of sha c (identity t) k, c')"
        "caches_ok sha c'" "same_evidence c c'"
        using target_matches_answers [OF 2(2)] by (rule answersE)
      have unfolded: "contains_of sha c targets (k # recorded) =
          (matches_of sha c (identity t) k \<and> contains_of sha c targets recorded)"
        using id mem True by (simp add: contains_of_def)
      show ?thesis
      proof (cases "matches_of sha c (identity t) k")
        case False
        with Some True c' unfolded show ?thesis by (simp add: answers_def)
      next
        case matches: True
        have "answers sha c' (contains_recorded sha c' targets recorded) (contains_of sha c targets recorded)"
          using 2(1) [OF Some] matches True c' contains_of_same [OF c'(3)] by simp
        with Some True c' unfolded matches show ?thesis by (simp add: answers_extend)
      qed
    qed
  qed
qed

lemma contains_target_set_answers:
  assumes "caches_ok sha c"
  shows "answers sha c (contains_target_set sha c targets recorded)
    (length recorded \<le> length targets \<and> contains_of sha c targets recorded)"
  using contains_recorded_answers [OF assms, of targets recorded] assms
  by (auto simp: contains_target_set_def answers_def)

text \<open>What the groups of a route establish about a recorded kill.\<close>

definition killed_again :: "(string \<Rightarrow> string) \<Rightarrow> mutation_evidence \<Rightarrow> mutation_record \<Rightarrow> target_evidence list \<Rightarrow> bool" where
  "killed_again sha c r batch \<longleftrightarrow>
     length (rec_KilledBy r) \<le> length batch \<and> contains_of sha c batch (rec_KilledBy r)"

lemma reuse_kill_groups_answers:
  assumes "caches_ok sha c"
  shows "\<exists>c'. caches_ok sha c' \<and> same_evidence c c' \<and>
    reuse_kill_groups sha c mutant r groups =
      (if list_ex (killed_again sha c r) groups
       then (Some (mutation_kill_record_detail (rec_KilledBy r), rec_Provenance r),
             c'\<lparr>me_reused := AList.update (mu_ID mutant) (rec_Provenance r) (me_reused c)\<rparr>)
       else (None, c'))"
  using assms
proof (induction groups arbitrary: c)
  case Nil
  then show ?case by (intro exI [of _ c]) simp
next
  case (Cons batch groups)
  obtain c' where c': "contains_target_set sha c batch (rec_KilledBy r) = (killed_again sha c r batch, c')"
    "caches_ok sha c'" "same_evidence c c'"
    using contains_target_set_answers [OF Cons.prems] unfolding killed_again_def by (rule answersE)
  have same: "killed_again sha c' r = killed_again sha c r"
    by (rule ext) (simp only: killed_again_def contains_of_same [OF c'(3)])
  show ?case
  proof (cases "killed_again sha c r batch")
    case True
    with c' show ?thesis by (intro exI [of _ c']) (simp add: same_evidence_fields)
  next
    case False
    from Cons.IH [OF c'(2)] obtain d where "caches_ok sha d" "same_evidence c' d"
      "reuse_kill_groups sha c' mutant r groups =
        (if list_ex (killed_again sha c' r) groups
         then (Some (mutation_kill_record_detail (rec_KilledBy r), rec_Provenance r),
               d\<lparr>me_reused := AList.update (mu_ID mutant) (rec_Provenance r) (me_reused c')\<rparr>)
         else (None, d))" by blast
    with False c' same show ?thesis
      by (intro exI [of _ d]) (auto simp: same_evidence_fields intro: same_evidence_trans)
  qed
qed

definition reusable_kill :: "(string \<Rightarrow> string) \<Rightarrow> mutation_evidence \<Rightarrow> mutant \<Rightarrow> mutation_route \<Rightarrow> mutation_record \<Rightarrow> bool" where
  "reusable_kill sha c mutant route r \<longleftrightarrow>
     map_of (me_records c) (mu_ID mutant) = Some r \<and> rec_Outcome r = outcome_killed \<and> rec_KilledBy r \<noteq> [] \<and>
     list_ex (killed_again sha c r) (mutation_target_groups (mr_reaching route))"

lemma reuse_kill_answer:
  assumes "caches_ok sha c"
  shows "fst (reuse_kill sha c mutant route) = Some (detail, provenance) \<longleftrightarrow>
    (\<exists>r. reusable_kill sha c mutant route r \<and>
       detail = mutation_kill_record_detail (rec_KilledBy r) \<and> provenance = rec_Provenance r)"
proof (cases "map_of (me_records c) (mu_ID mutant)")
  case None
  then show ?thesis by (simp add: reuse_kill_def reusable_kill_def)
next
  case (Some r)
  obtain c' where "reuse_kill_groups sha c mutant r (mutation_target_groups (mr_reaching route)) =
      (if list_ex (killed_again sha c r) (mutation_target_groups (mr_reaching route))
       then (Some (mutation_kill_record_detail (rec_KilledBy r), rec_Provenance r),
             c'\<lparr>me_reused := AList.update (mu_ID mutant) (rec_Provenance r) (me_reused c)\<rparr>)
       else (None, c'))"
    using reuse_kill_groups_answers [OF assms] by blast
  with Some show ?thesis by (auto simp: reuse_kill_def reusable_kill_def)
qed

text \<open>
  C1. A kill is reused only when it would happen again: the mutant was recorded as killed,
  and each of its recorded killers is a target of one and the same execution group that
  reaches the mutant now, passed in this run, and has the key this run computes for it, the
  whole-tree key where the killer had observed the repository and the narrow key only where
  this run's baseline did not. The caches of keys change nothing.
\<close>

theorem reuse_kill_sound:
  assumes "caches_ok sha c" and "fst (reuse_kill sha c mutant route) = Some (detail, provenance)"
  shows "\<exists>r batch. map_of (me_records c) (mu_ID mutant) = Some r \<and> rec_Outcome r = outcome_killed \<and>
    provenance = rec_Provenance r \<and> detail = mutation_kill_record_detail (rec_KilledBy r) \<and>
    rec_KilledBy r \<noteq> [] \<and> batch \<in> set (mutation_target_groups (mr_reaching route)) \<and>
    (\<forall>k \<in> set (rec_KilledBy r). \<exists>t \<in> set batch.
       identity t = key_identity k \<and> me_passed c (identity t) \<and> tk_Key k \<noteq> [] \<and>
       tk_Key k = (if tk_WholeTree k then whole_key_of sha c (identity t) else look (me_keys c) (identity t)) \<and>
       (tk_WholeTree k \<or> \<not> me_baselineWholeTree c (identity t)))"
proof -
  obtain r where r: "reusable_kill sha c mutant route r" "detail = mutation_kill_record_detail (rec_KilledBy r)"
    "provenance = rec_Provenance r"
    using reuse_kill_answer [OF assms(1)] assms(2) by blast
  then obtain batch where batch: "batch \<in> set (mutation_target_groups (mr_reaching route))" "killed_again sha c r batch"
    by (auto simp: reusable_kill_def list_ex_iff)
  have "\<forall>k \<in> set (rec_KilledBy r). \<exists>t \<in> set batch.
       identity t = key_identity k \<and> me_passed c (identity t) \<and> tk_Key k \<noteq> [] \<and>
       tk_Key k = (if tk_WholeTree k then whole_key_of sha c (identity t) else look (me_keys c) (identity t)) \<and>
       (tk_WholeTree k \<or> \<not> me_baselineWholeTree c (identity t))"
  proof
    fix k assume "k \<in> set (rec_KilledBy r)"
    with batch(2) have k: "key_identity k \<in> set (map identity batch)" "me_passed c (key_identity k)"
      "matches_of sha c (key_identity k) k"
      by (auto simp: killed_again_def contains_of_def list_all_iff)
    then obtain t where "t \<in> set batch" "identity t = key_identity k" by auto
    with k show "\<exists>t \<in> set batch.
       identity t = key_identity k \<and> me_passed c (identity t) \<and> tk_Key k \<noteq> [] \<and>
       tk_Key k = (if tk_WholeTree k then whole_key_of sha c (identity t) else look (me_keys c) (identity t)) \<and>
       (tk_WholeTree k \<or> \<not> me_baselineWholeTree c (identity t))"
      by (intro bexI [of _ t]) (auto simp: matches_of_def Let_def split: if_split_asm)
  qed
  with r batch show ?thesis by (intro exI [of _ r] exI [of _ batch]) (simp add: reusable_kill_def)
qed

section \<open>Verdicts\<close>

definition exhausted_of :: "(string \<Rightarrow> string) \<Rightarrow> mutation_evidence \<Rightarrow> target_key list \<Rightarrow> target_identity \<Rightarrow> bool" where
  "exhausted_of sha c exhausted i = list_ex (\<lambda>k. key_identity k = i \<and> matches_of sha c i k) exhausted"

lemma exhausted_of_same: "same_evidence c c' \<Longrightarrow> exhausted_of sha c' = exhausted_of sha c"
  by (rule ext)+ (simp only: exhausted_of_def matches_of_same)

lemma exhausted_matches_answers:
  "caches_ok sha c \<Longrightarrow> answers sha c (exhausted_matches sha c i exhausted) (exhausted_of sha c exhausted i)"
proof (induction exhausted arbitrary: c)
  case Nil
  then show ?case by (simp add: exhausted_of_def answersI)
next
  case (Cons k exhausted)
  show ?case
  proof (cases "key_identity k = i")
    case False
    with Cons show ?thesis by (simp add: exhausted_of_def)
  next
    case True
    obtain c' where c': "target_matches sha c i k = (matches_of sha c i k, c')" "caches_ok sha c'" "same_evidence c c'"
      using target_matches_answers [OF Cons.prems] by (rule answersE)
    have "answers sha c (exhausted_matches sha c' i exhausted) (exhausted_of sha c exhausted i)"
      using Cons.IH [OF c'(2)] c'(3) by (simp add: answers_extend exhausted_of_same [OF c'(3)])
    with True c' show ?thesis by (auto simp: exhausted_of_def answers_def)
  qed
qed

definition exhausts_of ::
  "(string \<Rightarrow> string) \<Rightarrow> mutation_evidence \<Rightarrow> target_key list \<Rightarrow> target_evidence list \<Rightarrow> bool" where
  "exhausts_of sha c exhausted reaching =
     list_all (\<lambda>t. te_Covered t \<noteq> None \<and> me_passed c (identity t) \<and> exhausted_of sha c exhausted (identity t)) reaching"

lemma exhausts_of_same: "same_evidence c c' \<Longrightarrow> exhausts_of sha c' = exhausts_of sha c"
  by (rule ext)+ (simp only: exhausts_of_def same_evidence_fields exhausted_of_same)

lemma exhausts_each_answers:
  "caches_ok sha c \<Longrightarrow> answers sha c (exhausts_each sha c exhausted reaching) (exhausts_of sha c exhausted reaching)"
proof (induction reaching arbitrary: c)
  case Nil
  then show ?case by (simp add: exhausts_of_def answersI)
next
  case (Cons t reaching)
  obtain c' where c': "exhausted_matches sha c (identity t) exhausted = (exhausted_of sha c exhausted (identity t), c')"
    "caches_ok sha c'" "same_evidence c c'"
    using exhausted_matches_answers [OF Cons.prems] by (rule answersE)
  have "answers sha c (exhausts_each sha c' exhausted reaching) (exhausts_of sha c exhausted reaching)"
    using Cons.IH [OF c'(2)] c'(3) by (simp add: answers_extend exhausts_of_same [OF c'(3)])
  with c' Cons.prems show ?case by (auto simp: exhausts_of_def answers_def)
qed

lemma exhausts_answers:
  "caches_ok sha c \<Longrightarrow>
   answers sha c (exhausts sha c exhausted reaching) (reaching \<noteq> [] \<and> exhausts_of sha c exhausted reaching)"
  using exhausts_each_answers by (auto simp: exhausts_def answersI)

lemma whole_suite_targets_answers:
  "caches_ok sha c \<Longrightarrow>
   answers sha c (whole_suite_targets sha c pkg ts keys)
     (let own = filter (\<lambda>t. t_Package (te_Target t) = pkg) ts
      in if list_all (suite_measured sha c) own
         then Some (keys @ map (\<lambda>t. suite_target_key t (whole_key_of sha c (identity t)) True) own) else None)"
proof (induction ts arbitrary: c keys)
  case Nil
  then show ?case by (simp add: answersI)
next
  case (Cons t ts)
  show ?case
  proof (cases "t_Package (te_Target t) = pkg \<and> te_Covered t \<noteq> None \<and> me_passed c (identity t)")
    case False
    then have "t_Package (te_Target t) = pkg \<Longrightarrow> \<not> suite_measured sha c t" by (auto simp: suite_measured_def)
    with False Cons show ?thesis by (cases "t_Package (te_Target t) = pkg") (auto simp: answers_def Let_def)
  next
    case True
    obtain c' where c': "whole_target_key sha c (identity t) = (whole_key_of sha c (identity t), c')"
      "caches_ok sha c'" "same_evidence c c'"
      using whole_target_key_answers [OF Cons.prems] by (rule answersE)
    have same: "suite_measured sha c' = suite_measured sha c" "whole_key_of sha c' = whole_key_of sha c"
      by (rule ext, simp only: suite_measured_def same_evidence_fields [OF c'(3)] whole_key_of_same [OF c'(3)])
        (rule whole_key_of_same [OF c'(3)])
    let ?k = "suite_target_key t (whole_key_of sha c (identity t)) True"
    have "answers sha c (whole_suite_targets sha c' pkg ts (keys @ [?k]))
       (let own = filter (\<lambda>t. t_Package (te_Target t) = pkg) ts
        in if list_all (suite_measured sha c) own
           then Some ((keys @ [?k]) @ map (\<lambda>t. suite_target_key t (whole_key_of sha c (identity t)) True) own) else None)"
      using Cons.IH [OF c'(2), of "keys @ [?k]"] c'(3) unfolding same by (rule answers_extend)
    moreover have "suite_measured sha c t \<longleftrightarrow> whole_key_of sha c (identity t) \<noteq> []"
      using True by (simp add: suite_measured_def)
    ultimately show ?thesis using True c' by (auto simp: answers_def Let_def)
  qed
qed

lemma whole_suite_key_answers:
  assumes "caches_ok sha c"
  shows "answers sha c (whole_suite_key sha c pkg) (whole_suite_of sha c pkg)"
proof (cases "me_wholeSuites c pkg")
  case (Some key)
  then have "key = whole_suite_of sha c pkg" using assms unfolding caches_ok_def by blast
  with Some assms show ?thesis by (simp add: whole_suite_key_def answers_def)
next
  case None
  let ?own = "filter (\<lambda>t. t_Package (te_Target t) = pkg) (me_targets c)"
  let ?keys = "if list_all (suite_measured sha c) ?own
    then Some (map (\<lambda>t. suite_target_key t (whole_key_of sha c (identity t)) True) ?own) else None"
  obtain c' where c': "whole_suite_targets sha c pkg (me_targets c) [] = (?keys, c')" "caches_ok sha c'" "same_evidence c c'"
    using whole_suite_targets_answers [OF assms, of pkg "me_targets c" "[]"] unfolding Let_def append_Nil by (rule answersE)
  let ?d = "c'\<lparr>me_wholeSuites := (me_wholeSuites c')(pkg \<mapsto> whole_suite_of sha c pkg)\<rparr>"
  have run: "whole_suite_key sha c pkg = (whole_suite_of sha c pkg, ?d)"
    using None c' by (simp add: whole_suite_key_def whole_suite_of_def Let_def same_evidence_fields)
  have same: "same_evidence c' ?d" by (simp add: same_evidence_def)
  have "caches_ok sha ?d"
    using c'(2) unfolding caches_ok_def whole_key_of_same [OF same] whole_suite_of_same [OF same]
    by (simp add: whole_suite_of_same [OF c'(3)] del: split_paired_All)
  with run same c'(3) show ?thesis by (auto simp: answers_def intro: same_evidence_trans)
qed

definition suite_matches_of :: "(string \<Rightarrow> string) \<Rightarrow> mutation_evidence \<Rightarrow> string \<Rightarrow> suite_key \<Rightarrow> bool" where
  "suite_matches_of sha c pkg recorded =
     (let key = (if sk_WholeTree recorded then whole_suite_of sha c pkg else look (me_suites c) pkg)
      in (sk_WholeTree recorded \<or> \<not> me_suiteBaselineWhole c pkg) \<and> key \<noteq> [] \<and> key = sk_Key recorded)"

lemma suite_matches_answers:
  assumes "caches_ok sha c"
  shows "answers sha c (suite_matches sha c pkg recorded) (suite_matches_of sha c pkg recorded)"
proof -
  obtain c' where "whole_suite_key sha c pkg = (whole_suite_of sha c pkg, c')" "caches_ok sha c'" "same_evidence c c'"
    using whole_suite_key_answers [OF assms] by (rule answersE)
  then show ?thesis using assms by (simp add: suite_matches_def suite_matches_of_def answers_def Let_def)
qed

lemma suite_answers_answers:
  assumes "caches_ok sha c"
  shows "answers sha c (suite_answers sha c mutant suite route)
    (mr_reaching route = [] \<and> mr_discharged route = [] \<and>
     (case suite of None \<Rightarrow> False
      | Some s \<Rightarrow> sk_Package s = mu_Package mutant \<and> suite_matches_of sha c (mu_Package mutant) s))"
  using suite_matches_answers [OF assms] assms
  by (auto simp: suite_answers_def answers_def split: option.split)

definition reusable_verdict ::
  "(string \<Rightarrow> string) \<Rightarrow> mutation_evidence \<Rightarrow> mutant \<Rightarrow> mutation_route \<Rightarrow> mutation_record \<Rightarrow> bool" where
  "reusable_verdict sha c mutant route r \<longleftrightarrow>
     (if rec_Outcome r = outcome_survived
      then mr_reaching route \<noteq> [] \<and> exhausts_of sha c (rec_Exhausted r) (mr_reaching route)
      else rec_Outcome r = outcome_unreached \<and> mr_reaching route = [] \<and> mr_discharged route = [] \<and>
        (case rec_Suite r of None \<Rightarrow> False
         | Some s \<Rightarrow> sk_Package s = mu_Package mutant \<and> suite_matches_of sha c (mu_Package mutant) s))"

lemma reuse_verdict_answer:
  assumes ok: "caches_ok sha c"
  shows "\<exists>c'. caches_ok sha c' \<and> same_evidence c c' \<and>
    reuse_verdict sha c mutant route =
      (case map_of (me_records c) (mu_ID mutant) of
         None \<Rightarrow> (None, c')
       | Some r \<Rightarrow>
           (case rec_Finding r of
              None \<Rightarrow> (None, c')
            | Some seed \<Rightarrow>
                if reusable_verdict sha c mutant route r
                then (Some (seed, rec_Provenance r),
                      c'\<lparr>me_reused := AList.update (mu_ID mutant) (rec_Provenance r) (me_reused c)\<rparr>)
                else (None, c')))"
proof (cases "\<exists>r seed. map_of (me_records c) (mu_ID mutant) = Some r \<and> rec_Finding r = Some seed")
  case False
  then show ?thesis using ok
    by (intro exI [of _ c]) (auto simp: reuse_verdict_def split: option.splits)
next
  case True
  then obtain r seed where r: "map_of (me_records c) (mu_ID mutant) = Some r" "rec_Finding r = Some seed" by blast
  define result where "result =
     (if rec_Outcome r = outcome_survived then exhausts sha c (rec_Exhausted r) (mr_reaching route)
      else if rec_Outcome r = outcome_unreached then suite_answers sha c mutant (rec_Suite r) route
      else (False, c))"
  have "answers sha c result (reusable_verdict sha c mutant route r)"
    using exhausts_answers [OF ok] suite_answers_answers [OF ok] answersI [OF ok, of False]
    by (simp add: result_def reusable_verdict_def)
  then obtain c' where c': "result = (reusable_verdict sha c mutant route r, c')" "caches_ok sha c'" "same_evidence c c'"
    by (rule answersE)
  have "reuse_verdict sha c mutant route =
      (let (answered, c) = result in if \<not> answered then (None, c)
        else (Some (seed, rec_Provenance r), c\<lparr>me_reused := AList.update (mu_ID mutant) (rec_Provenance r) (me_reused c)\<rparr>))"
    by (simp only: reuse_verdict_def r option.case result_def)
  with c' r show ?thesis by (intro exI [of _ c']) (simp add: same_evidence_fields)
qed

text \<open>
  C7. A finding is reused only when this run would reach it again: a survival when there are
  reaching targets and every one of them is measured, passed and is among the exhausted ones
  under the key this run computes; an unreached verdict when the route still finds no target,
  and the recorded key is the one this run computes for the suite of the mutant's package.
\<close>

theorem reuse_verdict_sound:
  assumes "caches_ok sha c" and "fst (reuse_verdict sha c mutant route) = Some (seed, provenance)"
  shows "\<exists>r. map_of (me_records c) (mu_ID mutant) = Some r \<and> rec_Finding r = Some seed \<and>
    provenance = rec_Provenance r \<and>
    (rec_Outcome r = outcome_survived \<and> mr_reaching route \<noteq> [] \<and>
       (\<forall>t \<in> set (mr_reaching route). te_Covered t \<noteq> None \<and> me_passed c (identity t) \<and>
          (\<exists>k \<in> set (rec_Exhausted r). key_identity k = identity t \<and> matches_of sha c (identity t) k)) \<or>
     rec_Outcome r = outcome_unreached \<and> mr_reaching route = [] \<and> mr_discharged route = [] \<and>
       (\<exists>s. rec_Suite r = Some s \<and> sk_Package s = mu_Package mutant \<and> suite_matches_of sha c (mu_Package mutant) s))"
proof -
  obtain c' where "reuse_verdict sha c mutant route =
      (case map_of (me_records c) (mu_ID mutant) of
         None \<Rightarrow> (None, c')
       | Some r \<Rightarrow>
           (case rec_Finding r of
              None \<Rightarrow> (None, c')
            | Some seed \<Rightarrow>
                if reusable_verdict sha c mutant route r
                then (Some (seed, rec_Provenance r),
                      c'\<lparr>me_reused := AList.update (mu_ID mutant) (rec_Provenance r) (me_reused c)\<rparr>)
                else (None, c')))"
    using reuse_verdict_answer [OF assms(1)] by blast
  with assms(2) obtain r where r: "map_of (me_records c) (mu_ID mutant) = Some r" "rec_Finding r = Some seed"
    "provenance = rec_Provenance r" "reusable_verdict sha c mutant route r"
    by (auto split: option.splits if_split_asm)
  then show ?thesis
    by (intro exI [of _ r])
      (auto simp: reusable_verdict_def exhausts_of_def exhausted_of_def list_all_iff list_ex_iff
        split: if_split_asm option.splits)
qed

section \<open>What is recorded\<close>

definition key_of :: "(string \<Rightarrow> string) \<Rightarrow> mutation_evidence \<Rightarrow> target_evidence \<Rightarrow> string \<times> bool" where
  "key_of sha c t =
     (if te_WholeTree t \<or> me_baselineWholeTree c (identity t) then (whole_key_of sha c (identity t), True)
      else (look (me_keys c) (identity t), False))"

definition recorded_key :: "(string \<Rightarrow> string) \<Rightarrow> mutation_evidence \<Rightarrow> target_evidence \<Rightarrow> target_key" where
  "recorded_key sha c t = (let (key, whole) = key_of sha c t in suite_target_key t key whole)"

lemma key_of_same: "same_evidence c c' \<Longrightarrow> key_of sha c' = key_of sha c"
  by (rule ext) (simp only: key_of_def same_evidence_fields whole_key_of_same)

lemma recorded_key_same: "same_evidence c c' \<Longrightarrow> recorded_key sha c' = recorded_key sha c"
  by (rule ext) (simp only: recorded_key_def key_of_same)

lemma key_identity_recorded [simp]: "key_identity (recorded_key sha c t) = identity t"
  by (simp add: recorded_key_def key_identity_def suite_target_key_def identify_def case_prod_beta)

lemma recorded_key_parts [simp]:
  "tk_Key (recorded_key sha c t) = fst (key_of sha c t)"
  "tk_WholeTree (recorded_key sha c t) = snd (key_of sha c t)"
  by (simp_all add: recorded_key_def suite_target_key_def case_prod_beta)

lemma evidence_target_key_answers:
  assumes "caches_ok sha c"
  shows "answers sha c (evidence_target_key sha c t) (key_of sha c t)"
proof -
  obtain c' where "whole_target_key sha c (identity t) = (whole_key_of sha c (identity t), c')"
    "caches_ok sha c'" "same_evidence c c'"
    using whole_target_key_answers [OF assms] by (rule answersE)
  then show ?thesis using assms by (simp add: evidence_target_key_def key_of_def answers_def)
qed

lemma evidence_suite_key_answers:
  assumes "caches_ok sha c"
  shows "answers sha c (evidence_suite_key sha c pkg whole)
    (if whole \<or> me_suiteBaselineWhole c pkg then (whole_suite_of sha c pkg, True) else (look (me_suites c) pkg, False))"
proof -
  obtain c' where "whole_suite_key sha c pkg = (whole_suite_of sha c pkg, c')" "caches_ok sha c'" "same_evidence c c'"
    using whole_suite_key_answers [OF assms] by (rule answersE)
  then show ?thesis using assms by (simp add: evidence_suite_key_def answers_def)
qed

lemma key_targets_answers:
  "caches_ok sha c \<Longrightarrow>
   answers sha c (key_targets sha admissible c ts keys)
     (if list_all (\<lambda>t. admissible t \<and> fst (key_of sha c t) \<noteq> []) ts
      then Some (keys @ map (recorded_key sha c) ts) else None)"
proof (induction ts arbitrary: c keys)
  case Nil
  then show ?case by (simp add: answersI)
next
  case (Cons t ts)
  obtain c' where c': "evidence_target_key sha c t = (key_of sha c t, c')" "caches_ok sha c'" "same_evidence c c'"
    using evidence_target_key_answers [OF Cons.prems] by (rule answersE)
  obtain key whole where key: "key_of sha c t = (key, whole)" by fastforce
  then have rk: "recorded_key sha c t = suite_target_key t key whole" by (simp add: recorded_key_def)
  have "answers sha c (key_targets sha admissible c' ts (keys @ [recorded_key sha c t]))
     (if list_all (\<lambda>t. admissible t \<and> fst (key_of sha c t) \<noteq> []) ts
      then Some ((keys @ [recorded_key sha c t]) @ map (recorded_key sha c) ts) else None)"
    using Cons.IH [OF c'(2), of "keys @ [recorded_key sha c t]"] c'(3)
    unfolding key_of_same [OF c'(3)] recorded_key_same [OF c'(3)] by (rule answers_extend)
  with c' key rk Cons.prems show ?case by (auto simp: answers_def)
qed

text \<open>How each recording changes the state: the caches, and at most one record.\<close>

definition kill_record :: "(string \<Rightarrow> string) \<Rightarrow> mutation_evidence \<Rightarrow> mutant \<Rightarrow> target_evidence list \<Rightarrow> mutation_record" where
  "kill_record sha c mutant ts =
     (base_record c mutant outcome_killed)\<lparr>rec_KilledBy := map (recorded_key sha c) ts\<rparr>"

definition survival_record ::
  "(string \<Rightarrow> string) \<Rightarrow> mutation_evidence \<Rightarrow> mutant \<Rightarrow> target_evidence list \<Rightarrow> string \<Rightarrow> string \<Rightarrow> mutation_record" where
  "survival_record sha c mutant ts kind summary =
     (base_record c mutant outcome_survived)\<lparr>rec_Exhausted := map (recorded_key sha c) ts,
        rec_Finding := Some \<lparr>fs_Kind = kind, fs_Summary = summary\<rparr>\<rparr>"

lemma base_record_same: "same_evidence c c' \<Longrightarrow> base_record c' = base_record c"
  by (simp add: fun_eq_iff base_record_def same_evidence_fields)

lemma record_kill_cases:
  assumes "caches_ok sha c"
  obtains c' where "caches_ok sha c'" "same_evidence c c'"
    "record_kill sha c mutant ts =
      (if ts \<noteq> [] \<and> list_all (\<lambda>t. identity t \<noteq> ([], [], []) \<and> me_passed c (identity t) \<and> fst (key_of sha c t) \<noteq> []) ts
       then record_answer c' (kill_record sha c mutant ts) else c')"
proof (cases "ts = []")
  case True
  with assms show thesis by (intro that [of c]) (simp_all add: record_kill_def)
next
  case False
  obtain c' where c': "key_targets sha (\<lambda>t. identity t \<noteq> ([], [], []) \<and> me_passed c (identity t)) c ts [] =
      (if list_all (\<lambda>t. (identity t \<noteq> ([], [], []) \<and> me_passed c (identity t)) \<and> fst (key_of sha c t) \<noteq> []) ts
       then Some ([] @ map (recorded_key sha c) ts) else None, c')" "caches_ok sha c'" "same_evidence c c'"
    using key_targets_answers [OF assms] by (rule answersE)
  with False show thesis
    by (intro that [of c']) (simp_all add: record_kill_def kill_record_def base_record_same conj_assoc)
qed

lemma record_survived_cases:
  assumes "caches_ok sha c"
  obtains c' where "caches_ok sha c'" "same_evidence c c'"
    "record_survived sha c mutant ts kind summary =
      (if ts \<noteq> [] \<and> kind \<noteq> [] \<and> summary \<noteq> [] \<and>
          list_all (\<lambda>t. te_Covered t \<noteq> None \<and> me_passed c (identity t) \<and> fst (key_of sha c t) \<noteq> []) ts
       then record_answer c' (survival_record sha c mutant ts kind summary) else c')"
proof (cases "ts = [] \<or> kind = [] \<or> summary = []")
  case True
  with assms show thesis by (intro that [of c]) (auto simp: record_survived_def)
next
  case False
  obtain c' where c': "key_targets sha (\<lambda>t. te_Covered t \<noteq> None \<and> me_passed c (identity t)) c ts [] =
      (if list_all (\<lambda>t. (te_Covered t \<noteq> None \<and> me_passed c (identity t)) \<and> fst (key_of sha c t) \<noteq> []) ts
       then Some ([] @ map (recorded_key sha c) ts) else None, c')" "caches_ok sha c'" "same_evidence c c'"
    using key_targets_answers [OF assms] by (rule answersE)
  with False show thesis
    by (intro that [of c']) (simp_all add: record_survived_def survival_record_def base_record_same conj_assoc)
qed

section \<open>A concrete run\<close>

definition sample_package_inputs :: evidence_inputs where
  "sample_package_inputs =
     \<lparr>ei_Files = [(''go.mod'', ''d0''), (''a.go'', ''d1''), (''a_test.go'', ''d2'')], ei_Dependencies = [],
      ei_Toolchain = ''go'', ei_Platform = ''linux'', ei_Environment = [''A=1''], ei_Resources = [], ei_Corpus = [],
      ei_Contract = ''c'', ei_GoatestVersion = ''v'', ei_GoatestBuild = ''b'', ei_GoMutantsVersion = ''m''\<rparr>"

definition sample_sources :: target_key_sources where
  "sample_sources = new_target_key_sources sample_package_inputs
     [\<lparr>pk_ImportPath = ''p'', pk_RelativeDir = ''.'', pk_Dependencies = [], pk_EmbedFiles = []\<rparr>]
     ''c'' None None 5 6 []"

definition sample_sha :: "string \<Rightarrow> string" where
  "sample_sha bytes = sample_digest"

definition sample_targets :: "target_evidence list" where
  "sample_targets = [sample_target ''1'' ''p'' [], sample_target ''2'' ''p'' []]"

definition sample_key :: "target_evidence \<Rightarrow> target_key" where
  "sample_key t = suite_target_key t ''k'' False"

definition sample_records :: "mutation_record \<Rightarrow> mutation_store" where
  "sample_records r = \<lparr>ms_Schema = mutation_schema_v1, ms_ModulePath = ''m'', ms_Records = [r]\<rparr>"

definition sample_kill :: mutation_record where
  "sample_kill = \<lparr>rec_MutantID = ''m1'', rec_Path = ''a.go'', rec_Package = ''p'', rec_Outcome = outcome_killed,
     rec_Provenance = ''snapshot=1'', rec_KilledBy = [sample_key (sample_target ''1'' ''p'' [])], rec_Exhausted = [],
     rec_Suite = None, rec_Finding = None\<rparr>"

definition sample_survival :: mutation_record where
  "sample_survival = \<lparr>rec_MutantID = ''m1'', rec_Path = ''a.go'', rec_Package = ''p'', rec_Outcome = outcome_survived,
     rec_Provenance = ''snapshot=1'', rec_KilledBy = [], rec_Exhausted = map sample_key sample_targets,
     rec_Suite = None, rec_Finding = Some \<lparr>fs_Kind = ''surviving-mutant'', fs_Summary = ''s''\<rparr>\<rparr>"

definition sample_run :: "mutation_record \<Rightarrow> mutation_evidence" where
  "sample_run r = new_mutation_evidence (sample_records r) (\<lambda>_. Some ''k'') (\<lambda>_. True) Map.empty ''snapshot=2''
     sample_sources"

definition sample_route :: mutation_route where
  "sample_route = empty_route\<lparr>mr_reaching := sample_targets\<rparr>"

lemma caches_ok_fresh: "caches_ok sha (new_mutation_evidence store keys passed suites provenance sources)"
  by (simp add: caches_ok_def new_mutation_evidence_def)

lemma caches_ok_new: "caches_ok sha (new_run_mutation_evidence sha store sources targets inventory env snapshot)"
  by (simp add: caches_ok_def new_run_mutation_evidence_def new_mutation_evidence_def Let_def)

theorem reuse_kill_sound_witness:
  "fst (reuse_kill sample_sha (sample_run sample_kill) routed_mutant sample_route) = Some (''Test1'', ''snapshot=1'') \<and>
   (\<exists>r. map_of (me_records (sample_run sample_kill)) ''m1'' = Some r \<and> rec_KilledBy r \<noteq> [])"
proof -
  have reused: "fst (reuse_kill sample_sha (sample_run sample_kill) routed_mutant sample_route)
      = Some (''Test1'', ''snapshot=1'')" by code_simp
  have "caches_ok sample_sha (sample_run sample_kill)" by (simp add: sample_run_def caches_ok_fresh)
  from reuse_kill_sound [OF this reused] reused show ?thesis by (auto simp: routed_mutant_def)
qed

theorem reuse_verdict_sound_witness:
  "fst (reuse_verdict sample_sha (sample_run sample_survival) routed_mutant sample_route)
     = Some (\<lparr>fs_Kind = ''surviving-mutant'', fs_Summary = ''s''\<rparr>, ''snapshot=1'') \<and>
   list_all (\<lambda>t. me_passed (sample_run sample_survival) (identity t)) (mr_reaching sample_route)"
proof -
  have reused: "fst (reuse_verdict sample_sha (sample_run sample_survival) routed_mutant sample_route)
      = Some (\<lparr>fs_Kind = ''surviving-mutant'', fs_Summary = ''s''\<rparr>, ''snapshot=1'')" by code_simp
  have "caches_ok sample_sha (sample_run sample_survival)" by (simp add: sample_run_def caches_ok_fresh)
  from reuse_verdict_sound [OF this reused] have "\<forall>t \<in> set (mr_reaching sample_route). me_passed (sample_run sample_survival) (identity t)"
    by (auto simp: sample_route_def)
  with reused show ?thesis by (simp only: list_all_iff)
qed

end
