(* ===== verification/RepositoryObservation.thy ===== *)
theory RepositoryObservation
  imports MutationEvidence
begin

text \<open>
  What a test run was seen to read (\<open>internal/assure/repository_observation.go\<close>): the test
  log the Go runtime writes, the accesses it is parsed into, and whether they stay inside the
  inputs a target's narrow key covers. Files and directories are the operating system's: the
  temporary log, its contents and the kind of a path are functions of a state of the world
  that the definitions take as an argument. Paths are Unix paths.
\<close>

section \<open>Reasons and accesses\<close>

datatype whole_tree_reason =
    Observed
  | StaticUnobservable
  | LogUnavailable
  | LogAmbiguous
  | DirectoryAccess
  | OutsideInput

record repository_access =
  ra_path :: string
  ra_directory :: bool

record repository_observation =
  ro_reason :: whole_tree_reason
  ro_accesses :: "repository_access list"

definition observation_of :: "whole_tree_reason \<Rightarrow> repository_observation" where
  "observation_of reason = \<lparr>ro_reason = reason, ro_accesses = []\<rparr>"

record read_candidate =
  Unobservable :: bool
  rc_Reasons :: "string list"

record repository_observer =
  ob_root :: string
  ob_directory :: string
  ob_candidates :: "(string \<times> read_candidate) list"
  ob_packages :: "(string \<times> go_package) list"
  ob_sources :: target_key_sources

text \<open>
  What the observer asks of the operating system: a name for a new empty file (\<open>None\<close> when it
  cannot be created or closed), the contents of a file, which is then removed, and whether a
  path is a directory (\<open>None\<close> when it cannot be examined).
\<close>

record 'w log_files =
  lf_create :: "'w \<Rightarrow> string \<Rightarrow> string option \<times> 'w"
  lf_read :: "'w \<Rightarrow> string \<Rightarrow> string option \<times> 'w"
  lf_stat :: "'w \<Rightarrow> string \<Rightarrow> bool option"

section \<open>Paths\<close>

definition is_abs :: "string \<Rightarrow> bool" where
  "is_abs p = has_prefix p ''/''"

text \<open>\<open>filepath.Join\<close> of two elements.\<close>

definition path_join :: "string \<Rightarrow> string \<Rightarrow> string" where
  "path_join a b =
     (if a = [] \<and> b = [] then []
      else path_clean (if a = [] then b else if b = [] then a else a @ ''/'' @ b))"

fun strip_common :: "string list \<Rightarrow> string list \<Rightarrow> string list \<times> string list" where
  "strip_common (a # as) (b # bs) = (if a = b then strip_common as bs else (a # as, b # bs))"
| "strip_common as bs = (as, bs)"

definition path_elements :: "string \<Rightarrow> string list" where
  "path_elements p = filter (\<lambda>e. e \<noteq> [] \<and> e \<noteq> ''.'') (split_on (CHR ''/'') p)"

text \<open>
  \<open>filepath.Rel\<close>: both paths absolute or both relative; the elements of the base that are left
  when the common ones are gone turn into \<open>..\<close>, unless one of them is \<open>..\<close> itself.
\<close>

definition path_rel :: "string \<Rightarrow> string \<Rightarrow> string option" where
  "path_rel base targ =
     (let b = path_clean base; t = path_clean targ in
      if t = b then Some ''.''
      else if is_abs b \<noteq> is_abs t then None
      else
        let (bs, ts) = strip_common (path_elements b) (path_elements t) in
        if bs \<noteq> [] \<and> hd bs = ''..'' then None
        else Some (join ''/'' (map (\<lambda>_. ''..'') bs @ ts)))"

definition repository_relative_path :: "string \<Rightarrow> string \<Rightarrow> string option" where
  "repository_relative_path root name =
     (if root = [] \<or> name = [] then None
      else case path_rel root name of
        None \<Rightarrow> None
      | Some relative \<Rightarrow>
          if relative = ''..'' \<or> has_prefix relative ''../'' \<or> is_abs relative then None
          else Some (to_slash relative))"

section \<open>The test log\<close>

definition test_log_magic :: string where
  "test_log_magic = ''# test log'' @ [newline]"

text \<open>One line: the working directory and the observation after it.\<close>

definition parse_log_line ::
  "(string \<Rightarrow> bool option) \<Rightarrow> string \<Rightarrow> string \<Rightarrow> string \<times> repository_observation \<Rightarrow>
   string \<times> repository_observation" where
  "parse_log_line stat root raw state =
     (let (directory, observation) = state;
          ambiguous = (directory, observation\<lparr>ro_reason := LogAmbiguous\<rparr>);
          access = (\<lambda>path is_directory. observation\<lparr>ro_accesses :=
            ro_accesses observation @ [\<lparr>ra_path = path, ra_directory = is_directory\<rparr>]\<rparr>) in
      if raw = [] then state
      else case cut_at (CHR '' '') raw of
        None \<Rightarrow> ambiguous
      | Some (operation, name) \<Rightarrow>
          if name = [] then ambiguous
          else if operation = ''getenv'' then state
          else if operation = ''chdir'' then
            if \<not> is_abs name then ambiguous
            else (case repository_relative_path root (path_clean name) of
                    Some relative \<Rightarrow> (path_clean name, access relative True)
                  | None \<Rightarrow> (path_clean name, observation))
          else if operation = ''open'' \<or> operation = ''stat'' then
            let resolved = path_clean (if is_abs name then name else path_join directory name) in
            case repository_relative_path root resolved of
              None \<Rightarrow> state
            | Some relative \<Rightarrow>
                (case stat resolved of
                   None \<Rightarrow> (directory, access relative True)
                 | Some is_directory \<Rightarrow> (directory, access relative is_directory))
          else ambiguous)"

definition parse_repository_test_log ::
  "(string \<Rightarrow> bool option) \<Rightarrow> string \<Rightarrow> string \<Rightarrow> string \<Rightarrow> repository_observation" where
  "parse_repository_test_log stat data root initial_directory =
     (if \<not> has_prefix data test_log_magic \<or> data = [] \<or> last data \<noteq> newline
      then observation_of LogAmbiguous
      else snd (fold (parse_log_line stat root) (split_on newline (drop (length test_log_magic) data))
                  (initial_directory, observation_of Observed)))"

definition repository_test_log_path :: "string list \<Rightarrow> string option" where
  "repository_test_log_path arguments =
     (case find (\<lambda>a. has_prefix a ''-test.testlogfile='') arguments of
        None \<Rightarrow> None
      | Some a \<Rightarrow> (case drop (length ''-test.testlogfile='') a of [] \<Rightarrow> None | path \<Rightarrow> Some path))"

text \<open>
  The characters of a JSON string for a path, as \<open>json.Marshal\<close> writes them; bytes above the
  ASCII range are copied (the path of a temporary file is valid UTF-8).
\<close>

definition hex_digit :: "nat \<Rightarrow> char" where
  "hex_digit n = (''0123456789abcdef'' ! n)"

definition json_char :: "char \<Rightarrow> string" where
  "json_char c =
     (if c = backslash \<or> c = CHR 0x22 then [backslash, c]
      else if c = CHR 0x08 then [backslash, CHR ''b'']
      else if c = CHR 0x0C then [backslash, CHR ''f'']
      else if c = newline then [backslash, CHR ''n'']
      else if c = CHR 0x0D then [backslash, CHR ''r'']
      else if c = CHR 0x09 then [backslash, CHR ''t'']
      else if c < CHR '' '' \<or> c = CHR ''<'' \<or> c = CHR ''>'' \<or> c = CHR ''&''
      then [backslash, CHR ''u'', CHR ''0'', CHR ''0'',
            hex_digit (of_char c div 16), hex_digit (of_char c mod 16)]
      else [c])"

definition repository_test_log_failure :: "string \<Rightarrow> string list \<Rightarrow> bool" where
  "repository_test_log_failure output arguments =
     (case repository_test_log_path arguments of
        None \<Rightarrow> False
      | Some path \<Rightarrow>
          if \<not> contains_string ''testing:'' output then False
          else contains_string path output \<or> contains_string (concat (map json_char path)) output)"

section \<open>The observer\<close>

definition new_repository_observer ::
  "string option \<Rightarrow> string \<Rightarrow> string \<Rightarrow> (string \<times> read_candidate) list \<Rightarrow> go_package list \<Rightarrow>
   target_key_sources \<Rightarrow> repository_observer" where
  "new_repository_observer abs_root root directory candidates packages sources =
     (let absolute = (case abs_root of
            None \<Rightarrow> [] | Some a \<Rightarrow> if root = [] then [] else if a = [] then [] else path_clean a);
          unobservable = newline \<in> set absolute \<or> list_ex (\<lambda>name. newline \<in> set name) (src_extraFiles sources)
      in \<lparr>ob_root = absolute, ob_directory = directory,
          ob_candidates = (if unobservable then map (\<lambda>(p, c). (p, c\<lparr>Unobservable := True\<rparr>)) candidates else candidates),
          ob_packages = fold (\<lambda>pkg m. AList.update (pk_ImportPath pkg) pkg m) packages [], ob_sources = sources\<rparr>)"

definition observer_candidate :: "repository_observer option \<Rightarrow> string \<Rightarrow> read_candidate option" where
  "observer_candidate observer pkg =
     (case observer of None \<Rightarrow> None | Some o' \<Rightarrow> map_of (ob_candidates o') pkg)"

text \<open>
  What \<open>instrument\<close> returns beside the arguments: an observation that is already decided, or
  the log to read and the directory the test starts in.
\<close>

datatype pending_observation =
    Decided repository_observation
  | ReadLog string string

definition instrument ::
  "'w log_files \<Rightarrow> repository_observer \<Rightarrow> 'w \<Rightarrow> string \<Rightarrow> string \<Rightarrow> string list \<Rightarrow>
   (string list \<times> pending_observation) \<times> 'w" where
  "instrument files observer w pkg relative_dir arguments =
     (case map_of (ob_candidates observer) pkg of
        None \<Rightarrow> ((arguments, Decided (observation_of Observed)), w)
      | Some candidate \<Rightarrow>
          if Unobservable candidate then ((arguments, Decided (observation_of StaticUnobservable)), w)
          else if ob_root observer = [] \<or> ob_directory observer = []
          then ((arguments, Decided (observation_of LogUnavailable)), w)
          else (case lf_create files w (ob_directory observer) of
                  (None, w) \<Rightarrow> ((arguments, Decided (observation_of LogUnavailable)), w)
                | (Some name, w) \<Rightarrow>
                    ((arguments @ [''-test.testlogfile='' @ name],
                      ReadLog name (path_join (ob_root observer) relative_dir)), w)))"

definition instrument_package ::
  "'w log_files \<Rightarrow> repository_observer option \<Rightarrow> 'w \<Rightarrow> string \<Rightarrow> string list \<Rightarrow>
   (string list \<times> pending_observation) \<times> 'w" where
  "instrument_package files observer w pkg arguments =
     (case observer of
        None \<Rightarrow> ((arguments, Decided (observation_of Observed)), w)
      | Some o' \<Rightarrow>
          (case map_of (ob_packages o') pkg of
             None \<Rightarrow>
               (case map_of (ob_candidates o') pkg of
                  Some _ \<Rightarrow> ((arguments, Decided (observation_of StaticUnobservable)), w)
                | None \<Rightarrow> ((arguments, Decided (observation_of Observed)), w))
           | Some owner \<Rightarrow> instrument files o' w pkg (pk_RelativeDir owner) arguments))"

text \<open>The function \<open>instrument\<close> returns, which reads and removes the log.\<close>

definition finish_observation ::
  "'w log_files \<Rightarrow> repository_observer option \<Rightarrow> 'w \<Rightarrow> pending_observation \<Rightarrow> repository_observation \<times> 'w" where
  "finish_observation files observer w pending =
     (case pending of
        Decided observation \<Rightarrow> (observation, w)
      | ReadLog name initial_directory \<Rightarrow>
          (case lf_read files w name of
             (None, w) \<Rightarrow> (observation_of LogUnavailable, w)
           | (Some data, w) \<Rightarrow>
               (parse_repository_test_log (lf_stat files w) data
                  (case observer of None \<Rightarrow> [] | Some o' \<Rightarrow> ob_root o') initial_directory, w)))"

fun accesses_reason :: "target_inputs \<Rightarrow> repository_access list \<Rightarrow> whole_tree_reason" where
  "accesses_reason inputs [] = Observed"
| "accesses_reason inputs (access # accesses) =
     (if ra_directory access then DirectoryAccess
      else if map_of (ti_Files inputs) (ra_path access) \<noteq> None then accesses_reason inputs accesses
      else if map_of (ti_Corpus inputs) (ra_path access) = None then OutsideInput
      else accesses_reason inputs accesses)"

definition whole_tree_reason_of ::
  "repository_observer option \<Rightarrow> target \<Rightarrow> repository_observation \<Rightarrow> whole_tree_reason" where
  "whole_tree_reason_of observer t observation =
     (case observer_candidate observer (t_Package t) of
        None \<Rightarrow> Observed
      | Some candidate \<Rightarrow>
          if Unobservable candidate then StaticUnobservable
          else if ro_reason observation \<noteq> Observed then ro_reason observation
          else (case observer of
                  None \<Rightarrow> Observed
                | Some o' \<Rightarrow> accesses_reason (narrow_inputs_for (ob_sources o') t) (ro_accesses observation)))"

definition whole_tree :: "repository_observer option \<Rightarrow> target \<Rightarrow> repository_observation \<Rightarrow> bool" where
  "whole_tree observer t observation = (whole_tree_reason_of observer t observation \<noteq> Observed)"

definition whole_tree_suite_reason ::
  "repository_observer option \<Rightarrow> string \<Rightarrow> repository_observation \<Rightarrow> whole_tree_reason" where
  "whole_tree_suite_reason observer pkg observation =
     (case observer of
        None \<Rightarrow> Observed
      | Some o' \<Rightarrow>
          (case map_of (ob_packages o') pkg of
             None \<Rightarrow> (if observer_candidate observer pkg \<noteq> None then StaticUnobservable else Observed)
           | Some owner \<Rightarrow>
               whole_tree_reason_of observer
                 \<lparr>t_ID = [], t_Name = [], t_Kind = [], t_Package = pkg, t_RelativeDir = pk_RelativeDir owner,
                  t_Path = [], t_Line = 0, t_Capabilities = [], t_Dependencies = pk_Dependencies owner\<rparr>
                 observation))"

definition whole_tree_suite :: "repository_observer option \<Rightarrow> string \<Rightarrow> repository_observation \<Rightarrow> bool" where
  "whole_tree_suite observer pkg observation = (whole_tree_suite_reason observer pkg observation \<noteq> Observed)"

text \<open>\<open>applyRepositoryObservation\<close> of \<open>mutation.go\<close>.\<close>

definition apply_repository_observation ::
  "repository_observer option \<Rightarrow> repository_observation \<Rightarrow> target_evidence list \<Rightarrow> target_evidence list" where
  "apply_repository_observation observer observation targets =
     map (\<lambda>t. t\<lparr>te_WholeTree := te_WholeTree t \<or> whole_tree observer (te_Target t) observation\<rparr>) targets"

section \<open>A narrow key covers what was read\<close>

lemma accesses_reason_Observed:
  "accesses_reason inputs accesses = Observed \<longleftrightarrow>
     list_all (\<lambda>a. \<not> ra_directory a \<and>
       (map_of (ti_Files inputs) (ra_path a) \<noteq> None \<or> map_of (ti_Corpus inputs) (ra_path a) \<noteq> None)) accesses"
  by (induction accesses) auto

lemma parse_log_line_keeps:
  "set (ro_accesses (snd st)) \<subseteq> set (ro_accesses (snd (parse_log_line stat root raw st)))"
  by (auto simp: parse_log_line_def Let_def split: prod.splits option.splits)

lemma parse_log_lines_keep:
  "set (ro_accesses (snd st)) \<subseteq> set (ro_accesses (snd (fold (parse_log_line stat root) raws st)))"
proof (induction raws arbitrary: st)
  case (Cons raw raws)
  show ?case using parse_log_line_keeps [of st stat root raw] Cons [of "parse_log_line stat root raw st"] by auto
qed simp

lemma parse_log_line_open:
  assumes "is_abs path" "operation = ''open'' \<or> operation = ''stat''"
    and "repository_relative_path root (path_clean path) = Some relative"
  shows "\<lparr>ra_path = relative, ra_directory = (stat (path_clean path) \<noteq> Some False)\<rparr>
    \<in> set (ro_accesses (snd (parse_log_line stat root (operation @ '' '' @ path) st)))"
proof -
  have "cut_at (CHR '' '') (operation @ '' '' @ path) = Some (operation, path)"
    using assms(2) by (auto intro: cut_at_append)
  moreover have "path \<noteq> []" using assms(1) by (auto simp: is_abs_def has_prefix_def)
  ultimately show ?thesis
    using assms by (auto simp: parse_log_line_def Let_def split: prod.splits option.splits)
qed


definition sample_observer :: repository_observer where
  "sample_observer = \<lparr>ob_root = ''/r'', ob_directory = ''/tmp'',
     ob_candidates = [(''p'', \<lparr>Unobservable = False, rc_Reasons = []\<rparr>)],
     ob_packages = [(''p'', \<lparr>pk_ImportPath = ''p'', pk_RelativeDir = ''.'', pk_Dependencies = [], pk_EmbedFiles = []\<rparr>)],
     ob_sources = sample_sources\<rparr>"

definition sample_log :: string where
  "sample_log = test_log_magic @ ''getenv HOME'' @ [newline] @ ''open /r/a.go'' @ [newline]"


end
