(* ===== verification/ReportAudit.thy ===== *)
theory ReportAudit
  imports Report
begin

text \<open>
  The audit of a report, \<open>internal/report/audit.go\<close>: \<open>Validate\<close>, which every report
  passes, and \<open>ValidateForPersistence\<close>, which it passes before it is written. Every
  \<open>return\<close> of an error is a constructor of \<open>report_error\<close>; \<open>None\<close> is acceptance.
\<close>

datatype report_error =
    BadSchema string | BadVerdict string
  | NegativeCount string | CountMismatch string | SelectionMismatch string
  | TargetInventorySize int int | TargetIdentity | TargetNegative string | TargetDuplicate string
  | ResumeInvalid | ResumeExceeds
  | MutantNegative | MutantReuseExceeds | MutantDispositionMismatch | MutantSelectionMismatch
  | MutantExecutionMismatch | UnexplainedMutants | MutantInventorySize | MutantEmptyID
  | MutantNegativeLine string | MutantDuplicate string | ReuseProvenance string
  | ReuseStatus string string | UnknownDisposition string string | InventoryMismatch
  | CompileEquivalent
  | AcceptanceIncomplete | AcceptanceExpiry string | AcceptanceDuplicate string
  | AcceptedMutationUncovered string string | AcceptedMutantUncovered string string
  | AssuredNotFull string | ChangeAssuredScope | ScopeAssuredScope | ReplayVerdict | CompletedVerdict
  | MissingRunID | MissingRunKind | UnknownRunKind string | MissingVerdict | MissingContract
  | MissingSnapshot | MissingScope | MissingProject | MissingModule | BadConfigurationDigest
  | ExecutionNegative | MissingToolchain | MissingGit | PartialGit | GitLimitationMissing
  | GitSentinel | BadStartedAt | BadFinishedAt | BadTiming | AcceptanceExpired string
  | MissingSourceRun | UnexpectedSourceRun

section \<open>Counts and targets\<close>

definition validate_count :: "string \<Rightarrow> count_accounting \<Rightarrow> report_error option" where
  "validate_count name c =
     (if cDiscovered c < 0 \<or> cSelected c < 0 \<or> cExecuted c < 0 \<or>
         cSkipped c < 0 \<or> cExcluded c < 0 then Some (NegativeCount name)
      else if cDiscovered c = 0 \<and> cSelected c = 0 \<and> cExecuted c = 0 \<and>
         cSkipped c = 0 \<and> cExcluded c = 0 then None
      else if cDiscovered c \<noteq> cSelected c + cExcluded c then Some (CountMismatch name)
      else if cSelected c \<noteq> cExecuted c + cSkipped c then Some (SelectionMismatch name)
      else None)"

fun validate_target_list :: "string list \<Rightarrow> target_disposition list \<Rightarrow> report_error option" where
  "validate_target_list seen [] = None"
| "validate_target_list seen (target # rest) =
     (if trim_space (td_ID target) = [] \<or> trim_space (td_Name target) = [] \<or>
         trim_space (td_Kind target) = [] \<or> trim_space (td_Package target) = [] \<or>
         trim_space (td_Status target) = [] then Some TargetIdentity
      else if td_Line target < 0 \<or> td_DurationMS target < 0 then Some (TargetNegative (td_ID target))
      else if td_ID target \<in> set seen then Some (TargetDuplicate (td_ID target))
      else validate_target_list (td_ID target # seen) rest)"

definition validate_targets :: "count_accounting \<Rightarrow> target_disposition list \<Rightarrow> report_error option" where
  "validate_targets acc targets =
     (if int (length targets) \<noteq> cSelected acc
      then Some (TargetInventorySize (int (length targets)) (cSelected acc))
      else validate_target_list [] targets)"

section \<open>Mutants\<close>

definition validate_reuse :: "mutant_disposition \<Rightarrow> report_error option" where
  "validate_reuse d =
     (if md_Reused d \<noteq> (md_Provenance d \<noteq> []) then Some (ReuseProvenance (md_ID d))
      else if \<not> md_Reused d then None
      else if md_Status d \<in> {MutantKilled, MutantSurvived, MutantInconclusive, MutantAccepted} then None
      else Some (ReuseStatus (md_ID d) (md_Status d)))"

text \<open>One iteration of the switch over a disposition's status; \<open>None\<close> is its default case.\<close>

definition observe_status :: "mutant_disposition \<Rightarrow> mutant_accounting \<Rightarrow> mutant_accounting option" where
  "observe_status d observed =
     (if md_Status d = MutantKilled then
        Some (observed\<lparr>mSelected := mSelected observed + 1, mExecuted := mExecuted observed + 1,
          mKilled := mKilled observed + 1,
          mReusedKilled := mReusedKilled observed + (if md_Reused d then 1 else 0)\<rparr>)
      else if md_Status d = MutantSurvived then
        Some (observed\<lparr>mSelected := mSelected observed + 1, mExecuted := mExecuted observed + 1,
          mSurvived := mSurvived observed + 1,
          mReusedSurvived := mReusedSurvived observed + (if md_Reused d then 1 else 0)\<rparr>)
      else if md_Status d = MutantInconclusive then
        Some (observed\<lparr>mSelected := mSelected observed + 1, mExecuted := mExecuted observed + 1,
          mInconclusive := mInconclusive observed + 1\<rparr>)
      else if md_Status d = MutantCompileRejected then
        Some (observed\<lparr>mSelected := mSelected observed + 1,
          mCompileRejected := mCompileRejected observed + 1\<rparr>)
      else if md_Status d = MutantAccepted then
        Some (observed\<lparr>mSelected := mSelected observed + 1, mAccepted := mAccepted observed + 1\<rparr>)
      else if md_Status d = MutantOutOfScope then
        Some (observed\<lparr>mOutOfScope := mOutOfScope observed + 1\<rparr>)
      else if md_Status d = MutantUnknown then
        Some (observed\<lparr>mSelected := mSelected observed + 1, mUnknown := mUnknown observed + 1\<rparr>)
      else None)"

fun observe_mutants ::
  "string list \<Rightarrow> mutant_accounting \<Rightarrow> mutant_disposition list \<Rightarrow> report_error + mutant_accounting" where
  "observe_mutants seen observed [] = Inr observed"
| "observe_mutants seen observed (d # rest) =
     (if md_ID d = [] then Inl MutantEmptyID
      else if md_Line d < 0 then Inl (MutantNegativeLine (md_ID d))
      else if md_ID d \<in> set seen then Inl (MutantDuplicate (md_ID d))
      else (case validate_reuse d of
              Some e \<Rightarrow> Inl e
            | None \<Rightarrow>
                (case observe_status d observed of
                   None \<Rightarrow> Inl (UnknownDisposition (md_ID d) (md_Status d))
                 | Some observed' \<Rightarrow> observe_mutants (md_ID d # seen) observed' rest)))"

definition no_mutants :: "int \<Rightarrow> mutant_accounting" where
  "no_mutants discovered =
     \<lparr>mDiscovered = discovered, mSelected = 0, mExecuted = 0, mKilled = 0, mSurvived = 0,
      mInconclusive = 0, mCompileRejected = 0, mAccepted = 0, mOutOfScope = 0, mUnknown = 0,
      mReusedKilled = 0, mReusedSurvived = 0\<rparr>"

definition mutant_values :: "mutant_accounting \<Rightarrow> int list" where
  "mutant_values c =
     [mDiscovered c, mSelected c, mExecuted c, mKilled c, mSurvived c, mInconclusive c,
      mCompileRejected c, mAccepted c, mOutOfScope c, mUnknown c, mReusedKilled c, mReusedSurvived c]"

definition validate_mutants ::
  "mutant_accounting \<Rightarrow> mutant_disposition list \<Rightarrow> string \<Rightarrow> report_error option" where
  "validate_mutants c dispositions verdict =
     (if list_ex (\<lambda>value. value < 0) (mutant_values c) then Some MutantNegative
      else if mReusedKilled c + mReusedSurvived c > mExecuted c then Some MutantReuseExceeds
      else if mDiscovered c \<noteq> mExecuted c + mCompileRejected c + mAccepted c + mOutOfScope c + mUnknown c
        then Some MutantDispositionMismatch
      else if mSelected c \<noteq> mExecuted c + mCompileRejected c + mAccepted c + mUnknown c
        then Some MutantSelectionMismatch
      else if mExecuted c \<noteq> mKilled c + mSurvived c + mInconclusive c then Some MutantExecutionMismatch
      else if mUnknown c \<noteq> 0 \<and> verdict \<noteq> VerdictError then Some UnexplainedMutants
      else if int (length dispositions) \<noteq> mDiscovered c then Some MutantInventorySize
      else (case observe_mutants [] (no_mutants (int (length dispositions))) dispositions of
              Inl e \<Rightarrow> Some e
            | Inr observed \<Rightarrow> if observed \<noteq> c then Some InventoryMismatch else None))"

section \<open>Acceptances, verdicts, the whole report\<close>

fun validate_acceptance_list :: "string list \<Rightarrow> acceptance list \<Rightarrow> report_error option" where
  "validate_acceptance_list accepted [] = None"
| "validate_acceptance_list accepted (item # rest) =
     (if trim_space (acc_ID item) = [] \<or> trim_space (acc_Reason item) = [] then Some AcceptanceIncomplete
      else if parse_rfc3339 (acc_Expires item) = None then Some (AcceptanceExpiry (acc_ID item))
      else if acc_ID item \<in> set accepted then Some (AcceptanceDuplicate (acc_ID item))
      else validate_acceptance_list (acc_ID item # accepted) rest)"

definition evidence_acceptance :: "string list \<Rightarrow> evidence \<Rightarrow> report_error option" where
  "evidence_acceptance accepted item =
     (if ev_Kind item \<noteq> ''mutation'' \<or> ev_Status item \<noteq> ''accepted'' then None
      else if ev_Detail item \<notin> set accepted
        then Some (AcceptedMutationUncovered (ev_ID item) (ev_Detail item)) else None)"

definition mutant_acceptance :: "string list \<Rightarrow> mutant_disposition \<Rightarrow> report_error option" where
  "mutant_acceptance accepted mutant =
     (if md_Status mutant \<noteq> MutantAccepted then None
      else if md_Detail mutant \<notin> set accepted
        then Some (AcceptedMutantUncovered (md_ID mutant) (md_Detail mutant)) else None)"

definition validate_acceptances :: "report \<Rightarrow> report_error option" where
  "validate_acceptances input =
     (let accepted = map acc_ID (Acceptances input)
      in err_then (validate_acceptance_list [] (Acceptances input))
        (err_then (first_error (evidence_acceptance accepted) (Evidence input))
         (first_error (mutant_acceptance accepted) (Mutants input))))"

definition validate_verdict_scope :: "report \<Rightarrow> report_error option" where
  "validate_verdict_scope input =
     (if RunKind input = [] then None
      else (let resolved = sc_Kind (Resolved (Scope input)); verdict = Verdict input
        in if verdict = VerdictAssured then
             (if resolved \<noteq> RunFull then Some (AssuredNotFull resolved) else None)
           else if verdict = VerdictChangeAssured then
             (if RunKind input \<noteq> RunChangeset \<or> resolved \<noteq> RunChangeset then Some ChangeAssuredScope else None)
           else if verdict = VerdictScopeAssured then
             (if RunKind input \<noteq> RunPackage \<or> resolved \<noteq> RunPackage then Some ScopeAssuredScope else None)
           else if verdict = VerdictReproduced \<or> verdict = VerdictResolved then
             (if RunKind input \<noteq> RunReplay then Some ReplayVerdict else None)
           else if verdict = VerdictCompleted then
             (if RunKind input \<noteq> RunOperation then Some CompletedVerdict else None)
           else None))"

definition known_verdict :: "string \<Rightarrow> bool" where
  "known_verdict verdict =
     (verdict \<in> {[], VerdictAssured, VerdictChangeAssured, VerdictScopeAssured, VerdictDefect,
        VerdictInsufficient, VerdictError, VerdictReproduced, VerdictResolved} \<or>
      verdict = VerdictCompleted)"

definition known_run_kind :: "string \<Rightarrow> bool" where
  "known_run_kind kind = (kind \<in> {RunFull, RunChangeset, RunPackage, RunReplay, RunOperation})"

definition validate_resume :: "report \<Rightarrow> report_error option" where
  "validate_resume input =
     (case Resume input of
        None \<Rightarrow> None
      | Some r \<Rightarrow>
          if Attempts r < 1 \<or> ReusedTargets r < 0 \<or> ReusedRacePackages r < 0 \<or> ReusedMutants r < 0
          then Some ResumeInvalid
          else if ReusedTargets r > cSelected (acc_Targets (Accounting input)) \<or>
                  ReusedRacePackages r > cSelected (acc_Race (Accounting input)) \<or>
                  ReusedMutants r > mSelected (acc_Mutants (Accounting input))
          then Some ResumeExceeds else None)"

definition validate :: "report \<Rightarrow> report_error option" where
  "validate input =
     (if Schema input \<noteq> SchemaV1 then Some (BadSchema (Schema input))
      else if \<not> known_verdict (Verdict input) then Some (BadVerdict (Verdict input))
      else err_then (validate_count ''targets'' (acc_Targets (Accounting input)))
        (err_then (validate_count ''race'' (acc_Race (Accounting input)))
        (err_then (validate_targets (acc_Targets (Accounting input)) (Targets input))
        (err_then (validate_resume input)
        (err_then (validate_mutants (acc_Mutants (Accounting input)) (Mutants input) (Verdict input))
        (err_then (first_error (\<lambda>item.
            if ev_Kind item = ''mutation'' \<and> ev_Status item = ''compile-equivalent''
            then Some CompileEquivalent else None) (Evidence input))
        (err_then (validate_acceptances input)
        (validate_verdict_scope input))))))))"

definition valid_sha256 :: "string \<Rightarrow> bool" where
  "valid_sha256 input =
     (length input = 64 \<and>
      list_all (\<lambda>c. CHR ''0'' \<le> c \<and> c \<le> CHR ''9'' \<or> CHR ''a'' \<le> c \<and> c \<le> CHR ''f'') input)"

definition has_limitation :: "limitation list \<Rightarrow> string \<Rightarrow> bool" where
  "has_limitation limitations code = list_ex (\<lambda>l. lim_Code l = code) limitations"

definition validate_git :: "report \<Rightarrow> report_error option" where
  "validate_git input =
     (let git = repo_Git (Repository input)
      in if git_Commit git = [] \<or> git_MergeBase git = [] then Some MissingGit
         else if \<not> git_Available git then
           (if git_Commit git \<noteq> ''unavailable'' \<or> git_MergeBase git \<noteq> ''unavailable'' \<or>
               git_Dirty git \<or> git_ChangedFiles git \<noteq> [] then Some PartialGit
            else if \<not> has_limitation (Limitations input) ''git-metadata-unavailable''
              then Some GitLimitationMissing
            else None)
         else if git_Commit git = ''unavailable'' \<or> git_MergeBase git = ''unavailable''
           then Some GitSentinel
         else None)"

definition validate_timing :: "report \<Rightarrow> report_error option" where
  "validate_timing input =
     (case parse_rfc3339 (StartedAt (Timing input)) of
        None \<Rightarrow> Some BadStartedAt
      | Some started \<Rightarrow>
          (case parse_rfc3339 (FinishedAt (Timing input)) of
             None \<Rightarrow> Some BadFinishedAt
           | Some finished \<Rightarrow>
               if finished < started \<or> DurationMS (Timing input) < 0 then Some BadTiming
               else first_error (\<lambda>a.
                 case parse_rfc3339 (acc_Expires a) of
                   Some expires \<Rightarrow> if \<not> expires > started then Some (AcceptanceExpired (acc_ID a)) else None
                 | None \<Rightarrow> Some (AcceptanceExpired (acc_ID a))) (Acceptances input)))"

definition validate_for_persistence :: "report \<Rightarrow> report_error option" where
  "validate_for_persistence input =
     err_then (validate input)
     (if RunID input = [] then Some MissingRunID
      else if RunKind input = [] then Some MissingRunKind
      else if \<not> known_run_kind (RunKind input) then Some (UnknownRunKind (RunKind input))
      else if Verdict input = [] then Some MissingVerdict
      else if trim_space (Contract input) = [] then Some MissingContract
      else if trim_space (Snapshot input) = [] then Some MissingSnapshot
      else if sc_Kind (Requested (Scope input)) = [] \<or> sc_Kind (Resolved (Scope input)) = []
        then Some MissingScope
      else if sc_Project (Requested (Scope input)) = [] \<or> sc_Project (Resolved (Scope input)) = []
        then Some MissingProject
      else if repo_Module (Repository input) = [] then Some MissingModule
      else if \<not> valid_sha256 (ConfigurationDigest input) then Some BadConfigurationDigest
      else if MutationJobs (Execution input) < 0 \<or> CommandTimeoutNS (Execution input) < 0 \<or>
              TargetTimeoutNS (Execution input) < 0 then Some ExecutionNegative
      else if tc_Go (Toolchain input) = [] \<or> tc_Goatest (Toolchain input) = [] \<or>
              tc_GoMutants (Toolchain input) = [] \<or> tc_OS (Toolchain input) = [] \<or>
              tc_Arch (Toolchain input) = [] then Some MissingToolchain
      else err_then (validate_git input)
        (err_then (validate_timing input)
        (if Derived (Cache input) \<and> SourceRunID (Cache input) = [] then Some MissingSourceRun
         else if \<not> Derived (Cache input) \<and> SourceRunID (Cache input) \<noteq> [] then Some UnexpectedSourceRun
         else None)))"


section \<open>What the audit of the mutants accepts\<close>

definition with_status :: "string \<Rightarrow> mutant_disposition list \<Rightarrow> int" where
  "with_status s ds = int (length (filter (\<lambda>d. md_Status d = s) ds))"

definition reused_with_status :: "string \<Rightarrow> mutant_disposition list \<Rightarrow> int" where
  "reused_with_status s ds = int (length (filter (\<lambda>d. md_Status d = s \<and> md_Reused d) ds))"

text \<open>The accounting that counts a list of dispositions, from any starting point.\<close>

definition counted :: "mutant_accounting \<Rightarrow> mutant_disposition list \<Rightarrow> mutant_accounting" where
  "counted c ds =
     c\<lparr>mSelected := mSelected c + with_status MutantKilled ds + with_status MutantSurvived ds +
         with_status MutantInconclusive ds + with_status MutantCompileRejected ds +
         with_status MutantAccepted ds + with_status MutantUnknown ds,
       mExecuted := mExecuted c + with_status MutantKilled ds + with_status MutantSurvived ds +
         with_status MutantInconclusive ds,
       mKilled := mKilled c + with_status MutantKilled ds,
       mSurvived := mSurvived c + with_status MutantSurvived ds,
       mInconclusive := mInconclusive c + with_status MutantInconclusive ds,
       mCompileRejected := mCompileRejected c + with_status MutantCompileRejected ds,
       mAccepted := mAccepted c + with_status MutantAccepted ds,
       mOutOfScope := mOutOfScope c + with_status MutantOutOfScope ds,
       mUnknown := mUnknown c + with_status MutantUnknown ds,
       mReusedKilled := mReusedKilled c + reused_with_status MutantKilled ds,
       mReusedSurvived := mReusedSurvived c + reused_with_status MutantSurvived ds\<rparr>"

definition mutant_statuses :: "string list" where
  "mutant_statuses = [MutantKilled, MutantSurvived, MutantInconclusive, MutantCompileRejected,
     MutantAccepted, MutantOutOfScope, MutantUnknown]"

definition good_disposition :: "mutant_disposition \<Rightarrow> bool" where
  "good_disposition d \<longleftrightarrow>
     md_ID d \<noteq> [] \<and> 0 \<le> md_Line d \<and> md_Status d \<in> set mutant_statuses \<and> validate_reuse d = None"

lemma counted_Nil [simp]: "counted c [] = c"
  by (simp add: counted_def with_status_def reused_with_status_def)

lemma observe_status_counted:
  "observe_status d c = (if md_Status d \<in> set mutant_statuses then Some (counted c [d]) else None)"
  by (auto simp: observe_status_def counted_def with_status_def reused_with_status_def mutant_statuses_def)

lemma counted_Cons: "counted (counted c [d]) ds = counted c (d # ds)"
  by (simp add: counted_def with_status_def reused_with_status_def)

lemma observe_mutants_Inr:
  "observe_mutants seen c ds = Inr c' \<longleftrightarrow>
     (\<forall>d \<in> set ds. good_disposition d) \<and> distinct (map md_ID ds) \<and>
     set (map md_ID ds) \<inter> set seen = {} \<and> c' = counted c ds"
proof (induction seen c ds rule: observe_mutants.induct)
  case (2 seen observed d rest)
  show ?case
  proof (cases "good_disposition d \<and> md_ID d \<notin> set seen")
    case True
    then have step: "observe_mutants seen observed (d # rest) =
        observe_mutants (md_ID d # seen) (counted observed [d]) rest"
      and reuse: "validate_reuse d = None" and status: "observe_status d observed = Some (counted observed [d])"
      by (simp_all add: good_disposition_def observe_status_counted)
    from 2 True reuse status show ?thesis
      unfolding step by (auto simp: good_disposition_def counted_Cons)
  next
    case False
    then show ?thesis
      by (auto simp: good_disposition_def observe_status_counted split: option.splits)
  qed
qed auto

lemma with_status_nonneg [simp]: "0 \<le> with_status s ds" "0 \<le> reused_with_status s ds"
  by (simp_all add: with_status_def reused_with_status_def)

lemma reused_le: "reused_with_status s ds \<le> with_status s ds"
proof -
  have "length (filter (\<lambda>d. md_Status d = s \<and> md_Reused d) ds) \<le> length (filter (\<lambda>d. md_Status d = s) ds)"
    by (induction ds) auto
  then show ?thesis by (simp add: with_status_def reused_with_status_def)
qed

lemma statuses_partition:
  "\<forall>d \<in> set ds. md_Status d \<in> set mutant_statuses \<Longrightarrow>
   int (length ds) = with_status MutantKilled ds + with_status MutantSurvived ds +
     with_status MutantInconclusive ds + with_status MutantCompileRejected ds +
     with_status MutantAccepted ds + with_status MutantOutOfScope ds + with_status MutantUnknown ds"
proof (induction ds)
  case (Cons d ds)
  then have "md_Status d \<in> set mutant_statuses" by simp
  then show ?case using Cons by (auto simp: with_status_def mutant_statuses_def)
qed (simp add: with_status_def)

definition inventory_accounting :: "mutant_disposition list \<Rightarrow> mutant_accounting" where
  "inventory_accounting ds = counted (no_mutants (int (length ds))) ds"

lemma inventory_fields [simp]:
  "mDiscovered (inventory_accounting ds) = int (length ds)"
  "mSelected (inventory_accounting ds) = with_status MutantKilled ds + with_status MutantSurvived ds +
     with_status MutantInconclusive ds + with_status MutantCompileRejected ds +
     with_status MutantAccepted ds + with_status MutantUnknown ds"
  "mExecuted (inventory_accounting ds) = with_status MutantKilled ds + with_status MutantSurvived ds +
     with_status MutantInconclusive ds"
  "mKilled (inventory_accounting ds) = with_status MutantKilled ds"
  "mSurvived (inventory_accounting ds) = with_status MutantSurvived ds"
  "mInconclusive (inventory_accounting ds) = with_status MutantInconclusive ds"
  "mCompileRejected (inventory_accounting ds) = with_status MutantCompileRejected ds"
  "mAccepted (inventory_accounting ds) = with_status MutantAccepted ds"
  "mOutOfScope (inventory_accounting ds) = with_status MutantOutOfScope ds"
  "mUnknown (inventory_accounting ds) = with_status MutantUnknown ds"
  "mReusedKilled (inventory_accounting ds) = reused_with_status MutantKilled ds"
  "mReusedSurvived (inventory_accounting ds) = reused_with_status MutantSurvived ds"
  by (simp_all add: inventory_accounting_def counted_def no_mutants_def)

lemma validate_mutants_None:
  "validate_mutants c ds verdict = None \<longleftrightarrow>
     (\<forall>d \<in> set ds. good_disposition d) \<and> distinct (map md_ID ds) \<and>
     c = inventory_accounting ds \<and> (with_status MutantUnknown ds \<noteq> 0 \<longrightarrow> verdict = VerdictError)"
proof
  assume none: "validate_mutants c ds verdict = None"
  then obtain observed where run: "observe_mutants [] (no_mutants (int (length ds))) ds = Inr observed"
    and c: "c = observed" and unknown: "mUnknown c \<noteq> 0 \<longrightarrow> verdict = VerdictError"
    unfolding validate_mutants_def by (cases "observe_mutants [] (no_mutants (int (length ds))) ds") (auto split: if_splits)
  from run have good: "\<forall>d \<in> set ds. good_disposition d" and ids: "distinct (map md_ID ds)"
    and count: "c = inventory_accounting ds"
    by (simp_all add: observe_mutants_Inr c inventory_accounting_def)
  have "mUnknown c = with_status MutantUnknown ds" unfolding count by simp
  with unknown good ids count show "(\<forall>d \<in> set ds. good_disposition d) \<and> distinct (map md_ID ds) \<and>
     c = inventory_accounting ds \<and> (with_status MutantUnknown ds \<noteq> 0 \<longrightarrow> verdict = VerdictError)"
    by simp
next
  assume accepted: "(\<forall>d \<in> set ds. good_disposition d) \<and> distinct (map md_ID ds) \<and>
     c = inventory_accounting ds \<and> (with_status MutantUnknown ds \<noteq> 0 \<longrightarrow> verdict = VerdictError)"
  then have observed: "observe_mutants [] (no_mutants (int (length ds))) ds = Inr c"
    by (simp add: observe_mutants_Inr inventory_accounting_def)
  have c: "c = inventory_accounting ds" using accepted by simp
  have total: "int (length ds) = with_status MutantKilled ds + with_status MutantSurvived ds +
     with_status MutantInconclusive ds + with_status MutantCompileRejected ds +
     with_status MutantAccepted ds + with_status MutantOutOfScope ds + with_status MutantUnknown ds"
    using accepted by (intro statuses_partition) (auto simp: good_disposition_def)
  have reuse: "\<not> mReusedKilled c + mReusedSurvived c > mExecuted c"
    using reused_le [of MutantKilled ds] reused_le [of MutantSurvived ds]
      with_status_nonneg(1) [of MutantInconclusive ds] unfolding c inventory_fields by linarith
  have nonneg: "\<not> list_ex (\<lambda>value. value < 0) (mutant_values c)"
    unfolding c by (simp add: mutant_values_def not_less)
  have "\<not> (mUnknown c \<noteq> 0 \<and> verdict \<noteq> VerdictError)" using accepted unfolding c inventory_fields by blast
  with nonneg reuse observed total show "validate_mutants c ds verdict = None"
    unfolding validate_mutants_def by (simp add: c)
qed

text \<open>
  C6. The audit of the mutants accepts exactly the inventories whose entries are well
  formed and distinct and whose accounting is the count of the entries by status, with an
  unexplained mutant under an ERROR verdict only. The arithmetic checks that come before the
  inventory is counted reject nothing that is consistent.
\<close>

theorem validate_mutants_iff:
  "validate_mutants c ds verdict = None \<longleftrightarrow>
     (\<forall>d \<in> set ds. good_disposition d) \<and> distinct (map md_ID ds) \<and>
     c = inventory_accounting ds \<and> (with_status MutantUnknown ds \<noteq> 0 \<longrightarrow> verdict = VerdictError)"
  by (rule validate_mutants_None)

theorem validate_mutants_iff_witness:
  "\<exists>c ds. ds \<noteq> [] \<and> validate_mutants c ds VerdictInsufficient = None"
proof -
  let ?d = "\<lparr>md_ID = ''m1'', md_Status = MutantSurvived, md_Path = ''a.go'', md_Line = 3, md_Package = ''p'',
      md_Rule = ''r'', md_Detail = [], md_Reused = True, md_Provenance = ''snapshot=1''\<rparr>"
  have "validate_mutants (inventory_accounting [?d]) [?d] VerdictInsufficient = None"
    unfolding validate_mutants_iff
    by (simp add: good_disposition_def validate_reuse_def mutant_statuses_def with_status_def)
  then show ?thesis by blast
qed

section \<open>What a persisted report guarantees\<close>

lemma validate_acceptance_list_None:
  "validate_acceptance_list seen xs = None \<Longrightarrow>
     (\<forall>a \<in> set xs. trim_space (acc_ID a) \<noteq> [] \<and> trim_space (acc_Reason a) \<noteq> [] \<and>
        parse_rfc3339 (acc_Expires a) \<noteq> None) \<and>
     distinct (map acc_ID xs) \<and> set (map acc_ID xs) \<inter> set seen = {}"
proof (induction xs arbitrary: seen)
  case (Cons a xs)
  from Cons.prems have "trim_space (acc_ID a) \<noteq> []" "trim_space (acc_Reason a) \<noteq> []"
    "parse_rfc3339 (acc_Expires a) \<noteq> None" "acc_ID a \<notin> set seen"
    and rest: "validate_acceptance_list (acc_ID a # seen) xs = None"
    by (simp_all split: if_split_asm)
  with Cons.IH [OF rest] show ?case by auto
qed simp

lemma acceptances_cover:
  assumes "validate_acceptances r = None" and "d \<in> set (Mutants r)" and "md_Status d = MutantAccepted"
  shows "\<exists>a \<in> set (Acceptances r). acc_ID a = md_Detail d"
proof -
  from assms(1,2) have "mutant_acceptance (map acc_ID (Acceptances r)) d = None"
    by (simp add: validate_acceptances_def Let_def)
  with assms(3) show ?thesis by (auto simp: mutant_acceptance_def split: if_splits)
qed

lemma validate_None:
  "validate r = None \<Longrightarrow>
     validate_mutants (acc_Mutants (Accounting r)) (Mutants r) (Verdict r) = None \<and>
     validate_acceptances r = None \<and> validate_verdict_scope r = None \<and>
     validate_targets (acc_Targets (Accounting r)) (Targets r) = None"
  unfolding validate_def if_error_None err_then_None by (elim conjE) (intro conjI; assumption)

lemma persistence_None:
  "validate_for_persistence r = None \<Longrightarrow>
     validate r = None \<and> RunKind r \<noteq> [] \<and> validate_timing r = None \<and> validate_git r = None"
  unfolding validate_for_persistence_def if_error_None err_then_None
  by (elim conjE) (intro conjI; assumption)

text \<open>
  A report that passes the audit for persistence with the verdict ASSURED resolved the
  full scope, explains every mutant it discovered, and covers every accepted mutant by an
  acceptance that had not expired when the run started.
\<close>

theorem persisted_assured:
  assumes "validate_for_persistence r = None" and "Verdict r = VerdictAssured"
  shows "sc_Kind (Resolved (Scope r)) = RunFull \<and>
    mUnknown (acc_Mutants (Accounting r)) = 0 \<and>
    (\<forall>d \<in> set (Mutants r). md_Status d \<noteq> MutantUnknown) \<and>
    (\<forall>d \<in> set (Mutants r). md_Status d = MutantAccepted \<longrightarrow>
       (\<exists>a \<in> set (Acceptances r). acc_ID a = md_Detail d \<and>
          (\<exists>started expires. parse_rfc3339 (StartedAt (Timing r)) = Some started \<and>
             parse_rfc3339 (acc_Expires a) = Some expires \<and> started < expires)))"
proof -
  from persistence_None [OF assms(1)] have v: "validate r = None" and kind: "RunKind r \<noteq> []"
    and timing: "validate_timing r = None" by auto
  from validate_None [OF v] have mutants: "validate_mutants (acc_Mutants (Accounting r)) (Mutants r) (Verdict r) = None"
    and acc: "validate_acceptances r = None" and scope: "validate_verdict_scope r = None" by auto
  have full: "sc_Kind (Resolved (Scope r)) = RunFull"
    using scope kind assms(2) by (simp add: validate_verdict_scope_def Let_def split: if_splits)
  from mutants assms(2) have none: "with_status MutantUnknown (Mutants r) = 0"
    and count: "acc_Mutants (Accounting r) = inventory_accounting (Mutants r)"
    by (simp_all add: validate_mutants_None)
  from none have no_unknown: "\<forall>d \<in> set (Mutants r). md_Status d \<noteq> MutantUnknown"
    by (simp add: with_status_def filter_empty_conv)
  have unknown0: "mUnknown (acc_Mutants (Accounting r)) = 0"
    using none unfolding count by simp
  from timing obtain started where started: "parse_rfc3339 (StartedAt (Timing r)) = Some started"
    and unexpired: "\<forall>a \<in> set (Acceptances r). \<exists>e. parse_rfc3339 (acc_Expires a) = Some e \<and> started < e"
    by (auto simp: validate_timing_def split: option.splits if_splits)
  with acceptances_cover [OF acc] full unknown0 no_unknown show ?thesis by metis
qed


definition sample_mutant :: mutant_disposition where
  "sample_mutant = \<lparr>md_ID = ''m1'', md_Status = MutantAccepted, md_Path = ''a.go'', md_Line = 3,
     md_Package = ''p'', md_Rule = ''r'', md_Detail = ''f1'', md_Reused = False, md_Provenance = []\<rparr>"

definition sample_assured :: report where
  "sample_assured = blank_report\<lparr>
     RunID := ''run1'', RunKind := RunFull, Verdict := VerdictAssured, Contract := ''standard-v1'',
     Snapshot := ''s'',
     Repository := \<lparr>repo_Module = ''m'', repo_Packages = [],
       repo_Git = \<lparr>git_Available = True, git_Commit = ''c'', git_Dirty = False, git_MergeBase = ''c'',
         git_ChangedFiles = []\<rparr>\<rparr>,
     ConfigurationDigest := replicate 64 (CHR ''a''),
     Toolchain := \<lparr>tc_Go = ''go1.27'', tc_Goatest = ''v1'', tc_GoMutants = ''v1'', tc_OS = ''linux'', tc_Arch = ''arm64''\<rparr>,
     Timing := \<lparr>StartedAt = ''2026-07-01T10:00:00Z'', FinishedAt = ''2026-07-01T10:00:01.5Z'', DurationMS = 1500\<rparr>,
     Accounting := (Accounting blank_report)\<lparr>acc_Mutants := inventory_accounting [sample_mutant]\<rparr>,
     Mutants := [sample_mutant],
     Acceptances := [\<lparr>acc_ID = ''f1'', acc_Reason = ''equivalent'', acc_Expires = ''2026-12-31T00:00:00+09:00'',
       acc_Owner = [], acc_Ticket = []\<rparr>]\<rparr>"

theorem persisted_assured_witness:
  "validate_for_persistence sample_assured = None \<and>
   (\<exists>a \<in> set (Acceptances sample_assured). acc_ID a = ''f1'')"
proof -
  have ok: "validate_for_persistence sample_assured = None" by code_simp
  have verdict: "Verdict sample_assured = VerdictAssured" by (simp add: sample_assured_def)
  from persisted_assured [OF ok verdict] show ?thesis
    using ok by (auto simp: sample_assured_def sample_mutant_def)
qed

end
