(* ===== verification/Evaluation.thy ===== *)
theory Evaluation
  imports RepositoryObservation ReportAudit
begin

text \<open>
  Evaluating one mutant (\<open>internal/assure/mutation.go\<close>): the controls that bound its
  execution, the execution under a measured budget, the groups of targets it is run against,
  and the evidence or finding that settles it. The mutation session (the go-mutants library)
  and the original commands are functions of a state of the world; a call returns its answer
  and the next state. The state the evaluation threads holds, beside the world, what the
  source mutates: the run's evidence, the memoized controls, and the records it traces.
\<close>

section \<open>Summaries\<close>

definition s_survived :: string where
  "s_survived = ''all reaching tests passed with this mutation active''"
definition s_fully_discharged_opening :: string where
  "s_fully_discharged_opening = ''no reaching test was run: every one was discharged because ''"
definition s_branch_clause :: string where
  "s_branch_clause = ''none takes the branch this mutation narrows''"
definition s_infection_clause :: string where
  "s_infection_clause = ''none makes the mutated value differ''"
definition s_unreached :: string where
  "s_unreached = ''no measured top-level target reached this mutation; its package suite survived''"
definition s_suite_unreached :: string where
  "s_suite_unreached = ''the measured package suite never reached this mutation''"
definition s_suite_uninfected :: string where
  "s_suite_uninfected =
     ''no measured top-level target reached this mutation; its measured package suite never made the mutated value differ''"
definition s_suite_timeout :: string where
  "s_suite_timeout = ''package suite exhausted its execution budget; the mutation outcome is unknown''"
definition s_suite_inconclusive :: string where
  "s_suite_inconclusive = ''package suite could not establish an outcome for an unreached mutation''"
definition s_suite_control_timeout :: string where
  "s_suite_control_timeout = ''the original package suite timed out before the mutation could be evaluated''"
definition s_suite_control_failure :: string where
  "s_suite_control_failure = ''the original package suite failed before the mutation could be evaluated''"
definition s_target_timeout :: string where
  "s_target_timeout = ''compatible execution group exhausted its execution budget while this mutation was active''"
definition s_target_inconclusive :: string where
  "s_target_inconclusive = ''compatible execution group could not establish a deterministic mutation outcome''"
definition s_target_control_timeout :: string where
  "s_target_control_timeout = ''the exact original execution group timed out before the mutation could be evaluated''"
definition s_target_control_failure :: string where
  "s_target_control_failure = ''the exact original execution group failed before the mutation could be evaluated''"
definition s_control_unavailable :: string where
  "s_control_unavailable = ''no positive clean observation is available to bound mutation execution''"

text \<open>How many targets were discharged for each reason, and what is said of them.\<close>

record discharge_counts =
  dc_branch :: int
  dc_infection :: int

definition count_mutation_discharges :: "discharge list \<Rightarrow> discharge_counts" where
  "count_mutation_discharges discharged =
     fold (\<lambda>d counts. if d_Reason d = never_infected
                      then counts\<lparr>dc_infection := dc_infection counts + 1\<rparr>
                      else counts\<lparr>dc_branch := dc_branch counts + 1\<rparr>)
       discharged \<lparr>dc_branch = 0, dc_infection = 0\<rparr>"

definition counts_total :: "discharge_counts \<Rightarrow> int" where
  "counts_total counts = dc_branch counts + dc_infection counts"

definition counts_clause :: "discharge_counts \<Rightarrow> string" where
  "counts_clause counts =
     (if dc_infection counts = 0 then s_branch_clause
      else if dc_branch counts = 0 then s_infection_clause
      else itoa (dc_branch counts) @ '' take no branch this mutation narrows and '' @
           itoa (dc_infection counts) @ '' never make the mutated value differ'')"

definition partly_discharged_opening :: "int \<Rightarrow> string" where
  "partly_discharged_opening n = s_survived @ ''; '' @ itoa n @ '' more discharged without running because ''"

definition mutation_survival_summary :: "discharge list \<Rightarrow> string" where
  "mutation_survival_summary discharged =
     (let counts = count_mutation_discharges discharged in
      if counts_total counts = 0 then s_survived
      else if dc_infection counts = 0 then partly_discharged_opening (counts_total counts) @ s_branch_clause
      else partly_discharged_opening (counts_total counts) @ counts_clause counts)"

definition mutation_discharged_summary :: "discharge list \<Rightarrow> string" where
  "mutation_discharged_summary discharged =
     (let counts = count_mutation_discharges discharged in
      if dc_infection counts = 0 then s_fully_discharged_opening @ s_branch_clause
      else s_fully_discharged_opening @ counts_clause counts)"

section \<open>The summary of a command's output\<close>

text \<open>
  \<open>[]rune(s)\<close>: how many bytes the next rune takes and its bytes when it is written back; a
  byte that starts no well-formed sequence is one replacement character.
\<close>

definition byte :: "char \<Rightarrow> nat" where "byte c = of_char c"

definition cont :: "nat \<Rightarrow> nat \<Rightarrow> char \<Rightarrow> bool" where
  "cont lo hi c = (lo \<le> byte c \<and> byte c \<le> hi)"

definition replacement :: string where
  "replacement = [CHR 0xEF, CHR 0xBF, CHR 0xBD]"

definition rune_of :: "string \<Rightarrow> nat \<times> string" where
  "rune_of s =
     (case s of
        [] \<Rightarrow> (0, [])
      | a # r1 \<Rightarrow>
          if byte a < 0x80 then (1, [a])
          else (case r1 of
            [] \<Rightarrow> (1, replacement)
          | b # r2 \<Rightarrow>
              if 0xC2 \<le> byte a \<and> byte a \<le> 0xDF then
                (if cont 0x80 0xBF b then (2, [a, b]) else (1, replacement))
              else (case r2 of
                [] \<Rightarrow> (1, replacement)
              | c # r3 \<Rightarrow>
                  if 0xE0 \<le> byte a \<and> byte a \<le> 0xEF then
                    (if cont (if byte a = 0xE0 then 0xA0 else 0x80) (if byte a = 0xED then 0x9F else 0xBF) b \<and>
                        cont 0x80 0xBF c then (3, [a, b, c]) else (1, replacement))
                  else (case r3 of
                    [] \<Rightarrow> (1, replacement)
                  | d # _ \<Rightarrow>
                      if 0xF0 \<le> byte a \<and> byte a \<le> 0xF4 \<and>
                         cont (if byte a = 0xF0 then 0x90 else 0x80) (if byte a = 0xF4 then 0x8F else 0xBF) b \<and>
                         cont 0x80 0xBF c \<and> cont 0x80 0xBF d then (4, [a, b, c, d])
                      else (1, replacement)))))"

lemma rune_of_positive: "s \<noteq> [] \<Longrightarrow> 0 < fst (rune_of s)"
  by (auto simp: rune_of_def split: list.split)

function runes :: "string \<Rightarrow> string list" where
  "runes s = (if s = [] then [] else snd (rune_of s) # runes (drop (fst (rune_of s)) s))"
  by pat_completeness auto
termination
  by (relation "measure length") (auto simp: rune_of_positive)

declare runes.simps [simp del]

definition summarize :: "string \<Rightarrow> string" where
  "summarize output =
     (let trimmed = trim_space output in
      if trimmed = [] then ''no output''
      else let rs = runes trimmed in
           if length rs > 512 then concat (take 512 rs) @ [CHR 0xE2, CHR 0x80, CHR 0xA6] else trimmed)"

section \<open>What the evaluation is given\<close>

datatype outcome =
    OutcomeKilled
  | OutcomeSurvived
  | OutcomeTimedOut
  | OutcomeInconclusive
  | OutcomeErrored
  | OutcomeNotRun
  | OutcomeOther string

record mutant_result =
  res_Outcome :: outcome
  res_OutputTail :: string

record command_result =
  com_TimedOut :: bool
  com_ExitCode :: int
  com_Output :: string
  com_Duration :: int

record mutation_evaluation =
  mv_Evidence :: "evidence list"
  mv_Findings :: "finding list"
  mv_Accounting :: mutant_accounting
  mv_Mutants :: "mutant_disposition list"
  mv_Provenance :: string

definition zero_accounting :: mutant_accounting where
  "zero_accounting = no_mutants 0"

definition empty_evaluation :: mutation_evaluation where
  "empty_evaluation =
     \<lparr>mv_Evidence = [], mv_Findings = [], mv_Accounting = zero_accounting, mv_Mutants = [], mv_Provenance = []\<rparr>"

record mutation_options =
  op_ReplayMutantID :: string
  op_TestArgs :: "string list"
  op_Timeout :: int
  op_Jobs :: int
  op_Accepted :: "string \<Rightarrow> bool"
  op_Resume :: "(string \<times> mutation_evaluation) list"
  op_Instrumented :: "file_coverage list"
  op_Observer :: "repository_observer option"
  op_SuiteProbes :: "string \<rightharpoonup> package_probe_evidence"
  op_SuiteCoverage :: "string \<rightharpoonup> package_suite_coverage"
  op_SuiteEnvironment :: "string list"

text \<open>
  The session and the original commands: \<open>Inl\<close> is an error. The control is optional, as the
  option of the source is. The files are those of the repository observer.
\<close>

record 'w session =
  se_exec :: "'w \<Rightarrow> exec_request \<Rightarrow> (string + mutant_result) \<times> 'w"
  se_control :: "('w \<Rightarrow> exec_request \<Rightarrow> (string + command_result) \<times> 'w) option"
  se_files :: "'w log_files"
  se_sha :: "string \<Rightarrow> string"

record execution_trace =
  xt_Request :: exec_request
  xt_Reply :: "string + mutant_result"
  xt_Reason :: whole_tree_reason

record 'w evaluation_state =
  es_world :: 'w
  es_evidence :: "mutation_evidence option"
  es_controls :: "(string \<times> (string + command_result)) list"
  es_routes :: "route_record list"
  es_executions :: "execution_trace list"
  es_checkpoints :: "(string \<times> mutation_evaluation) list"

datatype evaluation_error =
    EmptyMutantID
  | CatalogDuplicateMutant string
  | RejectionAbsent string
  | CatalogDuplicateRejection string
  | ExecutableAndRejected string
  | NoRejection string
  | ReplayAbsent string
  | SuiteControlError string string
  | BudgetControlError string string
  | ExecuteUnreachedError string string
  | ExecuteError string string string
  | OutcomeProtocolError string outcome
  | UnknownOutcome string string

section \<open>Findings and kills\<close>

definition mutation_finding :: "(string \<Rightarrow> string) \<Rightarrow> mutant \<Rightarrow> string \<Rightarrow> string \<Rightarrow> finding" where
  "mutation_finding sha mutant kind summary =
     (let i = finding_id sha [''mutation'', mu_ID mutant] in
      \<lparr>f_ID = i, f_Kind = kind, f_Path = mu_Path mutant, f_Line = mu_Line mutant, f_Summary = summary,
       f_Replay = ''goatest replay '' @ i,
       f_Mutant = mu_Rule mutant @ '': '' @ mu_Original mutant @ '' -> '' @ mu_Replacement mutant,
       f_MutantID = mu_ID mutant\<rparr>)"

definition add_kill :: "mutant \<Rightarrow> string \<Rightarrow> mutation_evaluation \<Rightarrow> mutation_evaluation" where
  "add_kill mutant detail evaluation =
     evaluation\<lparr>mv_Evidence := mv_Evidence evaluation @
       [\<lparr>ev_Kind = ''mutation'', ev_ID = mu_ID mutant, ev_Status = ''killed'', ev_Detail = detail\<rparr>]\<rparr>"

definition add_finding ::
  "(string \<Rightarrow> string) \<Rightarrow> (string \<Rightarrow> bool) \<Rightarrow> mutant \<Rightarrow> string \<Rightarrow> string \<Rightarrow> mutation_evaluation \<Rightarrow> mutation_evaluation" where
  "add_finding sha accepted mutant kind summary evaluation =
     (let finding = mutation_finding sha mutant kind summary in
      if accepted (f_ID finding)
      then evaluation\<lparr>mv_Evidence := mv_Evidence evaluation @
             [\<lparr>ev_Kind = ''mutation'', ev_ID = mu_ID mutant, ev_Status = ''accepted'', ev_Detail = f_ID finding\<rparr>]\<rparr>
      else evaluation\<lparr>mv_Findings := mv_Findings evaluation @ [finding]\<rparr>)"

definition append_evaluation :: "mutation_evaluation \<Rightarrow> mutation_evaluation \<Rightarrow> mutation_evaluation" where
  "append_evaluation evaluation other =
     evaluation\<lparr>mv_Evidence := mv_Evidence evaluation @ mv_Evidence other,
                mv_Findings := mv_Findings evaluation @ mv_Findings other\<rparr>"

section \<open>Controls and executions\<close>

definition control_key :: "exec_request \<Rightarrow> string" where
  "control_key request =
     rq_Package request @ [nul] @ join [nul] (rq_Args request) @ [nul] @ join [nul] (rq_Env request) @ [nul] @
     itoa (rq_Timeout request)"

text \<open>
  \<open>memoizedOriginalControl\<close>: the control of a request is run once for its package, arguments,
  environment and timeout, and its answer, an error too, is remembered.
\<close>

definition original_control ::
  "('w \<Rightarrow> exec_request \<Rightarrow> (string + command_result) \<times> 'w) \<Rightarrow> exec_request \<Rightarrow> 'w evaluation_state \<Rightarrow>
   (string + command_result) \<times> 'w evaluation_state" where
  "original_control control request st =
     (case map_of (es_controls st) (control_key request) of
        Some answer \<Rightarrow> (answer, st)
      | None \<Rightarrow>
          (let (answer, w) = control (es_world st) request
           in (answer, st\<lparr>es_world := w, es_controls := (control_key request, answer) # es_controls st\<rparr>)))"

record control_finding =
  cf_kind :: string
  cf_summary :: string

definition no_control_finding :: control_finding where
  "no_control_finding = \<lparr>cf_kind = [], cf_summary = []\<rparr>"

definition unavailable_control :: control_finding where
  "unavailable_control = \<lparr>cf_kind = ''mutation-control-unavailable'', cf_summary = s_control_unavailable\<rparr>"

definition prepare_mutation_request ::
  "'w session \<Rightarrow> mutation_options \<Rightarrow> mutant \<Rightarrow> exec_request \<Rightarrow> string \<Rightarrow> string \<Rightarrow> string \<Rightarrow> string \<Rightarrow>
   'w evaluation_state \<Rightarrow> (evaluation_error + exec_request \<times> control_finding) \<times> 'w evaluation_state" where
  "prepare_mutation_request session options mutant request failure_kind failure_summary timeout_kind timeout_summary st =
     (case se_control session of
        None \<Rightarrow> (Inr (request, unavailable_control), st)
      | Some control \<Rightarrow>
          if rq_Timeout request \<le> 0 then (Inr (request, unavailable_control), st)
          else
            (case original_control control (request\<lparr>rq_Timeout := op_Timeout options\<rparr>) st of
               (Inl e, st) \<Rightarrow> (Inl (BudgetControlError (mu_DisplayID mutant) e), st)
             | (Inr answer, st) \<Rightarrow>
                 if com_TimedOut answer
                 then (Inr (request, \<lparr>cf_kind = timeout_kind, cf_summary = timeout_summary\<rparr>), st)
                 else if com_ExitCode answer \<noteq> 0
                 then (Inr (request, \<lparr>cf_kind = failure_kind,
                         cf_summary = (let output = summarize (com_Output answer) in
                           if output \<noteq> ''no output'' then failure_summary @ '': '' @ output else failure_summary)\<rparr>), st)
                 else
                   let request = request\<lparr>rq_Timeout :=
                         mutation_execution_timeout (op_Timeout options) [rq_Timeout request, com_Duration answer]\<rparr>
                   in if rq_Timeout request \<le> 0 then (Inr (request, unavailable_control), st)
                      else (Inr (request, no_control_finding), st)))"

definition execute_mutation ::
  "'w session \<Rightarrow> mutation_options \<Rightarrow> exec_request \<Rightarrow> 'w evaluation_state \<Rightarrow>
   ((string + mutant_result) \<times> repository_observation) \<times> 'w evaluation_state" where
  "execute_mutation session options request st =
     (let ((arguments, pending), w) =
        instrument_package (se_files session) (op_Observer options) (es_world st) (rq_Package request) (rq_Args request);
          (reply, w) = se_exec session w (request\<lparr>rq_Args := arguments\<rparr>);
          (observation, w) = finish_observation (se_files session) (op_Observer options) w pending;
          failed = (case reply of Inl _ \<Rightarrow> False
            | Inr result \<Rightarrow> repository_test_log_failure (res_OutputTail result) arguments);
          observation = (if failed then observation_of LogUnavailable else observation);
          reply = (if failed
            then Inl (''goatest: repository observation for mutant '' @ rq_Mutant request @ '' failed'') else reply)
      in ((reply, observation),
          st\<lparr>es_world := w, es_executions := es_executions st @
            [\<lparr>xt_Request = request, xt_Reply = reply,
              xt_Reason = whole_tree_suite_reason (op_Observer options) (rq_Package request) observation\<rparr>]\<rparr>))"

text \<open>The containment after a timeout: a fresh control, not the memoized one.\<close>

definition containment_after_healthy_control ::
  "'w session \<Rightarrow> mutation_options \<Rightarrow> exec_request \<Rightarrow> 'w evaluation_state \<Rightarrow> int option \<times> 'w evaluation_state" where
  "containment_after_healthy_control session options request st =
     (case se_control session of
        None \<Rightarrow> (None, st)
      | Some fresh \<Rightarrow>
          if rq_Timeout request \<le> 0 \<or> op_Timeout options \<le> rq_Timeout request then (None, st)
          else
            (let (answer, w) = fresh (es_world st) (request\<lparr>rq_Timeout := op_Timeout options\<rparr>);
                 st = st\<lparr>es_world := w\<rparr>
             in case answer of
                  Inl _ \<Rightarrow> (None, st)
                | Inr result \<Rightarrow>
                    if com_TimedOut result \<or> com_ExitCode result \<noteq> 0 \<or> com_Duration result \<le> 0 then (None, st)
                    else (Some (op_Timeout options), st)))"

definition execute_under_measured_budget ::
  "'w session \<Rightarrow> mutation_options \<Rightarrow> exec_request \<Rightarrow> 'w evaluation_state \<Rightarrow>
   ((string + mutant_result) \<times> repository_observation) \<times> 'w evaluation_state" where
  "execute_under_measured_budget session options request st =
     (let ((reply, observation), st) = execute_mutation session options request st
      in case reply of
           Inl _ \<Rightarrow> ((reply, observation), st)
         | Inr result \<Rightarrow>
             if res_Outcome result \<noteq> OutcomeTimedOut then ((reply, observation), st)
             else (case containment_after_healthy_control session options request st of
                     (None, st) \<Rightarrow> ((reply, observation), st)
                   | (Some ceiling, st) \<Rightarrow>
                       execute_mutation session options (request\<lparr>rq_Timeout := ceiling\<rparr>) st))"

section \<open>The executions of a route\<close>

record seed_execution =
  sx_request :: exec_request
  sx_detail :: string
  sx_plan :: string
  sx_targets :: "target_evidence list"

definition mutation_execution_for_targets :: "mutation_options \<Rightarrow> mutant \<Rightarrow> target_evidence list \<Rightarrow> seed_execution" where
  "mutation_execution_for_targets options mutant targets =
     (let request = batch_seed_request mutant targets
            (aggregate_mutation_timeout targets (op_Timeout options) (op_SuiteCoverage options) (op_SuiteProbes options))
      in \<lparr>sx_request = request\<lparr>rq_Args := rq_Args request @ op_TestArgs options\<rparr>,
          sx_detail = batch_mutation_detail targets, sx_plan = batch_mutation_plan targets, sx_targets = targets\<rparr>)"

definition mutation_seed_executions :: "mutation_options \<Rightarrow> mutant \<Rightarrow> target_evidence list \<Rightarrow> seed_execution list" where
  "mutation_seed_executions options mutant targets =
     map (mutation_execution_for_targets options mutant) (mutation_target_groups targets)"

record group_unknown =
  gu_detail :: string
  gu_finding :: control_finding

definition aggregate_mutation_unknown :: "group_unknown list \<Rightarrow> nat \<Rightarrow> control_finding" where
  "aggregate_mutation_unknown unknown groups =
     (if length unknown = 1 then gu_finding (unknown ! 0)
      else \<lparr>cf_kind = ''mutation-inconclusive'',
            cf_summary = itoa (int (length unknown)) @ '' of '' @ itoa (int groups) @
              '' compatible execution groups were inconclusive: '' @
              join ''; '' (map (\<lambda>u. gu_detail u @ '': '' @ cf_summary (gu_finding u)) unknown)\<rparr>)"

text \<open>The evidence's questions and records; a \<open>nil\<close> evidence reuses and records nothing.\<close>

definition ask_kill ::
  "(string \<Rightarrow> string) \<Rightarrow> mutant \<Rightarrow> mutation_route \<Rightarrow> 'w evaluation_state \<Rightarrow> (string \<times> string) option \<times> 'w evaluation_state" where
  "ask_kill sha mutant route st =
     (case es_evidence st of
        None \<Rightarrow> (None, st)
      | Some c \<Rightarrow> (let (answer, c) = reuse_kill sha c mutant route in (answer, st\<lparr>es_evidence := Some c\<rparr>)))"

definition ask_verdict ::
  "(string \<Rightarrow> string) \<Rightarrow> mutant \<Rightarrow> mutation_route \<Rightarrow> 'w evaluation_state \<Rightarrow>
   (finding_seed \<times> string) option \<times> 'w evaluation_state" where
  "ask_verdict sha mutant route st =
     (case es_evidence st of
        None \<Rightarrow> (None, st)
      | Some c \<Rightarrow> (let (answer, c) = reuse_verdict sha c mutant route in (answer, st\<lparr>es_evidence := Some c\<rparr>)))"

definition update_evidence :: "(mutation_evidence \<Rightarrow> mutation_evidence) \<Rightarrow> 'w evaluation_state \<Rightarrow> 'w evaluation_state" where
  "update_evidence f st = st\<lparr>es_evidence := map_option f (es_evidence st)\<rparr>"

definition trace_route :: "route_record \<Rightarrow> 'w evaluation_state \<Rightarrow> 'w evaluation_state" where
  "trace_route r st = st\<lparr>es_routes := es_routes st @ [r]\<rparr>"

section \<open>Evaluating a mutant\<close>

definition finding_only :: "'w session \<Rightarrow> mutation_options \<Rightarrow> mutant \<Rightarrow> string \<Rightarrow> string \<Rightarrow> mutation_evaluation" where
  "finding_only session options mutant kind summary =
     add_finding (se_sha session) (op_Accepted options) mutant kind summary empty_evaluation"

definition kill_only :: "mutant \<Rightarrow> string \<Rightarrow> mutation_evaluation" where
  "kill_only mutant detail = add_kill mutant detail empty_evaluation"

text \<open>The mutant no target reaches, decided by its package suite.\<close>

definition package_suite_request :: "mutation_options \<Rightarrow> mutant \<Rightarrow> mutation_route \<Rightarrow> exec_request" where
  "package_suite_request options mutant route =
     \<lparr>rq_Mutant = mu_ID mutant, rq_Package = mu_Package mutant, rq_Args = op_TestArgs options,
      rq_Env = op_SuiteEnvironment options,
      rq_Timeout = mutation_execution_timeout (op_Timeout options) [mr_suiteDuration route]\<rparr>"

definition evaluate_package_suite ::
  "'w session \<Rightarrow> mutation_options \<Rightarrow> mutant \<Rightarrow> mutation_route \<Rightarrow> 'w evaluation_state \<Rightarrow>
   (evaluation_error + mutation_evaluation) \<times> 'w evaluation_state" where
  "evaluate_package_suite session options mutant route st =
     (case prepare_mutation_request session options mutant (package_suite_request options mutant route)
             ''mutation-control-failure'' s_suite_control_failure ''mutation-control-timeout'' s_suite_control_timeout st of
        (Inl (BudgetControlError display e), st) \<Rightarrow> (Inl (SuiteControlError display e), st)
      | (Inl e, st) \<Rightarrow> (Inl e, st)
      | (Inr (request, finding), st) \<Rightarrow>
          if cf_kind finding \<noteq> []
          then (Inr (finding_only session options mutant (cf_kind finding) (cf_summary finding)), st)
          else
            (let ((reply, observation), st) = execute_under_measured_budget session options request st
             in case reply of
                  Inl e \<Rightarrow> (Inl (ExecuteUnreachedError (mu_DisplayID mutant) e), st)
                | Inr result \<Rightarrow>
                    (case res_Outcome result of
                       OutcomeKilled \<Rightarrow> (Inr (kill_only mutant (mu_Package mutant @ '' package suite'')), st)
                     | OutcomeSurvived \<Rightarrow>
                         (Inr (finding_only session options mutant ''unreached-mutant'' s_unreached),
                          update_evidence (\<lambda>c. record_unreached (se_sha session) c mutant
                            (whole_tree_suite (op_Observer options) (mu_Package mutant) observation)
                            ''unreached-mutant'' s_unreached) st)
                     | OutcomeTimedOut \<Rightarrow> (Inr (finding_only session options mutant ''mutation-timeout'' s_suite_timeout), st)
                     | OutcomeInconclusive \<Rightarrow>
                         (Inr (finding_only session options mutant ''mutation-inconclusive'' s_suite_inconclusive), st)
                     | OutcomeOther name \<Rightarrow> (Inl (UnknownOutcome (mu_DisplayID mutant) name), st)
                     | other \<Rightarrow> (Inl (OutcomeProtocolError (mu_DisplayID mutant) other), st))))"

text \<open>
  The loop over the groups: a kill ends it; a survival adds the group's targets to those
  executed; what could not be established is collected. At its end every group survived, or
  what is unknown of them is the finding.
\<close>

definition settle_groups ::
  "'w session \<Rightarrow> mutation_options \<Rightarrow> mutant \<Rightarrow> mutation_route \<Rightarrow> nat \<Rightarrow> target_evidence list \<Rightarrow> group_unknown list \<Rightarrow>
   'w evaluation_state \<Rightarrow> (evaluation_error + mutation_evaluation) \<times> 'w evaluation_state" where
  "settle_groups session options mutant route groups executed unknown st =
     (if unknown \<noteq> [] then
        (let finding = aggregate_mutation_unknown unknown groups
         in (Inr (finding_only session options mutant (cf_kind finding) (cf_summary finding)), st))
      else
        (let summary = mutation_survival_summary (mr_discharged route)
         in (Inr (finding_only session options mutant ''surviving-mutant'' summary),
             update_evidence (\<lambda>c. record_survived (se_sha session) c mutant executed ''surviving-mutant'' summary) st)))"

fun evaluate_groups ::
  "'w session \<Rightarrow> mutation_options \<Rightarrow> mutant \<Rightarrow> mutation_route \<Rightarrow> nat \<Rightarrow> seed_execution list \<Rightarrow>
   target_evidence list \<Rightarrow> group_unknown list \<Rightarrow> 'w evaluation_state \<Rightarrow>
   (evaluation_error + mutation_evaluation) \<times> 'w evaluation_state" where
  "evaluate_groups session options mutant route groups [] executed unknown st =
     settle_groups session options mutant route groups executed unknown st"
| "evaluate_groups session options mutant route groups (execution # executions) executed unknown st =
     (case prepare_mutation_request session options mutant (sx_request execution)
             ''mutation-control-failure'' s_target_control_failure ''mutation-control-timeout'' s_target_control_timeout st of
        (Inl e, st) \<Rightarrow> (Inl e, st)
      | (Inr (request, finding), st) \<Rightarrow>
          if cf_kind finding \<noteq> []
          then evaluate_groups session options mutant route groups executions executed
                 (unknown @ [\<lparr>gu_detail = sx_detail execution, gu_finding = finding\<rparr>]) st
          else
            (let ((reply, observation), st) = execute_under_measured_budget session options request st;
                 observed = apply_repository_observation (op_Observer options) observation (sx_targets execution);
                 inconclusive = (\<lambda>kind summary. unknown @
                   [\<lparr>gu_detail = sx_detail execution, gu_finding = \<lparr>cf_kind = kind, cf_summary = summary\<rparr>\<rparr>])
             in case reply of
                  Inl e \<Rightarrow> (Inl (ExecuteError (mu_DisplayID mutant) (sx_detail execution) e), st)
                | Inr result \<Rightarrow>
                    (case res_Outcome result of
                       OutcomeKilled \<Rightarrow>
                         (Inr (kill_only mutant (sx_detail execution)),
                          update_evidence (\<lambda>c. record_kill (se_sha session) c mutant observed) st)
                     | OutcomeSurvived \<Rightarrow>
                         evaluate_groups session options mutant route groups executions (executed @ observed) unknown st
                     | OutcomeTimedOut \<Rightarrow>
                         evaluate_groups session options mutant route groups executions executed
                           (inconclusive ''mutation-timeout'' s_target_timeout) st
                     | OutcomeInconclusive \<Rightarrow>
                         evaluate_groups session options mutant route groups executions executed
                           (inconclusive ''mutation-inconclusive'' s_target_inconclusive) st
                     | OutcomeOther name \<Rightarrow> (Inl (UnknownOutcome (mu_DisplayID mutant) name), st)
                     | other \<Rightarrow> (Inl (OutcomeProtocolError (mu_DisplayID mutant) other), st))))"

text \<open>
  \<open>evaluateMutationSeed\<close>. Every return without an error is resolved, so the result is the
  error or the evaluation.
\<close>

definition seed_route :: "mutation_options \<Rightarrow> mutant \<Rightarrow> target_evidence list \<Rightarrow> mutation_route" where
  "seed_route options mutant targets =
     final_route mutant targets (op_Instrumented options) (op_SuiteCoverage options) (op_SuiteProbes options)"

definition evaluate_routed ::
  "'w session \<Rightarrow> mutation_options \<Rightarrow> mutant \<Rightarrow> mutation_route \<Rightarrow> 'w evaluation_state \<Rightarrow>
   (evaluation_error + mutation_evaluation) \<times> 'w evaluation_state" where
  "evaluate_routed session options mutant route st =
     (if mr_reaching route = [] \<and> mr_discharged route \<noteq> [] then
        (Inr (finding_only session options mutant ''surviving-mutant'' (mutation_discharged_summary (mr_discharged route))),
         trace_route (mutation_seed_route mutant route []) st)
      else if mr_reaching route = [] then
        evaluate_package_suite session options mutant route (trace_route (mutation_seed_route mutant route []) st)
      else
        let executions = mutation_seed_executions options mutant (mr_reaching route)
        in evaluate_groups session options mutant route (length executions) executions [] []
             (trace_route (mutation_seed_route mutant route (map sx_plan executions)) st))"

definition unreached_now :: "'w session \<Rightarrow> mutation_options \<Rightarrow> mutant \<Rightarrow> mutation_route \<Rightarrow> string \<Rightarrow>
   'w evaluation_state \<Rightarrow> (evaluation_error + mutation_evaluation) \<times> 'w evaluation_state" where
  "unreached_now session options mutant route summary st =
     (Inr (finding_only session options mutant ''unreached-mutant'' summary),
      update_evidence (\<lambda>c. record_unreached (se_sha session) c mutant (mr_suiteWholeTree route) ''unreached-mutant'' summary)
        (trace_route (mutation_seed_route mutant route []) st))"

definition evaluate_mutation_seed ::
  "'w session \<Rightarrow> mutation_options \<Rightarrow> target_evidence list \<Rightarrow> mutant \<Rightarrow> 'w evaluation_state \<Rightarrow>
   (evaluation_error + mutation_evaluation) \<times> 'w evaluation_state" where
  "evaluate_mutation_seed session options targets mutant st =
     (let route = seed_route options mutant targets in
      case ask_kill (se_sha session) mutant route st of
        (Some (killer, provenance), st) \<Rightarrow>
          (Inr ((kill_only mutant killer)\<lparr>mv_Provenance := provenance\<rparr>),
           trace_route (reused_mutation_route mutant route) st)
      | (None, st) \<Rightarrow>
          if mr_reaching route = [] \<and> mr_discharged route = [] \<and> mr_suiteCoverage route \<noteq> [] \<and> \<not> mr_suiteReached route
          then unreached_now session options mutant route s_suite_unreached st
          else if mr_reaching route = [] \<and> mr_discharged route = [] \<and> mr_suiteProbe route \<noteq> [] \<and> \<not> mr_suiteInfected route
          then unreached_now session options mutant route s_suite_uninfected st
          else
            (case ask_verdict (se_sha session) mutant route st of
               (Some (seed, provenance), st) \<Rightarrow>
                 (Inr ((finding_only session options mutant (fs_Kind seed) (fs_Summary seed))\<lparr>mv_Provenance := provenance\<rparr>),
                  trace_route (reused_mutation_route mutant route) st)
             | (None, st) \<Rightarrow> evaluate_routed session options mutant route st))"

section \<open>Every answer settles its mutant\<close>

definition settles :: "string \<Rightarrow> mutation_evaluation \<Rightarrow> bool" where
  "settles i evaluation \<longleftrightarrow>
     (\<exists>status detail. status \<in> {''killed'', ''accepted''} \<and> mv_Findings evaluation = [] \<and>
        mv_Evidence evaluation = [\<lparr>ev_Kind = ''mutation'', ev_ID = i, ev_Status = status, ev_Detail = detail\<rparr>]) \<or>
     (\<exists>f. mv_Evidence evaluation = [] \<and> mv_Findings evaluation = [f] \<and> f_MutantID f = i)"

lemma settles_provenance [simp]: "settles i (evaluation\<lparr>mv_Provenance := p\<rparr>) = settles i evaluation"
  by (simp add: settles_def)

lemma settles_kill [simp]: "settles (mu_ID mutant) (kill_only mutant detail)"
  by (simp add: settles_def kill_only_def add_kill_def empty_evaluation_def)

lemma settles_finding [simp]: "settles (mu_ID mutant) (finding_only session options mutant kind summary)"
  by (simp add: settles_def finding_only_def add_finding_def empty_evaluation_def mutation_finding_def Let_def)

lemma settles_suite:
  "fst (evaluate_package_suite session options mutant route st) = Inr ev \<Longrightarrow> settles (mu_ID mutant) ev"
  by (auto simp: evaluate_package_suite_def Let_def split: prod.splits sum.splits evaluation_error.splits
      if_split_asm outcome.splits)

lemma settles_groups:
  "fst (evaluate_groups session options mutant route groups executions executed unknown st) = Inr ev \<Longrightarrow>
   settles (mu_ID mutant) ev"
proof (induction executions arbitrary: executed unknown st)
  case Nil
  then show ?case by (auto simp: settle_groups_def Let_def split: if_split_asm)
next
  case (Cons execution executions)
  from Cons.prems show ?case
    by (auto simp: Let_def dest: Cons.IH split: prod.splits sum.splits if_split_asm outcome.splits)
qed

lemma evaluate_settles:
  "fst (evaluate_mutation_seed session options targets mutant st) = Inr ev \<Longrightarrow> settles (mu_ID mutant) ev"
  by (auto simp: evaluate_mutation_seed_def evaluate_routed_def unreached_now_def Let_def
      dest: settles_suite settles_groups split: prod.splits option.splits if_split_asm)

text \<open>
  A mutant whose evaluation does not fail is settled: the evaluation holds exactly one
  answer, a kill, an acceptance or a finding, and that answer is about this mutant.
\<close>

theorem evaluate_mutation_seed_settles:
  "case fst (evaluate_mutation_seed session options targets mutant st) of
     Inl _ \<Rightarrow> True
   | Inr evaluation \<Rightarrow> settles (mu_ID mutant) evaluation"
  using evaluate_settles [of session options targets mutant st] by (cases "fst (evaluate_mutation_seed session options targets mutant st)") auto

section \<open>What an answer rests on\<close>

text \<open>The executions a step adds to the trace.\<close>

definition adds :: "(execution_trace \<Rightarrow> bool) \<Rightarrow> 'w evaluation_state \<Rightarrow> 'w evaluation_state \<Rightarrow> bool" where
  "adds P st st' \<longleftrightarrow> (\<exists>xs. es_executions st' = es_executions st @ xs \<and> list_all P xs)"

lemma adds_refl [simp]: "adds P st st"
  by (simp add: adds_def)

lemma adds_trans: "adds P st st' \<Longrightarrow> adds P st' st'' \<Longrightarrow> adds P st st''"
  by (auto simp: adds_def)

lemma adds_same: "es_executions st' = es_executions st \<Longrightarrow> adds P st st'"
  by (simp add: adds_def)

lemma adds_set: "adds P st st' \<Longrightarrow> set (es_executions st) \<subseteq> set (es_executions st')"
  by (auto simp: adds_def)

lemma es_executions_simps [simp]:
  "es_executions (update_evidence f st) = es_executions st"
  "es_executions (trace_route r st) = es_executions st"
  by (simp_all add: update_evidence_def trace_route_def)

lemma original_control_executions: "original_control control request st = (answer, st') \<Longrightarrow> es_executions st' = es_executions st"
  by (auto simp: original_control_def split: option.splits prod.splits)

lemma prepare_executions:
  "prepare_mutation_request session options mutant request fk fs tk ts st = (result, st') \<Longrightarrow>
   es_executions st' = es_executions st"
  by (auto simp: prepare_mutation_request_def Let_def dest: original_control_executions
      split: option.splits if_split_asm prod.splits sum.splits)

lemma containment_executions:
  "containment_after_healthy_control session options request st = (ceiling, st') \<Longrightarrow> es_executions st' = es_executions st"
  by (auto simp: containment_after_healthy_control_def Let_def split: option.splits if_split_asm prod.splits sum.splits)

text \<open>
  A reply is recorded with the request it answers, and the request is the given one but for
  the timeout.
\<close>

definition same_run :: "exec_request \<Rightarrow> exec_request \<Rightarrow> bool" where
  "same_run a b \<longleftrightarrow> rq_Mutant a = rq_Mutant b \<and> rq_Package a = rq_Package b \<and> rq_Args a = rq_Args b \<and> rq_Env a = rq_Env b"

definition within_budget :: "mutation_options \<Rightarrow> exec_request \<Rightarrow> bool" where
  "within_budget options request \<longleftrightarrow> 0 < rq_Timeout request \<and> rq_Timeout request \<le> op_Timeout options"

lemma execute_mutation_adds:
  assumes "execute_mutation session options request st = ((reply, observation), st')"
  shows "\<exists>reason. es_executions st' =
    es_executions st @ [\<lparr>xt_Request = request, xt_Reply = reply, xt_Reason = reason\<rparr>]"
  using assms by (auto simp: execute_mutation_def Let_def split: prod.splits)

lemma execute_budget_adds:
  assumes "execute_under_measured_budget session options request st = ((reply, observation), st')"
  shows "adds (\<lambda>x. same_run (xt_Request x) request) st st'"
    and "\<exists>x \<in> set (es_executions st'). same_run (xt_Request x) request \<and> xt_Reply x = reply"
    and "within_budget options request \<Longrightarrow> adds (\<lambda>x. within_budget options (xt_Request x)) st st'"
proof -
  obtain r1 o1 st1 where run: "execute_mutation session options request st = ((r1, o1), st1)"
    by (metis prod.collapse)
  obtain reason where first: "es_executions st1 =
      es_executions st @ [\<lparr>xt_Request = request, xt_Reply = r1, xt_Reason = reason\<rparr>]"
    using execute_mutation_adds [OF run] by blast
  consider (once) "reply = r1" "es_executions st' = es_executions st1"
    | (twice) ceiling st2 where "containment_after_healthy_control session options request st1 = (Some ceiling, st2)"
        "execute_mutation session options (request\<lparr>rq_Timeout := ceiling\<rparr>) st2 = ((reply, observation), st')"
    using assms run
    by (auto simp: execute_under_measured_budget_def Let_def dest: containment_executions
        split: sum.splits if_split_asm prod.splits option.splits)
  note runs = this
  have "adds (\<lambda>x. same_run (xt_Request x) request) st st' \<and>
    (\<exists>x \<in> set (es_executions st'). same_run (xt_Request x) request \<and> xt_Reply x = reply) \<and>
    (within_budget options request \<longrightarrow> adds (\<lambda>x. within_budget options (xt_Request x)) st st')"
  proof (cases rule: runs)
    case once
    with first show ?thesis by (auto simp: adds_def same_run_def)
  next
    case twice
    have ceiling: "ceiling = op_Timeout options" "rq_Timeout request < op_Timeout options"
      using twice(1) by (auto simp: containment_after_healthy_control_def Let_def
          split: option.splits if_split_asm prod.splits sum.splits)
    have "es_executions st2 = es_executions st1" using containment_executions [OF twice(1)] .
    moreover obtain reason' where "es_executions st' = es_executions st2 @
        [\<lparr>xt_Request = request\<lparr>rq_Timeout := ceiling\<rparr>, xt_Reply = reply, xt_Reason = reason'\<rparr>]"
      using execute_mutation_adds [OF twice(2)] by blast
    ultimately show ?thesis
      using first ceiling by (auto simp: adds_def same_run_def within_budget_def)
  qed
  then show "adds (\<lambda>x. same_run (xt_Request x) request) st st'"
    "\<exists>x \<in> set (es_executions st'). same_run (xt_Request x) request \<and> xt_Reply x = reply"
    "within_budget options request \<Longrightarrow> adds (\<lambda>x. within_budget options (xt_Request x)) st st'"
    by blast+
qed

lemma execution_timeout_le: "limit > 0 \<Longrightarrow> t \<le> limit \<Longrightarrow> execution_timeout_from limit t samples \<le> limit"
  by (induction samples arbitrary: t) (auto simp: Let_def)

lemma mutation_execution_timeout_le: "limit > 0 \<Longrightarrow> mutation_execution_timeout limit samples \<le> limit"
  by (simp add: mutation_execution_timeout_def execution_timeout_le)

lemma prepare_request:
  assumes "prepare_mutation_request session options mutant request fk fs tk ts st = (Inr (request', finding), st')"
  shows "same_run request' request"
    and "cf_kind finding = [] \<Longrightarrow> fk \<noteq> [] \<Longrightarrow> tk \<noteq> [] \<Longrightarrow> 0 < op_Timeout options \<Longrightarrow> within_budget options request'"
  using assms mutation_execution_timeout_le [of "op_Timeout options"]
  by (auto simp: prepare_mutation_request_def same_run_def within_budget_def unavailable_control_def Let_def
      split: option.splits if_split_asm prod.splits sum.splits)

definition answered :: "outcome \<Rightarrow> exec_request \<Rightarrow> 'w evaluation_state \<Rightarrow> bool" where
  "answered oc request st \<longleftrightarrow>
     (\<exists>x \<in> set (es_executions st). same_run (xt_Request x) request \<and>
        (case xt_Reply x of Inl _ \<Rightarrow> False | Inr result \<Rightarrow> res_Outcome result = oc))"

definition reports_kill :: "mutation_evaluation \<Rightarrow> bool" where
  "reports_kill evaluation \<longleftrightarrow> (\<exists>e \<in> set (mv_Evidence evaluation). ev_Status e = ''killed'')"

definition reports_survival :: "mutation_evaluation \<Rightarrow> bool" where
  "reports_survival evaluation \<longleftrightarrow> (\<exists>f \<in> set (mv_Findings evaluation). f_Kind f = ''surviving-mutant'')"

lemma reports_simps [simp]:
  "reports_kill (kill_only mutant detail)" "\<not> reports_survival (kill_only mutant detail)"
  "\<not> reports_kill (finding_only session options mutant kind summary)"
  "kind \<noteq> ''surviving-mutant'' \<Longrightarrow> \<not> reports_survival (finding_only session options mutant kind summary)"
  by (auto simp: reports_kill_def reports_survival_def kill_only_def add_kill_def finding_only_def add_finding_def
      mutation_finding_def empty_evaluation_def Let_def)

lemma answered_mono: "answered oc request st \<Longrightarrow> adds P st st' \<Longrightarrow> answered oc request st'"
  unfolding answered_def using adds_set by blast

lemma answered_simps [simp]:
  "answered oc request (update_evidence f st) = answered oc request st"
  "answered oc request (trace_route r st) = answered oc request st"
  by (simp_all add: answered_def)

lemma same_run_trans: "same_run a b \<Longrightarrow> same_run b c \<Longrightarrow> same_run a c"
  by (simp add: same_run_def)

lemma execute_budget_answered:
  assumes "execute_under_measured_budget session options request st = ((Inr result, observation), st')"
    and "same_run request request'"
  shows "answered (res_Outcome result) request' st'"
  using execute_budget_adds(2) [OF assms(1)] assms(2) by (force simp: answered_def intro: same_run_trans)

definition unknown_kinds :: "group_unknown list \<Rightarrow> bool" where
  "unknown_kinds unknown \<longleftrightarrow> (\<forall>u \<in> set unknown. cf_kind (gu_finding u) \<noteq> ''surviving-mutant'')"

lemma aggregate_kind:
  "unknown \<noteq> [] \<Longrightarrow> unknown_kinds unknown \<Longrightarrow> cf_kind (aggregate_mutation_unknown unknown groups) \<noteq> ''surviving-mutant''"
  by (cases unknown) (auto simp: unknown_kinds_def aggregate_mutation_unknown_def)

lemma prepare_kind:
  assumes "prepare_mutation_request session options mutant request ''mutation-control-failure'' fs
      ''mutation-control-timeout'' ts st = (Inr (request', finding), st')"
  shows "cf_kind finding \<noteq> ''surviving-mutant''"
  using assms
  by (auto simp: prepare_mutation_request_def unavailable_control_def no_control_finding_def Let_def
      split: option.splits if_split_asm prod.splits sum.splits)

lemma unknown_kinds_snoc:
  "unknown_kinds (unknown @ [\<lparr>gu_detail = d, gu_finding = f\<rparr>]) \<longleftrightarrow> unknown_kinds unknown \<and> cf_kind f \<noteq> ''surviving-mutant''"
  by (auto simp: unknown_kinds_def)

definition groups_backed :: "seed_execution list \<Rightarrow> group_unknown list \<Rightarrow> mutation_evaluation \<Rightarrow> 'w evaluation_state \<Rightarrow> bool" where
  "groups_backed executions unknown ev st \<longleftrightarrow>
     (reports_kill ev \<longrightarrow> list_ex (\<lambda>x. answered OutcomeKilled (sx_request x) st) executions) \<and>
     (reports_survival ev \<longrightarrow> unknown = [] \<and> list_all (\<lambda>x. answered OutcomeSurvived (sx_request x) st) executions)"

lemma groups_backed_skip:
  "groups_backed executions (unknown @ [u]) ev st \<Longrightarrow> groups_backed (x # executions) unknown ev st"
  by (simp add: groups_backed_def)

lemma groups_backed_survived:
  "groups_backed executions unknown ev st \<Longrightarrow> answered OutcomeSurvived (sx_request x) st \<Longrightarrow>
   groups_backed (x # executions) unknown ev st"
  by (simp add: groups_backed_def)

text \<open>The ways one group can go, for a run that ends without an error.\<close>

lemma evaluate_groups_ConsE:
  assumes "evaluate_groups session options mutant route groups (execution # executions) executed unknown st = (Inr ev, st')"
  obtains (control) request finding st1 where
      "prepare_mutation_request session options mutant (sx_request execution) ''mutation-control-failure''
         s_target_control_failure ''mutation-control-timeout'' s_target_control_timeout st = (Inr (request, finding), st1)"
      "evaluate_groups session options mutant route groups executions executed
         (unknown @ [\<lparr>gu_detail = sx_detail execution, gu_finding = finding\<rparr>]) st1 = (Inr ev, st')"
  | (executed) request finding st1 result observation st2 where
      "prepare_mutation_request session options mutant (sx_request execution) ''mutation-control-failure''
         s_target_control_failure ''mutation-control-timeout'' s_target_control_timeout st = (Inr (request, finding), st1)"
      "cf_kind finding = []"
      "execute_under_measured_budget session options request st1 = ((Inr result, observation), st2)"
      "res_Outcome result = OutcomeKilled \<and> ev = kill_only mutant (sx_detail execution) \<and>
         es_executions st' = es_executions st2 \<or>
       res_Outcome result = OutcomeSurvived \<and>
         (\<exists>executed'. evaluate_groups session options mutant route groups executions executed' unknown st2 = (Inr ev, st')) \<or>
       (\<exists>finding'. cf_kind finding' \<noteq> ''surviving-mutant'' \<and>
          evaluate_groups session options mutant route groups executions executed
            (unknown @ [\<lparr>gu_detail = sx_detail execution, gu_finding = finding'\<rparr>]) st2 = (Inr ev, st'))"
proof -
  obtain prepared st1 where prep: "prepare_mutation_request session options mutant (sx_request execution)
      ''mutation-control-failure'' s_target_control_failure ''mutation-control-timeout'' s_target_control_timeout st
      = (prepared, st1)" by (metis prod.collapse)
  with assms obtain request finding where pr: "prepared = Inr (request, finding)"
    by (cases prepared) auto
  show thesis
  proof (cases "cf_kind finding = []")
    case False
    with assms prep pr show thesis by (intro control) auto
  next
    case True
    obtain reply observation st2 where run:
      "execute_under_measured_budget session options request st1 = ((reply, observation), st2)" by (metis prod.collapse)
    with assms prep pr True obtain result where "reply = Inr result" by (cases reply) auto
    with assms prep pr True run show thesis
      by (intro executed [of request finding st1 result observation st2])
        (cases "res_Outcome result"; force simp: Let_def)+
  qed
qed

lemma adds_True_weaken: "adds P st st' \<Longrightarrow> adds (\<lambda>x. True) st st'"
  by (auto simp: adds_def list_all_iff)

lemma evaluate_groups_adds:
  assumes "0 < op_Timeout options"
  shows "evaluate_groups session options mutant route groups executions executed unknown st = (Inr ev, st') \<Longrightarrow>
    list_all (\<lambda>x. rq_Mutant (sx_request x) = mu_ID mutant) executions \<Longrightarrow>
    adds (\<lambda>x. within_budget options (xt_Request x) \<and> rq_Mutant (xt_Request x) = mu_ID mutant) st st'"
proof (induction executions arbitrary: executed unknown st)
  case Nil
  then show ?case by (auto simp: settle_groups_def Let_def adds_same split: if_split_asm)
next
  case (Cons execution executions)
  let ?P = "\<lambda>x. within_budget options (xt_Request x) \<and> rq_Mutant (xt_Request x) = mu_ID mutant"
  from Cons.prems(1) show ?case
  proof (cases rule: evaluate_groups_ConsE)
    case (control request finding st1)
    have "adds ?P st st1" using prepare_executions [OF control(1)] by (rule adds_same)
    moreover have "adds ?P st1 st'" using Cons.IH [OF control(2)] Cons.prems(2) by simp
    ultimately show ?thesis by (rule adds_trans)
  next
    case (executed request finding st1 result observation st2)
    have prep: "adds ?P st st1" using prepare_executions [OF executed(1)] by (rule adds_same)
    have "within_budget options request" "same_run request (sx_request execution)"
      using prepare_request [OF executed(1)] executed(2) assms by auto
    then have "adds ?P st1 st2"
      using execute_budget_adds(1,3) [OF executed(3)] Cons.prems(2)
      by (fastforce simp: adds_def list_all_iff same_run_def)
    with prep have "adds ?P st st2" by (rule adds_trans)
    moreover have "adds ?P st2 st'" using executed(4) Cons.IH Cons.prems(2) by (auto simp: adds_same)
    ultimately show ?thesis by (rule adds_trans)
  qed
qed

lemma evaluate_groups_extends:
  "evaluate_groups session options mutant route groups executions executed unknown st = (Inr ev, st') \<Longrightarrow>
   adds (\<lambda>x. True) st st'"
proof (induction executions arbitrary: executed unknown st)
  case Nil
  then show ?case by (auto simp: settle_groups_def Let_def adds_same split: if_split_asm)
next
  case (Cons execution executions)
  from Cons.prems show ?case
  proof (cases rule: evaluate_groups_ConsE)
    case (control request finding st1)
    then show ?thesis using Cons.IH [OF control(2)] prepare_executions [OF control(1)] by (auto simp: adds_def)
  next
    case (executed request finding st1 result observation st2)
    have "adds (\<lambda>x. True) st st2"
      using adds_True_weaken [OF execute_budget_adds(1) [OF executed(3)]] prepare_executions [OF executed(1)]
      by (simp add: adds_def)
    moreover have "adds (\<lambda>x. True) st2 st'" using executed(4) Cons.IH by (auto simp: adds_same)
    ultimately show ?thesis by (rule adds_trans)
  qed
qed

lemma evaluate_groups_backed:
  "evaluate_groups session options mutant route groups executions executed unknown st = (Inr ev, st') \<Longrightarrow>
   unknown_kinds unknown \<Longrightarrow> groups_backed executions unknown ev st'"
proof (induction executions arbitrary: executed unknown st)
  case Nil
  then show ?case
    using aggregate_kind [of unknown groups]
    by (auto simp: settle_groups_def groups_backed_def Let_def split: if_split_asm)
next
  case (Cons execution executions)
  from Cons.prems(1) show ?case
  proof (cases rule: evaluate_groups_ConsE)
    case (control request finding st1)
    have "groups_backed executions (unknown @ [\<lparr>gu_detail = sx_detail execution, gu_finding = finding\<rparr>]) ev st'"
      using Cons.IH [OF control(2)] Cons.prems(2) prepare_kind [OF control(1)] by (simp add: unknown_kinds_snoc)
    then show ?thesis by (rule groups_backed_skip)
  next
    case (executed request finding st1 result observation st2)
    have run: "answered (res_Outcome result) (sx_request execution) st2"
      using execute_budget_answered [OF executed(3)] prepare_request(1) [OF executed(1)] .
    from executed(4) show ?thesis
    proof (elim disjE exE conjE)
      assume "res_Outcome result = OutcomeKilled" "ev = kill_only mutant (sx_detail execution)"
        "es_executions st' = es_executions st2"
      with run show ?thesis by (simp add: groups_backed_def answered_def)
    next
      fix executed' assume survived: "res_Outcome result = OutcomeSurvived"
        and rest: "evaluate_groups session options mutant route groups executions executed' unknown st2 = (Inr ev, st')"
      have "answered OutcomeSurvived (sx_request execution) st'"
        using answered_mono [OF run evaluate_groups_extends [OF rest]] survived by simp
      with Cons.IH [OF rest Cons.prems(2)] show ?thesis by (rule groups_backed_survived)
    next
      fix finding' assume "cf_kind finding' \<noteq> ''surviving-mutant''"
        and rest: "evaluate_groups session options mutant route groups executions executed
            (unknown @ [\<lparr>gu_detail = sx_detail execution, gu_finding = finding'\<rparr>]) st2 = (Inr ev, st')"
      with Cons.IH [OF rest] Cons.prems(2) show ?thesis
        by (intro groups_backed_skip) (simp add: unknown_kinds_snoc)
    qed
  qed
qed

lemma sx_request_mutant [simp]: "rq_Mutant (sx_request (mutation_execution_for_targets options mutant ts)) = mu_ID mutant"
  by (simp add: mutation_execution_for_targets_def batch_seed_request_def seed_request_def Let_def)

lemma seed_executions_mutant: "list_all (\<lambda>x. rq_Mutant (sx_request x) = mu_ID mutant) (mutation_seed_executions options mutant ts)"
  by (simp add: mutation_seed_executions_def list_all_iff)

lemma package_suite_run:
  assumes "evaluate_package_suite session options mutant route st = (Inr ev, st')"
  obtains (control) "es_executions st' = es_executions st" "\<not> reports_kill ev" "\<not> reports_survival ev"
  | (executed) request finding st1 result observation st2 where
      "prepare_mutation_request session options mutant (package_suite_request options mutant route)
         ''mutation-control-failure'' s_suite_control_failure ''mutation-control-timeout'' s_suite_control_timeout st
       = (Inr (request, finding), st1)" "cf_kind finding = []"
      "execute_under_measured_budget session options request st1 = ((Inr result, observation), st2)"
      "es_executions st' = es_executions st2" "\<not> reports_survival ev"
      "reports_kill ev \<Longrightarrow> res_Outcome result = OutcomeKilled"
proof -
  obtain prepared st1 where prep: "prepare_mutation_request session options mutant (package_suite_request options mutant route)
         ''mutation-control-failure'' s_suite_control_failure ''mutation-control-timeout'' s_suite_control_timeout st
      = (prepared, st1)" by (metis prod.collapse)
  with assms obtain request finding where pr: "prepared = Inr (request, finding)"
    by (cases prepared) (auto simp: evaluate_package_suite_def split: evaluation_error.splits)
  show thesis
  proof (cases "cf_kind finding = []")
    case False
    then have "cf_kind finding \<noteq> ''surviving-mutant''" using prepare_kind prep pr by blast
    with assms prep pr False prepare_executions [OF prep] show thesis
      by (intro control) (auto simp: evaluate_package_suite_def)
  next
    case True
    obtain reply observation st2 where run:
      "execute_under_measured_budget session options request st1 = ((reply, observation), st2)" by (metis prod.collapse)
    with assms prep pr True obtain result where "reply = Inr result"
      by (cases reply) (auto simp: evaluate_package_suite_def)
    with assms prep pr True run show thesis
      by (intro executed [of request finding st1 result observation st2])
        (cases "res_Outcome result"; force simp: evaluate_package_suite_def Let_def)+
  qed
qed

lemma suite_request_mutant [simp]: "rq_Mutant (package_suite_request options mutant route) = mu_ID mutant"
  by (simp add: package_suite_request_def)

lemma package_suite_facts:
  assumes "evaluate_package_suite session options mutant route st = (Inr ev, st')"
  shows "reports_kill ev \<Longrightarrow> answered OutcomeKilled (package_suite_request options mutant route) st'"
    and "\<not> reports_survival ev"
    and "0 < op_Timeout options \<Longrightarrow>
      adds (\<lambda>x. within_budget options (xt_Request x) \<and> rq_Mutant (xt_Request x) = mu_ID mutant) st st'"
  using assms
proof (atomize (full), cases rule: package_suite_run)
  case control
  then show "(reports_kill ev \<longrightarrow> answered OutcomeKilled (package_suite_request options mutant route) st') \<and>
    \<not> reports_survival ev \<and>
    (0 < op_Timeout options \<longrightarrow>
      adds (\<lambda>x. within_budget options (xt_Request x) \<and> rq_Mutant (xt_Request x) = mu_ID mutant) st st')"
    by (simp add: adds_same)
next
  case (executed request finding st1 result observation st2)
  note prep = prepare_request [OF executed(1)]
  have ans: "answered (res_Outcome result) (package_suite_request options mutant route) st'"
    using execute_budget_answered [OF executed(3) prep(1)] executed(4) by (simp add: answered_def)
  have "reports_kill ev \<Longrightarrow> answered OutcomeKilled (package_suite_request options mutant route) st'"
    using executed(6) ans by simp
  moreover have "adds (\<lambda>x. within_budget options (xt_Request x) \<and> rq_Mutant (xt_Request x) = mu_ID mutant) st st'"
    if "0 < op_Timeout options"
    using execute_budget_adds(1) [OF executed(3)] execute_budget_adds(3) [OF executed(3)] prep(1)
      prep(2) [OF executed(2) _ _ that] prepare_executions [OF executed(1)] executed(4)
    by (fastforce simp: adds_def list_all_iff same_run_def)
  ultimately show "(reports_kill ev \<longrightarrow> answered OutcomeKilled (package_suite_request options mutant route) st') \<and>
    \<not> reports_survival ev \<and>
    (0 < op_Timeout options \<longrightarrow>
      adds (\<lambda>x. within_budget options (xt_Request x) \<and> rq_Mutant (xt_Request x) = mu_ID mutant) st st')"
    using executed(5) by blast
qed

lemma ask_kill_None: "es_evidence st = None \<Longrightarrow> ask_kill sha mutant route st = (None, st)"
  by (simp add: ask_kill_def)

lemma ask_verdict_None: "es_evidence st = None \<Longrightarrow> ask_verdict sha mutant route st = (None, st)"
  by (simp add: ask_verdict_def)

lemma ask_executions:
  "ask_kill sha mutant route st = (answer, st') \<Longrightarrow> es_executions st' = es_executions st"
  "ask_verdict sha mutant route st = (answer', st'') \<Longrightarrow> es_executions st'' = es_executions st"
  by (auto simp: ask_kill_def ask_verdict_def Let_def split: option.splits prod.splits)

lemma unreached_reports [simp]:
  "unreached_now session options mutant route summary st = (Inr ev, st') \<Longrightarrow> \<not> reports_kill ev \<and> \<not> reports_survival ev"
  by (auto simp: unreached_now_def)

definition group_request :: "mutation_options \<Rightarrow> mutant \<Rightarrow> target_evidence list \<Rightarrow> exec_request" where
  "group_request options mutant batch = sx_request (mutation_execution_for_targets options mutant batch)"

lemma evaluate_routed_backed:
  assumes "evaluate_routed session options mutant route st = (Inr ev, st')"
  shows "(reports_kill ev \<longrightarrow> (\<exists>request. rq_Mutant request = mu_ID mutant \<and> answered OutcomeKilled request st')) \<and>
    (reports_survival ev \<longrightarrow>
       mr_reaching route = [] \<and> mr_discharged route \<noteq> [] \<or>
       mr_reaching route \<noteq> [] \<and> (\<forall>batch \<in> set (mutation_target_groups (mr_reaching route)).
         answered OutcomeSurvived (group_request options mutant batch) st'))"
proof (cases "mr_reaching route = []")
  case True
  then show ?thesis
    using assms package_suite_facts(1,2) [of session options mutant route _ ev st']
    by (auto simp: evaluate_routed_def split: if_split_asm) (metis suite_request_mutant)+
next
  case False
  let ?xs = "mutation_seed_executions options mutant (mr_reaching route)"
  have "evaluate_groups session options mutant route (length ?xs) ?xs [] []
      (trace_route (mutation_seed_route mutant route (map sx_plan ?xs)) st) = (Inr ev, st')"
    using assms False by (simp add: evaluate_routed_def Let_def)
  from evaluate_groups_backed [OF this] have backed: "groups_backed ?xs [] ev st'" by (simp add: unknown_kinds_def)
  show ?thesis
  proof (intro conjI impI)
    assume "reports_kill ev"
    with backed obtain x where "x \<in> set ?xs" "answered OutcomeKilled (sx_request x) st'"
      by (auto simp: groups_backed_def list_ex_iff)
    then show "\<exists>request. rq_Mutant request = mu_ID mutant \<and> answered OutcomeKilled request st'"
      using seed_executions_mutant [of mutant options "mr_reaching route"] by (auto simp: list_all_iff)
  next
    assume "reports_survival ev"
    with backed False show "mr_reaching route = [] \<and> mr_discharged route \<noteq> [] \<or>
       mr_reaching route \<noteq> [] \<and> (\<forall>batch \<in> set (mutation_target_groups (mr_reaching route)).
         answered OutcomeSurvived (group_request options mutant batch) st')"
      by (auto simp: groups_backed_def list_all_iff mutation_seed_executions_def group_request_def)
  qed
qed

text \<open>
  C2. Without earlier evidence an answer rests on executions. A kill is reported only when an
  execution of this mutant was answered by a kill; a survival only when every reaching target
  was discharged, or every execution group of the reaching targets was run with the mutant
  active and answered by a survival.
\<close>

theorem evaluation_backed_by_executions:
  assumes "es_evidence st = None"
    and "evaluate_mutation_seed session options targets mutant st = (Inr ev, st')"
  shows "(reports_kill ev \<longrightarrow> (\<exists>request. rq_Mutant request = mu_ID mutant \<and> answered OutcomeKilled request st')) \<and>
    (reports_survival ev \<longrightarrow>
       mr_reaching (seed_route options mutant targets) = [] \<and> mr_discharged (seed_route options mutant targets) \<noteq> [] \<or>
       mr_reaching (seed_route options mutant targets) \<noteq> [] \<and>
       (\<forall>batch \<in> set (mutation_target_groups (mr_reaching (seed_route options mutant targets))).
         answered OutcomeSurvived (group_request options mutant batch) st'))"
  using assms(2) evaluate_routed_backed [of session options mutant "seed_route options mutant targets" st ev st']
    unreached_reports [of session options mutant "seed_route options mutant targets" _ st ev st']
  by (simp add: evaluate_mutation_seed_def Let_def ask_kill_None [OF assms(1)] ask_verdict_None [OF assms(1)]
      split: if_split_asm)


section \<open>A concrete evaluation\<close>

definition sample_session :: "outcome \<Rightarrow> nat session" where
  "sample_session oc =
     \<lparr>se_exec = (\<lambda>w request. (Inr \<lparr>res_Outcome = oc, res_OutputTail = []\<rparr>, Suc w)),
      se_control = Some (\<lambda>w request. (Inr \<lparr>com_TimedOut = False, com_ExitCode = 0, com_Output = [], com_Duration = 3\<rparr>, Suc w)),
      se_files = \<lparr>lf_create = (\<lambda>w d. (None, w)), lf_read = (\<lambda>w n. (None, w)), lf_stat = (\<lambda>w p. None)\<rparr>,
      se_sha = sample_sha\<rparr>"

definition sample_options :: mutation_options where
  "sample_options =
     \<lparr>op_ReplayMutantID = [], op_TestArgs = [''-test.short''], op_Timeout = 100, op_Jobs = 2, op_Accepted = (\<lambda>_. False),
      op_Resume = [], op_Instrumented = [], op_Observer = None, op_SuiteProbes = Map.empty,
      op_SuiteCoverage = Map.empty, op_SuiteEnvironment = []\<rparr>"

definition sample_state :: "nat evaluation_state" where
  "sample_state = \<lparr>es_world = 0, es_evidence = None, es_controls = [], es_routes = [], es_executions = [], es_checkpoints = []\<rparr>"

lemma sample_evaluation:
  "fst (evaluate_mutation_seed (sample_session OutcomeKilled) sample_options [sample_target ''1'' ''p'' []] routed_mutant sample_state)
   = Inr (kill_only routed_mutant ''Test1'')"
  by code_simp

theorem evaluation_backed_by_executions_witness:
  "\<exists>request. rq_Mutant request = ''m1'' \<and> answered OutcomeKilled request
     (snd (evaluate_mutation_seed (sample_session OutcomeKilled) sample_options [sample_target ''1'' ''p'' []] routed_mutant sample_state))"
proof -
  let ?run = "evaluate_mutation_seed (sample_session OutcomeKilled) sample_options [sample_target ''1'' ''p'' []] routed_mutant sample_state"
  have "es_evidence sample_state = None" by (simp add: sample_state_def)
  moreover have "?run = (Inr (kill_only routed_mutant ''Test1''), snd ?run)"
    using sample_evaluation by (metis prod.collapse)
  ultimately show ?thesis
    using evaluation_backed_by_executions [of sample_state "sample_session OutcomeKilled" sample_options
        "[sample_target ''1'' ''p'' []]" routed_mutant "kill_only routed_mutant ''Test1''" "snd ?run"]
    by (simp add: routed_mutant_def)
qed


end
