(* ===== verification/Accounting.thy ===== *)
theory Accounting
  imports Evaluation
begin

text \<open>
  From the seeds to the run's account of its mutants (\<open>EvaluateMutations\<close>,
  \<open>validateMutationCatalog\<close>, \<open>mutationAccounting\<close>, \<open>MutationCatalogFingerprint\<close> of
  \<open>internal/assure/mutation.go\<close>). The seeds are evaluated in an order that is an argument: the
  worker pool completes them in any order (theory \<open>WorkerPool\<close>).
\<close>

section \<open>The catalog\<close>

fun catalog_mutants_error :: "string list \<Rightarrow> mutant list \<Rightarrow> evaluation_error option" where
  "catalog_mutants_error seen [] = None"
| "catalog_mutants_error seen (m # ms) =
     (if mu_ID m = [] then Some EmptyMutantID
      else if mu_ID m \<in> set seen then Some (CatalogDuplicateMutant (mu_ID m))
      else catalog_mutants_error (mu_ID m # seen) ms)"

fun catalog_rejections_error :: "mutant list \<Rightarrow> string list \<Rightarrow> rejection list \<Rightarrow> evaluation_error option" where
  "catalog_rejections_error mutants seen [] = None"
| "catalog_rejections_error mutants seen (r # rs) =
     (case find (\<lambda>m. mu_ID m = rj_ID r) mutants of
        None \<Rightarrow> Some (RejectionAbsent (rj_ID r))
      | Some m \<Rightarrow>
          if rj_ID r \<in> set seen then Some (CatalogDuplicateRejection (rj_ID r))
          else if mu_Accepted m then Some (ExecutableAndRejected (rj_ID r))
          else catalog_rejections_error mutants (rj_ID r # seen) rs)"

definition validate_mutation_catalog :: "catalog \<Rightarrow> evaluation_error option" where
  "validate_mutation_catalog cat =
     err_then (catalog_mutants_error [] (cat_Mutants cat))
     (err_then (catalog_rejections_error (cat_Mutants cat) [] (cat_Rejections cat))
       (first_error (\<lambda>m. if \<not> mu_Accepted m \<and> mu_ID m \<notin> set (map rj_ID (cat_Rejections cat))
                        then Some (NoRejection (mu_ID m)) else None) (cat_Mutants cat)))"

text \<open>The identity of a catalog: its mutants in order, framed, the line as eight bytes.\<close>

definition compare_fingerprint_items :: "mutant \<Rightarrow> mutant \<Rightarrow> int" where
  "compare_fingerprint_items a b =
     cmp_then (cmp_compare (mu_ID a) (mu_ID b))
     (cmp_then (cmp_compare (to_slash (mu_Path a)) (to_slash (mu_Path b)))
     (cmp_then (cmp_compare (mu_Package a) (mu_Package b))
     (cmp_then (cmp_compare (mu_Rule a) (mu_Rule b)) (cmp_compare (mu_Line a) (mu_Line b)))))"

definition fingerprint_item :: "mutant \<Rightarrow> string" where
  "fingerprint_item m =
     write_fields [mu_ID m, to_slash (mu_Path m), mu_Package m, mu_Rule m] @ be_bytes 8 (nat (mu_Line m mod 2 ^ 64))"

definition mutation_catalog_fingerprint :: "(string \<Rightarrow> string) \<Rightarrow> catalog \<Rightarrow> string" where
  "mutation_catalog_fingerprint sha cat =
     sha (''goatest-mutation-catalog-v1'' @ [nul] @
       concat (map fingerprint_item (sort_func compare_fingerprint_items (cat_Mutants cat))))"

section \<open>The accounting\<close>

definition selected_mutants :: "catalog \<Rightarrow> string \<Rightarrow> string list" where
  "selected_mutants cat replayID =
     map mu_ID (filter (\<lambda>m. mu_Accepted m \<and> (replayID = [] \<or> mu_ID m = replayID)) (cat_Mutants cat)) @
     map rj_ID (filter (\<lambda>r. replayID = [] \<or> rj_ID r = replayID) (cat_Rejections cat))"

definition evidence_status ::
  "string list \<Rightarrow> evidence \<Rightarrow> (string \<rightharpoonup> string \<times> string) \<Rightarrow> (string \<rightharpoonup> string \<times> string)" where
  "evidence_status selected item statuses =
     (if ev_ID item \<notin> set selected \<or> ev_Kind item \<noteq> ''mutation'' then statuses
      else if ev_Status item \<in> set [''killed'', ''compile-rejected'', ''accepted'']
      then statuses(ev_ID item \<mapsto> (ev_Status item, ev_Detail item)) else statuses)"

definition finding_status ::
  "string list \<Rightarrow> finding \<Rightarrow> (string \<rightharpoonup> string \<times> string) \<Rightarrow> (string \<rightharpoonup> string \<times> string)" where
  "finding_status selected item statuses =
     (if f_MutantID item \<notin> set selected then statuses
      else statuses(f_MutantID item \<mapsto>
        (if f_Kind item = ''surviving-mutant'' \<or> f_Kind item = ''unreached-mutant'' then MutantSurvived
         else MutantInconclusive, f_Summary item)))"

definition mutant_statuses_of :: "string list \<Rightarrow> mutation_evaluation \<Rightarrow> (string \<rightharpoonup> string \<times> string)" where
  "mutant_statuses_of selected evaluation =
     fold (finding_status selected) (mv_Findings evaluation)
       (fold (evidence_status selected) (mv_Evidence evaluation) Map.empty)"

definition reuse_of :: "mutation_evidence option \<Rightarrow> (string \<times> string) list \<Rightarrow> string \<Rightarrow> bool \<times> string" where
  "reuse_of collected resumed i =
     (let (reused, provenance) =
        (case collected of None \<Rightarrow> (False, []) | Some c \<Rightarrow> evidence_disposition c i)
      in if reused then (reused, provenance)
         else (let provenance = look (map_of resumed) i in (provenance \<noteq> [], provenance)))"

definition mutant_disposition_of ::
  "string list \<Rightarrow> (string \<rightharpoonup> string \<times> string) \<Rightarrow> mutation_evidence option \<Rightarrow> (string \<times> string) list \<Rightarrow> mutant \<Rightarrow>
   mutant_disposition" where
  "mutant_disposition_of selected statuses collected resumed m =
     (let (status, detail) =
        (if mu_ID m \<in> set selected
         then (case statuses (mu_ID m) of
                 None \<Rightarrow> (MutantUnknown, ''selected mutant has no terminal disposition'')
               | Some entry \<Rightarrow> entry)
         else (MutantOutOfScope, ''outside the resolved mutation scope''));
          (reused, provenance) = reuse_of collected resumed (mu_ID m)
      in \<lparr>md_ID = mu_ID m, md_Status = status, md_Path = mu_Path m, md_Line = mu_Line m, md_Package = mu_Package m,
          md_Rule = mu_Rule m, md_Detail = detail, md_Reused = reused, md_Provenance = provenance\<rparr>)"

definition count_disposition :: "mutant_disposition \<Rightarrow> mutant_accounting \<Rightarrow> mutant_accounting" where
  "count_disposition d c =
     (if md_Status d = MutantKilled then
        c\<lparr>mKilled := mKilled c + 1, mExecuted := mExecuted c + 1,
          mReusedKilled := (if md_Reused d then mReusedKilled c + 1 else mReusedKilled c)\<rparr>
      else if md_Status d = MutantSurvived then
        c\<lparr>mSurvived := mSurvived c + 1, mExecuted := mExecuted c + 1,
          mReusedSurvived := (if md_Reused d then mReusedSurvived c + 1 else mReusedSurvived c)\<rparr>
      else if md_Status d = MutantInconclusive then
        c\<lparr>mInconclusive := mInconclusive c + 1, mExecuted := mExecuted c + 1\<rparr>
      else if md_Status d = MutantCompileRejected then c\<lparr>mCompileRejected := mCompileRejected c + 1\<rparr>
      else if md_Status d = MutantAccepted then c\<lparr>mAccepted := mAccepted c + 1\<rparr>
      else if md_Status d = MutantUnknown then c\<lparr>mUnknown := mUnknown c + 1\<rparr>
      else c)"

definition mutation_accounting ::
  "catalog \<Rightarrow> string \<Rightarrow> mutation_evaluation \<Rightarrow> mutation_evidence option \<Rightarrow> (string \<times> string) list \<Rightarrow>
   mutant_accounting \<times> mutant_disposition list" where
  "mutation_accounting cat replayID evaluation collected resumed =
     (let selected = selected_mutants cat replayID;
          discovered = int (length (cat_Mutants cat));
          size = int (length (remdups selected));
          statuses = mutant_statuses_of selected evaluation;
          dispositions = map (mutant_disposition_of selected statuses collected resumed) (cat_Mutants cat);
          start = (no_mutants discovered)\<lparr>mSelected := size, mOutOfScope := discovered - size\<rparr>
      in (fold count_disposition dispositions start, dispositions))"

section \<open>Evaluating the mutants\<close>

definition checkpoint_mutation :: "string \<Rightarrow> mutation_evaluation \<Rightarrow> 'w evaluation_state \<Rightarrow> 'w evaluation_state" where
  "checkpoint_mutation i evaluation st = st\<lparr>es_checkpoints := es_checkpoints st @ [(i, evaluation)]\<rparr>"

text \<open>A worker's turn: one seed, and its checkpoint when it did not fail.\<close>

definition run_seed ::
  "'w session \<Rightarrow> mutation_options \<Rightarrow> target_evidence list \<Rightarrow> mutant \<Rightarrow> 'w evaluation_state \<Rightarrow>
   (evaluation_error + mutation_evaluation) \<times> 'w evaluation_state" where
  "run_seed session options targets mutant st =
     (let (result, st) = evaluate_mutation_seed session options targets mutant st
      in case result of
           Inl e \<Rightarrow> (Inl e, st)
         | Inr evaluation \<Rightarrow> (Inr evaluation, checkpoint_mutation (mu_ID mutant) evaluation st))"

type_synonym seed_results = "(evaluation_error + mutation_evaluation) option list"

definition evaluate_mutation_seeds ::
  "'w session \<Rightarrow> mutation_options \<Rightarrow> target_evidence list \<Rightarrow> mutant list \<Rightarrow> nat list \<Rightarrow> 'w evaluation_state \<Rightarrow>
   seed_results \<times> 'w evaluation_state" where
  "evaluate_mutation_seeds session options targets mutants order st =
     fold (\<lambda>i (results, st). let (result, st) = run_seed session options targets (mutants ! i) st
                             in (results[i := Some result], st))
       order (replicate (length mutants) None, st)"

text \<open>The loop over the mutants: a saved evaluation is appended, the others are left to run.\<close>

record resume_state =
  rs_evaluation :: mutation_evaluation
  rs_mutants :: "mutant list"
  rs_resumed :: "string list"
  rs_provenance :: "(string \<times> string) list"
  rs_present :: bool

definition resume_mutant :: "mutation_options \<Rightarrow> mutant \<Rightarrow> resume_state \<Rightarrow> resume_state" where
  "resume_mutant options m rs =
     (if \<not> mu_Accepted m \<or> op_ReplayMutantID options \<noteq> [] \<and> mu_ID m \<noteq> op_ReplayMutantID options then rs
      else
        let rs = rs\<lparr>rs_present := True\<rparr> in
        case map_of (op_Resume options) (mu_ID m) of
          None \<Rightarrow> rs\<lparr>rs_mutants := rs_mutants rs @ [m]\<rparr>
        | Some saved \<Rightarrow>
            rs\<lparr>rs_evaluation := append_evaluation (rs_evaluation rs) saved,
               rs_resumed := mu_ID m # rs_resumed rs,
               rs_provenance := (if mv_Provenance saved \<noteq> [] then (mu_ID m, mv_Provenance saved) # rs_provenance rs
                                 else rs_provenance rs)\<rparr>)"

definition rejection_evaluation :: "rejection \<Rightarrow> mutation_evaluation" where
  "rejection_evaluation r =
     empty_evaluation\<lparr>mv_Evidence :=
       [\<lparr>ev_Kind = ''mutation'', ev_ID = rj_ID r, ev_Status = ''compile-rejected'', ev_Detail = rj_Diagnostic r\<rparr>]\<rparr>"

definition resume_rejection ::
  "mutation_options \<Rightarrow> rejection \<Rightarrow> resume_state \<times> 'w evaluation_state \<Rightarrow> resume_state \<times> 'w evaluation_state" where
  "resume_rejection options r state =
     (let (rs, st) = state in
      if op_ReplayMutantID options \<noteq> [] \<and> rj_ID r \<noteq> op_ReplayMutantID options then (rs, st)
      else
        let rs = rs\<lparr>rs_present := True\<rparr> in
        case map_of (op_Resume options) (rj_ID r) of
          Some saved \<Rightarrow>
            if rj_ID r \<in> set (rs_resumed rs) then (rs, st)
            else (rs\<lparr>rs_evaluation := append_evaluation (rs_evaluation rs) saved,
                     rs_resumed := rj_ID r # rs_resumed rs\<rparr>, st)
        | None \<Rightarrow>
            (rs\<lparr>rs_evaluation := append_evaluation (rs_evaluation rs) (rejection_evaluation r)\<rparr>,
             checkpoint_mutation (rj_ID r) (rejection_evaluation r) st))"

fun append_results ::
  "mutation_evaluation \<Rightarrow> seed_results \<Rightarrow> evaluation_error + mutation_evaluation" where
  "append_results evaluation [] = Inr evaluation"
| "append_results evaluation (None # results) = append_results evaluation results"
| "append_results evaluation (Some (Inl e) # results) = Inl e"
| "append_results evaluation (Some (Inr other) # results) =
     append_results (append_evaluation evaluation other) results"

definition resume_start :: "mutation_options \<Rightarrow> resume_state" where
  "resume_start options =
     \<lparr>rs_evaluation = empty_evaluation, rs_mutants = [], rs_resumed = [], rs_provenance = [],
      rs_present = (op_ReplayMutantID options = [])\<rparr>"

definition evaluate_mutations ::
  "'w session \<Rightarrow> catalog \<Rightarrow> target_evidence list \<Rightarrow> mutation_options \<Rightarrow> (nat \<Rightarrow> nat list) \<Rightarrow> 'w evaluation_state \<Rightarrow>
   (evaluation_error + mutation_evaluation) \<times> 'w evaluation_state" where
  "evaluate_mutations session cat targets options order st =
     (case validate_mutation_catalog cat of
        Some e \<Rightarrow> (Inl e, st)
      | None \<Rightarrow>
          (let rs = fold (resume_mutant options) (cat_Mutants cat) (resume_start options);
               (rs, st) = fold (resume_rejection options) (cat_Rejections cat) (rs, st)
           in if \<not> rs_present rs then (Inl (ReplayAbsent (op_ReplayMutantID options)), st)
              else
                let (results, st) = evaluate_mutation_seeds session options targets (rs_mutants rs)
                      (order (length (rs_mutants rs))) st
                in case append_results (rs_evaluation rs) results of
                     Inl e \<Rightarrow> (Inl e, st)
                   | Inr evaluation \<Rightarrow>
                       let (counts, dispositions) = mutation_accounting cat (op_ReplayMutantID options) evaluation
                             (es_evidence st) (rs_provenance rs)
                       in (Inr (evaluation\<lparr>mv_Accounting := counts, mv_Mutants := dispositions\<rparr>), st)))"

section \<open>A valid catalog\<close>

definition catalog_ok :: "catalog \<Rightarrow> bool" where
  "catalog_ok cat \<longleftrightarrow>
     distinct (map mu_ID (cat_Mutants cat)) \<and> [] \<notin> set (map mu_ID (cat_Mutants cat)) \<and>
     distinct (map rj_ID (cat_Rejections cat)) \<and>
     set (map rj_ID (cat_Rejections cat)) = set (map mu_ID (filter (\<lambda>m. \<not> mu_Accepted m) (cat_Mutants cat)))"

lemma catalog_mutants_None:
  "catalog_mutants_error seen ms = None \<longleftrightarrow>
     distinct (map mu_ID ms) \<and> [] \<notin> set (map mu_ID ms) \<and> set (map mu_ID ms) \<inter> set seen = {}"
  by (induction seen ms rule: catalog_mutants_error.induct) auto

lemma find_by_id:
  "distinct (map mu_ID ms) \<Longrightarrow> m \<in> set ms \<Longrightarrow> find (\<lambda>n. mu_ID n = mu_ID m) ms = Some m"
  by (induction ms) (auto simp: image_iff)

lemma find_by_id_Some: "find (\<lambda>n. mu_ID n = i) ms = Some m \<Longrightarrow> m \<in> set ms \<and> mu_ID m = i"
  by (auto simp: find_Some_iff)

lemma catalog_rejections_None:
  assumes "distinct (map mu_ID ms)"
  shows "catalog_rejections_error ms seen rs = None \<longleftrightarrow>
     distinct (map rj_ID rs) \<and> set (map rj_ID rs) \<inter> set seen = {} \<and>
     (\<forall>r \<in> set rs. \<exists>m \<in> set ms. mu_ID m = rj_ID r \<and> \<not> mu_Accepted m)"
proof (induction rs arbitrary: seen)
  case (Cons r rs)
  show ?case
  proof (cases "find (\<lambda>m. mu_ID m = rj_ID r) ms")
    case None
    then have "\<forall>m \<in> set ms. mu_ID m \<noteq> rj_ID r" by (auto simp: find_None_iff)
    with None show ?thesis by auto
  next
    case (Some m)
    then have m: "m \<in> set ms" "mu_ID m = rj_ID r" using find_by_id_Some by blast+
    have "n = m" if "n \<in> set ms" "mu_ID n = rj_ID r" for n
      using that m inj_onD [of mu_ID "set ms" n m] assms by (simp add: distinct_map)
    then have "(\<exists>n \<in> set ms. mu_ID n = rj_ID r \<and> \<not> mu_Accepted n) \<longleftrightarrow> \<not> mu_Accepted m"
      using m by blast
    then show ?thesis using Some Cons by auto
  qed
qed simp

lemma validate_catalog_None: "validate_mutation_catalog cat = None \<longleftrightarrow> catalog_ok cat"
proof -
  have "validate_mutation_catalog cat = None \<longleftrightarrow>
    (distinct (map mu_ID (cat_Mutants cat)) \<and> [] \<notin> set (map mu_ID (cat_Mutants cat))) \<and>
    catalog_rejections_error (cat_Mutants cat) [] (cat_Rejections cat) = None \<and>
    (\<forall>m \<in> set (cat_Mutants cat). mu_Accepted m \<or> mu_ID m \<in> set (map rj_ID (cat_Rejections cat)))"
    by (auto simp: validate_mutation_catalog_def catalog_mutants_None split: if_split_asm)
  also have "\<dots> \<longleftrightarrow> catalog_ok cat"
  proof (cases "distinct (map mu_ID (cat_Mutants cat))")
    case True
    have known: "(\<forall>r \<in> set (cat_Rejections cat). \<exists>m \<in> set (cat_Mutants cat). mu_ID m = rj_ID r \<and> \<not> mu_Accepted m) \<longleftrightarrow>
        rj_ID ` set (cat_Rejections cat) \<subseteq> mu_ID ` {m \<in> set (cat_Mutants cat). \<not> mu_Accepted m}" by force
    have rejected: "(\<forall>m \<in> set (cat_Mutants cat). mu_Accepted m \<or> mu_ID m \<in> rj_ID ` set (cat_Rejections cat)) \<longleftrightarrow>
        mu_ID ` {m \<in> set (cat_Mutants cat). \<not> mu_Accepted m} \<subseteq> rj_ID ` set (cat_Rejections cat)" by auto
    show ?thesis
      unfolding catalog_rejections_None [OF True] catalog_ok_def known rejected set_map set_filter set_eq_subset by simp
  qed (simp add: catalog_ok_def)
  finally show ?thesis .
qed

text \<open>
  Validation admits a catalog exactly when every mutant has an identity of its own and is
  either executable or has exactly one compile rejection, and no rejection names anything
  else.
\<close>

theorem validate_mutation_catalog_iff:
  "validate_mutation_catalog cat = None \<longleftrightarrow>
     distinct (map mu_ID (cat_Mutants cat)) \<and> [] \<notin> set (map mu_ID (cat_Mutants cat)) \<and>
     distinct (map rj_ID (cat_Rejections cat)) \<and>
     set (map rj_ID (cat_Rejections cat)) = set (map mu_ID (filter (\<lambda>m. \<not> mu_Accepted m) (cat_Mutants cat)))"
  by (simp only: validate_catalog_None catalog_ok_def)

lemma selected_in_catalog:
  "catalog_ok cat \<Longrightarrow> set (selected_mutants cat replayID) =
     {mu_ID m | m. m \<in> set (cat_Mutants cat) \<and> (replayID = [] \<or> mu_ID m = replayID)}"
proof -
  assume "catalog_ok cat"
  then have rejected: "rj_ID ` set (cat_Rejections cat) = mu_ID ` {m \<in> set (cat_Mutants cat). \<not> mu_Accepted m}"
    by (simp add: catalog_ok_def)
  have "set (selected_mutants cat replayID) =
      {mu_ID m | m. m \<in> set (cat_Mutants cat) \<and> mu_Accepted m \<and> (replayID = [] \<or> mu_ID m = replayID)} \<union>
      {i \<in> rj_ID ` set (cat_Rejections cat). replayID = [] \<or> i = replayID}"
    by (auto simp: selected_mutants_def)
  then show ?thesis unfolding rejected by auto
qed

section \<open>Units\<close>

text \<open>
  What is appended for a mutant: for an executable one an answer that settles it, for a
  rejected one its rejection. It is what a run checkpoints and what a later run resumes.
\<close>

definition rejection_unit :: "string \<Rightarrow> mutation_evaluation \<Rightarrow> bool" where
  "rejection_unit i unit \<longleftrightarrow> mv_Findings unit = [] \<and>
     (\<exists>detail. mv_Evidence unit =
        [\<lparr>ev_Kind = ''mutation'', ev_ID = i, ev_Status = ''compile-rejected'', ev_Detail = detail\<rparr>])"

definition unit_for :: "catalog \<Rightarrow> string \<times> mutation_evaluation \<Rightarrow> bool" where
  "unit_for cat iu \<longleftrightarrow>
     (if fst iu \<in> set (map rj_ID (cat_Rejections cat)) then rejection_unit (fst iu) (snd iu)
      else settles (fst iu) (snd iu))"

definition built_from :: "(string \<times> mutation_evaluation) list \<Rightarrow> mutation_evaluation \<Rightarrow> bool" where
  "built_from us evaluation \<longleftrightarrow>
     mv_Evidence evaluation = concat (map (mv_Evidence \<circ> snd) us) \<and>
     mv_Findings evaluation = concat (map (mv_Findings \<circ> snd) us)"

lemma built_from_Nil [simp]: "built_from [] empty_evaluation"
  by (simp add: built_from_def empty_evaluation_def)

lemma built_from_append:
  "built_from us evaluation \<Longrightarrow> built_from (us @ [(i, unit)]) (append_evaluation evaluation unit)"
  by (simp add: built_from_def append_evaluation_def)

lemma unit_items:
  assumes "unit_for cat (i, unit)"
  shows "e \<in> set (mv_Evidence unit) \<Longrightarrow> ev_Kind e = ''mutation'' \<and> ev_ID e = i \<and>
      (if i \<in> set (map rj_ID (cat_Rejections cat)) then ev_Status e = ''compile-rejected''
       else ev_Status e \<in> {''killed'', ''accepted''})"
    and "f \<in> set (mv_Findings unit) \<Longrightarrow> f_MutantID f = i \<and> i \<notin> set (map rj_ID (cat_Rejections cat))"
    and "mv_Evidence unit \<noteq> [] \<or> mv_Findings unit \<noteq> []"
  using assms by (auto simp: unit_for_def rejection_unit_def settles_def split: if_split_asm)

section \<open>The statuses of the selected mutants\<close>

definition status_for :: "catalog \<Rightarrow> string \<Rightarrow> string \<Rightarrow> bool" where
  "status_for cat i status \<longleftrightarrow>
     (if i \<in> set (map rj_ID (cat_Rejections cat)) then status = MutantCompileRejected
      else status \<in> {MutantKilled, MutantAccepted, MutantSurvived, MutantInconclusive})"

lemma evidence_statuses:
  assumes "\<forall>e \<in> set es. status_for cat (ev_ID e) (ev_Status e)"
    and "\<forall>i status detail. m i = Some (status, detail) \<longrightarrow> status_for cat i status"
  shows "\<forall>i status detail. fold (evidence_status selected) es m i = Some (status, detail) \<longrightarrow> status_for cat i status"
  using assms
proof (induction es arbitrary: m)
  case (Cons e es)
  have "\<forall>i status detail. evidence_status selected e m i = Some (status, detail) \<longrightarrow> status_for cat i status"
    using Cons.prems by (auto simp: evidence_status_def)
  with Cons show ?case by simp
qed simp

lemma finding_statuses:
  assumes "\<forall>f \<in> set fs. f_MutantID f \<notin> set (map rj_ID (cat_Rejections cat))"
    and "\<forall>i status detail. m i = Some (status, detail) \<longrightarrow> status_for cat i status"
  shows "\<forall>i status detail. fold (finding_status selected) fs m i = Some (status, detail) \<longrightarrow> status_for cat i status"
  using assms
proof (induction fs arbitrary: m)
  case (Cons f fs)
  have "status_for cat (f_MutantID f) MutantSurvived" "status_for cat (f_MutantID f) MutantInconclusive"
    using Cons.prems(1) by (simp_all add: status_for_def)
  then have "\<forall>i status detail. finding_status selected f m i = Some (status, detail) \<longrightarrow> status_for cat i status"
    using Cons.prems(2) by (auto simp: finding_status_def)
  with Cons show ?case by simp
qed simp

lemma evidence_statuses_mono: "m i \<noteq> None \<Longrightarrow> fold (evidence_status selected) es m i \<noteq> None"
  by (induction es arbitrary: m) (simp_all add: evidence_status_def)

lemma finding_statuses_mono: "m i \<noteq> None \<Longrightarrow> fold (finding_status selected) fs m i \<noteq> None"
  by (induction fs arbitrary: m) (simp_all add: finding_status_def)

lemma evidence_statuses_present:
  "e \<in> set es \<Longrightarrow> ev_ID e \<in> set selected \<Longrightarrow> ev_Kind e = ''mutation'' \<Longrightarrow>
   ev_Status e \<in> {''killed'', ''compile-rejected'', ''accepted''} \<Longrightarrow>
   fold (evidence_status selected) es m (ev_ID e) \<noteq> None"
proof (induction es arbitrary: m)
  case (Cons x es)
  show ?case
  proof (cases "e = x")
    case True
    then have "evidence_status selected x m (ev_ID e) \<noteq> None" using Cons.prems by (simp add: evidence_status_def)
    from evidence_statuses_mono [of "evidence_status selected x m" "ev_ID e", OF this] show ?thesis by simp
  next
    case False
    with Cons show ?thesis by simp
  qed
qed simp

lemma finding_statuses_present:
  "f \<in> set fs \<Longrightarrow> f_MutantID f \<in> set selected \<Longrightarrow> fold (finding_status selected) fs m (f_MutantID f) \<noteq> None"
proof (induction fs arbitrary: m)
  case (Cons x fs)
  show ?case
  proof (cases "f = x")
    case True
    then have "finding_status selected x m (f_MutantID f) \<noteq> None" using Cons.prems by (simp add: finding_status_def)
    from finding_statuses_mono [of "finding_status selected x m" "f_MutantID f", OF this] show ?thesis by simp
  next
    case False
    with Cons show ?thesis by simp
  qed
qed simp

lemma statuses_of_units:
  assumes "built_from us evaluation" "\<forall>iu \<in> set us. unit_for cat iu"
    and "i \<in> set selected" "i \<in> fst ` set us"
  shows "\<exists>status detail. mutant_statuses_of selected evaluation i = Some (status, detail) \<and> status_for cat i status"
proof -
  let ?E = "fold (evidence_status selected) (mv_Evidence evaluation) Map.empty"
  have E: "\<forall>e \<in> set (mv_Evidence evaluation). status_for cat (ev_ID e) (ev_Status e)"
  proof
    fix e assume "e \<in> set (mv_Evidence evaluation)"
    then obtain j unit where "(j, unit) \<in> set us" "e \<in> set (mv_Evidence unit)"
      using assms(1) by (auto simp: built_from_def)
    with assms(2) unit_items(1) [of cat j unit e] show "status_for cat (ev_ID e) (ev_Status e)"
      by (auto simp: status_for_def)
  qed
  have F: "\<forall>f \<in> set (mv_Findings evaluation). f_MutantID f \<notin> set (map rj_ID (cat_Rejections cat))"
  proof
    fix f assume "f \<in> set (mv_Findings evaluation)"
    then obtain j unit where "(j, unit) \<in> set us" "f \<in> set (mv_Findings unit)"
      using assms(1) by (auto simp: built_from_def)
    with assms(2) unit_items(2) [of cat j unit f] show "f_MutantID f \<notin> set (map rj_ID (cat_Rejections cat))" by auto
  qed
  obtain unit where unit: "(i, unit) \<in> set us" using assms(4) by auto
  then have items: "set (mv_Evidence unit) \<subseteq> set (mv_Evidence evaluation)" "set (mv_Findings unit) \<subseteq> set (mv_Findings evaluation)"
    using assms(1) by (force simp: built_from_def)+
  have u: "unit_for cat (i, unit)" using unit assms(2) by blast
  have "mutant_statuses_of selected evaluation i \<noteq> None"
  proof (cases "mv_Evidence unit")
    case (Cons e es)
    then have e: "e \<in> set (mv_Evidence evaluation)" "ev_Kind e = ''mutation''" "ev_ID e = i"
      "ev_Status e \<in> {''killed'', ''compile-rejected'', ''accepted''}"
      using items(1) unit_items(1) [OF u, of e] by (auto split: if_split_asm)
    have "?E (ev_ID e) \<noteq> None" using e assms(3) by (intro evidence_statuses_present) auto
    then have "?E i \<noteq> None" using e(3) by simp
    then show ?thesis unfolding mutant_statuses_of_def by (rule finding_statuses_mono)
  next
    case Nil
    with unit_items(3) [OF u] obtain f fs where "mv_Findings unit = f # fs" by (cases "mv_Findings unit") auto
    then have "f \<in> set (mv_Findings evaluation)" "f_MutantID f = i"
      using items(2) unit_items(2) [OF u, of f] by auto
    then show ?thesis
      using finding_statuses_present [of f "mv_Findings evaluation" selected ?E] assms(3)
      by (auto simp: mutant_statuses_of_def)
  qed
  then obtain status detail where some: "mutant_statuses_of selected evaluation i = Some (status, detail)" by auto
  have "\<forall>i status detail. mutant_statuses_of selected evaluation i = Some (status, detail) \<longrightarrow> status_for cat i status"
    unfolding mutant_statuses_of_def by (intro finding_statuses [OF F] evidence_statuses [OF E]) simp
  with some show ?thesis by blast
qed
end
