(* ===== verification/Checkpoint.thy ===== *)
theory Checkpoint
  imports Report ReportAudit
begin

text \<open>
  The checkpoint of an interrupted run (\<open>internal/checkpoint/checkpoint.go\<close>): its data, the
  validation of a state that was read back or is about to be written, and its canonical form.
  A \<open>nil\<close> and an empty slice are one list: the canonical form makes every \<open>nil\<close> slice empty.
\<close>

section \<open>The data\<close>

definition checkpoint_schema_v1 :: string where
  "checkpoint_schema_v1 = ''assurance-checkpoint-v1''"

record ck_target =
  kt_ID :: string
  kt_Name :: string
  kt_Kind :: string
  kt_Package :: string
  kt_RelativeDir :: string
  kt_Path :: string
  kt_Line :: int
  kt_Capabilities :: "string list"
  kt_Dependencies :: "string list"

record ck_block =
  kb_StartLine :: int
  kb_StartColumn :: int
  kb_EndLine :: int
  kb_EndColumn :: int

record ck_file =
  kf_Path :: string
  kf_Blocks :: "ck_block list"

record ck_coverage =
  kc_Files :: "ck_file list"

record ck_target_evidence =
  ke_Target :: ck_target
  ke_CoveredFiles :: "string list"
  ke_Environment :: "string list"
  ke_DurationNS :: int
  ke_WholeTree :: bool
  ke_Coverage :: "ck_coverage option"
  ke_Probed :: bool
  ke_ProbeDurationNS :: int
  ke_Infected :: "nat list"
  ke_Instrumented :: "ck_coverage option"

record baseline_target =
  bt_ID :: string
  bt_Executed :: bool
  bt_Skipped :: bool
  bt_Evidence :: "evidence list"
  bt_Findings :: "finding list"
  bt_Inventory :: target_disposition
  bt_Target :: "ck_target_evidence option"

record baseline_suite =
  bs_Package :: string
  bs_Measured :: bool
  bs_Covered :: "ck_coverage option"
  bs_Instrumented :: "ck_coverage option"
  bs_DurationNS :: int
  bs_WholeTree :: bool

record suite_coverage =
  su_Package :: string
  su_Covered :: ck_coverage
  su_Instrumented :: ck_coverage
  su_DurationNS :: int
  su_WholeTree :: bool

record baseline_routing =
  br_Instrumented :: ck_coverage
  br_Suites :: "suite_coverage list"

record baseline_state =
  bl_BuildVetComplete :: bool
  bl_Complete :: bool
  bl_Evidence :: "evidence list"
  bl_Findings :: "finding list"
  bl_Targets :: "baseline_target list"
  bl_Suites :: "baseline_suite list"
  bl_Routing :: "baseline_routing option"

record race_state =
  ra_Complete :: bool
  ra_Packages :: "string list"
  ra_Evidence :: "evidence list"
  ra_Findings :: "finding list"

record mutation_unit =
  mx_ID :: string
  mx_Evidence :: "evidence list"
  mx_Findings :: "finding list"
  mx_Provenance :: string

record target_probe =
  tp_ID :: string
  tp_Measured :: bool
  tp_DurationNS :: int
  tp_Infected :: "nat list"

record suite_probe =
  sp_Package :: string
  sp_Measured :: bool
  sp_DurationNS :: int
  sp_Infected :: "nat list"
  sp_WholeTree :: bool

record mutation_probe =
  mp_IndexFingerprint :: string
  mp_Targets :: "target_probe list"
  mp_Suites :: "suite_probe list"

record mutation_state =
  mn_CatalogFingerprint :: string
  mn_Complete :: bool
  mn_Probe :: "mutation_probe option"
  mn_Results :: "mutation_unit list"

record checkpoint_state =
  ck_Schema :: string
  ck_InputDigest :: string
  ck_Attempts :: int
  ck_Baseline :: baseline_state
  ck_Race :: "race_state option"
  ck_Mutation :: "mutation_state option"

datatype checkpoint_error =
    CheckpointSchema string
  | InputDigestNotSHA256
  | AttemptsNotPositive
  | TargetIdentity
  | TargetNotClassified string
  | TargetDuplicate string
  | TargetEvidenceIdentity string
  | TargetNoCoverage string
  | TargetCoverage string checkpoint_error
  | TargetInstrumentation string checkpoint_error
  | TargetInstrumentedComplete string
  | InstrumentationAnchors string string string
  | SuiteMeasurement
  | PartialSuiteDuplicate string
  | PartialSuiteCovered string checkpoint_error
  | PartialSuiteInstrumented string checkpoint_error
  | PartialSuitesRetained
  | RoutingDisagrees
  | RoutingInstrumentation checkpoint_error
  | SuiteIdentity
  | SuiteDuplicate string
  | SuiteCovered string checkpoint_error
  | SuiteInstrumented string checkpoint_error
  | RacePackageEmpty
  | RacePackageDuplicate string
  | CatalogFingerprintInvalid
  | MutationProbeInvalid checkpoint_error
  | ResultNotTerminal
  | ResultDuplicate string
  | EmptyFilePath
  | PositionsNotPositive
  | BlockEndsBeforeStart
  | IndexFingerprintInvalid
  | ProbeTargetMeasurement
  | ProbeTargetDuplicate string
  | ProbeTargetInfections string
  | ProbeSuiteMeasurement
  | ProbeSuiteDuplicate string
  | ProbeSuiteInfections string

section \<open>Validation\<close>

fun strictly_increasing :: "nat list \<Rightarrow> bool" where
  "strictly_increasing (x # y # rest) = (if x \<ge> y then False else strictly_increasing (y # rest))"
| "strictly_increasing _ = True"

definition block_error :: "ck_block \<Rightarrow> checkpoint_error option" where
  "block_error b =
     (if kb_StartLine b < 1 \<or> kb_StartColumn b < 1 \<or> kb_EndLine b < 1 \<or> kb_EndColumn b < 1
      then Some PositionsNotPositive
      else if kb_EndLine b < kb_StartLine b \<or> kb_EndLine b = kb_StartLine b \<and> kb_EndColumn b < kb_StartColumn b
      then Some BlockEndsBeforeStart else None)"

definition validate_coverage :: "ck_coverage option \<Rightarrow> checkpoint_error option" where
  "validate_coverage c =
     (case c of
        None \<Rightarrow> None
      | Some coverage \<Rightarrow>
          first_error (\<lambda>f. if kf_Path f = [] then Some EmptyFilePath
                           else first_error block_error (kf_Blocks f)) (kc_Files coverage))"

definition terminal_mutation :: "mutation_unit \<Rightarrow> bool" where
  "terminal_mutation unit \<longleftrightarrow>
     list_ex (\<lambda>item. ev_Kind item = ''mutation'' \<and> ev_ID item = mx_ID unit \<and>
       ev_Status item \<in> set [''killed'', ''compile-rejected'', ''accepted'']) (mx_Evidence unit) \<or>
     list_ex (\<lambda>f. f_MutantID f = mx_ID unit) (mx_Findings unit)"

text \<open>
  The loops of the validation have one shape: check an entry, refuse a key seen before,
  check the rest of the entry.
\<close>

fun validate_each ::
  "('a \<Rightarrow> checkpoint_error option) \<Rightarrow> ('a \<Rightarrow> string) \<Rightarrow> (string \<Rightarrow> checkpoint_error) \<Rightarrow>
   ('a \<Rightarrow> checkpoint_error option) \<Rightarrow> string list \<Rightarrow> 'a list \<Rightarrow> checkpoint_error option" where
  "validate_each before key twice after seen [] = None"
| "validate_each before key twice after seen (x # xs) =
     err_then (before x)
       (if key x \<in> set seen then Some (twice (key x))
        else err_then (after x) (validate_each before key twice after (key x # seen) xs))"

definition wrap_error :: "(checkpoint_error \<Rightarrow> checkpoint_error) \<Rightarrow> checkpoint_error option \<Rightarrow> checkpoint_error option" where
  "wrap_error f e = map_option f e"

definition target_unit_error :: "baseline_target \<Rightarrow> checkpoint_error option" where
  "target_unit_error unit =
     (if bt_ID unit = [] \<or> td_ID (bt_Inventory unit) \<noteq> bt_ID unit \<or> td_Name (bt_Inventory unit) = [] \<or>
         td_Status (bt_Inventory unit) = [] \<or> td_DurationMS (bt_Inventory unit) < 0
      then Some TargetIdentity
      else if bt_Executed unit = bt_Skipped unit then Some (TargetNotClassified (bt_ID unit)) else None)"

definition target_evidence_error :: "baseline_target \<Rightarrow> ck_target_evidence \<Rightarrow> checkpoint_error option" where
  "target_evidence_error unit t =
     (if kt_ID (ke_Target t) \<noteq> bt_ID unit \<or> ke_DurationNS t < 0 \<or> ke_ProbeDurationNS t < 0 \<or>
         \<not> ke_Probed t \<and> (ke_ProbeDurationNS t \<noteq> 0 \<or> length (ke_Infected t) \<noteq> 0) \<or>
         \<not> strictly_increasing (ke_Infected t)
      then Some (TargetEvidenceIdentity (bt_ID unit))
      else if ke_Coverage t = None then Some (TargetNoCoverage (bt_ID unit))
      else err_then (wrap_error (TargetCoverage (bt_ID unit)) (validate_coverage (ke_Coverage t)))
             (wrap_error (TargetInstrumentation (bt_ID unit)) (validate_coverage (ke_Instrumented t))))"

fun validate_baseline_targets ::
  "bool \<Rightarrow> string list \<Rightarrow> (string \<times> string) list \<Rightarrow> baseline_target list \<Rightarrow> checkpoint_error option" where
  "validate_baseline_targets complete seen anchors [] = None"
| "validate_baseline_targets complete seen anchors (unit # units) =
     err_then (target_unit_error unit)
     (if bt_ID unit \<in> set seen then Some (TargetDuplicate (bt_ID unit))
      else
        let seen = bt_ID unit # seen in
        case bt_Target unit of
          None \<Rightarrow> validate_baseline_targets complete seen anchors units
        | Some t \<Rightarrow>
            err_then (target_evidence_error unit t)
            (if ke_Instrumented t = None then validate_baseline_targets complete seen anchors units
             else if complete then Some (TargetInstrumentedComplete (bt_ID unit))
             else
               let pkg = kt_Package (ke_Target t) in
               case map_of anchors pkg of
                 Some first \<Rightarrow> Some (InstrumentationAnchors pkg first (bt_ID unit))
               | None \<Rightarrow> validate_baseline_targets complete seen ((pkg, bt_ID unit) # anchors) units))"

definition partial_suite_error :: "baseline_suite \<Rightarrow> checkpoint_error option" where
  "partial_suite_error s =
     (if bs_Package s = [] \<or> bs_DurationNS s < 0 \<or>
         \<not> bs_Measured s \<and> (bs_Covered s \<noteq> None \<or> bs_Instrumented s \<noteq> None \<or> bs_DurationNS s \<noteq> 0 \<or> bs_WholeTree s) \<or>
         bs_Measured s \<and> (bs_Covered s = None \<or> bs_Instrumented s = None)
      then Some SuiteMeasurement else None)"

definition partial_suite_coverage_error :: "baseline_suite \<Rightarrow> checkpoint_error option" where
  "partial_suite_coverage_error s =
     err_then (wrap_error (PartialSuiteCovered (bs_Package s)) (validate_coverage (bs_Covered s)))
       (wrap_error (PartialSuiteInstrumented (bs_Package s)) (validate_coverage (bs_Instrumented s)))"

definition suite_coverage_error :: "suite_coverage \<Rightarrow> checkpoint_error option" where
  "suite_coverage_error s =
     err_then (wrap_error (SuiteCovered (su_Package s)) (validate_coverage (Some (su_Covered s))))
       (wrap_error (SuiteInstrumented (su_Package s)) (validate_coverage (Some (su_Instrumented s))))"

definition validate_routing :: "baseline_routing option \<Rightarrow> checkpoint_error option" where
  "validate_routing routing =
     (case routing of
        None \<Rightarrow> None
      | Some r \<Rightarrow>
          err_then (wrap_error RoutingInstrumentation (validate_coverage (Some (br_Instrumented r))))
            (validate_each (\<lambda>s. if su_Package s = [] \<or> su_DurationNS s < 0 then Some SuiteIdentity else None)
               su_Package SuiteDuplicate suite_coverage_error [] (br_Suites r)))"

definition validate_race :: "race_state option \<Rightarrow> checkpoint_error option" where
  "validate_race race =
     (case race of
        None \<Rightarrow> None
      | Some r \<Rightarrow>
          validate_each (\<lambda>pkg. if pkg = [] then Some RacePackageEmpty else None) id RacePackageDuplicate
            (\<lambda>_. None) [] (ra_Packages r))"

definition validate_mutation_probe :: "mutation_probe option \<Rightarrow> checkpoint_error option" where
  "validate_mutation_probe probe =
     (case probe of
        None \<Rightarrow> None
      | Some p \<Rightarrow>
          if \<not> valid_sha256 (mp_IndexFingerprint p) then Some IndexFingerprintInvalid
          else
            err_then
              (validate_each
                 (\<lambda>t. if tp_ID t = [] \<or> tp_DurationNS t < 0 \<or>
                         \<not> tp_Measured t \<and> (tp_DurationNS t \<noteq> 0 \<or> length (tp_Infected t) \<noteq> 0)
                      then Some ProbeTargetMeasurement else None)
                 tp_ID ProbeTargetDuplicate
                 (\<lambda>t. if strictly_increasing (tp_Infected t) then None else Some (ProbeTargetInfections (tp_ID t)))
                 [] (mp_Targets p))
              (validate_each
                 (\<lambda>s. if sp_Package s = [] \<or> sp_DurationNS s < 0 \<or>
                         \<not> sp_Measured s \<and> (sp_DurationNS s \<noteq> 0 \<or> length (sp_Infected s) \<noteq> 0 \<or> sp_WholeTree s)
                      then Some ProbeSuiteMeasurement else None)
                 sp_Package ProbeSuiteDuplicate
                 (\<lambda>s. if strictly_increasing (sp_Infected s) then None else Some (ProbeSuiteInfections (sp_Package s)))
                 [] (mp_Suites p)))"

definition validate_mutation_state :: "mutation_state option \<Rightarrow> checkpoint_error option" where
  "validate_mutation_state mutation =
     (case mutation of
        None \<Rightarrow> None
      | Some m \<Rightarrow>
          if \<not> valid_sha256 (mn_CatalogFingerprint m) then Some CatalogFingerprintInvalid
          else
            err_then (wrap_error MutationProbeInvalid (validate_mutation_probe (mn_Probe m)))
              (validate_each (\<lambda>unit. if mx_ID unit = [] \<or> \<not> terminal_mutation unit then Some ResultNotTerminal else None)
                 mx_ID ResultDuplicate (\<lambda>_. None) [] (mn_Results m)))"

definition validate_checkpoint :: "checkpoint_state \<Rightarrow> checkpoint_error option" where
  "validate_checkpoint st =
     (let baseline = ck_Baseline st in
      if ck_Schema st \<noteq> checkpoint_schema_v1 then Some (CheckpointSchema (ck_Schema st))
      else if \<not> valid_sha256 (ck_InputDigest st) then Some InputDigestNotSHA256
      else if ck_Attempts st < 1 then Some AttemptsNotPositive
      else
        err_then (validate_baseline_targets (bl_Complete baseline) [] [] (bl_Targets baseline))
        (err_then (validate_each partial_suite_error bs_Package PartialSuiteDuplicate partial_suite_coverage_error []
                     (bl_Suites baseline))
        (if bl_Complete baseline \<and> bl_Suites baseline \<noteq> [] then Some PartialSuitesRetained
         else if bl_Complete baseline \<noteq> (bl_Routing baseline \<noteq> None) then Some RoutingDisagrees
         else
           err_then (validate_routing (bl_Routing baseline))
           (err_then (validate_race (ck_Race st)) (validate_mutation_state (ck_Mutation st))))))"

section \<open>The canonical form\<close>

definition compare_ck_blocks :: "ck_block \<Rightarrow> ck_block \<Rightarrow> int" where
  "compare_ck_blocks left right =
     cmp_then (cmp_compare (kb_StartLine left) (kb_StartLine right))
     (cmp_then (cmp_compare (kb_StartColumn left) (kb_StartColumn right))
     (cmp_then (cmp_compare (kb_EndLine left) (kb_EndLine right)) (cmp_compare (kb_EndColumn left) (kb_EndColumn right))))"

text \<open>Sorting by a string of the entries, as \<open>slices.SortFunc\<close> with \<open>strings.Compare\<close> does.\<close>

abbreviation sort_by :: "('a \<Rightarrow> string) \<Rightarrow> 'a list \<Rightarrow> 'a list" where
  "sort_by key \<equiv> sort_func (\<lambda>left right. cmp_compare (key left) (key right))"

definition canonical_coverage :: "ck_coverage \<Rightarrow> ck_coverage" where
  "canonical_coverage input =
     \<lparr>kc_Files = sort_by kf_Path
        (map (\<lambda>f. f\<lparr>kf_Blocks := remdups_adj (sort_func compare_ck_blocks (kf_Blocks f))\<rparr>) (kc_Files input))\<rparr>"

definition canonical_target_evidence :: "ck_target_evidence \<Rightarrow> ck_target_evidence" where
  "canonical_target_evidence t =
     t\<lparr>ke_CoveredFiles := sort_slice (ke_CoveredFiles t), ke_Environment := sort_slice (ke_Environment t),
       ke_Infected := remdups_adj (sort_slice (ke_Infected t)),
       ke_Target := (ke_Target t)\<lparr>kt_Capabilities := sort_slice (kt_Capabilities (ke_Target t)),
                                  kt_Dependencies := sort_slice (kt_Dependencies (ke_Target t))\<rparr>,
       ke_Coverage := map_option canonical_coverage (ke_Coverage t),
       ke_Instrumented := map_option canonical_coverage (ke_Instrumented t)\<rparr>"

definition canonical_unit :: "baseline_target \<Rightarrow> baseline_target" where
  "canonical_unit unit = unit\<lparr>bt_Target := map_option canonical_target_evidence (bt_Target unit)\<rparr>"

definition canonical_partial_suite :: "baseline_suite \<Rightarrow> baseline_suite" where
  "canonical_partial_suite s =
     s\<lparr>bs_Covered := map_option canonical_coverage (bs_Covered s),
       bs_Instrumented := map_option canonical_coverage (bs_Instrumented s)\<rparr>"

definition canonical_suite_coverage :: "suite_coverage \<Rightarrow> suite_coverage" where
  "canonical_suite_coverage s =
     s\<lparr>su_Covered := canonical_coverage (su_Covered s), su_Instrumented := canonical_coverage (su_Instrumented s)\<rparr>"

definition canonical_routing :: "baseline_routing \<Rightarrow> baseline_routing" where
  "canonical_routing r =
     r\<lparr>br_Instrumented := canonical_coverage (br_Instrumented r),
       br_Suites := sort_by su_Package (map canonical_suite_coverage (br_Suites r))\<rparr>"

definition canonical_baseline :: "baseline_state \<Rightarrow> baseline_state" where
  "canonical_baseline b =
     b\<lparr>bl_Targets := map canonical_unit (sort_by bt_ID (bl_Targets b)),
       bl_Suites := sort_by bs_Package (map canonical_partial_suite (bl_Suites b)),
       bl_Routing := map_option canonical_routing (bl_Routing b)\<rparr>"

definition canonical_race :: "race_state \<Rightarrow> race_state" where
  "canonical_race r = r\<lparr>ra_Packages := sort_slice (ra_Packages r)\<rparr>"

definition canonical_probe :: "mutation_probe \<Rightarrow> mutation_probe" where
  "canonical_probe p =
     p\<lparr>mp_Targets := sort_by tp_ID (map (\<lambda>t. t\<lparr>tp_Infected := sort_slice (tp_Infected t)\<rparr>) (mp_Targets p)),
       mp_Suites := sort_by sp_Package (map (\<lambda>s. s\<lparr>sp_Infected := sort_slice (sp_Infected s)\<rparr>) (mp_Suites p))\<rparr>"

definition canonical_mutation :: "mutation_state \<Rightarrow> mutation_state" where
  "canonical_mutation m =
     m\<lparr>mn_Probe := map_option canonical_probe (mn_Probe m), mn_Results := sort_by mx_ID (mn_Results m)\<rparr>"

definition canonical_checkpoint :: "checkpoint_state \<Rightarrow> checkpoint_state" where
  "canonical_checkpoint input =
     input\<lparr>ck_Baseline := canonical_baseline (ck_Baseline input),
       ck_Race := map_option canonical_race (ck_Race input),
       ck_Mutation := map_option canonical_mutation (ck_Mutation input)\<rparr>"

section \<open>What the validation accepts\<close>

lemma strictly_increasing_sorted: "strictly_increasing xs \<longleftrightarrow> sorted_wrt (<) xs"
  by (induction xs rule: strictly_increasing.induct) (auto simp: sorted_wrt2 not_le simp del: sorted_wrt.simps(2), simp)

lemma wrap_error_None [simp]: "wrap_error f e = None \<longleftrightarrow> e = None"
  by (simp add: wrap_error_def)

lemma validate_each_None:
  "validate_each before key twice after seen xs = None \<longleftrightarrow>
     (\<forall>x \<in> set xs. before x = None \<and> after x = None) \<and> distinct (map key xs) \<and> set (map key xs) \<inter> set seen = {}"
  by (induction xs arbitrary: seen) auto

lemma validate_coverage_simps [simp]:
  "validate_coverage None = None"
  "validate_coverage (Some c) = None \<longleftrightarrow>
     (\<forall>f \<in> set (kc_Files c). kf_Path f \<noteq> [] \<and> (\<forall>b \<in> set (kf_Blocks f). block_error b = None))"
  by (auto simp: validate_coverage_def)

text \<open>The packages whose instrumentation a partial baseline keeps with one of their targets.\<close>

definition instrumented_package :: "baseline_target \<Rightarrow> string list" where
  "instrumented_package unit =
     (case bt_Target unit of
        None \<Rightarrow> []
      | Some t \<Rightarrow> if ke_Instrumented t = None then [] else [kt_Package (ke_Target t)])"

definition instrumented_packages :: "baseline_target list \<Rightarrow> string list" where
  "instrumented_packages units = concat (map instrumented_package units)"

definition good_target_unit :: "baseline_target \<Rightarrow> bool" where
  "good_target_unit unit \<longleftrightarrow> target_unit_error unit = None \<and>
     (\<forall>t. bt_Target unit = Some t \<longrightarrow> target_evidence_error unit t = None)"

lemma validate_baseline_targets_None:
  "validate_baseline_targets complete seen anchors units = None \<longleftrightarrow>
     (\<forall>unit \<in> set units. good_target_unit unit) \<and> distinct (map bt_ID units) \<and> set (map bt_ID units) \<inter> set seen = {} \<and>
     (complete \<longrightarrow> instrumented_packages units = []) \<and> distinct (instrumented_packages units) \<and>
     set (instrumented_packages units) \<inter> fst ` set anchors = {}"
proof (induction units arbitrary: complete seen anchors)
  case Nil
  then show ?case by (simp add: instrumented_packages_def)
next
  case (Cons unit units)
  have packages: "instrumented_packages (unit # units) = instrumented_package unit @ instrumented_packages units"
    by (simp add: instrumented_packages_def)
  show ?case
  proof (cases "bt_Target unit")
    case None
    then show ?thesis by (auto simp: packages Cons.IH good_target_unit_def instrumented_package_def)
  next
    case (Some t)
    show ?thesis
    proof (cases "ke_Instrumented t")
      case None
      with Some show ?thesis by (auto simp: packages Cons.IH good_target_unit_def instrumented_package_def)
    next
      case (Some c)
      show ?thesis
      proof (cases "map_of anchors (kt_Package (ke_Target t))")
        case None
        then have "kt_Package (ke_Target t) \<notin> fst ` set anchors" by (simp add: map_of_eq_None_iff)
        with None \<open>bt_Target unit = Some t\<close> Some show ?thesis
          by (auto simp: packages Cons.IH good_target_unit_def instrumented_package_def Let_def)
      next
        case (Some first)
        then have "kt_Package (ke_Target t) \<in> fst ` set anchors" by (metis map_of_eq_None_iff option.distinct(1))
        with Some \<open>bt_Target unit = Some t\<close> \<open>ke_Instrumented t = Some c\<close> show ?thesis
          by (auto simp: packages good_target_unit_def instrumented_package_def Let_def)
      qed
    qed
  qed
qed

section \<open>The canonical form is valid and fixed\<close>

lemma canonical_coverage_files:
  "set (kc_Files (canonical_coverage c)) =
     (\<lambda>f. f\<lparr>kf_Blocks := remdups_adj (sort_func compare_ck_blocks (kf_Blocks f))\<rparr>) ` set (kc_Files c)"
  by (simp add: canonical_coverage_def)

lemma canonical_coverage_valid:
  "validate_coverage c = None \<Longrightarrow> validate_coverage (map_option canonical_coverage c) = None"
  by (cases c) (auto simp: canonical_coverage_files)

interpretation ck_blocks: comparator compare_ck_blocks
  unfolding compare_ck_blocks_def by (intro comparator_then comparator_compare)

lemma sort_map_commute:
  "\<forall>x \<in> set xs. \<forall>y \<in> set xs. cmp (f x) (f y) = cmp x y \<Longrightarrow> sort_func cmp (map f xs) = map f (sort_func cmp xs)"
proof (induction xs)
  case (Cons x xs)
  have "insert_func cmp (f x) (map f ys) = map f (insert_func cmp x ys)" if "set ys \<subseteq> set xs" for ys
    using that Cons.prems by (induction ys) auto
  then show ?case using Cons by simp
qed simp

lemma sort_map_idem:
  assumes "\<And>x y. cmp (f x) (f y) = cmp x y" "\<And>x. f (f x) = f x"
    and "\<And>ys. sort_func cmp (sort_func cmp ys) = sort_func cmp ys"
  shows "sort_func cmp (map f (sort_func cmp (map f xs))) = sort_func cmp (map f xs)"
  using assms by (simp add: sort_map_commute comp_def)

lemmas sort_keys_idem = comparator.sort_func_idem [OF comparator_compare]

lemma compact_sorted_blocks:
  "remdups_adj (sort_func compare_ck_blocks (remdups_adj (sort_func compare_ck_blocks bs))) =
   remdups_adj (sort_func compare_ck_blocks bs)"
proof -
  have adj: "sorted_wrt (\<lambda>x y. compare_ck_blocks x y \<le> 0) (remdups_adj xs)"
    if "sorted_wrt (\<lambda>x y. compare_ck_blocks x y \<le> 0) xs" for xs
    using that by (induction xs rule: remdups_adj.induct) auto
  then have "sort_func compare_ck_blocks (remdups_adj (sort_func compare_ck_blocks bs)) =
      remdups_adj (sort_func compare_ck_blocks bs)"
    by (intro sort_func_id adj ck_blocks.sorted_sort_func)
  then show ?thesis by (metis distinct_adj_altdef distinct_adj_remdups_adj)
qed

lemma canonical_coverage_idem [simp]: "canonical_coverage (canonical_coverage c) = canonical_coverage c"
  unfolding canonical_coverage_def ck_coverage.simps
  by (subst sort_map_idem) (simp_all add: compact_sorted_blocks sort_keys_idem)

lemma sorted_infected:
  "sorted_wrt (<) xs \<Longrightarrow> sort_slice xs = (xs :: nat list)"
  "sorted_wrt (<) xs \<Longrightarrow> remdups_adj (sort_slice xs) = (xs :: nat list)"
proof -
  assume inc: "sorted_wrt (<) xs"
  then have "distinct xs" "sorted xs" by (simp_all add: strict_sorted_iff)
  then show "sort_slice xs = xs" "remdups_adj (sort_slice xs) = xs"
    by (simp_all add: sort_slice_sort sorted_sort_id remdups_adj_distinct)
qed

lemma canonical_target_fields:
  "kt_ID (ke_Target (canonical_target_evidence t)) = kt_ID (ke_Target t)"
  "kt_Package (ke_Target (canonical_target_evidence t)) = kt_Package (ke_Target t)"
  "ke_Coverage (canonical_target_evidence t) = map_option canonical_coverage (ke_Coverage t)"
  "ke_Instrumented (canonical_target_evidence t) = map_option canonical_coverage (ke_Instrumented t)"
  "ke_Infected (canonical_target_evidence t) = remdups_adj (sort_slice (ke_Infected t))"
  "ke_DurationNS (canonical_target_evidence t) = ke_DurationNS t"
  "ke_ProbeDurationNS (canonical_target_evidence t) = ke_ProbeDurationNS t"
  "ke_Probed (canonical_target_evidence t) = ke_Probed t"
  by (simp_all add: canonical_target_evidence_def)

lemma canonical_unit_fields [simp]:
  "bt_ID (canonical_unit unit) = bt_ID unit"
  "bt_Target (canonical_unit unit) = map_option canonical_target_evidence (bt_Target unit)"
  "target_unit_error (canonical_unit unit) = target_unit_error unit"
  by (simp_all add: canonical_unit_def target_unit_error_def)

lemma canonical_unit_ids [simp]: "bt_ID \<circ> canonical_unit = bt_ID"
  by (rule ext) simp

lemma canonical_unit_good:
  assumes "good_target_unit unit"
  shows "good_target_unit (canonical_unit unit)" "instrumented_package (canonical_unit unit) = instrumented_package unit"
proof -
  show "good_target_unit (canonical_unit unit)"
  proof (cases "bt_Target unit")
    case None
    with assms show ?thesis by (simp add: good_target_unit_def)
  next
    case (Some t)
    have ok: "target_evidence_error unit t = None" using assms Some by (simp add: good_target_unit_def)
    then have "sorted_wrt (<) (ke_Infected t)"
      by (simp add: target_evidence_error_def strictly_increasing_sorted split: if_split_asm)
    with ok have "target_evidence_error (canonical_unit unit) (canonical_target_evidence t) = None"
      using canonical_coverage_valid [of "ke_Coverage t"] canonical_coverage_valid [of "ke_Instrumented t"]
      by (auto simp: target_evidence_error_def canonical_target_fields sorted_infected(2)
          strictly_increasing_sorted split: if_split_asm)
    with Some assms show ?thesis by (simp add: good_target_unit_def)
  qed
  show "instrumented_package (canonical_unit unit) = instrumented_package unit"
    by (cases "bt_Target unit") (simp_all add: instrumented_package_def canonical_target_fields)
qed

lemma mset_instrumented_packages:
  "mset units = mset units' \<Longrightarrow> mset (instrumented_packages units) = mset (instrumented_packages units')"
  unfolding instrumented_packages_def by (rule mset_concat_perm) simp

lemma baseline_targets_canonical:
  assumes "validate_baseline_targets complete [] [] units = None"
  shows "validate_baseline_targets complete [] []
    (map canonical_unit (sort_by bt_ID units)) = None"
proof -
  let ?sorted = "sort_by bt_ID units"
  have good: "\<forall>unit \<in> set ?sorted. good_target_unit unit" and ids: "distinct (map bt_ID ?sorted)"
    using assms by (simp_all add: validate_baseline_targets_None)
  have "map instrumented_package (map canonical_unit ?sorted) = map instrumented_package ?sorted"
    using good canonical_unit_good(2) by simp
  then have packages: "instrumented_packages (map canonical_unit ?sorted) = instrumented_packages ?sorted"
    unfolding instrumented_packages_def by (rule arg_cong)
  have same: "mset (instrumented_packages ?sorted) = mset (instrumented_packages units)"
    by (rule mset_instrumented_packages) simp
  then have "distinct (instrumented_packages ?sorted)" "complete \<longrightarrow> instrumented_packages ?sorted = []"
    using assms mset_eq_imp_distinct_iff [OF same] by (auto simp: validate_baseline_targets_None)
  moreover have "map bt_ID (map canonical_unit ?sorted) = map bt_ID ?sorted" by simp
  ultimately show ?thesis
    using good ids canonical_unit_good(1) by (auto simp: validate_baseline_targets_None packages)
qed

text \<open>Sorting and a per-entry canonical form keep what \<open>validate_each\<close> accepts.\<close>

lemma validate_each_canonical:
  assumes "validate_each before key twice after [] xs = None" "\<And>x. key (f x) = key x"
    and "\<And>x. before x = None \<Longrightarrow> before (f x) = None" "\<And>x. before x = None \<Longrightarrow> after x = None \<Longrightarrow> after (f x) = None"
  shows "validate_each before key twice after [] (sort_func cmp (map f xs)) = None"
proof -
  have "key \<circ> f = key" using assms(2) by (rule_tac ext) simp
  then show ?thesis using assms by (auto simp: validate_each_None)
qed

lemma canonical_partial_suite_facts:
  "bs_Package (canonical_partial_suite s) = bs_Package s"
  "partial_suite_error (canonical_partial_suite s) = partial_suite_error s"
  "partial_suite_coverage_error s = None \<Longrightarrow> partial_suite_coverage_error (canonical_partial_suite s) = None"
  using canonical_coverage_valid
  by (simp_all add: canonical_partial_suite_def partial_suite_error_def partial_suite_coverage_error_def)

lemma canonical_suite_coverage_facts:
  "su_Package (canonical_suite_coverage s) = su_Package s"
  "su_DurationNS (canonical_suite_coverage s) = su_DurationNS s"
  "suite_coverage_error s = None \<Longrightarrow> suite_coverage_error (canonical_suite_coverage s) = None"
  using canonical_coverage_valid [of "Some _"]
  by (simp_all add: canonical_suite_coverage_def suite_coverage_error_def del: validate_coverage_simps(2))

lemma canonical_probe_valid:
  assumes "validate_mutation_probe p = None"
  shows "validate_mutation_probe (map_option canonical_probe p) = None"
proof (cases p)
  case (Some q)
  from assms show ?thesis
    unfolding Some option.map validate_mutation_probe_def option.case if_error_None err_then_None
    by (auto simp: validate_each_None canonical_probe_def strictly_increasing_sorted sorted_infected(1) comp_def split: if_split_asm)
qed (simp add: validate_mutation_probe_def)

lemma canonical_routing_parts:
  "br_Instrumented (canonical_routing r) = canonical_coverage (br_Instrumented r)"
  "br_Suites (canonical_routing r) = sort_by su_Package (map canonical_suite_coverage (br_Suites r))"
  by (simp_all add: canonical_routing_def)

lemma canonical_routing_valid:
  assumes "validate_routing r = None"
  shows "validate_routing (map_option canonical_routing r) = None"
proof (cases r)
  case (Some q)
  with assms have parts: "validate_coverage (Some (br_Instrumented q)) = None"
    "validate_each (\<lambda>s. if su_Package s = [] \<or> su_DurationNS s < 0 then Some SuiteIdentity else None)
       su_Package SuiteDuplicate suite_coverage_error [] (br_Suites q) = None"
    by (simp_all only: validate_routing_def option.case err_then_None wrap_error_None)
  have "validate_coverage (Some (canonical_coverage (br_Instrumented q))) = None"
    using canonical_coverage_valid [OF parts(1)] by simp
  moreover have "validate_each (\<lambda>s. if su_Package s = [] \<or> su_DurationNS s < 0 then Some SuiteIdentity else None)
       su_Package SuiteDuplicate suite_coverage_error [] (sort_by su_Package (map canonical_suite_coverage (br_Suites q))) = None"
    using parts(2) by (rule validate_each_canonical) (simp_all add: canonical_suite_coverage_facts)
  ultimately show ?thesis
    by (simp only: Some option.map validate_routing_def option.case err_then_None wrap_error_None canonical_routing_parts simp_thms)
qed (simp add: validate_routing_def)

lemma canonical_baseline_parts:
  "bl_Complete (canonical_baseline b) = bl_Complete b"
  "bl_Targets (canonical_baseline b) = map canonical_unit (sort_by bt_ID (bl_Targets b))"
  "bl_Suites (canonical_baseline b) = sort_by bs_Package (map canonical_partial_suite (bl_Suites b))"
  "bl_Routing (canonical_baseline b) = map_option canonical_routing (bl_Routing b)"
  by (simp_all add: canonical_baseline_def)

lemma validate_checkpoint_None:
  "validate_checkpoint st = None \<longleftrightarrow>
     ck_Schema st = checkpoint_schema_v1 \<and> valid_sha256 (ck_InputDigest st) \<and> \<not> ck_Attempts st < 1 \<and>
     validate_baseline_targets (bl_Complete (ck_Baseline st)) [] [] (bl_Targets (ck_Baseline st)) = None \<and>
     validate_each partial_suite_error bs_Package PartialSuiteDuplicate partial_suite_coverage_error []
       (bl_Suites (ck_Baseline st)) = None \<and>
     \<not> (bl_Complete (ck_Baseline st) \<and> bl_Suites (ck_Baseline st) \<noteq> []) \<and>
     bl_Complete (ck_Baseline st) = (bl_Routing (ck_Baseline st) \<noteq> None) \<and>
     validate_routing (bl_Routing (ck_Baseline st)) = None \<and>
     validate_race (ck_Race st) = None \<and> validate_mutation_state (ck_Mutation st) = None"
  unfolding validate_checkpoint_def Let_def if_error_None err_then_None by blast

lemma canonical_checkpoint_parts:
  "ck_Schema (canonical_checkpoint st) = ck_Schema st"
  "ck_InputDigest (canonical_checkpoint st) = ck_InputDigest st"
  "ck_Attempts (canonical_checkpoint st) = ck_Attempts st"
  "ck_Baseline (canonical_checkpoint st) = canonical_baseline (ck_Baseline st)"
  "ck_Race (canonical_checkpoint st) = map_option canonical_race (ck_Race st)"
  "ck_Mutation (canonical_checkpoint st) = map_option canonical_mutation (ck_Mutation st)"
  by (simp_all add: canonical_checkpoint_def)

lemma canonical_race_valid: "validate_race r = None \<Longrightarrow> validate_race (map_option canonical_race r) = None"
  by (cases r) (auto simp: validate_race_def validate_each_None canonical_race_def)

lemma canonical_mutation_valid:
  assumes "validate_mutation_state m = None"
  shows "validate_mutation_state (map_option canonical_mutation m) = None"
proof (cases m)
  case (Some q)
  with assms canonical_probe_valid [of "mn_Probe q"] show ?thesis
    by (auto simp: validate_mutation_state_def validate_each_None canonical_mutation_def err_simps)
qed (simp add: validate_mutation_state_def)

lemma canonical_checkpoint_valid:
  assumes "validate_checkpoint st = None"
  shows "validate_checkpoint (canonical_checkpoint st) = None"
proof -
  have suites: "validate_each partial_suite_error bs_Package PartialSuiteDuplicate partial_suite_coverage_error []
      (sort_by bs_Package (map canonical_partial_suite (bl_Suites (ck_Baseline st)))) = None"
    using assms by (intro validate_each_canonical) (simp_all add: validate_checkpoint_None canonical_partial_suite_facts)
  have same: "(sort_by bs_Package (map canonical_partial_suite xs) = []) = (xs = [])"
    "(map_option canonical_routing r = None) = (r = None)" for xs r by simp_all
  from assms suites show ?thesis
    using baseline_targets_canonical [of "bl_Complete (ck_Baseline st)" "bl_Targets (ck_Baseline st)"]
      canonical_routing_valid [of "bl_Routing (ck_Baseline st)"] canonical_race_valid [of "ck_Race st"]
      canonical_mutation_valid [of "ck_Mutation st"]
    unfolding validate_checkpoint_None canonical_checkpoint_parts canonical_baseline_parts same by blast
qed

section \<open>The canonical form is fixed\<close>

lemma canonical_target_idem: "canonical_target_evidence (canonical_target_evidence t) = canonical_target_evidence t"
proof -
  have "sort_slice (remdups_adj (sort_slice xs)) = remdups_adj (sort_slice xs)" for xs :: "nat list"
    using strict_sorted_compact [of "sort_slice xs"] by (intro sorted_infected(1)) simp
  then show ?thesis
    by (simp add: canonical_target_evidence_def ordered.sort_func_idem option.map_comp comp_def)
      (metis distinct_adj_altdef distinct_adj_remdups_adj)
qed

lemma canonical_unit_idem: "canonical_unit (canonical_unit unit) = canonical_unit unit"
  by (simp add: canonical_unit_def option.map_comp comp_def canonical_target_idem)

lemma canonical_coverages_idem:
  "canonical_partial_suite (canonical_partial_suite s) = canonical_partial_suite s"
  "canonical_suite_coverage (canonical_suite_coverage u) = canonical_suite_coverage u"
  by (simp_all add: canonical_partial_suite_def canonical_suite_coverage_def option.map_comp comp_def)

lemma sort_by_map_idem:
  assumes "\<And>x. key (f x) = key x" "\<And>x. f (f x) = f x"
  shows "sort_by key (map f (sort_by key (map f xs))) = sort_by key (map f xs)"
  using assms by (intro sort_map_idem) (simp_all add: sort_keys_idem)

lemma canonical_routing_idem: "canonical_routing (canonical_routing r) = canonical_routing r"
  by (simp add: canonical_routing_def sort_by_map_idem canonical_coverages_idem canonical_suite_coverage_facts)

lemma canonical_baseline_idem: "canonical_baseline (canonical_baseline b) = canonical_baseline b"
proof -
  have "sort_by bt_ID (map canonical_unit (sort_by bt_ID us)) = map canonical_unit (sort_by bt_ID us)" for us
    by (simp add: sort_map_commute sort_keys_idem)
  then show ?thesis
    by (simp add: canonical_baseline_def canonical_unit_idem sort_by_map_idem canonical_coverages_idem
        canonical_partial_suite_facts canonical_routing_idem option.map_comp comp_def)
qed

lemma canonical_probe_idem: "canonical_probe (canonical_probe p) = canonical_probe p"
  by (simp add: canonical_probe_def sort_by_map_idem ordered.sort_func_idem)

lemma canonical_mutation_idem: "canonical_mutation (canonical_mutation m) = canonical_mutation m"
  by (simp add: canonical_mutation_def sort_keys_idem canonical_probe_idem option.map_comp comp_def)

lemma canonical_race_idem: "canonical_race (canonical_race r) = canonical_race r"
  by (simp add: canonical_race_def ordered.sort_func_idem)

lemma canonical_checkpoint_idem: "canonical_checkpoint (canonical_checkpoint st) = canonical_checkpoint st"
  by (simp add: canonical_checkpoint_def canonical_baseline_idem canonical_race_idem canonical_mutation_idem
      option.map_comp comp_def)

section \<open>A checkpoint that is written is one that is accepted\<close>

text \<open>
  A checkpoint that \<open>Validate\<close> accepts is still accepted once it is in the form \<open>JSON\<close> writes
  it in, which is fixed: an interrupted run never writes a checkpoint that its successor refuses.
\<close>

theorem canonical_checkpoint_sound:
  assumes "validate_checkpoint st = None"
  shows "validate_checkpoint (canonical_checkpoint st) = None \<and>
    canonical_checkpoint (canonical_checkpoint st) = canonical_checkpoint st"
  using canonical_checkpoint_valid [OF assms] canonical_checkpoint_idem by simp

definition sample_block :: "int \<Rightarrow> ck_block" where
  "sample_block line = \<lparr>kb_StartLine = line, kb_StartColumn = 1, kb_EndLine = line, kb_EndColumn = 9\<rparr>"

definition measured_evidence :: ck_target_evidence where
  "measured_evidence = \<lparr>
     ke_Target = \<lparr>kt_ID = ''t2'', kt_Name = ''TestB'', kt_Kind = ''test'', kt_Package = ''p'', kt_RelativeDir = ''.'',
       kt_Path = ''b_test.go'', kt_Line = 4, kt_Capabilities = [''net'', ''fs''], kt_Dependencies = []\<rparr>,
     ke_CoveredFiles = [''b.go'', ''a.go''], ke_Environment = [], ke_DurationNS = 7, ke_WholeTree = False,
     ke_Coverage = Some \<lparr>kc_Files = [\<lparr>kf_Path = ''b.go'', kf_Blocks = [sample_block 5, sample_block 3, sample_block 5]\<rparr>]\<rparr>,
     ke_Probed = True, ke_ProbeDurationNS = 2, ke_Infected = [1, 4], ke_Instrumented = None\<rparr>"

definition sample_unit :: "string \<Rightarrow> ck_target_evidence option \<Rightarrow> baseline_target" where
  "sample_unit i evidence = \<lparr>bt_ID = i, bt_Executed = (evidence \<noteq> None), bt_Skipped = (evidence = None),
     bt_Evidence = [], bt_Findings = [],
     bt_Inventory = \<lparr>td_ID = i, td_Name = ''TestB'', td_Kind = ''test'', td_Package = ''p'', td_Path = ''b_test.go'',
       td_Line = 4, td_Status = ''passed'', td_DurationMS = 3, td_Detail = []\<rparr>,
     bt_Target = evidence\<rparr>"

definition sample_checkpoint :: checkpoint_state where
  "sample_checkpoint = \<lparr>
     ck_Schema = checkpoint_schema_v1, ck_InputDigest = replicate 64 (CHR ''a''), ck_Attempts = 2,
     ck_Baseline = \<lparr>bl_BuildVetComplete = True, bl_Complete = False, bl_Evidence = [], bl_Findings = [],
       bl_Targets = [sample_unit ''t2'' (Some measured_evidence), sample_unit ''t1'' None],
       bl_Suites = [], bl_Routing = None\<rparr>,
     ck_Race = Some \<lparr>ra_Complete = True, ra_Packages = [''q'', ''p''], ra_Evidence = [], ra_Findings = []\<rparr>,
     ck_Mutation = None\<rparr>"

text \<open>The sample is not canonical as it stands: its targets, packages and blocks are out of order.\<close>

theorem canonical_checkpoint_sound_witness:
  "validate_checkpoint (canonical_checkpoint sample_checkpoint) = None \<and>
   canonical_checkpoint (canonical_checkpoint sample_checkpoint) = canonical_checkpoint sample_checkpoint \<and>
   canonical_checkpoint sample_checkpoint \<noteq> sample_checkpoint"
proof -
  have valid: "validate_checkpoint sample_checkpoint = None" by code_simp
  have "map bt_ID (bl_Targets (ck_Baseline (canonical_checkpoint sample_checkpoint))) = [''t1'', ''t2'']" by code_simp
  moreover have "map bt_ID (bl_Targets (ck_Baseline sample_checkpoint)) = [''t2'', ''t1'']" by code_simp
  ultimately have "canonical_checkpoint sample_checkpoint \<noteq> sample_checkpoint" by auto
  with canonical_checkpoint_sound [OF valid] show ?thesis by blast
qed

end
