(* ===== verification/Probe.thy ===== *)
theory Probe
  imports RepositoryObservation Accounting Checkpoint
begin

text \<open>
  The probe phase (\<open>internal/assure/probe.go\<close>): one instrumented run per target and package
  suite says which mutants it infects; the measurements are saved in the checkpoint and read
  back by a later run over the same catalog. The processes are a session of the go-mutants
  library, a function of its world; the workers take the work in an order that is an argument.
\<close>

section \<open>The data\<close>

record probe_options =
  po_Timeout :: int
  po_TestArgs :: "string list"
  po_Jobs :: int
  po_PackageSuites :: bool
  po_SuitePackages :: "string list"
  po_Suites :: "(string \<times> package_probe_evidence) list"
  po_SuiteEnvironment :: "string list"
  po_SuiteCoverage :: "string \<rightharpoonup> package_suite_coverage"
  po_Observer :: "repository_observer option"

record probe_evaluation =
  pb_Targets :: "target_evidence list"
  pb_Measured :: int
  pb_Unmeasured :: int
  pb_Suites :: "(string \<times> package_probe_evidence) list"
  pb_SuitesMeasured :: int
  pb_SuitesUnmeasured :: int

record probe_request =
  pq_Package :: string
  pq_Args :: "string list"
  pq_Env :: "string list"
  pq_Timeout :: int

datatype probe_outcome = ProbeMeasured | ProbeOutcome string

record probe_result =
  pr_Outcome :: probe_outcome
  pr_ExitCode :: int
  pr_Duration :: int
  pr_Infected :: "nat list"
  pr_Output :: string

record probe_record =
  px_Target :: string
  px_Package :: string
  px_Suite :: bool
  px_Args :: "string list"
  px_TimeoutMS :: int
  px_Outcome :: string
  px_ExitCode :: int
  px_DurationMS :: int
  px_Infected :: "string list"
  px_WholeTree :: bool
  px_WholeTreeReason :: string
  px_Error :: string

datatype probe_failure = ProbeNotPrepared string | ProbeFailed string

datatype probe_error =
    ProbeCancelled string
  | ProbeTargetFailed string string
  | ProbeSuiteFailed string string
  | ProbeObservationFailed string

text \<open>The session: whether the context is cancelled, and a probe of a request.\<close>

record 'w probe_session =
  pn_cancelled :: "'w \<Rightarrow> string option"
  pn_probe :: "'w \<Rightarrow> probe_request \<Rightarrow> (probe_failure + probe_result) \<times> 'w"
  pn_files :: "'w log_files"

record probe_measurement =
  pm_measured :: bool
  pm_infected :: "nat list"
  pm_duration :: int
  pm_record :: "probe_record option"
  pm_fatal :: "probe_error option"
  pm_wholeTree :: bool

record probe_work =
  pw_targetPosition :: nat
  pw_packageName :: string
  pw_control :: int

definition no_measurement :: probe_measurement where
  "no_measurement = \<lparr>pm_measured = False, pm_infected = [], pm_duration = 0, pm_record = None, pm_fatal = None, pm_wholeTree = False\<rparr>"

definition fatal_measurement :: "probe_error \<Rightarrow> probe_measurement" where
  "fatal_measurement e = no_measurement\<lparr>pm_fatal := Some e\<rparr>"

section \<open>Requests and results\<close>

definition probed_target_positions :: "target_evidence list \<Rightarrow> nat list" where
  "probed_target_positions targets = filter (\<lambda>i. \<not> te_Probed (targets ! i)) [0..<length targets]"

definition probe_target_count :: "target_evidence list \<Rightarrow> int" where
  "probe_target_count targets = int (length (probed_target_positions targets))"

text \<open>A later mutant with the same index replaces an earlier one.\<close>

definition probe_mutant_identities :: "catalog \<Rightarrow> nat \<rightharpoonup> string" where
  "probe_mutant_identities cat = map_of (rev (map (\<lambda>m. (mu_Index m, mu_ID m)) (cat_Mutants cat)))"

definition probe_suite_packages :: "catalog \<Rightarrow> string list" where
  "probe_suite_packages cat =
     sort_slice (remdups (map mu_Package (filter (\<lambda>m. mu_Accepted m \<and> mu_Package m \<noteq> []) (cat_Mutants cat))))"

definition package_suite_control_duration :: "target_evidence list \<Rightarrow> string \<Rightarrow> int" where
  "package_suite_control_duration targets pkg =
     fold (\<lambda>t duration. if t_Package (te_Target t) = pkg then saturating_duration_sum duration (te_Duration t) else duration)
       targets 0"

definition suite_coverage_control_duration :: "(string \<rightharpoonup> package_suite_coverage) \<Rightarrow> string \<Rightarrow> int" where
  "suite_coverage_control_duration suites pkg = (case suites pkg of None \<Rightarrow> 0 | Some suite \<Rightarrow> sv_Duration suite)"

definition probe_request :: "target_evidence \<Rightarrow> probe_options \<Rightarrow> probe_request" where
  "probe_request target options =
     \<lparr>pq_Package = t_Package (te_Target target), pq_Args = target_run_argument target # po_TestArgs options,
      pq_Env = te_Environment target,
      pq_Timeout = control_execution_timeout (po_Timeout options)
        [te_Duration target, suite_coverage_control_duration (po_SuiteCoverage options) (t_Package (te_Target target))]\<rparr>"

text \<open>\<open>time.Duration.Milliseconds\<close> truncates; negative ones are shown as zero.\<close>

definition trace_milliseconds :: "int \<Rightarrow> int" where
  "trace_milliseconds duration = max (if duration < 0 then - (- duration div 1000000) else duration div 1000000) 0"

definition probe_request_record :: "string \<Rightarrow> bool \<Rightarrow> probe_request \<Rightarrow> probe_record" where
  "probe_request_record name suite request =
     \<lparr>px_Target = name, px_Package = pq_Package request, px_Suite = suite, px_Args = pq_Args request,
      px_TimeoutMS = trace_milliseconds (pq_Timeout request), px_Outcome = [], px_ExitCode = 0, px_DurationMS = 0,
      px_Infected = [], px_WholeTree = False, px_WholeTreeReason = [], px_Error = []\<rparr>"

definition outcome_text :: "probe_outcome \<Rightarrow> string" where
  "outcome_text outcome' = (case outcome' of ProbeMeasured \<Rightarrow> ''measured'' | ProbeOutcome s \<Rightarrow> s)"

text \<open>The identifiers of the infected mutants, or the first index no mutant has.\<close>

fun identify_infected :: "(nat \<rightharpoonup> string) \<Rightarrow> nat list \<Rightarrow> nat + string list" where
  "identify_infected identities [] = Inr []"
| "identify_infected identities (i # is) =
     (case identities i of
        None \<Rightarrow> Inl i
      | Some mutant_id \<Rightarrow> (case identify_infected identities is of Inl j \<Rightarrow> Inl j | Inr names \<Rightarrow> Inr (mutant_id # names)))"

definition probe_result_record ::
  "string \<Rightarrow> bool \<Rightarrow> probe_request \<Rightarrow> probe_result \<Rightarrow> (nat \<rightharpoonup> string) \<Rightarrow> probe_record \<times> nat list \<times> bool" where
  "probe_result_record name suite request result identities =
     (let record = (probe_request_record name suite request)\<lparr>px_Outcome := outcome_text (pr_Outcome result),
            px_ExitCode := pr_ExitCode result, px_DurationMS := trace_milliseconds (pr_Duration result)\<rparr>
      in if pr_Outcome result \<noteq> ProbeMeasured then (record, [], False)
         else
           let infected = remdups_adj (sort_slice (pr_Infected result))
           in case identify_infected identities infected of
                Inl index \<Rightarrow> (record\<lparr>px_Outcome := [], px_Error := ''probe reported an unknown mutant index '' @ itoa (int index)\<rparr>, [], False)
              | Inr identifiers \<Rightarrow> (record\<lparr>px_Infected := identifiers\<rparr>, infected, True))"

section \<open>One probe\<close>

definition failure_text :: "probe_failure \<Rightarrow> string" where
  "failure_text failure = (case failure of ProbeNotPrepared s \<Rightarrow> s | ProbeFailed s \<Rightarrow> s)"

definition probe_stops :: "'w probe_session \<Rightarrow> 'w \<Rightarrow> probe_failure \<Rightarrow> bool" where
  "probe_stops session w failure \<longleftrightarrow>
     pn_cancelled session w \<noteq> None \<or> (case failure of ProbeNotPrepared _ \<Rightarrow> True | ProbeFailed _ \<Rightarrow> False)"

definition probe_target ::
  "'w probe_session \<Rightarrow> target_evidence \<Rightarrow> (nat \<rightharpoonup> string) \<Rightarrow> probe_options \<Rightarrow> 'w \<Rightarrow> probe_measurement \<times> 'w" where
  "probe_target session target identities options w =
     (let request = probe_request target options;
          record = probe_request_record (te_ID target) False request
      in case pn_cancelled session w of
           Some e \<Rightarrow> (fatal_measurement (ProbeCancelled e), w)
         | None \<Rightarrow>
             (case pn_probe session w request of
                (Inl failure, w) \<Rightarrow>
                  (if probe_stops session w failure
                   then (fatal_measurement (ProbeTargetFailed (t_Name (te_Target target)) (failure_text failure)), w)
                   else (no_measurement\<lparr>pm_record := Some (record\<lparr>px_Error := failure_text failure\<rparr>)\<rparr>, w))
              | (Inr result, w) \<Rightarrow>
                  let (record, infected, measured) = probe_result_record (te_ID target) False request result identities
                  in if \<not> measured then (no_measurement\<lparr>pm_record := Some record\<rparr>, w)
                     else (no_measurement\<lparr>pm_measured := True, pm_infected := infected, pm_duration := pr_Duration result,
                             pm_record := Some record\<rparr>, w)))"

definition suite_probe_request :: "string \<Rightarrow> int \<Rightarrow> probe_options \<Rightarrow> probe_request" where
  "suite_probe_request pkg control options =
     \<lparr>pq_Package = pkg, pq_Args = po_TestArgs options, pq_Env = po_SuiteEnvironment options,
      pq_Timeout = control_execution_timeout (po_Timeout options)
        [control, suite_coverage_control_duration (po_SuiteCoverage options) pkg]\<rparr>"

definition reason_text :: "whole_tree_reason \<Rightarrow> string" where
  "reason_text reason =
     (case reason of Observed \<Rightarrow> [] | StaticUnobservable \<Rightarrow> ''static-unobservable'' | LogUnavailable \<Rightarrow> ''log-unavailable''
      | LogAmbiguous \<Rightarrow> ''log-ambiguous'' | DirectoryAccess \<Rightarrow> ''directory-access'' | OutsideInput \<Rightarrow> ''outside-input'')"

definition probe_suite ::
  "'w probe_session \<Rightarrow> string \<Rightarrow> int \<Rightarrow> (nat \<rightharpoonup> string) \<Rightarrow> probe_options \<Rightarrow> 'w \<Rightarrow> probe_measurement \<times> 'w" where
  "probe_suite session pkg control identities options w =
     (let request = suite_probe_request pkg control options;
          name = package_suite_probe_target pkg;
          record = probe_request_record name True request
      in case pn_cancelled session w of
           Some e \<Rightarrow> (fatal_measurement (ProbeCancelled e), w)
         | None \<Rightarrow>
             (let ((arguments, pending), w) = instrument_package (pn_files session) (po_Observer options) w pkg (pq_Args request);
                  (reply, w) = pn_probe session w (request\<lparr>pq_Args := arguments\<rparr>);
                  (observation, w) = finish_observation (pn_files session) (po_Observer options) w pending
              in case reply of
                   Inl failure \<Rightarrow>
                     (if probe_stops session w failure
                      then (fatal_measurement (ProbeSuiteFailed pkg (failure_text failure)), w)
                      else (no_measurement\<lparr>pm_record := Some (record\<lparr>px_Error := failure_text failure\<rparr>)\<rparr>, w))
                 | Inr result \<Rightarrow>
                     if repository_test_log_failure (pr_Output result) arguments
                     then ((fatal_measurement (ProbeObservationFailed pkg))\<lparr>pm_record :=
                             Some (record\<lparr>px_Error := ''goatest: repository observation for probe package suite '' @ pkg @ '' failed''\<rparr>)\<rparr>, w)
                     else
                       let (record, infected, measured) = probe_result_record name True request result identities;
                           reason = whole_tree_suite_reason (po_Observer options) pkg observation;
                           record = record\<lparr>px_WholeTreeReason := reason_text reason, px_WholeTree := (reason \<noteq> Observed)\<rparr>;
                           measurement = no_measurement\<lparr>pm_duration := pr_Duration result, pm_record := Some record\<rparr>
                       in if \<not> measured then (measurement, w)
                          else (measurement\<lparr>pm_measured := True, pm_infected := infected, pm_wholeTree := (reason \<noteq> Observed)\<rparr>, w)))"

section \<open>The probe phase\<close>

definition count_suite :: "package_probe_evidence \<Rightarrow> probe_evaluation \<Rightarrow> probe_evaluation" where
  "count_suite suite evaluation =
     (if pe_Measured suite then evaluation\<lparr>pb_SuitesMeasured := pb_SuitesMeasured evaluation + 1\<rparr>
      else evaluation\<lparr>pb_SuitesUnmeasured := pb_SuitesUnmeasured evaluation + 1\<rparr>)"

definition probe_start :: "target_evidence list \<Rightarrow> probe_options \<Rightarrow> probe_evaluation" where
  "probe_start targets options =
     fold (\<lambda>(pkg, suite) evaluation. count_suite suite (evaluation\<lparr>pb_Suites := AList.update pkg suite (pb_Suites evaluation)\<rparr>))
       (po_Suites options)
       \<lparr>pb_Targets = targets, pb_Measured = int (length (filter te_Probed targets)), pb_Unmeasured = 0,
        pb_Suites = [], pb_SuitesMeasured = 0, pb_SuitesUnmeasured = 0\<rparr>"

definition probe_packages :: "catalog \<Rightarrow> probe_options \<Rightarrow> string list" where
  "probe_packages cat options =
     (let packages = remdups_adj (sort_slice (po_SuitePackages options));
          packages = (if packages = [] \<and> po_PackageSuites options then probe_suite_packages cat else packages)
      in filter (\<lambda>pkg. case map_of (po_Suites options) pkg of None \<Rightarrow> True | Some suite \<Rightarrow> \<not> pe_Measured suite) packages)"

definition probe_work_of :: "catalog \<Rightarrow> target_evidence list \<Rightarrow> probe_options \<Rightarrow> probe_work list" where
  "probe_work_of cat targets options =
     map (\<lambda>position. \<lparr>pw_targetPosition = position, pw_packageName = [], pw_control = 0\<rparr>) (probed_target_positions targets) @
     map (\<lambda>pkg. \<lparr>pw_targetPosition = 0, pw_packageName = pkg, pw_control = package_suite_control_duration targets pkg\<rparr>)
       (probe_packages cat options)"

text \<open>A worker's turn, with the record it traces.\<close>

definition run_probe_work ::
  "'w probe_session \<Rightarrow> catalog \<Rightarrow> target_evidence list \<Rightarrow> probe_options \<Rightarrow> probe_work \<Rightarrow> 'w \<times> probe_record list \<Rightarrow>
   probe_measurement \<times> 'w \<times> probe_record list" where
  "run_probe_work session cat targets options item state =
     (let (w, traced) = state;
          identities = probe_mutant_identities cat;
          (measurement, w) =
            (if pw_packageName item \<noteq> [] then probe_suite session (pw_packageName item) (pw_control item) identities options w
             else probe_target session (targets ! pw_targetPosition item) identities options w)
      in (measurement, w, traced @ (case pm_record measurement of None \<Rightarrow> [] | Some record \<Rightarrow> [record])))"

definition run_probes ::
  "'w probe_session \<Rightarrow> catalog \<Rightarrow> target_evidence list \<Rightarrow> probe_options \<Rightarrow> probe_work list \<Rightarrow> nat list \<Rightarrow>
   'w \<times> probe_record list \<Rightarrow> probe_measurement option list \<times> 'w \<times> probe_record list" where
  "run_probes session cat targets options work order state =
     fold (\<lambda>i (results, state). let (measurement, state) = run_probe_work session cat targets options (work ! i) state
                                in (results[i := Some measurement], state))
       order (replicate (length work) None, state)"

definition settle_probe :: "probe_work \<Rightarrow> probe_measurement \<Rightarrow> probe_evaluation \<Rightarrow> probe_evaluation" where
  "settle_probe item measurement evaluation =
     (if pw_packageName item \<noteq> [] then
        let suite = \<lparr>pe_Measured = pm_measured measurement, pe_Infected = pm_infected measurement,
                     pe_Duration = pm_duration measurement, pe_WholeTree = pm_wholeTree measurement\<rparr>
        in count_suite suite (evaluation\<lparr>pb_Suites := AList.update (pw_packageName item) suite (pb_Suites evaluation)\<rparr>)
      else
        let i = pw_targetPosition item;
            t = (pb_Targets evaluation ! i)\<lparr>te_Probed := pm_measured measurement, te_Infected := pm_infected measurement\<rparr>
        in if pm_measured measurement
           then evaluation\<lparr>pb_Targets := (pb_Targets evaluation)[i := t\<lparr>te_ProbeDuration := pm_duration measurement\<rparr>],
                           pb_Measured := pb_Measured evaluation + 1\<rparr>
           else evaluation\<lparr>pb_Targets := (pb_Targets evaluation)[i := t], pb_Unmeasured := pb_Unmeasured evaluation + 1\<rparr>)"

fun settle_probes :: "(probe_work \<times> probe_measurement option) list \<Rightarrow> probe_evaluation \<Rightarrow> probe_error + probe_evaluation" where
  "settle_probes [] evaluation = Inr evaluation"
| "settle_probes ((item, None) # rest) evaluation = settle_probes rest (settle_probe item no_measurement evaluation)"
| "settle_probes ((item, Some measurement) # rest) evaluation =
     (case pm_fatal measurement of
        Some e \<Rightarrow> Inl e
      | None \<Rightarrow> settle_probes rest (settle_probe item measurement evaluation))"

definition probe_targets ::
  "'w probe_session \<Rightarrow> catalog \<Rightarrow> target_evidence list \<Rightarrow> probe_options \<Rightarrow> (nat \<Rightarrow> nat list) \<Rightarrow> 'w \<times> probe_record list \<Rightarrow>
   (probe_error + probe_evaluation) \<times> 'w \<times> probe_record list" where
  "probe_targets session cat targets options order state =
     (let work = probe_work_of cat targets options in
      if work = [] then (Inr (probe_start targets options), state)
      else
        let (results, state) = run_probes session cat targets options work (order (length work)) state
        in (settle_probes (zip work results) (probe_start targets options), state))"

section \<open>The probe in the checkpoint\<close>

text \<open>The identity of the mutant indexes: index, identifier and flags of each mutant, framed.\<close>

definition compare_index_entries :: "mutant \<Rightarrow> mutant \<Rightarrow> int" where
  "compare_index_entries a b =
     (if mu_Index a < mu_Index b then - 1 else if mu_Index a > mu_Index b then 1 else cmp_compare (mu_ID a) (mu_ID b))"

definition index_entry :: "mutant \<Rightarrow> string" where
  "index_entry m =
     be_bytes 4 (mu_Index m mod 2 ^ 32) @ write_field (mu_ID m) @
     [char_of ((if mu_Accepted m then 1 else 0) + (if mu_Probed m then 2 else 0) :: nat)]"

definition probe_index_preimage :: "catalog \<Rightarrow> string" where
  "probe_index_preimage cat =
     ''goatest-mutation-probe-index-v1'' @ [nul] @ concat (map index_entry (sort_func compare_index_entries (cat_Mutants cat)))"

definition mutation_probe_index_fingerprint :: "(string \<Rightarrow> string) \<Rightarrow> catalog \<Rightarrow> string" where
  "mutation_probe_index_fingerprint sha cat = sha (probe_index_preimage cat)"

definition checkpoint_target_probe :: "target_evidence \<Rightarrow> target_probe" where
  "checkpoint_target_probe t =
     (if te_Probed t
      then \<lparr>tp_ID = te_ID t, tp_Measured = True, tp_DurationNS = te_ProbeDuration t,
            tp_Infected = remdups_adj (sort_slice (te_Infected t))\<rparr>
      else \<lparr>tp_ID = te_ID t, tp_Measured = False, tp_DurationNS = 0, tp_Infected = []\<rparr>)"

definition checkpoint_suite_probe :: "string \<Rightarrow> package_probe_evidence \<Rightarrow> suite_probe" where
  "checkpoint_suite_probe pkg suite =
     (if pe_Measured suite
      then \<lparr>sp_Package = pkg, sp_Measured = True, sp_DurationNS = pe_Duration suite,
            sp_Infected = remdups_adj (sort_slice (pe_Infected suite)), sp_WholeTree = pe_WholeTree suite\<rparr>
      else \<lparr>sp_Package = pkg, sp_Measured = False, sp_DurationNS = 0, sp_Infected = [], sp_WholeTree = False\<rparr>)"

definition checkpoint_mutation_probe :: "(string \<Rightarrow> string) \<Rightarrow> catalog \<Rightarrow> probe_evaluation \<Rightarrow> mutation_probe" where
  "checkpoint_mutation_probe sha cat evaluation =
     \<lparr>mp_IndexFingerprint = mutation_probe_index_fingerprint sha cat,
      mp_Targets = map checkpoint_target_probe (pb_Targets evaluation),
      mp_Suites = map (\<lambda>pkg. checkpoint_suite_probe pkg (the (map_of (pb_Suites evaluation) pkg)))
        (sort_slice (remdups (map fst (pb_Suites evaluation))))\<rparr>"

definition valid_checkpoint_probe_fact :: "bool \<Rightarrow> int \<Rightarrow> nat list \<Rightarrow> bool \<Rightarrow> bool" where
  "valid_checkpoint_probe_fact measured durationNS infected wholeTree \<longleftrightarrow>
     \<not> (durationNS < 0 \<or> \<not> measured \<and> (durationNS \<noteq> 0 \<or> length infected \<noteq> 0 \<or> wholeTree)) \<and> strictly_increasing infected"

definition clear_probe :: "target_evidence \<Rightarrow> target_evidence" where
  "clear_probe t = t\<lparr>te_Probed := False, te_ProbeDuration := 0, te_Infected := []\<rparr>"

text \<open>\<open>positions\<close> is \<open>byID\<close>; \<open>seen\<close> is \<open>seenTargets\<close>.\<close>

fun restore_target_probes ::
  "nat set \<Rightarrow> (string \<rightharpoonup> nat) \<Rightarrow> string list \<Rightarrow> target_probe list \<Rightarrow> target_evidence list \<Rightarrow> target_evidence list option" where
  "restore_target_probes known positions seen [] targets = Some targets"
| "restore_target_probes known positions seen (measured # rest) targets =
     (case positions (tp_ID measured) of
        None \<Rightarrow> None
      | Some position \<Rightarrow>
          if tp_ID measured \<in> set seen \<or>
             \<not> valid_checkpoint_probe_fact (tp_Measured measured) (tp_DurationNS measured) (tp_Infected measured) False \<or>
             list_ex (\<lambda>i. i \<notin> known) (tp_Infected measured)
          then None
          else restore_target_probes known positions (tp_ID measured # seen) rest
                 (if tp_Measured measured
                  then targets[position := (targets ! position)\<lparr>te_Probed := True, te_ProbeDuration := tp_DurationNS measured,
                                                                te_Infected := tp_Infected measured\<rparr>]
                  else targets))"

fun restore_suite_probes :: "nat set \<Rightarrow> suite_probe list \<Rightarrow> probe_evaluation \<Rightarrow> probe_evaluation option" where
  "restore_suite_probes known [] evaluation = Some evaluation"
| "restore_suite_probes known (measured # rest) evaluation =
     (if sp_Package measured = [] \<or>
         \<not> valid_checkpoint_probe_fact (sp_Measured measured) (sp_DurationNS measured) (sp_Infected measured) (sp_WholeTree measured) \<or>
         list_ex (\<lambda>i. i \<notin> known) (sp_Infected measured)
      then None
      else
        let suite = \<lparr>pe_Measured = sp_Measured measured, pe_Infected = sp_Infected measured,
                     pe_Duration = sp_DurationNS measured, pe_WholeTree = sp_WholeTree measured\<rparr>
        in restore_suite_probes known rest
             (count_suite suite (evaluation\<lparr>pb_Suites := AList.update (sp_Package measured) suite (pb_Suites evaluation)\<rparr>)))"

definition restore_mutation_probe ::
  "(string \<Rightarrow> string) \<Rightarrow> catalog \<Rightarrow> target_evidence list \<Rightarrow> string list \<Rightarrow> mutation_probe \<Rightarrow> probe_evaluation option" where
  "restore_mutation_probe sha cat targets packages saved =
     (let targets = map clear_probe targets;
          names = map te_ID targets;
          positions = map_of (zip names [0..<length targets]);
          known = mu_Index ` set (cat_Mutants cat)
      in if mp_IndexFingerprint saved \<noteq> mutation_probe_index_fingerprint sha cat then None
         else if [] \<in> set names \<or> \<not> distinct names then None
         else if length (mp_Targets saved) \<noteq> length targets then None
         else case restore_target_probes known positions [] (mp_Targets saved) targets of
           None \<Rightarrow> None
         | Some targets \<Rightarrow>
             if sort_slice (map sp_Package (mp_Suites saved)) \<noteq> remdups_adj (sort_slice packages) then None
             else restore_suite_probes known (mp_Suites saved)
                    \<lparr>pb_Targets = targets, pb_Measured = int (length (filter te_Probed targets)),
                     pb_Unmeasured = int (length (filter (\<lambda>t. \<not> te_Probed t) targets)),
                     pb_Suites = [], pb_SuitesMeasured = 0, pb_SuitesUnmeasured = 0\<rparr>)"

end
