(* ===== verification/ProbeRestore.thy ===== *)
theory ProbeRestore
  imports Probe
begin

text \<open>
  The measurements of the probe phase are well-formed, and a checkpoint gives them back; the
  bytes of the index fingerprint determine what it identifies.
\<close>

section \<open>Reading back a saved probe\<close>

definition fact_ok :: "nat set \<Rightarrow> bool \<Rightarrow> int \<Rightarrow> nat list \<Rightarrow> bool" where
  "fact_ok known measured duration infected \<longleftrightarrow>
     (if measured then 0 \<le> duration \<and> strictly_increasing infected \<and> set infected \<subseteq> known
      else duration = 0 \<and> infected = [])"

definition target_fact_ok :: "nat set \<Rightarrow> target_evidence \<Rightarrow> bool" where
  "target_fact_ok known t = fact_ok known (te_Probed t) (te_ProbeDuration t) (te_Infected t)"

definition suite_fact_ok :: "nat set \<Rightarrow> package_probe_evidence \<Rightarrow> bool" where
  "suite_fact_ok known suite \<longleftrightarrow>
     pe_Measured suite \<longrightarrow> 0 \<le> pe_Duration suite \<and> strictly_increasing (pe_Infected suite) \<and> set (pe_Infected suite) \<subseteq> known"

text \<open>What is kept of a suite: of one that was not measured, nothing.\<close>

definition kept_suite :: "package_probe_evidence \<Rightarrow> package_probe_evidence" where
  "kept_suite suite =
     (if pe_Measured suite then suite else \<lparr>pe_Measured = False, pe_Infected = [], pe_Duration = 0, pe_WholeTree = False\<rparr>)"

definition catalog_indexes :: "catalog \<Rightarrow> nat set" where
  "catalog_indexes cat = mu_Index ` set (cat_Mutants cat)"

definition probe_wf :: "catalog \<Rightarrow> probe_evaluation \<Rightarrow> bool" where
  "probe_wf cat e \<longleftrightarrow>
     list_all (target_fact_ok (catalog_indexes cat)) (pb_Targets e) \<and>
     pb_Measured e = int (length (filter te_Probed (pb_Targets e))) \<and>
     pb_Unmeasured e = int (length (filter (\<lambda>t. \<not> te_Probed t) (pb_Targets e))) \<and>
     distinct (map fst (pb_Suites e)) \<and> [] \<notin> set (map fst (pb_Suites e)) \<and>
     list_all (suite_fact_ok (catalog_indexes cat)) (map snd (pb_Suites e)) \<and>
     pb_SuitesMeasured e = int (length (filter pe_Measured (map snd (pb_Suites e)))) \<and>
     pb_SuitesUnmeasured e = int (length (filter (\<lambda>s. \<not> pe_Measured s) (map snd (pb_Suites e))))"

lemma fact_valid:
  "fact_ok known measured duration infected \<Longrightarrow> valid_checkpoint_probe_fact measured duration infected False"
  "fact_ok known measured duration infected \<Longrightarrow> \<not> list_ex (\<lambda>i. i \<notin> known) infected"
  by (auto simp: fact_ok_def valid_checkpoint_probe_fact_def list_ex_iff split: if_split_asm)

lemma saved_target:
  assumes "target_fact_ok known t"
  shows "checkpoint_target_probe t = \<lparr>tp_ID = te_ID t, tp_Measured = te_Probed t, tp_DurationNS = te_ProbeDuration t,
    tp_Infected = te_Infected t\<rparr>"
  using assms by (auto simp: target_fact_ok_def fact_ok_def checkpoint_target_probe_def strictly_increasing_sorted sorted_infected(2))

lemma restored_target:
  assumes "target_fact_ok known t"
  shows "(if te_Probed t then (clear_probe t)\<lparr>te_Probed := True, te_ProbeDuration := te_ProbeDuration t, te_Infected := te_Infected t\<rparr>
    else clear_probe t) = t"
  using assms by (cases t) (auto simp: target_fact_ok_def fact_ok_def clear_probe_def)

lemma restore_targets_saved:
  assumes "\<forall>i < length ts. positions (te_ID (ts ! i)) = Some (length done + i)" "distinct (map te_ID ts)"
    and "te_ID ` set ts \<inter> set seen = {}" "list_all (target_fact_ok known) ts"
  shows "restore_target_probes known positions seen (map checkpoint_target_probe ts) (done @ map clear_probe ts) = Some (done @ ts)"
  using assms
proof (induction ts arbitrary: "done" seen)
  case (Cons t ts)
  let ?saved = "\<lparr>tp_ID = te_ID t, tp_Measured = te_Probed t, tp_DurationNS = te_ProbeDuration t, tp_Infected = te_Infected t\<rparr>"
  have ok: "target_fact_ok known t" "list_all (target_fact_ok known) ts" using Cons.prems(4) by simp_all
  note fact = fact_valid [OF ok(1) [unfolded target_fact_ok_def]]
  have pos: "positions (te_ID t) = Some (length done)" using Cons.prems(1) by force
  have more: "\<forall>i < length ts. positions (te_ID (ts ! i)) = Some (length (done @ [t]) + i)" using Cons.prems(1) by force
  have step: "restore_target_probes known positions seen (?saved # map checkpoint_target_probe ts) (done @ clear_probe t # map clear_probe ts) =
      restore_target_probes known positions (te_ID t # seen) (map checkpoint_target_probe ts) ((done @ [t]) @ map clear_probe ts)"
  proof (cases "te_Probed t")
    case True
    then show ?thesis using restored_target [OF ok(1)] pos fact Cons.prems(3) by simp
  next
    case False
    then show ?thesis using restored_target [OF ok(1)] pos fact Cons.prems(3) by simp
  qed
  also have "\<dots> = Some ((done @ [t]) @ ts)"
    using Cons.prems(2,3) by (intro Cons.IH more ok(2)) auto
  finally show ?case using saved_target [OF ok(1)] by simp
qed simp

lemma positions_zip:
  assumes "distinct names" "i < length names"
  shows "map_of (zip names [0..<length names]) (names ! i) = Some i"
  using assms by (subst map_of_zip_nth) auto

lemma saved_suite:
  assumes "suite_fact_ok known suite"
  shows "checkpoint_suite_probe pkg suite = \<lparr>sp_Package = pkg, sp_Measured = pe_Measured (kept_suite suite),
      sp_DurationNS = pe_Duration (kept_suite suite), sp_Infected = pe_Infected (kept_suite suite),
      sp_WholeTree = pe_WholeTree (kept_suite suite)\<rparr>"
    and "valid_checkpoint_probe_fact (pe_Measured (kept_suite suite)) (pe_Duration (kept_suite suite)) (pe_Infected (kept_suite suite))
      (pe_WholeTree (kept_suite suite))"
    and "\<not> list_ex (\<lambda>i. i \<notin> known) (pe_Infected (kept_suite suite))"
  using assms by (auto simp: suite_fact_ok_def kept_suite_def checkpoint_suite_probe_def valid_checkpoint_probe_fact_def
      strictly_increasing_sorted sorted_infected(2) list_ex_iff)

lemma restore_suites_saved:
  assumes "\<forall>pkg \<in> set pkgs. pkg \<noteq> [] \<and> suite_fact_ok known (suites pkg)" "distinct pkgs"
  shows "\<exists>r. restore_suite_probes known (map (\<lambda>pkg. checkpoint_suite_probe pkg (suites pkg)) pkgs) e = Some r \<and>
     pb_Targets r = pb_Targets e \<and> pb_Measured r = pb_Measured e \<and> pb_Unmeasured r = pb_Unmeasured e \<and>
     map_of (pb_Suites r) = (\<lambda>pkg. if pkg \<in> set pkgs then Some (kept_suite (suites pkg)) else map_of (pb_Suites e) pkg) \<and>
     pb_SuitesMeasured r = pb_SuitesMeasured e + int (length (filter (\<lambda>pkg. pe_Measured (suites pkg)) pkgs)) \<and>
     pb_SuitesUnmeasured r = pb_SuitesUnmeasured e + int (length (filter (\<lambda>pkg. \<not> pe_Measured (suites pkg)) pkgs))"
  using assms
proof (induction pkgs arbitrary: e)
  case (Cons pkg pkgs)
  let ?kept = "kept_suite (suites pkg)"
  let ?e = "count_suite ?kept (e\<lparr>pb_Suites := AList.update pkg ?kept (pb_Suites e)\<rparr>)"
  have ok: "suite_fact_ok known (suites pkg)" "pkg \<noteq> []" using Cons.prems(1) by simp_all
  have kept: "\<lparr>pe_Measured = pe_Measured ?kept, pe_Infected = pe_Infected ?kept, pe_Duration = pe_Duration ?kept,
      pe_WholeTree = pe_WholeTree ?kept\<rparr> = ?kept" by simp
  have step: "restore_suite_probes known (map (\<lambda>pkg. checkpoint_suite_probe pkg (suites pkg)) (pkg # pkgs)) e =
      restore_suite_probes known (map (\<lambda>pkg. checkpoint_suite_probe pkg (suites pkg)) pkgs) ?e"
    using saved_suite(2,3) [OF ok(1)] ok(2) by (simp add: saved_suite(1) [OF ok(1)] kept Let_def)
  have same: "pe_Measured ?kept = pe_Measured (suites pkg)" by (simp add: kept_suite_def)
  obtain r where r: "restore_suite_probes known (map (\<lambda>pkg. checkpoint_suite_probe pkg (suites pkg)) pkgs) ?e = Some r"
    "pb_Targets r = pb_Targets ?e" "pb_Measured r = pb_Measured ?e" "pb_Unmeasured r = pb_Unmeasured ?e"
    "map_of (pb_Suites r) = (\<lambda>pkg. if pkg \<in> set pkgs then Some (kept_suite (suites pkg)) else map_of (pb_Suites ?e) pkg)"
    "pb_SuitesMeasured r = pb_SuitesMeasured ?e + int (length (filter (\<lambda>pkg. pe_Measured (suites pkg)) pkgs))"
    "pb_SuitesUnmeasured r = pb_SuitesUnmeasured ?e + int (length (filter (\<lambda>pkg. \<not> pe_Measured (suites pkg)) pkgs))"
    using Cons.IH [of ?e] Cons.prems by auto
  then show ?case
    using Cons.prems(2) unfolding step by (auto simp: count_suite_def same update_conv' fun_eq_iff)
qed simp

lemma saved_name: "sp_Package (checkpoint_suite_probe pkg suite) = pkg"
  by (simp add: checkpoint_suite_probe_def)

lemma sorted_names:
  assumes "set xs = set ys"
  shows "sort_slice (remdups xs) = remdups_adj (sort_slice ys)"
proof (rule sorted_distinct_set_unique)
  show "distinct (remdups_adj (sort_slice ys))" "sorted (remdups_adj (sort_slice ys))"
    using strict_sorted_compact [OF sorted_sort_slice, of ys] by (simp_all add: strict_sorted_iff)
qed (use assms in simp_all)

lemma filter_keys:
  assumes "distinct (map fst xs)"
  shows "length (filter (\<lambda>k. P (the (map_of xs k))) (sort_slice (remdups (map fst xs)))) = length (filter P (map snd xs))"
proof -
  have "mset (filter (\<lambda>k. P (the (map_of xs k))) (sort_slice (remdups (map fst xs)))) =
      mset (filter (\<lambda>k. P (the (map_of xs k))) (map fst xs))"
    using assms by (simp add: distinct_remdups_id)
  then have "length (filter (\<lambda>k. P (the (map_of xs k))) (sort_slice (remdups (map fst xs)))) =
      length (filter (\<lambda>k. P (the (map_of xs k))) (map fst xs))" by (metis size_mset)
  also have "filter (\<lambda>k. P (the (map_of xs k))) (map fst xs) = map fst (filter (\<lambda>x. P (the (map_of xs (fst x)))) xs)"
    by (simp add: filter_map comp_def)
  also have "filter (\<lambda>x. P (the (map_of xs (fst x)))) xs = filter (\<lambda>x. P (snd x)) xs"
    using assms by (intro filter_cong) auto
  finally show ?thesis by (simp add: filter_map comp_def)
qed

lemma restored_probe:
  assumes wf: "probe_wf cat e" and ids: "distinct (map te_ID (pb_Targets e))" "[] \<notin> set (map te_ID (pb_Targets e))"
    and targets: "map clear_probe targets = map clear_probe (pb_Targets e)" and packages: "set packages = set (map fst (pb_Suites e))"
  shows "\<exists>r. restore_mutation_probe sha cat targets packages (checkpoint_mutation_probe sha cat e) = Some r \<and>
    r\<lparr>pb_Suites := []\<rparr> = e\<lparr>pb_Suites := []\<rparr> \<and>
    map_of (pb_Suites r) = map_option kept_suite \<circ> map_of (pb_Suites e)"
proof -
  let ?ts = "pb_Targets e" and ?known = "catalog_indexes cat" and ?S = "pb_Suites e"
  let ?names = "map te_ID ?ts" and ?keys = "sort_slice (remdups (map fst ?S))"
  have names: "map te_ID (map clear_probe ts) = map te_ID ts" for ts by (simp add: clear_probe_def)
  have all_ok: "list_all (target_fact_ok ?known) ?ts" "list_all (suite_fact_ok ?known) (map snd ?S)"
    and keys: "distinct (map fst ?S)" "[] \<notin> set (map fst ?S)"
    using wf by (simp_all add: probe_wf_def)
  have length: "length ?ts = length targets" using targets by (metis length_map)
  have restored: "restore_target_probes ?known (map_of (zip ?names [0..<length ?ts])) [] (map checkpoint_target_probe ?ts) (map clear_probe ?ts) = Some ?ts"
  proof -
    have "\<forall>i < length ?ts. map_of (zip ?names [0..<length ?ts]) (te_ID (?ts ! i)) = Some (length [] + i)"
      using positions_zip [OF ids(1)] by simp
    from restore_targets_saved [OF this ids(1), of "[]"] all_ok(1) show ?thesis by simp
  qed
  have suite: "the (map_of ?S k) \<in> set (map snd ?S)" if "k \<in> set (map fst ?S)" for k
    using that by (metis map_of_eq_None_iff map_of_SomeD option.exhaust_sel snd_conv image_eqI set_map image_set)
  have suites_ok: "\<forall>k \<in> set ?keys. k \<noteq> [] \<and> suite_fact_ok ?known (the (map_of ?S k))"
  proof
    fix k assume "k \<in> set ?keys"
    then have k: "k \<in> set (map fst ?S)" by simp
    then have "k \<noteq> []" using keys(2) by (cases "k = []") simp_all
    moreover have "suite_fact_ok ?known (the (map_of ?S k))"
      using suite [OF k] all_ok(2) unfolding list_all_iff by blast
    ultimately show "k \<noteq> [] \<and> suite_fact_ok ?known (the (map_of ?S k))" by simp
  qed
  define e0 where "e0 = \<lparr>pb_Targets = ?ts, pb_Measured = pb_Measured e, pb_Unmeasured = pb_Unmeasured e, pb_Suites = [],
     pb_SuitesMeasured = 0, pb_SuitesUnmeasured = 0\<rparr>"
  have e0: "pb_Targets e0 = ?ts" "pb_Measured e0 = pb_Measured e" "pb_Unmeasured e0 = pb_Unmeasured e" "pb_Suites e0 = []"
    "pb_SuitesMeasured e0 = 0" "pb_SuitesUnmeasured e0 = 0" by (simp_all add: e0_def)
  have single: "distinct ?keys" by simp
  obtain r where r: "restore_suite_probes ?known (map (\<lambda>pkg. checkpoint_suite_probe pkg (the (map_of ?S pkg))) ?keys) e0 = Some r"
     "pb_Targets r = ?ts" "pb_Measured r = pb_Measured e" "pb_Unmeasured r = pb_Unmeasured e"
     "map_of (pb_Suites r) = (\<lambda>pkg. if pkg \<in> set ?keys then Some (kept_suite (the (map_of ?S pkg))) else None)"
     "pb_SuitesMeasured r = int (length (filter (\<lambda>pkg. pe_Measured (the (map_of ?S pkg))) ?keys))"
     "pb_SuitesUnmeasured r = int (length (filter (\<lambda>pkg. \<not> pe_Measured (the (map_of ?S pkg))) ?keys))"
    using restore_suites_saved [OF suites_ok single, of e0] unfolding e0 map_of.simps add_0 by (elim exE conjE) (rule that; assumption)
  have packages_saved: "sort_slice (map sp_Package (map (\<lambda>pkg. checkpoint_suite_probe pkg (the (map_of ?S pkg))) ?keys)) = remdups_adj (sort_slice packages)"
  proof -
    have "map sp_Package (map (\<lambda>pkg. checkpoint_suite_probe pkg (the (map_of ?S pkg))) ?keys) = ?keys"
      by (simp add: saved_name comp_def)
    moreover have "?keys = remdups_adj (sort_slice packages)" using packages by (intro sorted_names) simp
    ultimately show ?thesis by (metis ordered.sort_func_idem)
  qed
  have "restore_mutation_probe sha cat targets packages (checkpoint_mutation_probe sha cat e) = Some r"
    using r(1) restored packages_saved ids wf length
    unfolding restore_mutation_probe_def checkpoint_mutation_probe_def Let_def targets names
    by (simp add: e0_def probe_wf_def catalog_indexes_def [symmetric])
  moreover have "r\<lparr>pb_Suites := []\<rparr> = e\<lparr>pb_Suites := []\<rparr>"
    using r(2-4,6,7) wf filter_keys [OF keys(1), of pe_Measured] filter_keys [OF keys(1), of "\<lambda>s. \<not> pe_Measured s"]
    by (simp add: probe_wf_def)
  moreover have "map_of (pb_Suites r) = map_option kept_suite \<circ> map_of ?S"
  proof (rule ext)
    fix k show "map_of (pb_Suites r) k = (map_option kept_suite \<circ> map_of ?S) k"
    proof (cases "map_of ?S k")
      case None
      then show ?thesis unfolding r(5) by (simp add: map_of_eq_None_iff)
    next
      case (Some suite)
      then have "k \<in> set ?keys" by (auto dest: map_of_SomeD intro: rev_image_eqI)
      with Some show ?thesis unfolding r(5) by simp
    qed
  qed
  ultimately show ?thesis by blast
qed

section \<open>What the probe phase measures\<close>

definition measurement_ok :: "nat set \<Rightarrow> probe_measurement \<Rightarrow> bool" where
  "measurement_ok known m \<longleftrightarrow>
     (if pm_measured m then 0 \<le> pm_duration m \<and> strictly_increasing (pm_infected m) \<and> set (pm_infected m) \<subseteq> known
      else pm_infected m = [])"

text \<open>A probe that returned took no negative time.\<close>

definition clocked :: "'w probe_session \<Rightarrow> bool" where
  "clocked session \<longleftrightarrow> (\<forall>w request result w'. pn_probe session w request = (Inr result, w') \<longrightarrow> 0 \<le> pr_Duration result)"

lemma identified: "identify_infected identities is = Inr names \<Longrightarrow> set is \<subseteq> dom identities"
  by (induction "is" arbitrary: names) (auto split: option.splits sum.splits)

lemma identities_known: "dom (probe_mutant_identities cat) \<subseteq> catalog_indexes cat"
  by (auto simp: probe_mutant_identities_def catalog_indexes_def dom_def dest!: map_of_SomeD)

lemma result_record_ok:
  assumes "probe_result_record name suite request result (probe_mutant_identities cat) = (rec, infected, measured)"
  shows "if measured then strictly_increasing infected \<and> set infected \<subseteq> catalog_indexes cat else infected = []"
  using assms identified identities_known strict_sorted_compact [OF sorted_sort_slice, of "pr_Infected result"]
  by (fastforce simp: probe_result_record_def Let_def strictly_increasing_sorted split: if_split_asm sum.splits)

lemma no_measurement_ok [simp]:
  "measurement_ok known no_measurement" "measurement_ok known (fatal_measurement e)"
  "measurement_ok known (m\<lparr>pm_record := r\<rparr>) = measurement_ok known m"
  by (simp_all add: measurement_ok_def no_measurement_def fatal_measurement_def)

lemma probe_target_ok:
  assumes "clocked session" "probe_target session t (probe_mutant_identities cat) options w = (m, w')"
  shows "measurement_ok (catalog_indexes cat) m"
proof (cases "pn_cancelled session w")
  case None
  let ?request = "probe_request t options"
  obtain reply w1 where reply: "pn_probe session w ?request = (reply, w1)" by fastforce
  show ?thesis
  proof (cases reply)
    case (Inl failure)
    with assms(2) None reply show ?thesis by (auto simp: probe_target_def Let_def split: if_split_asm)
  next
    case (Inr result)
    obtain rec infected measured where out: "probe_result_record (te_ID t) False ?request result (probe_mutant_identities cat) =
        (rec, infected, measured)" by (metis prod_cases3)
    have "0 \<le> pr_Duration result" using assms(1) reply Inr unfolding clocked_def by blast
    with assms(2) None reply Inr out result_record_ok [OF out] show ?thesis
      by (auto simp: probe_target_def Let_def measurement_ok_def no_measurement_def split: if_split_asm)
  qed
qed (use assms(2) in \<open>auto simp: probe_target_def Let_def\<close>)

lemma probe_suite_ok:
  assumes "clocked session" "probe_suite session pkg control (probe_mutant_identities cat) options w = (m, w')"
  shows "measurement_ok (catalog_indexes cat) m"
proof (cases "pn_cancelled session w")
  case None
  let ?request = "suite_probe_request pkg control options"
  obtain arguments pending w1 where i: "instrument_package (pn_files session) (po_Observer options) w pkg (pq_Args ?request) =
      ((arguments, pending), w1)" by (metis prod.exhaust)
  obtain reply w2 where reply: "pn_probe session w1 (?request\<lparr>pq_Args := arguments\<rparr>) = (reply, w2)" by fastforce
  obtain observation w3 where f: "finish_observation (pn_files session) (po_Observer options) w2 pending = (observation, w3)" by fastforce
  show ?thesis
  proof (cases reply)
    case (Inl failure)
    with assms(2) None i reply f show ?thesis by (auto simp: probe_suite_def Let_def split: if_split_asm)
  next
    case (Inr result)
    obtain rec infected measured where out: "probe_result_record (package_suite_probe_target pkg) True ?request result (probe_mutant_identities cat) =
        (rec, infected, measured)" by (metis prod_cases3)
    have "0 \<le> pr_Duration result" using assms(1) reply Inr unfolding clocked_def by blast
    with assms(2) None i reply f Inr out result_record_ok [OF out] show ?thesis
      by (auto simp: probe_suite_def Let_def measurement_ok_def no_measurement_def fatal_measurement_def split: if_split_asm)
  qed
qed (use assms(2) in \<open>auto simp: probe_suite_def Let_def\<close>)

lemma run_probe_work_ok:
  assumes "clocked session" "run_probe_work session cat targets options item state = (m, state')"
  shows "measurement_ok (catalog_indexes cat) m"
  using assms probe_target_ok probe_suite_ok
  by (fastforce simp: run_probe_work_def Let_def split: if_split_asm prod.splits)

lemma run_probes_ok:
  assumes "clocked session"
  shows "\<forall>r \<in> set (fst (run_probes session cat targets options work order state)). \<forall>m. r = Some m \<longrightarrow> measurement_ok (catalog_indexes cat) m"
proof -
  have "\<forall>r \<in> set (fst (fold (\<lambda>i (results, state). let (measurement, state) = run_probe_work session cat targets options (work ! i) state
          in (results[i := Some measurement], state)) order (results, state))). \<forall>m. r = Some m \<longrightarrow> measurement_ok (catalog_indexes cat) m"
    if "\<forall>r \<in> set results. \<forall>m. r = Some m \<longrightarrow> measurement_ok (catalog_indexes cat) m" for results
    using that
  proof (induction order arbitrary: results state)
    case (Cons i order)
    obtain m st where turn: "run_probe_work session cat targets options (work ! i) state = (m, st)" by (metis surj_pair)
    have "\<forall>r \<in> set (results[i := Some m]). \<forall>m. r = Some m \<longrightarrow> measurement_ok (catalog_indexes cat) m"
      using Cons.prems run_probe_work_ok [OF assms turn] set_update_subset_insert [of results i "Some m"] by fastforce
    from Cons.IH [OF this, of st] show ?case using turn by simp
  qed simp
  from this [of "replicate (length work) None"] show ?thesis unfolding run_probes_def by fastforce
qed

definition target_items :: "(probe_work \<times> 'm) list \<Rightarrow> probe_work list" where
  "target_items rest = filter (\<lambda>item. pw_packageName item = []) (map fst rest)"

definition suite_names :: "(probe_work \<times> 'm) list \<Rightarrow> string list" where
  "suite_names rest = filter (\<lambda>pkg. pkg \<noteq> []) (map (pw_packageName \<circ> fst) rest)"

definition settle_inv :: "catalog \<Rightarrow> (probe_work \<times> 'm) list \<Rightarrow> probe_evaluation \<Rightarrow> bool" where
  "settle_inv cat rest e \<longleftrightarrow>
     probe_wf cat (e\<lparr>pb_Unmeasured := pb_Unmeasured e + int (length (target_items rest))\<rparr>) \<and>
     (\<forall>item \<in> set (target_items rest). pw_targetPosition item < length (pb_Targets e) \<and>
        \<not> te_Probed (pb_Targets e ! pw_targetPosition item)) \<and>
     distinct (map pw_targetPosition (target_items rest)) \<and>
     distinct (suite_names rest) \<and> set (suite_names rest) \<inter> set (map fst (pb_Suites e)) = {}"

lemma count_update:
  "i < length xs \<Longrightarrow> length (filter P (xs[i := y])) + (if P (xs ! i) then 1 else 0) = length (filter P xs) + (if P y then 1 else 0)"
proof (induction xs arbitrary: i)
  case (Cons x xs)
  show ?case
  proof (cases i)
    case (Suc j)
    with Cons show ?thesis using Cons.IH [of j] by (cases "P x") simp_all
  qed simp
qed simp

lemma update_fresh: "k \<notin> set (map fst al) \<Longrightarrow> AList.update k v al = al @ [(k, v)]"
  by (induction al) auto

lemma settle_target_step:
  assumes inv: "settle_inv cat ((item, x) # rest) e" and m: "measurement_ok (catalog_indexes cat) m" and item: "pw_packageName item = []"
  shows "settle_inv cat rest (settle_probe item m e) \<and>
    map te_ID (pb_Targets (settle_probe item m e)) = map te_ID (pb_Targets e) \<and>
    map clear_probe (pb_Targets (settle_probe item m e)) = map clear_probe (pb_Targets e) \<and>
    pb_Suites (settle_probe item m e) = pb_Suites e"
proof -
  let ?i = "pw_targetPosition item" and ?ts = "pb_Targets e"
  define t where "t = (?ts ! ?i)\<lparr>te_Probed := pm_measured m, te_Infected := pm_infected m\<rparr>"
  define t' where "t' = (if pm_measured m then t\<lparr>te_ProbeDuration := pm_duration m\<rparr> else t)"
  have items: "target_items ((item, x) # rest) = item # target_items rest" "suite_names ((item, x) # rest) = suite_names rest"
    using item by (simp_all add: target_items_def suite_names_def)
  have i: "?i < length ?ts" "\<not> te_Probed (?ts ! ?i)" using inv by (simp_all add: settle_inv_def items)
  have ok: "target_fact_ok (catalog_indexes cat) (?ts ! ?i)"
    using inv i(1) by (simp add: settle_inv_def probe_wf_def list_all_length)
  have new: "target_fact_ok (catalog_indexes cat) t'" "te_Probed t' = pm_measured m" "te_ID t' = te_ID (?ts ! ?i)"
    "clear_probe t' = clear_probe (?ts ! ?i)"
    using ok i(2) m by (auto simp: t'_def t_def target_fact_ok_def fact_ok_def measurement_ok_def clear_probe_def)
  have out: "settle_probe item m e = e\<lparr>pb_Targets := ?ts[?i := t'], pb_Measured := pb_Measured e + (if pm_measured m then 1 else 0),
      pb_Unmeasured := pb_Unmeasured e + (if pm_measured m then 0 else 1)\<rparr>"
    using item by (simp add: settle_probe_def Let_def t'_def t_def)
  have other: "te_Probed (?ts[?i := t'] ! j) = te_Probed (?ts ! j)" if "j \<noteq> ?i" for j using that by simp
  have counts: "length (filter te_Probed (?ts[?i := t'])) = length (filter te_Probed ?ts) + (if pm_measured m then 1 else 0)"
    "length (filter (\<lambda>t. \<not> te_Probed t) (?ts[?i := t'])) + 1 = length (filter (\<lambda>t. \<not> te_Probed t) ?ts) + (if pm_measured m then 0 else 1)"
    using count_update [OF i(1), of te_Probed t'] count_update [OF i(1), of "\<lambda>t. \<not> te_Probed t" t'] i(2) new(2) by auto
  have all_ok: "list_all (target_fact_ok (catalog_indexes cat)) (?ts[?i := t'])"
    using inv new(1) set_update_subset_insert [of ?ts ?i t'] by (auto simp: settle_inv_def probe_wf_def list_all_iff)
  have "settle_inv cat rest (settle_probe item m e)"
    using inv all_ok counts other unfolding out settle_inv_def probe_wf_def items by (auto simp: nth_list_update)
  moreover have "map te_ID (?ts[?i := t']) = map te_ID ?ts" "map clear_probe (?ts[?i := t']) = map clear_probe ?ts"
    using i(1) new(3,4) by (simp_all add: map_update list_update_same_conv)
  ultimately show ?thesis by (simp add: out)
qed

lemma settle_suite_step:
  assumes inv: "settle_inv cat ((item, x) # rest) e" and m: "measurement_ok (catalog_indexes cat) m" and item: "pw_packageName item \<noteq> []"
  shows "settle_inv cat rest (settle_probe item m e) \<and> pb_Targets (settle_probe item m e) = pb_Targets e \<and>
    fst ` set (pb_Suites (settle_probe item m e)) = insert (pw_packageName item) (fst ` set (pb_Suites e))"
proof -
  define suite where "suite = \<lparr>pe_Measured = pm_measured m, pe_Infected = pm_infected m, pe_Duration = pm_duration m, pe_WholeTree = pm_wholeTree m\<rparr>"
  let ?pkg = "pw_packageName item"
  have items: "target_items ((item, x) # rest) = target_items rest" "suite_names ((item, x) # rest) = ?pkg # suite_names rest"
    using item by (simp_all add: target_items_def suite_names_def)
  have fresh: "?pkg \<notin> set (map fst (pb_Suites e))" using inv by (simp add: settle_inv_def items)
  have ok: "suite_fact_ok (catalog_indexes cat) suite" using m by (auto simp: suite_fact_ok_def suite_def measurement_ok_def)
  have out: "settle_probe item m e = count_suite suite (e\<lparr>pb_Suites := pb_Suites e @ [(?pkg, suite)]\<rparr>)"
    using item fresh by (simp add: settle_probe_def Let_def suite_def update_fresh)
  show ?thesis
    using inv ok item fresh unfolding out settle_inv_def probe_wf_def items
    by (auto simp: count_suite_def)
qed

lemma settle_probes_inv:
  assumes "settle_probes rest e = Inr r" "settle_inv cat rest e"
    and "\<forall>(item, result) \<in> set rest. \<forall>m. result = Some m \<longrightarrow> measurement_ok (catalog_indexes cat) m"
  shows "probe_wf cat r \<and> map te_ID (pb_Targets r) = map te_ID (pb_Targets e) \<and> map clear_probe (pb_Targets r) = map clear_probe (pb_Targets e) \<and>
    fst ` set (pb_Suites r) = fst ` set (pb_Suites e) \<union> set (suite_names rest)"
  using assms
proof (induction rest e rule: settle_probes.induct)
  case (1 e)
  then show ?case by (simp add: settle_inv_def target_items_def suite_names_def)
next
  case (2 item rest e)
  show ?case
  proof (cases "pw_packageName item = []")
    case True
    then show ?thesis using 2 settle_target_step [OF 2(3) no_measurement_ok(1)] by (auto simp: suite_names_def)
  next
    case False
    then show ?thesis using 2 settle_suite_step [OF 2(3) no_measurement_ok(1)] by (auto simp: suite_names_def)
  qed
next
  case (3 item m rest e)
  then have m: "measurement_ok (catalog_indexes cat) m" "pm_fatal m = None" by (auto split: option.split_asm)
  show ?case
  proof (cases "pw_packageName item = []")
    case True
    then show ?thesis using 3 m settle_target_step [OF 3(3) m(1)] by (auto simp: suite_names_def)
  next
    case False
    then show ?thesis using 3 m settle_suite_step [OF 3(3) m(1)] by (auto simp: suite_names_def)
  qed
qed

text \<open>What the run hands to the phase: suites already measured among the packages it asks for.\<close>

definition probe_input_ok :: "catalog \<Rightarrow> target_evidence list \<Rightarrow> probe_options \<Rightarrow> bool" where
  "probe_input_ok cat targets options \<longleftrightarrow>
     list_all (target_fact_ok (catalog_indexes cat)) targets \<and> distinct (map te_ID targets) \<and> [] \<notin> set (map te_ID targets) \<and>
     distinct (map fst (po_Suites options)) \<and>
     list_all (\<lambda>suite. pe_Measured suite \<and> suite_fact_ok (catalog_indexes cat) suite) (map snd (po_Suites options)) \<and>
     set (map fst (po_Suites options)) \<subseteq> set (po_SuitePackages options) \<and> [] \<notin> set (po_SuitePackages options) \<and>
     \<not> po_PackageSuites options"

lemma start_suites:
  assumes "distinct (map fst al)" "set (map fst al) \<inter> set (map fst (pb_Suites e)) = {}" "list_all pe_Measured (map snd al)"
  shows "fold (\<lambda>(pkg, suite) evaluation. count_suite suite (evaluation\<lparr>pb_Suites := AList.update pkg suite (pb_Suites evaluation)\<rparr>)) al e =
    e\<lparr>pb_Suites := pb_Suites e @ al, pb_SuitesMeasured := pb_SuitesMeasured e + int (length al)\<rparr>"
  using assms
proof (induction al arbitrary: e)
  case (Cons entry al)
  obtain pkg suite where entry: "entry = (pkg, suite)" by (cases entry)
  have "AList.update pkg suite (pb_Suites e) = pb_Suites e @ [(pkg, suite)]" using Cons.prems(2) by (intro update_fresh) (auto simp: entry)
  then show ?case using Cons by (auto simp: entry count_suite_def)
qed simp

lemma length_run_probes: "length (fst (run_probes session cat targets options work order state)) = length work"
proof -
  have "length (fst (fold (\<lambda>i (results, state). let (measurement, state) = run_probe_work session cat targets options (work ! i) state
          in (results[i := Some measurement], state)) order (results, state))) = length results" for results
    by (induction order arbitrary: results state) (simp_all add: case_prod_beta Let_def)
  from this [of "replicate (length work) None"] show ?thesis unfolding run_probes_def by simp
qed

lemma probe_work_names:
  assumes "probe_input_ok cat targets options"
  shows "filter (\<lambda>item. pw_packageName item = []) (probe_work_of cat targets options) =
      map (\<lambda>position. \<lparr>pw_targetPosition = position, pw_packageName = [], pw_control = 0\<rparr>) (probed_target_positions targets)"
    and "filter (\<lambda>pkg. pkg \<noteq> []) (map pw_packageName (probe_work_of cat targets options)) = probe_packages cat options"
    and "distinct (probe_packages cat options)"
    and "set (probe_packages cat options) = set (po_SuitePackages options) - fst ` set (po_Suites options)"
proof -
  have packages: "probe_packages cat options = filter (\<lambda>pkg. case map_of (po_Suites options) pkg of None \<Rightarrow> True | Some suite \<Rightarrow> \<not> pe_Measured suite)
      (remdups_adj (sort_slice (po_SuitePackages options)))"
    using assms by (simp add: probe_packages_def probe_input_ok_def Let_def)
  show "distinct (probe_packages cat options)"
    using strict_sorted_compact [OF sorted_sort_slice, of "po_SuitePackages options"] by (simp add: packages strict_sorted_iff)
  have "(case map_of (po_Suites options) pkg of None \<Rightarrow> True | Some suite \<Rightarrow> \<not> pe_Measured suite) \<longleftrightarrow> pkg \<notin> fst ` set (po_Suites options)" for pkg
  proof (cases "map_of (po_Suites options) pkg")
    case (Some suite)
    then have entry: "(pkg, suite) \<in> set (po_Suites options)" by (rule map_of_SomeD)
    then have "suite \<in> set (map snd (po_Suites options))" "pkg \<in> fst ` set (po_Suites options)" by force+
    moreover have "list_all (\<lambda>suite. pe_Measured suite \<and> suite_fact_ok (catalog_indexes cat) suite) (map snd (po_Suites options))"
      using assms by (simp only: probe_input_ok_def)
    ultimately have "pe_Measured suite" "pkg \<in> fst ` set (po_Suites options)" unfolding list_all_iff by blast+
    with Some show ?thesis by simp
  next
    case None
    then have "pkg \<notin> fst ` set (po_Suites options)" by (simp add: map_of_eq_None_iff)
    with None show ?thesis by simp
  qed
  then show set: "set (probe_packages cat options) = set (po_SuitePackages options) - fst ` set (po_Suites options)"
    by (auto simp: packages)
  then have nonempty: "[] \<notin> set (probe_packages cat options)" using assms by (simp add: probe_input_ok_def)
  then show "filter (\<lambda>pkg. pkg \<noteq> []) (map pw_packageName (probe_work_of cat targets options)) = probe_packages cat options"
    by (auto simp: probe_work_of_def comp_def intro!: filter_True)
  show "filter (\<lambda>item. pw_packageName item = []) (probe_work_of cat targets options) =
      map (\<lambda>position. \<lparr>pw_targetPosition = position, pw_packageName = [], pw_control = 0\<rparr>) (probed_target_positions targets)"
    using nonempty by (auto simp: probe_work_of_def filter_empty_conv)
qed

lemma start_inv:
  assumes ok: "probe_input_ok cat targets options" and "map fst rest = probe_work_of cat targets options"
  shows "settle_inv cat rest (probe_start targets options)" "pb_Targets (probe_start targets options) = targets"
    and "fst ` set (pb_Suites (probe_start targets options)) \<union> set (suite_names rest) = set (po_SuitePackages options)"
proof -
  let ?e = "\<lparr>pb_Targets = targets, pb_Measured = int (length (filter te_Probed targets)), pb_Unmeasured = 0,
        pb_Suites = po_Suites options, pb_SuitesMeasured = int (length (po_Suites options)), pb_SuitesUnmeasured = 0\<rparr>"
  have measured: "list_all pe_Measured (map snd (po_Suites options))" using ok by (simp add: probe_input_ok_def list_all_iff)
  have start: "probe_start targets options = ?e"
    unfolding probe_start_def by (subst start_suites) (use ok measured in \<open>simp_all add: probe_input_ok_def\<close>)
  note names = probe_work_names [OF ok]
  have items: "target_items rest = map (\<lambda>position. \<lparr>pw_targetPosition = position, pw_packageName = [], pw_control = 0\<rparr>) (probed_target_positions targets)"
    "suite_names rest = probe_packages cat options"
    using names(1,2) by (simp_all add: target_items_def suite_names_def assms(2) flip: map_map)
  have "length (probed_target_positions targets) = length (filter (\<lambda>t. \<not> te_Probed t) targets)"
    unfolding probed_target_positions_def by (simp add: length_filter_conv_card cong: conj_cong)
  moreover have "filter pe_Measured (map snd (po_Suites options)) = map snd (po_Suites options)"
    "filter (\<lambda>s. \<not> pe_Measured s) (map snd (po_Suites options)) = []"
    using measured by (auto simp: filter_id_conv filter_empty_conv list_all_iff)
  ultimately show "settle_inv cat rest (probe_start targets options)"
    using ok names(3,4) unfolding settle_inv_def probe_wf_def items start
    by (auto simp: probe_input_ok_def probed_target_positions_def comp_def list_all_iff)
  show "pb_Targets (probe_start targets options) = targets" by (simp add: start)
  show "fst ` set (pb_Suites (probe_start targets options)) \<union> set (suite_names rest) = set (po_SuitePackages options)"
    using ok names(4) by (auto simp: start items probe_input_ok_def)
qed

lemma probe_targets_wf:
  assumes "probe_input_ok cat targets options" "clocked session"
    and "probe_targets session cat targets options order state = (Inr e, state')"
  shows "probe_wf cat e \<and> map te_ID (pb_Targets e) = map te_ID targets \<and> map clear_probe (pb_Targets e) = map clear_probe targets \<and>
    fst ` set (pb_Suites e) = set (po_SuitePackages options)"
proof -
  let ?work = "probe_work_of cat targets options"
  obtain results state1 where run: "run_probes session cat targets options ?work (order (length ?work)) state = (results, state1)"
    by (metis surj_pair)
  have length: "length results = length ?work" by (metis fst_conv length_run_probes run)
  have settled: "settle_probes (zip ?work results) (probe_start targets options) = Inr e"
    using assms(3) run by (auto simp: probe_targets_def Let_def split: if_split_asm)
  have items: "map fst (zip ?work results) = ?work" using length by simp
  have ok: "\<forall>(item, result) \<in> set (zip ?work results). \<forall>m. result = Some m \<longrightarrow> measurement_ok (catalog_indexes cat) m"
    using run_probes_ok [OF assms(2), where targets = targets and options = options and work = ?work and order = "order (length ?work)" and state = state] run
    by (auto dest!: set_zip_rightD)
  from settle_probes_inv [OF settled start_inv(1) [OF assms(1) items] ok] show ?thesis
    using start_inv(2,3) [OF assms(1) items] by simp
qed

lemma saved_probe_valid:
  assumes "probe_wf cat e" "distinct (map te_ID (pb_Targets e))" "[] \<notin> set (map te_ID (pb_Targets e))"
    and "valid_sha256 (mutation_probe_index_fingerprint sha cat)"
  shows "validate_mutation_probe (Some (checkpoint_mutation_probe sha cat e)) = None"
proof -
  let ?keys = "sort_slice (remdups (map fst (pb_Suites e)))"
  have targets: "map checkpoint_target_probe (pb_Targets e) = map (\<lambda>t. \<lparr>tp_ID = te_ID t, tp_Measured = te_Probed t,
      tp_DurationNS = te_ProbeDuration t, tp_Infected = te_Infected t\<rparr>) (pb_Targets e)"
    using assms(1) saved_target by (auto simp: probe_wf_def list_all_iff)
  have suites: "\<exists>s :: package_probe_evidence. checkpoint_suite_probe pkg (the (map_of (pb_Suites e) pkg)) = \<lparr>sp_Package = pkg, sp_Measured = pe_Measured s,
      sp_DurationNS = pe_Duration s, sp_Infected = pe_Infected s, sp_WholeTree = pe_WholeTree s\<rparr> \<and> pkg \<noteq> [] \<and>
      valid_checkpoint_probe_fact (pe_Measured s) (pe_Duration s) (pe_Infected s) (pe_WholeTree s)"
    if "pkg \<in> set ?keys" for pkg
  proof -
    from that obtain suite where suite: "map_of (pb_Suites e) pkg = Some suite" by (auto simp: map_of_eq_None_iff dest: weak_map_of_SomeI)
    then have entry: "(pkg, suite) \<in> set (pb_Suites e)" by (rule map_of_SomeD)
    then have "suite \<in> set (map snd (pb_Suites e))" "pkg \<in> set (map fst (pb_Suites e))" by force+
    with assms(1) have "suite_fact_ok (catalog_indexes cat) suite" "pkg \<noteq> []"
      unfolding probe_wf_def list_all_iff by blast+
    with saved_suite(1,2) [OF this(1)] suite show ?thesis by (intro exI [of _ "kept_suite suite"]) simp
  qed
  have "(if tp_ID t = [] \<or> tp_DurationNS t < 0 \<or> \<not> tp_Measured t \<and> (tp_DurationNS t \<noteq> 0 \<or> length (tp_Infected t) \<noteq> 0)
      then Some ProbeTargetMeasurement else None) = None \<and> strictly_increasing (tp_Infected t)"
    if "t \<in> set (map checkpoint_target_probe (pb_Targets e))" for t
  proof -
    obtain u where u: "u \<in> set (pb_Targets e)" "t = \<lparr>tp_ID = te_ID u, tp_Measured = te_Probed u,
      tp_DurationNS = te_ProbeDuration u, tp_Infected = te_Infected u\<rparr>" using \<open>t \<in> _\<close> unfolding targets by auto
    moreover have "target_fact_ok (catalog_indexes cat) u" using u(1) assms(1) by (simp add: probe_wf_def list_all_iff)
    moreover have "te_ID u \<noteq> []" using u(1) assms(3) by force
    ultimately show ?thesis by (auto simp: target_fact_ok_def fact_ok_def split: if_split_asm)
  qed
  moreover have "(if sp_Package s = [] \<or> sp_DurationNS s < 0 \<or>
         \<not> sp_Measured s \<and> (sp_DurationNS s \<noteq> 0 \<or> length (sp_Infected s) \<noteq> 0 \<or> sp_WholeTree s)
      then Some ProbeSuiteMeasurement else None) = None \<and> strictly_increasing (sp_Infected s)"
    if "s \<in> set (map (\<lambda>pkg. checkpoint_suite_probe pkg (the (map_of (pb_Suites e) pkg))) ?keys)" for s
    using \<open>s \<in> _\<close> suites by (fastforce simp: valid_checkpoint_probe_fact_def)
  moreover have "distinct (map tp_ID (map checkpoint_target_probe (pb_Targets e)))"
    using assms(2) by (simp add: targets comp_def)
  moreover have "distinct (map sp_Package (map (\<lambda>pkg. checkpoint_suite_probe pkg (the (map_of (pb_Suites e) pkg))) ?keys))"
    by (simp add: saved_name comp_def)
  ultimately show ?thesis
    using assms(4) by (simp only: validate_mutation_probe_def option.case err_simps checkpoint_mutation_probe_def mutation_probe.simps
        validate_each_None) (simp add: err_simps)
qed

section \<open>The index fingerprint\<close>

definition index_identity :: "mutant \<Rightarrow> nat \<times> string \<times> bool \<times> bool" where
  "index_identity m = (mu_Index m, mu_ID m, mu_Accepted m, mu_Probed m)"

text \<open>An index is a \<open>uint32\<close>, and the length of an identifier fits one.\<close>

definition index_sized :: "mutant \<Rightarrow> bool" where
  "index_sized m \<longleftrightarrow> mu_Index m < 2 ^ 32 \<and> length (mu_ID m) < 2 ^ 32"

lemma index_entry_inj:
  assumes "index_entry a @ r = index_entry b @ s" "index_sized a" "index_sized b"
  shows "index_identity a = index_identity b \<and> r = s"
proof -
  have "be_bytes 4 (mu_Index a mod 2 ^ 32) = be_bytes 4 (mu_Index b mod 2 ^ 32)"
    and rest: "write_field (mu_ID a) @ [char_of ((if mu_Accepted a then 1 else 0) + (if mu_Probed a then 2 else 0) :: nat)] @ r =
      write_field (mu_ID b) @ [char_of ((if mu_Accepted b then 1 else 0) + (if mu_Probed b then 2 else 0) :: nat)] @ s"
    using assms(1) by (auto simp: index_entry_def append_eq_append_conv)
  then have "mu_Index a = mu_Index b" using assms(2,3) be_bytes_inj [of 4 "mu_Index a" "mu_Index b"] by (simp add: index_sized_def)
  moreover have "mu_ID a = mu_ID b" and "[char_of ((if mu_Accepted a then 1 else 0) + (if mu_Probed a then 2 else 0) :: nat)] @ r =
      [char_of ((if mu_Accepted b then 1 else 0) + (if mu_Probed b then 2 else 0) :: nat) :: char] @ s"
    using write_field_append_inj [OF rest] assms(2,3) by (auto simp: index_sized_def)
  ultimately show ?thesis by (auto simp: index_identity_def split: if_split_asm)
qed

lemma index_entries_inj:
  "concat (map index_entry as) = concat (map index_entry bs) \<Longrightarrow> list_all index_sized as \<Longrightarrow> list_all index_sized bs \<Longrightarrow>
   map index_identity as = map index_identity bs"
proof (induction as arbitrary: bs)
  case Nil
  then show ?case by (cases bs) (simp_all add: index_entry_def)
next
  case (Cons a as)
  then obtain b bs' where bs: "bs = b # bs'" by (cases bs) (simp_all add: index_entry_def)
  have "index_identity a = index_identity b \<and> concat (map index_entry as) = concat (map index_entry bs')"
    by (rule index_entry_inj) (use Cons.prems bs in simp_all)
  with Cons bs show ?case by simp
qed

section \<open>The measurements survive an interruption\<close>

text \<open>
  C25. What the probe phase measured, whatever order its workers took the work in, is what a
  later run over the same catalog, targets and packages reads back from the checkpoint: the
  same targets with the same infections, the same counts, and each measured suite as it was.
\<close>

theorem probe_resumed:
  assumes "probe_input_ok cat targets options" "clocked session"
    and "probe_targets session cat targets options order state = (Inr e, state')"
  shows "\<exists>r. restore_mutation_probe sha cat targets (po_SuitePackages options) (checkpoint_mutation_probe sha cat e) = Some r \<and>
    r\<lparr>pb_Suites := []\<rparr> = e\<lparr>pb_Suites := []\<rparr> \<and> map_of (pb_Suites r) = map_option kept_suite \<circ> map_of (pb_Suites e)"
proof -
  have e: "probe_wf cat e" "map te_ID (pb_Targets e) = map te_ID targets" "map clear_probe (pb_Targets e) = map clear_probe targets"
    "fst ` set (pb_Suites e) = set (po_SuitePackages options)"
    using probe_targets_wf [OF assms] by simp_all
  show ?thesis
    by (rule restored_probe [OF e(1)]) (use e assms(1) in \<open>simp_all add: probe_input_ok_def\<close>)
qed

lemma same_but_suites:
  "r\<lparr>pb_Suites := []\<rparr> = (e :: probe_evaluation)\<lparr>pb_Suites := []\<rparr> \<Longrightarrow>
   pb_Targets r = pb_Targets e \<and> pb_SuitesMeasured r = pb_SuitesMeasured e"
  by (cases r; cases e) simp

definition probed_mutant :: "nat \<Rightarrow> string \<Rightarrow> mutant" where
  "probed_mutant index i = \<lparr>mu_ID = i, mu_DisplayID = i, mu_Accepted = True, mu_Path = ''a.go'', mu_Package = ''p'', mu_Rule = ''r'',
     mu_Line = 3, mu_Column = 1, mu_Index = index, mu_Probed = True, mu_Branch = None, mu_Original = [], mu_Replacement = []\<rparr>"

definition probed_catalog :: catalog where
  "probed_catalog = \<lparr>cat_Mutants = [probed_mutant 0 ''m0'', probed_mutant 2 ''m2''], cat_Rejections = []\<rparr>"

text \<open>A session whose probes infect both mutants, except that of the target \<open>Test2\<close>, which fails.\<close>

definition sample_probes :: "nat probe_session" where
  "sample_probes = \<lparr>pn_cancelled = (\<lambda>w. None),
     pn_probe = (\<lambda>w request. (if ''-test.run=^Test2$'' \<in> set (pq_Args request) then Inl (ProbeFailed ''crash'')
       else Inr \<lparr>pr_Outcome = ProbeMeasured, pr_ExitCode = 0, pr_Duration = 7, pr_Infected = [2, 0, 2], pr_Output = []\<rparr>, Suc w)),
     pn_files = \<lparr>lf_create = (\<lambda>w directory. (None, w)), lf_read = (\<lambda>w name. (None, w)), lf_stat = (\<lambda>w path. None)\<rparr>\<rparr>"

definition sample_probe_options :: probe_options where
  "sample_probe_options = \<lparr>po_Timeout = 100, po_TestArgs = [], po_Jobs = 2, po_PackageSuites = False, po_SuitePackages = [''p''],
     po_Suites = [], po_SuiteEnvironment = [], po_SuiteCoverage = (\<lambda>pkg. None), po_Observer = None\<rparr>"

definition probed_targets :: "target_evidence list" where
  "probed_targets = [sample_target ''1'' ''p'' [], sample_target ''2'' ''p'' []]"

definition sample_probed :: probe_evaluation where
  "sample_probed = (case fst (probe_targets sample_probes probed_catalog probed_targets sample_probe_options (\<lambda>n. [2, 0, 1]) (0, [])) of
     Inr e \<Rightarrow> e | Inl _ \<Rightarrow> probe_start [] sample_probe_options)"

theorem probe_resumed_witness:
  "map te_Infected (pb_Targets sample_probed) = [[0, 2], []] \<and>
   (\<exists>r. restore_mutation_probe (\<lambda>x. x) probed_catalog probed_targets [''p''] (checkpoint_mutation_probe (\<lambda>x. x) probed_catalog sample_probed) = Some r \<and>
     pb_Targets r = pb_Targets sample_probed \<and> pb_SuitesMeasured r = 1)"
proof -
  let ?run = "probe_targets sample_probes probed_catalog probed_targets sample_probe_options (\<lambda>n. [2, 0, 1]) (0, [])"
  have ok: "probe_input_ok probed_catalog probed_targets sample_probe_options"
    by (simp add: probe_input_ok_def probed_targets_def sample_target_def sample_probe_options_def target_fact_ok_def fact_ok_def)
  have clocked: "clocked sample_probes" by (auto simp: clocked_def sample_probes_def)
  have "isl (fst ?run) = False" "map te_Infected (pb_Targets sample_probed) = [[0, 2], []]" "pb_SuitesMeasured sample_probed = 1"
    by code_simp+
  then obtain e state' where run: "?run = (Inr e, state')" by (cases ?run; cases "fst ?run") auto
  then have "sample_probed = e" by (simp add: sample_probed_def)
  with probe_resumed [OF ok clocked run, of "\<lambda>x. x"] \<open>map te_Infected _ = _\<close> \<open>pb_SuitesMeasured _ = 1\<close> show ?thesis
    by (auto simp: sample_probe_options_def dest!: same_but_suites)
qed

text \<open>
  The bytes the index fingerprint hashes determine the catalog's indexes, identifiers and
  flags: a probe is never read back against a catalog that gives an index to another mutant.
\<close>

theorem probe_index_preimage_injective:
  assumes "probe_index_preimage a = probe_index_preimage b"
    and "list_all index_sized (cat_Mutants a)" "list_all index_sized (cat_Mutants b)"
  shows "mset (map index_identity (cat_Mutants a)) = mset (map index_identity (cat_Mutants b))"
proof -
  have "concat (map index_entry (sort_func compare_index_entries (cat_Mutants a))) =
      concat (map index_entry (sort_func compare_index_entries (cat_Mutants b)))"
    using assms(1) by (simp add: probe_index_preimage_def)
  then have "map index_identity (sort_func compare_index_entries (cat_Mutants a)) =
      map index_identity (sort_func compare_index_entries (cat_Mutants b))"
    using assms(2,3) by (intro index_entries_inj) (simp_all add: list_all_iff)
  then show ?thesis by (metis mset_map mset_sort_func)
qed

theorem probe_index_preimage_injective_witness:
  "let a = probed_catalog; b = probed_catalog\<lparr>cat_Mutants := rev (cat_Mutants probed_catalog)\<rparr>
   in probe_index_preimage a = probe_index_preimage b \<and>
      mset (map index_identity (cat_Mutants a)) = mset (map index_identity (cat_Mutants b))"
proof -
  let ?b = "probed_catalog\<lparr>cat_Mutants := rev (cat_Mutants probed_catalog)\<rparr>"
  have same: "probe_index_preimage probed_catalog = probe_index_preimage ?b"
    by (simp add: probe_index_preimage_def probed_catalog_def probed_mutant_def compare_index_entries_def)
  have "list_all index_sized (cat_Mutants probed_catalog)" "list_all index_sized (cat_Mutants ?b)"
    by (simp_all add: probed_catalog_def probed_mutant_def index_sized_def)
  with probe_index_preimage_injective [OF same] same show ?thesis by (simp add: Let_def)
qed

end
