(* ===== verification/CheckpointJournal.thy ===== *)
theory CheckpointJournal
  imports Checkpoint
begin

text \<open>
  How a checkpoint is kept on disk (\<open>internal/cache/checkpoint.go\<close>): a file with the whole state,
  published by a rename, and a journal of the units finished since, a JSON line each, bound to
  that file by its digest. The files of one input digest are modelled; the directory and the
  temporary file are not. What \<open>encoding/json\<close> makes of a value and SHA-256 are arguments.
\<close>

section \<open>The files\<close>

record journal_record =
  jr_Schema :: string
  jr_InputDigest :: string
  jr_BaseDigest :: string
  jr_BaselineTarget :: "baseline_target option"
  jr_BaselineSuite :: "baseline_suite option"
  jr_MutationResult :: "mutation_unit option"
  jr_Checksum :: string

definition checkpoint_journal_schema :: string where
  "checkpoint_journal_schema = ''assurance-checkpoint-journal-v1''"

text \<open>
  \<open>cd_state\<close> is the indented JSON of a state with its final newline, \<open>cd_decode\<close> the strict decoder
  without the validation; \<open>cd_record\<close> is the JSON of a journal record without a newline, \<open>cd_parse\<close>
  its strict decoder.
\<close>

record checkpoint_codec =
  cd_state :: "checkpoint_state \<Rightarrow> string"
  cd_decode :: "string \<Rightarrow> checkpoint_state option"
  cd_record :: "journal_record \<Rightarrow> string"
  cd_parse :: "string \<Rightarrow> journal_record option"
  cd_sha :: "string \<Rightarrow> string"

text \<open>
  The checkpoint file, the journal, and the digest of the checkpoint file this process
  remembers (\<open>checkpointBaseDigests\<close>), empty when it remembers none.
\<close>

record checkpoint_files =
  pf_checkpoint :: "string option"
  pf_journal :: "string option"
  pf_base :: string

datatype cache_error =
    InvalidCacheDigest
  | CheckpointUnreadable
  | CheckpointUndecodable
  | CheckpointInvalid checkpoint_error
  | CheckpointIdentity
  | JournalUnreadable
  | JournalUndecodable nat
  | JournalIdentity nat
  | JournalBaseChanged nat
  | JournalUnits nat
  | JournalTargetTwice nat string
  | JournalSuiteTwice nat string
  | JournalNoCatalog nat
  | JournalMutantTwice nat string
  | JournalInvalid checkpoint_error
  | CheckpointDigestMismatch
  | CheckpointUnpublished
  | JournalNotRemoved
  | NoCheckpointToJournal
  | JournalUnwritten
  | CheckpointNotRemoved

definition cache_digest_ok :: "string \<Rightarrow> bool" where
  "cache_digest_ok digest \<longleftrightarrow>
     digest \<noteq> [] \<and> digest \<noteq> ''.'' \<and> digest \<noteq> ''..'' \<and> CHR ''/'' \<notin> set digest \<and> CHR 0x5C \<notin> set digest"

section \<open>Reading\<close>

definition checkpoint_file_digest :: "checkpoint_codec \<Rightarrow> string \<Rightarrow> string" where
  "checkpoint_file_digest codec data = cd_sha codec data"

definition checkpoint_journal_checksum :: "checkpoint_codec \<Rightarrow> journal_record \<Rightarrow> string" where
  "checkpoint_journal_checksum codec r = cd_sha codec (cd_record codec (r\<lparr>jr_Checksum := []\<rparr>))"

definition decode_checkpoint :: "checkpoint_codec \<Rightarrow> string \<Rightarrow> cache_error + checkpoint_state" where
  "decode_checkpoint codec data =
     (case cd_decode codec data of
        None \<Rightarrow> Inl CheckpointUndecodable
      | Some st \<Rightarrow> (case validate_checkpoint st of Some e \<Rightarrow> Inl (CheckpointInvalid e) | None \<Rightarrow> Inr st))"

definition add_target :: "nat \<Rightarrow> baseline_target \<Rightarrow> checkpoint_state \<Rightarrow> cache_error + checkpoint_state" where
  "add_target n unit st =
     (if bt_ID unit \<in> set (map bt_ID (bl_Targets (ck_Baseline st))) then Inl (JournalTargetTwice n (bt_ID unit))
      else Inr (st\<lparr>ck_Baseline := (ck_Baseline st)\<lparr>bl_Targets := bl_Targets (ck_Baseline st) @ [unit]\<rparr>\<rparr>))"

definition add_suite :: "nat \<Rightarrow> baseline_suite \<Rightarrow> checkpoint_state \<Rightarrow> cache_error + checkpoint_state" where
  "add_suite n unit st =
     (if bs_Package unit \<in> set (map bs_Package (bl_Suites (ck_Baseline st))) then Inl (JournalSuiteTwice n (bs_Package unit))
      else Inr (st\<lparr>ck_Baseline := (ck_Baseline st)\<lparr>bl_Suites := bl_Suites (ck_Baseline st) @ [unit]\<rparr>\<rparr>))"

definition add_result :: "nat \<Rightarrow> mutation_unit \<Rightarrow> checkpoint_state \<Rightarrow> cache_error + checkpoint_state" where
  "add_result n unit st =
     (case ck_Mutation st of
        None \<Rightarrow> Inl (JournalNoCatalog n)
      | Some m \<Rightarrow>
          if mx_ID unit \<in> set (map mx_ID (mn_Results m)) then Inl (JournalMutantTwice n (mx_ID unit))
          else Inr (st\<lparr>ck_Mutation := Some (m\<lparr>mn_Results := mn_Results m @ [unit]\<rparr>)\<rparr>))"

definition present :: "'a option \<Rightarrow> nat" where
  "present x = (if x = None then 0 else 1)"

definition add_record :: "nat \<Rightarrow> journal_record \<Rightarrow> checkpoint_state \<Rightarrow> cache_error + checkpoint_state" where
  "add_record n r st =
     (if present (jr_BaselineTarget r) + present (jr_BaselineSuite r) + present (jr_MutationResult r) \<noteq> 1
      then Inl (JournalUnits n)
      else case jr_BaselineTarget r of
        Some unit \<Rightarrow> add_target n unit st
      | None \<Rightarrow>
          (case jr_BaselineSuite r of
             Some unit \<Rightarrow> add_suite n unit st
           | None \<Rightarrow>
               (case jr_MutationResult r of
                  Some unit \<Rightarrow> add_result n unit st
                | None \<Rightarrow> Inl (JournalUnits n))))"

text \<open>The loop over the complete lines; \<open>seen\<close> is \<open>currentBaseSeen\<close>.\<close>

fun replay_lines ::
  "checkpoint_codec \<Rightarrow> string \<Rightarrow> string \<Rightarrow> bool \<Rightarrow> nat \<Rightarrow> string list \<Rightarrow> checkpoint_state \<Rightarrow>
   cache_error + checkpoint_state" where
  "replay_lines codec digest base seen n [] st = Inr st"
| "replay_lines codec digest base seen n (line # lines) st =
     (case cd_parse codec line of
        None \<Rightarrow> Inl (JournalUndecodable n)
      | Some r \<Rightarrow>
          if jr_Schema r \<noteq> checkpoint_journal_schema \<or> jr_InputDigest r \<noteq> digest \<or> jr_Checksum r = [] \<or>
             jr_Checksum r \<noteq> checkpoint_journal_checksum codec r
          then Inl (JournalIdentity n)
          else if jr_BaseDigest r \<noteq> base then
            (if \<not> seen then replay_lines codec digest base seen (Suc n) lines st else Inl (JournalBaseChanged n))
          else case add_record n r st of
            Inl e \<Rightarrow> Inl e
          | Inr st \<Rightarrow> replay_lines codec digest base True (Suc n) lines st)"

definition sort_checkpoint :: "checkpoint_state \<Rightarrow> checkpoint_state" where
  "sort_checkpoint st =
     st\<lparr>ck_Baseline := (ck_Baseline st)\<lparr>bl_Targets := sort_by bt_ID (bl_Targets (ck_Baseline st)),
                                       bl_Suites := sort_by bs_Package (bl_Suites (ck_Baseline st))\<rparr>,
        ck_Mutation := map_option (\<lambda>m. m\<lparr>mn_Results := sort_by mx_ID (mn_Results m)\<rparr>) (ck_Mutation st)\<rparr>"

definition apply_checkpoint_journal ::
  "checkpoint_codec \<Rightarrow> string \<Rightarrow> string \<Rightarrow> bool \<Rightarrow> string option \<Rightarrow> checkpoint_state \<Rightarrow> cache_error + checkpoint_state" where
  "apply_checkpoint_journal codec digest base unreadable journal st =
     (case journal of
        None \<Rightarrow> Inr st
      | Some data \<Rightarrow>
          if unreadable then Inl JournalUnreadable
          else if data = [] then Inr st
          else if last_index data newline < 0 then Inr st
          else case replay_lines codec digest base False 1 (split_on newline (take (nat (last_index data newline)) data)) st of
            Inl e \<Rightarrow> Inl e
          | Inr st \<Rightarrow>
              let st = sort_checkpoint st in
              case validate_checkpoint st of Some e \<Rightarrow> Inl (JournalInvalid e) | None \<Rightarrow> Inr st)"

text \<open>\<open>faults\<close> says whether reading the checkpoint and the journal fails.\<close>

definition get_checkpoint ::
  "checkpoint_codec \<Rightarrow> string \<Rightarrow> bool \<times> bool \<Rightarrow> checkpoint_files \<Rightarrow>
   (cache_error + checkpoint_state option) \<times> checkpoint_files" where
  "get_checkpoint codec digest faults files =
     (if \<not> cache_digest_ok digest then (Inl InvalidCacheDigest, files)
      else case pf_checkpoint files of
        None \<Rightarrow> (Inr None, files)
      | Some data \<Rightarrow>
          if fst faults then (Inl CheckpointUnreadable, files)
          else case decode_checkpoint codec data of
            Inl e \<Rightarrow> (Inl e, files)
          | Inr st \<Rightarrow>
              if ck_InputDigest st \<noteq> digest then (Inl CheckpointIdentity, files)
              else
                let base = checkpoint_file_digest codec data in
                case apply_checkpoint_journal codec digest base (snd faults) (pf_journal files) st of
                  Inl e \<Rightarrow> (Inl e, files)
                | Inr st \<Rightarrow> (Inr (Some st), files\<lparr>pf_base := base\<rparr>))"

section \<open>Writing\<close>

text \<open>
  What can go wrong while a checkpoint is written: anything up to the rename leaves the files
  as they were; after it only the removal of the journal can fail.
\<close>

datatype put_outcome = PutDone | PutUnpublished | PutJournalKept

definition checkpoint_json :: "checkpoint_codec \<Rightarrow> checkpoint_state \<Rightarrow> string" where
  "checkpoint_json codec st = cd_state codec (canonical_checkpoint st)"

definition publish_checkpoint :: "checkpoint_codec \<Rightarrow> checkpoint_state \<Rightarrow> checkpoint_files \<Rightarrow> checkpoint_files" where
  "publish_checkpoint codec st files =
     (let data = checkpoint_json codec st
      in files\<lparr>pf_checkpoint := Some data, pf_base := checkpoint_file_digest codec data\<rparr>)"

definition put_checkpoint ::
  "checkpoint_codec \<Rightarrow> string \<Rightarrow> put_outcome \<Rightarrow> checkpoint_state \<Rightarrow> checkpoint_files \<Rightarrow>
   cache_error option \<times> checkpoint_files" where
  "put_checkpoint codec digest outcome st files =
     (if ck_InputDigest st \<noteq> digest then (Some CheckpointDigestMismatch, files)
      else case validate_checkpoint st of
        Some e \<Rightarrow> (Some (CheckpointInvalid e), files)
      | None \<Rightarrow>
          if \<not> cache_digest_ok digest then (Some InvalidCacheDigest, files)
          else case outcome of
            PutUnpublished \<Rightarrow> (Some CheckpointUnpublished, files)
          | PutJournalKept \<Rightarrow> (Some JournalNotRemoved, publish_checkpoint codec st files)
          | PutDone \<Rightarrow> (None, (publish_checkpoint codec st files)\<lparr>pf_journal := None\<rparr>))"

text \<open>
  An append can be torn: the process or the file system stops after some of the line's bytes.
\<close>

datatype append_outcome = AppendDone | AppendTorn nat

definition seal_record :: "checkpoint_codec \<Rightarrow> string \<Rightarrow> string \<Rightarrow> journal_record \<Rightarrow> journal_record" where
  "seal_record codec digest base r =
     (let r = r\<lparr>jr_Schema := checkpoint_journal_schema, jr_InputDigest := digest, jr_BaseDigest := base\<rparr>
      in r\<lparr>jr_Checksum := checkpoint_journal_checksum codec r\<rparr>)"

definition append_bytes :: "string \<Rightarrow> string option \<Rightarrow> string option" where
  "append_bytes data journal = Some ((case journal of None \<Rightarrow> [] | Some old \<Rightarrow> old) @ data)"

definition append_checkpoint_record ::
  "checkpoint_codec \<Rightarrow> string \<Rightarrow> append_outcome \<Rightarrow> journal_record \<Rightarrow> checkpoint_files \<Rightarrow>
   cache_error option \<times> checkpoint_files" where
  "append_checkpoint_record codec digest outcome r files =
     (if \<not> cache_digest_ok digest then (Some InvalidCacheDigest, files)
      else if pf_base files = [] \<and> pf_checkpoint files = None then (Some NoCheckpointToJournal, files)
      else
        let base = (if pf_base files \<noteq> [] then pf_base files
                    else checkpoint_file_digest codec (the (pf_checkpoint files)));
            files = files\<lparr>pf_base := base\<rparr>;
            data = cd_record codec (seal_record codec digest base r) @ [newline]
        in case outcome of
             AppendDone \<Rightarrow> (None, files\<lparr>pf_journal := append_bytes data (pf_journal files)\<rparr>)
           | AppendTorn n \<Rightarrow> (Some JournalUnwritten, files\<lparr>pf_journal := append_bytes (take n data) (pf_journal files)\<rparr>))"

definition no_unit :: journal_record where
  "no_unit = \<lparr>jr_Schema = [], jr_InputDigest = [], jr_BaseDigest = [], jr_BaselineTarget = None,
     jr_BaselineSuite = None, jr_MutationResult = None, jr_Checksum = []\<rparr>"

datatype journal_unit =
    TargetUnit baseline_target
  | SuiteUnit baseline_suite
  | MutantUnit mutation_unit

fun unit_record :: "journal_unit \<Rightarrow> journal_record" where
  "unit_record (TargetUnit unit) = no_unit\<lparr>jr_BaselineTarget := Some unit\<rparr>"
| "unit_record (SuiteUnit unit) = no_unit\<lparr>jr_BaselineSuite := Some unit\<rparr>"
| "unit_record (MutantUnit unit) = no_unit\<lparr>jr_MutationResult := Some unit\<rparr>"

definition append_checkpoint ::
  "checkpoint_codec \<Rightarrow> string \<Rightarrow> append_outcome \<Rightarrow> journal_unit \<Rightarrow> checkpoint_files \<Rightarrow>
   cache_error option \<times> checkpoint_files" where
  "append_checkpoint codec digest outcome unit files =
     append_checkpoint_record codec digest outcome (unit_record unit) files"

text \<open>The removal stops at the first file it cannot remove.\<close>

datatype delete_outcome = DeleteDone | DeleteNothing | DeleteJournalKept | DeleteDirectoryKept

definition delete_checkpoint :: "string \<Rightarrow> delete_outcome \<Rightarrow> checkpoint_files \<Rightarrow> cache_error option \<times> checkpoint_files" where
  "delete_checkpoint digest outcome files =
     (if \<not> cache_digest_ok digest then (Some InvalidCacheDigest, files)
      else case outcome of
        DeleteNothing \<Rightarrow> (Some CheckpointNotRemoved, files)
      | DeleteJournalKept \<Rightarrow> (Some CheckpointNotRemoved, files\<lparr>pf_checkpoint := None\<rparr>)
      | DeleteDirectoryKept \<Rightarrow> (Some CheckpointNotRemoved, \<lparr>pf_checkpoint = None, pf_journal = None, pf_base = []\<rparr>)
      | DeleteDone \<Rightarrow> (None, \<lparr>pf_checkpoint = None, pf_journal = None, pf_base = []\<rparr>))"

section \<open>Lines\<close>

lemma split_on_append: "c \<notin> set l \<Longrightarrow> split_on c (l @ c # rest) = l # split_on c rest"
  by (induction l) auto

lemma split_on_line: "c \<notin> set l \<Longrightarrow> split_on c l = [l]"
  by (induction l) auto

lemma split_on_join: "ls \<noteq> [] \<Longrightarrow> \<forall>l \<in> set ls. c \<notin> set l \<Longrightarrow> split_on c (join [c] ls) = ls"
  by (induction "[c]" ls rule: join.induct) (auto simp: split_on_append split_on_line)

lemma join_lines: "ls \<noteq> [] \<Longrightarrow> concat (map (\<lambda>l. l @ [c]) ls) = join [c] ls @ [c]"
  by (induction "[c]" ls rule: join.induct) auto

lemma last_index_from_append:
  "c \<notin> set ys \<Longrightarrow> last_index_from c (xs @ c # ys) i found = i + int (length xs)"
proof (induction xs arbitrary: i found)
  case Nil
  have "c \<notin> set zs \<Longrightarrow> last_index_from c zs j k = k" for zs j k by (induction zs arbitrary: j) auto
  then show ?case using Nil by simp
qed simp

lemma last_index_append: "c \<notin> set ys \<Longrightarrow> last_index (xs @ c # ys) c = int (length xs)"
  by (simp add: last_index_def last_index_from_append)

lemma last_index_none: "c \<notin> set xs \<Longrightarrow> last_index xs c = - 1"
proof -
  have "c \<notin> set xs \<Longrightarrow> last_index_from c xs j k = k" for j k by (induction xs arbitrary: j) auto
  then show "c \<notin> set xs \<Longrightarrow> last_index xs c = - 1" by (simp add: last_index_def)
qed

text \<open>What is read of a journal: its complete lines; a torn last line is not.\<close>

lemma complete_lines:
  assumes "ls \<noteq> []" "\<forall>l \<in> set ls. c \<notin> set l" "c \<notin> set torn"
  shows "last_index (concat (map (\<lambda>l. l @ [c]) ls) @ torn) c \<ge> 0"
    and "split_on c (take (nat (last_index (concat (map (\<lambda>l. l @ [c]) ls) @ torn) c))
           (concat (map (\<lambda>l. l @ [c]) ls) @ torn)) = ls"
proof -
  have "concat (map (\<lambda>l. l @ [c]) ls) @ torn = join [c] ls @ c # torn" using join_lines [OF assms(1)] by simp
  moreover have "last_index (join [c] ls @ c # torn) c = int (length (join [c] ls))"
    using assms(3) by (rule last_index_append)
  ultimately show "last_index (concat (map (\<lambda>l. l @ [c]) ls) @ torn) c \<ge> 0"
    "split_on c (take (nat (last_index (concat (map (\<lambda>l. l @ [c]) ls) @ torn) c))
       (concat (map (\<lambda>l. l @ [c]) ls) @ torn)) = ls"
    using split_on_join [OF assms(1,2)] by simp_all
qed

section \<open>Replaying what was appended\<close>

fun add_unit :: "journal_unit \<Rightarrow> checkpoint_state \<Rightarrow> checkpoint_state" where
  "add_unit (TargetUnit unit) st =
     st\<lparr>ck_Baseline := (ck_Baseline st)\<lparr>bl_Targets := bl_Targets (ck_Baseline st) @ [unit]\<rparr>\<rparr>"
| "add_unit (SuiteUnit unit) st =
     st\<lparr>ck_Baseline := (ck_Baseline st)\<lparr>bl_Suites := bl_Suites (ck_Baseline st) @ [unit]\<rparr>\<rparr>"
| "add_unit (MutantUnit unit) st =
     st\<lparr>ck_Mutation := map_option (\<lambda>m. m\<lparr>mn_Results := mn_Results m @ [unit]\<rparr>) (ck_Mutation st)\<rparr>"

fun new_unit :: "journal_unit \<Rightarrow> checkpoint_state \<Rightarrow> bool" where
  "new_unit (TargetUnit unit) st \<longleftrightarrow> bt_ID unit \<notin> set (map bt_ID (bl_Targets (ck_Baseline st)))"
| "new_unit (SuiteUnit unit) st \<longleftrightarrow> bs_Package unit \<notin> set (map bs_Package (bl_Suites (ck_Baseline st)))"
| "new_unit (MutantUnit unit) st \<longleftrightarrow>
     (case ck_Mutation st of None \<Rightarrow> False | Some m \<Rightarrow> mx_ID unit \<notin> set (map mx_ID (mn_Results m)))"

fun new_units :: "journal_unit list \<Rightarrow> checkpoint_state \<Rightarrow> bool" where
  "new_units [] st \<longleftrightarrow> True"
| "new_units (u # us) st \<longleftrightarrow> new_unit u st \<and> new_units us (add_unit u st)"

lemma add_record_unit: "new_unit u st \<Longrightarrow> add_record n (seal_record codec digest base (unit_record u)) st = Inr (add_unit u st)"
  by (cases u) (auto simp: add_record_def seal_record_def no_unit_def present_def add_target_def add_suite_def add_result_def
      Let_def split: option.splits)

definition journal_line :: "checkpoint_codec \<Rightarrow> string \<Rightarrow> string \<Rightarrow> journal_unit \<Rightarrow> string" where
  "journal_line codec digest base u = cd_record codec (seal_record codec digest base (unit_record u))"

text \<open>A record that is written on one line, and read back as it was written.\<close>

definition line_ok :: "checkpoint_codec \<Rightarrow> string \<Rightarrow> string \<Rightarrow> journal_unit \<Rightarrow> bool" where
  "line_ok codec digest base u \<longleftrightarrow>
     newline \<notin> set (journal_line codec digest base u) \<and>
     cd_parse codec (journal_line codec digest base u) = Some (seal_record codec digest base (unit_record u)) \<and>
     jr_Checksum (seal_record codec digest base (unit_record u)) \<noteq> []"

lemma sealed_identity:
  "jr_Schema (seal_record codec digest base r) = checkpoint_journal_schema"
  "jr_InputDigest (seal_record codec digest base r) = digest"
  "jr_BaseDigest (seal_record codec digest base r) = base"
  "jr_Checksum (seal_record codec digest base r) = checkpoint_journal_checksum codec (seal_record codec digest base r)"
  by (simp_all add: seal_record_def checkpoint_journal_checksum_def Let_def)

lemma replay_current:
  assumes "\<forall>u \<in> set us. line_ok codec digest base u"
  shows "new_units us st \<Longrightarrow>
    replay_lines codec digest base seen n (map (journal_line codec digest base) us) st = Inr (fold add_unit us st)"
  using assms
proof (induction us arbitrary: seen n st)
  case (Cons u us)
  have parsed: "cd_parse codec (journal_line codec digest base u) = Some (seal_record codec digest base (unit_record u))"
    "jr_Checksum (seal_record codec digest base (unit_record u)) \<noteq> []"
    using Cons.prems(2) by (simp_all add: line_ok_def)
  have "replay_lines codec digest base seen n (map (journal_line codec digest base) (u # us)) st =
      replay_lines codec digest base True (Suc n) (map (journal_line codec digest base) us) (add_unit u st)"
    using parsed Cons.prems(1) sealed_identity [of codec digest base "unit_record u"]
    by (simp add: add_record_unit)
  also have "\<dots> = Inr (fold add_unit us (add_unit u st))" using Cons by simp
  finally show ?case by simp
qed simp

text \<open>Lines of older bases stand before those of the current one and are skipped.\<close>

definition stale_line :: "checkpoint_codec \<Rightarrow> string \<Rightarrow> string \<times> journal_unit \<Rightarrow> string" where
  "stale_line codec digest old = journal_line codec digest (fst old) (snd old)"

definition stale_ok :: "checkpoint_codec \<Rightarrow> string \<Rightarrow> string \<Rightarrow> string \<times> journal_unit \<Rightarrow> bool" where
  "stale_ok codec digest base old \<longleftrightarrow> fst old \<noteq> base \<and> line_ok codec digest (fst old) (snd old)"

lemma replay_stale:
  assumes "\<forall>old \<in> set olds. stale_ok codec digest base old"
  shows "replay_lines codec digest base False n (map (stale_line codec digest) olds @ lines) st =
    replay_lines codec digest base False (n + length olds) lines st"
  using assms
proof (induction olds arbitrary: n)
  case (Cons old olds)
  obtain other u where old: "old = (other, u)" by (cases old)
  have parsed: "cd_parse codec (journal_line codec digest other u) = Some (seal_record codec digest other (unit_record u))"
    "jr_Checksum (seal_record codec digest other (unit_record u)) \<noteq> []" "other \<noteq> base"
    using Cons.prems by (simp_all add: line_ok_def stale_ok_def old)
  then show ?case
    using Cons sealed_identity [of codec digest other "unit_record u"] by (simp add: stale_line_def old)
qed simp

end
