(* ===== verification/JournalRecovery.thy ===== *)
theory JournalRecovery
  imports CheckpointJournal
begin

text \<open>
  What a later process reads of the files an earlier one left (\<open>internal/cache/checkpoint.go\<close>):
  after any number of appended units, a torn last line, or a crash between the publication of
  a checkpoint and the removal of its predecessor's journal.
\<close>

section \<open>The state after the journal\<close>

fun targets_of :: "journal_unit list \<Rightarrow> baseline_target list" where
  "targets_of [] = []"
| "targets_of (TargetUnit unit # us) = unit # targets_of us"
| "targets_of (_ # us) = targets_of us"

fun suites_of :: "journal_unit list \<Rightarrow> baseline_suite list" where
  "suites_of [] = []"
| "suites_of (SuiteUnit unit # us) = unit # suites_of us"
| "suites_of (_ # us) = suites_of us"

fun results_of :: "journal_unit list \<Rightarrow> mutation_unit list" where
  "results_of [] = []"
| "results_of (MutantUnit unit # us) = unit # results_of us"
| "results_of (_ # us) = results_of us"

lemma same_mutation: "map_option (\<lambda>m. m\<lparr>mn_Results := mn_Results m\<rparr>) m = m"
  by (cases m) simp_all

lemma checkpoint_eqI:
  assumes "ck_Schema s = ck_Schema t" "ck_InputDigest s = ck_InputDigest t" "ck_Attempts s = ck_Attempts t"
    "ck_Baseline s = ck_Baseline t" "ck_Race s = ck_Race t" "ck_Mutation s = ck_Mutation t"
  shows "s = (t :: checkpoint_state)"
  using assms by simp

lemma fold_add_unit_eq:
  "fold add_unit us st = st\<lparr>
     ck_Baseline := (ck_Baseline st)\<lparr>bl_Targets := bl_Targets (ck_Baseline st) @ targets_of us,
       bl_Suites := bl_Suites (ck_Baseline st) @ suites_of us\<rparr>,
     ck_Mutation := map_option (\<lambda>m. m\<lparr>mn_Results := mn_Results m @ results_of us\<rparr>) (ck_Mutation st)\<rparr>"
proof (induction us arbitrary: st)
  case Nil
  show ?case by (rule checkpoint_eqI) (simp_all add: same_mutation option.map_ident)
next
  case (Cons u us)
  show ?case by (cases u) (simp_all add: Cons.IH option.map_comp comp_def)
qed

lemma fold_add_unit:
  "ck_Schema (fold add_unit us st) = ck_Schema st"
  "ck_InputDigest (fold add_unit us st) = ck_InputDigest st"
  "ck_Attempts (fold add_unit us st) = ck_Attempts st"
  "ck_Race (fold add_unit us st) = ck_Race st"
  "ck_Baseline (fold add_unit us st) = (ck_Baseline st)\<lparr>bl_Targets := bl_Targets (ck_Baseline st) @ targets_of us,
     bl_Suites := bl_Suites (ck_Baseline st) @ suites_of us\<rparr>"
  "ck_Mutation (fold add_unit us st) =
     map_option (\<lambda>m. m\<lparr>mn_Results := mn_Results m @ results_of us\<rparr>) (ck_Mutation st)"
  by (simp_all add: fold_add_unit_eq)

lemma sort_checkpoint_parts:
  "ck_Schema (sort_checkpoint st) = ck_Schema st"
  "ck_InputDigest (sort_checkpoint st) = ck_InputDigest st"
  "ck_Attempts (sort_checkpoint st) = ck_Attempts st"
  "ck_Race (sort_checkpoint st) = ck_Race st"
  "ck_Baseline (sort_checkpoint st) = (ck_Baseline st)\<lparr>bl_Targets := sort_by bt_ID (bl_Targets (ck_Baseline st)),
     bl_Suites := sort_by bs_Package (bl_Suites (ck_Baseline st))\<rparr>"
  "ck_Mutation (sort_checkpoint st) = map_option (\<lambda>m. m\<lparr>mn_Results := sort_by mx_ID (mn_Results m)\<rparr>) (ck_Mutation st)"
  by (simp_all add: sort_checkpoint_def)

lemma sort_by_perm:
  assumes "mset xs = mset ys" "distinct (map key xs)"
  shows "sort_by key xs = sort_by key ys"
  using assms by (intro comparator.sort_func_perm [OF comparator_compare]) (auto simp: distinct_map inj_on_def)

lemma sort_by_canonical_append:
  assumes "\<And>x. key (f x) = key x" "\<And>x. f (f x) = f x" "distinct (map key (xs @ ys))"
  shows "sort_by key (map f (sort_by key (sort_by key (map f xs) @ ys))) = sort_by key (map f (xs @ ys))"
proof (rule sort_by_perm)
  have "mset (map f (sort_by key (sort_by key (map f xs) @ ys))) = image_mset f (mset (sort_by key (map f xs) @ ys))"
    by (simp only: mset_map mset_sort_func)
  also have "\<dots> = image_mset f (image_mset f (mset xs) + mset ys)" by simp
  also have "\<dots> = mset (map f (xs @ ys))" using assms(2) by (simp add: image_mset.compositionality comp_def)
  finally show same: "mset (map f (sort_by key (sort_by key (map f xs) @ ys))) = mset (map f (xs @ ys))" .
  then have "mset (map key (map f (sort_by key (sort_by key (map f xs) @ ys)))) = mset (map key (map f (xs @ ys)))"
    by (metis mset_map)
  moreover have "map key (map f (xs @ ys)) = map key (xs @ ys)" using assms(1) by simp
  ultimately show "distinct (map key (map f (sort_by key (sort_by key (map f xs) @ ys))))"
    using assms(3) by (metis mset_eq_imp_distinct_iff)
qed

lemma sort_canonical_units: "map canonical_unit (sort_by bt_ID us) = sort_by bt_ID (map canonical_unit us)"
  by (rule sort_map_commute [symmetric]) simp

definition replayed :: "checkpoint_state \<Rightarrow> journal_unit list \<Rightarrow> checkpoint_state" where
  "replayed st us = sort_checkpoint (fold add_unit us (canonical_checkpoint st))"

lemma validate_each_distinct: "validate_each before key twice after seen xs = None \<Longrightarrow> distinct (map key xs)"
  by (simp add: validate_each_None)

lemma valid_keys:
  assumes "validate_checkpoint st = None"
  shows "distinct (map bt_ID (bl_Targets (ck_Baseline st)))" "distinct (map bs_Package (bl_Suites (ck_Baseline st)))"
    "ck_Mutation st = Some m \<Longrightarrow> distinct (map mx_ID (mn_Results m))"
proof -
  show "distinct (map bt_ID (bl_Targets (ck_Baseline st)))" "distinct (map bs_Package (bl_Suites (ck_Baseline st)))"
    using assms by (simp_all add: validate_checkpoint_None validate_baseline_targets_None validate_each_None)
  show "ck_Mutation st = Some m \<Longrightarrow> distinct (map mx_ID (mn_Results m))"
    using assms by (simp add: validate_checkpoint_None validate_mutation_state_def validate_each_None err_simps)
qed

lemma baseline_cong:
  "canonical_baseline b = canonical_baseline b'" if "bl_BuildVetComplete b = bl_BuildVetComplete b'" "bl_Complete b = bl_Complete b'"
  "bl_Evidence b = bl_Evidence b'" "bl_Findings b = bl_Findings b'"
  "map canonical_unit (sort_by bt_ID (bl_Targets b)) = map canonical_unit (sort_by bt_ID (bl_Targets b'))"
  "sort_by bs_Package (map canonical_partial_suite (bl_Suites b)) = sort_by bs_Package (map canonical_partial_suite (bl_Suites b'))"
  "map_option canonical_routing (bl_Routing b) = map_option canonical_routing (bl_Routing b')"
  using that by (simp add: canonical_baseline_def)

lemma replayed_canonical:
  assumes "validate_checkpoint (fold add_unit us st) = None"
  shows "canonical_checkpoint (replayed st us) = canonical_checkpoint (fold add_unit us st)"
proof (rule checkpoint_eqI)
  let ?b = "ck_Baseline st"
  have ids: "distinct (map bt_ID (bl_Targets ?b @ targets_of us))" "distinct (map bs_Package (bl_Suites ?b @ suites_of us))"
    using valid_keys(1,2) [OF assms] by (simp_all add: fold_add_unit)
  have targets: "map canonical_unit (sort_by bt_ID (sort_by bt_ID (map canonical_unit (sort_by bt_ID (bl_Targets ?b)) @ targets_of us))) =
      map canonical_unit (sort_by bt_ID (bl_Targets ?b @ targets_of us))"
  proof -
    have "map canonical_unit (sort_by bt_ID (sort_by bt_ID (map canonical_unit (sort_by bt_ID (bl_Targets ?b)) @ targets_of us))) =
        sort_by bt_ID (map canonical_unit (sort_by bt_ID (sort_by bt_ID (map canonical_unit (bl_Targets ?b)) @ targets_of us)))"
      by (simp only: sort_canonical_units sort_keys_idem)
    also have "\<dots> = sort_by bt_ID (map canonical_unit (bl_Targets ?b @ targets_of us))"
      by (rule sort_by_canonical_append [OF canonical_unit_fields(1) canonical_unit_idem ids(1)])
    finally show ?thesis by (simp only: sort_canonical_units)
  qed
  have suites: "sort_by bs_Package (map canonical_partial_suite (sort_by bs_Package
        (sort_by bs_Package (map canonical_partial_suite (bl_Suites ?b)) @ suites_of us))) =
      sort_by bs_Package (map canonical_partial_suite (bl_Suites ?b @ suites_of us))"
    by (rule sort_by_canonical_append [OF canonical_partial_suite_facts(1) canonical_coverages_idem(1) ids(2)])
  show "ck_Baseline (canonical_checkpoint (replayed st us)) = ck_Baseline (canonical_checkpoint (fold add_unit us st))"
    unfolding canonical_checkpoint_parts replayed_def sort_checkpoint_parts fold_add_unit
    by (rule baseline_cong) (use targets suites in \<open>simp_all add: canonical_baseline_def canonical_routing_idem option.map_comp comp_def\<close>)
  show "ck_Mutation (canonical_checkpoint (replayed st us)) = ck_Mutation (canonical_checkpoint (fold add_unit us st))"
  proof (cases "ck_Mutation st")
    case (Some m)
    have "distinct (map mx_ID (mn_Results m @ results_of us))"
      using valid_keys(3) [OF assms] Some by (simp add: fold_add_unit)
    then have "sort_by mx_ID (sort_by mx_ID (sort_by mx_ID (mn_Results m) @ results_of us)) = sort_by mx_ID (mn_Results m @ results_of us)"
      using sort_by_canonical_append [of mx_ID "\<lambda>x. x" "mn_Results m" "results_of us"] by simp
    with Some show ?thesis
      by (simp add: canonical_checkpoint_parts replayed_def sort_checkpoint_parts fold_add_unit canonical_mutation_def
          canonical_probe_idem option.map_comp comp_def)
  qed (simp add: canonical_checkpoint_parts replayed_def sort_checkpoint_parts fold_add_unit)
qed (simp_all add: canonical_checkpoint_parts replayed_def sort_checkpoint_parts fold_add_unit canonical_race_idem option.map_comp comp_def)

text \<open>
  The units of a journal were checked with the whole state when they were added; the state they
  are added to when they are read back is the canonical form of the one they were added to.
\<close>

lemma replayed_targets_valid:
  assumes "validate_baseline_targets complete [] [] (us @ vs) = None"
  shows "validate_baseline_targets complete [] []
    (sort_by bt_ID (map canonical_unit (sort_by bt_ID us) @ vs)) = None"
proof -
  let ?out = "sort_by bt_ID (map canonical_unit (sort_by bt_ID us) @ vs)"
  have good: "\<forall>u \<in> set us. good_target_unit u" "\<forall>u \<in> set vs. good_target_unit u" and ids: "distinct (map bt_ID (us @ vs))"
    and packages: "complete \<longrightarrow> instrumented_packages (us @ vs) = []" "distinct (instrumented_packages (us @ vs))"
    using assms by (auto simp: validate_baseline_targets_None)
  have goodout: "\<forall>u \<in> set ?out. good_target_unit u" using good canonical_unit_good(1) by auto
  have "mset (map bt_ID ?out) = image_mset bt_ID (image_mset canonical_unit (mset us) + mset vs)" by (simp only: mset_map mset_sort_func mset_append)
  also have "\<dots> = mset (map bt_ID (us @ vs))" by (simp add: image_mset.compositionality)
  finally have idsout: "distinct (map bt_ID ?out)" using ids by (metis mset_eq_imp_distinct_iff)
  have "mset (map instrumented_package ?out) =
      image_mset instrumented_package (image_mset canonical_unit (mset us)) + image_mset instrumented_package (mset vs)"
    by (simp only: mset_map mset_sort_func mset_append image_mset_union)
  also have "image_mset instrumented_package (image_mset canonical_unit (mset us)) = image_mset instrumented_package (mset us)"
    unfolding image_mset.compositionality by (rule image_mset_cong) (use good canonical_unit_good(2) in auto)
  finally have "mset (map instrumented_package ?out) = mset (map instrumented_package (us @ vs))" by simp
  then have same: "mset (instrumented_packages ?out) = mset (instrumented_packages (us @ vs))"
    unfolding instrumented_packages_def by (rule mset_concat_perm)
  then have "distinct (instrumented_packages ?out)" "complete \<longrightarrow> instrumented_packages ?out = []"
    using packages mset_eq_imp_distinct_iff [OF same] by auto
  with goodout idsout show ?thesis unfolding validate_baseline_targets_None by simp
qed

lemma validate_each_mixed:
  assumes "validate_each before key twice after [] (xs @ ys) = None" "\<And>x. key (f x) = key x"
    and "\<And>x. before x = None \<Longrightarrow> before (f x) = None" "\<And>x. before x = None \<Longrightarrow> after x = None \<Longrightarrow> after (f x) = None"
  shows "validate_each before key twice after [] (sort_by key (sort_by key (map f xs) @ ys)) = None"
proof -
  have "mset (map key (sort_by key (sort_by key (map f xs) @ ys))) = image_mset key (image_mset f (mset xs) + mset ys)"
    by (simp only: mset_map mset_sort_func mset_append)
  also have "\<dots> = mset (map key (xs @ ys))" using assms(2) by (simp add: image_mset.compositionality comp_def)
  finally have "distinct (map key (sort_by key (sort_by key (map f xs) @ ys)))"
    using assms(1) by (metis mset_eq_imp_distinct_iff validate_each_distinct)
  with assms show ?thesis by (auto simp: validate_each_None)
qed

lemma replayed_valid:
  assumes "validate_checkpoint (fold add_unit us st) = None"
  shows "validate_checkpoint (replayed st us) = None"
proof -
  let ?b = "ck_Baseline st"
  note parts = assms [unfolded validate_checkpoint_None fold_add_unit]
  have targets: "validate_baseline_targets (bl_Complete ?b) [] []
      (sort_by bt_ID (map canonical_unit (sort_by bt_ID (bl_Targets ?b)) @ targets_of us)) = None"
    using parts by (intro replayed_targets_valid, simp (no_asm_use)) blast
  have suites: "validate_each partial_suite_error bs_Package PartialSuiteDuplicate partial_suite_coverage_error []
      (sort_by bs_Package (sort_by bs_Package (map canonical_partial_suite (bl_Suites ?b)) @ suites_of us)) = None"
    by (rule validate_each_mixed) (use parts in simp, simp_all add: canonical_partial_suite_facts)
  have routing: "validate_routing (map_option canonical_routing (bl_Routing ?b)) = None"
    and race: "validate_race (map_option canonical_race (ck_Race st)) = None"
    using parts by (simp_all add: canonical_routing_valid canonical_race_valid)
  have mutation: "validate_mutation_state (ck_Mutation (replayed st us)) = None"
  proof (cases "ck_Mutation st")
    case (Some m)
    let ?mid = "\<lambda>unit. if mx_ID unit = [] \<or> \<not> terminal_mutation unit then Some ResultNotTerminal else None"
    have ok: "valid_sha256 (mn_CatalogFingerprint m)" "validate_mutation_probe (mn_Probe m) = None"
      "validate_each ?mid mx_ID ResultDuplicate (\<lambda>_. None) [] (mn_Results m @ results_of us) = None"
      using parts Some by (auto simp: validate_mutation_state_def err_simps)
    have "validate_each ?mid mx_ID ResultDuplicate (\<lambda>_. None) []
        (sort_by mx_ID (sort_by mx_ID (map (\<lambda>x. x) (mn_Results m)) @ results_of us)) = None"
      using ok(3) by (rule validate_each_mixed) simp
    with ok(1) canonical_probe_valid [OF ok(2)] Some show ?thesis
      by (simp add: replayed_def sort_checkpoint_parts fold_add_unit canonical_checkpoint_parts canonical_mutation_def
          validate_mutation_state_def err_simps)
  qed (simp add: replayed_def sort_checkpoint_parts fold_add_unit canonical_checkpoint_parts validate_mutation_state_def)
  show ?thesis
    unfolding validate_checkpoint_None
    using parts targets suites routing race mutation
    by (simp (no_asm_use) add: replayed_def sort_checkpoint_parts fold_add_unit canonical_checkpoint_parts canonical_baseline_def)
      blast
qed

section \<open>What is read back\<close>

definition unit_keys :: "checkpoint_state \<Rightarrow> string set \<times> string set \<times> string set option" where
  "unit_keys st = (bt_ID ` set (bl_Targets (ck_Baseline st)), bs_Package ` set (bl_Suites (ck_Baseline st)),
     map_option (\<lambda>m. mx_ID ` set (mn_Results m)) (ck_Mutation st))"

lemma new_unit_keys: "unit_keys s = unit_keys t \<Longrightarrow> new_unit u s = new_unit u t"
  by (cases u; cases "ck_Mutation s"; cases "ck_Mutation t") (auto simp: unit_keys_def)

lemma add_unit_keys: "unit_keys s = unit_keys t \<Longrightarrow> unit_keys (add_unit u s) = unit_keys (add_unit u t)"
  by (cases u; cases "ck_Mutation s"; cases "ck_Mutation t") (auto simp: unit_keys_def)

lemma new_units_keys: "unit_keys s = unit_keys t \<Longrightarrow> new_units us s = new_units us t"
proof (induction us arbitrary: s t)
  case (Cons u us)
  show ?case using new_unit_keys [OF Cons.prems] Cons.IH [OF add_unit_keys [OF Cons.prems]] by simp
qed simp

lemma canonical_keys: "unit_keys (canonical_checkpoint st) = unit_keys st"
  by (cases "ck_Mutation st")
    (simp_all add: unit_keys_def canonical_checkpoint_parts canonical_baseline_parts canonical_mutation_def image_image
      canonical_partial_suite_facts)

definition journal_bytes :: "string list \<Rightarrow> string \<Rightarrow> string" where
  "journal_bytes lines torn = concat (map (\<lambda>l. l @ [newline]) lines) @ torn"

definition base_of :: "checkpoint_codec \<Rightarrow> checkpoint_state \<Rightarrow> string" where
  "base_of codec st = checkpoint_file_digest codec (checkpoint_json codec st)"

definition journal_lines ::
  "checkpoint_codec \<Rightarrow> string \<Rightarrow> checkpoint_state \<Rightarrow> (string \<times> journal_unit) list \<Rightarrow> journal_unit list \<Rightarrow> string list" where
  "journal_lines codec digest st stale us =
     map (stale_line codec digest) stale @ map (journal_line codec digest (base_of codec st)) us"

text \<open>
  The files hold the checkpoint of \<open>st\<close> and the journal of \<open>us\<close> after it, behind lines of older
  checkpoints and before a torn line: the codec reads back what it wrote for these values.
\<close>

definition files_hold ::
  "checkpoint_codec \<Rightarrow> string \<Rightarrow> checkpoint_state \<Rightarrow> (string \<times> journal_unit) list \<Rightarrow> journal_unit list \<Rightarrow> string \<Rightarrow>
   checkpoint_files \<Rightarrow> bool" where
  "files_hold codec digest st stale us torn files \<longleftrightarrow>
     cache_digest_ok digest \<and> ck_InputDigest st = digest \<and>
     validate_checkpoint st = None \<and> validate_checkpoint (fold add_unit us st) = None \<and> new_units us st \<and>
     cd_decode codec (checkpoint_json codec st) = Some (canonical_checkpoint st) \<and>
     list_all (line_ok codec digest (base_of codec st)) us \<and>
     list_all (stale_ok codec digest (base_of codec st)) stale \<and> newline \<notin> set torn \<and>
     pf_checkpoint files = Some (checkpoint_json codec st) \<and>
     (pf_journal files = Some (journal_bytes (journal_lines codec digest st stale us) torn) \<or>
      pf_journal files = None \<and> stale = [] \<and> us = [] \<and> torn = [])"

lemma journal_replayed:
  assumes "files_hold codec digest st stale us torn files"
  shows "\<exists>read. apply_checkpoint_journal codec digest (base_of codec st) False (pf_journal files) (canonical_checkpoint st) = Inr read \<and>
    canonical_checkpoint read = canonical_checkpoint (fold add_unit us st)"
proof (cases "pf_journal files = None \<or> journal_lines codec digest st stale us = []")
  case True
  then have us: "us = []" and "pf_journal files = None \<or> pf_journal files = Some torn"
    using assms by (auto simp: files_hold_def journal_lines_def journal_bytes_def)
  moreover have "last_index torn newline = - 1" using assms by (simp add: files_hold_def last_index_none)
  ultimately have "apply_checkpoint_journal codec digest (base_of codec st) False (pf_journal files) (canonical_checkpoint st) =
      Inr (canonical_checkpoint st)"
    by (auto simp: apply_checkpoint_journal_def)
  with us show ?thesis by (simp add: canonical_checkpoint_idem)
next
  case False
  let ?ls = "journal_lines codec digest st stale us" and ?base = "base_of codec st"
  have journal: "pf_journal files = Some (journal_bytes ?ls torn)" using assms False by (auto simp: files_hold_def)
  have clean: "\<forall>l \<in> set ?ls. newline \<notin> set l" "newline \<notin> set torn"
    using assms by (auto simp: files_hold_def journal_lines_def line_ok_def stale_ok_def stale_line_def list_all_iff)
  have ne: "?ls \<noteq> []" using False by blast
  note complete = complete_lines [OF ne clean, folded journal_bytes_def]
  have "new_units us (canonical_checkpoint st)"
    using assms new_units_keys [OF canonical_keys] by (simp add: files_hold_def)
  then have "replay_lines codec digest ?base False 1 ?ls (canonical_checkpoint st) = Inr (fold add_unit us (canonical_checkpoint st))"
    using assms by (simp add: journal_lines_def replay_stale replay_current files_hold_def list_all_iff)
  moreover have "validate_checkpoint (replayed st us) = None" "canonical_checkpoint (replayed st us) = canonical_checkpoint (fold add_unit us st)"
    using assms by (simp_all add: files_hold_def replayed_valid replayed_canonical)
  moreover have "journal_bytes ?ls torn \<noteq> []" using complete(1) by (auto simp: last_index_def)
  ultimately show ?thesis
    using journal complete by (simp add: apply_checkpoint_journal_def Let_def replayed_def)
qed

lemma files_read:
  assumes "files_hold codec digest st stale us torn files"
  shows "\<exists>read. get_checkpoint codec digest (False, False) files = (Inr (Some read), files\<lparr>pf_base := base_of codec st\<rparr>) \<and>
    canonical_checkpoint read = canonical_checkpoint (fold add_unit us st)"
proof -
  obtain read where read: "apply_checkpoint_journal codec digest (base_of codec st) False (pf_journal files) (canonical_checkpoint st) = Inr read"
    "canonical_checkpoint read = canonical_checkpoint (fold add_unit us st)"
    using journal_replayed [OF assms] by blast
  have "decode_checkpoint codec (checkpoint_json codec st) = Inr (canonical_checkpoint st)"
    using assms by (simp add: files_hold_def decode_checkpoint_def canonical_checkpoint_valid)
  with assms read have "get_checkpoint codec digest (False, False) files = (Inr (Some read), files\<lparr>pf_base := base_of codec st\<rparr>)"
    by (simp add: get_checkpoint_def files_hold_def canonical_checkpoint_parts base_of_def [symmetric])
  with read(2) show ?thesis by blast
qed

section \<open>What the operations leave\<close>

lemma put_leaves:
  assumes "put_checkpoint codec digest PutDone st files = (None, files')"
    and "cd_decode codec (checkpoint_json codec st) = Some (canonical_checkpoint st)"
  shows "files_hold codec digest st [] [] [] files'" "pf_base files' = base_of codec st"
  using assms
  by (auto simp: put_checkpoint_def files_hold_def publish_checkpoint_def base_of_def Let_def split: option.splits if_split_asm)

text \<open>The journal of a checkpoint that was superseded is stale, whatever it holds.\<close>

lemma put_crash_leaves:
  assumes "put_checkpoint codec digest PutJournalKept next files = (e, files')" "validate_checkpoint next = None" "ck_InputDigest next = digest"
    and hold: "files_hold codec digest st stale us torn files"
    and "cd_decode codec (checkpoint_json codec next) = Some (canonical_checkpoint next)"
    and "base_of codec next \<noteq> base_of codec st" "list_all (stale_ok codec digest (base_of codec next)) stale"
  shows "files_hold codec digest next (stale @ map (Pair (base_of codec st)) us) [] torn files'"
proof -
  have files': "files' = publish_checkpoint codec next files"
    using assms(1-3) hold by (auto simp: put_checkpoint_def files_hold_def)
  have "journal_lines codec digest next (stale @ map (Pair (base_of codec st)) us) [] = journal_lines codec digest st stale us"
    by (simp add: journal_lines_def stale_line_def comp_def)
  moreover have "list_all (stale_ok codec digest (base_of codec next)) (map (Pair (base_of codec st)) us)"
    using hold assms(6) by (auto simp: files_hold_def list_all_iff stale_ok_def)
  moreover have "files_hold codec digest st stale us torn files \<Longrightarrow> pf_journal files = None \<Longrightarrow> stale = [] \<and> us = [] \<and> torn = []"
    by (simp add: files_hold_def)
  ultimately show ?thesis
    using assms(2,3,5,7) hold unfolding files' by (auto simp: files_hold_def publish_checkpoint_def Let_def)
qed

lemma new_units_append: "new_units (us @ vs) st \<longleftrightarrow> new_units us st \<and> new_units vs (fold add_unit us st)"
  by (induction us arbitrary: st) auto

text \<open>
  A unit that was written in full follows those of the journal; one that was not is a torn line.
\<close>

lemma append_leaves:
  assumes "append_checkpoint codec digest outcome u files = (e, files')"
    and hold: "files_hold codec digest st stale us [] files" and base: "pf_base files = [] \<or> pf_base files = base_of codec st"
    and unit: "line_ok codec digest (base_of codec st) u" "new_unit u (fold add_unit us st)"
      "validate_checkpoint (add_unit u (fold add_unit us st)) = None"
  shows "files_hold codec digest st stale (us @ [u]) [] files' \<or>
      (\<exists>torn. files_hold codec digest st stale us torn files') \<and> e \<noteq> None"
    and "outcome = AppendDone \<Longrightarrow> e = None \<and> files_hold codec digest st stale (us @ [u]) [] files'"
    and "pf_base files' = base_of codec st"
proof -
  let ?line = "journal_line codec digest (base_of codec st) u"
  have files: "cache_digest_ok digest" "pf_checkpoint files = Some (checkpoint_json codec st)"
    using hold by (simp_all add: files_hold_def)
  have eff: "(if pf_base files \<noteq> [] then pf_base files else checkpoint_file_digest codec (the (pf_checkpoint files))) = base_of codec st"
    using base files by (auto simp: base_of_def)
  define at where "at = (\<lambda>written. files\<lparr>pf_base := base_of codec st, pf_journal := append_bytes written (pf_journal files)\<rparr>)"
  have out: "append_checkpoint codec digest outcome u files =
      (case outcome of AppendDone \<Rightarrow> (None, at (?line @ [newline])) | AppendTorn n \<Rightarrow> (Some JournalUnwritten, at (take n (?line @ [newline]))))"
    using files eff by (cases outcome) (simp_all add: append_checkpoint_def append_checkpoint_record_def journal_line_def at_def Let_def)
  have written: "append_bytes w (pf_journal files) = Some (journal_bytes (journal_lines codec digest st stale us) w)" for w
    using hold by (auto simp: files_hold_def append_bytes_def journal_bytes_def journal_lines_def)
  have full: "files_hold codec digest st stale (us @ [u]) [] (at (?line @ [newline]))"
    using hold unit written [of "?line @ [newline]"]
    by (auto simp: files_hold_def at_def new_units_append journal_lines_def journal_bytes_def)
  have cut: "files_hold codec digest st stale us (take n ?line) (at (take n ?line))" for n
  proof -
    have "newline \<notin> set (take n ?line)" using unit(1) by (auto simp: line_ok_def dest: in_set_takeD)
    with hold written [of "take n ?line"] show ?thesis by (auto simp: files_hold_def at_def)
  qed
  have short: "take n (?line @ [newline]) = (if n \<le> length ?line then take n ?line else ?line @ [newline])" for n
    by (cases "n - length ?line") auto
  show "files_hold codec digest st stale (us @ [u]) [] files' \<or> (\<exists>torn. files_hold codec digest st stale us torn files') \<and> e \<noteq> None"
    using assms(1) full cut unfolding out by (auto simp: short simp del: take_append split: append_outcome.splits if_split_asm)
  show "outcome = AppendDone \<Longrightarrow> e = None \<and> files_hold codec digest st stale (us @ [u]) [] files'"
    using assms(1) full unfolding out by auto
  show "pf_base files' = base_of codec st"
    using assms(1) unfolding out by (auto simp: at_def split: append_outcome.splits)
qed

section \<open>Sample files\<close>

text \<open>
  A codec for the values of the examples: it tells states apart by their attempts and records by
  their base and unit, and reads back exactly what it wrote for them.
\<close>

definition journal_digest :: string where
  "journal_digest = ck_InputDigest sample_checkpoint"

definition sample_line :: "journal_record \<Rightarrow> string" where
  "sample_line r = jr_BaseDigest r @ ''|'' @ (case jr_BaselineTarget r of None \<Rightarrow> [] | Some unit \<Rightarrow> bt_ID unit) @ ''|'' @ jr_Checksum r"

definition sample_writer :: checkpoint_codec where
  "sample_writer = \<lparr>
     cd_state = (\<lambda>st. CHR ''s'' # replicate (nat (ck_Attempts st)) (CHR ''+'')), cd_decode = (\<lambda>data. None),
     cd_record = sample_line, cd_parse = (\<lambda>line. None), cd_sha = (\<lambda>data. CHR ''h'' # data)\<rparr>"

definition sample_next :: checkpoint_state where
  "sample_next = sample_checkpoint\<lparr>ck_Attempts := 3\<rparr>"

definition sample_added :: "string \<Rightarrow> journal_unit" where
  "sample_added i = TargetUnit (sample_unit i None)"

definition journal_records :: "journal_record list" where
  "journal_records = map (\<lambda>(base, i). seal_record sample_writer journal_digest base (unit_record (sample_added i)))
     [(''hs+'', ''t3''), (''hs++'', ''t3''), (''hs++'', ''t4'')]"

definition sample_codec :: checkpoint_codec where
  "sample_codec = sample_writer\<lparr>
     cd_decode := (\<lambda>data. map_of [(''s++'', canonical_checkpoint sample_checkpoint), (''s+++'', canonical_checkpoint sample_next)] data),
     cd_parse := map_of (map (\<lambda>r. (sample_line r, r)) journal_records)\<rparr>"

definition sample_files :: checkpoint_files where
  "sample_files = \<lparr>pf_checkpoint = Some ''s++'',
     pf_journal = Some (journal_bytes (journal_lines sample_codec journal_digest sample_checkpoint
       [(''hs+'', sample_added ''t3'')] [sample_added ''t3'']) []),
     pf_base = []\<rparr>"

lemma sample_seal: "seal_record sample_codec digest base r = seal_record sample_writer digest base r"
  by (simp add: seal_record_def checkpoint_journal_checksum_def sample_codec_def Let_def)

lemma sample_bases:
  "base_of sample_codec sample_checkpoint = ''hs++''" "base_of sample_codec sample_next = ''hs+++''"
  "checkpoint_json sample_codec sample_checkpoint = ''s++''" "checkpoint_json sample_codec sample_next = ''s+++''"
  by (simp_all add: base_of_def checkpoint_file_digest_def checkpoint_json_def sample_codec_def sample_writer_def
      canonical_checkpoint_parts sample_checkpoint_def sample_next_def eval_nat_numeral)

lemma sample_valid:
  "validate_checkpoint sample_checkpoint = None" "validate_checkpoint sample_next = None"
  "validate_checkpoint (add_unit (sample_added ''t3'') sample_checkpoint) = None"
  "validate_checkpoint (add_unit (sample_added ''t4'') (add_unit (sample_added ''t3'') sample_checkpoint)) = None"
  by code_simp+

lemma sample_lines:
  "line_ok sample_codec journal_digest ''hs+'' (sample_added ''t3'')" 
  "line_ok sample_codec journal_digest ''hs++'' (sample_added ''t3'')" 
  "line_ok sample_codec journal_digest ''hs++'' (sample_added ''t4'')" 
  by code_simp+

lemma sample_hold:
  "files_hold sample_codec journal_digest sample_checkpoint [(''hs+'', sample_added ''t3'')] [sample_added ''t3''] [] sample_files"
proof -
  have "cache_digest_ok journal_digest" "new_units [sample_added ''t3''] sample_checkpoint" by code_simp+
  moreover have "cd_decode sample_codec ''s++'' = Some (canonical_checkpoint sample_checkpoint)" by (simp add: sample_codec_def)
  ultimately show ?thesis
    using sample_valid sample_lines by (simp add: files_hold_def sample_bases stale_ok_def sample_files_def journal_digest_def)
qed

section \<open>A run that stops finds its work again\<close>

text \<open>
  C22. \<open>GetCheckpoint\<close> reads back the checkpoint with every unit of its journal: lines of older
  checkpoints and a line that was not finished change nothing.
\<close>

theorem journal_recovers:
  assumes "files_hold codec digest st stale us torn files"
  shows "\<exists>read. get_checkpoint codec digest (False, False) files = (Inr (Some read), files\<lparr>pf_base := base_of codec st\<rparr>) \<and>
    canonical_checkpoint read = canonical_checkpoint (fold add_unit us st)"
  using assms by (rule files_read)

theorem journal_recovers_witness:
  "files_hold sample_codec journal_digest sample_checkpoint [(''hs+'', sample_added ''t3'')] [sample_added ''t3''] [] sample_files \<and>
   (\<exists>read. get_checkpoint sample_codec journal_digest (False, False) sample_files = (Inr (Some read), sample_files\<lparr>pf_base := ''hs++''\<rparr>) \<and>
      canonical_checkpoint read = canonical_checkpoint (add_unit (sample_added ''t3'') sample_checkpoint))"
  using journal_recovers [OF sample_hold] sample_hold by (simp add: sample_bases)

text \<open>
  C26. Wherever an append stops, the next process finds the state before the unit or the state
  with it, and the state with it when the append reported success.
\<close>

theorem append_crash_recovers:
  assumes "append_checkpoint codec digest outcome u files = (e, files')"
    and "files_hold codec digest st stale us [] files" "pf_base files = [] \<or> pf_base files = base_of codec st"
    and "line_ok codec digest (base_of codec st) u" "new_unit u (fold add_unit us st)"
      "validate_checkpoint (add_unit u (fold add_unit us st)) = None"
  shows "\<exists>read. fst (get_checkpoint codec digest (False, False) files') = Inr (Some read) \<and>
    (canonical_checkpoint read = canonical_checkpoint (add_unit u (fold add_unit us st)) \<or>
     canonical_checkpoint read = canonical_checkpoint (fold add_unit us st) \<and> e \<noteq> None)"
  using append_leaves(1) [OF assms] files_read [where files = files'] by (elim disjE conjE exE) fastforce+

theorem append_crash_recovers_witness:
  "\<exists>read. fst (get_checkpoint sample_codec journal_digest (False, False)
      (snd (append_checkpoint sample_codec journal_digest (AppendTorn 3) (sample_added ''t4'') sample_files))) = Inr (Some read) \<and>
    (canonical_checkpoint read = canonical_checkpoint (add_unit (sample_added ''t4'') (add_unit (sample_added ''t3'') sample_checkpoint)) \<or>
     canonical_checkpoint read = canonical_checkpoint (add_unit (sample_added ''t3'') sample_checkpoint))"
proof -
  have new: "new_unit (sample_added ''t4'') (fold add_unit [sample_added ''t3''] sample_checkpoint)" by code_simp
  have line: "line_ok sample_codec journal_digest (base_of sample_codec sample_checkpoint) (sample_added ''t4'')"
    using sample_lines(3) by (simp only: sample_bases)
  have base: "pf_base sample_files = [] \<or> pf_base sample_files = base_of sample_codec sample_checkpoint" by (simp add: sample_files_def)
  have valid: "validate_checkpoint (add_unit (sample_added ''t4'') (fold add_unit [sample_added ''t3''] sample_checkpoint)) = None"
    using sample_valid(4) by simp
  from append_crash_recovers [OF prod.collapse [symmetric] sample_hold base line new valid, of "AppendTorn 3"]
  show ?thesis by auto
qed

text \<open>
  Wherever the publication of a checkpoint stops, the next process finds the state that was
  there or the new one, and the new one once \<open>PutCheckpoint\<close> reported success.
\<close>

theorem put_crash_recovers:
  assumes "put_checkpoint codec digest outcome next files = (e, files')" "validate_checkpoint next = None" "ck_InputDigest next = digest"
    and "files_hold codec digest st stale us torn files"
    and "cd_decode codec (checkpoint_json codec next) = Some (canonical_checkpoint next)"
    and "base_of codec next \<noteq> base_of codec st" "list_all (stale_ok codec digest (base_of codec next)) stale"
  shows "\<exists>read. fst (get_checkpoint codec digest (False, False) files') = Inr (Some read) \<and>
    (canonical_checkpoint read = canonical_checkpoint next \<or>
     canonical_checkpoint read = canonical_checkpoint (fold add_unit us st) \<and> e \<noteq> None)"
proof (cases outcome)
  case PutDone
  then have "put_checkpoint codec digest PutDone next files = (None, files')"
    using assms by (auto simp: put_checkpoint_def files_hold_def)
  from files_read [OF put_leaves(1) [OF this assms(5)]] show ?thesis by auto
next
  case PutUnpublished
  then have "files' = files" "e \<noteq> None" using assms(1) by (auto simp: put_checkpoint_def split: option.splits if_split_asm)
  with files_read [OF assms(4)] show ?thesis by auto
next
  case PutJournalKept
  from files_read [OF put_crash_leaves [OF assms(1) [unfolded PutJournalKept] assms(2-)]] show ?thesis by auto
qed

theorem put_crash_recovers_witness:
  "\<exists>read. fst (get_checkpoint sample_codec journal_digest (False, False)
      (snd (put_checkpoint sample_codec journal_digest PutJournalKept sample_next sample_files))) = Inr (Some read) \<and>
    (canonical_checkpoint read = canonical_checkpoint sample_next \<or>
     canonical_checkpoint read = canonical_checkpoint (add_unit (sample_added ''t3'') sample_checkpoint))"
proof -
  have same: "ck_InputDigest sample_next = journal_digest" by (simp add: sample_next_def journal_digest_def)
  have decode: "cd_decode sample_codec (checkpoint_json sample_codec sample_next) = Some (canonical_checkpoint sample_next)"
    by (simp add: sample_bases) (simp add: sample_codec_def)
  have stale: "list_all (stale_ok sample_codec journal_digest (base_of sample_codec sample_next)) [(''hs+'', sample_added ''t3'')]"
    using sample_lines(1) by (simp add: stale_ok_def sample_bases)
  have other: "base_of sample_codec sample_next \<noteq> base_of sample_codec sample_checkpoint" by (simp add: sample_bases)
  from put_crash_recovers [OF prod.collapse [symmetric] sample_valid(2) same sample_hold decode other stale, of PutJournalKept]
  show ?thesis by auto
qed

end
