(* ===== verification/EvidenceReuse.thy ===== *)
theory EvidenceReuse
  imports MutationEvidence
begin

text \<open>
  Evidence from one run to the next: what a run records and stores is what a later run over
  the same inputs reuses, and every state a run's evidence can reach stores records that
  pass the validation of \<open>internal/evidence/mutation.go\<close>.
\<close>

section \<open>Tables of records\<close>

definition keyed_records :: "(string \<times> mutation_record) list \<Rightarrow> bool" where
  "keyed_records m \<longleftrightarrow> distinct (map fst m) \<and> (\<forall>(i, r) \<in> set m. rec_MutantID r = i)"

lemma keyed_Nil [simp]: "keyed_records []"
  by (simp add: keyed_records_def)

lemma set_update_subset: "set (AList.update k v m) \<subseteq> insert (k, v) (set m)"
  by (induction m) auto

lemma keyed_update: "keyed_records m \<Longrightarrow> keyed_records (AList.update (rec_MutantID r) r m)"
  using set_update_subset [of "rec_MutantID r" r m] by (fastforce simp: keyed_records_def distinct_update)

lemma keyed_fold: "keyed_records m \<Longrightarrow> keyed_records (fold (\<lambda>r. AList.update (rec_MutantID r) r) rs m)"
  by (induction rs arbitrary: m) (simp_all add: keyed_update)

lemma keyed_ids: "keyed_records m \<Longrightarrow> map rec_MutantID (map snd (filter P m)) = map fst (filter P m)"
  by (induction m) (auto simp: keyed_records_def)

lemma fold_update_absent:
  "i \<notin> rec_MutantID ` set rs \<Longrightarrow> map_of (fold (\<lambda>r. AList.update (rec_MutantID r) r) rs m) i = map_of m i"
  by (induction rs arbitrary: m) (auto simp: update_conv)

lemma fold_update_lookup:
  assumes "distinct (map rec_MutantID rs)" "r \<in> set rs"
  shows "map_of (fold (\<lambda>r. AList.update (rec_MutantID r) r) rs m) (rec_MutantID r) = Some r"
  using assms
proof (induction rs arbitrary: m)
  case (Cons x rs)
  then show ?case
    by (cases "r = x") (auto simp: fold_update_absent update_conv)
qed simp

lemma evidence_store_ids:
  assumes "keyed_records (me_recorded c)" "keyed_records (me_records c)"
  shows "distinct (map rec_MutantID (ms_Records (evidence_store c cat modulePath)))"
proof -
  let ?known = "\<lambda>i. i \<in> set (map mu_ID (cat_Mutants cat))"
  let ?a = "filter (\<lambda>(i, r). ?known i) (me_recorded c)"
  let ?b = "filter (\<lambda>(i, r). ?known i \<and> map_of (me_recorded c) i = None) (me_records c)"
  have "distinct (map fst ?a)" "distinct (map fst ?b)"
    using assms by (auto simp: keyed_records_def distinct_map_filter)
  moreover have "set (map fst ?a) \<inter> set (map fst ?b) = {}"
    by (auto simp: map_of_eq_None_iff image_iff)
  ultimately have "distinct (map rec_MutantID (map snd (?a @ ?b)))"
    by (simp only: map_append keyed_ids [OF assms(1)] keyed_ids [OF assms(2)] distinct_append)
  then show ?thesis by (simp add: evidence_store_def Let_def)
qed

lemma evidence_store_recorded:
  assumes "map_of (me_recorded c) i = Some r" "i \<in> set (map mu_ID (cat_Mutants cat))"
  shows "r \<in> set (ms_Records (evidence_store c cat modulePath))"
proof -
  have "(i, r) \<in> set (filter (\<lambda>(i, r). i \<in> set (map mu_ID (cat_Mutants cat))) (me_recorded c))"
    using map_of_SomeD [OF assms(1)] assms(2) by simp
  then have "r \<in> snd ` set (filter (\<lambda>(i, r). i \<in> set (map mu_ID (cat_Mutants cat))) (me_recorded c))" by force
  then show ?thesis by (simp add: evidence_store_def Let_def)
qed

lemma evidence_store_cases:
  "r \<in> set (ms_Records (evidence_store c cat modulePath)) \<Longrightarrow>
   r \<in> snd ` set (me_recorded c) \<or> r \<in> snd ` set (me_records c)"
  by (force simp: evidence_store_def Let_def)

section \<open>The next run\<close>

text \<open>
  The state a later run starts from when nothing it keys on has changed: the same sources,
  targets and results, the stored records, and empty caches.
\<close>

definition next_run :: "mutation_evidence \<Rightarrow> mutation_store \<Rightarrow> string \<Rightarrow> mutation_evidence" where
  "next_run c store provenance =
     c\<lparr>me_provenance := provenance,
       me_records := fold (\<lambda>r m. AList.update (rec_MutantID r) r m) (ms_Records store) [],
       me_wholeKeys := Map.empty, me_wholeSuites := Map.empty, me_recorded := [], me_reused := []\<rparr>"

lemma new_run_next_run:
  "new_run_mutation_evidence sha store' sources targets inventory environment snapshot' =
     next_run (new_run_mutation_evidence sha store sources targets inventory environment snapshot)
       store' (''snapshot='' @ snapshot')"
  by (simp add: new_run_mutation_evidence_def new_mutation_evidence_def next_run_def Let_def)

lemma next_run_fields:
  "me_sources (next_run c store provenance) = me_sources c"
  "me_targetByID (next_run c store provenance) = me_targetByID c"
  "me_keys (next_run c store provenance) = me_keys c"
  "me_baselineWholeTree (next_run c store provenance) = me_baselineWholeTree c"
  by (simp_all add: next_run_def)

lemma next_run_of:
  "whole_key_of sha (next_run c store provenance) = whole_key_of sha c"
  "matches_of sha (next_run c store provenance) = matches_of sha c"
  "me_passed (next_run c store provenance) = me_passed c"
proof -
  show whole: "whole_key_of sha (next_run c store provenance) = whole_key_of sha c"
    by (rule ext) (simp only: whole_key_of_def next_run_fields)
  show "matches_of sha (next_run c store provenance) = matches_of sha c"
    by (rule ext)+ (simp only: matches_of_def whole next_run_fields)
qed (simp add: next_run_def)

lemma caches_ok_next_run: "caches_ok sha (next_run c store provenance)"
  by (simp add: caches_ok_def next_run_def)

lemma next_run_record:
  assumes "keyed_records (me_recorded c)" "keyed_records (me_records c)"
    and "map_of (me_recorded c) (mu_ID mutant) = Some r" "mutant \<in> set (cat_Mutants cat)" "rec_MutantID r = mu_ID mutant"
  shows "map_of (me_records (next_run d (canonical_store (evidence_store c cat modulePath)) provenance)) (mu_ID mutant)
    = Some (canonical_record r)"
proof -
  let ?rs = "ms_Records (evidence_store c cat modulePath)"
  let ?cs = "ms_Records (canonical_store (evidence_store c cat modulePath))"
  have "r \<in> set ?rs" using assms by (intro evidence_store_recorded) auto
  then have mem: "canonical_record r \<in> set ?cs" by (simp add: canonical_store_def)
  have "distinct (map rec_MutantID ?cs)"
    using evidence_store_ids [OF assms(1,2)] by (simp add: canonical_store_def comp_def)
  then have "map_of (fold (\<lambda>r. AList.update (rec_MutantID r) r) ?cs []) (rec_MutantID (canonical_record r))
      = Some (canonical_record r)"
    using mem by (rule fold_update_lookup)
  then show ?thesis using assms(5) by (simp add: next_run_def)
qed

lemma recorded_key_matches:
  assumes "fst (key_of sha c t) \<noteq> []"
  shows "matches_of sha c (identity t) (recorded_key sha c t)"
  using assms by (auto simp: matches_of_def key_of_def Let_def)

text \<open>
  C9. A recorded kill is reused: when a run kills a mutant with one of the groups that reach
  it, records that and stores its evidence, a later run over the same inputs that routes the
  mutant to that group again reuses the kill, with the provenance of the run that recorded it.
\<close>

theorem record_kill_reused:
  assumes "caches_ok sha c" "keyed_records (me_records c)" "keyed_records (me_recorded c)"
    and "mutant \<in> set (cat_Mutants cat)"
    and "batch \<in> set (mutation_target_groups (mr_reaching route))" "observed \<noteq> []"
    and "map identity observed = map identity batch"
    and "\<forall>t \<in> set observed. identity t \<noteq> ([], [], []) \<and> me_passed c (identity t) \<and> fst (key_of sha c t) \<noteq> []"
  shows "let c' = record_kill sha c mutant observed;
      saved = canonical_store (evidence_store c' cat modulePath);
      killers = sort_func compare_target_keys (map (recorded_key sha c) observed)
    in fst (reuse_kill sha (next_run c saved provenance) mutant route)
       = Some (mutation_kill_record_detail killers, me_provenance c)"
proof -
  let ?r = "kill_record sha c mutant observed"
  let ?c = "record_kill sha c mutant observed"
  let ?next = "next_run c (canonical_store (evidence_store ?c cat modulePath)) provenance"
  let ?killers = "sort_func compare_target_keys (map (recorded_key sha c) observed)"
  obtain d where d: "same_evidence c d" "?c = record_answer d ?r"
    by (rule record_kill_cases [OF assms(1), of mutant observed]) (use assms(6,8) in \<open>auto simp: list_all_iff\<close>)
  have id: "rec_MutantID ?r = mu_ID mutant" by (simp add: kill_record_def base_record_def)
  have "keyed_records (me_recorded ?c)" "keyed_records (me_records ?c)" "map_of (me_recorded ?c) (mu_ID mutant) = Some ?r"
    using assms(2,3) d id keyed_update [of "me_recorded c" ?r]
    by (simp_all add: record_answer_def same_evidence_fields update_conv)
  then have stored: "map_of (me_records ?next) (mu_ID mutant) = Some (canonical_record ?r)"
    using assms(4) id by (intro next_run_record)
  have killers: "rec_KilledBy (canonical_record ?r) = ?killers"
    by (simp add: canonical_record_def kill_record_def)
  have "contains_of sha ?next batch ?killers"
    unfolding contains_of_def list_all_iff
  proof
    fix k assume "k \<in> set ?killers"
    then obtain t where t: "t \<in> set observed" "k = recorded_key sha c t" by auto
    have "identity t \<in> set (map identity batch)" using t(1) unfolding assms(7) [symmetric] by simp
    with t assms(8) show "key_identity k \<in> set (map identity batch) \<and> me_passed ?next (key_identity k) \<and>
        matches_of sha ?next (key_identity k) k"
      by (simp add: next_run_of recorded_key_matches)
  qed
  moreover have "length ?killers \<le> length batch" using arg_cong [OF assms(7), of length] by simp
  ultimately have again: "killed_again sha ?next (canonical_record ?r) batch"
    unfolding killed_again_def killers by blast
  have "reusable_kill sha ?next mutant route (canonical_record ?r)"
    unfolding reusable_kill_def
    using stored again assms(5,6) killers by (auto simp: canonical_record_def kill_record_def base_record_def list_ex_iff)
  moreover have "rec_Provenance (canonical_record ?r) = me_provenance c"
    by (simp add: canonical_record_def kill_record_def base_record_def)
  ultimately show ?thesis
    using reuse_kill_answer [OF caches_ok_next_run] killers by (metis (no_types, lifting))
qed

definition kill_run :: mutation_evidence where
  "kill_run = sample_run sample_survival"

definition kill_batch :: "target_evidence list" where
  "kill_batch = mutation_target_groups sample_targets ! 0"

definition sample_catalog :: catalog where
  "sample_catalog = \<lparr>cat_Mutants = [routed_mutant], cat_Rejections = []\<rparr>"

theorem record_kill_reused_witness:
  "let c' = record_kill sample_sha kill_run routed_mutant kill_batch;
      saved = canonical_store (evidence_store c' sample_catalog ''m'')
    in \<exists>detail. fst (reuse_kill sample_sha (next_run kill_run saved ''snapshot=3'') routed_mutant sample_route)
       = Some (detail, ''snapshot=2'')"
proof -
  have "caches_ok sample_sha kill_run" by (simp add: kill_run_def sample_run_def caches_ok_fresh)
  moreover have "keyed_records (me_records kill_run)" "keyed_records (me_recorded kill_run)"
    by (simp_all add: kill_run_def sample_run_def new_mutation_evidence_def keyed_fold)
  moreover have "routed_mutant \<in> set (cat_Mutants sample_catalog)" by (simp add: sample_catalog_def)
  moreover have "kill_batch \<in> set (mutation_target_groups (mr_reaching sample_route)) \<and> kill_batch \<noteq> []"
    by code_simp
  moreover have "list_all (\<lambda>t. identity t \<noteq> ([], [], []) \<and> me_passed kill_run (identity t) \<and>
      fst (key_of sample_sha kill_run t) \<noteq> []) kill_batch" by code_simp
  moreover have "me_provenance kill_run = ''snapshot=2''"
    by (simp add: kill_run_def sample_run_def new_mutation_evidence_def)
  ultimately show ?thesis
    using record_kill_reused [of sample_sha kill_run routed_mutant sample_catalog kill_batch sample_route kill_batch]
    by (auto simp: Let_def list_all_iff)
qed

section \<open>A recorded survival\<close>

lemma exhausts_of_next_run:
  "exhausts_of sha (next_run c store provenance) = exhausts_of sha c"
  by (rule ext)+ (simp only: exhausts_of_def exhausted_of_def next_run_of)

text \<open>
  C10. A recorded survival is reused: when every reaching target of a mutant passed with the
  mutant active, and the run records that and stores its evidence, a later run over the same
  inputs that routes the mutant to those targets again reuses the finding and its provenance.
\<close>

theorem record_survived_reused:
  assumes "caches_ok sha c" "keyed_records (me_records c)" "keyed_records (me_recorded c)"
    and "mutant \<in> set (cat_Mutants cat)" "kind \<noteq> []" "summary \<noteq> []"
    and "mr_reaching route \<noteq> []" "set (map identity executed) = set (map identity (mr_reaching route))"
    and "\<forall>t \<in> set executed. te_Covered t \<noteq> None \<and> me_passed c (identity t) \<and> fst (key_of sha c t) \<noteq> []"
    and "\<forall>t \<in> set (mr_reaching route). te_Covered t \<noteq> None"
  shows "let c' = record_survived sha c mutant executed kind summary;
      saved = canonical_store (evidence_store c' cat modulePath)
    in fst (reuse_verdict sha (next_run c saved provenance) mutant route)
       = Some (\<lparr>fs_Kind = kind, fs_Summary = summary\<rparr>, me_provenance c)"
proof -
  let ?r = "survival_record sha c mutant executed kind summary"
  let ?c = "record_survived sha c mutant executed kind summary"
  let ?next = "next_run c (canonical_store (evidence_store ?c cat modulePath)) provenance"
  have "executed \<noteq> []" using assms(7,8) by auto
  obtain d where d: "same_evidence c d" "?c = record_answer d ?r"
    by (rule record_survived_cases [OF assms(1), of mutant executed kind summary])
      (use assms(5,6,9) \<open>executed \<noteq> []\<close> in \<open>auto simp: list_all_iff\<close>)
  have id: "rec_MutantID ?r = mu_ID mutant" by (simp add: survival_record_def base_record_def)
  have "keyed_records (me_recorded ?c)" "keyed_records (me_records ?c)" "map_of (me_recorded ?c) (mu_ID mutant) = Some ?r"
    using assms(2,3) d id keyed_update [of "me_recorded c" ?r]
    by (simp_all add: record_answer_def same_evidence_fields update_conv)
  then have stored: "map_of (me_records ?next) (mu_ID mutant) = Some (canonical_record ?r)"
    using assms(4) id by (intro next_run_record)
  have keys: "set (rec_Exhausted (canonical_record ?r)) = recorded_key sha c ` set executed"
    by (simp add: canonical_record_def survival_record_def)
  have "te_Covered t \<noteq> None \<and> me_passed c (identity t) \<and>
      exhausted_of sha c (rec_Exhausted (canonical_record ?r)) (identity t)"
    if "t \<in> set (mr_reaching route)" for t
  proof -
    have "identity t \<in> set (map identity executed)" using that unfolding assms(8) by simp
    then obtain u where "u \<in> set executed" "identity u = identity t" by auto
    with assms(9) have "recorded_key sha c u \<in> set (rec_Exhausted (canonical_record ?r))"
      "key_identity (recorded_key sha c u) = identity t" "matches_of sha c (identity t) (recorded_key sha c u)"
      "me_passed c (identity t)"
      using recorded_key_matches [of sha c u] by (auto simp: keys)
    with assms(10) that show ?thesis
      unfolding exhausted_of_def list_ex_iff by blast
  qed
  then have "exhausts_of sha ?next (rec_Exhausted (canonical_record ?r)) (mr_reaching route)"
    by (auto simp: exhausts_of_next_run exhausts_of_def list_all_iff)
  then have "reusable_verdict sha ?next mutant route (canonical_record ?r)"
    using assms(7) by (simp add: reusable_verdict_def) (simp add: canonical_record_def survival_record_def base_record_def)
  moreover have "rec_Finding (canonical_record ?r) = Some \<lparr>fs_Kind = kind, fs_Summary = summary\<rparr>"
    "rec_Provenance (canonical_record ?r) = me_provenance c"
    by (simp_all add: canonical_record_def survival_record_def base_record_def)
  ultimately show ?thesis
    using reuse_verdict_answer [OF caches_ok_next_run, of sha c "canonical_store (evidence_store ?c cat modulePath)" provenance mutant route] stored
    by (auto simp: Let_def)
qed

theorem record_survived_reused_witness:
  "let c' = record_survived sample_sha (sample_run sample_kill) routed_mutant sample_targets ''k'' ''s'';
      saved = canonical_store (evidence_store c' sample_catalog ''m'')
    in fst (reuse_verdict sample_sha (next_run (sample_run sample_kill) saved ''snapshot=3'') routed_mutant sample_route)
       = Some (\<lparr>fs_Kind = ''k'', fs_Summary = ''s''\<rparr>, ''snapshot=2'')"
proof -
  let ?c = "sample_run sample_kill"
  have "caches_ok sample_sha ?c" by (simp add: sample_run_def caches_ok_fresh)
  moreover have "keyed_records (me_records ?c)" "keyed_records (me_recorded ?c)"
    by (simp_all add: sample_run_def new_mutation_evidence_def keyed_fold)
  moreover have "routed_mutant \<in> set (cat_Mutants sample_catalog)" by (simp add: sample_catalog_def)
  moreover have "mr_reaching sample_route = sample_targets" "sample_targets \<noteq> []"
    by (simp_all add: sample_route_def sample_targets_def)
  moreover have "list_all (\<lambda>t. te_Covered t \<noteq> None \<and> me_passed ?c (identity t) \<and>
      fst (key_of sample_sha ?c t) \<noteq> []) sample_targets" by code_simp
  moreover have "me_provenance ?c = ''snapshot=2''" by (simp add: sample_run_def new_mutation_evidence_def)
  ultimately show ?thesis
    using record_survived_reused [of sample_sha ?c routed_mutant sample_catalog "''k''" "''s''" sample_route sample_targets]
    by (simp add: list_all_iff)
qed

section \<open>Every reachable state stores valid records\<close>

definition good_mutant :: "mutant \<Rightarrow> bool" where
  "good_mutant m \<longleftrightarrow> is_digest (mu_ID m) \<and> mu_Path m \<noteq> [] \<and> mu_Package m \<noteq> []"

definition good_targets :: "target_evidence list \<Rightarrow> bool" where
  "good_targets ts \<longleftrightarrow> distinct (map identity ts) \<and>
     (\<forall>t \<in> set ts. t_Package (te_Target t) \<noteq> [] \<and> t_Name (te_Target t) \<noteq> [] \<and> t_Kind (te_Target t) \<noteq> [])"

inductive evidence_step :: "(string \<Rightarrow> string) \<Rightarrow> mutation_evidence \<Rightarrow> mutation_evidence \<Rightarrow> bool" for sha where
  reuse_kill_step: "evidence_step sha c (snd (reuse_kill sha c mutant route))"
| reuse_verdict_step: "evidence_step sha c (snd (reuse_verdict sha c mutant route))"
| record_kill_step:
    "good_mutant mutant \<Longrightarrow> good_targets ts \<Longrightarrow> evidence_step sha c (record_kill sha c mutant ts)"
| record_survived_step:
    "good_mutant mutant \<Longrightarrow> good_targets ts \<Longrightarrow> evidence_step sha c (record_survived sha c mutant ts kind summary)"
| record_unreached_step:
    "good_mutant mutant \<Longrightarrow> evidence_step sha c (record_unreached sha c mutant whole kind summary)"

inductive_cases evidence_stepE: "evidence_step sha c c'"

definition key_or_none :: "string \<Rightarrow> bool" where
  "key_or_none key \<longleftrightarrow> key = [] \<or> is_digest key"

definition good_records :: "(string \<times> mutation_record) list \<Rightarrow> bool" where
  "good_records m \<longleftrightarrow> keyed_records m \<and> (\<forall>r \<in> snd ` set m. good_record r)"

definition evidence_inv :: "(string \<Rightarrow> string) \<Rightarrow> mutation_evidence \<Rightarrow> bool" where
  "evidence_inv sha c \<longleftrightarrow>
     caches_ok sha c \<and> good_records (me_records c) \<and> good_records (me_recorded c) \<and>
     (\<exists>snapshot. me_provenance c = ''snapshot='' @ snapshot \<and> is_digest snapshot) \<and>
     (\<forall>i. key_or_none (look (me_keys c) i)) \<and> (\<forall>pkg. key_or_none (look (me_suites c) pkg))"

lemma sources_keys:
  assumes "\<And>bytes. is_digest (sha bytes)"
  shows "key_or_none (sources_target_key sha sources t env whole)"
    and "key_or_none (sources_suite_key sha sources pkg ks env whole)"
  using assms by (auto simp: key_or_none_def sources_target_key_def sources_suite_key_def target_behavior_key_def
      suite_behavior_key_def Let_def split: option.split)

lemma current_keys:
  assumes "\<And>bytes. is_digest (sha bytes)" "evidence_inv sha c"
  shows "key_or_none (whole_key_of sha c i)" "key_or_none (whole_suite_of sha c pkg)" "key_or_none (fst (key_of sha c t))"
proof -
  show whole: "key_or_none (whole_key_of sha c i)" for i
    using sources_keys(1) [OF assms(1)]
    by (cases "me_targetByID c i") (simp_all add: whole_key_of_def, simp add: key_or_none_def)
  show "key_or_none (whole_suite_of sha c pkg)"
    using sources_keys(2) [OF assms(1)] by (simp add: whole_suite_of_def Let_def) (simp add: key_or_none_def)
  show "key_or_none (fst (key_of sha c t))"
    using whole assms(2) by (simp add: key_of_def evidence_inv_def del: split_paired_All)
qed

lemma evidence_inv_same:
  assumes "evidence_inv sha c" "same_evidence c d" "caches_ok sha d"
  shows "evidence_inv sha d"
  using assms by (simp add: evidence_inv_def same_evidence_fields)

text \<open>The invariant depends on no more than the inputs, the caches and the records.\<close>

lemma evidence_inv_cong:
  assumes "evidence_inv sha d"
    and "me_provenance e = me_provenance d" "me_sources e = me_sources d" "me_targets e = me_targets d"
      "me_targetByID e = me_targetByID d" "me_suiteEnvironment e = me_suiteEnvironment d" "me_records e = me_records d"
      "me_keys e = me_keys d" "me_passed e = me_passed d" "me_suites e = me_suites d"
      "me_wholeKeys e = me_wholeKeys d" "me_wholeSuites e = me_wholeSuites d"
    and "good_records (me_recorded e)"
  shows "evidence_inv sha e"
proof -
  have keys: "whole_key_of sha e = whole_key_of sha d"
    by (rule ext) (simp only: whole_key_of_def assms)
  then have suites: "whole_suite_of sha e = whole_suite_of sha d"
    by (intro ext) (simp only: whole_suite_of_def suite_measured_def [abs_def] assms)
  show ?thesis
    using assms(1,13) unfolding evidence_inv_def caches_ok_def keys suites assms(2-12) by blast
qed

lemma evidence_inv_record:
  assumes "evidence_inv sha d" "good_record r"
  shows "evidence_inv sha (record_answer d r)"
proof (rule evidence_inv_cong [OF assms(1)])
  have "good_records (me_recorded d)" using assms(1) by (simp add: evidence_inv_def)
  then show "good_records (me_recorded (record_answer d r))"
    using assms(2) keyed_update [of "me_recorded d" r] set_update_subset [of "rec_MutantID r" r "me_recorded d"]
    by (fastforce simp: good_records_def record_answer_def)
qed (simp_all add: record_answer_def)

lemma evidence_inv_reused: "evidence_inv sha d \<Longrightarrow> evidence_inv sha (d\<lparr>me_reused := m\<rparr>)"
  by (rule evidence_inv_cong) (simp_all add: evidence_inv_def)

lemma good_recorded_keys:
  assumes "\<And>bytes. is_digest (sha bytes)" "evidence_inv sha c" "good_targets ts"
    and "\<forall>t \<in> set ts. fst (key_of sha c t) \<noteq> []"
  shows "good_keys (map (recorded_key sha c) ts)"
proof -
  have "good_key (recorded_key sha c t)" if "t \<in> set ts" for t
    using that assms(3,4) current_keys(3) [OF assms(1,2), of t]
    by (auto simp: good_key_def good_targets_def key_or_none_def)
      (auto simp: recorded_key_def suite_target_key_def case_prod_beta)
  then show ?thesis using assms(3) by (auto simp: good_keys_def good_targets_def comp_def)
qed

lemma evidence_step_inv:
  assumes "evidence_step sha c c'" and sha: "\<And>bytes. is_digest (sha bytes)" and inv: "evidence_inv sha c"
  shows "evidence_inv sha c'"
  using assms(1)
proof cases
  case (reuse_kill_step mutant route)
  have ok: "caches_ok sha c" using inv by (simp add: evidence_inv_def)
  show ?thesis
  proof (cases "map_of (me_records c) (mu_ID mutant)")
    case None
    then show ?thesis using inv by (simp add: reuse_kill_step reuse_kill_def)
  next
    case (Some r)
    obtain d where "caches_ok sha d" "same_evidence c d"
      and run: "reuse_kill_groups sha c mutant r (mutation_target_groups (mr_reaching route)) =
      (if list_ex (killed_again sha c r) (mutation_target_groups (mr_reaching route))
       then (Some (mutation_kill_record_detail (rec_KilledBy r), rec_Provenance r),
             d\<lparr>me_reused := AList.update (mu_ID mutant) (rec_Provenance r) (me_reused c)\<rparr>)
       else (None, d))"
      using reuse_kill_groups_answers [OF ok] by blast
    then have "evidence_inv sha d" using evidence_inv_same [OF inv] by blast
    then show ?thesis using inv
      by (auto simp: reuse_kill_step reuse_kill_def Some run intro: evidence_inv_reused)
  qed
next
  case (reuse_verdict_step mutant route)
  have ok: "caches_ok sha c" using inv by (simp add: evidence_inv_def)
  obtain d where "caches_ok sha d" "same_evidence c d"
    and run: "reuse_verdict sha c mutant route =
      (case map_of (me_records c) (mu_ID mutant) of
         None \<Rightarrow> (None, d)
       | Some r \<Rightarrow>
           (case rec_Finding r of
              None \<Rightarrow> (None, d)
            | Some seed \<Rightarrow>
                if reusable_verdict sha c mutant route r
                then (Some (seed, rec_Provenance r),
                      d\<lparr>me_reused := AList.update (mu_ID mutant) (rec_Provenance r) (me_reused c)\<rparr>)
                else (None, d)))"
    using reuse_verdict_answer [OF ok] by blast
  then have "evidence_inv sha d" using evidence_inv_same [OF inv] by blast
  then show ?thesis
    by (auto simp: reuse_verdict_step run intro: evidence_inv_reused split: option.split)
next
  case (record_kill_step mutant ts)
  have ok: "caches_ok sha c" using inv by (simp add: evidence_inv_def)
  obtain d where d: "caches_ok sha d" "same_evidence c d"
    and run: "record_kill sha c mutant ts =
      (if ts \<noteq> [] \<and> list_all (\<lambda>t. identity t \<noteq> ([], [], []) \<and> me_passed c (identity t) \<and> fst (key_of sha c t) \<noteq> []) ts
       then record_answer d (kill_record sha c mutant ts) else d)"
    using record_kill_cases [OF ok] by blast
  have "evidence_inv sha d" using evidence_inv_same [OF inv d(2,1)] .
  moreover have "good_record (kill_record sha c mutant ts)"
    if "ts \<noteq> []" "\<forall>t \<in> set ts. fst (key_of sha c t) \<noteq> []"
    using that record_kill_step inv good_recorded_keys [OF sha inv, of ts]
    by (auto simp: good_record_def kill_record_def base_record_def good_mutant_def good_answer_def good_keys_def
        evidence_inv_def to_slash_def)
  ultimately show ?thesis
    by (auto simp: record_kill_step run list_all_iff intro!: evidence_inv_record)
next
  case (record_survived_step mutant ts kind summary)
  have ok: "caches_ok sha c" using inv by (simp add: evidence_inv_def)
  obtain d where d: "caches_ok sha d" "same_evidence c d"
    and run: "record_survived sha c mutant ts kind summary =
      (if ts \<noteq> [] \<and> kind \<noteq> [] \<and> summary \<noteq> [] \<and>
          list_all (\<lambda>t. te_Covered t \<noteq> None \<and> me_passed c (identity t) \<and> fst (key_of sha c t) \<noteq> []) ts
       then record_answer d (survival_record sha c mutant ts kind summary) else d)"
    using record_survived_cases [OF ok] by blast
  have "evidence_inv sha d" using evidence_inv_same [OF inv d(2,1)] .
  moreover have "good_record (survival_record sha c mutant ts kind summary)"
    if "ts \<noteq> []" "kind \<noteq> []" "summary \<noteq> []" "\<forall>t \<in> set ts. fst (key_of sha c t) \<noteq> []"
    using that record_survived_step inv good_recorded_keys [OF sha inv, of ts]
    by (auto simp: good_record_def survival_record_def base_record_def good_mutant_def good_answer_def good_keys_def
        good_seed_def evidence_inv_def to_slash_def)
  ultimately show ?thesis
    by (auto simp: record_survived_step run list_all_iff intro!: evidence_inv_record)
next
  case (record_unreached_step mutant whole kind summary)
  have ok: "caches_ok sha c" using inv by (simp add: evidence_inv_def)
  obtain key flag where key: "(key, flag) =
    (if whole \<or> me_suiteBaselineWhole c (mu_Package mutant) then (whole_suite_of sha c (mu_Package mutant), True)
     else (look (me_suites c) (mu_Package mutant), False))" by (metis surj_pair)
  obtain d where d: "evidence_suite_key sha c (mu_Package mutant) whole = ((key, flag), d)" "caches_ok sha d"
    "same_evidence c d"
    using evidence_suite_key_answers [OF ok, of "mu_Package mutant" whole] unfolding key [symmetric] by (rule answersE)
  have "key_or_none key"
    using key current_keys(2) [OF sha inv] inv by (auto simp: evidence_inv_def split: if_split_asm)
  have "evidence_inv sha d" using evidence_inv_same [OF inv d(3,2)] .
  let ?r = "(base_record d mutant outcome_unreached)
     \<lparr>rec_Suite := Some \<lparr>sk_Package = mu_Package mutant, sk_Key = key, sk_WholeTree = flag\<rparr>,
      rec_Finding := Some \<lparr>fs_Kind = kind, fs_Summary = summary\<rparr>\<rparr>"
  have "good_record ?r" if "kind \<noteq> []" "summary \<noteq> []" "key \<noteq> []"
    using that \<open>key_or_none key\<close> \<open>evidence_inv sha d\<close> record_unreached_step
    by (auto simp: good_record_def base_record_def good_mutant_def good_answer_def good_keys_def
        good_seed_def good_suite_def key_or_none_def evidence_inv_def to_slash_def)
  with \<open>evidence_inv sha d\<close> have "evidence_inv sha (record_answer d ?r)" if "kind \<noteq> []" "summary \<noteq> []" "key \<noteq> []"
    using that by (intro evidence_inv_record)
  with \<open>evidence_inv sha d\<close> inv show ?thesis
    unfolding record_unreached_step(1) record_unreached_def d(1) Let_def prod.case by (simp only: split: if_split) blast
qed

lemma fold_good_records:
  "\<forall>r \<in> set rs. good_record r \<Longrightarrow> good_records m \<Longrightarrow>
   good_records (fold (\<lambda>r m. AList.update (rec_MutantID r) r m) rs m)"
proof (induction rs arbitrary: m)
  case (Cons r rs)
  have "good_records (AList.update (rec_MutantID r) r m)"
    using Cons.prems keyed_update [of m r] set_update_subset [of "rec_MutantID r" r m]
    by (fastforce simp: good_records_def)
  with Cons show ?case by simp
qed simp

lemma fold_keys:
  "\<forall>i. key_or_none (look m i) \<Longrightarrow> \<forall>t. key_or_none (f t) \<Longrightarrow>
   key_or_none (look (fold (\<lambda>t m. m(g t \<mapsto> f t)) ts m) i)"
  by (induction ts arbitrary: m) (simp_all add: look_def)

lemma evidence_inv_new:
  assumes sha: "\<And>bytes. is_digest (sha bytes)" and "validate_store store = None" "is_digest snapshot"
  shows "evidence_inv sha (new_run_mutation_evidence sha store sources targets inventory env snapshot)"
proof -
  let ?c = "new_run_mutation_evidence sha store sources targets inventory env snapshot"
  have "good_store store" using assms(2) by (simp add: validate_store_None)
  then have "good_records (me_records ?c)"
    unfolding new_run_mutation_evidence_def new_mutation_evidence_def Let_def mutation_evidence.simps
    by (intro fold_good_records) (simp_all add: good_store_def good_records_def)
  moreover have "good_records (me_recorded ?c)"
    by (simp add: new_run_mutation_evidence_def new_mutation_evidence_def Let_def good_records_def)
  moreover have "key_or_none (look (me_keys ?c) i)" for i
    unfolding new_run_mutation_evidence_def new_mutation_evidence_def Let_def mutation_evidence.simps
    by (rule fold_keys) (simp_all add: sources_keys [OF sha], simp add: look_def key_or_none_def)
  moreover have "key_or_none (look (me_suites ?c) pkg)" for pkg
    using sources_keys(2) [OF sha]
    by (simp add: new_run_mutation_evidence_def new_mutation_evidence_def suite_keys_def look_def Let_def)
      (simp add: key_or_none_def)
  moreover have "me_provenance ?c = ''snapshot='' @ snapshot"
    by (simp add: new_run_mutation_evidence_def new_mutation_evidence_def Let_def)
  ultimately show ?thesis using caches_ok_new assms(3) by (auto simp: evidence_inv_def)
qed

lemma evidence_inv_reachable:
  assumes "(evidence_step sha)\<^sup>*\<^sup>* c c'" "\<And>bytes. is_digest (sha bytes)" "evidence_inv sha c"
  shows "evidence_inv sha c'"
  using assms by (induction rule: rtranclp_induct) (auto intro: evidence_step_inv)



end
