(* ===== verification/MutationRun.thy ===== *)
theory MutationRun
  imports Accounting EvidenceReuse
begin

text \<open>
  The whole run over the mutants (\<open>EvaluateMutations\<close> of \<open>internal/assure/mutation.go\<close>): what it
  returns passes the audit of the report, whatever the session answers and in whatever order
  the seeds are evaluated.
\<close>

section \<open>What a run reuses\<close>

text \<open>
  The caches are right, every record of an earlier run names that run, and what was reused is
  a mutant of \<open>S\<close>, with the run it came from.
\<close>

definition reuse_ok :: "(string \<Rightarrow> string) \<Rightarrow> string set \<Rightarrow> mutation_evidence \<Rightarrow> bool" where
  "reuse_ok sha S c \<longleftrightarrow>
     caches_ok sha c \<and> (\<forall>r \<in> snd ` set (me_records c). rec_Provenance r \<noteq> []) \<and>
     (\<forall>(i, provenance) \<in> set (me_reused c). i \<in> S \<and> provenance \<noteq> [])"

definition state_reuse_ok :: "(string \<Rightarrow> string) \<Rightarrow> string set \<Rightarrow> 'w evaluation_state \<Rightarrow> bool" where
  "state_reuse_ok sha S st \<longleftrightarrow> (\<forall>c. es_evidence st = Some c \<longrightarrow> reuse_ok sha S c)"

lemma reuse_ok_same:
  assumes "reuse_ok sha S c" "same_evidence c d" "caches_ok sha d"
  shows "reuse_ok sha S d"
  using assms by (simp add: reuse_ok_def same_evidence_fields)

lemma caches_ok_cong:
  assumes "caches_ok sha d"
    and "me_sources e = me_sources d" "me_targets e = me_targets d" "me_targetByID e = me_targetByID d"
      "me_suiteEnvironment e = me_suiteEnvironment d" "me_passed e = me_passed d"
      "me_wholeKeys e = me_wholeKeys d" "me_wholeSuites e = me_wholeSuites d"
  shows "caches_ok sha e"
proof -
  have keys: "whole_key_of sha e = whole_key_of sha d"
    by (rule ext) (simp only: whole_key_of_def assms)
  then have suites: "whole_suite_of sha e = whole_suite_of sha d"
    by (intro ext) (simp only: whole_suite_of_def suite_measured_def [abs_def] assms)
  show ?thesis using assms(1) unfolding caches_ok_def keys suites assms(2-8) by blast
qed

lemma reuse_ok_reused:
  assumes "reuse_ok sha S d" "i \<in> S" "provenance \<noteq> []"
  shows "reuse_ok sha S (d\<lparr>me_reused := AList.update i provenance (me_reused d)\<rparr>)"
proof -
  have "caches_ok sha (d\<lparr>me_reused := AList.update i provenance (me_reused d)\<rparr>)"
    using assms(1) by (rule_tac caches_ok_cong [of sha d]) (simp_all add: reuse_ok_def)
  then show ?thesis
    using assms set_update_subset [of i provenance "me_reused d"] by (auto simp: reuse_ok_def)
qed

lemma reuse_ok_record: "reuse_ok sha S d \<Longrightarrow> reuse_ok sha S (record_answer d r)"
  using caches_ok_cong [of sha d "record_answer d r"] by (simp add: reuse_ok_def record_answer_def)

lemma reuse_ok_kill:
  assumes "reuse_ok sha S c" "mu_ID mutant \<in> S"
  shows "reuse_ok sha S (snd (reuse_kill sha c mutant route))"
proof (cases "map_of (me_records c) (mu_ID mutant)")
  case None
  then show ?thesis using assms by (simp add: reuse_kill_def)
next
  case (Some r)
  have ok: "caches_ok sha c" using assms(1) by (simp add: reuse_ok_def)
  obtain d where d: "caches_ok sha d" "same_evidence c d"
    and run: "reuse_kill_groups sha c mutant r (mutation_target_groups (mr_reaching route)) =
      (if list_ex (killed_again sha c r) (mutation_target_groups (mr_reaching route))
       then (Some (mutation_kill_record_detail (rec_KilledBy r), rec_Provenance r),
             d\<lparr>me_reused := AList.update (mu_ID mutant) (rec_Provenance r) (me_reused c)\<rparr>)
       else (None, d))"
    using reuse_kill_groups_answers [OF ok] by blast
  have "reuse_ok sha S d" using reuse_ok_same [OF assms(1) d(2,1)] .
  moreover have "rec_Provenance r \<noteq> []" using assms(1) map_of_SomeD [OF Some] by (force simp: reuse_ok_def)
  ultimately show ?thesis
    using assms reuse_ok_reused [of sha S d "mu_ID mutant" "rec_Provenance r"] d(2)
    by (auto simp: reuse_kill_def Some run same_evidence_fields)
qed

lemma reuse_ok_verdict:
  assumes "reuse_ok sha S c" "mu_ID mutant \<in> S"
  shows "reuse_ok sha S (snd (reuse_verdict sha c mutant route))"
proof -
  have ok: "caches_ok sha c" using assms(1) by (simp add: reuse_ok_def)
  obtain d where d: "caches_ok sha d" "same_evidence c d"
    and run: "reuse_verdict sha c mutant route =
      (case map_of (me_records c) (mu_ID mutant) of
         None \<Rightarrow> (None, d)
       | Some r \<Rightarrow>
           (case rec_Finding r of
              None \<Rightarrow> (None, d)
            | Some seed \<Rightarrow>
                if reusable_verdict sha c mutant route r
                then (Some (seed, rec_Provenance r),
                      d\<lparr>me_reused := AList.update (mu_ID mutant) (rec_Provenance r) (me_reused c)\<rparr>)
                else (None, d)))"
    using reuse_verdict_answer [OF ok] by blast
  have d_ok: "reuse_ok sha S d" using reuse_ok_same [OF assms(1) d(2,1)] .
  moreover have "reuse_ok sha S (d\<lparr>me_reused := AList.update (mu_ID mutant) (rec_Provenance r) (me_reused c)\<rparr>)"
    if "map_of (me_records c) (mu_ID mutant) = Some r" for r
  proof -
    have "rec_Provenance r \<noteq> []" using assms(1) map_of_SomeD [OF that] by (force simp: reuse_ok_def)
    from reuse_ok_reused [OF d_ok assms(2) this] show ?thesis by (simp add: same_evidence_fields(13) [OF d(2)])
  qed
  ultimately show ?thesis unfolding run by (auto split: option.split)
qed

lemma reuse_ok_records:
  assumes "reuse_ok sha S c"
  shows "reuse_ok sha S (record_kill sha c mutant ts)"
    and "reuse_ok sha S (record_survived sha c mutant ts kind summary)"
    and "reuse_ok sha S (record_unreached sha c mutant whole kind summary)"
proof -
  have ok: "caches_ok sha c" using assms by (simp add: reuse_ok_def)
  show "reuse_ok sha S (record_kill sha c mutant ts)"
    using reuse_ok_same [OF assms] reuse_ok_record
    by (rule_tac record_kill_cases [OF ok, of mutant ts]) (simp split: if_split)
  show "reuse_ok sha S (record_survived sha c mutant ts kind summary)"
    using reuse_ok_same [OF assms] reuse_ok_record
    by (rule_tac record_survived_cases [OF ok, of mutant ts kind summary]) (simp split: if_split)
  obtain answer d where d: "evidence_suite_key sha c (mu_Package mutant) whole = (answer, d)" "caches_ok sha d" "same_evidence c d"
    using evidence_suite_key_answers [OF ok, of "mu_Package mutant" whole] by (rule answersE)
  show "reuse_ok sha S (record_unreached sha c mutant whole kind summary)"
    using assms reuse_ok_same [OF assms d(3,2)] reuse_ok_record [of sha S d]
    by (simp add: record_unreached_def d(1) Let_def split: prod.split)
qed

lemma state_reuse_ok_simps [simp]:
  "state_reuse_ok sha S (trace_route r st) = state_reuse_ok sha S st"
  "state_reuse_ok sha S (checkpoint_mutation i ev st) = state_reuse_ok sha S st"
  by (simp_all add: state_reuse_ok_def trace_route_def checkpoint_mutation_def)

lemma state_reuse_ok_update:
  "state_reuse_ok sha S st \<Longrightarrow> (\<And>c. reuse_ok sha S c \<Longrightarrow> reuse_ok sha S (f c)) \<Longrightarrow> state_reuse_ok sha S (update_evidence f st)"
  by (cases "es_evidence st") (auto simp: state_reuse_ok_def update_evidence_def)

lemma ask_reuse_ok:
  assumes "state_reuse_ok sha S st" "mu_ID mutant \<in> S"
  shows "ask_kill sha mutant route st = (answer, st') \<Longrightarrow> state_reuse_ok sha S st'"
    and "ask_verdict sha mutant route st = (verdict, st') \<Longrightarrow> state_reuse_ok sha S st'"
  using assms reuse_ok_kill [of sha S _ mutant route] reuse_ok_verdict [of sha S _ mutant route]
  by (fastforce simp: ask_kill_def ask_verdict_def state_reuse_ok_def Let_def split: option.splits prod.splits)+

lemma original_control_evidence: "original_control control request st = (answer, st') \<Longrightarrow> es_evidence st' = es_evidence st"
  by (auto simp: original_control_def split: option.splits prod.splits)

lemma prepare_evidence:
  "prepare_mutation_request session options mutant request fk fs tk ts st = (result, st') \<Longrightarrow>
   es_evidence st' = es_evidence st"
  by (auto simp: prepare_mutation_request_def Let_def dest: original_control_evidence
      split: option.splits if_split_asm prod.splits sum.splits)

lemma containment_evidence:
  "containment_after_healthy_control session options request st = (ceiling, st') \<Longrightarrow> es_evidence st' = es_evidence st"
  by (auto simp: containment_after_healthy_control_def Let_def split: option.splits if_split_asm prod.splits sum.splits)

lemma execute_mutation_evidence:
  "execute_mutation session options request st = (answer, st') \<Longrightarrow> es_evidence st' = es_evidence st"
  by (auto simp: execute_mutation_def Let_def split: prod.splits)

lemma execute_budget_evidence:
  assumes "execute_under_measured_budget session options request st = (answer, st')"
  shows "es_evidence st' = es_evidence st"
proof -
  obtain reply observation st1 where run: "execute_mutation session options request st = ((reply, observation), st1)"
    by (metis prod.collapse)
  with assms execute_mutation_evidence [OF run] show ?thesis
    by (auto simp: execute_under_measured_budget_def Let_def dest: containment_evidence
        split: sum.splits if_split_asm prod.splits option.splits)
      (metis containment_evidence execute_mutation_evidence)
qed

lemma state_reuse_ok_same: "es_evidence st' = es_evidence st \<Longrightarrow> state_reuse_ok sha S st' = state_reuse_ok sha S st"
  by (simp add: state_reuse_ok_def)

lemmas state_reuse_ok_records =
  state_reuse_ok_update [OF _ reuse_ok_records(1)]
  state_reuse_ok_update [OF _ reuse_ok_records(2)]
  state_reuse_ok_update [OF _ reuse_ok_records(3)]

lemma groups_reuse_ok:
  "state_reuse_ok (se_sha session) S st \<Longrightarrow>
   state_reuse_ok (se_sha session) S
     (snd (evaluate_groups session options mutant route groups executions executed unknown st))"
proof (induction executions arbitrary: executed unknown st)
  case Nil
  then show ?case by (auto simp: settle_groups_def Let_def intro: state_reuse_ok_records)
next
  case (Cons execution executions)
  obtain prepared st1 where prep: "prepare_mutation_request session options mutant (sx_request execution)
      ''mutation-control-failure'' s_target_control_failure ''mutation-control-timeout'' s_target_control_timeout st
      = (prepared, st1)" by (metis prod.collapse)
  have st1: "state_reuse_ok (se_sha session) S st1"
    using Cons.prems state_reuse_ok_same [OF prepare_evidence [OF prep]] by blast
  show ?case
  proof (cases prepared)
    case (Inl e)
    with prep st1 show ?thesis by simp
  next
    case (Inr pr)
    obtain request finding where pr: "pr = (request, finding)" by (cases pr)
    obtain reply observation st2 where run:
      "execute_under_measured_budget session options request st1 = ((reply, observation), st2)" by (metis prod.collapse)
    have st2: "state_reuse_ok (se_sha session) S st2"
      using st1 state_reuse_ok_same [OF execute_budget_evidence [OF run]] by blast
    show ?thesis
    proof (cases "cf_kind finding = []")
      case True
      with prep Inr pr run st2 show ?thesis
        by (cases reply) (auto simp: Let_def intro: Cons.IH state_reuse_ok_records split: outcome.split)
    qed (use prep Inr pr st1 Cons.IH in simp)
  qed
qed

lemma suite_reuse_ok:
  assumes "state_reuse_ok (se_sha session) S st"
  shows "state_reuse_ok (se_sha session) S (snd (evaluate_package_suite session options mutant route st))"
proof -
  obtain prepared st1 where prep: "prepare_mutation_request session options mutant (package_suite_request options mutant route)
      ''mutation-control-failure'' s_suite_control_failure ''mutation-control-timeout'' s_suite_control_timeout st
      = (prepared, st1)" by (metis prod.collapse)
  have st1: "state_reuse_ok (se_sha session) S st1"
    using assms state_reuse_ok_same [OF prepare_evidence [OF prep]] by blast
  show ?thesis
  proof (cases prepared)
    case (Inl e)
    with prep st1 show ?thesis by (auto simp: evaluate_package_suite_def split: evaluation_error.split)
  next
    case (Inr pr)
    obtain request finding where pr: "pr = (request, finding)" by (cases pr)
    obtain reply observation st2 where run:
      "execute_under_measured_budget session options request st1 = ((reply, observation), st2)" by (metis prod.collapse)
    have st2: "state_reuse_ok (se_sha session) S st2"
      using st1 state_reuse_ok_same [OF execute_budget_evidence [OF run]] by blast
    show ?thesis
    proof (cases "cf_kind finding = []")
      case True
      with prep Inr pr run st2 show ?thesis
        by (cases reply) (auto simp: evaluate_package_suite_def Let_def intro: state_reuse_ok_records split: outcome.split)
    qed (use prep Inr pr st1 in \<open>simp add: evaluate_package_suite_def\<close>)
  qed
qed

lemma seed_reuse_ok:
  assumes ok: "state_reuse_ok (se_sha session) S st" and S: "mu_ID mutant \<in> S"
  shows "state_reuse_ok (se_sha session) S (snd (evaluate_mutation_seed session options targets mutant st))"
proof -
  let ?route = "seed_route options mutant targets"
  obtain kill s1 where kill: "ask_kill (se_sha session) mutant ?route st = (kill, s1)" by (metis prod.collapse)
  obtain verdict s2 where verdict: "ask_verdict (se_sha session) mutant ?route s1 = (verdict, s2)" by (metis prod.collapse)
  have s1: "state_reuse_ok (se_sha session) S s1" using ask_reuse_ok(1) [OF ok S kill] .
  have s2: "state_reuse_ok (se_sha session) S s2" using ask_reuse_ok(2) [OF s1 S verdict] .
  have routed: "state_reuse_ok (se_sha session) S (snd (evaluate_routed session options mutant ?route s2))"
    using s2 by (simp add: evaluate_routed_def Let_def suite_reuse_ok groups_reuse_ok)
  have unreached: "state_reuse_ok (se_sha session) S (snd (unreached_now session options mutant ?route summary s1))" for summary
    using s1 by (auto simp: unreached_now_def intro!: state_reuse_ok_records)
  show ?thesis
    using s1 s2 routed unreached
    by (cases kill; cases verdict) (auto simp: evaluate_mutation_seed_def kill verdict Let_def)
qed

lemma run_seed_reuse_ok:
  assumes "state_reuse_ok (se_sha session) S st" "mu_ID mutant \<in> S"
  shows "state_reuse_ok (se_sha session) S (snd (run_seed session options targets mutant st))"
  using seed_reuse_ok [OF assms, of options targets]
  by (auto simp: run_seed_def Let_def split: prod.split sum.split)

section \<open>The units of a run\<close>

lemma accepted_not_rejected:
  assumes "catalog_ok cat" "m \<in> set (cat_Mutants cat)" "mu_Accepted m"
  shows "mu_ID m \<notin> set (map rj_ID (cat_Rejections cat))"
proof
  assume "mu_ID m \<in> set (map rj_ID (cat_Rejections cat))"
  then obtain n where "n \<in> set (cat_Mutants cat)" "\<not> mu_Accepted n" "mu_ID n = mu_ID m"
    using assms(1) by (auto simp: catalog_ok_def)
  moreover have "inj_on mu_ID (set (cat_Mutants cat))" using assms(1) by (simp add: catalog_ok_def distinct_map)
  ultimately show False using assms(2,3) by (auto dest: inj_onD)
qed

definition executable_ids :: "catalog \<Rightarrow> string \<Rightarrow> string set" where
  "executable_ids cat replayID =
     {mu_ID m | m. m \<in> set (cat_Mutants cat) \<and> mu_Accepted m \<and> (replayID = [] \<or> mu_ID m = replayID)}"

text \<open>The state of the loop over the catalog after some of its mutants.\<close>

definition resume_inv :: "catalog \<Rightarrow> mutation_options \<Rightarrow> resume_state \<Rightarrow> (string \<times> mutation_evaluation) list \<Rightarrow> bool" where
  "resume_inv cat options rs us \<longleftrightarrow>
     built_from us (rs_evaluation rs) \<and> (\<forall>iu \<in> set us. unit_for cat iu) \<and>
     set (rs_resumed rs) \<subseteq> fst ` set us \<and>
     (\<forall>m \<in> set (rs_mutants rs). m \<in> set (cat_Mutants cat) \<and> mu_Accepted m \<and>
        mu_ID m \<in> executable_ids cat (op_ReplayMutantID options)) \<and>
     (\<forall>(i, provenance) \<in> set (rs_provenance rs).
        i \<in> executable_ids cat (op_ReplayMutantID options) \<and> provenance \<noteq> [])"

lemma resume_mutant_inv:
  assumes "resume_inv cat options rs us" "m \<in> set (cat_Mutants cat)" "\<forall>iu \<in> set (op_Resume options). unit_for cat iu"
  shows "\<exists>vs. resume_inv cat options (resume_mutant options m rs) (us @ vs) \<and>
    set (rs_mutants rs) \<subseteq> set (rs_mutants (resume_mutant options m rs)) \<and>
    (mu_ID m \<in> executable_ids cat (op_ReplayMutantID options) \<and> mu_Accepted m \<longrightarrow>
       mu_ID m \<in> fst ` set (us @ vs) \<or> m \<in> set (rs_mutants (resume_mutant options m rs)))"
proof -
  let ?skip = "\<not> mu_Accepted m \<or> op_ReplayMutantID options \<noteq> [] \<and> mu_ID m \<noteq> op_ReplayMutantID options"
  consider (skip) "?skip" | (run) "\<not> ?skip" "map_of (op_Resume options) (mu_ID m) = None"
    | (saved) saved where "\<not> ?skip" "map_of (op_Resume options) (mu_ID m) = Some saved" by blast
  then show ?thesis
  proof cases
    case skip
    then show ?thesis
      using assms(1) by (intro exI [of _ "[]"]) (auto simp: resume_mutant_def executable_ids_def)
  next
    case run
    then show ?thesis
      using assms(1,2) by (intro exI [of _ "[]"]) (auto simp: resume_mutant_def resume_inv_def executable_ids_def Let_def)
  next
    case saved
    have "unit_for cat (mu_ID m, saved)" using assms(3) map_of_SomeD [OF saved(2)] by blast
    with saved show ?thesis
      using assms(1,2) built_from_append [of us "rs_evaluation rs" "mu_ID m" saved]
      by (intro exI [of _ "[(mu_ID m, saved)]"])
        (auto simp: resume_mutant_def resume_inv_def executable_ids_def Let_def)
  qed
qed

lemma resume_mutants_inv:
  assumes "\<forall>iu \<in> set (op_Resume options). unit_for cat iu"
  shows "resume_inv cat options rs us \<Longrightarrow> set ms \<subseteq> set (cat_Mutants cat) \<Longrightarrow>
    \<exists>vs. resume_inv cat options (fold (resume_mutant options) ms rs) (us @ vs) \<and>
      set (rs_mutants rs) \<subseteq> set (rs_mutants (fold (resume_mutant options) ms rs)) \<and>
      (\<forall>m \<in> set ms. mu_Accepted m \<and> mu_ID m \<in> executable_ids cat (op_ReplayMutantID options) \<longrightarrow>
         mu_ID m \<in> fst ` set (us @ vs) \<or> m \<in> set (rs_mutants (fold (resume_mutant options) ms rs)))"
proof (induction ms arbitrary: rs us)
  case Nil
  then show ?case by (intro exI [of _ "[]"]) simp
next
  case (Cons m ms)
  let ?next = "resume_mutant options m rs"
  obtain vs where vs: "resume_inv cat options ?next (us @ vs)" "set (rs_mutants rs) \<subseteq> set (rs_mutants ?next)"
    "mu_ID m \<in> executable_ids cat (op_ReplayMutantID options) \<and> mu_Accepted m \<longrightarrow>
       mu_ID m \<in> fst ` set (us @ vs) \<or> m \<in> set (rs_mutants ?next)"
    using resume_mutant_inv [OF Cons.prems(1) _ assms, of m] Cons.prems(2) by auto
  obtain ws where ws: "resume_inv cat options (fold (resume_mutant options) ms ?next) ((us @ vs) @ ws)"
    "set (rs_mutants ?next) \<subseteq> set (rs_mutants (fold (resume_mutant options) ms ?next))"
    "\<forall>m \<in> set ms. mu_Accepted m \<and> mu_ID m \<in> executable_ids cat (op_ReplayMutantID options) \<longrightarrow>
         mu_ID m \<in> fst ` set ((us @ vs) @ ws) \<or> m \<in> set (rs_mutants (fold (resume_mutant options) ms ?next))"
    using Cons.IH [OF vs(1)] Cons.prems(2) by auto
  show ?case
    using vs(2,3) ws by (intro exI [of _ "vs @ ws"]) auto
qed

lemma resume_inv_unit:
  assumes "resume_inv cat options rs us" "unit_for cat (i, unit)"
    and "rs_evaluation rs' = append_evaluation (rs_evaluation rs) unit" "rs_mutants rs' = rs_mutants rs"
      "rs_resumed rs' = rs_resumed rs \<or> rs_resumed rs' = i # rs_resumed rs" "rs_provenance rs' = rs_provenance rs"
  shows "resume_inv cat options rs' (us @ [(i, unit)])"
proof -
  have "built_from (us @ [(i, unit)]) (rs_evaluation rs')"
    using assms(1) unfolding assms(3) resume_inv_def by (intro built_from_append) blast
  moreover have "set (rs_resumed rs') \<subseteq> fst ` set (us @ [(i, unit)])"
    using assms(1,5) by (auto simp: resume_inv_def)
  ultimately show ?thesis using assms(1,2) unfolding resume_inv_def assms(4,6) by auto
qed

lemma resume_inv_present: "resume_inv cat options (rs\<lparr>rs_present := b\<rparr>) us = resume_inv cat options rs us"
  by (simp add: resume_inv_def)

lemma resume_rejection_inv:
  assumes "resume_inv cat options rs us" "r \<in> set (cat_Rejections cat)"
    and "\<forall>iu \<in> set (op_Resume options). unit_for cat iu" "resume_rejection options r (rs, st) = (rs', st')"
  shows "\<exists>vs. resume_inv cat options rs' (us @ vs) \<and> rs_mutants rs' = rs_mutants rs \<and>
    (op_ReplayMutantID options = [] \<or> rj_ID r = op_ReplayMutantID options \<longrightarrow> rj_ID r \<in> fst ` set (us @ vs)) \<and>
    es_evidence st' = es_evidence st"
proof -
  let ?skip = "op_ReplayMutantID options \<noteq> [] \<and> rj_ID r \<noteq> op_ReplayMutantID options"
  consider (skip) "?skip"
    | (run) "\<not> ?skip" "map_of (op_Resume options) (rj_ID r) = None"
    | (known) saved where "\<not> ?skip" "map_of (op_Resume options) (rj_ID r) = Some saved" "rj_ID r \<in> set (rs_resumed rs)"
    | (saved) saved where "\<not> ?skip" "map_of (op_Resume options) (rj_ID r) = Some saved" "rj_ID r \<notin> set (rs_resumed rs)"
    by blast
  then show ?thesis
  proof cases
    case skip
    then show ?thesis using assms by (intro exI [of _ "[]"]) (auto simp: resume_rejection_def)
  next
    case run
    have "unit_for cat (rj_ID r, rejection_evaluation r)"
      using assms(2) by (simp add: unit_for_def rejection_unit_def rejection_evaluation_def empty_evaluation_def)
    from resume_inv_unit [OF assms(1) this, of "rs\<lparr>rs_present := True, rs_evaluation := append_evaluation (rs_evaluation rs) (rejection_evaluation r)\<rparr>"]
    show ?thesis
      using run assms(4) by (intro exI [of _ "[(rj_ID r, rejection_evaluation r)]"])
        (auto simp: resume_rejection_def checkpoint_mutation_def Let_def)
  next
    case known
    moreover have "rj_ID r \<in> fst ` set us" using known(3) assms(1) by (auto simp: resume_inv_def)
    ultimately show ?thesis
      using assms(1,4) by (intro exI [of _ "[]"]) (auto simp: resume_rejection_def resume_inv_present Let_def)
  next
    case saved
    have "unit_for cat (rj_ID r, saved)" using assms(3) map_of_SomeD [OF saved(2)] by blast
    from resume_inv_unit [OF assms(1) this, of "rs\<lparr>rs_present := True, rs_evaluation := append_evaluation (rs_evaluation rs) saved,
        rs_resumed := rj_ID r # rs_resumed rs\<rparr>"]
    show ?thesis
      using saved assms(4) by (intro exI [of _ "[(rj_ID r, saved)]"]) (auto simp: resume_rejection_def Let_def)
  qed
qed

lemma resume_rejections_inv:
  assumes "\<forall>iu \<in> set (op_Resume options). unit_for cat iu"
  shows "resume_inv cat options rs us \<Longrightarrow> set rjs \<subseteq> set (cat_Rejections cat) \<Longrightarrow>
    fold (resume_rejection options) rjs (rs, st) = (rs', st') \<Longrightarrow>
    \<exists>vs. resume_inv cat options rs' (us @ vs) \<and> rs_mutants rs' = rs_mutants rs \<and>
      (\<forall>r \<in> set rjs. op_ReplayMutantID options = [] \<or> rj_ID r = op_ReplayMutantID options \<longrightarrow> rj_ID r \<in> fst ` set (us @ vs)) \<and>
      es_evidence st' = es_evidence st"
proof (induction rjs arbitrary: rs us st)
  case Nil
  then show ?case by (intro exI [of _ "[]"]) simp
next
  case (Cons r rjs)
  obtain rs1 st1 where one: "resume_rejection options r (rs, st) = (rs1, st1)" by (metis prod.collapse)
  obtain vs where vs: "resume_inv cat options rs1 (us @ vs)" "rs_mutants rs1 = rs_mutants rs"
    "op_ReplayMutantID options = [] \<or> rj_ID r = op_ReplayMutantID options \<longrightarrow> rj_ID r \<in> fst ` set (us @ vs)"
    "es_evidence st1 = es_evidence st"
    using resume_rejection_inv [OF Cons.prems(1) _ assms one] Cons.prems(2) by auto
  have rest: "fold (resume_rejection options) rjs (rs1, st1) = (rs', st')" "set rjs \<subseteq> set (cat_Rejections cat)"
    using Cons.prems(2,3) one by simp_all
  obtain ws where ws: "resume_inv cat options rs' ((us @ vs) @ ws)" "rs_mutants rs' = rs_mutants rs1"
    "\<forall>r \<in> set rjs. op_ReplayMutantID options = [] \<or> rj_ID r = op_ReplayMutantID options \<longrightarrow> rj_ID r \<in> fst ` set ((us @ vs) @ ws)"
    "es_evidence st' = es_evidence st1"
    using Cons.IH [OF vs(1) rest(2,1)] by blast
  show ?case using vs(2-4) ws by (intro exI [of _ "vs @ ws"]) auto
qed

section \<open>The seeds\<close>

text \<open>The result of a seed: an error, or a unit that settles its mutant.\<close>

definition seed_result_ok :: "mutant \<Rightarrow> (evaluation_error + mutation_evaluation) \<Rightarrow> bool" where
  "seed_result_ok m result \<longleftrightarrow> (\<forall>evaluation. result = Inr evaluation \<longrightarrow> settles (mu_ID m) evaluation)"

lemma run_seed_result: "seed_result_ok m (fst (run_seed session options targets m st))"
  using evaluate_settles [of session options targets m st]
  by (auto simp: seed_result_ok_def run_seed_def Let_def split: prod.split sum.split)

lemma seeds_fold:
  assumes "set order \<subseteq> {..<length ms}" "\<forall>m \<in> set ms. mu_ID m \<in> S"
    and "length results = length ms" "state_reuse_ok (se_sha session) S st"
    and "\<forall>i < length ms. \<forall>r. results ! i = Some r \<longrightarrow> seed_result_ok (ms ! i) r"
    and "fold (\<lambda>i (results, st). let (result, st) = run_seed session options targets (ms ! i) st
                                 in (results[i := Some result], st)) order (results, st) = (results', st')"
  shows "length results' = length ms \<and> state_reuse_ok (se_sha session) S st' \<and>
    (\<forall>i < length ms. \<forall>r. results' ! i = Some r \<longrightarrow> seed_result_ok (ms ! i) r) \<and>
    (\<forall>i < length ms. i \<in> set order \<or> results ! i \<noteq> None \<longrightarrow> results' ! i \<noteq> None)"
  using assms
proof (induction order arbitrary: results st)
  case Nil
  then show ?case by simp
next
  case (Cons i order)
  obtain result st1 where run: "run_seed session options targets (ms ! i) st = (result, st1)" by (metis prod.collapse)
  have i: "i < length ms" using Cons.prems(1) by simp
  have "state_reuse_ok (se_sha session) S st1"
    using run_seed_reuse_ok [OF Cons.prems(4), of "ms ! i" options targets] Cons.prems(2) i by (simp add: run)
  moreover have "seed_result_ok (ms ! i) result" using run_seed_result [of "ms ! i" session options targets st] by (simp add: run)
  ultimately have "length results' = length ms \<and> state_reuse_ok (se_sha session) S st' \<and>
    (\<forall>i < length ms. \<forall>r. results' ! i = Some r \<longrightarrow> seed_result_ok (ms ! i) r) \<and>
    (\<forall>j < length ms. j \<in> set order \<or> results[i := Some result] ! j \<noteq> None \<longrightarrow> results' ! j \<noteq> None)"
    using Cons.prems i run by (intro Cons.IH) (auto simp: nth_list_update)
  then show ?case using i Cons.prems(3) by (auto simp: nth_list_update)
qed

lemma evaluate_seeds_results:
  assumes "mset order = mset [0..<length ms]" "\<forall>m \<in> set ms. mu_ID m \<in> S" "state_reuse_ok (se_sha session) S st"
    and "evaluate_mutation_seeds session options targets ms order st = (results, st')"
  shows "list_all2 (\<lambda>m result. \<exists>r. result = Some r \<and> seed_result_ok m r) ms results"
    and "state_reuse_ok (se_sha session) S st'"
proof -
  have order: "set order = {..<length ms}" using mset_eq_setD [OF assms(1)] by (simp only: atLeast_upt)
  have start: "set order \<subseteq> {..<length ms}" "length (replicate (length ms) None) = length ms"
    "\<forall>i < length ms. \<forall>r. replicate (length ms) None ! i = Some r \<longrightarrow> seed_result_ok (ms ! i) r"
    using order by simp_all
  note seeds = seeds_fold [OF start(1) assms(2) start(2) assms(3) start(3) assms(4) [unfolded evaluate_mutation_seeds_def]]
  then show "state_reuse_ok (se_sha session) S st'" by blast
  have "\<exists>r. results ! i = Some r \<and> seed_result_ok (ms ! i) r" if "i < length ms" for i
    using seeds that order by auto
  with seeds show "list_all2 (\<lambda>m result. \<exists>r. result = Some r \<and> seed_result_ok m r) ms results"
    by (simp add: list_all2_conv_all_nth)
qed

lemma append_results_units:
  assumes "list_all2 (\<lambda>m result. \<exists>r. result = Some r \<and> seed_result_ok m r) ms results"
    and "\<forall>m \<in> set ms. mu_ID m \<notin> set (map rj_ID (cat_Rejections cat))"
    and "append_results evaluation results = Inr evaluation'" "built_from us evaluation"
  shows "\<exists>vs. map fst vs = map mu_ID ms \<and> (\<forall>iu \<in> set vs. unit_for cat iu) \<and> built_from (us @ vs) evaluation'"
  using assms
proof (induction ms results arbitrary: evaluation us rule: list_all2_induct)
  case Nil
  then show ?case by simp
next
  case (Cons m ms result results)
  from Cons.hyps(1) Cons.prems(2) obtain unit where unit: "result = Some (Inr unit)" "settles (mu_ID m) unit"
    by (auto simp: seed_result_ok_def split: sum.split_asm) (metis append_results.simps(3) obj_sumE sum.distinct(1))
  have "append_results (append_evaluation evaluation unit) results = Inr evaluation'" using Cons.prems(2) unit(1) by simp
  moreover have "built_from (us @ [(mu_ID m, unit)]) (append_evaluation evaluation unit)"
    using Cons.prems(3) by (rule built_from_append)
  ultimately obtain vs where "map fst vs = map mu_ID ms" "\<forall>iu \<in> set vs. unit_for cat iu"
    "built_from ((us @ [(mu_ID m, unit)]) @ vs) evaluation'"
    using Cons.IH Cons.prems(1) by (meson list.set_intros(2))
  moreover have "unit_for cat (mu_ID m, unit)" using unit(2) Cons.prems(1) by (simp add: unit_for_def)
  ultimately show ?case by (intro exI [of _ "(mu_ID m, unit) # vs"]) simp
qed

section \<open>The counts\<close>

lemma count_dispositions:
  "\<forall>d \<in> set ds. md_Status d \<in> set mutant_statuses \<Longrightarrow>
   fold count_disposition ds c = (counted c ds)\<lparr>mSelected := mSelected c, mOutOfScope := mOutOfScope c\<rparr>"
proof (induction ds arbitrary: c)
  case Nil
  then show ?case by simp
next
  case (Cons d ds)
  have "count_disposition d c = (counted c [d])\<lparr>mSelected := mSelected c, mOutOfScope := mOutOfScope c\<rparr>"
    using Cons.prems by (auto simp: count_disposition_def counted_def with_status_def reused_with_status_def mutant_statuses_def)
  then show ?case using Cons by (simp add: counted_def with_status_def reused_with_status_def)
qed

lemma count_inventory:
  assumes "\<forall>d \<in> set ds. md_Status d \<in> set mutant_statuses"
    and "c = (no_mutants (int (length ds)))\<lparr>mSelected := int (length ds) - with_status MutantOutOfScope ds,
           mOutOfScope := with_status MutantOutOfScope ds\<rparr>"
  shows "fold count_disposition ds c = inventory_accounting ds"
  using statuses_partition [OF assms(1)]
  by (simp add: count_dispositions [OF assms(1)] assms(2) inventory_accounting_def counted_def no_mutants_def)

section \<open>The dispositions\<close>

definition provenance_ok :: "string set \<Rightarrow> (string \<times> string) list \<Rightarrow> bool" where
  "provenance_ok S resumed \<longleftrightarrow> (\<forall>(i, provenance) \<in> set resumed. i \<in> S \<and> provenance \<noteq> [])"

lemma look_provenance:
  assumes "provenance_ok S resumed" "look (map_of resumed) i \<noteq> []"
  shows "i \<in> S"
proof (cases "map_of resumed i")
  case (Some provenance)
  with assms(1) map_of_SomeD [OF Some] show ?thesis by (auto simp: provenance_ok_def)
qed (use assms(2) in \<open>simp add: look_def\<close>)

lemma reuse_of_ok:
  assumes "\<forall>c. collected = Some c \<longrightarrow> reuse_ok sha S c" "provenance_ok S resumed"
    and "reuse_of collected resumed i = (reused, provenance)"
  shows "reused = (provenance \<noteq> [])" and "reused \<Longrightarrow> i \<in> S"
proof -
  have disposition: "p \<noteq> [] \<and> i \<in> S" if "collected = Some c" "evidence_disposition c i = (True, p)" for c p
    using assms(1) that map_of_SomeD [of "me_reused c" i]
    by (auto simp: evidence_disposition_def reuse_ok_def look_def split: option.splits)
  show "reused = (provenance \<noteq> [])" "reused \<Longrightarrow> i \<in> S"
    using assms(3) disposition look_provenance [OF assms(2), of i]
    by (auto simp: reuse_of_def Let_def split: option.splits if_split_asm prod.splits)
qed

lemma selected_executable:
  assumes "catalog_ok cat"
  shows "set (selected_mutants cat replayID) =
    executable_ids cat replayID \<union> {i \<in> set (map rj_ID (cat_Rejections cat)). replayID = [] \<or> i = replayID}"
  by (auto simp: selected_mutants_def executable_ids_def)

lemma disposition_good:
  assumes "catalog_ok cat" "m \<in> set (cat_Mutants cat)" "0 \<le> mu_Line m"
    and "mu_ID m \<in> set selected \<Longrightarrow>
      \<exists>status detail. statuses (mu_ID m) = Some (status, detail) \<and> status_for cat (mu_ID m) status"
    and "set selected = set (selected_mutants cat replayID)"
    and "\<forall>c. collected = Some c \<longrightarrow> reuse_ok sha (executable_ids cat replayID) c"
      "provenance_ok (executable_ids cat replayID) resumed"
  shows "good_disposition (mutant_disposition_of selected statuses collected resumed m)"
    and "md_Status (mutant_disposition_of selected statuses collected resumed m) \<noteq> MutantUnknown"
    and "md_Status (mutant_disposition_of selected statuses collected resumed m) = MutantOutOfScope \<longleftrightarrow>
      mu_ID m \<notin> set selected"
proof -
  obtain reused provenance where reuse: "reuse_of collected resumed (mu_ID m) = (reused, provenance)" by (metis surj_pair)
  note reuse_facts = reuse_of_ok [OF assms(6,7) reuse]
  have executable: "mu_ID m \<in> set selected \<and> mu_ID m \<notin> set (map rj_ID (cat_Rejections cat))" if reused
  proof -
    have i: "mu_ID m \<in> executable_ids cat replayID" using reuse_facts(2) that by blast
    then obtain n where n: "n \<in> set (cat_Mutants cat)" "mu_Accepted n" "mu_ID n = mu_ID m" by (auto simp: executable_ids_def)
    from accepted_not_rejected [OF assms(1) n(1,2)] i show ?thesis
      using selected_executable [OF assms(1), of replayID] assms(5) n(3) by simp
  qed
  have "[] \<notin> mu_ID ` set (cat_Mutants cat)" using assms(1) by (simp add: catalog_ok_def)
  then have id: "mu_ID m \<noteq> []" using assms(2) by (metis image_eqI)
  have "good_disposition (mutant_disposition_of selected statuses collected resumed m) \<and>
    md_Status (mutant_disposition_of selected statuses collected resumed m) \<noteq> MutantUnknown \<and>
    (md_Status (mutant_disposition_of selected statuses collected resumed m) = MutantOutOfScope \<longleftrightarrow> mu_ID m \<notin> set selected)"
  proof (cases "mu_ID m \<in> set selected")
    case True
    then obtain status detail where st: "statuses (mu_ID m) = Some (status, detail)" "status_for cat (mu_ID m) status"
      using assms(4) by blast
    then have "status \<in> {MutantKilled, MutantAccepted, MutantSurvived, MutantInconclusive} \<or> status = MutantCompileRejected \<and> \<not> reused"
      using executable by (auto simp: status_for_def split: if_split_asm)
    then show ?thesis
      using True st(1) reuse reuse_facts(1) id assms(3)
      by (auto simp: mutant_disposition_of_def good_disposition_def validate_reuse_def mutant_statuses_def)
  next
    case False
    then show ?thesis
      using reuse reuse_facts(1) executable id assms(3)
      by (auto simp: mutant_disposition_of_def good_disposition_def validate_reuse_def mutant_statuses_def)
  qed
  then show "good_disposition (mutant_disposition_of selected statuses collected resumed m)"
    "md_Status (mutant_disposition_of selected statuses collected resumed m) \<noteq> MutantUnknown"
    "md_Status (mutant_disposition_of selected statuses collected resumed m) = MutantOutOfScope \<longleftrightarrow> mu_ID m \<notin> set selected"
    by blast+
qed

lemma with_status_map:
  "\<forall>m \<in> set ms. md_Status (f m) = s \<longleftrightarrow> P m \<Longrightarrow> with_status s (map f ms) = int (length (filter P ms))"
  by (induction ms) (auto simp: with_status_def)

lemma selected_size:
  assumes "catalog_ok cat"
  shows "length (remdups (selected_mutants cat replayID)) =
    length (filter (\<lambda>m. mu_ID m \<in> set (selected_mutants cat replayID)) (cat_Mutants cat))"
proof -
  let ?S = "set (selected_mutants cat replayID)"
  let ?ms = "filter (\<lambda>m. mu_ID m \<in> ?S) (cat_Mutants cat)"
  have "?S \<subseteq> set (map mu_ID (cat_Mutants cat))" using selected_in_catalog [OF assms, of replayID] by auto
  then have "?S = set (map mu_ID ?ms)" by auto
  moreover have "distinct (map mu_ID ?ms)"
    using assms by (auto simp: catalog_ok_def distinct_map intro: inj_on_subset)
  ultimately show ?thesis by (metis distinct_card length_map length_remdups_card_conv)
qed

text \<open>What the run hands to the accounting.\<close>

lemma evaluate_mutations_units:
  assumes run: "evaluate_mutations session cat targets options order st = (Inr evaluation, st')"
    and order: "\<And>n. mset (order n) = mset [0..<n]"
    and resume: "\<forall>iu \<in> set (op_Resume options). unit_for cat iu"
    and evidence: "state_reuse_ok (se_sha session) (executable_ids cat (op_ReplayMutantID options)) st"
  obtains us gathered resumed where "catalog_ok cat" "built_from us gathered" "\<forall>iu \<in> set us. unit_for cat iu"
    "set (selected_mutants cat (op_ReplayMutantID options)) \<subseteq> fst ` set us"
    "provenance_ok (executable_ids cat (op_ReplayMutantID options)) resumed"
    "state_reuse_ok (se_sha session) (executable_ids cat (op_ReplayMutantID options)) st'"
    "mutation_accounting cat (op_ReplayMutantID options) gathered (es_evidence st') resumed =
       (mv_Accounting evaluation, mv_Mutants evaluation)"
proof -
  let ?replay = "op_ReplayMutantID options"
  let ?S = "executable_ids cat ?replay"
  have cat: "catalog_ok cat" "validate_mutation_catalog cat = None"
    using run by (auto simp: evaluate_mutations_def validate_catalog_None split: option.splits)
  let ?rs = "fold (resume_mutant options) (cat_Mutants cat) (resume_start options)"
  obtain rs st1 where rejections: "fold (resume_rejection options) (cat_Rejections cat) (?rs, st) = (rs, st1)"
    by (metis prod.collapse)
  obtain results st2 where seeds: "evaluate_mutation_seeds session options targets (rs_mutants rs)
      (order (length (rs_mutants rs))) st1 = (results, st2)" by (metis prod.collapse)
  from run obtain gathered where gathered: "append_results (rs_evaluation rs) results = Inr gathered" "st' = st2"
      and accounting: "mutation_accounting cat ?replay gathered (es_evidence st') (rs_provenance rs) =
        (mv_Accounting evaluation, mv_Mutants evaluation)"
    by (auto simp: evaluate_mutations_def cat(2) rejections seeds Let_def split: if_split_asm sum.splits prod.splits)
  have "resume_inv cat options (resume_start options) []" by (simp add: resume_inv_def resume_start_def)
  then obtain vs where vs: "resume_inv cat options ?rs vs"
    "\<forall>m \<in> set (cat_Mutants cat). mu_Accepted m \<and> mu_ID m \<in> ?S \<longrightarrow> mu_ID m \<in> fst ` set vs \<or> m \<in> set (rs_mutants ?rs)"
    using resume_mutants_inv [OF resume, of "resume_start options" "[]" "cat_Mutants cat"] by auto
  obtain ws where ws: "resume_inv cat options rs (vs @ ws)" "rs_mutants rs = rs_mutants ?rs"
    "\<forall>r \<in> set (cat_Rejections cat). ?replay = [] \<or> rj_ID r = ?replay \<longrightarrow> rj_ID r \<in> fst ` set (vs @ ws)"
    "es_evidence st1 = es_evidence st"
    using resume_rejections_inv [OF resume vs(1) _ rejections] by auto
  have ms: "\<forall>m \<in> set (rs_mutants rs). mu_ID m \<in> ?S"
    "\<forall>m \<in> set (rs_mutants rs). mu_ID m \<notin> set (map rj_ID (cat_Rejections cat))"
    using ws(1) accepted_not_rejected [OF cat(1)] by (auto simp: resume_inv_def)
  have st1: "state_reuse_ok (se_sha session) ?S st1" using evidence state_reuse_ok_same [OF ws(4)] by blast
  note results = evaluate_seeds_results [OF order ms(1) st1 seeds]
  have built: "built_from (vs @ ws) (rs_evaluation rs)" using ws(1) by (simp add: resume_inv_def)
  obtain xs where xs: "map fst xs = map mu_ID (rs_mutants rs)" "\<forall>iu \<in> set xs. unit_for cat iu"
    "built_from ((vs @ ws) @ xs) gathered"
    using append_results_units [OF results(1) ms(2) gathered(1) built] by blast
  have ran: "mu_ID ` set (rs_mutants rs) = fst ` set xs" using xs(1) by (metis list.set_map)
  have "i \<in> fst ` set ((vs @ ws) @ xs)" if i: "i \<in> ?S" for i
  proof -
    obtain m where "m \<in> set (cat_Mutants cat)" "mu_Accepted m" "mu_ID m = i"
      using i unfolding executable_ids_def by blast
    with vs(2) i have "i \<in> fst ` set vs \<or> i \<in> mu_ID ` set (rs_mutants rs)" unfolding ws(2) by blast
    then show ?thesis unfolding ran by auto
  qed
  then have "?S \<subseteq> fst ` set ((vs @ ws) @ xs)" by blast
  moreover have "i \<in> fst ` set (vs @ ws)" if i: "i \<in> set (map rj_ID (cat_Rejections cat))" "?replay = [] \<or> i = ?replay" for i
  proof -
    obtain r where "r \<in> set (cat_Rejections cat)" "rj_ID r = i" using i(1) by auto
    with ws(3) i(2) show ?thesis by metis
  qed
  ultimately have "set (selected_mutants cat ?replay) \<subseteq> fst ` set ((vs @ ws) @ xs)"
    unfolding selected_executable [OF cat(1)] set_append image_Un by blast
  moreover have "provenance_ok ?S (rs_provenance rs)" using ws(1) by (auto simp: resume_inv_def provenance_ok_def)
  moreover have "\<forall>iu \<in> set ((vs @ ws) @ xs). unit_for cat iu" using ws(1) xs(2) by (auto simp: resume_inv_def)
  ultimately show thesis
    using that cat(1) xs(3) results(2) gathered(2) accounting by blast
qed

lemma accounting_valid:
  assumes cat: "catalog_ok cat" and lines: "\<forall>m \<in> set (cat_Mutants cat). 0 \<le> mu_Line m"
    and built: "built_from us gathered" "\<forall>iu \<in> set us. unit_for cat iu" "set (selected_mutants cat replayID) \<subseteq> fst ` set us"
    and reuse: "\<forall>c. collected = Some c \<longrightarrow> reuse_ok sha (executable_ids cat replayID) c"
      "provenance_ok (executable_ids cat replayID) resumed"
    and accounting: "mutation_accounting cat replayID gathered collected resumed = (counts, ds)"
  shows "validate_mutants counts ds verdict = None" and "map md_ID ds = map mu_ID (cat_Mutants cat)" and "mUnknown counts = 0"
proof -
  let ?selected = "selected_mutants cat replayID"
  let ?statuses = "mutant_statuses_of ?selected gathered"
  let ?f = "mutant_disposition_of ?selected ?statuses collected resumed"
  have ds: "ds = map ?f (cat_Mutants cat)" using accounting by (simp add: mutation_accounting_def Let_def)
  have statuses: "\<exists>status detail. ?statuses i = Some (status, detail) \<and> status_for cat i status" if "i \<in> set ?selected" for i
    using statuses_of_units [OF built(1,2) that] built(3) that by blast
  note good = disposition_good [OF cat _ _ _ refl reuse, of _ ?statuses]
  have each: "good_disposition (?f m)" "md_Status (?f m) \<noteq> MutantUnknown"
    "md_Status (?f m) = MutantOutOfScope \<longleftrightarrow> mu_ID m \<notin> set ?selected" if "m \<in> set (cat_Mutants cat)" for m
    using good [OF that] lines that statuses by blast+
  have ids: "map md_ID ds = map mu_ID (cat_Mutants cat)"
    by (simp add: ds mutant_disposition_of_def Let_def case_prod_beta)
  have all: "\<forall>d \<in> set ds. good_disposition d" using each(1) by (auto simp: ds)
  have unknown: "with_status MutantUnknown ds = 0"
    using each(2) by (simp add: ds with_status_def filter_empty_conv)
  have outside: "with_status MutantOutOfScope ds = int (length (filter (\<lambda>m. mu_ID m \<notin> set ?selected) (cat_Mutants cat)))"
    unfolding ds using each(3) by (intro with_status_map) blast
  have len: "length ds = length (cat_Mutants cat)" by (simp add: ds)
  have size: "int (length (remdups ?selected)) = int (length ds) - with_status MutantOutOfScope ds"
    using sum_length_filter_compl [of "\<lambda>m. mu_ID m \<in> set ?selected" "cat_Mutants cat"]
    by (simp add: selected_size [OF cat] outside len)
  have statuses_known: "\<forall>d \<in> set ds. md_Status d \<in> set mutant_statuses" using all by (auto simp: good_disposition_def)
  have counts: "counts = inventory_accounting ds"
    using accounting count_inventory [OF statuses_known refl] size
    by (simp add: mutation_accounting_def Let_def ds [symmetric]) (simp add: ds)
  have "distinct (map md_ID ds)" using cat unfolding ids by (simp add: catalog_ok_def)
  then show "validate_mutants counts ds verdict = None"
    using all counts unknown by (simp add: validate_mutants_None)
  show "map md_ID ds = map mu_ID (cat_Mutants cat)" by (rule ids)
  show "mUnknown counts = 0" by (simp add: counts unknown)
qed

text \<open>
  C23. Whatever the session answers and in whatever order the seeds are evaluated, a run that
  returns hands the report an inventory the audit accepts under every verdict: one disposition
  per mutant of the catalog, in its order, an accounting that counts them, and no mutant
  without an explanation.
\<close>

theorem evaluate_mutations_audited:
  assumes "evaluate_mutations session cat targets options order st = (Inr evaluation, st')"
    and "\<And>n. mset (order n) = mset [0..<n]"
    and "\<forall>m \<in> set (cat_Mutants cat). 0 \<le> mu_Line m"
    and "\<forall>iu \<in> set (op_Resume options). unit_for cat iu"
    and "state_reuse_ok (se_sha session) (executable_ids cat (op_ReplayMutantID options)) st"
  shows "validate_mutants (mv_Accounting evaluation) (mv_Mutants evaluation) verdict = None \<and>
    map md_ID (mv_Mutants evaluation) = map mu_ID (cat_Mutants cat) \<and> mUnknown (mv_Accounting evaluation) = 0"
proof -
  obtain us gathered resumed where units: "catalog_ok cat" "built_from us gathered" "\<forall>iu \<in> set us. unit_for cat iu"
    "set (selected_mutants cat (op_ReplayMutantID options)) \<subseteq> fst ` set us"
    "provenance_ok (executable_ids cat (op_ReplayMutantID options)) resumed"
    "state_reuse_ok (se_sha session) (executable_ids cat (op_ReplayMutantID options)) st'"
    "mutation_accounting cat (op_ReplayMutantID options) gathered (es_evidence st') resumed =
       (mv_Accounting evaluation, mv_Mutants evaluation)"
    by (rule evaluate_mutations_units [OF assms(1,2,4,5)])
  from accounting_valid [OF units(1) assms(3) units(2-4) units(6) [unfolded state_reuse_ok_def] units(5,7)]
  show ?thesis by blast
qed

text \<open>A catalog with an executable and a rejected mutant; the only test kills the first.\<close>

definition run_rejection :: rejection where
  "run_rejection = \<lparr>rj_ID = ''m2'', rj_Diagnostic = ''x declared and not used''\<rparr>"

definition run_catalog :: catalog where
  "run_catalog =
     \<lparr>cat_Mutants = [routed_mutant, routed_mutant\<lparr>mu_ID := ''m2'', mu_Accepted := False\<rparr>],
      cat_Rejections = [run_rejection]\<rparr>"

lemma run_catalog_resume:
  "fold (resume_mutant sample_options) (cat_Mutants run_catalog) (resume_start sample_options) =
     (resume_start sample_options)\<lparr>rs_mutants := [routed_mutant]\<rparr>"
  by (simp add: run_catalog_def resume_mutant_def resume_start_def sample_options_def routed_mutant_def Let_def)

lemma resume_sample_rejection:
  "resume_rejection sample_options r (rs, st) =
     (rs\<lparr>rs_present := True, rs_evaluation := append_evaluation (rs_evaluation rs) (rejection_evaluation r)\<rparr>,
      checkpoint_mutation (rj_ID r) (rejection_evaluation r) st)"
  by (simp add: resume_rejection_def sample_options_def Let_def)

lemma run_catalog_returns:
  "\<exists>evaluation. fst (evaluate_mutations (sample_session OutcomeKilled) run_catalog [sample_target ''1'' ''p'' []] sample_options
     (\<lambda>n. rev [0..<n]) sample_state) = Inr evaluation"
proof -
  let ?session = "sample_session OutcomeKilled" and ?targets = "[sample_target ''1'' ''p'' []]"
  let ?st = "checkpoint_mutation (rj_ID run_rejection) (rejection_evaluation run_rejection) sample_state"
  have rejections: "cat_Rejections run_catalog = [run_rejection]" by (simp add: run_catalog_def)
  obtain rs where rs: "fold (resume_rejection sample_options) (cat_Rejections run_catalog)
      ((resume_start sample_options)\<lparr>rs_mutants := [routed_mutant]\<rparr>, sample_state) = (rs, ?st)"
    "rs_mutants rs = [routed_mutant]" "rs_present rs"
    unfolding rejections by (simp add: resume_sample_rejection)
  have "fst (run_seed ?session sample_options ?targets routed_mutant ?st) = Inr (kill_only routed_mutant ''Test1'')"
    by code_simp
  then obtain st' where "run_seed ?session sample_options ?targets routed_mutant ?st = (Inr (kill_only routed_mutant ''Test1''), st')"
    by (metis prod.collapse)
  then have seeds: "evaluate_mutation_seeds ?session sample_options ?targets [routed_mutant] [0] ?st =
     ([Some (Inr (kill_only routed_mutant ''Test1''))], st')"
    by (simp add: evaluate_mutation_seeds_def)
  have valid: "validate_mutation_catalog run_catalog = None" by code_simp
  have order: "rev [0..<length [routed_mutant]] = [0]" by simp
  obtain counts ds where accounting: "mutation_accounting run_catalog (op_ReplayMutantID sample_options)
      (append_evaluation (rs_evaluation rs) (kill_only routed_mutant ''Test1'')) (es_evidence st') (rs_provenance rs) = (counts, ds)"
    by (metis surj_pair)
  show ?thesis
    unfolding evaluate_mutations_def valid option.case run_catalog_resume rs(1) Let_def prod.case rs(2) order seeds
      append_results.simps sum.case accounting
    using rs(3) by simp
qed

theorem evaluate_mutations_audited_witness:
  "\<exists>evaluation. fst (evaluate_mutations (sample_session OutcomeKilled) run_catalog [sample_target ''1'' ''p'' []] sample_options
       (\<lambda>n. rev [0..<n]) sample_state) = Inr evaluation \<and>
     map md_ID (mv_Mutants evaluation) = [''m1'', ''m2''] \<and>
     validate_mutants (mv_Accounting evaluation) (mv_Mutants evaluation) VerdictAssured = None"
proof -
  let ?run = "evaluate_mutations (sample_session OutcomeKilled) run_catalog [sample_target ''1'' ''p'' []] sample_options
       (\<lambda>n. rev [0..<n]) sample_state"
  obtain evaluation where evaluation: "fst ?run = Inr evaluation" using run_catalog_returns by blast
  then have run: "?run = (Inr evaluation, snd ?run)" by (metis prod.collapse)
  have lines: "\<forall>m \<in> set (cat_Mutants run_catalog). 0 \<le> mu_Line m" "map mu_ID (cat_Mutants run_catalog) = [''m1'', ''m2'']"
    by (simp_all add: run_catalog_def routed_mutant_def)
  have resume: "\<forall>iu \<in> set (op_Resume sample_options). unit_for run_catalog iu" by (simp add: sample_options_def)
  have evidence: "state_reuse_ok (se_sha (sample_session OutcomeKilled)) S sample_state" for S
    by (simp add: state_reuse_ok_def sample_state_def)
  have order: "mset (rev [0..<n]) = mset [0..<n]" for n by simp
  from evaluate_mutations_audited [OF run order lines(1) resume evidence] lines(2) evaluation
  show ?thesis by simp
qed

section \<open>What a run checkpoints\<close>

lemma prepare_checkpoints:
  "prepare_mutation_request session options mutant request fk fs tk ts st = (result, st') \<Longrightarrow>
   es_checkpoints st' = es_checkpoints st"
  by (auto simp: prepare_mutation_request_def original_control_def Let_def
      split: option.splits if_split_asm prod.splits sum.splits)

lemma execute_checkpoints:
  assumes "execute_under_measured_budget session options request st = (answer, st')"
  shows "es_checkpoints st' = es_checkpoints st"
proof -
  have one: "es_checkpoints b = es_checkpoints a" if "execute_mutation session options r a = (x, b)" for r a x b
    using that by (auto simp: execute_mutation_def Let_def split: prod.splits)
  have two: "es_checkpoints b = es_checkpoints a" if "containment_after_healthy_control session options r a = (x, b)" for r a x b
    using that by (auto simp: containment_after_healthy_control_def Let_def split: option.splits if_split_asm prod.splits sum.splits)
  obtain reply observation st1 where run: "execute_mutation session options request st = ((reply, observation), st1)"
    by (metis prod.collapse)
  obtain ceiling st2 where again: "containment_after_healthy_control session options request st1 = (ceiling, st2)"
    by (metis prod.collapse)
  from assms run again one [OF run] two [OF again] show ?thesis
    by (auto simp: execute_under_measured_budget_def Let_def dest: one split: sum.splits if_split_asm option.splits)
qed

lemma es_checkpoints_simps [simp]:
  "es_checkpoints (update_evidence f st) = es_checkpoints st"
  "es_checkpoints (trace_route r st) = es_checkpoints st"
  by (simp_all add: update_evidence_def trace_route_def)

lemma ask_checkpoints:
  "ask_kill sha mutant route st = (answer, st') \<Longrightarrow> es_checkpoints st' = es_checkpoints st"
  "ask_verdict sha mutant route st = (verdict, st') \<Longrightarrow> es_checkpoints st' = es_checkpoints st"
  by (auto simp: ask_kill_def ask_verdict_def Let_def split: option.splits prod.splits)

lemma groups_checkpoints:
  "es_checkpoints (snd (evaluate_groups session options mutant route groups executions executed unknown st)) = es_checkpoints st"
proof (induction executions arbitrary: executed unknown st)
  case Nil
  then show ?case by (simp add: settle_groups_def Let_def)
next
  case (Cons execution executions)
  obtain prepared st1 where prep: "prepare_mutation_request session options mutant (sx_request execution)
      ''mutation-control-failure'' s_target_control_failure ''mutation-control-timeout'' s_target_control_timeout st
      = (prepared, st1)" by (metis prod.collapse)
  show ?case
  proof (cases prepared)
    case (Inr pr)
    obtain request finding where pr: "pr = (request, finding)" by (cases pr)
    obtain reply observation st2 where run:
      "execute_under_measured_budget session options request st1 = ((reply, observation), st2)" by (metis prod.collapse)
    show ?thesis
      using prep Inr pr run prepare_checkpoints [OF prep] execute_checkpoints [OF run] Cons.IH
      by (cases "cf_kind finding = []"; cases reply) (auto simp: Let_def split: outcome.split)
  qed (use prep prepare_checkpoints [OF prep] in simp)
qed

lemma suite_checkpoints:
  "es_checkpoints (snd (evaluate_package_suite session options mutant route st)) = es_checkpoints st"
proof -
  obtain prepared st1 where prep: "prepare_mutation_request session options mutant (package_suite_request options mutant route)
      ''mutation-control-failure'' s_suite_control_failure ''mutation-control-timeout'' s_suite_control_timeout st
      = (prepared, st1)" by (metis prod.collapse)
  show ?thesis
  proof (cases prepared)
    case (Inl e)
    with prep prepare_checkpoints [OF prep] show ?thesis by (auto simp: evaluate_package_suite_def split: evaluation_error.split)
  next
    case (Inr pr)
    obtain request finding where pr: "pr = (request, finding)" by (cases pr)
    obtain reply observation st2 where run:
      "execute_under_measured_budget session options request st1 = ((reply, observation), st2)" by (metis prod.collapse)
    show ?thesis
      using prep Inr pr run prepare_checkpoints [OF prep] execute_checkpoints [OF run]
      by (cases "cf_kind finding = []"; cases reply) (auto simp: evaluate_package_suite_def Let_def split: outcome.split)
  qed
qed

lemma seed_checkpoints:
  "es_checkpoints (snd (evaluate_mutation_seed session options targets mutant st)) = es_checkpoints st"
proof -
  let ?route = "seed_route options mutant targets"
  obtain kill s1 where kill: "ask_kill (se_sha session) mutant ?route st = (kill, s1)" by (metis prod.collapse)
  obtain verdict s2 where verdict: "ask_verdict (se_sha session) mutant ?route s1 = (verdict, s2)" by (metis prod.collapse)
  have "es_checkpoints (snd (evaluate_routed session options mutant ?route s2)) = es_checkpoints s2"
    by (simp add: evaluate_routed_def Let_def suite_checkpoints groups_checkpoints)
  then show ?thesis
    using ask_checkpoints(1) [OF kill] ask_checkpoints(2) [OF verdict]
    by (cases kill; cases verdict) (auto simp: evaluate_mutation_seed_def unreached_now_def kill verdict Let_def)
qed

text \<open>Only units are appended to the checkpoints.\<close>

definition writes_units :: "catalog \<Rightarrow> 'w evaluation_state \<Rightarrow> 'w evaluation_state \<Rightarrow> bool" where
  "writes_units cat st st' \<longleftrightarrow>
     (\<exists>cs. es_checkpoints st' = es_checkpoints st @ cs \<and> (\<forall>iu \<in> set cs. unit_for cat iu))"

lemma writes_units_refl [simp]: "writes_units cat st st"
  by (simp add: writes_units_def)

lemma writes_units_trans: "writes_units cat st st' \<Longrightarrow> writes_units cat st' st'' \<Longrightarrow> writes_units cat st st''"
  by (fastforce simp: writes_units_def)

lemma run_seed_writes:
  assumes "catalog_ok cat" "m \<in> set (cat_Mutants cat)" "mu_Accepted m"
  shows "writes_units cat st (snd (run_seed session options targets m st))"
proof -
  obtain result st1 where run: "evaluate_mutation_seed session options targets m st = (result, st1)" by (metis prod.collapse)
  have same: "es_checkpoints st1 = es_checkpoints st"
    using seed_checkpoints [of session options targets m st] by (simp add: run)
  show ?thesis
  proof (cases result)
    case (Inl e)
    with run same show ?thesis by (simp add: run_seed_def writes_units_def)
  next
    case (Inr evaluation)
    then have "unit_for cat (mu_ID m, evaluation)"
      using evaluate_settles [of session options targets m st evaluation] accepted_not_rejected [OF assms] run
      by (simp add: unit_for_def)
    with run same Inr show ?thesis by (simp add: run_seed_def writes_units_def checkpoint_mutation_def)
  qed
qed

lemma seeds_write:
  assumes cat: "catalog_ok cat" "\<forall>m \<in> set ms. m \<in> set (cat_Mutants cat) \<and> mu_Accepted m"
  shows "set order \<subseteq> {..<length ms} \<Longrightarrow>
    writes_units cat st (snd (fold (\<lambda>i (results, st). let (result, st) = run_seed session options targets (ms ! i) st
                                    in (results[i := Some result], st)) order (results, st)))"
proof (induction order arbitrary: results st)
  case Nil
  then show ?case by simp
next
  case (Cons i order)
  obtain result st1 where run: "run_seed session options targets (ms ! i) st = (result, st1)" by (metis prod.collapse)
  have "writes_units cat st st1"
    using run_seed_writes [OF cat(1), of "ms ! i" st session options targets] cat(2) Cons.prems run by simp
  moreover have "set order \<subseteq> {..<length ms}" using Cons.prems by simp
  note Cons.IH [OF this, of st1 "results[i := Some result]"]
  ultimately show ?case using run by (auto intro: writes_units_trans)
qed

lemma rejections_write:
  "set rjs \<subseteq> set (cat_Rejections cat) \<Longrightarrow> writes_units cat st (snd (fold (resume_rejection options) rjs (rs, st)))"
proof (induction rjs arbitrary: rs st)
  case Nil
  then show ?case by simp
next
  case (Cons r rjs)
  obtain rs1 st1 where one: "resume_rejection options r (rs, st) = (rs1, st1)" by (metis prod.collapse)
  have "unit_for cat (rj_ID r, rejection_evaluation r)"
    using Cons.prems by (simp add: unit_for_def rejection_unit_def rejection_evaluation_def empty_evaluation_def)
  then have "writes_units cat st st1"
    using one by (auto simp: resume_rejection_def writes_units_def checkpoint_mutation_def Let_def split: if_split_asm option.splits)
  with Cons.IH [of st1 rs1] Cons.prems one show ?case by (auto intro: writes_units_trans)
qed

lemma resume_run_mutants:
  "set (rs_mutants (fold (resume_mutant options) ms rs)) \<subseteq> set (rs_mutants rs) \<union> {m \<in> set ms. mu_Accepted m}"
proof (induction ms arbitrary: rs)
  case (Cons m ms)
  have "set (rs_mutants (resume_mutant options m rs)) \<subseteq> set (rs_mutants rs) \<union> {n \<in> {m}. mu_Accepted n}"
    by (auto simp: resume_mutant_def Let_def split: option.split if_split_asm)
  with Cons.IH [of "resume_mutant options m rs"] show ?case by auto
qed simp

lemma resume_rejections_mutants:
  "rs_mutants (fst (fold (resume_rejection options) rjs (rs, st))) = rs_mutants rs"
proof (induction rjs arbitrary: rs st)
  case (Cons r rjs)
  have "rs_mutants (fst (resume_rejection options r (rs, st))) = rs_mutants rs"
    by (auto simp: resume_rejection_def Let_def split: option.split)
  with Cons show ?case by (metis fold_simps(2) prod.collapse)
qed simp

text \<open>
  C24. What a run checkpoints a later run may resume: whether the run returns or fails, every
  checkpoint it wrote is a unit of its catalog, a settled answer for an executable mutant or the
  rejection of a rejected one.
\<close>

theorem checkpoints_resumable:
  assumes "evaluate_mutations session cat targets options order st = (result, st')"
    and "\<And>n. set (order n) \<subseteq> {..<n}"
  shows "\<exists>cs. es_checkpoints st' = es_checkpoints st @ cs \<and> (\<forall>iu \<in> set cs. unit_for cat iu)"
proof (cases "validate_mutation_catalog cat")
  case (Some e)
  with assms(1) show ?thesis by (simp add: evaluate_mutations_def)
next
  case None
  then have cat: "catalog_ok cat" by (simp add: validate_catalog_None)
  let ?rs = "fold (resume_mutant options) (cat_Mutants cat) (resume_start options)"
  obtain rs st1 where rejections: "fold (resume_rejection options) (cat_Rejections cat) (?rs, st) = (rs, st1)"
    by (metis prod.collapse)
  obtain results st2 where seeds: "evaluate_mutation_seeds session options targets (rs_mutants rs)
      (order (length (rs_mutants rs))) st1 = (results, st2)" by (metis prod.collapse)
  have one: "writes_units cat st st1" using rejections_write [of "cat_Rejections cat" cat st options ?rs] rejections by simp
  have "\<forall>m \<in> set (rs_mutants rs). m \<in> set (cat_Mutants cat) \<and> mu_Accepted m"
    using resume_run_mutants [of options "cat_Mutants cat" "resume_start options"]
      resume_rejections_mutants [of options "cat_Rejections cat" ?rs st] rejections by (auto simp: resume_start_def)
  from seeds_write [OF cat this assms(2), of st1 session options targets "replicate (length (rs_mutants rs)) None"] seeds
  have "writes_units cat st1 st2" unfolding evaluate_mutation_seeds_def by simp
  with one have "writes_units cat st st2" by (rule writes_units_trans)
  moreover have "st' = st1 \<or> st' = st2"
    using assms(1) by (auto simp: evaluate_mutations_def None rejections seeds Let_def split: if_split_asm sum.splits prod.splits)
  ultimately show ?thesis using one by (auto simp: writes_units_def)
qed

theorem checkpoints_resumable_witness:
  "list_all (unit_for run_catalog) (es_checkpoints (snd (evaluate_mutations (sample_session OutcomeKilled) run_catalog
       [sample_target ''1'' ''p'' []] sample_options (\<lambda>n. rev [0..<n]) sample_state)))"
proof -
  let ?run = "evaluate_mutations (sample_session OutcomeKilled) run_catalog [sample_target ''1'' ''p'' []] sample_options
       (\<lambda>n. rev [0..<n]) sample_state"
  have "set (rev [0..<n]) \<subseteq> {..<n}" for n by auto
  from checkpoints_resumable [OF prod.collapse [symmetric] this, of "sample_session OutcomeKilled" run_catalog
      "[sample_target ''1'' ''p'' []]" sample_options sample_state]
  show ?thesis by (auto simp: sample_state_def list_all_iff)
qed

end
