(* ===== verification/RunCheckpoint.thy ===== *)
theory RunCheckpoint
  imports ProbeRestore JournalRecovery MutationRun
begin

text \<open>
  The checkpoint of a run as it proceeds (\<open>internal/assure/resume.go\<close>): what is taken over from
  an interrupted run, and what is saved after each step. The controller works on an interface,
  \<open>runCache\<close>, whose state is the world \<open>'w\<close>; the cache may also take single units into a
  journal. A \<open>nil\<close> controller does nothing and is not modelled beyond \<open>open_run_checkpoint\<close>.
  Equality of two slices by \<open>reflect.DeepEqual\<close> is equality of lists: where the source tells
  a \<open>nil\<close> slice from an empty one it writes the whole checkpoint instead of the new units.
\<close>

section \<open>The cache and the controller\<close>

record 'w run_cache =
  rc_get :: "string \<Rightarrow> 'w \<Rightarrow> (cache_error + checkpoint_state option) \<times> 'w"
  rc_put :: "string \<Rightarrow> checkpoint_state \<Rightarrow> 'w \<Rightarrow> cache_error option \<times> 'w"
  rc_delete :: "string \<Rightarrow> 'w \<Rightarrow> cache_error option \<times> 'w"
  rc_journal :: "(string \<Rightarrow> journal_unit \<Rightarrow> 'w \<Rightarrow> cache_error option \<times> 'w) option"

datatype checkpoint_warning =
    StartingCold cache_error
  | BaselineChanged
  | RaceChanged
  | CatalogChanged
  | CatalogEntryGone
  | ProbeChanged
  | DisablingWrites cache_error
  | DiscardFailed cache_error

record run_checkpoint =
  rk_digest :: string
  rk_state :: checkpoint_state
  rk_enabled :: bool
  rk_claimed :: bool
  rk_reusedTargets :: int
  rk_reusedRace :: int
  rk_reusedMutants :: int
  rk_warnings :: "checkpoint_warning list"

definition warn :: "checkpoint_warning \<Rightarrow> run_checkpoint \<Rightarrow> run_checkpoint" where
  "warn warning c = c\<lparr>rk_warnings := rk_warnings c @ [warning]\<rparr>"

definition empty_baseline :: baseline_state where
  "empty_baseline = \<lparr>bl_BuildVetComplete = False, bl_Complete = False, bl_Evidence = [], bl_Findings = [],
     bl_Targets = [], bl_Suites = [], bl_Routing = None\<rparr>"

definition fresh_checkpoint :: "string \<Rightarrow> checkpoint_state" where
  "fresh_checkpoint digest = \<lparr>ck_Schema = checkpoint_schema_v1, ck_InputDigest = digest, ck_Attempts = 1,
     ck_Baseline = empty_baseline, ck_Race = None, ck_Mutation = None\<rparr>"

definition disable_checkpoint :: "'w run_cache \<Rightarrow> cache_error \<Rightarrow> run_checkpoint \<times> 'w \<Rightarrow> run_checkpoint \<times> 'w" where
  "disable_checkpoint store e cw =
     (let (c, w) = cw;
          (_, w) = rc_delete store (rk_digest c) w
      in ((warn (DisablingWrites e) c)\<lparr>rk_enabled := False\<rparr>, w))"

definition persist :: "'w run_cache \<Rightarrow> run_checkpoint \<times> 'w \<Rightarrow> run_checkpoint \<times> 'w" where
  "persist store cw =
     (let (c, w) = cw in
      if \<not> rk_enabled c then (c, w)
      else case rc_put store (rk_digest c) (rk_state c) w of
             (None, w) \<Rightarrow> (c, w)
           | (Some e, w) \<Rightarrow> disable_checkpoint store e (c, w))"

definition open_run_checkpoint ::
  "'w run_cache option \<Rightarrow> string \<Rightarrow> bool \<Rightarrow> 'w \<Rightarrow> run_checkpoint option \<times> 'w" where
  "open_run_checkpoint cache digest enabled w =
     (case cache of
        None \<Rightarrow> (None, w)
      | Some store \<Rightarrow>
          if \<not> enabled then (None, w)
          else
            let (found, w) = rc_get store digest w;
                (warnings, state, w) =
                  (case found of
                     Inl e \<Rightarrow> let (_, w) = rc_delete store digest w in ([StartingCold e], fresh_checkpoint digest, w)
                   | Inr None \<Rightarrow> ([], fresh_checkpoint digest, w)
                   | Inr (Some st) \<Rightarrow> ([], st\<lparr>ck_Attempts := ck_Attempts st + 1\<rparr>, w));
                c = \<lparr>rk_digest = digest, rk_state = state, rk_enabled = True, rk_claimed = False,
                     rk_reusedTargets = 0, rk_reusedRace = 0, rk_reusedMutants = 0, rk_warnings = warnings\<rparr>
            in case rc_put store digest state w of
                 (None, w) \<Rightarrow> (Some (c\<lparr>rk_claimed := True\<rparr>), w)
               | (Some e, w) \<Rightarrow>
                   let (_, w) = rc_delete store digest w
                   in (Some ((warn (StartingCold e) c)\<lparr>rk_enabled := False\<rparr>), w))"

section \<open>The baseline\<close>

definition unit_matches :: "target list \<Rightarrow> baseline_target \<Rightarrow> bool" where
  "unit_matches targets unit =
     (case map_of (rev (map (\<lambda>t. (t_ID t, t)) targets)) (bt_ID unit) of
        None \<Rightarrow> False
      | Some t \<Rightarrow>
          let inventory = bt_Inventory unit in
          td_Name inventory = t_Name t \<and> td_Kind inventory = t_Kind t \<and> td_Package inventory = t_Package t \<and>
          td_Path inventory = t_Path t \<and> td_Line inventory = max (t_Line t) 0 \<and>
          (case bt_Target unit of
             None \<Rightarrow> True
           | Some saved \<Rightarrow> kt_ID (ke_Target saved) = t_ID t \<and> kt_Path (ke_Target saved) = t_Path t \<and>
                          kt_Package (ke_Target saved) = t_Package t))"

definition baseline_matches :: "target list \<Rightarrow> baseline_state \<Rightarrow> bool" where
  "baseline_matches targets b \<longleftrightarrow>
     list_all (unit_matches targets) (bl_Targets b) \<and>
     \<not> (bl_Complete b \<and> length (bl_Targets b) \<noteq> length targets) \<and>
     list_all (\<lambda>suite. bs_Package suite \<in> t_Package ` set targets) (bl_Suites b)"

definition rk_baseline ::
  "'w run_cache \<Rightarrow> target list \<Rightarrow> run_checkpoint \<times> 'w \<Rightarrow> baseline_state option \<times> run_checkpoint \<times> 'w" where
  "rk_baseline store targets cw =
     (let (c, w) = cw; b = ck_Baseline (rk_state c) in
      if \<not> rk_enabled c then (None, c, w)
      else if \<not> baseline_matches targets b then
        let c = (warn BaselineChanged c)\<lparr>rk_state := (rk_state c)\<lparr>ck_Baseline := empty_baseline, ck_Race := None, ck_Mutation := None\<rparr>\<rparr>
        in (None, persist store (c, w))
      else if \<not> bl_BuildVetComplete b \<and> bl_Targets b = [] then (None, c, w)
      else (Some b, c\<lparr>rk_reusedTargets := int (length (bl_Targets b))\<rparr>, w))"

text \<open>
  The entries of \<open>next\<close> that \<open>previous\<close> does not hold, when it holds the others as they are.
  \<open>saved\<close> is the map \<open>before\<close>.
\<close>

fun suffix_loop :: "('a \<Rightarrow> string) \<Rightarrow> (string \<times> 'a) list \<Rightarrow> string list \<Rightarrow> 'a list \<Rightarrow> 'a list option" where
  "suffix_loop key saved seen [] = Some []"
| "suffix_loop key saved seen (unit # units) =
     (if key unit \<in> set seen then None
      else case map_of saved (key unit) of
        Some old \<Rightarrow> if old \<noteq> unit then None else suffix_loop key saved (key unit # seen) units
      | None \<Rightarrow> map_option (\<lambda>suffix. unit # suffix) (suffix_loop key saved (key unit # seen) units))"

definition journal_suffix :: "('a \<Rightarrow> string) \<Rightarrow> 'a list \<Rightarrow> 'a list \<Rightarrow> 'a list option" where
  "journal_suffix key previous next =
     (if length next \<le> length previous \<or> \<not> distinct (map key previous) then None
      else case suffix_loop key (map (\<lambda>unit. (key unit, unit)) previous) [] next of
        None \<Rightarrow> None
      | Some suffix \<Rightarrow>
          if length next \<noteq> length previous + length suffix then None
          else Some (sort_by key suffix))"

definition baseline_checkpoint_journal_suffix :: "baseline_state \<Rightarrow> baseline_state \<Rightarrow> baseline_target list option" where
  "baseline_checkpoint_journal_suffix previous next =
     (if \<not> bl_BuildVetComplete previous \<or> \<not> bl_BuildVetComplete next \<or> bl_Complete previous \<or> bl_Complete next \<or>
         bl_Evidence previous \<noteq> bl_Evidence next \<or> bl_Findings previous \<noteq> bl_Findings next \<or>
         bl_Suites previous \<noteq> bl_Suites next
      then None else journal_suffix bt_ID (bl_Targets previous) (bl_Targets next))"

definition baseline_suite_checkpoint_journal_suffix :: "baseline_state \<Rightarrow> baseline_state \<Rightarrow> baseline_suite list option" where
  "baseline_suite_checkpoint_journal_suffix previous next =
     (if \<not> bl_BuildVetComplete previous \<or> \<not> bl_BuildVetComplete next \<or> bl_Complete previous \<or> bl_Complete next \<or>
         bl_Evidence previous \<noteq> bl_Evidence next \<or> bl_Findings previous \<noteq> bl_Findings next \<or>
         bl_Targets previous \<noteq> bl_Targets next
      then None else journal_suffix bs_Package (bl_Suites previous) (bl_Suites next))"

text \<open>The loop that appends the units one by one, up to the first error.\<close>

fun append_units ::
  "'w run_cache \<Rightarrow> (string \<Rightarrow> journal_unit \<Rightarrow> 'w \<Rightarrow> cache_error option \<times> 'w) \<Rightarrow> journal_unit list \<Rightarrow>
   run_checkpoint \<times> 'w \<Rightarrow> run_checkpoint \<times> 'w" where
  "append_units store journal [] cw = cw"
| "append_units store journal (unit # units) (c, w) =
     (case journal (rk_digest c) unit w of
        (Some e, w) \<Rightarrow> disable_checkpoint store e (c, w)
      | (None, w) \<Rightarrow> append_units store journal units (c, w))"

definition sort_baseline :: "baseline_state \<Rightarrow> baseline_state" where
  "sort_baseline b = b\<lparr>bl_Targets := sort_by bt_ID (bl_Targets b), bl_Suites := sort_by bs_Package (bl_Suites b)\<rparr>"

definition rk_save_baseline ::
  "'w run_cache \<Rightarrow> baseline_state \<Rightarrow> run_checkpoint \<times> 'w \<Rightarrow> run_checkpoint \<times> 'w" where
  "rk_save_baseline store next cw =
     (let (c, w) = cw in
      if \<not> rk_enabled c then (c, w)
      else
        let next = sort_baseline next;
            previous = ck_Baseline (rk_state c);
            c = c\<lparr>rk_state := (rk_state c)\<lparr>ck_Baseline := next\<rparr>\<rparr>
        in case rc_journal store of
             None \<Rightarrow> persist store (c, w)
           | Some journal \<Rightarrow>
               (case baseline_checkpoint_journal_suffix previous next of
                  Some suffix \<Rightarrow> append_units store journal (map TargetUnit suffix) (c, w)
                | None \<Rightarrow>
                    (case baseline_suite_checkpoint_journal_suffix previous next of
                       Some suffix \<Rightarrow> append_units store journal (map SuiteUnit suffix) (c, w)
                     | None \<Rightarrow> persist store (c, w))))"

section \<open>The race run\<close>

definition rk_race ::
  "'w run_cache \<Rightarrow> string list \<Rightarrow> run_checkpoint \<times> 'w \<Rightarrow> race_state option \<times> run_checkpoint \<times> 'w" where
  "rk_race store packages cw =
     (let (c, w) = cw in
      if \<not> rk_enabled c then (None, c, w)
      else case ck_Race (rk_state c) of
        None \<Rightarrow> (None, c, w)
      | Some saved \<Rightarrow>
          if \<not> ra_Complete saved then (None, c, w)
          else if sort_slice (ra_Packages saved) \<noteq> sort_slice packages then
            let c = (warn RaceChanged c)\<lparr>rk_state := (rk_state c)\<lparr>ck_Race := None, ck_Mutation := None\<rparr>\<rparr>
            in (None, persist store (c, w))
          else (Some saved, c\<lparr>rk_reusedRace := int (length packages)\<rparr>, w))"

definition rk_save_race ::
  "'w run_cache \<Rightarrow> string list \<Rightarrow> evidence list \<Rightarrow> finding list \<Rightarrow> run_checkpoint \<times> 'w \<Rightarrow> run_checkpoint \<times> 'w" where
  "rk_save_race store packages race_evidence findings cw =
     (let (c, w) = cw in
      if \<not> rk_enabled c then (c, w)
      else persist store (c\<lparr>rk_state := (rk_state c)\<lparr>ck_Race :=
             Some \<lparr>ra_Complete = True, ra_Packages = packages, ra_Evidence = race_evidence, ra_Findings = findings\<rparr>\<rparr>\<rparr>, w))"

section \<open>The mutation phase\<close>

definition new_mutation_state :: "string \<Rightarrow> mutation_state" where
  "new_mutation_state fingerprint = \<lparr>mn_CatalogFingerprint = fingerprint, mn_Complete = False, mn_Probe = None, mn_Results = []\<rparr>"

definition set_mutation :: "mutation_state \<Rightarrow> run_checkpoint \<Rightarrow> run_checkpoint" where
  "set_mutation m c = c\<lparr>rk_state := (rk_state c)\<lparr>ck_Mutation := Some m\<rparr>\<rparr>"

definition saved_evaluation :: "mutation_unit \<Rightarrow> mutation_evaluation" where
  "saved_evaluation saved = empty_evaluation\<lparr>mv_Evidence := mx_Evidence saved, mv_Findings := mx_Findings saved,
     mv_Provenance := mx_Provenance saved\<rparr>"

definition rk_mutation ::
  "'w run_cache \<Rightarrow> (string \<Rightarrow> string) \<Rightarrow> catalog \<Rightarrow> run_checkpoint \<times> 'w \<Rightarrow>
   (string \<times> mutation_evaluation) list option \<times> run_checkpoint \<times> 'w" where
  "rk_mutation store sha cat cw =
     (let (c, w) = cw; fingerprint = mutation_catalog_fingerprint sha cat in
      if \<not> rk_enabled c then (None, c, w)
      else case ck_Mutation (rk_state c) of
        None \<Rightarrow> (None, persist store (set_mutation (new_mutation_state fingerprint) c, w))
      | Some m \<Rightarrow>
          if mn_CatalogFingerprint m \<noteq> fingerprint then
            (None, persist store (set_mutation (new_mutation_state fingerprint) (warn CatalogChanged c), w))
          else if list_ex (\<lambda>saved. mx_ID saved \<notin> mu_ID ` set (cat_Mutants cat)) (mn_Results m) then
            (None, persist store (set_mutation (new_mutation_state fingerprint) (warn CatalogEntryGone c), w))
          else
            let result = fold (\<lambda>saved result. AList.update (mx_ID saved) (saved_evaluation saved) result) (mn_Results m) []
            in (Some result, c\<lparr>rk_reusedMutants := int (length result)\<rparr>, w))"

text \<open>The result, whether it was reused, and whether the saved mutation work is still valid.\<close>

definition rk_probe ::
  "'w run_cache \<Rightarrow> (string \<Rightarrow> string) \<Rightarrow> catalog \<Rightarrow> target_evidence list \<Rightarrow> string list \<Rightarrow> run_checkpoint \<times> 'w \<Rightarrow>
   (probe_evaluation option \<times> bool \<times> bool) \<times> run_checkpoint \<times> 'w" where
  "rk_probe store sha cat targets packages cw =
     (let (c, w) = cw in
      if \<not> rk_enabled c then ((None, False, True), c, w)
      else case ck_Mutation (rk_state c) of
        None \<Rightarrow> ((None, False, True), c, w)
      | Some m \<Rightarrow>
          (case mn_Probe m of
             None \<Rightarrow> ((None, False, True), c, w)
           | Some saved \<Rightarrow>
               (case restore_mutation_probe sha cat targets packages saved of
                  Some restored \<Rightarrow> ((Some restored, True, True), c, w)
                | None \<Rightarrow>
                    let c = (set_mutation (new_mutation_state (mutation_catalog_fingerprint sha cat)) (warn ProbeChanged c))
                              \<lparr>rk_reusedMutants := 0\<rparr>
                    in ((None, False, False), persist store (c, w)))))"

definition rk_save_probe ::
  "'w run_cache \<Rightarrow> (string \<Rightarrow> string) \<Rightarrow> catalog \<Rightarrow> probe_evaluation \<Rightarrow> run_checkpoint \<times> 'w \<Rightarrow> run_checkpoint \<times> 'w" where
  "rk_save_probe store sha cat evaluation cw =
     (let (c, w) = cw in
      case ck_Mutation (rk_state c) of
        None \<Rightarrow> (c, w)
      | Some m \<Rightarrow>
          if \<not> rk_enabled c \<or> mn_CatalogFingerprint m \<noteq> mutation_catalog_fingerprint sha cat then (c, w)
          else persist store (set_mutation (m\<lparr>mn_Probe := Some (checkpoint_mutation_probe sha cat evaluation)\<rparr>) c, w))"

text \<open>The first saved result with the identifier is replaced; a new one is appended.\<close>

fun replace_result :: "mutation_unit \<Rightarrow> mutation_unit list \<Rightarrow> mutation_unit list" where
  "replace_result unit [] = [unit]"
| "replace_result unit (saved # results) =
     (if mx_ID saved = mx_ID unit then unit # results else saved # replace_result unit results)"

definition rk_save_mutant ::
  "'w run_cache \<Rightarrow> string \<Rightarrow> mutation_evaluation \<Rightarrow> run_checkpoint \<times> 'w \<Rightarrow> run_checkpoint \<times> 'w" where
  "rk_save_mutant store i evaluation cw =
     (let (c, w) = cw in
      case ck_Mutation (rk_state c) of
        None \<Rightarrow> (c, w)
      | Some m \<Rightarrow>
          if \<not> rk_enabled c then (c, w)
          else
            let unit = \<lparr>mx_ID = i, mx_Evidence = mv_Evidence evaluation, mx_Findings = mv_Findings evaluation,
                        mx_Provenance = mv_Provenance evaluation\<rparr>;
                c = set_mutation (m\<lparr>mn_Results := replace_result unit (mn_Results m)\<rparr>) c
            in case rc_journal store of
                 Some journal \<Rightarrow> append_units store journal [MutantUnit unit] (c, w)
               | None \<Rightarrow> persist store (c, w))"

definition rk_complete_mutation :: "'w run_cache \<Rightarrow> run_checkpoint \<times> 'w \<Rightarrow> run_checkpoint \<times> 'w" where
  "rk_complete_mutation store cw =
     (let (c, w) = cw in
      case ck_Mutation (rk_state c) of
        None \<Rightarrow> (c, w)
      | Some m \<Rightarrow>
          if \<not> rk_enabled c then (c, w)
          else persist store (set_mutation (m\<lparr>mn_Results := sort_by mx_ID (mn_Results m), mn_Complete := True\<rparr>) c, w))"

definition rk_resume_metadata :: "run_checkpoint \<Rightarrow> resume option" where
  "rk_resume_metadata c =
     (if \<not> rk_claimed c then None
      else Some \<lparr>Attempts = ck_Attempts (rk_state c), ReusedTargets = rk_reusedTargets c,
                 ReusedRacePackages = rk_reusedRace c, ReusedMutants = rk_reusedMutants c\<rparr>)"

definition rk_discard :: "'w run_cache \<Rightarrow> run_checkpoint \<times> 'w \<Rightarrow> run_checkpoint \<times> 'w" where
  "rk_discard store cw =
     (let (c, w) = cw;
          (failed, w) = rc_delete store (rk_digest c) w;
          c = c\<lparr>rk_enabled := False\<rparr>
      in (case failed of None \<Rightarrow> c | Some e \<Rightarrow> warn (DiscardFailed e) c, w))"

end
