(* ===== verification/CheckpointRefinement.thy ===== *)
theory CheckpointRefinement
  imports RunCheckpoint
begin

text \<open>
  What the cache holds follows what the run holds. The contract of the cache is the locale
  \<open>checkpoint_store\<close>: what a successful write or append leaves to be read. The controller keeps it
  whatever it does (proved in the locale), and the files of the cache provide it.
\<close>

section \<open>The units that are new\<close>

lemma suffix_loop_Some:
  assumes "suffix_loop key saved seen units = Some suffix"
  shows "distinct (map key units) \<and> set (map key units) \<inter> set seen = {} \<and>
    suffix = filter (\<lambda>u. map_of saved (key u) = None) units \<and>
    (\<forall>u \<in> set units. \<forall>old. map_of saved (key u) = Some old \<longrightarrow> old = u)"
  using assms
proof (induction units arbitrary: seen suffix)
  case (Cons u units)
  then have fresh: "key u \<notin> set seen" by (auto split: if_split_asm)
  show ?case
  proof (cases "map_of saved (key u)")
    case None
    with Cons.prems fresh obtain rest where "suffix_loop key saved (key u # seen) units = Some rest" "suffix = u # rest" by auto
    with Cons.IH [OF this(1)] fresh None show ?thesis by auto
  next
    case (Some old)
    with Cons.prems fresh have "suffix_loop key saved (key u # seen) units = Some suffix" "old = u" by (auto split: if_split_asm)
    with Cons.IH [OF this(1)] fresh Some show ?thesis by auto
  qed
qed simp

lemma journal_suffix_Some:
  assumes "journal_suffix key previous next = Some suffix"
  shows "mset next = mset (previous @ suffix)" "distinct (map key next)"
proof -
  let ?saved = "map (\<lambda>unit. (key unit, unit)) previous"
  obtain raw where loop: "suffix_loop key ?saved [] next = Some raw" and suffix: "suffix = sort_by key raw"
    and size: "length next = length previous + length raw" and keys: "distinct (map key previous)"
    using assms by (auto simp: journal_suffix_def split: if_split_asm option.split_asm)
  note parts = suffix_loop_Some [OF loop]
  show ids: "distinct (map key next)" using parts by blast
  let ?old = "filter (\<lambda>u. map_of ?saved (key u) \<noteq> None) next"
  have same: "u \<in> set previous" if "u \<in> set ?old" for u
  proof -
    from that obtain old where "u \<in> set next" "map_of ?saved (key u) = Some old" by auto
    with parts have "map_of ?saved (key u) = Some u" by blast
    then show ?thesis using map_of_SomeD by fastforce
  qed
  have "length ?old + length raw = length next" using parts sum_length_filter_compl [of "\<lambda>u. map_of ?saved (key u) \<noteq> None" "next"] by simp
  then have sizes: "length ?old = length previous" using size by simp
  have once: "distinct ?old" "distinct previous" using ids keys by (auto simp: distinct_map)
  have sub: "set ?old \<subseteq> set previous" using same by blast
  have "card (set ?old) = card (set previous)" unfolding distinct_card [OF once(1)] distinct_card [OF once(2)] by (rule sizes)
  with sub have "set ?old = set previous" by (intro card_subset_eq finite_set)
  then have "mset ?old = mset previous" using set_eq_iff_mset_eq_distinct [OF once] by (rule iffD1 [rotated])
  moreover have "mset next = mset ?old + mset raw"
    using parts multiset_partition [of "mset next" "\<lambda>u. map_of ?saved (key u) \<noteq> None"] by simp
  ultimately show "mset next = mset (previous @ suffix)" unfolding suffix mset_append mset_sort_func by metis
qed

section \<open>States with the same canonical form\<close>

lemma canonical_fields:
  assumes "canonical_checkpoint s = canonical_checkpoint t"
  shows "unit_keys s = unit_keys t" "ck_InputDigest s = ck_InputDigest t"
  using assms canonical_keys [of s] canonical_keys [of t] canonical_checkpoint_parts(2) [of s] canonical_checkpoint_parts(2) [of t]
  by simp_all

lemma units_append:
  "ck_Baseline (fold add_unit (map TargetUnit us) st) = (ck_Baseline st)\<lparr>bl_Targets := bl_Targets (ck_Baseline st) @ us\<rparr>"
  "ck_Baseline (fold add_unit (map SuiteUnit vs) st) = (ck_Baseline st)\<lparr>bl_Suites := bl_Suites (ck_Baseline st) @ vs\<rparr>"
proof -
  have lists: "targets_of (map TargetUnit us) = us" "suites_of (map TargetUnit us) = []" "targets_of (map SuiteUnit vs) = []" "suites_of (map SuiteUnit vs) = vs"
    by (induction us, simp_all) (induction vs, simp_all)+
  show "ck_Baseline (fold add_unit (map TargetUnit us) st) = (ck_Baseline st)\<lparr>bl_Targets := bl_Targets (ck_Baseline st) @ us\<rparr>"
    "ck_Baseline (fold add_unit (map SuiteUnit vs) st) = (ck_Baseline st)\<lparr>bl_Suites := bl_Suites (ck_Baseline st) @ vs\<rparr>"
    by (simp_all add: fold_add_unit lists)
qed

lemma baseline_units_other:
  assumes "\<forall>u \<in> set us. case u of MutantUnit _ \<Rightarrow> False | _ \<Rightarrow> True"
  shows "ck_Mutation (fold add_unit us st) = ck_Mutation st" "ck_Race (fold add_unit us st) = ck_Race st"
proof -
  have "results_of us = []" using assms by (induction us rule: results_of.induct) auto
  then show "ck_Mutation (fold add_unit us st) = ck_Mutation st" "ck_Race (fold add_unit us st) = ck_Race st"
    by (simp_all add: fold_add_unit same_mutation option.map_ident)
qed

text \<open>
  \<open>agrees\<close> keeps the two sides of the check of the routing apart, which simplification would
  put for each other.
\<close>

definition agrees :: "bool \<Rightarrow> bool \<Rightarrow> bool" where
  "agrees a b \<longleftrightarrow> a = b"

lemma validate_parts:
  "validate_checkpoint st = None \<longleftrightarrow>
     ck_Schema st = checkpoint_schema_v1 \<and> valid_sha256 (ck_InputDigest st) \<and> \<not> ck_Attempts st < 1 \<and>
     validate_baseline_targets (bl_Complete (ck_Baseline st)) [] [] (bl_Targets (ck_Baseline st)) = None \<and>
     validate_each partial_suite_error bs_Package PartialSuiteDuplicate partial_suite_coverage_error []
       (bl_Suites (ck_Baseline st)) = None \<and>
     \<not> (bl_Complete (ck_Baseline st) \<and> bl_Suites (ck_Baseline st) \<noteq> []) \<and>
     agrees (bl_Complete (ck_Baseline st)) (bl_Routing (ck_Baseline st) \<noteq> None) \<and>
     validate_routing (bl_Routing (ck_Baseline st)) = None \<and>
     validate_race (ck_Race st) = None \<and> validate_mutation_state (ck_Mutation st) = None"
  unfolding validate_checkpoint_None agrees_def ..

text \<open>A unit can be left out of a valid state, and a state replaced by one of the same canonical form.\<close>

lemma valid_unappend:
  assumes "validate_checkpoint (add_unit u st) = None"
  shows "validate_checkpoint st = None"
proof (cases u)
  case (TargetUnit unit)
  have "validate_baseline_targets c [] [] (us @ [unit]) = None \<Longrightarrow> validate_baseline_targets c [] [] us = None" for c us
    by (auto simp: validate_baseline_targets_None instrumented_packages_def)
  from this [of "bl_Complete (ck_Baseline st)" "bl_Targets (ck_Baseline st)"] assms show ?thesis
    by (simp add: validate_parts TargetUnit)
next
  case (SuiteUnit unit)
  with assms show ?thesis by (auto simp: validate_parts validate_each_None)
next
  case (MutantUnit unit)
  with assms show ?thesis
    by (cases "ck_Mutation st") (auto simp: validate_parts validate_mutation_state_def validate_each_None err_simps)
qed

lemma same_packages:
  assumes "map canonical_unit (sort_by bt_ID us) = map canonical_unit (sort_by bt_ID vs)"
    and "\<forall>u \<in> set us. good_target_unit u" "\<forall>u \<in> set vs. good_target_unit u"
  shows "mset (instrumented_packages us) = mset (instrumented_packages vs)"
proof -
  have plain: "map instrumented_package (sort_by bt_ID ws) = map instrumented_package (map canonical_unit (sort_by bt_ID ws))"
    if "\<forall>u \<in> set ws. good_target_unit u" for ws using that canonical_unit_good(2) by simp
  have "map instrumented_package (sort_by bt_ID us) = map instrumented_package (sort_by bt_ID vs)"
    using plain [OF assms(2)] plain [OF assms(3)] assms(1) by simp
  then have "mset (map instrumented_package us) = mset (map instrumented_package vs)" by (metis mset_map mset_sort_func)
  then show ?thesis unfolding instrumented_packages_def by (rule mset_concat_perm)
qed

lemma valid_add_same:
  assumes same: "canonical_checkpoint s = canonical_checkpoint t" and valid: "validate_checkpoint s = None"
    "validate_checkpoint (add_unit u t) = None"
  shows "validate_checkpoint (add_unit u s) = None"
proof -
  have t: "validate_checkpoint t = None" using valid(2) by (rule valid_unappend)
  have b: "canonical_baseline (ck_Baseline s) = canonical_baseline (ck_Baseline t)"
    and m: "map_option canonical_mutation (ck_Mutation s) = map_option canonical_mutation (ck_Mutation t)"
    using same canonical_checkpoint_parts(4,6) by metis+
  have complete: "bl_Complete (ck_Baseline s) = bl_Complete (ck_Baseline t)"
    and targets: "map canonical_unit (sort_by bt_ID (bl_Targets (ck_Baseline s))) = map canonical_unit (sort_by bt_ID (bl_Targets (ck_Baseline t)))"
    using b canonical_baseline_parts(1,2) by metis+
  note keys = canonical_fields(1) [OF same, unfolded unit_keys_def]
  show ?thesis
  proof (cases u)
    case (TargetUnit unit)
    have "mset (instrumented_packages (bl_Targets (ck_Baseline s))) = mset (instrumented_packages (bl_Targets (ck_Baseline t)))"
      using valid(1) t by (intro same_packages [OF targets]) (simp_all add: validate_parts validate_baseline_targets_None)
    then have packages: "mset (instrumented_packages (bl_Targets (ck_Baseline s) @ [unit])) = mset (instrumented_packages (bl_Targets (ck_Baseline t) @ [unit]))"
      by (simp add: instrumented_packages_def)
    then have "distinct (instrumented_packages (bl_Targets (ck_Baseline s) @ [unit])) = distinct (instrumented_packages (bl_Targets (ck_Baseline t) @ [unit]))"
      "(instrumented_packages (bl_Targets (ck_Baseline s) @ [unit]) = []) = (instrumented_packages (bl_Targets (ck_Baseline t) @ [unit]) = [])"
      using mset_eq_imp_distinct_iff [OF packages] by auto
    moreover have "bt_ID unit \<notin> bt_ID ` set (bl_Targets (ck_Baseline s)) \<longleftrightarrow> bt_ID unit \<notin> bt_ID ` set (bl_Targets (ck_Baseline t))"
      using keys by simp
    ultimately have "validate_baseline_targets (bl_Complete (ck_Baseline s)) [] [] (bl_Targets (ck_Baseline s) @ [unit]) = None"
      using valid t TargetUnit complete by (auto simp: validate_parts validate_baseline_targets_None)
    with valid(1) show ?thesis by (simp add: validate_parts TargetUnit)
  next
    case (SuiteUnit unit)
    have "bs_Package unit \<notin> bs_Package ` set (bl_Suites (ck_Baseline s)) \<longleftrightarrow> bs_Package unit \<notin> bs_Package ` set (bl_Suites (ck_Baseline t))"
      using keys by simp
    with valid SuiteUnit complete show ?thesis by (auto simp: validate_parts validate_each_None)
  next
    case (MutantUnit unit)
    show ?thesis
    proof (cases "ck_Mutation s")
      case None
      with valid(1) MutantUnit show ?thesis by (simp add: validate_parts)
    next
      case (Some ms)
      with m obtain mt where mt: "ck_Mutation t = Some mt" by (cases "ck_Mutation t") auto
      have "mx_ID unit \<notin> mx_ID ` set (mn_Results ms) \<longleftrightarrow> mx_ID unit \<notin> mx_ID ` set (mn_Results mt)"
        using keys Some mt by simp
      with valid MutantUnit Some mt show ?thesis
        by (auto simp: validate_parts validate_mutation_state_def validate_each_None err_simps)
    qed
  qed
qed

lemma valid_prefix: "validate_checkpoint (fold add_unit us st) = None \<Longrightarrow> validate_checkpoint st = None"
proof (induction us arbitrary: st)
  case (Cons u us)
  then show ?case using valid_unappend [of u st] by simp
qed simp

lemma validate_targets_perm:
  assumes "validate_baseline_targets complete [] [] us = None" "mset vs = mset us"
  shows "validate_baseline_targets complete [] [] vs = None"
proof -
  have "set vs = set us" using assms(2) by (metis set_mset_mset)
  moreover have ids: "mset (map bt_ID vs) = mset (map bt_ID us)" using assms(2) by (metis mset_map)
  have "mset (map instrumented_package vs) = mset (map instrumented_package us)" using assms(2) by (metis mset_map)
  then have packages: "mset (instrumented_packages vs) = mset (instrumented_packages us)"
    unfolding instrumented_packages_def by (rule mset_concat_perm)
  moreover have "(instrumented_packages vs = []) = (instrumented_packages us = [])" using packages by auto
  ultimately show ?thesis
    using assms(1) mset_eq_imp_distinct_iff [OF ids] mset_eq_imp_distinct_iff [OF packages]
    by (auto simp: validate_baseline_targets_None)
qed

lemma validate_each_perm:
  assumes "validate_each before key twice after [] us = None" "mset vs = mset us"
  shows "validate_each before key twice after [] vs = None"
proof -
  have "set vs = set us" using assms(2) by (metis set_mset_mset)
  moreover have ids: "mset (map key vs) = mset (map key us)" using assms(2) by (metis mset_map)
  ultimately show ?thesis using assms(1) mset_eq_imp_distinct_iff [OF ids] by (simp add: validate_each_None)
qed

text \<open>Adding a new unit to states of one canonical form gives states of one canonical form.\<close>

lemma sort_by_same_append:
  assumes "sort_by key (map f xs) = sort_by key (map f ys)" "\<And>x. key (f x) = key x" "distinct (map key (xs @ zs))"
  shows "sort_by key (map f (xs @ zs)) = sort_by key (map f (ys @ zs))"
proof (rule sort_by_perm)
  have "mset (map f xs) = mset (map f ys)" using assms(1) by (metis mset_sort_func)
  then show "mset (map f (xs @ zs)) = mset (map f (ys @ zs))" by (simp only: map_append mset_append)
  show "distinct (map key (map f (xs @ zs)))" using assms(2,3) by (simp add: comp_def)
qed

lemma canonical_baseline_eqD:
  assumes "canonical_baseline b = canonical_baseline b'"
  shows "bl_BuildVetComplete b = bl_BuildVetComplete b'" "bl_Complete b = bl_Complete b'" "bl_Evidence b = bl_Evidence b'"
    "bl_Findings b = bl_Findings b'" "map canonical_unit (sort_by bt_ID (bl_Targets b)) = map canonical_unit (sort_by bt_ID (bl_Targets b'))"
    "sort_by bs_Package (map canonical_partial_suite (bl_Suites b)) = sort_by bs_Package (map canonical_partial_suite (bl_Suites b'))"
    "map_option canonical_routing (bl_Routing b) = map_option canonical_routing (bl_Routing b')"
  using assms by (cases b; cases b'; simp add: canonical_baseline_def)+

lemma same_added:
  assumes same: "canonical_checkpoint s = canonical_checkpoint t" and valid: "validate_checkpoint (add_unit u s) = None"
  shows "canonical_checkpoint (add_unit u s) = canonical_checkpoint (add_unit u t)"
proof -
  have parts: "ck_Schema s = ck_Schema t" "ck_InputDigest s = ck_InputDigest t" "ck_Attempts s = ck_Attempts t"
    "canonical_baseline (ck_Baseline s) = canonical_baseline (ck_Baseline t)"
    "map_option canonical_race (ck_Race s) = map_option canonical_race (ck_Race t)"
    "map_option canonical_mutation (ck_Mutation s) = map_option canonical_mutation (ck_Mutation t)"
    using same canonical_checkpoint_parts by metis+
  note b = canonical_baseline_eqD [OF parts(4)]
  show ?thesis
  proof (cases u)
    case (TargetUnit unit)
    have "distinct (map bt_ID (bl_Targets (ck_Baseline s) @ [unit]))" using valid_keys(1) [OF valid] TargetUnit by simp
    moreover have "sort_by bt_ID (map canonical_unit (bl_Targets (ck_Baseline s))) = sort_by bt_ID (map canonical_unit (bl_Targets (ck_Baseline t)))"
      using b(5) by (simp only: sort_canonical_units)
    ultimately have targets: "sort_by bt_ID (map canonical_unit (bl_Targets (ck_Baseline s) @ [unit])) = sort_by bt_ID (map canonical_unit (bl_Targets (ck_Baseline t) @ [unit]))"
      by (intro sort_by_same_append canonical_unit_fields(1))
    have "canonical_baseline (ck_Baseline (add_unit u s)) = canonical_baseline (ck_Baseline (add_unit u t))"
      by (rule baseline_cong) (use b targets TargetUnit in \<open>simp_all add: sort_canonical_units del: map_append\<close>)
    then show ?thesis by (intro checkpoint_eqI) (use parts TargetUnit in \<open>simp_all add: canonical_checkpoint_parts\<close>)
  next
    case (SuiteUnit unit)
    have "distinct (map bs_Package (bl_Suites (ck_Baseline s) @ [unit]))" using valid_keys(2) [OF valid] SuiteUnit by simp
    moreover have "sort_by bs_Package (map canonical_partial_suite (bl_Suites (ck_Baseline s))) =
        sort_by bs_Package (map canonical_partial_suite (bl_Suites (ck_Baseline t)))" by (rule b(6))
    ultimately have suites: "sort_by bs_Package (map canonical_partial_suite (bl_Suites (ck_Baseline s) @ [unit])) =
        sort_by bs_Package (map canonical_partial_suite (bl_Suites (ck_Baseline t) @ [unit]))"
      by (intro sort_by_same_append canonical_partial_suite_facts(1))
    have "canonical_baseline (ck_Baseline (add_unit u s)) = canonical_baseline (ck_Baseline (add_unit u t))"
      by (rule baseline_cong) (use b suites SuiteUnit in \<open>simp_all del: map_append\<close>)
    then show ?thesis by (intro checkpoint_eqI) (use parts SuiteUnit in \<open>simp_all add: canonical_checkpoint_parts\<close>)
  next
    case (MutantUnit unit)
    have mutation: "map_option canonical_mutation (ck_Mutation (add_unit u s)) = map_option canonical_mutation (ck_Mutation (add_unit u t))"
    proof (cases "ck_Mutation s")
      case None
      then show ?thesis using parts(6) MutantUnit by simp
    next
      case (Some ms)
      then obtain mt where mt: "ck_Mutation t = Some mt" using parts(6) by (cases "ck_Mutation t") auto
      have m: "canonical_mutation ms = canonical_mutation mt" using parts(6) Some mt by simp
      then have fields: "mn_CatalogFingerprint ms = mn_CatalogFingerprint mt" "mn_Complete ms = mn_Complete mt"
        "map_option canonical_probe (mn_Probe ms) = map_option canonical_probe (mn_Probe mt)"
        "sort_by mx_ID (map (\<lambda>x. x) (mn_Results ms)) = sort_by mx_ID (map (\<lambda>x. x) (mn_Results mt))"
        by (cases ms; cases mt; simp add: canonical_mutation_def)+
      have "distinct (map mx_ID (mn_Results ms @ [unit]))" using valid_keys(3) [OF valid] Some MutantUnit by simp
      then have "sort_by mx_ID (map (\<lambda>x. x) (mn_Results ms @ [unit])) = sort_by mx_ID (map (\<lambda>x. x) (mn_Results mt @ [unit]))"
        by (intro sort_by_same_append [OF fields(4)]) simp_all
      then show ?thesis using fields Some mt MutantUnit by (cases ms; cases mt) (simp add: canonical_mutation_def)
    qed
    show ?thesis
      by (rule checkpoint_eqI) (use parts mutation MutantUnit in \<open>simp_all add: canonical_checkpoint_parts\<close>)
  qed
qed

text \<open>
  A baseline that grew by the units of a journal suffix: adding them to the saved state gives the
  new state up to the order of its lists.
\<close>

definition with_baseline :: "baseline_state \<Rightarrow> checkpoint_state \<Rightarrow> checkpoint_state" where
  "with_baseline b st = st\<lparr>ck_Baseline := b\<rparr>"

lemma with_baseline_parts:
  "ck_Schema (with_baseline b st) = ck_Schema st" "ck_InputDigest (with_baseline b st) = ck_InputDigest st"
  "ck_Attempts (with_baseline b st) = ck_Attempts st" "ck_Baseline (with_baseline b st) = b"
  "ck_Race (with_baseline b st) = ck_Race st" "ck_Mutation (with_baseline b st) = ck_Mutation st"
  by (simp_all add: with_baseline_def)

lemma same_baseline:
  assumes "canonical_baseline (ck_Baseline s) = canonical_baseline b" "ck_Schema s = ck_Schema st" "ck_InputDigest s = ck_InputDigest st"
    "ck_Attempts s = ck_Attempts st" "ck_Race s = ck_Race st" "ck_Mutation s = ck_Mutation st"
  shows "canonical_checkpoint s = canonical_checkpoint (with_baseline b st)"
  by (rule checkpoint_eqI) (use assms in \<open>simp_all add: canonical_checkpoint_parts with_baseline_parts\<close>)

lemma target_suffix:
  assumes suffix: "baseline_checkpoint_journal_suffix (ck_Baseline st) b = Some us"
    and valid: "validate_checkpoint st = None" "validate_checkpoint (with_baseline b st) = None"
  shows "new_units (map TargetUnit us) st" "validate_checkpoint (fold add_unit (map TargetUnit us) st) = None"
    "canonical_checkpoint (fold add_unit (map TargetUnit us) st) = canonical_checkpoint (with_baseline b st)"
proof -
  let ?p = "ck_Baseline st" and ?all = "bl_Targets (ck_Baseline st) @ us" and ?us = "map TargetUnit us"
  have same: "bl_BuildVetComplete ?p" "bl_BuildVetComplete b" "\<not> bl_Complete ?p" "\<not> bl_Complete b" "bl_Evidence ?p = bl_Evidence b"
    "bl_Findings ?p = bl_Findings b" "bl_Suites ?p = bl_Suites b" and some: "journal_suffix bt_ID (bl_Targets ?p) (bl_Targets b) = Some us"
    using suffix by (auto simp: baseline_checkpoint_journal_suffix_def split: if_split_asm)
  have routing: "bl_Routing ?p = None" "bl_Routing b = None"
    using valid same(3,4) by (simp_all add: validate_checkpoint_None with_baseline_parts)
  note perm = journal_suffix_Some [OF some]
  have "distinct (map bt_ID ?all)" using perm by (metis mset_map mset_eq_imp_distinct_iff)
  then show "new_units ?us st"
  proof (induction us arbitrary: st)
    case (Cons u us)
    then show ?case using Cons.IH [of "add_unit (TargetUnit u) st"] by simp
  qed simp
  have other: "ck_Mutation (fold add_unit ?us st) = ck_Mutation st" "ck_Race (fold add_unit ?us st) = ck_Race st"
    by (rule baseline_units_other; simp)+
  have targets: "validate_baseline_targets (bl_Complete b) [] [] ?all = None"
    by (rule validate_targets_perm [OF _ perm(1) [symmetric]]) (use valid(2) in \<open>simp add: validate_parts with_baseline_parts\<close>)
  show "validate_checkpoint (fold add_unit ?us st) = None"
    using valid(1) targets same(3,4) by (simp add: validate_parts other units_append fold_add_unit(1-3))
  have "sort_by bt_ID ?all = sort_by bt_ID (bl_Targets b)"
    using perm by (intro sort_by_perm [symmetric]) simp_all
  then have "canonical_baseline (ck_Baseline (fold add_unit ?us st)) = canonical_baseline b"
    unfolding units_append using same routing by (intro baseline_cong) simp_all
  then show "canonical_checkpoint (fold add_unit ?us st) = canonical_checkpoint (with_baseline b st)"
    by (rule same_baseline) (simp_all add: other fold_add_unit(1-3))
qed

lemma suite_suffix:
  assumes suffix: "baseline_suite_checkpoint_journal_suffix (ck_Baseline st) b = Some us"
    and valid: "validate_checkpoint st = None" "validate_checkpoint (with_baseline b st) = None"
  shows "new_units (map SuiteUnit us) st" "validate_checkpoint (fold add_unit (map SuiteUnit us) st) = None"
    "canonical_checkpoint (fold add_unit (map SuiteUnit us) st) = canonical_checkpoint (with_baseline b st)"
proof -
  let ?p = "ck_Baseline st" and ?all = "bl_Suites (ck_Baseline st) @ us" and ?us = "map SuiteUnit us"
  have same: "bl_BuildVetComplete ?p" "bl_BuildVetComplete b" "\<not> bl_Complete ?p" "\<not> bl_Complete b" "bl_Evidence ?p = bl_Evidence b"
    "bl_Findings ?p = bl_Findings b" "bl_Targets ?p = bl_Targets b" and some: "journal_suffix bs_Package (bl_Suites ?p) (bl_Suites b) = Some us"
    using suffix by (auto simp: baseline_suite_checkpoint_journal_suffix_def split: if_split_asm)
  have routing: "bl_Routing ?p = None" "bl_Routing b = None"
    using valid same(3,4) by (simp_all add: validate_checkpoint_None with_baseline_parts)
  note perm = journal_suffix_Some [OF some]
  have keys: "distinct (map bs_Package ?all)" using perm by (metis mset_map mset_eq_imp_distinct_iff)
  then show "new_units ?us st"
  proof (induction us arbitrary: st)
    case (Cons u us)
    then show ?case using Cons.IH [of "add_unit (SuiteUnit u) st"] by simp
  qed simp
  have other: "ck_Mutation (fold add_unit ?us st) = ck_Mutation st" "ck_Race (fold add_unit ?us st) = ck_Race st"
    by (rule baseline_units_other; simp)+
  have "validate_each partial_suite_error bs_Package PartialSuiteDuplicate partial_suite_coverage_error [] ?all = None"
    by (rule validate_each_perm [OF _ perm(1) [symmetric]]) (use valid(2) in \<open>simp add: validate_parts with_baseline_parts\<close>)
  then show "validate_checkpoint (fold add_unit ?us st) = None"
    using valid(1) same(3,4) by (simp add: validate_parts other units_append fold_add_unit(1-3))
  have "sort_by bs_Package (map canonical_partial_suite ?all) = sort_by bs_Package (map canonical_partial_suite (bl_Suites b))"
  proof (rule sort_by_perm)
    show "mset (map canonical_partial_suite ?all) = mset (map canonical_partial_suite (bl_Suites b))" using perm(1) by (metis mset_map)
    show "distinct (map bs_Package (map canonical_partial_suite ?all))" using keys by (simp add: canonical_partial_suite_facts comp_def)
  qed
  then have "canonical_baseline (ck_Baseline (fold add_unit ?us st)) = canonical_baseline b"
    unfolding units_append using same routing by (intro baseline_cong) simp_all
  then show "canonical_checkpoint (fold add_unit ?us st) = canonical_checkpoint (with_baseline b st)"
    by (rule same_baseline) (simp_all add: other fold_add_unit(1-3))
qed

section \<open>The steps of a run\<close>

text \<open>
  What a run does with its checkpoint, in whatever order. \<open>fits\<close> and \<open>fits_unit\<close> say that the
  encoding carries a state and a unit faithfully. A baseline that is saved is one the validation
  accepts, and a mutant is saved once, with an answer: \<open>evaluate_mutations_audited\<close> is about the
  evaluations handed to \<open>saveMutant\<close>.
\<close>

definition saved_unit :: "string \<Rightarrow> mutation_evaluation \<Rightarrow> mutation_unit" where
  "saved_unit i evaluation = \<lparr>mx_ID = i, mx_Evidence = mv_Evidence evaluation, mx_Findings = mv_Findings evaluation,
     mx_Provenance = mv_Provenance evaluation\<rparr>"

inductive run_step ::
  "'w run_cache \<Rightarrow> (string \<Rightarrow> string) \<Rightarrow> (checkpoint_state \<Rightarrow> bool) \<Rightarrow> (journal_unit \<Rightarrow> bool) \<Rightarrow>
   run_checkpoint \<times> 'w \<Rightarrow> run_checkpoint \<times> 'w \<Rightarrow> bool"
  for store sha fits fits_unit where
  baseline: "rk_baseline store targets cw = (found, cw') \<Longrightarrow> fits (rk_state (fst cw')) \<Longrightarrow> run_step store sha fits fits_unit cw cw'"
| save_baseline: "rk_save_baseline store saved cw = cw' \<Longrightarrow> fits (rk_state (fst cw')) \<Longrightarrow>
    validate_checkpoint (with_baseline (sort_baseline saved) (rk_state (fst cw))) = None \<Longrightarrow>
    list_all (fits_unit \<circ> TargetUnit) (bl_Targets saved) \<Longrightarrow> list_all (fits_unit \<circ> SuiteUnit) (bl_Suites saved) \<Longrightarrow>
    run_step store sha fits fits_unit cw cw'"
| race: "rk_race store packages cw = (raced, cw') \<Longrightarrow> fits (rk_state (fst cw')) \<Longrightarrow> run_step store sha fits fits_unit cw cw'"
| save_race: "rk_save_race store packages raced findings cw = cw' \<Longrightarrow> fits (rk_state (fst cw')) \<Longrightarrow> run_step store sha fits fits_unit cw cw'"
| mutation: "rk_mutation store sha cat cw = (resumed, cw') \<Longrightarrow> fits (rk_state (fst cw')) \<Longrightarrow> run_step store sha fits fits_unit cw cw'"
| probe: "rk_probe store sha cat targets packages cw = (probed, cw') \<Longrightarrow> fits (rk_state (fst cw')) \<Longrightarrow> run_step store sha fits fits_unit cw cw'"
| save_probe: "rk_save_probe store sha cat evaluation cw = cw' \<Longrightarrow> fits (rk_state (fst cw')) \<Longrightarrow> run_step store sha fits fits_unit cw cw'"
| save_mutant: "rk_save_mutant store i evaluation cw = cw' \<Longrightarrow> fits (rk_state (fst cw')) \<Longrightarrow>
    fits_unit (MutantUnit (saved_unit i evaluation)) \<Longrightarrow> new_unit (MutantUnit (saved_unit i evaluation)) (rk_state (fst cw)) \<Longrightarrow>
    i \<noteq> [] \<Longrightarrow> terminal_mutation (saved_unit i evaluation) \<Longrightarrow> run_step store sha fits fits_unit cw cw'"
| complete_mutation: "rk_complete_mutation store cw = cw' \<Longrightarrow> fits (rk_state (fst cw')) \<Longrightarrow> run_step store sha fits fits_unit cw cw'"
| discard: "rk_discard store cw = cw' \<Longrightarrow> run_step store sha fits fits_unit cw cw'"

definition synced ::
  "(checkpoint_state \<Rightarrow> 'w \<Rightarrow> bool) \<Rightarrow> string \<Rightarrow> run_checkpoint \<times> 'w \<Rightarrow> bool" where
  "synced holds digest cw \<longleftrightarrow>
     rk_digest (fst cw) = digest \<and>
     (rk_enabled (fst cw) \<longrightarrow> validate_checkpoint (rk_state (fst cw)) = None \<and> holds (rk_state (fst cw)) (snd cw))"

lemma disabled_synced: "rk_digest c = digest \<Longrightarrow> synced holds digest (disable_checkpoint store e (c, w))"
  by (simp add: disable_checkpoint_def synced_def warn_def split: prod.split)

lemma replace_result_fresh: "mx_ID unit \<notin> mx_ID ` set results \<Longrightarrow> replace_result unit results = results @ [unit]"
  by (induction results) auto

text \<open>All operations but the saving of a baseline and of a mutant keep the state or write it as a whole.\<close>

definition kept_or_persisted :: "'w run_cache \<Rightarrow> run_checkpoint \<times> 'w \<Rightarrow> run_checkpoint \<times> 'w \<Rightarrow> bool" where
  "kept_or_persisted store cw cw' \<longleftrightarrow>
     (\<exists>c. rk_digest c = rk_digest (fst cw) \<and>
        (cw' = persist store (c, snd cw) \<or>
         cw' = (c, snd cw) \<and> (rk_enabled c \<longrightarrow> rk_enabled (fst cw) \<and> rk_state c = rk_state (fst cw))))"

lemma set_mutation_digest [simp]: "rk_digest (set_mutation m c) = rk_digest c" "rk_digest (warn e c) = rk_digest c"
  by (simp_all add: set_mutation_def warn_def)

lemma persistedI: "rk_digest c' = rk_digest c \<Longrightarrow> kept_or_persisted store (c, w) (persist store (c', w))"
  by (auto simp: kept_or_persisted_def)

lemma keptI:
  "rk_digest c' = rk_digest c \<Longrightarrow> rk_enabled c' = rk_enabled c \<Longrightarrow> rk_state c' = rk_state c \<Longrightarrow> kept_or_persisted store (c, w) (c', w)"
  by (auto simp: kept_or_persisted_def)

lemma operations_keep_or_persist:
  "kept_or_persisted store (c, w) (snd (rk_baseline store targets (c, w)))"
  "kept_or_persisted store (c, w) (snd (rk_race store packages (c, w)))"
  "kept_or_persisted store (c, w) (rk_save_race store packages raced findings (c, w))"
  "kept_or_persisted store (c, w) (snd (rk_mutation store sha cat (c, w)))"
  "kept_or_persisted store (c, w) (snd (rk_probe store sha cat evidence packages (c, w)))"
  "kept_or_persisted store (c, w) (rk_save_probe store sha cat evaluation (c, w))"
  "kept_or_persisted store (c, w) (rk_complete_mutation store (c, w))"
  by (auto simp: rk_baseline_def rk_race_def rk_save_race_def rk_mutation_def rk_probe_def rk_save_probe_def rk_complete_mutation_def
      Let_def intro!: persistedI keptI split: option.split)

lemma operation_keeps:
  "rk_baseline store targets cw = (found, cw') \<Longrightarrow> kept_or_persisted store cw cw'"
  "rk_race store packages cw = (raced, cw') \<Longrightarrow> kept_or_persisted store cw cw'"
  "rk_save_race store packages race_evidence findings cw = cw' \<Longrightarrow> kept_or_persisted store cw cw'"
  "rk_mutation store sha cat cw = (resumed, cw') \<Longrightarrow> kept_or_persisted store cw cw'"
  "rk_probe store sha cat evidence packages cw = (probed, cw') \<Longrightarrow> kept_or_persisted store cw cw'"
  "rk_save_probe store sha cat evaluation cw = cw' \<Longrightarrow> kept_or_persisted store cw cw'"
  "rk_complete_mutation store cw = cw' \<Longrightarrow> kept_or_persisted store cw cw'"
  using operations_keep_or_persist [of store "fst cw" "snd cw"] by (metis prod.collapse snd_conv)+

locale checkpoint_store =
  fixes store :: "'w run_cache" and digest :: string
    and holds :: "checkpoint_state \<Rightarrow> 'w \<Rightarrow> bool"
    and fits :: "checkpoint_state \<Rightarrow> bool" and fits_unit :: "journal_unit \<Rightarrow> bool"
  assumes put_holds: "rc_put store digest st w = (None, w') \<Longrightarrow> fits st \<Longrightarrow> validate_checkpoint st = None \<and> holds st w'"
    and append_holds: "rc_journal store = Some journal \<Longrightarrow> journal digest u w = (None, w') \<Longrightarrow> holds st w \<Longrightarrow>
      fits_unit u \<Longrightarrow> new_unit u st \<Longrightarrow> validate_checkpoint (add_unit u st) = None \<Longrightarrow> holds (add_unit u st) w'"
    and same_holds: "holds st w \<Longrightarrow> canonical_checkpoint st = canonical_checkpoint st' \<Longrightarrow> holds st' w"
    and get_holds: "holds st w \<Longrightarrow> rc_get store digest w = (Inr found, w') \<Longrightarrow>
      \<exists>read. found = Some read \<and> canonical_checkpoint read = canonical_checkpoint st"
begin

lemma persist_synced:
  assumes "rk_digest c = digest" "fits (rk_state c)"
  shows "synced holds digest (persist store (c, w))" "rk_state (fst (persist store (c, w))) = rk_state c"
  using assms put_holds disabled_synced
  by (auto simp: persist_def synced_def disable_checkpoint_def warn_def split: prod.split option.split)

lemma append_units_synced:
  assumes "rc_journal store = Some journal" "rk_digest c = digest" "holds st w" "new_units us st" "list_all fits_unit us"
    and "validate_checkpoint (fold add_unit us st) = None"
    and "canonical_checkpoint (fold add_unit us st) = canonical_checkpoint (rk_state c)" "validate_checkpoint (rk_state c) = None"
  shows "synced holds digest (append_units store journal us (c, w))"
  using assms(3-7)
proof (induction us arbitrary: st w)
  case Nil
  then show ?case using assms(2,8) same_holds by (simp add: synced_def)
next
  case (Cons u us)
  show ?case
  proof (cases "journal digest u w")
    case (Pair failed w1)
    show ?thesis
    proof (cases failed)
      case None
      have "validate_checkpoint (add_unit u st) = None" using Cons.prems(4) by (simp add: valid_prefix)
      then have "holds (add_unit u st) w1" using append_holds [OF assms(1)] Pair None Cons.prems by simp
      with Cons Pair None assms(2) show ?thesis by simp
    next
      case (Some e)
      with Pair assms(2) disabled_synced show ?thesis by simp
    qed
  qed
qed

lemma save_baseline_synced:
  assumes sync: "synced holds digest (c, w)" and saved: "rk_save_baseline store saved (c, w) = cw'" "fits (rk_state (fst cw'))"
    "validate_checkpoint (with_baseline (sort_baseline saved) (rk_state c)) = None"
    and units: "list_all (fits_unit \<circ> TargetUnit) (bl_Targets saved)" "list_all (fits_unit \<circ> SuiteUnit) (bl_Suites saved)"
  shows "synced holds digest cw'"
proof (cases "rk_enabled c")
  case False
  with sync saved show ?thesis by (auto simp: rk_save_baseline_def)
next
  case True
  let ?b = "sort_baseline saved"
  define c' where "c' = c\<lparr>rk_state := with_baseline ?b (rk_state c)\<rparr>"
  have c': "rk_digest c' = digest" "rk_state c' = with_baseline ?b (rk_state c)" using sync by (simp_all add: c'_def synced_def)
  have held: "validate_checkpoint (rk_state c) = None" "holds (rk_state c) w" using sync True by (simp_all add: synced_def)
  have out: "cw' = (case rc_journal store of None \<Rightarrow> persist store (c', w)
      | Some journal \<Rightarrow>
         (case baseline_checkpoint_journal_suffix (ck_Baseline (rk_state c)) ?b of
            Some suffix \<Rightarrow> append_units store journal (map TargetUnit suffix) (c', w)
          | None \<Rightarrow> (case baseline_suite_checkpoint_journal_suffix (ck_Baseline (rk_state c)) ?b of
               Some suffix \<Rightarrow> append_units store journal (map SuiteUnit suffix) (c', w)
             | None \<Rightarrow> persist store (c', w))))"
    using saved(1) True unfolding c'_def with_baseline_def rk_save_baseline_def Let_def prod.case by simp
  have persisted: "synced holds digest cw'" if "cw' = persist store (c', w)"
  proof -
    have "rk_state (fst (persist store (c', w))) = rk_state c'"
      by (auto simp: persist_def disable_checkpoint_def warn_def split: prod.split option.split)
    with that saved(2) have "fits (rk_state c')" by simp
    then show ?thesis unfolding that by (rule persist_synced(1) [OF c'(1)])
  qed
  show ?thesis
  proof (cases "rc_journal store")
    case None
    with out persisted show ?thesis by simp
  next
    case (Some journal)
    show ?thesis
    proof (cases "baseline_checkpoint_journal_suffix (ck_Baseline (rk_state c)) ?b")
      case targets: (Some suffix)
      note step = target_suffix [OF targets held(1) saved(3)]
      have "set suffix \<subseteq> set (bl_Targets saved)"
      proof -
        have "journal_suffix bt_ID (bl_Targets (ck_Baseline (rk_state c))) (bl_Targets ?b) = Some suffix"
          using targets by (auto simp: baseline_checkpoint_journal_suffix_def split: if_split_asm)
        from mset_eq_setD [OF journal_suffix_Some(1) [OF this]] show ?thesis by (auto simp: sort_baseline_def)
      qed
      then have "list_all fits_unit (map TargetUnit suffix)" using units(1) by (auto simp: list_all_iff)
      then have "synced holds digest (append_units store journal (map TargetUnit suffix) (c', w))"
        using Some c' held(2) step saved(3) by (intro append_units_synced [where st = "rk_state c"]) simp_all
      with out Some targets show ?thesis by simp
    next
      case no_targets: None
      show ?thesis
      proof (cases "baseline_suite_checkpoint_journal_suffix (ck_Baseline (rk_state c)) ?b")
        case suites: (Some suffix)
        note step = suite_suffix [OF suites held(1) saved(3)]
        have "set suffix \<subseteq> set (bl_Suites saved)"
        proof -
          have "journal_suffix bs_Package (bl_Suites (ck_Baseline (rk_state c))) (bl_Suites ?b) = Some suffix"
            using suites by (auto simp: baseline_suite_checkpoint_journal_suffix_def split: if_split_asm)
          from mset_eq_setD [OF journal_suffix_Some(1) [OF this]] show ?thesis by (auto simp: sort_baseline_def)
        qed
        then have "list_all fits_unit (map SuiteUnit suffix)" using units(2) by (auto simp: list_all_iff)
        then have "synced holds digest (append_units store journal (map SuiteUnit suffix) (c', w))"
          using Some c' held(2) step saved(3) by (intro append_units_synced [where st = "rk_state c"]) simp_all
        with out Some no_targets suites show ?thesis by simp
      next
        case None
        with out Some no_targets persisted show ?thesis by simp
      qed
    qed
  qed
qed

lemma kept_or_persisted_synced:
  assumes "synced holds digest cw" "kept_or_persisted store cw cw'" "fits (rk_state (fst cw'))"
  shows "synced holds digest cw'"
proof -
  obtain c w where cw: "cw = (c, w)" by (cases cw)
  obtain c' where c': "rk_digest c' = digest" and out: "cw' = persist store (c', w) \<or>
      cw' = (c', w) \<and> (rk_enabled c' \<longrightarrow> rk_enabled c \<and> rk_state c' = rk_state c)"
    using assms(1,2) by (auto simp: kept_or_persisted_def cw synced_def)
  have same: "rk_state (fst (persist store (c', w))) = rk_state c'"
    by (auto simp: persist_def disable_checkpoint_def warn_def split: prod.split option.split)
  from out show ?thesis
  proof
    assume "cw' = persist store (c', w)"
    with assms(3) same c' persist_synced(1) show ?thesis by simp
  next
    assume "cw' = (c', w) \<and> (rk_enabled c' \<longrightarrow> rk_enabled c \<and> rk_state c' = rk_state c)"
    with assms(1) c' show ?thesis by (auto simp: cw synced_def)
  qed
qed

lemma save_mutant_synced:
  assumes sync: "synced holds digest (c, w)" and saved: "rk_save_mutant store i evaluation (c, w) = cw'" "fits (rk_state (fst cw'))"
    and unit: "fits_unit (MutantUnit (saved_unit i evaluation))" "new_unit (MutantUnit (saved_unit i evaluation)) (rk_state c)"
      "i \<noteq> []" "terminal_mutation (saved_unit i evaluation)"
  shows "synced holds digest cw'"
proof (cases "ck_Mutation (rk_state c)")
  case None
  with unit(2) show ?thesis by simp
next
  case (Some m)
  show ?thesis
  proof (cases "rk_enabled c")
    case False
    with saved(1) Some sync show ?thesis by (simp add: rk_save_mutant_def)
  next
    case True
    let ?unit = "saved_unit i evaluation" and ?st = "rk_state c"
    have fresh: "mx_ID ?unit \<notin> mx_ID ` set (mn_Results m)" using unit(2) Some by simp
    define c' where "c' = set_mutation (m\<lparr>mn_Results := mn_Results m @ [?unit]\<rparr>) c"
    have added: "rk_state c' = add_unit (MutantUnit ?unit) ?st" using Some by (simp add: c'_def set_mutation_def)
    have held: "validate_checkpoint ?st = None" "holds ?st w" using sync True by (simp_all add: synced_def)
    have "validate_checkpoint (add_unit (MutantUnit ?unit) ?st) = None"
      using held(1) unit(3,4) fresh Some
      by (auto simp: validate_parts validate_mutation_state_def validate_each_None err_simps saved_unit_def)
    then have valid: "validate_checkpoint (fold add_unit [MutantUnit ?unit] ?st) = None" by simp
    have digest: "rk_digest c' = digest" using sync by (simp add: c'_def synced_def)
    have out: "cw' = (case rc_journal store of Some journal \<Rightarrow> append_units store journal [MutantUnit ?unit] (c', w) | None \<Rightarrow> persist store (c', w))"
      using saved(1) True Some unfolding rk_save_mutant_def Let_def prod.case saved_unit_def [symmetric] c'_def
      by (simp add: replace_result_fresh [OF fresh] cong: option.case_cong)
    show ?thesis
    proof (cases "rc_journal store")
      case None
      with out have "kept_or_persisted store (c, w) cw'" by (auto simp: c'_def intro: persistedI)
      from kept_or_persisted_synced [OF sync this saved(2)] show ?thesis .
    next
      case journal: (Some journal)
      have "synced holds digest (append_units store journal [MutantUnit ?unit] (c', w))"
        by (rule append_units_synced [OF journal digest held(2)]) (use unit valid added in simp_all)
      with out journal show ?thesis by simp
    qed
  qed
qed

lemma open_synced:
  assumes "open_run_checkpoint (Some store) digest enabled w = (Some c, w')" "fits (rk_state c)"
  shows "synced holds digest (c, w')"
  using assms put_holds
  by (auto simp: open_run_checkpoint_def synced_def warn_def Let_def split: if_split_asm sum.split_asm option.split_asm prod.split_asm)

lemma run_step_synced:
  assumes "run_step store sha fits fits_unit cw cw'" "synced holds digest cw"
  shows "synced holds digest cw'"
  using assms
proof (cases rule: run_step.cases)
  case (save_baseline saved)
  then show ?thesis using save_baseline_synced [of "fst cw" "snd cw" saved cw'] assms(2) by simp
next
  case (save_mutant i evaluation)
  then show ?thesis using save_mutant_synced [of "fst cw" "snd cw" i evaluation cw'] assms(2) by simp
next
  case discard
  then show ?thesis using assms(2) by (auto simp: rk_discard_def synced_def warn_def Let_def split: prod.splits option.splits)
qed (metis kept_or_persisted_synced operation_keeps assms(2))+

lemma run_synced:
  "(run_step store sha fits fits_unit)\<^sup>*\<^sup>* cw cw' \<Longrightarrow> synced holds digest cw \<Longrightarrow> synced holds digest cw'"
  by (induction rule: rtranclp_induct) (auto intro: run_step_synced)

text \<open>Whatever the run did, a process that reads the cache now continues from the state it has.\<close>

lemma run_recoverable:
  assumes "open_run_checkpoint (Some store) digest enabled w = (Some c, w1)" "fits (rk_state c)"
    and "(run_step store sha fits fits_unit)\<^sup>*\<^sup>* (c, w1) (c', w2)" "rk_enabled c'"
    and "rc_get store digest w2 = (Inr found, w3)"
  shows "\<exists>read. found = Some read \<and> canonical_checkpoint read = canonical_checkpoint (rk_state c')"
proof -
  have "synced holds digest (c', w2)" using run_synced [OF assms(3) open_synced [OF assms(1,2)]] .
  with assms(4) have "holds (rk_state c') w2" by (simp add: synced_def)
  then show ?thesis using assms(5) by (rule get_holds)
qed

end

end
