(* ===== verification/CheckpointDisk.thy ===== *)
theory CheckpointDisk
  imports CheckpointRefinement
begin

text \<open>
  The cache of \<open>internal/cache/checkpoint.go\<close> as the \<open>runCache\<close> of a run: the files of one input
  digest, and for every call what the operating system will do to it. It provides the contract
  \<open>checkpoint_store\<close>, so what is on disk follows the run.
\<close>

section \<open>The cache as a world of files\<close>

record fate =
  ft_read :: "bool \<times> bool"
  ft_put :: put_outcome
  ft_append :: append_outcome
  ft_delete :: delete_outcome

record disk =
  dk_files :: checkpoint_files
  dk_fates :: "fate list"

definition no_fault :: fate where
  "no_fault = \<lparr>ft_read = (False, False), ft_put = PutDone, ft_append = AppendDone, ft_delete = DeleteDone\<rparr>"

text \<open>The fate of the next call; after the listed ones nothing fails.\<close>

definition next_fate :: "disk \<Rightarrow> fate \<times> fate list" where
  "next_fate d = (case dk_fates d of [] \<Rightarrow> (no_fault, []) | fate # fates \<Rightarrow> (fate, fates))"

definition disk_get :: "checkpoint_codec \<Rightarrow> string \<Rightarrow> disk \<Rightarrow> (cache_error + checkpoint_state option) \<times> disk" where
  "disk_get codec digest d =
     (let (fate, fates) = next_fate d; (found, files) = get_checkpoint codec digest (ft_read fate) (dk_files d)
      in (found, \<lparr>dk_files = files, dk_fates = fates\<rparr>))"

definition disk_put :: "checkpoint_codec \<Rightarrow> string \<Rightarrow> checkpoint_state \<Rightarrow> disk \<Rightarrow> cache_error option \<times> disk" where
  "disk_put codec digest st d =
     (let (fate, fates) = next_fate d; (failed, files) = put_checkpoint codec digest (ft_put fate) st (dk_files d)
      in (failed, \<lparr>dk_files = files, dk_fates = fates\<rparr>))"

definition disk_append :: "checkpoint_codec \<Rightarrow> string \<Rightarrow> journal_unit \<Rightarrow> disk \<Rightarrow> cache_error option \<times> disk" where
  "disk_append codec digest unit d =
     (let (fate, fates) = next_fate d; (failed, files) = append_checkpoint codec digest (ft_append fate) unit (dk_files d)
      in (failed, \<lparr>dk_files = files, dk_fates = fates\<rparr>))"

definition disk_delete :: "string \<Rightarrow> disk \<Rightarrow> cache_error option \<times> disk" where
  "disk_delete digest d =
     (let (fate, fates) = next_fate d; (failed, files) = delete_checkpoint digest (ft_delete fate) (dk_files d)
      in (failed, \<lparr>dk_files = files, dk_fates = fates\<rparr>))"

definition disk_cache :: "checkpoint_codec \<Rightarrow> disk run_cache" where
  "disk_cache codec = \<lparr>rc_get = disk_get codec, rc_put = disk_put codec, rc_delete = disk_delete, rc_journal = Some (disk_append codec)\<rparr>"

section \<open>What the files hold\<close>

definition disk_holds :: "checkpoint_codec \<Rightarrow> string \<Rightarrow> checkpoint_state \<Rightarrow> disk \<Rightarrow> bool" where
  "disk_holds codec digest st d \<longleftrightarrow>
     (\<exists>base stale us. files_hold codec digest base stale us [] (dk_files d) \<and> pf_base (dk_files d) = base_of codec base \<and>
        canonical_checkpoint (fold add_unit us base) = canonical_checkpoint st)"

definition fits :: "checkpoint_codec \<Rightarrow> checkpoint_state \<Rightarrow> bool" where
  "fits codec st \<longleftrightarrow> cd_decode codec (checkpoint_json codec st) = Some (canonical_checkpoint st)"

definition fits_unit :: "checkpoint_codec \<Rightarrow> string \<Rightarrow> journal_unit \<Rightarrow> bool" where
  "fits_unit codec digest u \<longleftrightarrow> (\<forall>st. line_ok codec digest (base_of codec st) u)"

lemma read_without_faults:
  "get_checkpoint codec digest faults files = (Inr found, files') \<Longrightarrow> get_checkpoint codec digest (False, False) files = (Inr found, files')"
  by (auto simp: get_checkpoint_def apply_checkpoint_journal_def Let_def split: if_split_asm option.splits sum.splits)

lemma disk_read:
  assumes "disk_holds codec digest st d" "get_checkpoint codec digest faults (dk_files d) = (Inr found, files')"
  shows "\<exists>read. found = Some read \<and> canonical_checkpoint read = canonical_checkpoint st"
proof -
  obtain base stale us where hold: "files_hold codec digest base stale us [] (dk_files d)"
    and same: "canonical_checkpoint (fold add_unit us base) = canonical_checkpoint st"
    using assms(1) unfolding disk_holds_def by blast
  from files_read [OF hold] read_without_faults [OF assms(2)] same show ?thesis by auto
qed

lemma disk_put_holds:
  assumes "disk_put codec digest st d = (None, d')" "fits codec st"
  shows "validate_checkpoint st = None \<and> disk_holds codec digest st d'"
proof -
  obtain fate fates where fate: "next_fate d = (fate, fates)" by (metis surj_pair)
  obtain files where put: "put_checkpoint codec digest (ft_put fate) st (dk_files d) = (None, files)"
    and d': "d' = \<lparr>dk_files = files, dk_fates = fates\<rparr>"
    using assms(1) fate by (auto simp: disk_put_def split: prod.splits)
  have published: "put_checkpoint codec digest PutDone st (dk_files d) = (None, files)" and valid: "validate_checkpoint st = None"
    using put by (auto simp: put_checkpoint_def split: if_split_asm option.splits put_outcome.splits)
  note leaves = put_leaves [OF published assms(2) [unfolded fits_def]]
  have "disk_holds codec digest st d'"
    unfolding disk_holds_def by (rule exI [of _ st], rule exI [of _ "[]"], rule exI [of _ "[]"]) (use leaves in \<open>simp add: d'\<close>)
  with valid show ?thesis ..
qed

lemma disk_append_holds:
  assumes "disk_append codec digest u d = (None, d')" "disk_holds codec digest st d" "fits_unit codec digest u" "new_unit u st"
    and "validate_checkpoint (add_unit u st) = None"
  shows "disk_holds codec digest (add_unit u st) d'"
proof -
  obtain fate fates where fate: "next_fate d = (fate, fates)" by (metis surj_pair)
  obtain files where append: "append_checkpoint codec digest (ft_append fate) u (dk_files d) = (None, files)"
    and d': "d' = \<lparr>dk_files = files, dk_fates = fates\<rparr>"
    using assms(1) fate by (auto simp: disk_append_def split: prod.splits)
  obtain base stale us where hold: "files_hold codec digest base stale us [] (dk_files d)"
    and pf: "pf_base (dk_files d) = base_of codec base"
    and same: "canonical_checkpoint (fold add_unit us base) = canonical_checkpoint st"
    using assms(2) unfolding disk_holds_def by blast
  let ?full = "fold add_unit us base"
  have line: "line_ok codec digest (base_of codec base) u" using assms(3) by (simp add: fits_unit_def)
  have new: "new_unit u ?full" using assms(4) new_unit_keys [OF canonical_fields(1) [OF same]] by simp
  have valid: "validate_checkpoint (add_unit u ?full) = None"
    using hold assms(5) by (intro valid_add_same [OF same]) (simp_all add: files_hold_def)
  have ready: "pf_base (dk_files d) = [] \<or> pf_base (dk_files d) = base_of codec base" using pf by simp
  note leaves = append_leaves [OF append hold ready line new valid]
  have "files_hold codec digest base stale (us @ [u]) [] files" using leaves(1) by blast
  moreover have "canonical_checkpoint (fold add_unit (us @ [u]) base) = canonical_checkpoint (add_unit u st)"
    using same_added [OF same valid] by simp
  ultimately show ?thesis
    using leaves(3) unfolding disk_holds_def d' disk.select_convs by blast
qed

lemma disk_get_holds:
  assumes "disk_holds codec digest st d" "disk_get codec digest d = (Inr found, d')"
  shows "\<exists>read. found = Some read \<and> canonical_checkpoint read = canonical_checkpoint st"
  using assms disk_read by (auto simp: disk_get_def split: prod.splits)

interpretation disk: checkpoint_store "disk_cache codec" digest "disk_holds codec digest" "fits codec" "fits_unit codec digest"
  for codec :: checkpoint_codec and digest :: string
  by unfold_locales
    (auto simp: disk_cache_def disk_put_holds disk_append_holds disk_get_holds, auto simp: disk_holds_def)

section \<open>What is on disk follows the run\<close>


text \<open>A run on an empty cache that opens its checkpoint, fixes its catalog and saves a mutant.\<close>

definition sample_answer :: mutation_evaluation where
  "sample_answer = empty_evaluation\<lparr>mv_Evidence :=
     [\<lparr>ev_Kind = ''mutation'', ev_ID = ''m0'', ev_Status = ''killed'', ev_Detail = ''TestA''\<rparr>]\<rparr>"

definition after_mutation :: checkpoint_state where
  "after_mutation = (fresh_checkpoint journal_digest)\<lparr>ck_Mutation := Some (new_mutation_state journal_digest)\<rparr>"

definition after_mutant :: checkpoint_state where
  "after_mutant = add_unit (MutantUnit (saved_unit ''m0'' sample_answer)) after_mutation"

definition sealed_unit :: "string \<Rightarrow> string \<Rightarrow> journal_record" where
  "sealed_unit base checksum = no_unit\<lparr>jr_Schema := checkpoint_journal_schema, jr_InputDigest := journal_digest, jr_BaseDigest := base,
     jr_MutationResult := Some (saved_unit ''m0'' sample_answer), jr_Checksum := checksum\<rparr>"

definition run_codec :: checkpoint_codec where
  "run_codec = \<lparr>
     cd_state = (\<lambda>st. case ck_Mutation st of None \<Rightarrow> ''n'' | Some m \<Rightarrow> CHR ''m'' # concat (map mx_ID (mn_Results m))),
     cd_decode = map_of [(''n'', canonical_checkpoint (fresh_checkpoint journal_digest)),
       (''m'', canonical_checkpoint after_mutation), (''mm0'', canonical_checkpoint after_mutant)],
     cd_record = (\<lambda>r. jr_BaseDigest r @ ''|'' @ jr_Checksum r),
     cd_parse = (\<lambda>line. case split_on (CHR ''|'') line of [base, checksum] \<Rightarrow> Some (sealed_unit base checksum) | _ \<Rightarrow> None),
     cd_sha = (\<lambda>data. CHR ''h'' # replicate (length data) (CHR ''x''))\<rparr>"

definition empty_disk :: disk where
  "empty_disk = \<lparr>dk_files = \<lparr>pf_checkpoint = None, pf_journal = None, pf_base = []\<rparr>, dk_fates = []\<rparr>"

definition opened_run :: "run_checkpoint \<times> disk" where
  "opened_run = (let (c, d) = open_run_checkpoint (Some (disk_cache run_codec)) journal_digest True empty_disk in (the c, d))"

definition fixed_run :: "run_checkpoint \<times> disk" where
  "fixed_run = snd (rk_mutation (disk_cache run_codec) (\<lambda>data. journal_digest) probed_catalog opened_run)"

definition saved_run :: "run_checkpoint \<times> disk" where
  "saved_run = rk_save_mutant (disk_cache run_codec) ''m0'' sample_answer fixed_run"

lemma run_codec_line: "fits_unit run_codec journal_digest (MutantUnit (saved_unit ''m0'' sample_answer))"
proof -
  have "CHR ''|'' \<notin> set (cd_sha run_codec data) \<and> newline \<notin> set (cd_sha run_codec data)" for data
    by (simp add: run_codec_def)
  note clean = this
  have sealed: "seal_record run_codec journal_digest base (unit_record (MutantUnit (saved_unit ''m0'' sample_answer))) =
      sealed_unit base (cd_sha run_codec (base @ ''|''))" for base
    by (simp add: seal_record_def sealed_unit_def no_unit_def checkpoint_journal_checksum_def run_codec_def Let_def)
  have parts: "cd_record run_codec (sealed_unit b c) = b @ CHR ''|'' # c" "jr_Checksum (sealed_unit b c) = c"
    "cd_parse run_codec line = (case split_on (CHR ''|'') line of [b, c] \<Rightarrow> Some (sealed_unit b c) | _ \<Rightarrow> None)"
    "cd_sha run_codec data \<noteq> []" for b c line data
    by (simp_all add: run_codec_def sealed_unit_def)
  have "split_on (CHR ''|'') (base @ CHR ''|'' # cd_sha run_codec data) = [base, cd_sha run_codec data]" if "CHR ''|'' \<notin> set base" for base data
    using that clean by (simp add: split_on_append split_on_line)
  then have "line_ok run_codec journal_digest base (MutantUnit (saved_unit ''m0'' sample_answer))"
    if "CHR ''|'' \<notin> set base" "newline \<notin> set base" for base
    using that clean unfolding line_ok_def journal_line_def sealed
    by (simp add: parts)
  then show ?thesis unfolding fits_unit_def base_of_def checkpoint_file_digest_def using clean by blast
qed


end
