(* ===== verification/TestFraming.thy ===== *)
theory TestFraming
  imports Evaluation
begin

text \<open>
  How a test run's output is read for skips (\<open>internal/assure/baseline.go\<close>: \<open>classifyTestFraming\<close>,
  \<open>trimTestDuration\<close>): the loop over the bytes after each framing marker that
  \<open>-test.v=test2json\<close> writes, and the syntax of \<open>strconv.ParseFloat\<close> it uses to drop the time of
  a report line. The theorem says which lines the loop looks at.
\<close>

section \<open>Floating-point syntax\<close>

text \<open>
  \<open>strconv.ParseFloat(s, 64)\<close> returns no error: decimal and hexadecimal literals with optional
  sign, fraction, exponent and underscores, \<open>inf\<close>, \<open>infinity\<close> and \<open>nan\<close> in any case, and no
  magnitude that rounds to infinity.
\<close>

definition lower_char :: "char \<Rightarrow> char" where
  "lower_char c = (if CHR ''A'' \<le> c \<and> c \<le> CHR ''Z'' then char_of ((of_char c :: nat) + 32) else c)"

definition is_hex_letter :: "char \<Rightarrow> bool" where
  "is_hex_letter c = (CHR ''a'' \<le> lower_char c \<and> lower_char c \<le> CHR ''f'')"

definition drop_sign :: "string \<Rightarrow> string" where
  "drop_sign s = (case s of [] \<Rightarrow> [] | c # cs \<Rightarrow> if c = CHR ''+'' \<or> c = CHR ''-'' then cs else s)"

text \<open>The mantissa: its digits, how many of them stand after the point, and the rest of the input.\<close>

fun scan_mantissa :: "bool \<Rightarrow> bool \<Rightarrow> int list \<Rightarrow> nat \<Rightarrow> string \<Rightarrow> int list \<times> nat \<times> string" where
  "scan_mantissa hex dot ds frac [] = (ds, frac, [])"
| "scan_mantissa hex dot ds frac (c # cs) =
     (if c = CHR ''_'' then scan_mantissa hex dot ds frac cs
      else if c = CHR ''.'' then
        (if dot then (ds, frac, c # cs) else scan_mantissa hex True ds frac cs)
      else if is_digit c then
        scan_mantissa hex dot (ds @ [digit_value c]) (if dot then Suc frac else frac) cs
      else if hex \<and> is_hex_letter c then
        scan_mantissa hex dot (ds @ [int (of_char (lower_char c)) - 87]) (if dot then Suc frac else frac) cs
      else (ds, frac, c # cs))"

fun scan_exponent :: "int \<Rightarrow> string \<Rightarrow> int \<times> string" where
  "scan_exponent e [] = (e, [])"
| "scan_exponent e (c # cs) =
     (if c = CHR ''_'' then scan_exponent e cs
      else if is_digit c then scan_exponent (if e < 10000 then 10 * e + digit_value c else e) cs
      else (e, c # cs))"

text \<open>\<open>saw\<close> is \<open>0\<close> after a digit, \<open>_\<close> after an underscore and \<open>!\<close> after anything else.\<close>

fun underscores_from :: "bool \<Rightarrow> char \<Rightarrow> string \<Rightarrow> bool" where
  "underscores_from hex saw [] = (saw \<noteq> CHR ''_'')"
| "underscores_from hex saw (c # cs) =
     (if is_digit c \<or> hex \<and> is_hex_letter c then underscores_from hex (CHR ''0'') cs
      else if c = CHR ''_'' then saw = CHR ''0'' \<and> underscores_from hex c cs
      else saw \<noteq> CHR ''_'' \<and> underscores_from hex (CHR ''!'') cs)"

definition has_base_prefix :: "string \<Rightarrow> bool" where
  "has_base_prefix s = (length s \<ge> 2 \<and> s ! 0 = CHR ''0'' \<and> lower_char (s ! 1) \<in> set ''box'')"

definition underscore_ok :: "string \<Rightarrow> bool" where
  "underscore_ok s =
     (let s = drop_sign s in
      if has_base_prefix s
      then underscores_from (lower_char (s ! 1) = CHR ''x'') (CHR ''0'') (drop 2 s)
      else underscores_from False (CHR ''^'') s)"

text \<open>Whether \<open>m * base ^ k\<close> reaches the smallest magnitude that rounds to infinity.\<close>

definition rounds_to_infinity :: "int \<Rightarrow> int \<Rightarrow> int \<Rightarrow> bool" where
  "rounds_to_infinity m base k =
     (if 0 \<le> k then m * base ^ nat k \<ge> 2 ^ 1024 - 2 ^ 970
      else m \<ge> (2 ^ 1024 - 2 ^ 970) * base ^ nat (- k))"

definition parses_number :: "string \<Rightarrow> bool" where
  "parses_number s =
     (let body = drop_sign s;
          hex = (length body > 2 \<and> body ! 0 = CHR ''0'' \<and> lower_char (body ! 1) = CHR ''x'');
          base = (if hex then 16 else 10 :: int);
          (ds, frac, rest) = scan_mantissa hex False [] 0 (if hex then drop 2 body else body);
          m = foldl (\<lambda>n d. base * n + d) 0 ds
      in if ds = [] then False
         else
           let (well_formed, e) =
             (case rest of
                [] \<Rightarrow> (\<not> hex, 0)
              | c # cs \<Rightarrow>
                  if lower_char c \<noteq> (if hex then CHR ''p'' else CHR ''e'') then (False, 0)
                  else
                    let digits = drop_sign cs;
                        (e, left) = scan_exponent 0 digits
                    in (digits \<noteq> [] \<and> is_digit (hd digits) \<and> left = [],
                        if cs \<noteq> [] \<and> hd cs = CHR ''-'' then - e else e))
           in well_formed \<and> (CHR ''_'' \<in> set s \<longrightarrow> underscore_ok s) \<and>
              (m = 0 \<or>
               \<not> (if hex then rounds_to_infinity m 2 (e - 4 * int frac) else rounds_to_infinity m 10 (e - int frac))))"

definition parses_float :: "string \<Rightarrow> bool" where
  "parses_float s \<longleftrightarrow>
     map lower_char (drop_sign s) \<in> {''inf'', ''infinity''} \<or> map lower_char s = ''nan'' \<or> parses_number s"

section \<open>The classification of skips\<close>

definition frame_marker :: char where "frame_marker = CHR 0x16"
definition skip_report_prefix :: string where "skip_report_prefix = ''--- SKIP: ''"
definition output_truncated_prefix :: string where "output_truncated_prefix = ''[go-mutants] output truncated''"

definition index_byte :: "string \<Rightarrow> char \<Rightarrow> nat option" where
  "index_byte s c = (let n = length (takeWhile (\<lambda>x. x \<noteq> c) s) in if n < length s then Some n else None)"

text \<open>\<open>strings.Cut(name, " (")\<close>\<close>

fun cut_duration :: "string \<Rightarrow> (string \<times> string) option" where
  "cut_duration (a # b # s) =
     (if a = CHR '' '' \<and> b = CHR ''('' then Some ([], s)
      else map_option (\<lambda>(before, after). (a # before, after)) (cut_duration (b # s)))"
| "cut_duration s = None"

definition trim_test_duration :: "string \<Rightarrow> string" where
  "trim_test_duration name =
     (case cut_duration name of
        None \<Rightarrow> name
      | Some (prefix, suffix) \<Rightarrow>
          if \<not> has_suffix suffix ''s)'' then name
          else if parses_float (trim_suffix suffix ''s)'') then prefix else name)"

fun drop_indents :: "string \<Rightarrow> string" where
  "drop_indents (a # b # c # d # s) =
     (if a = CHR '' '' \<and> b = CHR '' '' \<and> c = CHR '' '' \<and> d = CHR '' '' then drop_indents s else a # b # c # d # s)"
| "drop_indents s = s"

definition skip_report :: "string \<Rightarrow> string \<Rightarrow> (string \<times> string) option" where
  "skip_report targ framed_line =
     (let line = drop_indents (trim_suffix framed_line [CHR 0x0D]) in
      if \<not> has_prefix line skip_report_prefix then None
      else
        let name = trim_test_duration (trim_space (drop (length skip_report_prefix) line)) in
        if name = targ then Some (''skipped-target'', ''the selected top-level target called Skip'')
        else if has_prefix name (targ @ ''/'') then Some (''skipped-subtest'', ''a selected subtest was skipped: '' @ name)
        else None)"

datatype frame_delimiter = FrameEnds | FrameNewline | FrameMarker

text \<open>Where the line after a marker stops, and at what.\<close>

definition frame_end :: "string \<Rightarrow> nat \<times> frame_delimiter" where
  "frame_end framed =
     (let (stop, delimiter) =
        (case index_byte framed newline of None \<Rightarrow> (length framed, FrameEnds) | Some i \<Rightarrow> (i, FrameNewline))
      in case index_byte framed frame_marker of
           None \<Rightarrow> (stop, delimiter)
         | Some other \<Rightarrow> if min stop other = other then (other, FrameMarker) else (stop, delimiter))"

lemma index_byte_less: "index_byte s c = Some n \<Longrightarrow> n < length s"
  by (auto simp: index_byte_def Let_def split: if_splits)

function scan_frames :: "string \<Rightarrow> string \<Rightarrow> (string \<times> string) option" where
  "scan_frames targ remaining =
     (case index_byte remaining frame_marker of
        None \<Rightarrow> None
      | Some marker \<Rightarrow>
          let framed = drop (Suc marker) remaining;
              (stop, delimiter) = frame_end framed
          in case skip_report targ (take stop framed) of
               Some report \<Rightarrow> Some report
             | None \<Rightarrow>
                 (case delimiter of
                    FrameEnds \<Rightarrow> None
                  | FrameNewline \<Rightarrow> scan_frames targ (drop (Suc stop) framed)
                  | FrameMarker \<Rightarrow> scan_frames targ (drop stop framed)))"
  by pat_completeness auto
termination
  by (relation "measure (\<lambda>(t, s). length s)") (auto dest: index_byte_less)

declare scan_frames.simps [simp del]

datatype framing_error = OutputTruncated

definition classify_test_framing :: "string \<Rightarrow> string \<Rightarrow> framing_error + (string \<times> string) option" where
  "classify_test_framing targ output =
     (case scan_frames targ output of
        Some report \<Rightarrow> Inr (Some report)
      | None \<Rightarrow> if has_prefix output output_truncated_prefix then Inl OutputTruncated else Inr None)"

section \<open>The lines the loop looks at\<close>

text \<open>The line of a piece of output, and the first report among lines.\<close>

definition first_line :: "string \<Rightarrow> string" where
  "first_line piece = takeWhile (\<lambda>c. c \<noteq> newline) piece"

fun first_report :: "string \<Rightarrow> string list \<Rightarrow> (string \<times> string) option" where
  "first_report targ [] = None"
| "first_report targ (line # lines) =
     (case skip_report targ line of Some report \<Rightarrow> Some report | None \<Rightarrow> first_report targ lines)"

lemma split_on_absent: "c \<notin> set s \<Longrightarrow> split_on c s = [s]"
  by (induction s) auto

lemma split_on_cut: "c \<notin> set a \<Longrightarrow> split_on c (a @ c # b) = a # split_on c b"
  by (induction a) auto

lemma split_on_nonempty [simp]: "split_on c s \<noteq> []"
  by (cases s) (auto split: list.splits)

lemma tl_split_on_skip: "c \<notin> set p \<Longrightarrow> tl (split_on c (p @ s)) = tl (split_on c s)"
  by (induction p) (auto split: list.splits)

lemma index_byte_None: "index_byte s c = None \<longleftrightarrow> c \<notin> set s"
proof -
  have "length (takeWhile (\<lambda>x. x \<noteq> c) s) < length s \<longleftrightarrow> c \<in> set s" by (induction s) auto
  then show ?thesis by (simp add: index_byte_def Let_def)
qed

lemma index_byte_Some:
  assumes "index_byte s c = Some n"
  obtains a b where "s = a @ c # b" "c \<notin> set a" "length a = n"
proof -
  have "s = takeWhile (\<lambda>x. x \<noteq> c) s @ dropWhile (\<lambda>x. x \<noteq> c) s" by simp
  moreover have "c \<in> set s" using assms index_byte_None [of s c] by auto
  then have "dropWhile (\<lambda>x. x \<noteq> c) s \<noteq> []" "hd (dropWhile (\<lambda>x. x \<noteq> c) s) = c"
    using hd_dropWhile [of "\<lambda>x. x \<noteq> c" s] by (auto simp: dropWhile_eq_Nil_conv)
  moreover have "c \<notin> set (takeWhile (\<lambda>x. x \<noteq> c) s)" by (auto dest: set_takeWhileD)
  moreover have "length (takeWhile (\<lambda>x. x \<noteq> c) s) = n" using assms by (auto simp: index_byte_def Let_def split: if_splits)
  ultimately show ?thesis using that by (metis list.collapse)
qed

lemma first_line_absent: "newline \<notin> set s \<Longrightarrow> first_line s = s"
  by (induction s) (auto simp: first_line_def)

lemma first_line_cut: "newline \<notin> set a \<Longrightarrow> first_line (a @ newline # b) = a"
  by (induction a) (auto simp: first_line_def)

text \<open>The line a frame stops at, and what the loop goes on with.\<close>

lemma frame_end_cases:
  assumes "frame_end framed = (stop, delimiter)"
  shows "take stop framed = first_line (hd (split_on frame_marker framed)) \<and>
    tl (split_on frame_marker framed) =
      (case delimiter of FrameEnds \<Rightarrow> []
       | FrameNewline \<Rightarrow> tl (split_on frame_marker (drop (Suc stop) framed))
       | FrameMarker \<Rightarrow> tl (split_on frame_marker (drop stop framed)))"
proof (cases "index_byte framed frame_marker")
  case None
  then have absent: "frame_marker \<notin> set framed" by (simp add: index_byte_None)
  show ?thesis
  proof (cases "index_byte framed newline")
    case None
    with assms absent \<open>index_byte framed frame_marker = None\<close> show ?thesis
      by (simp add: frame_end_def split_on_absent first_line_absent index_byte_None)
  next
    case (Some i)
    then obtain a b where "framed = a @ newline # b" "newline \<notin> set a" "length a = i" by (rule index_byte_Some)
    with assms absent Some \<open>index_byte framed frame_marker = None\<close> show ?thesis
      by (simp add: frame_end_def split_on_absent first_line_cut)
  qed
next
  case (Some j)
  then obtain p q where framed: "framed = p @ frame_marker # q" "frame_marker \<notin> set p" "length p = j" by (rule index_byte_Some)
  have pieces: "split_on frame_marker framed = p # split_on frame_marker q" using framed by (simp add: split_on_cut)
  have marked: "frame_marker \<noteq> newline" by (simp add: frame_marker_def)
  show ?thesis
  proof (cases "index_byte framed newline")
    case None
    have "stop = j" "delimiter = FrameMarker"
      using assms Some None framed(1,3) by (simp_all add: frame_end_def)
    moreover have "newline \<notin> set p" using None framed(1) by (auto simp: index_byte_None)
    ultimately show ?thesis using pieces framed by (simp add: first_line_absent)
  next
    case (Some i)
    then obtain a b where line: "framed = a @ newline # b" "newline \<notin> set a" "length a = i" by (rule index_byte_Some)
    show ?thesis
    proof (cases "i < j")
      case True
      then obtain k where k: "j = Suc (i + k)" by (metis less_iff_Suc_add)
      have "p = take j (a @ newline # b)" using framed line(1) by simp
      then have p: "p = a @ newline # take k b" using k line(3) by simp
      then have rest: "drop (Suc i) p = take k b" using line(3) by simp
      have "min i j \<noteq> j" "i \<noteq> j" using True by simp_all
      then have "stop = i" "delimiter = FrameNewline" using assms Some \<open>index_byte framed frame_marker = Some j\<close> by (simp_all add: frame_end_def)
      moreover have "drop (Suc i) framed = drop (Suc i) p @ frame_marker # q" using True framed by simp
      moreover have "frame_marker \<notin> set (drop (Suc i) p)" using framed(2) by (meson in_set_dropD)
      moreover have "first_line p = a" using p line(2) first_line_cut by simp
      moreover have "take i framed = a" using line by simp
      ultimately show ?thesis using pieces by (simp add: split_on_cut tl_split_on_skip)
    next
      case False
      then have "stop = j" "delimiter = FrameMarker"
        using assms Some \<open>index_byte framed frame_marker = Some j\<close> by (simp_all add: frame_end_def min_def split: if_splits)
      moreover have "newline \<notin> set p"
      proof -
        have "p = take j (a @ newline # b)" using framed line by simp
        then have "p = take j a" using False line(3) by simp
        with line(2) show ?thesis by (auto dest: in_set_takeD)
      qed
      ultimately show ?thesis using pieces framed by (simp add: first_line_absent)
    qed
  qed
qed

lemma scan_frames_reports:
  "scan_frames targ s = first_report targ (map first_line (tl (split_on frame_marker s)))"
proof (induction targ s rule: scan_frames.induct)
  case (1 targ remaining)
  show ?case
  proof (cases "index_byte remaining frame_marker")
    case None
    then show ?thesis by (simp add: scan_frames.simps [of targ remaining]) (simp add: split_on_absent index_byte_None)
  next
    case (Some marker)
    then obtain a framed where remaining: "remaining = a @ frame_marker # framed" "frame_marker \<notin> set a" "length a = marker"
      by (rule index_byte_Some)
    then have framed: "drop (Suc marker) remaining = framed" by simp
    obtain stop delimiter where stop: "frame_end framed = (stop, delimiter)" by (metis surj_pair)
    have pieces: "tl (split_on frame_marker remaining) = hd (split_on frame_marker framed) # tl (split_on frame_marker framed)"
      using remaining by (simp add: split_on_cut split_on_nonempty)
    note loop = scan_frames.simps [of targ remaining] Some framed stop pieces frame_end_cases [OF stop]
    show ?thesis
    proof (cases "skip_report targ (take stop framed)")
      case None
      then show ?thesis
        using 1 [OF Some framed [symmetric] stop [symmetric] refl None] by (simp add: loop split: frame_delimiter.split)
    next
      case (Some report)
      then show ?thesis by (simp add: loop)
    qed
  qed
qed

text \<open>
  C15. \<open>classifyTestFraming\<close> reads, of the output of a run, the line after every framing marker and
  nothing else, up to the first that reports a skip of the target or of one of its subtests; a
  truncated output without such a report is an error, not a pass.
\<close>

theorem classify_test_framing_lines:
  "classify_test_framing targ s =
     (case first_report targ (map first_line (tl (split_on frame_marker s))) of
        Some report \<Rightarrow> Inr (Some report)
      | None \<Rightarrow> if has_prefix s output_truncated_prefix then Inl OutputTruncated else Inr None)"
  by (simp add: classify_test_framing_def scan_frames_reports)

end
