(* ===== verification/Baseline.thy ===== *)
theory Baseline
  imports Probe TestFraming
begin

text \<open>
  The baseline (\<open>internal/assure/baseline.go\<close>): vet and build, one run per target and one per
  package suite with coverage, what each says, and the checkpoints written on the way. The
  commands, the go-mutants session, the files and the clock are functions of a world; the
  workers take the targets and the suites in an order that is an argument, and a run is one
  step of it. \<open>Targets\<close> of a result keep their coverage; its maps are association lists, and
  \<open>None\<close> where the code leaves the map \<open>nil\<close>.
\<close>

section \<open>The data\<close>

record command =
  cm_Argv :: "string list"
  cm_Dir :: string
  cm_Env :: "string list"
  cm_Timeout :: int

record go_model =
  gm_ModulePath :: string
  gm_Packages :: "go_package list option"

record baseline_item =
  bi_Target :: target
  bi_Environment :: "string list"

abbreviation bi_ID :: "baseline_item \<Rightarrow> string" where
  "bi_ID item \<equiv> t_ID (bi_Target item)"

text \<open>\<open>bo_Session\<close> is the catalog of \<open>ProbeSession\<close>; \<open>bo_Checkpoint\<close> says whether there is a callback.\<close>

record baseline_options =
  bo_ArtifactDirectory :: string
  bo_CommandTimeout :: int
  bo_TargetTimeout :: int
  bo_PackageSuites :: bool
  bo_SuiteEnvironment :: "string list"
  bo_Packages :: "string list"
  bo_BuildTags :: "string list"
  bo_TestArgs :: "string list"
  bo_UseTestFraming :: bool
  bo_ClassifyUserFailures :: bool
  bo_Resume :: "baseline_state option"
  bo_Checkpoint :: bool
  bo_Observer :: "repository_observer option"
  bo_Session :: "catalog option"
  bo_StopAfterChecks :: bool

record baseline_result =
  ba_Evidence :: "evidence list"
  ba_Findings :: "finding list"
  ba_Targets :: "target_evidence list"
  ba_Suites :: "(string \<times> package_suite_coverage) list option"
  ba_ProbeSuites :: "(string \<times> package_probe_evidence) list option"
  ba_Instrumented :: "file_coverage list"
  ba_Inventory :: "target_disposition list"
  ba_Executed :: int
  ba_Skipped :: int

text \<open>The world: \<open>bw_timedOut\<close> is the library's outcome \<open>ProbeTimedOut\<close>.\<close>

record 'w baseline_world =
  bw_exec :: "('w \<Rightarrow> command \<Rightarrow> (string + command_result) \<times> 'w) option"
  bw_probe :: "'w \<Rightarrow> probe_request \<Rightarrow> (probe_failure + probe_result) \<times> 'w"
  bw_timedOut :: probe_outcome
  bw_cancelled :: "'w \<Rightarrow> string option"
  bw_mkdir :: "'w \<Rightarrow> string \<Rightarrow> string option \<times> 'w"
  bw_read :: "'w \<Rightarrow> string \<Rightarrow> string + string"
  bw_files :: "'w log_files"
  bw_sha :: "string \<Rightarrow> string"

datatype baseline_error =
    NilBaselineWorkspace
  | NoArtifactDirectory
  | ArtifactDirectoryFailed string
  | CheckError string string
  | CheckFailed string int bool string
  | PackageAbsent string
  | CompileError string string
  | CompileFailed string int bool string
  | TargetRunError string string
  | TargetObservationFailed string
  | TargetFraming string framing_error
  | TargetCoverageUnread string string
  | TargetCoverageInvalid string coverage_error
  | SuiteRunError string string
  | SuiteObservationFailed string
  | SuiteCoverageUnread string string
  | SuiteCoverageInvalid string coverage_error
  | BaselineCancelled string
  | NilMapAssignment

record 'w baseline_effects =
  be_world :: 'w
  be_traced :: "probe_record list"
  be_saved :: "baseline_state list"
  be_progress :: "(nat \<times> nat) list"

record baseline_target_run =
  ut_unit :: baseline_target
  ut_evidence :: "target_evidence option"
  ut_instrumented :: "file_coverage list"

record package_suite_run =
  us_importPath :: string
  us_suite :: package_suite_coverage
  us_probe :: "package_probe_evidence option"
  us_measured :: bool

record package_control =
  cl_importPath :: string
  cl_relativeDir :: string
  cl_binary :: string
  cl_targets :: "baseline_item list"

text \<open>The local variables of \<open>CollectBaseline\<close>.\<close>

record baseline_progress =
  lp_result :: baseline_result
  lp_structural :: "finding list"
  lp_completed :: "(string \<times> baseline_target) list"
  lp_suites :: "(string \<times> baseline_suite) list"
  lp_measured :: "(string \<times> target_evidence) list"
  lp_anchored :: "string list"
  lp_vetted :: bool

definition set_world :: "'w \<Rightarrow> 'w baseline_effects \<Rightarrow> 'w baseline_effects" where
  "set_world w io = io\<lparr>be_world := w\<rparr>"

definition trace_probe :: "probe_record \<Rightarrow> 'w baseline_effects \<Rightarrow> 'w baseline_effects" where
  "trace_probe r io = io\<lparr>be_traced := be_traced io @ [r]\<rparr>"

section \<open>Coverage and evidence in a checkpoint\<close>

definition checkpoint_block :: "coverage_block \<Rightarrow> ck_block" where
  "checkpoint_block b = \<lparr>kb_StartLine = StartLine b, kb_StartColumn = StartColumn b, kb_EndLine = EndLine b, kb_EndColumn = EndColumn b\<rparr>"

definition checkpoint_coverage_value :: "file_coverage list \<Rightarrow> ck_coverage" where
  "checkpoint_coverage_value files =
     \<lparr>kc_Files = map (\<lambda>file. \<lparr>kf_Path = fc_path file, kf_Blocks = map checkpoint_block (fc_blocks file)\<rparr>) files\<rparr>"

definition restore_block :: "ck_block \<Rightarrow> coverage_block" where
  "restore_block b = \<lparr>StartLine = kb_StartLine b, StartColumn = kb_StartColumn b, EndLine = kb_EndLine b, EndColumn = kb_EndColumn b\<rparr>"

definition restore_checkpoint_coverage :: "ck_coverage option \<Rightarrow> file_coverage list option" where
  "restore_checkpoint_coverage saved =
     map_option (\<lambda>c. merge_file_coverage [] (map (\<lambda>file. \<lparr>fc_path = kf_Path file, fc_blocks = map restore_block (kf_Blocks file)\<rparr>)
       (kc_Files c))) saved"

definition files_of :: "'a list option \<Rightarrow> 'a list" where
  "files_of files = (case files of None \<Rightarrow> [] | Some fs \<Rightarrow> fs)"

definition checkpoint_target :: "target \<Rightarrow> ck_target" where
  "checkpoint_target t =
     \<lparr>kt_ID = t_ID t, kt_Name = t_Name t, kt_Kind = t_Kind t, kt_Package = t_Package t, kt_RelativeDir = t_RelativeDir t,
      kt_Path = t_Path t, kt_Line = t_Line t, kt_Capabilities = t_Capabilities t, kt_Dependencies = t_Dependencies t\<rparr>"

definition restore_target :: "ck_target \<Rightarrow> target" where
  "restore_target t =
     \<lparr>t_ID = kt_ID t, t_Name = kt_Name t, t_Kind = kt_Kind t, t_Package = kt_Package t, t_RelativeDir = kt_RelativeDir t,
      t_Path = kt_Path t, t_Line = kt_Line t, t_Capabilities = kt_Capabilities t, t_Dependencies = kt_Dependencies t\<rparr>"

definition checkpoint_target_evidence :: "target_evidence \<Rightarrow> ck_target_evidence" where
  "checkpoint_target_evidence t =
     \<lparr>ke_Target = checkpoint_target (te_Target t), ke_CoveredFiles = te_CoveredFiles t, ke_Environment = te_Environment t,
      ke_DurationNS = te_Duration t, ke_WholeTree = te_WholeTree t,
      ke_Coverage = Some (checkpoint_coverage_value (files_of (te_Covered t))), ke_Probed = te_Probed t,
      ke_ProbeDurationNS = te_ProbeDuration t, ke_Infected = te_Infected t,
      ke_Instrumented = Some (checkpoint_coverage_value (files_of (te_Instrumented t)))\<rparr>"

definition restore_target_evidence :: "ck_target_evidence \<Rightarrow> target_evidence" where
  "restore_target_evidence saved =
     \<lparr>te_Target = restore_target (ke_Target saved), te_CoveredFiles = ke_CoveredFiles saved,
      te_Covered = restore_checkpoint_coverage (ke_Coverage saved),
      te_Instrumented = restore_checkpoint_coverage (ke_Instrumented saved),
      te_Environment = ke_Environment saved, te_Duration = ke_DurationNS saved, te_ProbeDuration = ke_ProbeDurationNS saved,
      te_WholeTree = ke_WholeTree saved, te_Probed = ke_Probed saved, te_Infected = ke_Infected saved\<rparr>"

definition checkpoint_baseline_suite :: "package_suite_run \<Rightarrow> baseline_suite" where
  "checkpoint_baseline_suite run =
     (if \<not> us_measured run
      then \<lparr>bs_Package = us_importPath run, bs_Measured = False, bs_Covered = None, bs_Instrumented = None,
            bs_DurationNS = 0, bs_WholeTree = False\<rparr>
      else \<lparr>bs_Package = us_importPath run, bs_Measured = True,
            bs_Covered = Some (checkpoint_coverage_value (sv_Covered (us_suite run))),
            bs_Instrumented = Some (checkpoint_coverage_value (sv_Instrumented (us_suite run))),
            bs_DurationNS = sv_Duration (us_suite run), bs_WholeTree = sv_WholeTree (us_suite run)\<rparr>)"

definition restore_checkpoint_baseline_suite :: "baseline_suite \<Rightarrow> package_suite_coverage" where
  "restore_checkpoint_baseline_suite saved =
     \<lparr>sv_Covered = files_of (restore_checkpoint_coverage (bs_Covered saved)),
      sv_Instrumented = files_of (restore_checkpoint_coverage (bs_Instrumented saved)),
      sv_Duration = bs_DurationNS saved, sv_WholeTree = bs_WholeTree saved\<rparr>"

definition checkpoint_baseline_routing ::
  "file_coverage list \<Rightarrow> (string \<times> package_suite_coverage) list \<Rightarrow> baseline_routing" where
  "checkpoint_baseline_routing instrumented suites =
     \<lparr>br_Instrumented = checkpoint_coverage_value instrumented,
      br_Suites = map (\<lambda>pkg. let suite = the (map_of suites pkg) in
        \<lparr>su_Package = pkg, su_Covered = checkpoint_coverage_value (sv_Covered suite),
         su_Instrumented = checkpoint_coverage_value (sv_Instrumented suite), su_DurationNS = sv_Duration suite,
         su_WholeTree = sv_WholeTree suite\<rparr>) (sort_slice (remdups (map fst suites)))\<rparr>"

definition restore_baseline_routing ::
  "baseline_routing \<Rightarrow> bool \<Rightarrow> file_coverage list \<times> (string \<times> package_suite_coverage) list option" where
  "restore_baseline_routing saved package_suites =
     (files_of (restore_checkpoint_coverage (Some (br_Instrumented saved))),
      if \<not> package_suites then None
      else Some (fold (\<lambda>s suites. AList.update (su_Package s)
             \<lparr>sv_Covered = files_of (restore_checkpoint_coverage (Some (su_Covered s))),
              sv_Instrumented = files_of (restore_checkpoint_coverage (Some (su_Instrumented s))),
              sv_Duration = su_DurationNS s, sv_WholeTree = su_WholeTree s\<rparr> suites) (br_Suites saved) []))"

definition restrict_baseline_coverage :: "coverage \<Rightarrow> go_package list option \<Rightarrow> coverage" where
  "restrict_baseline_coverage c packages =
     (case packages of None \<Rightarrow> c | Some ps \<Rightarrow> restrict_coverage c (map pk_RelativeDir ps))"

text \<open>With \<open>nil\<close> packages the coverage stays as it is, \<open>nil\<close> or not.\<close>

definition restrict_target_evidence_to_packages :: "target_evidence \<Rightarrow> go_package list option \<Rightarrow> target_evidence" where
  "restrict_target_evidence_to_packages t packages =
     (let c = restrict_baseline_coverage \<lparr>Covered = files_of (te_Covered t), Instrumented = files_of (te_Instrumented t)\<rparr> packages
      in t\<lparr>te_Covered := (if packages = None then te_Covered t else Some (Covered c)),
           te_Instrumented := (if packages = None then te_Instrumented t else Some (Instrumented c)),
           te_CoveredFiles := covered_paths (Covered c)\<rparr>)"

section \<open>Commands\<close>

definition default_baseline_timeout :: int where "default_baseline_timeout = 600000000000"

definition baseline_go_command :: "string \<Rightarrow> string list \<Rightarrow> string list \<Rightarrow> string list" where
  "baseline_go_command operation tags packages =
     [''go'', operation] @ (if tags \<noteq> [] then [''-tags='' @ join '','' tags] else []) @ packages"

definition baseline_build_command :: "string list \<Rightarrow> string list \<Rightarrow> string list" where
  "baseline_build_command tags packages = baseline_go_command ''build'' tags [] @ [''-o'', ''/dev/null''] @ packages"

definition baseline_coverage_packages :: "string \<Rightarrow> go_package \<Rightarrow> string list" where
  "baseline_coverage_packages modulePath pkg =
     remdups_adj (sort_slice (pk_ImportPath pkg #
       filter (\<lambda>d. d = modulePath \<or> has_prefix d (modulePath @ ''/'')) (pk_Dependencies pkg)))"

definition baseline_compile_command :: "string list \<Rightarrow> string \<Rightarrow> string \<Rightarrow> string list \<Rightarrow> string list" where
  "baseline_compile_command packages importPath binary tags =
     baseline_go_command ''test'' tags [] @ [''-c''] @ [''-coverpkg='' @ join '','' packages, ''-o'', binary, importPath]"

definition test_framed_command :: "command \<Rightarrow> command" where
  "test_framed_command c =
     (case cm_Argv c of [] \<Rightarrow> c | program # arguments \<Rightarrow> c\<lparr>cm_Argv := [program, ''-test.v=test2json''] @ arguments\<rparr>)"

text \<open>Eight bytes of the hash, in hexadecimal; the extension is that of Unix.\<close>

definition binary_name :: "(string \<Rightarrow> string) \<Rightarrow> string \<Rightarrow> string" where
  "binary_name sha importPath = take 16 (sha importPath) @ ''.test''"

definition run_pattern :: "target \<Rightarrow> string" where
  "run_pattern t = ''-test.run=^'' @ quote_meta (t_Name t) @ ''$''"

definition target_command :: "string \<Rightarrow> string \<Rightarrow> string \<Rightarrow> baseline_item \<Rightarrow> int \<Rightarrow> command" where
  "target_command binary profile relativeDir item timeout =
     \<lparr>cm_Argv = [binary, run_pattern (bi_Target item), ''-test.coverprofile='' @ profile, ''-test.count=1''],
      cm_Dir = relativeDir, cm_Env = bi_Environment item, cm_Timeout = timeout\<rparr>"

definition prepared_baseline_target_request ::
  "string \<Rightarrow> string \<Rightarrow> baseline_item \<Rightarrow> int \<Rightarrow> baseline_options \<Rightarrow> probe_request" where
  "prepared_baseline_target_request importPath profile item timeout options =
     (let args = [run_pattern (bi_Target item), ''-test.coverprofile='' @ profile, ''-test.count=1''] @ bo_TestArgs options
      in \<lparr>pq_Package = importPath, pq_Args = (if bo_UseTestFraming options then ''-test.v=test2json'' # args else args),
          pq_Env = bi_Environment item, pq_Timeout = timeout\<rparr>)"

definition command_result_from_probe :: "probe_outcome \<Rightarrow> probe_result \<Rightarrow> command_result" where
  "command_result_from_probe timed_out result =
     \<lparr>com_TimedOut = (pr_Outcome result = timed_out), com_ExitCode = pr_ExitCode result, com_Output = pr_Output result,
      com_Duration = pr_Duration result\<rparr>"

definition validated_baseline_probe :: "probe_result \<Rightarrow> nat set \<Rightarrow> bool \<times> nat list" where
  "validated_baseline_probe result indices =
     (if pr_Outcome result \<noteq> ProbeMeasured then (False, [])
      else
        let infected = remdups_adj (sort_slice (pr_Infected result))
        in if list_ex (\<lambda>i. i \<notin> indices) infected then (False, []) else (True, infected))"

text \<open>The set \<open>probeIndices\<close> and the map \<open>probeIdentities\<close> of the options.\<close>

definition probe_indices :: "baseline_options \<Rightarrow> nat set" where
  "probe_indices options =
     (case bo_Session options of None \<Rightarrow> {} | Some cat \<Rightarrow> mu_Index ` set (filter mu_Probed (cat_Mutants cat)))"

definition probe_names :: "baseline_options \<Rightarrow> nat \<rightharpoonup> string" where
  "probe_names options = (case bo_Session options of None \<Rightarrow> (\<lambda>_. None) | Some cat \<Rightarrow> probe_mutant_identities cat)"

section \<open>What a run says\<close>

definition classify_target_failure :: "command_result \<Rightarrow> string \<times> string" where
  "classify_target_failure attempt =
     (if com_TimedOut attempt then (''baseline-timeout'', ''baseline target exceeded its execution budget'')
      else (''baseline-failure'', ''baseline target failed: '' @ summarize (com_Output attempt)))"

definition target_finding :: "(string \<Rightarrow> string) \<Rightarrow> target \<Rightarrow> string \<Rightarrow> string \<Rightarrow> finding" where
  "target_finding sha t kind summary =
     (let i = finding_id sha [''target'', t_ID t, kind]
      in \<lparr>f_ID = i, f_Kind = kind, f_Path = t_Path t, f_Line = t_Line t, f_Summary = summary,
          f_Replay = ''goatest replay '' @ i, f_Mutant = [], f_MutantID = []\<rparr>)"

definition baseline_classified_unit ::
  "baseline_item \<Rightarrow> string \<Rightarrow> string \<Rightarrow> int \<Rightarrow> bool \<Rightarrow> bool \<Rightarrow> target_evidence option \<Rightarrow> evidence list \<Rightarrow> finding list \<Rightarrow>
   baseline_target" where
  "baseline_classified_unit item status detail duration executed skipped measured items findings =
     (let t = bi_Target item;
          items = (if status = ''not-run'' \<and> items = []
                   then [\<lparr>ev_Kind = ''target'', ev_ID = t_ID t, ev_Status = status, ev_Detail = detail\<rparr>] else items)
      in \<lparr>bt_ID = t_ID t, bt_Executed = executed, bt_Skipped = skipped, bt_Evidence = items, bt_Findings = findings,
          bt_Inventory = \<lparr>td_ID = t_ID t, td_Name = t_Name t, td_Kind = t_Kind t, td_Package = t_Package t, td_Path = t_Path t,
            td_Line = max (t_Line t) 0, td_Status = status, td_DurationMS = trace_milliseconds duration, td_Detail = detail\<rparr>,
          bt_Target = map_option checkpoint_target_evidence measured\<rparr>)"

definition target_item_evidence :: "target \<Rightarrow> string \<Rightarrow> evidence" where
  "target_item_evidence t status = \<lparr>ev_Kind = ''target'', ev_ID = t_ID t, ev_Status = status, ev_Detail = t_Name t\<rparr>"

definition skipped_run :: "(string \<Rightarrow> string) \<Rightarrow> baseline_item \<Rightarrow> string \<Rightarrow> string \<Rightarrow> int \<Rightarrow> baseline_target_run" where
  "skipped_run sha item kind summary duration =
     \<lparr>ut_unit = baseline_classified_unit item ''skipped'' summary duration False True None
        [target_item_evidence (bi_Target item) ''skipped''] [target_finding sha (bi_Target item) kind summary],
      ut_evidence = None, ut_instrumented = []\<rparr>"

definition failed_run :: "(string \<Rightarrow> string) \<Rightarrow> baseline_item \<Rightarrow> command_result \<Rightarrow> baseline_target_run" where
  "failed_run sha item attempt =
     (let (kind, summary) = classify_target_failure attempt
      in \<lparr>ut_unit = baseline_classified_unit item ''failed'' summary (com_Duration attempt) True False None []
            [target_finding sha (bi_Target item) kind summary],
          ut_evidence = None, ut_instrumented = []\<rparr>)"

definition passed_run ::
  "baseline_item \<Rightarrow> coverage \<Rightarrow> int \<Rightarrow> bool \<Rightarrow> bool \<times> nat list \<Rightarrow> baseline_target_run" where
  "passed_run item c duration widened probe =
     (let measured = \<lparr>te_Target = bi_Target item, te_CoveredFiles = covered_paths (Covered c), te_Covered = Some (Covered c),
            te_Instrumented = Some (Instrumented c), te_Environment = bi_Environment item, te_Duration = duration,
            te_ProbeDuration = 0, te_WholeTree = widened, te_Probed = fst probe, te_Infected = snd probe\<rparr>
      in \<lparr>ut_unit = baseline_classified_unit item ''passed'' [] duration True False (Some measured)
            [target_item_evidence (bi_Target item) ''passed''] [],
          ut_evidence = Some measured, ut_instrumented = Instrumented c\<rparr>)"

text \<open>The coverage profile of a run, restricted to the packages of the module.\<close>

definition read_profile ::
  "'w baseline_world \<Rightarrow> go_model \<Rightarrow> (string \<Rightarrow> baseline_error) \<Rightarrow> (coverage_error \<Rightarrow> baseline_error) \<Rightarrow> string \<Rightarrow> 'w \<Rightarrow>
   baseline_error + coverage" where
  "read_profile world model unread invalid profile w =
     (case bw_read world w profile of
        Inl e \<Rightarrow> Inl (unread e)
      | Inr bytes \<Rightarrow>
          (case parse_coverage bytes (gm_ModulePath model) of
             Inl e \<Rightarrow> Inl (invalid e)
           | Inr c \<Rightarrow> Inr (restrict_baseline_coverage c (gm_Packages model))))"

text \<open>The end of both target runs: the profile of a run that passed, or what went wrong.\<close>

definition settle_target_run ::
  "'w baseline_world \<Rightarrow> go_model \<Rightarrow> baseline_options \<Rightarrow> baseline_item \<Rightarrow> string \<Rightarrow> command_result \<Rightarrow> bool \<Rightarrow> bool \<Rightarrow>
   bool \<times> nat list \<Rightarrow> 'w \<Rightarrow> baseline_error + baseline_target_run" where
  "settle_target_run world model options item profile first failed widened probe w =
     (let name = t_Name (bi_Target item);
          framing = classify_test_framing name (com_Output first) in
      case framing of
        Inl e \<Rightarrow> if bo_UseTestFraming options then Inl (TargetFraming name e)
                 else if failed then Inr (failed_run (bw_sha world) item first)
                 else map_sum id (\<lambda>c. passed_run item c (com_Duration first) widened probe)
                   (read_profile world model (TargetCoverageUnread name) (TargetCoverageInvalid name) profile w)
      | Inr (Some (kind, summary)) \<Rightarrow> Inr (skipped_run (bw_sha world) item kind summary (com_Duration first))
      | Inr None \<Rightarrow> if failed then Inr (failed_run (bw_sha world) item first)
                 else map_sum id (\<lambda>c. passed_run item c (com_Duration first) widened probe)
                   (read_profile world model (TargetCoverageUnread name) (TargetCoverageInvalid name) profile w))"

section \<open>One target\<close>

definition execute_baseline_target ::
  "'w baseline_world \<Rightarrow> ('w \<Rightarrow> command \<Rightarrow> (string + command_result) \<times> 'w) \<Rightarrow> go_model \<Rightarrow> baseline_options \<Rightarrow> package_control \<Rightarrow>
   baseline_item \<Rightarrow> int \<Rightarrow> 'w baseline_effects \<Rightarrow> (baseline_error + baseline_target_run) \<times> 'w baseline_effects" where
  "execute_baseline_target world exec model options control item timeout io =
     (let t = bi_Target item;
          profile = path_join (bo_ArtifactDirectory options) (t_ID t @ ''.cover'');
          command = target_command (cl_binary control) profile (cl_relativeDir control) item timeout;
          command = command\<lparr>cm_Argv := cm_Argv command @ bo_TestArgs options\<rparr>;
          ((arguments, pending), w) = instrument_package (bw_files world) (bo_Observer options) (be_world io)
            (cl_importPath control) (cm_Argv command);
          observed = command\<lparr>cm_Argv := arguments\<rparr>;
          observed = (if bo_UseTestFraming options then test_framed_command observed else observed);
          (reply, w) = exec w observed;
          (observation, w) = finish_observation (bw_files world) (bo_Observer options) w pending;
          io = set_world w io
      in case reply of
           Inl e \<Rightarrow> (Inl (TargetRunError (t_Name t) e), io)
         | Inr first \<Rightarrow>
             if repository_test_log_failure (com_Output first) (cm_Argv observed)
             then (Inl (TargetObservationFailed (t_Name t)), io)
             else (settle_target_run world model options item profile first (com_TimedOut first \<or> com_ExitCode first \<noteq> 0)
                     (whole_tree (bo_Observer options) t observation) (False, []) w, io))"

definition execute_prepared_baseline_target ::
  "'w baseline_world \<Rightarrow> go_model \<Rightarrow> baseline_options \<Rightarrow> string \<Rightarrow> baseline_item \<Rightarrow> int \<Rightarrow> 'w baseline_effects \<Rightarrow>
   (baseline_error + baseline_target_run) \<times> 'w baseline_effects" where
  "execute_prepared_baseline_target world model options importPath item timeout io =
     (let t = bi_Target item;
          profile = path_join (bo_ArtifactDirectory options) (t_ID t @ ''.cover'');
          request = prepared_baseline_target_request importPath profile item timeout options;
          ((arguments, pending), w) = instrument_package (bw_files world) (bo_Observer options) (be_world io) importPath (pq_Args request);
          (reply, w) = bw_probe world w (request\<lparr>pq_Args := arguments\<rparr>);
          (observation, w) = finish_observation (bw_files world) (bo_Observer options) w pending;
          io = set_world w io;
          failed = probe_request_record (t_ID t) False request
      in case reply of
           Inl e \<Rightarrow> (Inl (TargetRunError (t_Name t) (failure_text e)), trace_probe (failed\<lparr>px_Error := failure_text e\<rparr>) io)
         | Inr result \<Rightarrow>
             if repository_test_log_failure (pr_Output result) arguments
             then (Inl (TargetObservationFailed (t_Name t)), trace_probe (failed\<lparr>px_Error :=
                     ''goatest: repository observation for baseline target '' @ t_Name t @ '' failed''\<rparr>) io)
             else
               let reason = whole_tree_reason_of (bo_Observer options) t observation;
                   (measured, _, _) = probe_result_record (t_ID t) False request result (probe_names options);
                   measured = measured\<lparr>px_WholeTreeReason := reason_text reason, px_WholeTree := (reason \<noteq> Observed)\<rparr>
               in (settle_target_run world model options item profile (command_result_from_probe (bw_timedOut world) result)
                     (pr_Outcome result \<noteq> ProbeMeasured) (reason \<noteq> Observed)
                     (validated_baseline_probe result (probe_indices options)) w,
                   trace_probe measured io))"

section \<open>One package suite\<close>

definition suite_run ::
  "string \<Rightarrow> coverage \<Rightarrow> int \<Rightarrow> bool \<Rightarrow> package_probe_evidence option \<Rightarrow> package_suite_run" where
  "suite_run importPath c duration widened probe =
     \<lparr>us_importPath = importPath,
      us_suite = \<lparr>sv_Covered = Covered c, sv_Instrumented = Instrumented c, sv_Duration = duration, sv_WholeTree = widened\<rparr>,
      us_probe = probe, us_measured = True\<rparr>"

definition unmeasured_suite_run :: "string \<Rightarrow> package_suite_run" where
  "unmeasured_suite_run importPath =
     \<lparr>us_importPath = importPath, us_suite = \<lparr>sv_Covered = [], sv_Instrumented = [], sv_Duration = 0, sv_WholeTree = False\<rparr>,
      us_probe = None, us_measured = False\<rparr>"

definition suite_profile :: "'w baseline_world \<Rightarrow> baseline_options \<Rightarrow> string \<Rightarrow> string" where
  "suite_profile world options importPath =
     path_join (bo_ArtifactDirectory options) (binary_name (bw_sha world) importPath @ ''.suite.cover'')"

definition collect_prepared_package_suite_coverage ::
  "'w baseline_world \<Rightarrow> go_model \<Rightarrow> baseline_options \<Rightarrow> string \<Rightarrow> int \<Rightarrow> target_evidence list \<Rightarrow> 'w baseline_effects \<Rightarrow>
   (baseline_error + package_suite_run) \<times> 'w baseline_effects" where
  "collect_prepared_package_suite_coverage world model options importPath timeout targets io =
     (let profile = suite_profile world options importPath;
          request = \<lparr>pq_Package = importPath,
            pq_Args = [''-test.coverprofile='' @ profile, ''-test.count=1''] @ bo_TestArgs options,
            pq_Env = bo_SuiteEnvironment options,
            pq_Timeout = control_execution_timeout timeout [package_suite_control_duration targets importPath]\<rparr>;
          ((arguments, pending), w) = instrument_package (bw_files world) (bo_Observer options) (be_world io) importPath (pq_Args request);
          (reply, w) = bw_probe world w (request\<lparr>pq_Args := arguments\<rparr>);
          (observation, w) = finish_observation (bw_files world) (bo_Observer options) w pending;
          io = set_world w io;
          failed = probe_request_record (package_suite_probe_target importPath) True request
      in case reply of
           Inl e \<Rightarrow> (Inl (SuiteRunError importPath (failure_text e)), trace_probe (failed\<lparr>px_Error := failure_text e\<rparr>) io)
         | Inr result \<Rightarrow>
             if repository_test_log_failure (pr_Output result) arguments
             then (Inl (SuiteObservationFailed importPath), trace_probe (failed\<lparr>px_Error :=
                     ''goatest: repository observation for baseline package suite '' @ importPath @ '' failed''\<rparr>) io)
             else
               let reason = whole_tree_suite_reason (bo_Observer options) importPath observation;
                   (measured, _, _) = probe_result_record (package_suite_probe_target importPath) True request result (probe_names options);
                   measured = measured\<lparr>px_WholeTreeReason := reason_text reason, px_WholeTree := (reason \<noteq> Observed)\<rparr>;
                   io = trace_probe measured io
               in if pr_Outcome result \<noteq> ProbeMeasured then (Inr (unmeasured_suite_run importPath), io)
                  else case read_profile world model (SuiteCoverageUnread importPath) (SuiteCoverageInvalid importPath) profile w of
                         Inl e \<Rightarrow> (Inl e, io)
                       | Inr c \<Rightarrow>
                           let (probed, infected) = validated_baseline_probe result (probe_indices options)
                           in (Inr (suite_run importPath c (pr_Duration result) (reason \<noteq> Observed)
                                 (if probed then Some \<lparr>pe_Measured = True, pe_Infected = infected, pe_Duration = 0,
                                                        pe_WholeTree = (reason \<noteq> Observed)\<rparr> else None)), io))"

definition collect_package_suite_coverage ::
  "'w baseline_world \<Rightarrow> ('w \<Rightarrow> command \<Rightarrow> (string + command_result) \<times> 'w) \<Rightarrow> go_model \<Rightarrow> baseline_options \<Rightarrow> package_control \<Rightarrow>
   int \<Rightarrow> target_evidence list \<Rightarrow> 'w baseline_effects \<Rightarrow> (baseline_error + package_suite_run) \<times> 'w baseline_effects" where
  "collect_package_suite_coverage world exec model options control timeout targets io =
     (let importPath = cl_importPath control;
          profile = suite_profile world options importPath;
          command = \<lparr>cm_Argv = [cl_binary control, ''-test.coverprofile='' @ profile, ''-test.count=1''] @ bo_TestArgs options,
            cm_Dir = cl_relativeDir control, cm_Env = bo_SuiteEnvironment options,
            cm_Timeout = control_execution_timeout timeout [package_suite_control_duration targets importPath]\<rparr>;
          ((arguments, pending), w) = instrument_package (bw_files world) (bo_Observer options) (be_world io) importPath (cm_Argv command);
          (reply, w) = exec w (command\<lparr>cm_Argv := arguments\<rparr>);
          (observation, w) = finish_observation (bw_files world) (bo_Observer options) w pending;
          io = set_world w io
      in case reply of
           Inl e \<Rightarrow> (Inl (SuiteRunError importPath e), io)
         | Inr run \<Rightarrow>
             if repository_test_log_failure (com_Output run) arguments then (Inl (SuiteObservationFailed importPath), io)
             else if com_TimedOut run \<or> com_ExitCode run \<noteq> 0 then (Inr (unmeasured_suite_run importPath), io)
             else (map_sum id (\<lambda>c. suite_run importPath c (com_Duration run) (whole_tree_suite (bo_Observer options) importPath observation) None)
                     (read_profile world model (SuiteCoverageUnread importPath) (SuiteCoverageInvalid importPath) profile w), io))"

section \<open>Checkpoints of the baseline\<close>

definition baseline_check_evidence :: "evidence list \<Rightarrow> evidence list" where
  "baseline_check_evidence items = filter (\<lambda>item. ev_Kind item = ''baseline'') items"

definition strip_instrumentation :: "baseline_target \<Rightarrow> baseline_target" where
  "strip_instrumentation unit = unit\<lparr>bt_Target := map_option (\<lambda>t. t\<lparr>ke_Instrumented := None\<rparr>) (bt_Target unit)\<rparr>"

text \<open>The state \<open>checkpointNow\<close> builds.\<close>

definition baseline_checkpoint :: "bool \<Rightarrow> baseline_progress \<Rightarrow> baseline_state" where
  "baseline_checkpoint complete p =
     (let units = map (\<lambda>i. the (map_of (lp_completed p) i)) (sort_slice (map fst (lp_completed p)))
      in \<lparr>bl_BuildVetComplete = lp_vetted p, bl_Complete = complete,
          bl_Evidence = baseline_check_evidence (ba_Evidence (lp_result p)), bl_Findings = lp_structural p,
          bl_Targets = (if complete then map strip_instrumentation units else units),
          bl_Suites = (if complete then []
                       else map (\<lambda>i. the (map_of (lp_suites p) i)) (sort_slice (map fst (lp_suites p)))),
          bl_Routing = (if complete
            then Some (checkpoint_baseline_routing (ba_Instrumented (lp_result p)) (files_of (ba_Suites (lp_result p))))
            else None)\<rparr>)"

definition checkpoint_now :: "baseline_options \<Rightarrow> bool \<Rightarrow> baseline_progress \<Rightarrow> 'w baseline_effects \<Rightarrow> 'w baseline_effects" where
  "checkpoint_now options complete p io =
     (if bo_Checkpoint options then io\<lparr>be_saved := be_saved io @ [baseline_checkpoint complete p]\<rparr> else io)"

definition publish_progress :: "baseline_progress \<Rightarrow> baseline_item list \<Rightarrow> 'w baseline_effects \<Rightarrow> 'w baseline_effects" where
  "publish_progress p items io = io\<lparr>be_progress := be_progress io @ [(length (lp_completed p), length items)]\<rparr>"

definition complete_unit :: "baseline_target \<Rightarrow> baseline_progress \<Rightarrow> baseline_progress" where
  "complete_unit unit p = p\<lparr>lp_completed := AList.update (bt_ID unit) unit (lp_completed p)\<rparr>"

definition add_structural :: "finding \<Rightarrow> baseline_progress \<Rightarrow> baseline_progress" where
  "add_structural f p =
     p\<lparr>lp_result := (lp_result p)\<lparr>ba_Findings := ba_Findings (lp_result p) @ [f]\<rparr>, lp_structural := lp_structural p @ [f]\<rparr>"

definition merge_instrumented :: "file_coverage list \<Rightarrow> baseline_progress \<Rightarrow> baseline_progress" where
  "merge_instrumented files p =
     p\<lparr>lp_result := (lp_result p)\<lparr>ba_Instrumented := merge_file_coverage (ba_Instrumented (lp_result p)) files\<rparr>\<rparr>"

section \<open>What is resumed\<close>

definition baseline_start :: "baseline_options \<Rightarrow> baseline_progress" where
  "baseline_start options =
     \<lparr>lp_result = \<lparr>ba_Evidence = [], ba_Findings = [], ba_Targets = [],
        ba_Suites = (if bo_PackageSuites options then Some [] else None),
        ba_ProbeSuites = (if bo_PackageSuites options \<and> bo_Session options \<noteq> None then Some [] else None),
        ba_Instrumented = [], ba_Inventory = [], ba_Executed = 0, ba_Skipped = 0\<rparr>,
      lp_structural = [], lp_completed = [], lp_suites = [], lp_measured = [], lp_anchored = [], lp_vetted = False\<rparr>"

definition resume_unit :: "go_model \<Rightarrow> baseline_target \<Rightarrow> baseline_progress \<Rightarrow> baseline_progress" where
  "resume_unit model unit p =
     (case bt_Target unit of
        None \<Rightarrow> complete_unit unit p
      | Some saved \<Rightarrow>
          let resumed = restrict_target_evidence_to_packages (restore_target_evidence saved) (gm_Packages model);
              kept = checkpoint_target_evidence resumed;
              p = merge_instrumented (files_of (te_Instrumented resumed)) p;
              p = (if ke_Instrumented kept \<noteq> None then p\<lparr>lp_anchored := kt_Package (ke_Target kept) # lp_anchored p\<rparr> else p)
          in complete_unit (unit\<lparr>bt_Target := Some kept\<rparr>) p)"

definition resume_suite :: "baseline_suite \<Rightarrow> baseline_progress \<Rightarrow> baseline_progress" where
  "resume_suite unit p =
     (let p = p\<lparr>lp_suites := AList.update (bs_Package unit) unit (lp_suites p)\<rparr> in
      if \<not> bs_Measured unit then p
      else
        let suite = restore_checkpoint_baseline_suite unit
        in merge_instrumented (sv_Instrumented suite)
             (p\<lparr>lp_result := (lp_result p)\<lparr>ba_Suites := map_option (AList.update (bs_Package unit) suite) (ba_Suites (lp_result p))\<rparr>\<rparr>))"

text \<open>The progress after the checkpoint is read, and \<open>resumeRouting\<close>.\<close>

definition resume_baseline :: "go_model \<Rightarrow> baseline_options \<Rightarrow> baseline_progress \<times> bool" where
  "resume_baseline model options =
     (case bo_Resume options of
        None \<Rightarrow> (baseline_start options, False)
      | Some saved \<Rightarrow>
          let p = baseline_start options;
              p = p\<lparr>lp_vetted := bl_BuildVetComplete saved, lp_structural := bl_Findings saved,
                   lp_result := (lp_result p)\<lparr>ba_Evidence := bl_Evidence saved, ba_Findings := bl_Findings saved\<rparr>\<rparr>;
              p = fold (resume_unit model) (bl_Targets saved) p;
              p = (if bo_PackageSuites options then fold resume_suite (bl_Suites saved) p else p)
          in case bl_Routing saved of
               Some routing \<Rightarrow>
                 if bl_Complete saved then
                   let (instrumented, suites) = restore_baseline_routing routing (bo_PackageSuites options)
                   in (p\<lparr>lp_result := (lp_result p)\<lparr>ba_Instrumented := instrumented, ba_Suites := suites\<rparr>\<rparr>, True)
                 else (p, False)
             | None \<Rightarrow> (p, False))"

section \<open>Vet and build\<close>

datatype ('a, 'r) baseline_step = BaselineFails baseline_error | BaselineReturns 'r | BaselineGoesOn 'a

definition completed_item :: "baseline_progress \<Rightarrow> baseline_item \<Rightarrow> bool" where
  "completed_item p item \<longleftrightarrow> map_of (lp_completed p) (bi_ID item) \<noteq> None"

definition append_baseline_unit :: "baseline_target \<Rightarrow> target_evidence option \<Rightarrow> baseline_result \<Rightarrow> baseline_result" where
  "append_baseline_unit unit measured r =
     r\<lparr>ba_Evidence := ba_Evidence r @ bt_Evidence unit, ba_Findings := ba_Findings r @ bt_Findings unit,
       ba_Inventory := ba_Inventory r @ [bt_Inventory unit],
       ba_Executed := (if bt_Executed unit then ba_Executed r + 1 else ba_Executed r),
       ba_Skipped := (if bt_Skipped unit then ba_Skipped r + 1 else ba_Skipped r),
       ba_Targets := ba_Targets r @
         (case measured of
            Some t \<Rightarrow> [t\<lparr>te_Instrumented := None\<rparr>]
          | None \<Rightarrow> (case bt_Target unit of
                       Some saved \<Rightarrow> [(restore_target_evidence saved)\<lparr>te_Instrumented := None\<rparr>]
                     | None \<Rightarrow> []))\<rparr>"

text \<open>\<open>measured\<close> is the map of the targets this call measured, empty where the code passes \<open>nil\<close>.\<close>

definition append_completed_baseline_targets ::
  "baseline_item list \<Rightarrow> (string \<times> baseline_target) list \<Rightarrow> (string \<times> target_evidence) list \<Rightarrow> baseline_result \<Rightarrow> baseline_result" where
  "append_completed_baseline_targets items completed measured r =
     fold (\<lambda>item r. case map_of completed (bi_ID item) of
         None \<Rightarrow> r
       | Some unit \<Rightarrow> append_baseline_unit unit (map_of measured (bi_ID item)) r) items r"

definition completed_target_evidence :: "baseline_item list \<Rightarrow> (string \<times> baseline_target) list \<Rightarrow> target_evidence list" where
  "completed_target_evidence items completed =
     concat (map (\<lambda>item. case map_of completed (bi_ID item) of
         None \<Rightarrow> []
       | Some unit \<Rightarrow> (case bt_Target unit of None \<Rightarrow> [] | Some saved \<Rightarrow> [restore_target_evidence saved])) items)"

definition not_run_unit :: "string \<Rightarrow> baseline_item \<Rightarrow> baseline_target" where
  "not_run_unit detail item = baseline_classified_unit item ''not-run'' detail 0 False True None [] []"

definition check_failure :: "(string \<Rightarrow> string) \<Rightarrow> string \<Rightarrow> string \<Rightarrow> command_result \<Rightarrow> finding" where
  "check_failure sha kind name run =
     \<lparr>f_ID = finding_id sha [''baseline'', kind], f_Kind = kind, f_Path = [], f_Line = 0,
      f_Summary = name @ '' rejected the project: '' @ summarize (com_Output run), f_Replay = [], f_Mutant = [], f_MutantID = []\<rparr>"

definition reject_project ::
  "(string \<Rightarrow> string) \<Rightarrow> string \<Rightarrow> string \<Rightarrow> command_result \<Rightarrow> baseline_item list \<Rightarrow> baseline_progress \<Rightarrow> 'w baseline_effects \<Rightarrow>
   baseline_result \<times> 'w baseline_effects" where
  "reject_project sha name kind run items p io =
     (let p = add_structural (check_failure sha kind name run) p;
          p = fold (\<lambda>item p. if completed_item p item then p else complete_unit (not_run_unit (name @ '' failed'') item) p) items p
      in (append_completed_baseline_targets items (lp_completed p) [] (lp_result p), publish_progress p items io))"

text \<open>A check is its name, the kind of its finding and its arguments.\<close>

fun run_checks ::
  "'w baseline_world \<Rightarrow> ('w \<Rightarrow> command \<Rightarrow> (string + command_result) \<times> 'w) \<Rightarrow> baseline_options \<Rightarrow> baseline_item list \<Rightarrow> int \<Rightarrow>
   (string \<times> string \<times> string list) list \<Rightarrow> baseline_progress \<times> 'w baseline_effects \<Rightarrow>
   (baseline_progress, baseline_result) baseline_step \<times> 'w baseline_effects" where
  "run_checks world exec options items timeout [] (p, io) = (BaselineGoesOn p, io)"
| "run_checks world exec options items timeout ((name, kind, argv) # checks) (p, io) =
     (let (reply, w) = exec (be_world io) \<lparr>cm_Argv = argv, cm_Dir = [], cm_Env = [], cm_Timeout = timeout\<rparr>;
          io = set_world w io
      in case reply of
           Inl e \<Rightarrow> (BaselineFails (CheckError name e), io)
         | Inr run \<Rightarrow>
             if com_TimedOut run \<or> com_ExitCode run \<noteq> 0 \<and> \<not> bo_ClassifyUserFailures options
             then (BaselineFails (CheckFailed name (com_ExitCode run) (com_TimedOut run) (summarize (com_Output run))), io)
             else if com_ExitCode run \<noteq> 0 then
               let (r, io) = reject_project (bw_sha world) name kind run items p io in (BaselineReturns r, io)
             else run_checks world exec options items timeout checks
               (p\<lparr>lp_result := (lp_result p)\<lparr>ba_Evidence := ba_Evidence (lp_result p) @
                    [\<lparr>ev_Kind = ''baseline'', ev_ID = name, ev_Status = ''passed'', ev_Detail = []\<rparr>]\<rparr>\<rparr>, io))"

definition baseline_checks :: "baseline_options \<Rightarrow> (string \<times> string \<times> string list) list" where
  "baseline_checks options =
     (let patterns = (if bo_Packages options = [] then [''./...''] else bo_Packages options)
      in [(''go vet'', ''vet-failure'', baseline_go_command ''vet'' (bo_BuildTags options) patterns),
          (''go build'', ''build-failure'', baseline_build_command (bo_BuildTags options) patterns)])"

section \<open>The packages to measure\<close>

text \<open>\<open>packageTargets\<close> of an import path: its targets that are not completed.\<close>

definition package_targets :: "baseline_progress \<Rightarrow> baseline_item list \<Rightarrow> string \<Rightarrow> baseline_item list" where
  "package_targets p items importPath =
     filter (\<lambda>item. t_Package (bi_Target item) = importPath \<and> \<not> completed_item p item) items"

definition package_suites :: "baseline_options \<Rightarrow> baseline_progress \<Rightarrow> bool \<Rightarrow> baseline_item list \<Rightarrow> string list" where
  "package_suites options p resume_routing items =
     (if \<not> bo_PackageSuites options \<or> resume_routing then []
      else
        let mutated = (case bo_Session options of None \<Rightarrow> []
              | Some cat \<Rightarrow> map mu_Package (filter (\<lambda>m. mu_Accepted m \<and> mu_Package m \<noteq> []) (cat_Mutants cat)))
        in remdups (filter (\<lambda>pkg. map_of (lp_suites p) pkg = None)
             (map (\<lambda>item. t_Package (bi_Target item)) items @ mutated)))"

definition baseline_imports :: "baseline_progress \<Rightarrow> baseline_item list \<Rightarrow> string list \<Rightarrow> string list" where
  "baseline_imports p items suites =
     sort_slice (remdups (map (\<lambda>item. t_Package (bi_Target item)) (filter (\<lambda>item. \<not> completed_item p item) items) @ suites))"

definition package_by_import :: "go_model \<Rightarrow> string \<rightharpoonup> go_package" where
  "package_by_import model = map_of (rev (map (\<lambda>pkg. (pk_ImportPath pkg, pkg)) (files_of (gm_Packages model))))"

definition build_failure :: "(string \<Rightarrow> string) \<Rightarrow> string \<Rightarrow> command_result \<Rightarrow> finding" where
  "build_failure sha importPath compiled =
     \<lparr>f_ID = finding_id sha [''test-binary-build'', importPath], f_Kind = ''test-binary-build-failure'', f_Path = [], f_Line = 0,
      f_Summary = ''the package test binary did not compile: '' @ summarize (com_Output compiled), f_Replay = [], f_Mutant = [], f_MutantID = []\<rparr>"

definition reject_package ::
  "'w baseline_world \<Rightarrow> baseline_options \<Rightarrow> baseline_item list \<Rightarrow> baseline_item list \<Rightarrow> bool \<Rightarrow> string \<Rightarrow> command_result \<Rightarrow>
   baseline_progress \<times> 'w baseline_effects \<Rightarrow> baseline_progress \<times> 'w baseline_effects" where
  "reject_package world options items own suite importPath compiled pio =
     (let (p, io) = pio;
          p = add_structural (build_failure (bw_sha world) importPath compiled) p;
          p = fold (\<lambda>item. complete_unit (not_run_unit ''test binary did not compile'' item)) own p;
          p = (if suite then p\<lparr>lp_suites := AList.update importPath
                 \<lparr>bs_Package = importPath, bs_Measured = False, bs_Covered = None, bs_Instrumented = None, bs_DurationNS = 0,
                  bs_WholeTree = False\<rparr> (lp_suites p)\<rparr> else p)
      in (p, checkpoint_now options False p (publish_progress p items io)))"

text \<open>One turn of the loop over the import paths: the control of the package, or none when it was rejected.\<close>

definition prepare_package ::
  "'w baseline_world \<Rightarrow> ('w \<Rightarrow> command \<Rightarrow> (string + command_result) \<times> 'w) \<Rightarrow> go_model \<Rightarrow> baseline_options \<Rightarrow> baseline_item list \<Rightarrow>
   int \<Rightarrow> baseline_item list \<Rightarrow> bool \<Rightarrow> string \<Rightarrow> baseline_progress \<times> 'w baseline_effects \<Rightarrow>
   (baseline_error + package_control option) \<times> baseline_progress \<times> 'w baseline_effects" where
  "prepare_package world exec model options items timeout own suite importPath pio =
     (let (p, io) = pio in
      case package_by_import model importPath of
        None \<Rightarrow> (Inl (PackageAbsent importPath), p, io)
      | Some pkg \<Rightarrow>
          let control = \<lparr>cl_importPath = importPath, cl_relativeDir = pk_RelativeDir pkg, cl_binary = [], cl_targets = own\<rparr> in
          if bo_Session options \<noteq> None then (Inr (Some control), p, io)
          else
            let binary = path_join (bo_ArtifactDirectory options) (binary_name (bw_sha world) importPath);
                (reply, w) = exec (be_world io) \<lparr>cm_Argv = baseline_compile_command
                    (baseline_coverage_packages (gm_ModulePath model) pkg) importPath binary (bo_BuildTags options),
                  cm_Dir = [], cm_Env = [], cm_Timeout = timeout\<rparr>;
                io = set_world w io
            in case reply of
                 Inl e \<Rightarrow> (Inl (CompileError importPath e), p, io)
               | Inr compiled \<Rightarrow>
                   if com_TimedOut compiled \<or> com_ExitCode compiled \<noteq> 0 \<and> \<not> bo_ClassifyUserFailures options
                   then (Inl (CompileFailed importPath (com_ExitCode compiled) (com_TimedOut compiled)
                           (summarize (com_Output compiled))), p, io)
                   else if com_ExitCode compiled \<noteq> 0
                   then (Inr None, reject_package world options items own suite importPath compiled (p, io))
                   else (Inr (Some (control\<lparr>cl_binary := binary\<rparr>)), p, io))"

text \<open>
  The loop. \<open>start\<close> is the progress before it, from which \<open>packageTargets\<close> was filled, and
  \<open>suites\<close> is \<open>packageSuites\<close>.
\<close>

fun prepare_packages ::
  "'w baseline_world \<Rightarrow> ('w \<Rightarrow> command \<Rightarrow> (string + command_result) \<times> 'w) \<Rightarrow> go_model \<Rightarrow> baseline_options \<Rightarrow> baseline_item list \<Rightarrow>
   int \<Rightarrow> baseline_progress \<Rightarrow> string list \<Rightarrow> string list \<Rightarrow> package_control list \<Rightarrow> baseline_progress \<times> 'w baseline_effects \<Rightarrow>
   (baseline_error + package_control list) \<times> baseline_progress \<times> 'w baseline_effects" where
  "prepare_packages world exec model options items timeout start suites [] controls pio = (Inr controls, pio)"
| "prepare_packages world exec model options items timeout start suites (importPath # paths) controls pio =
     (case prepare_package world exec model options items timeout (package_targets start items importPath)
             (importPath \<in> set suites) importPath pio of
        (Inl e, pio) \<Rightarrow> (Inl e, pio)
      | (Inr None, pio) \<Rightarrow> prepare_packages world exec model options items timeout start suites paths controls pio
      | (Inr (Some control), pio) \<Rightarrow>
          prepare_packages world exec model options items timeout start suites paths (controls @ [control]) pio)"

section \<open>The targets of a package\<close>

text \<open>The function \<open>commit\<close> of a package.\<close>

definition instrumentation_anchor :: "package_control \<Rightarrow> string" where
  "instrumentation_anchor control = (case cl_targets control of [] \<Rightarrow> [] | item # _ \<Rightarrow> bi_ID item)"

definition commit_target :: "package_control \<Rightarrow> baseline_target_run \<Rightarrow> baseline_progress \<Rightarrow> baseline_progress" where
  "commit_target control run p =
     (let unit = ut_unit run;
          p = (case ut_evidence run of
                 None \<Rightarrow> p
               | Some t \<Rightarrow> p\<lparr>lp_measured := AList.update (bt_ID unit) (t\<lparr>te_Instrumented := None\<rparr>) (lp_measured p)\<rparr>);
          unit = (if cl_importPath control \<in> set (lp_anchored p) \<or> bt_ID unit \<noteq> instrumentation_anchor control
                  then strip_instrumentation unit else unit)
      in merge_instrumented (ut_instrumented run) (complete_unit unit p))"

definition execute_target ::
  "'w baseline_world \<Rightarrow> ('w \<Rightarrow> command \<Rightarrow> (string + command_result) \<times> 'w) \<Rightarrow> go_model \<Rightarrow> baseline_options \<Rightarrow> package_control \<Rightarrow>
   baseline_item \<Rightarrow> int \<Rightarrow> 'w baseline_effects \<Rightarrow> (baseline_error + baseline_target_run) \<times> 'w baseline_effects" where
  "execute_target world exec model options control item timeout io =
     (if bo_Session options \<noteq> None then execute_prepared_baseline_target world model options (cl_importPath control) item timeout io
      else execute_baseline_target world exec model options control item timeout io)"

text \<open>
  One turn of a worker: nothing once the context is cancelled; a run without an error is
  committed. The first error is remembered by the position of its target.
\<close>

type_synonym 'w target_state = "baseline_error option list \<times> baseline_progress \<times> 'w baseline_effects"

definition target_turn ::
  "'w baseline_world \<Rightarrow> ('w \<Rightarrow> command \<Rightarrow> (string + command_result) \<times> 'w) \<Rightarrow> go_model \<Rightarrow> baseline_options \<Rightarrow> baseline_item list \<Rightarrow>
   package_control \<Rightarrow> int \<Rightarrow> nat \<Rightarrow> 'w target_state \<Rightarrow> 'w target_state" where
  "target_turn world exec model options items control timeout i st =
     (let (errors, p, io) = st in
      if bw_cancelled world (be_world io) \<noteq> None then st
      else case execute_target world exec model options control (cl_targets control ! i) timeout io of
             (Inl e, io) \<Rightarrow> (errors[i := Some e], p, io)
           | (Inr run, io) \<Rightarrow> let p = commit_target control run p in (errors, p, publish_progress p items io))"

definition collect_package_baseline_targets ::
  "'w baseline_world \<Rightarrow> ('w \<Rightarrow> command \<Rightarrow> (string + command_result) \<times> 'w) \<Rightarrow> go_model \<Rightarrow> baseline_options \<Rightarrow> baseline_item list \<Rightarrow>
   package_control \<Rightarrow> int \<Rightarrow> nat list \<Rightarrow> baseline_progress \<times> 'w baseline_effects \<Rightarrow>
   baseline_error option \<times> baseline_progress \<times> 'w baseline_effects" where
  "collect_package_baseline_targets world exec model options items control timeout order pio =
     (if cl_targets control = [] then (None, pio)
      else
        let (errors, p, io) = fold (target_turn world exec model options items control timeout) order
              (replicate (length (cl_targets control)) None, pio)
        in (case first_error id errors of
              Some e \<Rightarrow> Some e
            | None \<Rightarrow> map_option BaselineCancelled (bw_cancelled world (be_world io)), p, io))"

fun collect_packages ::
  "'w baseline_world \<Rightarrow> ('w \<Rightarrow> command \<Rightarrow> (string + command_result) \<times> 'w) \<Rightarrow> go_model \<Rightarrow> baseline_options \<Rightarrow> baseline_item list \<Rightarrow>
   int \<Rightarrow> (string \<Rightarrow> nat \<Rightarrow> nat list) \<Rightarrow> package_control list \<Rightarrow> baseline_progress \<times> 'w baseline_effects \<Rightarrow>
   baseline_error option \<times> baseline_progress \<times> 'w baseline_effects" where
  "collect_packages world exec model options items timeout order [] (p, io) = (None, p, io)"
| "collect_packages world exec model options items timeout order (control # controls) (p, io) =
     (let (e, p, io) = collect_package_baseline_targets world exec model options items control timeout
            (order (cl_importPath control) (length (cl_targets control))) (p, io);
          io = (if cl_targets control \<noteq> [] then checkpoint_now options False p io else io)
      in if e \<noteq> None then (e, p, io)
         else collect_packages world exec model options items timeout order controls (p, io))"

section \<open>The package suites\<close>

definition needed_baseline_suite_packages :: "catalog \<Rightarrow> target_evidence list \<Rightarrow> file_coverage list \<Rightarrow> string list" where
  "needed_baseline_suite_packages cat targets instrumented =
     sort_slice (remdups (map mu_Package (filter (\<lambda>m. mu_Accepted m \<and> mu_Package m \<noteq> [] \<and>
       mr_reaching (route_mutant m targets instrumented) = [] \<and> mr_discharged (route_mutant m targets instrumented) = [])
       (cat_Mutants cat))))"

text \<open>\<open>commitSuite\<close>: \<open>None\<close> is the panic of an assignment to a \<open>nil\<close> map.\<close>

definition commit_suite :: "package_suite_run \<Rightarrow> baseline_progress \<Rightarrow> baseline_progress option" where
  "commit_suite run p =
     (let p = p\<lparr>lp_suites := AList.update (us_importPath run) (checkpoint_baseline_suite run) (lp_suites p)\<rparr>;
          r = lp_result p
      in if us_measured run \<and> ba_Suites r = None \<or> us_probe run \<noteq> None \<and> ba_ProbeSuites r = None then None
         else
           let p = (if us_measured run
                    then merge_instrumented (sv_Instrumented (us_suite run))
                      (p\<lparr>lp_result := r\<lparr>ba_Suites := map_option (AList.update (us_importPath run) (us_suite run)) (ba_Suites r)\<rparr>\<rparr>)
                    else p)
           in Some (case us_probe run of
                None \<Rightarrow> p
              | Some probe \<Rightarrow> p\<lparr>lp_result := (lp_result p)\<lparr>ba_ProbeSuites :=
                  map_option (AList.update (us_importPath run) probe) (ba_ProbeSuites (lp_result p))\<rparr>\<rparr>))"

definition execute_suite ::
  "'w baseline_world \<Rightarrow> ('w \<Rightarrow> command \<Rightarrow> (string + command_result) \<times> 'w) \<Rightarrow> go_model \<Rightarrow> baseline_options \<Rightarrow> package_control \<Rightarrow>
   int \<Rightarrow> target_evidence list \<Rightarrow> 'w baseline_effects \<Rightarrow> (baseline_error + package_suite_run) \<times> 'w baseline_effects" where
  "execute_suite world exec model options control timeout targets io =
     (if bo_Session options \<noteq> None
      then collect_prepared_package_suite_coverage world model options (cl_importPath control) timeout targets io
      else collect_package_suite_coverage world exec model options control timeout targets io)"

text \<open>The suites, in the order the workers take them; a panic stops the program.\<close>

fun collect_package_suite_coverages ::
  "'w baseline_world \<Rightarrow> ('w \<Rightarrow> command \<Rightarrow> (string + command_result) \<times> 'w) \<Rightarrow> go_model \<Rightarrow> baseline_options \<Rightarrow> package_control list \<Rightarrow>
   int \<Rightarrow> target_evidence list \<Rightarrow> nat list \<Rightarrow> 'w target_state \<Rightarrow> bool \<times> 'w target_state" where
  "collect_package_suite_coverages world exec model options controls timeout targets [] st = (False, st)"
| "collect_package_suite_coverages world exec model options controls timeout targets (i # order) (errors, p, io) =
     (case execute_suite world exec model options (controls ! i) timeout targets io of
        (Inl e, io) \<Rightarrow> collect_package_suite_coverages world exec model options controls timeout targets order (errors[i := Some e], p, io)
      | (Inr run, io) \<Rightarrow>
          (case commit_suite run p of
             None \<Rightarrow> (True, errors, p, io)
           | Some p \<Rightarrow> collect_package_suite_coverages world exec model options controls timeout targets order
                         (errors, p, checkpoint_now options False p io)))"

section \<open>The baseline\<close>

record baseline_schedule =
  sh_targets :: "string \<Rightarrow> nat \<Rightarrow> nat list"
  sh_suites :: "nat \<Rightarrow> nat list"

definition positive_timeout :: "int \<Rightarrow> int" where
  "positive_timeout timeout = (if timeout \<le> 0 then default_baseline_timeout else timeout)"

text \<open>What follows the checks.\<close>

definition measure_baseline ::
  "'w baseline_world \<Rightarrow> ('w \<Rightarrow> command \<Rightarrow> (string + command_result) \<times> 'w) \<Rightarrow> go_model \<Rightarrow> baseline_options \<Rightarrow> baseline_item list \<Rightarrow>
   baseline_schedule \<Rightarrow> bool \<Rightarrow> baseline_progress \<times> 'w baseline_effects \<Rightarrow>
   (baseline_error + baseline_result) \<times> 'w baseline_effects" where
  "measure_baseline world exec model options items schedule resume_routing pio =
     (let (p, io) = pio;
          timeout = positive_timeout (bo_TargetTimeout options);
          suites = package_suites options p resume_routing items
      in case prepare_packages world exec model options items (positive_timeout (bo_CommandTimeout options)) p suites
                (baseline_imports p items suites) [] (p, io) of
           (Inl e, _, io) \<Rightarrow> (Inl e, io)
         | (Inr controls, p, io) \<Rightarrow>
             (case collect_packages world exec model options items timeout (sh_targets schedule) controls (p, io) of
                (Some e, _, io) \<Rightarrow> (Inl e, io)
              | (None, p, io) \<Rightarrow>
                  let targets = completed_target_evidence items (lp_completed p);
                      needed = (case bo_Session options of
                          None \<Rightarrow> sort_slice suites
                        | Some cat \<Rightarrow> needed_baseline_suite_packages cat targets (ba_Instrumented (lp_result p)));
                      controls = filter (\<lambda>c. cl_importPath c \<in> set needed) controls;
                      (panicked, errors, p, io) = collect_package_suite_coverages world exec model options controls timeout targets
                        (sh_suites schedule (length controls)) (replicate (length controls) None, p, io)
                  in if panicked then (Inl NilMapAssignment, io)
                     else case first_error id errors of
                       Some e \<Rightarrow> (Inl e, io)
                     | None \<Rightarrow>
                         let p = p\<lparr>lp_result := append_completed_baseline_targets items (lp_completed p) (lp_measured p) (lp_result p)\<rparr>
                         in (Inr (lp_result p), checkpoint_now options True p io)))"

definition collect_baseline ::
  "'w baseline_world \<Rightarrow> go_model \<Rightarrow> baseline_item list \<Rightarrow> baseline_options \<Rightarrow> baseline_schedule \<Rightarrow> 'w baseline_effects \<Rightarrow>
   (baseline_error + baseline_result) \<times> 'w baseline_effects" where
  "collect_baseline world model items options schedule io =
     (case bw_exec world of
        None \<Rightarrow> (Inl NilBaselineWorkspace, io)
      | Some exec \<Rightarrow>
          if bo_ArtifactDirectory options = [] then (Inl NoArtifactDirectory, io)
          else case bw_mkdir world (be_world io) (bo_ArtifactDirectory options) of
            (Some e, w) \<Rightarrow> (Inl (ArtifactDirectoryFailed e), set_world w io)
          | (None, w) \<Rightarrow>
              let (p, resume_routing) = resume_baseline model options;
                  io = publish_progress p items (set_world w io)
              in case run_checks world exec options items (positive_timeout (bo_CommandTimeout options))
                        (if lp_vetted p then [] else baseline_checks options) (p, io) of
                   (BaselineFails e, io) \<Rightarrow> (Inl e, io)
                 | (BaselineReturns r, io) \<Rightarrow> (Inr r, io)
                 | (BaselineGoesOn p, io) \<Rightarrow>
                     let vetted = lp_vetted p; p = p\<lparr>lp_vetted := True\<rparr>;
                         io = (if \<not> vetted then checkpoint_now options False p io else io)
                     in if bo_StopAfterChecks options then (Inr (lp_result p), io)
                        else measure_baseline world exec model options items schedule resume_routing (p, io))"

end
