(* ===== verification/Packages.thy ===== *)
theory Packages
  imports Baseline
begin

text \<open>
  What \<open>go list\<close> says of a module (\<open>internal/golang/packages.go\<close>) and the identity of a target
  (\<open>internal/golang/targets.go\<close>). The JSON decoder and \<open>filepath.Rel\<close>, which the code keeps in a
  variable, are arguments; \<open>rel\<close> answers \<open>None\<close> where it fails.
\<close>

section \<open>Packages\<close>

record listed_package =
  li_ImportPath :: string
  li_Dir :: string
  li_Deps :: "string list"
  li_TestImports :: "string list"
  li_XTestImports :: "string list"
  li_EmbedFiles :: "string list"
  li_TestEmbedFiles :: "string list"
  li_XTestEmbedFiles :: "string list"
  li_Module :: "(string \<times> string) option"

datatype packages_error =
    PackageUndecoded string
  | NoModulePackages
  | SeveralModuleRoots
  | OutsideModule string

text \<open>\<open>listed\<close> is the map of dependencies: the last entry of an import path wins, an absent one has none.\<close>

definition listed_deps :: "listed_package list \<Rightarrow> string \<Rightarrow> string list" where
  "listed_deps listed path =
     (case map_of (rev (map (\<lambda>item. (li_ImportPath item, li_Deps item)) listed)) path of None \<Rightarrow> [] | Some deps \<Rightarrow> deps)"

definition test_binary_closure :: "listed_package \<Rightarrow> (string \<Rightarrow> string list) \<Rightarrow> string list" where
  "test_binary_closure item deps =
     (let closure = li_Deps item @ concat (map (\<lambda>imported. imported # deps imported) (li_TestImports item @ li_XTestImports item))
      in filter (\<lambda>dependency. dependency \<noteq> li_ImportPath item) (remdups_adj (sort_slice closure)))"

definition embedded_files :: "listed_package \<Rightarrow> string \<Rightarrow> string list" where
  "embedded_files item relative =
     remdups_adj (sort_slice (map (path_join relative) (li_EmbedFiles item @ li_TestEmbedFiles item @ li_XTestEmbedFiles item)))"

definition decode_package ::
  "(string \<Rightarrow> string \<Rightarrow> string option) \<Rightarrow> string \<times> string \<Rightarrow> (string \<Rightarrow> string list) \<Rightarrow> listed_package \<Rightarrow> packages_error + go_package" where
  "decode_package rel modul deps item =
     (if li_Module item \<noteq> Some modul then Inl SeveralModuleRoots
      else case rel (snd modul) (li_Dir item) of
        None \<Rightarrow> Inl (OutsideModule (li_ImportPath item))
      | Some relative \<Rightarrow>
          if relative = ''..'' \<or> has_prefix relative ''../'' then Inl (OutsideModule (li_ImportPath item))
          else Inr \<lparr>pk_ImportPath = li_ImportPath item, pk_RelativeDir = to_slash relative,
                    pk_Dependencies = test_binary_closure item deps, pk_EmbedFiles = embedded_files item relative\<rparr>)"

fun decode_each :: "('a \<Rightarrow> 'e + 'b) \<Rightarrow> 'a list \<Rightarrow> 'e + 'b list" where
  "decode_each f [] = Inr []"
| "decode_each f (x # xs) = (case f x of Inl e \<Rightarrow> Inl e | Inr y \<Rightarrow> map_sum id ((#) y) (decode_each f xs))"

lemma decode_each_member: "decode_each f xs = Inr ys \<Longrightarrow> y \<in> set ys \<Longrightarrow> \<exists>x \<in> set xs. f x = Inr y"
  by (induction xs arbitrary: ys) (auto simp: map_sum_def split: sum.splits)

text \<open>\<open>items\<close> is what the decoder read, or its error; the model keeps the module directory beside its packages.\<close>

definition decode_packages ::
  "(string \<Rightarrow> string \<Rightarrow> string option) \<Rightarrow> string + listed_package list \<Rightarrow> packages_error + go_model \<times> string" where
  "decode_packages rel items =
     (case items of
        Inl e \<Rightarrow> Inl (PackageUndecoded e)
      | Inr decoded \<Rightarrow>
          let listed = filter (\<lambda>item. li_Module item \<noteq> None) decoded in
          case listed of
            [] \<Rightarrow> Inl NoModulePackages
          | first # _ \<Rightarrow>
              let modul = the (li_Module first) in
              map_sum id (\<lambda>packages. (\<lparr>gm_ModulePath = fst modul, gm_Packages =
                  Some (sort_func (\<lambda>a b. cmp_compare (pk_ImportPath a) (pk_ImportPath b)) packages)\<rparr>, snd modul))
                (decode_each (decode_package rel modul (listed_deps listed)) listed))"

text \<open>No package depends on itself, whatever its tests import.\<close>

lemma own_package_absent: "decode_packages rel items = Inr (model, dir) \<Longrightarrow> pkg \<in> set (files_of (gm_Packages model)) \<Longrightarrow>
   pk_ImportPath pkg \<notin> set (pk_Dependencies pkg)"
proof -
  assume "decode_packages rel items = Inr (model, dir)" "pkg \<in> set (files_of (gm_Packages model))"
  then obtain first rest packages where
    decoded: "decode_each (decode_package rel (the (li_Module first)) (listed_deps (first # rest))) (first # rest) = Inr packages" and
    packages: "gm_Packages model = Some (sort_func (\<lambda>a b. cmp_compare (pk_ImportPath a) (pk_ImportPath b)) packages)"
    by (auto simp: decode_packages_def Let_def map_sum_def simp del: decode_each.simps sort_func_Cons split: sum.splits list.splits)
  have "pkg \<in> set packages" using \<open>pkg \<in> set (files_of (gm_Packages model))\<close> by (simp add: packages files_of_def)
  from decode_each_member [OF decoded this] obtain modul deps item where "decode_package rel modul deps item = Inr pkg" by blast
  then show ?thesis by (auto simp: decode_package_def test_binary_closure_def Let_def split: if_splits option.splits)
qed

section \<open>Targets\<close>

datatype target_kind = KindTest | KindFuzz | KindExample

text \<open>
  A name is a target's when an upper-case letter or nothing follows the prefix. \<open>lower\<close> decides
  \<open>unicode.IsLower\<close> of the rune a string begins with.
\<close>

definition target_prefixes :: "(string \<times> target_kind) list" where
  "target_prefixes = [(''Test'', KindTest), (''Fuzz'', KindFuzz), (''Example'', KindExample)]"

fun target_kind_from :: "(string \<Rightarrow> bool) \<Rightarrow> string \<Rightarrow> (string \<times> target_kind) list \<Rightarrow> target_kind option" where
  "target_kind_from lower name [] = None"
| "target_kind_from lower name ((prefix, kind) # candidates) =
     (if \<not> has_prefix name prefix then target_kind_from lower name candidates
      else let rest = trim_prefix name prefix in
        if rest = [] \<or> \<not> lower rest then Some kind else target_kind_from lower name candidates)"

definition target_kind_of :: "(string \<Rightarrow> bool) \<Rightarrow> string \<Rightarrow> target_kind option" where
  "target_kind_of lower name = target_kind_from lower name target_prefixes"

definition target_id_fields :: "string \<Rightarrow> string \<Rightarrow> string \<Rightarrow> string \<Rightarrow> int \<Rightarrow> string list" where
  "target_id_fields pkg name kind path line = [''goatest-target-v1'', pkg, name, kind, path, itoa line]"

definition target_id :: "(string \<Rightarrow> string) \<Rightarrow> string \<Rightarrow> string \<Rightarrow> string \<Rightarrow> string \<Rightarrow> int \<Rightarrow> string" where
  "target_id sha pkg name kind path line = take 16 (sha (write_fields (target_id_fields pkg name kind path line)))"

definition compare_discovered :: "target \<Rightarrow> target \<Rightarrow> int" where
  "compare_discovered a b = cmp_then (cmp_compare (t_Name a) (t_Name b)) (cmp_compare (t_Package a) (t_Package b))"

text \<open>The bytes an identifier is the hash of determine the target.\<close>

lemma target_id_fields_injective:
  assumes "write_fields (target_id_fields pkg name kind path line) = write_fields (target_id_fields pkg' name' kind' path' line')"
    and "frameable [pkg, name, kind, path, itoa line]" "frameable [pkg', name', kind', path', itoa line']"
  shows "pkg = pkg' \<and> name = name' \<and> kind = kind' \<and> path = path' \<and> line = line'"
proof -
  have "target_id_fields pkg name kind path line = target_id_fields pkg' name' kind' path' line'"
    by (rule write_fields_inj [OF assms(1)]) (use assms(2,3) in \<open>simp_all add: target_id_fields_def\<close>)
  then show ?thesis by (auto simp: target_id_fields_def dest: itoa_inj)
qed

end
