(* ===== verification/Impact.thy ===== *)
theory Impact
  imports Packages CheckpointJournal
begin

text \<open>
  Which targets a run over a changeset takes (\<open>internal/assure/impact.go\<close>): the changed files
  \<open>git\<close> names, the targets the graph of the last run says they concern, the graph this run
  leaves, and the files and packages whose mutants it asks for. \<open>git\<close> is a function from its
  arguments to its output, \<open>None\<close> when it fails; the graph file and the directories are read by
  arguments too.
\<close>

section \<open>Changed files\<close>

definition run_git_names :: "(string list \<Rightarrow> string option) \<Rightarrow> string list \<Rightarrow> string list option" where
  "run_git_names git arguments = map_option (\<lambda>names. filter (\<lambda>name. name \<noteq> []) (split_on (CHR 0x00) names)) (git arguments)"

definition safe_changed_path :: "string \<Rightarrow> string option" where
  "safe_changed_path path =
     (if path = [] \<or> has_prefix path ''/'' \<or> list_ex (\<lambda>c. c \<in> set path) [CHR 0x5C, CHR '':'', CHR 0x00, CHR 0x0D, CHR 0x0A] then None
      else
        let clean = path_clean path in
        if clean = ''.'' \<or> clean = ''..'' \<or> has_prefix clean ''../'' then None else Some clean)"

definition generated_impact_path :: "string \<Rightarrow> bool" where
  "generated_impact_path path =
     (case cut_at (CHR ''/'') path of
        None \<Rightarrow> False
      | Some (root, rest) \<Rightarrow> rest \<noteq> [] \<and> (root = ''.goatest'' \<or> root = ''reports'' \<or> root = ''dist''))"

fun safe_changed_paths :: "string list \<Rightarrow> string list option" where
  "safe_changed_paths [] = Some []"
| "safe_changed_paths (path # paths) =
     (case safe_changed_path path of
        None \<Rightarrow> None
      | Some normalized \<Rightarrow>
          map_option (\<lambda>changed. if generated_impact_path normalized then changed else normalized # changed) (safe_changed_paths paths))"

definition changed_files :: "(string list \<Rightarrow> string option) \<Rightarrow> string \<Rightarrow> string list option" where
  "changed_files git reference =
     (let base = (if reference = [] then ''HEAD'' else reference) in
      case run_git_names git [''diff'', ''--no-ext-diff'', ''--name-only'', ''--diff-filter=ACMRD'', ''-z'', base, ''--''] of
        None \<Rightarrow> None
      | Some diff \<Rightarrow>
          (case run_git_names git [''ls-files'', ''--others'', ''--exclude-standard'', ''-z'', ''--''] of
             None \<Rightarrow> None
           | Some untracked \<Rightarrow> map_option (\<lambda>changed. remdups_adj (sort_slice changed)) (safe_changed_paths (diff @ untracked))))"

section \<open>The selection\<close>

record graph_record =
  gr_ModulePath :: string
  gr_Graph :: impact_graph

record impact_selection =
  im_targets :: "target list"
  im_changed :: "string list"
  im_broad :: bool
  im_prior :: "graph_record option"

definition depends_on_changed :: "string list \<Rightarrow> string list \<Rightarrow> bool" where
  "depends_on_changed dependencies changed = list_ex (\<lambda>d. d \<in> set changed) dependencies"

text \<open>The packages of the test files among the changed ones.\<close>

definition changed_packages :: "impact_graph \<Rightarrow> string list \<Rightarrow> string list" where
  "changed_packages graph changed =
     concat (map (\<lambda>path. case map_of (FilePackages graph) path of
        None \<Rightarrow> []
      | Some pkg \<Rightarrow> if pkg \<noteq> [] \<and> has_suffix path ''_test.go'' then [pkg] else []) changed)"

text \<open>\<open>loaded\<close> is what \<open>LoadGraph\<close> answers: an error, no file, or the record.\<close>

definition select_impact ::
  "string + graph_record option \<Rightarrow> (string list \<Rightarrow> string option) \<Rightarrow> string \<Rightarrow> target list \<Rightarrow> bool \<Rightarrow> string \<Rightarrow> impact_selection" where
  "select_impact loaded git modulePath targets only_changed reference =
     (let everything = \<lparr>im_targets = targets, im_changed = [], im_broad = True, im_prior = None\<rparr> in
      if \<not> only_changed then everything
      else case loaded of
        Inl e \<Rightarrow> everything
      | Inr None \<Rightarrow> everything
      | Inr (Some graph_record) \<Rightarrow>
          if gr_ModulePath graph_record \<noteq> modulePath then everything
          else case changed_files git reference of
            None \<Rightarrow> everything\<lparr>im_prior := Some graph_record\<rparr>
          | Some [] \<Rightarrow> \<lparr>im_targets = [], im_changed = [], im_broad = False, im_prior = Some graph_record\<rparr>
          | Some changed \<Rightarrow>
              let graph = gr_Graph graph_record; impact = affected graph changed in
              if ImpactBroad impact then everything\<lparr>im_changed := changed, im_prior := Some graph_record\<rparr>
              else
                let packages = changed_packages graph changed
                in \<lparr>im_targets = filter (\<lambda>t. t_ID t \<in> set (ImpactTargets impact) \<or> t_Package t \<in> set packages \<or>
                                           depends_on_changed (t_Dependencies t) packages) targets,
                    im_changed = changed, im_broad = False, im_prior = Some graph_record\<rparr>)"

section \<open>The graph a run leaves\<close>

text \<open>\<open>read_dir\<close> lists the entries of a package's directory with whether each is a directory.\<close>

definition package_files :: "(string \<times> bool) list \<Rightarrow> go_package \<Rightarrow> string list" where
  "package_files entries pkg =
     map (\<lambda>(name, _). if pk_RelativeDir pkg \<noteq> ''.'' \<and> pk_RelativeDir pkg \<noteq> [] then pk_RelativeDir pkg @ ''/'' @ name else name)
       (filter (\<lambda>(name, directory). \<not> directory \<and> has_suffix name ''.go'') entries)"

fun graph_files :: "(string \<Rightarrow> string + (string \<times> bool) list) \<Rightarrow> go_package list \<Rightarrow> string_map \<Rightarrow> (string \<times> string) + string_map" where
  "graph_files read_dir [] files = Inr files"
| "graph_files read_dir (pkg # packages) files =
     (case read_dir (pk_RelativeDir pkg) of
        Inl e \<Rightarrow> Inl (pk_ImportPath pkg, e)
      | Inr entries \<Rightarrow>
          graph_files read_dir packages (fold (\<lambda>path. AList.update path (pk_ImportPath pkg)) (package_files entries pkg) files))"

definition graph_target_of :: "target_evidence \<Rightarrow> graph_target" where
  "graph_target_of e =
     \<lparr>gt_ID = t_ID (te_Target e), gt_Package = t_Package (te_Target e), gt_Dependencies = t_Dependencies (te_Target e),
      gt_CoveredFiles = te_CoveredFiles e\<rparr>"

definition build_graph ::
  "(string \<Rightarrow> string + (string \<times> bool) list) \<Rightarrow> go_package list \<Rightarrow> target_evidence list \<Rightarrow> (string \<times> string) + impact_graph" where
  "build_graph read_dir packages evidence =
     map_sum id (\<lambda>files. \<lparr>FilePackages = files, GraphTargets = map graph_target_of evidence\<rparr>) (graph_files read_dir packages [])"

definition merge_graph :: "impact_graph \<Rightarrow> graph_record option \<Rightarrow> impact_selection \<Rightarrow> impact_graph" where
  "merge_graph current prior selection =
     (case prior of
        None \<Rightarrow> current
      | Some graph_record \<Rightarrow>
          if im_broad selection then current
          else current\<lparr>GraphTargets := GraphTargets current @
            filter (\<lambda>t. gt_ID t \<notin> set (map t_ID (im_targets selection))) (GraphTargets (gr_Graph graph_record))\<rparr>)"

section \<open>The scope of the mutants\<close>

definition directory_pattern :: "string \<Rightarrow> string" where
  "directory_pattern directory = (if directory = ''.'' then ''*.go'' else directory @ ''/*.go'')"

definition scoped_mutation_include :: "go_package list \<Rightarrow> string list" where
  "scoped_mutation_include packages =
     remdups_adj (sort_slice (map (\<lambda>pkg. if pk_RelativeDir pkg = [] then ''*.go'' else directory_pattern (pk_RelativeDir pkg)) packages))"

definition package_directory_of_path :: "string \<Rightarrow> string" where
  "package_directory_of_path name = (let directory = path_dir name in if directory = [] then ''.'' else directory)"

definition target_directory :: "target \<Rightarrow> string" where
  "target_directory t =
     (if t_RelativeDir t = [] \<or> t_RelativeDir t = ''.'' then ''.'' else ''./'' @ trim_prefix (t_RelativeDir t) ''./'')"

text \<open>The files to mutate and the packages whose tests run; empty lists are unrestricted.\<close>

definition mutation_scope :: "impact_selection \<Rightarrow> string list \<times> string list" where
  "mutation_scope selection =
     (if im_broad selection then ([], [])
      else
        let tests = filter (\<lambda>path. has_suffix path ''_test.go'') (im_changed selection);
            whole = remdups (map package_directory_of_path tests);
            files = filter (\<lambda>path. has_suffix path ''.go'' \<and> \<not> has_suffix path ''_test.go'' \<and>
              package_directory_of_path path \<notin> set whole) (im_changed selection)
        in (remdups_adj (sort_slice (files @ map directory_pattern whole)),
                 remdups_adj (sort_slice (map target_directory (im_targets selection)))))"

definition mutation_discovery_packages :: "string list \<Rightarrow> string list \<Rightarrow> string list" where
  "mutation_discovery_packages include tests =
     (if include = [] then tests
      else remdups_adj (sort_slice (map (\<lambda>pattern. let directory = path_dir pattern in
             if directory = ''.'' then ''.'' else ''./'' @ trim_prefix directory ''./'') include)))"

section \<open>What is selected\<close>

lemma safe_changed_path_backslash: "safe_changed_path path = Some clean \<Longrightarrow> CHR 0x5C \<notin> set path"
  by (auto simp: safe_changed_path_def Let_def split: if_splits)

text \<open>A target a changed file concerns: the graph says so, or a test file of a package it rests on changed.\<close>

definition concerned :: "impact_graph \<Rightarrow> string \<Rightarrow> target \<Rightarrow> bool" where
  "concerned graph path t \<longleftrightarrow>
     list_ex (\<lambda>g. gt_ID g = t_ID t \<and> touched_by graph [path] g) (GraphTargets graph) \<or>
     (case map_of (FilePackages graph) path of
        None \<Rightarrow> False
      | Some pkg \<Rightarrow> pkg \<noteq> [] \<and> has_suffix path ''_test.go'' \<and> (t_Package t = pkg \<or> pkg \<in> set (t_Dependencies t)))"

lemma affected_targets:
  "affected graph changed = \<lparr>ImpactTargets = ids, ImpactBroad = broad\<rparr> \<Longrightarrow>
   broad = (\<not> known_paths graph changed) \<and>
   (\<not> broad \<longrightarrow> set ids = gt_ID ` {g \<in> set (GraphTargets graph). touched_by graph changed g})"
proof (cases "known_paths graph changed")
  case True
  then obtain found where "affected_from graph changed [] = Some found"
    "set found = gt_ID ` {t \<in> set (GraphTargets graph). touched_by graph changed t}"
    using affected_from_known [of graph changed "[]"] by auto
  then show "affected graph changed = \<lparr>ImpactTargets = ids, ImpactBroad = broad\<rparr> \<Longrightarrow> ?thesis" using True by (auto simp: affected_def)
qed (simp add: affected_def affected_from_unknown)

lemma touched_by_Cons: "touched_by graph changed g \<longleftrightarrow> list_ex (\<lambda>path. touched_by graph [path] g) changed"
  by (simp add: touched_by_def)

lemma concerned_changed:
  assumes "affected graph changed = \<lparr>ImpactTargets = ids, ImpactBroad = False\<rparr>"
  shows "t_ID t \<in> set ids \<or> t_Package t \<in> set (changed_packages graph changed) \<or>
      depends_on_changed (t_Dependencies t) (changed_packages graph changed) \<longleftrightarrow> list_ex (\<lambda>path. concerned graph path t) changed"
proof -
  have "t_ID t \<in> set ids \<longleftrightarrow> list_ex (\<lambda>path. list_ex (\<lambda>g. gt_ID g = t_ID t \<and> touched_by graph [path] g) (GraphTargets graph)) changed"
  proof -
    have "t_ID t \<in> set ids \<longleftrightarrow> (\<exists>g \<in> set (GraphTargets graph). gt_ID g = t_ID t \<and> touched_by graph changed g)"
      using affected_targets [OF assms] by (auto simp: image_iff) 
    also have "\<dots> \<longleftrightarrow> (\<exists>g \<in> set (GraphTargets graph). gt_ID g = t_ID t \<and> list_ex (\<lambda>path. touched_by graph [path] g) changed)"
      by (subst touched_by_Cons) (rule refl)
    finally show ?thesis by (auto simp: list_ex_iff)
  qed
  moreover have "pkg \<in> set (changed_packages graph changed) \<longleftrightarrow>
      (\<exists>path \<in> set changed. map_of (FilePackages graph) path = Some pkg \<and> pkg \<noteq> [] \<and> has_suffix path ''_test.go'')" for pkg
    by (auto simp: changed_packages_def split: option.splits if_splits) (force split: option.splits)+
  ultimately show ?thesis
    by (auto simp: concerned_def depends_on_changed_def list_ex_iff split: option.splits) fastforce+
qed

text \<open>A narrowed run: where its graph and its changed files come from, and what it takes.\<close>

lemma narrowed_selection:
  assumes "select_impact loaded git modulePath targets only_changed reference = s" "\<not> im_broad s"
  obtains graph_record where "only_changed" "loaded = Inr (Some graph_record)" "gr_ModulePath graph_record = modulePath"
    "changed_files git reference = Some (im_changed s)" "im_prior s = Some graph_record"
    "known_paths (gr_Graph graph_record) (im_changed s)"
    "im_targets s = filter (\<lambda>t. list_ex (\<lambda>path. concerned (gr_Graph graph_record) path t) (im_changed s)) targets"
proof -
  obtain graph_record changed where found: "only_changed" "loaded = Inr (Some graph_record)" "gr_ModulePath graph_record = modulePath"
    "changed_files git reference = Some changed"
    using assms by (auto simp: select_impact_def Let_def split: if_splits sum.splits option.splits)
  show ?thesis
  proof (cases changed)
    case Nil
    with found assms have "s = \<lparr>im_targets = [], im_changed = [], im_broad = False, im_prior = Some graph_record\<rparr>"
      by (simp add: select_impact_def Let_def)
    with found Nil that show ?thesis by (simp add: known_paths_def)
  next
    case (Cons path paths)
    obtain ids broad where impact: "affected (gr_Graph graph_record) changed = \<lparr>ImpactTargets = ids, ImpactBroad = broad\<rparr>"
      by (metis graph_impact.cases)
    with assms found Cons have broad: "broad = False" by (auto simp: select_impact_def Let_def)
    with assms found Cons impact have "s = \<lparr>im_targets = filter (\<lambda>t. t_ID t \<in> set ids \<or>
          t_Package t \<in> set (changed_packages (gr_Graph graph_record) changed) \<or>
          depends_on_changed (t_Dependencies t) (changed_packages (gr_Graph graph_record) changed)) targets,
        im_changed = changed, im_broad = False, im_prior = Some graph_record\<rparr>"
      by (auto simp: select_impact_def Let_def)
    with found affected_targets [OF impact] concerned_changed [OF impact [unfolded broad]] broad that show ?thesis by simp
  qed
qed

text \<open>
  C16. A run over a changeset takes every target, unless the graph of an earlier run of the
  module knows each file git names as changed: then it takes exactly the targets one of those
  files concerns.
\<close>

theorem select_impact_exact:
  "let s = select_impact loaded git modulePath targets only_changed reference in
   im_broad s \<and> im_targets s = targets \<or>
   \<not> im_broad s \<and> only_changed \<and>
     (\<exists>graph_record. loaded = Inr (Some graph_record) \<and> gr_ModulePath graph_record = modulePath \<and>
        im_prior s = Some graph_record \<and> changed_files git reference = Some (im_changed s) \<and>
        known_paths (gr_Graph graph_record) (im_changed s) \<and>
        im_targets s = filter (\<lambda>t. list_ex (\<lambda>path. concerned (gr_Graph graph_record) path t) (im_changed s)) targets)"
proof -
  define s where "s = select_impact loaded git modulePath targets only_changed reference"
  have "im_targets s = targets" if "im_broad s"
    using that by (auto simp: s_def select_impact_def Let_def split: if_splits sum.splits option.splits list.splits)
  moreover have "\<exists>graph_record. only_changed \<and> loaded = Inr (Some graph_record) \<and> gr_ModulePath graph_record = modulePath \<and>
        im_prior s = Some graph_record \<and> changed_files git reference = Some (im_changed s) \<and>
        known_paths (gr_Graph graph_record) (im_changed s) \<and>
        im_targets s = filter (\<lambda>t. list_ex (\<lambda>path. concerned (gr_Graph graph_record) path t) (im_changed s)) targets" if "\<not> im_broad s"
    by (rule narrowed_selection [OF s_def [symmetric] that]) blast
  ultimately show ?thesis unfolding Let_def s_def [symmetric] by blast
qed

section \<open>A change the graph misses\<close>

text \<open>
  C21. The tests of a package are not selected when a file of that package changes that none of
  them covers, as a file of declarations: no target depends on its own package, because
  \<open>testBinaryClosure\<close> takes it out of its dependencies, while the targets of other packages that
  depend on it are selected.
\<close>

theorem own_package_change_missed:
  assumes "select_impact (Inr (Some graph_record)) git modulePath targets True reference = s"
    and "decode_packages rel listed = Inr (model, dir)"
    and "build_graph read_dir (files_of (gm_Packages model)) evidence = Inr (gr_Graph graph_record)"
    and "\<forall>t \<in> set targets \<union> te_Target ` set evidence. \<exists>pkg \<in> set (files_of (gm_Packages model)).
      pk_ImportPath pkg = t_Package t \<and> t_Dependencies t = pk_Dependencies pkg"
    and "\<forall>e \<in> set evidence. \<forall>t \<in> set targets. t_ID (te_Target e) = t_ID t \<longrightarrow> t_Package (te_Target e) = t_Package t"
    and "\<forall>path \<in> set (im_changed s). map_of (FilePackages (gr_Graph graph_record)) path = Some changed \<and> \<not> has_suffix path ''_test.go'' \<and>
      CHR 0x5C \<notin> set path \<and> (\<forall>e \<in> set evidence. path \<notin> set (te_CoveredFiles e))"
    and "\<not> im_broad s"
  shows "changed \<notin> t_Package ` set (im_targets s)"
proof
  let ?graph = "gr_Graph graph_record"
  assume "changed \<in> t_Package ` set (im_targets s)"
  then obtain t where t: "t \<in> set (im_targets s)" "t_Package t = changed" by blast
  obtain path where path: "path \<in> set (im_changed s)" "concerned ?graph path t" "t \<in> set targets"
    by (rule narrowed_selection [OF assms(1,7)]) (use t(1) in \<open>auto simp: list_ex_iff\<close>)
  have "replace_backslash path = path" using assms(6) path(1) by (force simp: replace_backslash_def intro: map_idI)
  with path assms(6) obtain g where g: "g \<in> set (GraphTargets ?graph)" "gt_ID g = t_ID t" "affects path changed g"
    by (auto simp: concerned_def touched_by_def list_ex_iff)
  have "GraphTargets ?graph = map graph_target_of evidence"
    using assms(3) by (cases ?graph) (auto simp: build_graph_def map_sum_def split: sum.splits)
  with g(1) obtain e where e: "e \<in> set evidence" "g = graph_target_of e" by auto
  then have "changed \<in> set (t_Dependencies (te_Target e))"
    using g(3) assms(6) path(1) by (auto simp: affects_def graph_target_of_def)
  moreover have "t_Package (te_Target e) = changed" using assms(5) e g(2) path(3) t(2) by (auto simp: graph_target_of_def)
  moreover obtain pkg where "pkg \<in> set (files_of (gm_Packages model))" "pk_ImportPath pkg = t_Package (te_Target e)"
    "t_Dependencies (te_Target e) = pk_Dependencies pkg" using assms(4) e(1) by blast
  ultimately show False using own_package_absent [OF assms(2)] by metis
qed

text \<open>A module whose file of constants no test covers.\<close>

definition sample_listing :: "listed_package list" where
  "sample_listing = [\<lparr>li_ImportPath = ''m.test'', li_Dir = ''/m'', li_Deps = [''fmt''], li_TestImports = [''testing''],
     li_XTestImports = [''m.test''], li_EmbedFiles = [], li_TestEmbedFiles = [], li_XTestEmbedFiles = [], li_Module = Some (''m.test'', ''/m'')\<rparr>]"

definition sample_rel :: "string \<Rightarrow> string \<Rightarrow> string option" where
  "sample_rel base path = (if path = base then Some ''.'' else None)"

definition sample_impact_target :: target where
  "sample_impact_target = (te_Target (sample_target ''t1'' ''m.test'' []))\<lparr>t_Dependencies := [''fmt'', ''testing'']\<rparr>"

definition sample_covered :: target_evidence where
  "sample_covered = (sample_target ''t1'' ''m.test'' [])\<lparr>te_Target := sample_impact_target, te_CoveredFiles := [''a.go'']\<rparr>"

definition sample_git :: "string list \<Rightarrow> string option" where
  "sample_git arguments = Some (if arguments ! 0 = ''diff'' then ''limits.go'' @ [CHR 0x00] else [])"

definition sample_directory :: "string \<Rightarrow> string + (string \<times> bool) list" where
  "sample_directory path = Inr [(''a.go'', False), (''a_test.go'', False), (''limits.go'', False)]"

definition sample_graph_record :: graph_record where
  "sample_graph_record = \<lparr>gr_ModulePath = ''m.test'', gr_Graph = \<lparr>FilePackages = map (\<lambda>f. (f, ''m.test'')) [''a.go'', ''a_test.go'', ''limits.go''],
     GraphTargets = [graph_target_of sample_covered]\<rparr>\<rparr>"

theorem own_package_change_missed_witness:
  "let s = select_impact (Inr (Some sample_graph_record)) sample_git ''m.test'' [sample_impact_target] True []
   in \<not> im_broad s \<and> im_changed s = [''limits.go''] \<and> ''m.test'' \<notin> t_Package ` set (im_targets s)"
proof -
  let ?s = "select_impact (Inr (Some sample_graph_record)) sample_git ''m.test'' [sample_impact_target] True []"
  have s: "\<not> im_broad ?s" "im_changed ?s = [''limits.go'']" by code_simp+
  obtain model dir where model: "decode_packages sample_rel (Inr sample_listing) = Inr (model, dir)"
    "map (\<lambda>p. (pk_ImportPath p, pk_Dependencies p)) (files_of (gm_Packages model)) = [(''m.test'', [''fmt'', ''testing''])]"
  proof -
    have "case decode_packages sample_rel (Inr sample_listing) of Inl _ \<Rightarrow> False | Inr (model, dir) \<Rightarrow>
      map (\<lambda>p. (pk_ImportPath p, pk_Dependencies p)) (files_of (gm_Packages model)) = [(''m.test'', [''fmt'', ''testing''])]" by code_simp
    then show ?thesis using that by (auto split: sum.splits)
  qed
  then obtain pkg where pkg: "files_of (gm_Packages model) = [pkg]" "pk_ImportPath pkg = ''m.test''" "pk_Dependencies pkg = [''fmt'', ''testing'']" by auto
  have "pk_RelativeDir pkg = ''.''"
  proof -
    have "case decode_packages sample_rel (Inr sample_listing) of Inl _ \<Rightarrow> False | Inr (model, dir) \<Rightarrow>
      map pk_RelativeDir (files_of (gm_Packages model)) = [''.'']" by code_simp
    with model(1) pkg(1) show ?thesis by simp
  qed
  then have "build_graph sample_directory (files_of (gm_Packages model)) [sample_covered] = Inr (gr_Graph sample_graph_record)"
    by (simp add: build_graph_def pkg sample_directory_def package_files_def sample_graph_record_def has_suffix_def)
  from own_package_change_missed [where git = sample_git and modulePath = "''m.test''" and targets = "[sample_impact_target]" and
      reference = "[]" and changed = "''m.test''", OF refl model(1) this]
  have "''m.test'' \<notin> t_Package ` set (im_targets ?s)"
    using s pkg by (simp add: sample_impact_target_def sample_covered_def sample_target_def sample_graph_record_def has_suffix_def)
  with s show ?thesis by (simp add: Let_def)
qed

section \<open>The graph keeps every target\<close>

definition graph_ids :: "impact_graph \<Rightarrow> string list" where
  "graph_ids graph = map gt_ID (GraphTargets graph)"


definition sample_edit_git :: "string list \<Rightarrow> string option" where
  "sample_edit_git arguments = Some (if arguments ! 0 = ''diff'' then ''a.go'' @ [CHR 0x00] else [])"

definition sample_edit :: impact_selection where
  "sample_edit = select_impact (Inr (Some sample_graph_record)) sample_edit_git ''m.test'' [sample_impact_target] True []"

definition sample_current :: impact_graph where
  "sample_current = \<lparr>FilePackages = FilePackages (gr_Graph sample_graph_record), GraphTargets = [graph_target_of sample_covered]\<rparr>"


section \<open>The scope covers what changed\<close>

text \<open>The elements \<open>path.Clean\<close> leaves, last first: names before the double dots.\<close>

definition clean_stack :: "bool \<Rightarrow> string list \<Rightarrow> bool" where
  "clean_stack rooted kept \<longleftrightarrow> (\<forall>e \<in> set kept. e \<noteq> [] \<and> e \<noteq> ''.'') \<and>
     (\<exists>names dots. kept = names @ dots \<and> ''..'' \<notin> set names \<and> set dots \<subseteq> {''..''} \<and> (rooted \<longrightarrow> dots = []))"

lemma clean_stack_Nil [simp]: "clean_stack rooted []"
  by (simp add: clean_stack_def)

lemma clean_stack_name:
  assumes "clean_stack rooted kept" "e \<noteq> []" "e \<noteq> ''.''" "e \<noteq> ''..''" shows "clean_stack rooted (e # kept)"
proof -
  obtain names dots where "kept = names @ dots" "''..'' \<notin> set names" "set dots \<subseteq> {''..''}" "rooted \<longrightarrow> dots = []"
    using assms(1) by (auto simp: clean_stack_def)
  then show ?thesis using assms unfolding clean_stack_def by (intro conjI exI [of _ "e # names"] exI [of _ dots]) auto
qed

lemma clean_stack_dots:
  "clean_stack rooted (''..'' # kept) \<longleftrightarrow> \<not> rooted \<and> set kept \<subseteq> {''..''}"
proof
  assume "clean_stack rooted (''..'' # kept)"
  then obtain names dots where "''..'' # kept = names @ dots" "''..'' \<notin> set names" "set dots \<subseteq> {''..''}" "rooted \<longrightarrow> dots = []"
    by (auto simp: clean_stack_def)
  then show "\<not> rooted \<and> set kept \<subseteq> {''..''}" by (cases names) auto
next
  assume "\<not> rooted \<and> set kept \<subseteq> {''..''}"
  then show "clean_stack rooted (''..'' # kept)"
    unfolding clean_stack_def by (intro conjI exI [of _ "[]"] exI [of _ "''..'' # kept"]) auto
qed

lemma clean_stack_tl: "clean_stack rooted (e # kept) \<Longrightarrow> clean_stack rooted kept"
proof -
  assume a: "clean_stack rooted (e # kept)"
  then obtain names dots where "e # kept = names @ dots" "''..'' \<notin> set names" "set dots \<subseteq> {''..''}" "rooted \<longrightarrow> dots = []"
    by (auto simp: clean_stack_def)
  then have "\<exists>names dots. kept = names @ dots \<and> ''..'' \<notin> set names \<and> set dots \<subseteq> {''..''} \<and> (rooted \<longrightarrow> dots = [])"
    by (cases names) (auto simp: Cons_eq_append_conv intro: exI [of _ "[]"])
  with a show ?thesis by (simp add: clean_stack_def)
qed

lemma clean_elements_stack: "clean_stack rooted kept \<Longrightarrow> clean_stack rooted (rev (clean_elements rooted kept es))"
proof (induction rooted kept es rule: clean_elements.induct)
  case (2 rooted kept e es)
  show ?case
  proof (cases "e = ''..''")
    case True
    show ?thesis
    proof (cases kept)
      case Nil
      then show ?thesis using 2 True by (cases rooted) (simp_all add: clean_stack_dots)
    next
      case (Cons k ks)
      then show ?thesis using 2 True clean_stack_tl by (cases "k = ''..''") (auto simp: clean_stack_dots)
    qed
  qed (use 2 clean_stack_name in auto)
qed simp

lemma clean_elements_clean:
  "clean_stack rooted (rev es @ kept) \<Longrightarrow> clean_elements rooted kept es = rev kept @ es"
proof (induction es arbitrary: kept)
  case (Cons e es)
  have stack: "clean_stack rooted (e # kept)"
    using Cons.prems by (induction es rule: rev_induct) (auto dest: clean_stack_tl)
  then have "e \<noteq> []" "e \<noteq> ''.''" by (auto simp: clean_stack_def)
  moreover have "clean_elements rooted (e # kept) es = rev (e # kept) @ es" using Cons by simp
  ultimately show ?case
    using stack Cons.prems by (cases "e = ''..''"; cases kept) (auto simp: clean_stack_dots)
qed simp

lemma clean_elements_append_Nil: "clean_elements rooted kept (es @ [[]]) = clean_elements rooted kept es"
  by (induction rooted kept es rule: clean_elements.induct) (auto split: list.splits)

lemma clean_elements_members: "set (clean_elements rooted kept es) \<subseteq> set kept \<union> set es"
  by (induction rooted kept es rule: clean_elements.induct) (auto split: list.splits if_splits)

lemma split_on_absent_char: "w \<in> set (split_on c s) \<Longrightarrow> c \<notin> set w"
  by (induction c s arbitrary: w rule: split_on.induct) (auto split: if_splits list.splits)

lemma split_on_slash_end: "split_on c (s @ [c]) = split_on c s @ [[]]"
proof (induction s)
  case (Cons x s)
  have "split_on c s \<noteq> []" by (cases s) (auto split: if_splits list.splits)
  with Cons show ?case by (auto split: list.splits)
qed simp

lemma path_clean_slash: "path_clean (path_clean p @ ''/'') = path_clean p"
proof -
  define rooted where "rooted = has_prefix p ''/''"
  define es where "es = clean_elements rooted [] (split_on (CHR ''/'') p)"
  have stack: "clean_stack rooted (rev es)" unfolding es_def by (rule clean_elements_stack) simp
  have plain: "CHR ''/'' \<notin> set e" if "e \<in> set es" for e
    using that clean_elements_members [of rooted "[]"] split_on_absent_char by (fastforce simp: es_def)
  have again: "clean_elements rooted [] es = es" using clean_elements_clean [of rooted es "[]"] stack by simp
  have names: "es = e # rest \<Longrightarrow> e \<noteq> []" for e rest using stack by (auto simp: clean_stack_def)
  have p: "path_clean p = (if rooted then ''/'' @ join ''/'' es else if join ''/'' es = [] then ''.'' else join ''/'' es)"
    by (simp add: path_clean_def rooted_def es_def Let_def)
  show ?thesis
  proof (cases es)
    case Nil
    then have "path_clean p = (if rooted then ''/'' else ''.'')" by (simp add: p)
    moreover have "path_clean ''//'' = ''/''" "path_clean ''./'' = ''.''" by code_simp+
    ultimately show ?thesis by simp
  next
    case (Cons e rest)
    have split: "split_on (CHR ''/'') (join ''/'' es @ ''/'') = es @ [[]]"
      using split_on_slash_end [of "CHR ''/''" "join ''/'' es"] split_on_join [of es "CHR ''/''"] plain Cons by simp
    have first: "join ''/'' es \<noteq> [] \<and> \<not> has_prefix (join ''/'' es @ ''/'') ''/''"
      using names [OF Cons] plain [of e] Cons by (cases e; cases rest) (auto simp: has_prefix_def)
    show ?thesis
    proof (cases rooted)
      case True
      have "path_clean (''/'' @ join ''/'' es @ ''/'') = ''/'' @ join ''/'' es"
        using split again True by (simp add: path_clean_def has_prefix_def clean_elements_append_Nil Let_def)
      then show ?thesis using True by (simp add: p)
    next
      case False
      have "path_clean (join ''/'' es @ ''/'') = join ''/'' es"
        using split again False first by (simp add: path_clean_def clean_elements_append_Nil Let_def)
      then show ?thesis using False first by (simp add: p)
    qed
  qed
qed

lemma path_dir_pattern: "path_dir (directory_pattern (path_dir p)) = path_dir p"
proof (cases "path_dir p = ''.''")
  case True
  moreover have "path_dir ''*.go'' = ''.''" by code_simp
  ultimately show ?thesis by (simp add: directory_pattern_def)
next
  case False
  let ?d = "path_dir p"
  have "last_index (?d @ CHR ''/'' # ''*.go'') (CHR ''/'') = int (length ?d)" by (rule last_index_append) simp
  then have "path_dir (?d @ ''/*.go'') = path_clean (?d @ ''/'')" by (simp add: path_dir_def nat_add_distrib)
  also have "\<dots> = ?d" unfolding path_dir_def by (rule path_clean_slash)
  finally show ?thesis using False by (simp add: directory_pattern_def)
qed


text \<open>
  The mutants a narrowed run asks for include every changed file of the program, by its
  name or by the pattern of its directory, every file beside a changed test, and nothing else;
  and the packages it discovers them in include the directory of every changed file.
\<close>

theorem mutation_scope_covers:
  assumes "\<not> im_broad s" "path \<in> set (im_changed s)" "has_suffix path ''.go''"
  defines "include \<equiv> fst (mutation_scope s)" and "directory \<equiv> package_directory_of_path path"
  shows "(path \<in> set include \<and> \<not> has_suffix path ''_test.go'' \<or> directory_pattern directory \<in> set include) \<and>
    (has_suffix path ''_test.go'' \<longrightarrow> directory_pattern directory \<in> set include) \<and>
    set include \<subseteq> set (im_changed s) \<union> directory_pattern ` package_directory_of_path ` {p \<in> set (im_changed s). has_suffix p ''_test.go''} \<and>
    (if directory = ''.'' then ''.'' else ''./'' @ trim_prefix directory ''./'') \<in> set (mutation_discovery_packages include (snd (mutation_scope s)))"
proof -
  have dirs: "package_directory_of_path p = path_dir p" for p
    by (simp add: package_directory_of_path_def path_dir_def path_clean_def Let_def)
  have members: "set include = {p \<in> set (im_changed s). has_suffix p ''.go'' \<and> \<not> has_suffix p ''_test.go'' \<and>
        package_directory_of_path p \<notin> package_directory_of_path ` {p \<in> set (im_changed s). has_suffix p ''_test.go''}} \<union>
      directory_pattern ` package_directory_of_path ` {p \<in> set (im_changed s). has_suffix p ''_test.go''}"
    using assms(1) by (auto simp: include_def mutation_scope_def Let_def)
  have covered: "path \<in> set include \<and> \<not> has_suffix path ''_test.go'' \<or> directory_pattern directory \<in> set include"
    using assms(2,3) unfolding members directory_def by blast
  then obtain pattern where pattern: "pattern \<in> set include" "path_dir pattern = path_dir path"
    using path_dir_pattern [of path] by (auto simp: directory_def dirs)
  define named where "named p = (if path_dir p = ''.'' then ''.'' else ''./'' @ trim_prefix (path_dir p) ''./'')" for p
  have "include \<noteq> []" using pattern(1) by auto
  then have "set (mutation_discovery_packages include (snd (mutation_scope s))) = named ` set include"
    by (simp add: mutation_discovery_packages_def named_def Let_def)
  then have "named pattern \<in> set (mutation_discovery_packages include (snd (mutation_scope s)))" using pattern(1) by simp
  then have found: "(if directory = ''.'' then ''.'' else ''./'' @ trim_prefix directory ''./'')
      \<in> set (mutation_discovery_packages include (snd (mutation_scope s)))"
    unfolding named_def pattern(2) directory_def dirs .
  have "directory_pattern directory \<in> set include" if "has_suffix path ''_test.go''"
    using that assms(2) unfolding members directory_def by blast
  moreover have "set include \<subseteq> set (im_changed s) \<union> directory_pattern ` package_directory_of_path ` {p \<in> set (im_changed s). has_suffix p ''_test.go''}"
    unfolding members by blast
  ultimately show ?thesis using covered found by blast
qed

theorem mutation_scope_covers_witness:
  "mutation_scope sample_edit = ([''a.go''], [''.'']) \<and> ''.'' \<in> set (mutation_discovery_packages [''a.go''] [''.''])"
proof -
  have scope: "mutation_scope sample_edit = ([''a.go''], [''.''])" "\<not> im_broad sample_edit" "im_changed sample_edit = [''a.go'']"
    and "package_directory_of_path ''a.go'' = ''.''" "has_suffix ''a.go'' ''.go''" by code_simp+
  then show ?thesis using mutation_scope_covers [of sample_edit "''a.go''"] by simp
qed

end
