(* ===== verification/Race.thy ===== *)
theory Race
  imports Impact
begin

text \<open>
  The race phase (\<open>internal/assure/race.go\<close>): which packages it takes, and what the run of the race
  detector over them says.
\<close>

section \<open>Relevant packages\<close>

fun trim_slashes :: "string \<Rightarrow> string" where
  "trim_slashes [] = []"
| "trim_slashes (c # cs) = (if c = CHR ''/'' then trim_slashes cs else c # cs)"

definition trim_both_slashes :: "string \<Rightarrow> string" where
  "trim_both_slashes s = rev (trim_slashes (rev (trim_slashes s)))"

definition package_directory :: "go_package \<Rightarrow> string" where
  "package_directory pkg =
     (let directory = trim_both_slashes (replace_backslash (pk_RelativeDir pkg)) in if directory = ''.'' then [] else directory)"

definition inside_directory :: "string \<Rightarrow> string \<Rightarrow> bool" where
  "inside_directory path directory =
     (if directory \<noteq> [] then has_prefix path (directory @ ''/'') else CHR ''/'' \<notin> set path)"

text \<open>The loop, with \<open>bestPath\<close> and \<open>bestPackage\<close>.\<close>

fun best_package :: "string \<Rightarrow> go_package list \<Rightarrow> string \<Rightarrow> string \<Rightarrow> string" where
  "best_package path [] best_path best = best"
| "best_package path (pkg # packages) best_path best =
     (let directory = package_directory pkg in
      if inside_directory path directory \<and> (best = [] \<or> length directory > length best_path)
      then best_package path packages directory (pk_ImportPath pkg)
      else best_package path packages best_path best)"

definition package_for_file :: "go_package list \<Rightarrow> string \<Rightarrow> string" where
  "package_for_file packages path = best_package (trim_prefix (replace_backslash path) ''./'') packages [] []"

definition reaches_concurrency :: "go_package list \<Rightarrow> string list \<Rightarrow> target_evidence \<Rightarrow> bool" where
  "reaches_concurrency packages concurrent e =
     (t_Package (te_Target e) \<in> set concurrent \<or> list_ex (\<lambda>d. d \<in> set concurrent) (t_Dependencies (te_Target e)) \<or>
      list_ex (\<lambda>covered. package_for_file packages covered \<in> set concurrent) (te_CoveredFiles e))"

definition relevant_race_packages :: "go_package list \<Rightarrow> string list \<Rightarrow> target_evidence list \<Rightarrow> string list" where
  "relevant_race_packages packages concurrent targets =
     sort_slice (remdups (map (\<lambda>e. t_Package (te_Target e)) (filter (reaches_concurrency packages concurrent) targets)))"

section \<open>The run\<close>

record race_result =
  rr_Evidence :: "evidence list"
  rr_Findings :: "finding list"

record race_options =
  rt_Environment :: "string list"
  rt_TestArgs :: "string list"
  rt_BuildTags :: "string list"
  rt_PersistCompile :: bool
  rt_Timeout :: int

datatype race_error =
    NilRaceWorkspace
  | RaceCompileError string
  | RaceCompileTimedOut
  | RaceCompileFailed int string
  | RaceRunError string
  | RaceTimedOut
  | RaceFailed int string

definition race_verification_timeout :: int where "race_verification_timeout = 1800000000000"

definition race_packages :: "go_model \<Rightarrow> string list \<Rightarrow> string \<Rightarrow> string list" where
  "race_packages model concurrent contract =
     remdups_adj (sort_slice (if contract = ''deep-v1'' then map pk_ImportPath (files_of (gm_Packages model)) else concurrent))"

definition race_command :: "race_options \<Rightarrow> string list \<Rightarrow> command" where
  "race_command options argv =
     \<lparr>cm_Argv = argv, cm_Dir = [], cm_Env = rt_Environment options,
      cm_Timeout = (if rt_Timeout options \<le> 0 then race_verification_timeout else rt_Timeout options)\<rparr>"

definition race_tags :: "race_options \<Rightarrow> string list" where
  "race_tags options = (if rt_BuildTags options = [] then [] else [''-tags='' @ join '','' (rt_BuildTags options)])"

definition race_compile_argv :: "race_options \<Rightarrow> string list \<Rightarrow> string list" where
  "race_compile_argv options packages = [''go'', ''test'', ''-race'', ''-c'', ''-o'', ''/dev/null''] @ race_tags options @ packages"

definition race_test_argv :: "race_options \<Rightarrow> string list \<Rightarrow> string list" where
  "race_test_argv options packages =
     [''go'', ''test'', ''-race'', ''-count=1''] @ race_tags options @ packages @
     (if rt_TestArgs options = [] then [] else ''-args'' # rt_TestArgs options)"

definition race_finding :: "(string \<Rightarrow> string) \<Rightarrow> string \<Rightarrow> string \<Rightarrow> string list \<Rightarrow> string \<Rightarrow> race_result" where
  "race_finding sha kind summary packages replay =
     \<lparr>rr_Evidence = [], rr_Findings = [\<lparr>f_ID = finding_id sha [kind, join [CHR 0x00] packages], f_Kind = kind, f_Path = [], f_Line = 0,
        f_Summary = summary, f_Replay = replay, f_Mutant = [], f_MutantID = []\<rparr>]\<rparr>"

text \<open>What the run of the detector says.\<close>

definition race_verdict :: "(string \<Rightarrow> string) \<Rightarrow> string list \<Rightarrow> string list \<Rightarrow> command_result \<Rightarrow> race_error + race_result" where
  "race_verdict sha packages argv run =
     (let said = com_Output run; replay = join '' '' argv in
      if com_TimedOut run then Inl RaceTimedOut
      else if com_ExitCode run \<noteq> 0 then
        (if contains_string ''WARNING: DATA RACE'' said
         then Inr (race_finding sha ''data-race'' (''Go race detector reproduced a data race: '' @ summarize said) packages replay)
         else if contains_string ''--- FAIL:'' said \<or> contains_string (CHR 0x0A # ''panic:'') said
         then Inr (race_finding sha ''race-test-failure'' (''a test failed under the Go race detector: '' @ summarize said) packages replay)
         else Inl (RaceFailed (com_ExitCode run) (summarize said)))
      else Inr \<lparr>rr_Evidence = [\<lparr>ev_Kind = ''race'', ev_ID = join '','' packages, ev_Status = ''passed'', ev_Detail = []\<rparr>], rr_Findings = []\<rparr>)"

definition race_compiled :: "(string + command_result) \<Rightarrow> race_error option" where
  "race_compiled reply =
     (case reply of
        Inl e \<Rightarrow> Some (RaceCompileError e)
      | Inr compiled \<Rightarrow>
          if com_TimedOut compiled then Some RaceCompileTimedOut
          else if com_ExitCode compiled \<noteq> 0 then Some (RaceCompileFailed (com_ExitCode compiled) (summarize (com_Output compiled)))
          else None)"

definition collect_race ::
  "(string \<Rightarrow> string) \<Rightarrow> ('w \<Rightarrow> command \<Rightarrow> (string + command_result) \<times> 'w) option \<Rightarrow> go_model \<Rightarrow> string list \<Rightarrow> string \<Rightarrow> race_options \<Rightarrow> 'w \<Rightarrow>
   (race_error + race_result) \<times> 'w" where
  "collect_race sha workspace model concurrent contract options w =
     (let packages = race_packages model concurrent contract in
      if packages = [] then
        (Inr \<lparr>rr_Evidence = [\<lparr>ev_Kind = ''race'', ev_ID = ''packages'', ev_Status = ''not-applicable'', ev_Detail = []\<rparr>], rr_Findings = []\<rparr>, w)
      else case workspace of
        None \<Rightarrow> (Inl NilRaceWorkspace, w)
      | Some exec \<Rightarrow>
          let (failed, w) =
            (if rt_PersistCompile options
             then (let (reply, w) = exec w (race_command options (race_compile_argv options packages)) in (race_compiled reply, w))
             else (None, w))
          in case failed of
               Some e \<Rightarrow> (Inl e, w)
             | None \<Rightarrow>
                 let argv = race_test_argv options packages; (reply, w) = exec w (race_command options argv)
                 in (case reply of Inl e \<Rightarrow> Inl (RaceRunError e) | Inr run \<Rightarrow> race_verdict sha packages argv run, w))"

section \<open>What makes the phase correct\<close>

definition best_so_far :: "string \<Rightarrow> go_package set \<Rightarrow> string \<Rightarrow> string \<Rightarrow> bool" where
  "best_so_far path seen best_path best \<longleftrightarrow>
     (if best = [] then \<forall>pkg \<in> seen. \<not> inside_directory path (package_directory pkg)
      else \<exists>pkg \<in> seen. best = pk_ImportPath pkg \<and> best_path = package_directory pkg \<and> inside_directory path best_path \<and>
        (\<forall>other \<in> seen. inside_directory path (package_directory other) \<longrightarrow> length (package_directory other) \<le> length best_path))"

lemma best_package_best:
  "best_so_far path seen best_path best \<Longrightarrow> \<forall>pkg \<in> seen \<union> set packages. pk_ImportPath pkg \<noteq> [] \<Longrightarrow>
   \<exists>chosen. best_so_far path (seen \<union> set packages) chosen (best_package path packages best_path best)"
proof (induction packages arbitrary: seen best_path best)
  case (Cons pkg packages)
  let ?d = "package_directory pkg"
  let ?better = "inside_directory path ?d \<and> (best = [] \<or> length ?d > length best_path)"
  define best_path' best' where "best_path' = (if ?better then ?d else best_path)" and "best' = (if ?better then pk_ImportPath pkg else best)"
  have "best_so_far path (insert pkg seen) best_path' best'"
    using Cons.prems unfolding best_so_far_def best_path'_def best'_def by (auto split: if_splits)
  from Cons.IH [OF this] Cons.prems(2) show ?case by (cases ?better) (auto simp: best_path'_def best'_def Let_def)
qed auto

text \<open>A file belongs to the package with the longest directory around it.\<close>

lemma package_for_file_longest:
  assumes "\<forall>pkg \<in> set packages. pk_ImportPath pkg \<noteq> []" "package_for_file packages path \<noteq> []"
  defines "file \<equiv> trim_prefix (replace_backslash path) ''./''"
  shows "\<exists>pkg \<in> set packages. package_for_file packages path = pk_ImportPath pkg \<and> inside_directory file (package_directory pkg) \<and>
    (\<forall>other \<in> set packages. inside_directory file (package_directory other) \<longrightarrow>
       length (package_directory other) \<le> length (package_directory pkg))"
proof -
  have "best_so_far file {} [] []" by (simp add: best_so_far_def)
  from best_package_best [OF this, of packages] assms(1)
  obtain chosen where "best_so_far file (set packages) chosen (package_for_file packages path)"
    by (auto simp: package_for_file_def file_def)
  then show ?thesis using assms(2) unfolding best_so_far_def by auto
qed

lemma race_packages_order:
  "set concurrent = set concurrent' \<Longrightarrow> race_packages model concurrent contract = race_packages model concurrent' contract"
proof -
  have "remdups_adj (sort_slice xs) = sorted_list_of_set (set xs)" for xs :: "string list"
    by (rule strict_sorted_equal) (simp_all add: sort_slice_sort strict_sorted_compact)
  then show "set concurrent = set concurrent' \<Longrightarrow> ?thesis" by (simp add: race_packages_def)
qed

text \<open>
  C20. The race phase is clean only when there is no package to check or when the race detector
  ran over every package it was given, to the end, and exited with zero; its answer does not
  depend on the order of the packages or on their repetition.
\<close>

theorem race_clean_sound:
  assumes "collect_race sha workspace model concurrent contract options w = (Inr r, w')" "rr_Findings r = []"
  defines "packages \<equiv> race_packages model concurrent contract"
  shows "(packages = [] \<and> w' = w \<or> (\<exists>exec run w1. workspace = Some exec \<and>
      exec w1 (race_command options (race_test_argv options packages)) = (Inr run, w') \<and> com_ExitCode run = 0 \<and> \<not> com_TimedOut run)) \<and>
    (\<forall>concurrent'. set concurrent' = set concurrent \<longrightarrow>
      collect_race sha workspace model concurrent' contract options w = (Inr r, w'))"
proof -
  have "collect_race sha workspace model concurrent' contract options w = (Inr r, w')" if "set concurrent' = set concurrent" for concurrent'
    using assms(1) race_packages_order [OF that] by (simp add: collect_race_def)
  moreover have "\<exists>exec run w1. workspace = Some exec \<and>
      exec w1 (race_command options (race_test_argv options packages)) = (Inr run, w') \<and> com_ExitCode run = 0 \<and> \<not> com_TimedOut run" if "packages \<noteq> []"
    using assms(1,2) that
    by (fastforce simp: collect_race_def packages_def race_verdict_def race_finding_def Let_def split: option.splits prod.splits sum.splits if_splits)
  moreover have "w' = w" if "packages = []" using assms(1) that by (simp add: collect_race_def packages_def)
  ultimately show ?thesis by blast
qed

text \<open>Two packages, named out of order, whose tests pass.\<close>

definition sample_race_options :: race_options where
  "sample_race_options = \<lparr>rt_Environment = [], rt_TestArgs = [''-short''], rt_BuildTags = [''a''], rt_PersistCompile = True, rt_Timeout = 0\<rparr>"

definition passing_exec :: "nat \<Rightarrow> command \<Rightarrow> (string + command_result) \<times> nat" where
  "passing_exec w c = (Inr \<lparr>com_TimedOut = False, com_ExitCode = 0, com_Output = [], com_Duration = 7\<rparr>, Suc w)"

theorem race_clean_sound_witness:
  "\<exists>r. collect_race id (Some passing_exec) \<lparr>gm_ModulePath = ''m'', gm_Packages = Some []\<rparr> [''q'', ''p'', ''q''] ''standard-v1'' sample_race_options 0 = (Inr r, 2) \<and>
     map ev_ID (rr_Evidence r) = [''p,q''] \<and>
     collect_race id (Some passing_exec) \<lparr>gm_ModulePath = ''m'', gm_Packages = Some []\<rparr> [''p'', ''q''] ''standard-v1'' sample_race_options 0 = (Inr r, 2)"
proof -
  let ?r = "\<lparr>rr_Evidence = [\<lparr>ev_Kind = ''race'', ev_ID = ''p,q'', ev_Status = ''passed'', ev_Detail = []\<rparr>], rr_Findings = []\<rparr>"
  have run: "collect_race id (Some passing_exec) \<lparr>gm_ModulePath = ''m'', gm_Packages = Some []\<rparr> [''q'', ''p'', ''q''] ''standard-v1'' sample_race_options 0 = (Inr ?r, 2)"
    by code_simp
  have "set [''p'', ''q''] = set [''q'', ''p'', ''q'']" by auto
  with race_clean_sound [OF run] have "collect_race id (Some passing_exec) \<lparr>gm_ModulePath = ''m'', gm_Packages = Some []\<rparr> [''p'', ''q'']
      ''standard-v1'' sample_race_options 0 = (Inr ?r, 2)" unfolding race_result.select_convs by blast
  with run show ?thesis by (intro exI [of _ ?r]) simp
qed

end
