(* ===== verification/BaselineCheckpoint.thy ===== *)
theory BaselineCheckpoint
  imports Baseline RunCheckpoint
begin

text \<open>
  What \<open>CollectBaseline\<close> saves (\<open>internal/assure/baseline.go\<close>) against what a later run accepts
  (\<open>checkpoint.State.Validate\<close>, \<open>runCheckpointController.baseline\<close>). A run that starts with
  nothing measured only saves states its successor accepts, whatever its commands and its
  session answer; one that resumes targets of a package saves states that are refused, as the
  last section shows.
\<close>

section \<open>Coverage a checkpoint accepts\<close>

definition good_files :: "file_coverage list \<Rightarrow> bool" where
  "good_files files \<longleftrightarrow> (\<forall>f \<in> set files. fc_path f \<noteq> [] \<and> (\<forall>b \<in> set (fc_blocks f). valid_block b))"

lemma good_files_Nil [simp]: "good_files []"
  by (simp add: good_files_def)

lemma checkpoint_block_ok: "block_error (checkpoint_block b) = None \<longleftrightarrow> valid_block b"
  by (auto simp: block_error_def checkpoint_block_def valid_block_def compare_positions_le not_less)

lemma good_files_checkpoint: "good_files files \<Longrightarrow> validate_coverage (Some (checkpoint_coverage_value files)) = None"
  by (auto simp: good_files_def checkpoint_coverage_value_def checkpoint_block_ok)

lemma merge_file_coverage_props:
  "wf_files (merge_file_coverage first second) \<and>
   file_relation (merge_file_coverage first second) = file_relation first \<union> file_relation second"
proof -
  have one: "wf_block_map (fold remember_file first [])" "block_relation (fold remember_file first []) = file_relation first"
    using remember_files_props [of "[]" first] by simp_all
  show ?thesis
    using remember_files_props [OF one(1), of second] one(2)
    by (simp add: merge_file_coverage_def wf_sorted_file_coverage sorted_file_coverage_relation)
qed

lemma good_files_relation: "good_files files \<Longrightarrow> (path, b) \<in> file_relation files \<Longrightarrow> path \<noteq> [] \<and> valid_block b"
  by (auto simp: good_files_def file_relation_def)

lemma wf_files_good:
  assumes "wf_files files" "\<And>path b. (path, b) \<in> file_relation files \<Longrightarrow> path \<noteq> [] \<and> valid_block b"
  shows "good_files files"
proof -
  have "fc_path f \<noteq> [] \<and> (\<forall>b \<in> set (fc_blocks f). valid_block b)" if "f \<in> set files" for f
  proof -
    have related: "(fc_path f, b) \<in> file_relation files" if "b \<in> set (fc_blocks f)" for b
      using that \<open>f \<in> set files\<close> by (auto simp: file_relation_def)
    moreover have "fc_blocks f \<noteq> []" using assms(1) \<open>f \<in> set files\<close> by (simp add: wf_files_def)
    then obtain b where "b \<in> set (fc_blocks f)" by (cases "fc_blocks f") auto
    ultimately show ?thesis using assms(2) by blast
  qed
  then show ?thesis by (simp add: good_files_def)
qed

lemma good_files_merge: "good_files first \<Longrightarrow> good_files second \<Longrightarrow> good_files (merge_file_coverage first second)"
  by (rule wf_files_good) (use merge_file_coverage_props good_files_relation in \<open>blast+\<close>)

lemma good_files_restrict:
  "good_files (Covered c) \<and> good_files (Instrumented c) \<Longrightarrow>
   good_files (Covered (restrict_baseline_coverage c packages)) \<and> good_files (Instrumented (restrict_baseline_coverage c packages))"
  by (auto simp: good_files_def restrict_baseline_coverage_def restrict_coverage_def restrict_file_coverage_def Let_def
      split: option.splits)

lemma parse_coverage_good:
  assumes "parse_coverage profile modulePath = Inr c" "\<forall>f \<in> set (Covered c) \<union> set (Instrumented c). fc_path f \<noteq> []"
  shows "good_files (Covered c) \<and> good_files (Instrumented c)"
proof -
  from assms(1) obtain lines covered instrumented where
    parsed: "parse_coverage_lines modulePath 0 lines [] [] = Inr (covered, instrumented)" and
    c: "c = \<lparr>Covered = sorted_file_coverage covered, Instrumented = sorted_file_coverage instrumented\<rparr>"
    by (auto simp: parse_coverage_def split: list.splits if_splits sum.splits)
  have "good_maps covered instrumented" using parsed by (rule parse_coverage_lines_good) (simp add: good_maps_def)
  then have "valid_block b" if "(path, b) \<in> file_relation (Covered c) \<union> file_relation (Instrumented c)" for path b
    using that by (auto simp: c good_maps_def sorted_file_coverage_relation)
  then show ?thesis using assms(2) by (fastforce simp: good_files_def file_relation_def)
qed

section \<open>Items and worlds\<close>

definition items_ok :: "baseline_item list \<Rightarrow> bool" where
  "items_ok items \<longleftrightarrow> distinct (map bi_ID items) \<and>
     (\<forall>item \<in> set items. bi_ID item \<noteq> [] \<and> t_Name (bi_Target item) \<noteq> [] \<and> t_Package (bi_Target item) \<noteq> [])"

text \<open>
  What a run relies on: no command takes a negative time, and a coverage profile names the
  files of its module.
\<close>

definition timed_runs :: "'w baseline_world \<Rightarrow> bool" where
  "timed_runs world \<longleftrightarrow>
     (\<forall>exec w c run w'. bw_exec world = Some exec \<longrightarrow> exec w c = (Inr run, w') \<longrightarrow> 0 \<le> com_Duration run) \<and>
     (\<forall>w q result w'. bw_probe world w q = (Inr result, w') \<longrightarrow> 0 \<le> pr_Duration result)"

definition named_profiles :: "'w baseline_world \<Rightarrow> go_model \<Rightarrow> bool" where
  "named_profiles world model \<longleftrightarrow>
     (\<forall>w path bytes c. bw_read world w path = Inr bytes \<longrightarrow> parse_coverage bytes (gm_ModulePath model) = Inr c \<longrightarrow>
        (\<forall>f \<in> set (Covered c) \<union> set (Instrumented c). fc_path f \<noteq> []))"

definition schedule_ok :: "baseline_schedule \<Rightarrow> bool" where
  "schedule_ok schedule \<longleftrightarrow>
     (\<forall>pkg n. set (sh_targets schedule pkg n) \<subseteq> {..<n}) \<and> (\<forall>n. set (sh_suites schedule n) \<subseteq> {..<n})"

lemma read_profile_good:
  assumes "read_profile world model unread invalid profile w = Inr c" "named_profiles world model"
  shows "good_files (Covered c) \<and> good_files (Instrumented c)"
proof -
  from assms(1) obtain bytes parsed where "bw_read world w profile = Inr bytes"
    "parse_coverage bytes (gm_ModulePath model) = Inr parsed" "c = restrict_baseline_coverage parsed (gm_Packages model)"
    by (auto simp: read_profile_def split: sum.splits)
  moreover from this assms(2) have "\<forall>f \<in> set (Covered parsed) \<union> set (Instrumented parsed). fc_path f \<noteq> []"
    unfolding named_profiles_def by blast
  ultimately show ?thesis using parse_coverage_good good_files_restrict by metis
qed

section \<open>A run of a target\<close>

text \<open>The unit of an item: classified, its evidence acceptable, its inventory that of the target.\<close>

definition unit_for_item :: "baseline_item \<Rightarrow> baseline_target \<Rightarrow> bool" where
  "unit_for_item item unit \<longleftrightarrow> bt_ID unit = bi_ID item \<and> good_target_unit unit \<and>
     td_Name (bt_Inventory unit) = t_Name (bi_Target item) \<and> td_Kind (bt_Inventory unit) = t_Kind (bi_Target item) \<and>
     td_Package (bt_Inventory unit) = t_Package (bi_Target item) \<and> td_Path (bt_Inventory unit) = t_Path (bi_Target item) \<and>
     td_Line (bt_Inventory unit) = max (t_Line (bi_Target item)) 0 \<and>
     (\<forall>saved. bt_Target unit = Some saved \<longrightarrow> ke_Target saved = checkpoint_target (bi_Target item))"

definition evidence_ok :: "target_evidence \<Rightarrow> bool" where
  "evidence_ok t \<longleftrightarrow> 0 \<le> te_Duration t \<and> te_ProbeDuration t = 0 \<and> (te_Probed t \<or> te_Infected t = []) \<and>
     strictly_increasing (te_Infected t) \<and> good_files (files_of (te_Covered t)) \<and> good_files (files_of (te_Instrumented t))"

lemma trace_milliseconds_nonneg [simp]: "\<not> trace_milliseconds d < 0"
  by (simp add: trace_milliseconds_def)

lemma evidence_accepted:
  assumes "te_Target t = bi_Target item" "evidence_ok t" "bt_ID unit = bi_ID item"
  shows "target_evidence_error unit (checkpoint_target_evidence t) = None"
proof -
  have "validate_coverage (Some (checkpoint_coverage_value (files_of (te_Covered t)))) = None"
    "validate_coverage (Some (checkpoint_coverage_value (files_of (te_Instrumented t)))) = None"
    using assms(2) by (simp_all add: evidence_ok_def good_files_checkpoint del: validate_coverage_simps)
  with assms show ?thesis
    by (simp add: target_evidence_error_def checkpoint_target_evidence_def checkpoint_target_def evidence_ok_def
        del: validate_coverage_simps)
qed

lemma classified_unit_fields:
  "bt_ID (baseline_classified_unit item status detail duration executed skipped measured es fs) = bi_ID item"
  "bt_Executed (baseline_classified_unit item status detail duration executed skipped measured es fs) = executed"
  "bt_Skipped (baseline_classified_unit item status detail duration executed skipped measured es fs) = skipped"
  "bt_Target (baseline_classified_unit item status detail duration executed skipped measured es fs) = map_option checkpoint_target_evidence measured"
  "bt_Inventory (baseline_classified_unit item status detail duration executed skipped measured es fs) =
     \<lparr>td_ID = bi_ID item, td_Name = t_Name (bi_Target item), td_Kind = t_Kind (bi_Target item), td_Package = t_Package (bi_Target item),
      td_Path = t_Path (bi_Target item), td_Line = max (t_Line (bi_Target item)) 0, td_Status = status,
      td_DurationMS = trace_milliseconds duration, td_Detail = detail\<rparr>"
  by (simp_all add: baseline_classified_unit_def Let_def)

lemma classified_unit_for_item:
  assumes "items_ok items" "item \<in> set items" "status \<noteq> []" "executed \<noteq> skipped"
    and "\<forall>t. measured = Some t \<longrightarrow> te_Target t = bi_Target item \<and> evidence_ok t"
  shows "unit_for_item item (baseline_classified_unit item status detail duration executed skipped measured es fs)"
proof -
  let ?u = "baseline_classified_unit item status detail duration executed skipped measured es fs"
  have named: "bi_ID item \<noteq> []" "t_Name (bi_Target item) \<noteq> []" using assms(1,2) by (auto simp: items_ok_def)
  have "target_unit_error ?u = None"
    using named assms(3,4) by (simp add: target_unit_error_def classified_unit_fields)
  moreover have "target_evidence_error ?u saved = None \<and> ke_Target saved = checkpoint_target (bi_Target item)"
    if saved: "bt_Target ?u = Some saved" for saved
  proof -
    obtain t where t: "measured = Some t" "saved = checkpoint_target_evidence t"
      using saved by (auto simp: classified_unit_fields)
    with assms(5) have "te_Target t = bi_Target item" "evidence_ok t" by simp_all
    with evidence_accepted [OF this, of ?u] t(2) show ?thesis
      by (simp add: classified_unit_fields checkpoint_target_evidence_def)
  qed
  ultimately show ?thesis by (simp add: unit_for_item_def good_target_unit_def classified_unit_fields(1,5))
qed

text \<open>A run that may be committed for an item.\<close>

definition run_for_item :: "baseline_item \<Rightarrow> baseline_target_run \<Rightarrow> bool" where
  "run_for_item item run \<longleftrightarrow> unit_for_item item (ut_unit run) \<and> good_files (ut_instrumented run)"

lemma settled_target_run:
  assumes "settle_target_run world model options item profile first failed widened probe w = Inr run"
    and "items_ok items" "item \<in> set items" "named_profiles world model" "0 \<le> com_Duration first"
    and "fst probe \<or> snd probe = []" "strictly_increasing (snd probe)"
  shows "run_for_item item run"
proof -
  have skipped: "run_for_item item (skipped_run sha item kind summary duration)" for sha kind summary duration
    using classified_unit_for_item [OF assms(2,3), of "''skipped''" False True None] by (simp add: run_for_item_def skipped_run_def)
  have failed: "run_for_item item (failed_run sha item attempt)" for sha attempt
    using classified_unit_for_item [OF assms(2,3), of "''failed''" True False None]
    by (simp add: run_for_item_def failed_run_def split: prod.splits)
  have passed: "run_for_item item (passed_run item c (com_Duration first) widened probe)"
    if "good_files (Covered c) \<and> good_files (Instrumented c)" for c
    using that assms(5-7) classified_unit_for_item [OF assms(2,3), of "''passed''" True False]
    by (simp add: run_for_item_def passed_run_def Let_def evidence_ok_def files_of_def)
  show ?thesis
    using assms(1) skipped failed passed read_profile_good [OF _ assms(4)]
    by (auto simp: settle_target_run_def Let_def map_sum_def split: sum.splits option.splits if_splits)
qed

lemma validated_baseline_probe_facts:
  "fst (validated_baseline_probe result indices) \<or> snd (validated_baseline_probe result indices) = []"
  "strictly_increasing (snd (validated_baseline_probe result indices))"
  by (simp_all add: validated_baseline_probe_def Let_def strictly_increasing_sorted strict_sorted_compact sort_slice_sort
      del: strictly_increasing.simps)

lemma execute_baseline_target_run:
  assumes "execute_baseline_target world exec model options control item timeout io = (reply, io')"
    and "bw_exec world = Some exec" "timed_runs world" "named_profiles world model" "items_ok items" "item \<in> set items"
  shows "be_saved io' = be_saved io \<and> (\<forall>run. reply = Inr run \<longrightarrow> run_for_item item run)"
proof -
  have timed: "exec w c = (Inr first, w') \<Longrightarrow> 0 \<le> com_Duration first" for w c first w'
    using assms(2,3) unfolding timed_runs_def by blast
  show ?thesis
    using assms(1) timed settled_target_run [OF _ assms(5,6,4)]
    by (auto simp: execute_baseline_target_def Let_def set_world_def split: prod.splits sum.splits if_splits)
qed

lemma execute_prepared_baseline_target_run:
  assumes "execute_prepared_baseline_target world model options importPath item timeout io = (reply, io')"
    and "timed_runs world" "named_profiles world model" "items_ok items" "item \<in> set items"
  shows "be_saved io' = be_saved io \<and> (\<forall>run. reply = Inr run \<longrightarrow> run_for_item item run)"
proof -
  have timed: "bw_probe world w c = (Inr result, w') \<Longrightarrow> 0 \<le> com_Duration (command_result_from_probe out result)" for w c result w' out
    using assms(2) unfolding timed_runs_def command_result_from_probe_def command_result.select_convs by blast
  have settled: "bw_probe world w c = (Inr result, w') \<Longrightarrow>
      settle_target_run world model options item profile (command_result_from_probe out result) failed widened
        (validated_baseline_probe result indices) w'' = Inr run \<Longrightarrow> run_for_item item run"
    for w c result w' profile out failed widened indices w'' run
    by (rule settled_target_run [OF _ assms(4,5,3) timed validated_baseline_probe_facts]) assumption+
  show ?thesis
    using assms(1) settled
    by (auto simp: execute_prepared_baseline_target_def Let_def set_world_def trace_probe_def split: prod.splits sum.splits if_splits)
qed

section \<open>A run of a suite\<close>

definition suite_ok :: "package_suite_coverage \<Rightarrow> bool" where
  "suite_ok s \<longleftrightarrow> 0 \<le> sv_Duration s \<and> good_files (sv_Covered s) \<and> good_files (sv_Instrumented s)"

definition suite_run_ok :: "string \<Rightarrow> package_suite_run \<Rightarrow> bool" where
  "suite_run_ok pkg run \<longleftrightarrow> us_importPath run = pkg \<and> (us_measured run \<longrightarrow> suite_ok (us_suite run))"

lemma suite_runs_ok [simp]:
  "suite_run_ok pkg (unmeasured_suite_run pkg)"
  "0 \<le> d \<Longrightarrow> good_files (Covered c) \<Longrightarrow> good_files (Instrumented c) \<Longrightarrow> suite_run_ok pkg (suite_run pkg c d widened probe)"
  by (simp_all add: suite_run_ok_def unmeasured_suite_run_def suite_run_def suite_ok_def)

lemma execute_suite_run:
  assumes "execute_suite world exec model options control timeout targets io = (reply, io')"
    and "bw_exec world = Some exec" "timed_runs world" "named_profiles world model"
  shows "be_saved io' = be_saved io \<and> (\<forall>run. reply = Inr run \<longrightarrow> suite_run_ok (cl_importPath control) run)"
proof -
  have timed: "exec w c = (Inr first, w') \<Longrightarrow> 0 \<le> com_Duration first" for w c first w'
    using assms(2,3) unfolding timed_runs_def by blast
  have probed: "bw_probe world w q = (Inr result, w') \<Longrightarrow> 0 \<le> pr_Duration result" for w q result w'
    using assms(3) unfolding timed_runs_def by blast
  show ?thesis
    using assms(1) timed probed read_profile_good [OF _ assms(4)]
    by (auto simp: execute_suite_def collect_prepared_package_suite_coverage_def collect_package_suite_coverage_def
        Let_def set_world_def trace_probe_def map_sum_def split: prod.splits sum.splits if_splits)
qed

section \<open>The progress of a run that started with nothing measured\<close>

text \<open>\<open>anchor\<close> names, for each package, the one target whose instrumentation is kept.\<close>

definition unit_kept :: "baseline_item list \<Rightarrow> (string \<Rightarrow> string) \<Rightarrow> string \<times> baseline_target \<Rightarrow> bool" where
  "unit_kept items anchor entry \<longleftrightarrow> (\<exists>item \<in> set items. fst entry = bi_ID item \<and> unit_for_item item (snd entry) \<and>
     (instrumented_package (snd entry) = [] \<or> fst entry = anchor (t_Package (bi_Target item))))"

definition suite_kept :: "string \<times> baseline_suite \<Rightarrow> bool" where
  "suite_kept entry \<longleftrightarrow> bs_Package (snd entry) = fst entry \<and> partial_suite_error (snd entry) = None \<and>
     partial_suite_coverage_error (snd entry) = None"

definition progress_ok :: "baseline_item list \<Rightarrow> (string \<Rightarrow> string) \<Rightarrow> baseline_progress \<Rightarrow> bool" where
  "progress_ok items anchor p \<longleftrightarrow>
     distinct (map fst (lp_completed p)) \<and> (\<forall>e \<in> set (lp_completed p). unit_kept items anchor e) \<and>
     distinct (map fst (lp_suites p)) \<and> (\<forall>e \<in> set (lp_suites p). suite_kept e) \<and>
     good_files (ba_Instrumented (lp_result p)) \<and>
     (\<forall>(pkg, s) \<in> set (files_of (ba_Suites (lp_result p))). pkg \<noteq> [] \<and> suite_ok s)"

lemma set_alist_update: "e \<in> set (AList.update k v al) \<Longrightarrow> e = (k, v) \<or> e \<in> set al"
  by (induction al) (auto split: if_splits)

lemma progress_completes:
  assumes "progress_ok items anchor p" "item \<in> set items" "unit_for_item item unit"
    and "instrumented_package unit = [] \<or> bi_ID item = anchor (t_Package (bi_Target item))"
  shows "progress_ok items anchor (complete_unit unit p)"
proof -
  have "unit_kept items anchor (bt_ID unit, unit)" using assms(2-4) by (auto simp: unit_kept_def unit_for_item_def)
  with assms(1) show ?thesis
    by (auto simp: progress_ok_def complete_unit_def distinct_update dest!: set_alist_update)
qed

lemma progress_merges:
  "progress_ok items anchor p \<Longrightarrow> good_files files \<Longrightarrow> progress_ok items anchor (merge_instrumented files p)"
  by (simp add: progress_ok_def merge_instrumented_def good_files_merge)

lemma progress_structural [simp]: "progress_ok items anchor (add_structural f p) = progress_ok items anchor p"
  by (simp add: progress_ok_def add_structural_def)

lemma progress_updates [simp]:
  "progress_ok items anchor (p\<lparr>lp_measured := m\<rparr>) = progress_ok items anchor p"
  "progress_ok items anchor (p\<lparr>lp_vetted := v\<rparr>) = progress_ok items anchor p"
  "progress_ok items anchor (p\<lparr>lp_result := (lp_result p)\<lparr>ba_Evidence := es\<rparr>\<rparr>) = progress_ok items anchor p"
  "progress_ok items anchor (p\<lparr>lp_result := (lp_result p)\<lparr>ba_ProbeSuites := ps\<rparr>\<rparr>) = progress_ok items anchor p"
  by (simp_all add: progress_ok_def)

lemma progress_suite:
  assumes "progress_ok items anchor p" "suite_kept (pkg, s)"
  shows "progress_ok items anchor (p\<lparr>lp_suites := AList.update pkg s (lp_suites p)\<rparr>)"
  using assms by (auto simp: progress_ok_def distinct_update dest!: set_alist_update)

section \<open>A state saved from such a progress is accepted\<close>

text \<open>A checkpoint with the baseline is still valid, and the run's targets match it.\<close>

definition baseline_accepted :: "target list \<Rightarrow> baseline_state \<Rightarrow> bool" where
  "baseline_accepted targets b \<longleftrightarrow>
     (\<forall>st. validate_checkpoint st = None \<longrightarrow> validate_checkpoint (st\<lparr>ck_Baseline := b\<rparr>) = None) \<and>
     list_all (unit_matches targets) (bl_Targets b)"

lemma unit_for_item_matches:
  assumes "items_ok items" "item \<in> set items" "unit_for_item item unit"
  shows "unit_matches (map bi_Target items) unit"
proof -
  have "distinct (map fst (rev (map (\<lambda>t. (t_ID t, t)) (map bi_Target items))))"
    using assms(1) by (simp add: items_ok_def comp_def rev_map [symmetric])
  moreover have "(bi_ID item, bi_Target item) \<in> set (rev (map (\<lambda>t. (t_ID t, t)) (map bi_Target items)))"
    using assms(2) by auto
  ultimately have "map_of (rev (map (\<lambda>t. (t_ID t, t)) (map bi_Target items))) (bi_ID item) = Some (bi_Target item)"
    by (rule map_of_is_SomeI)
  with assms(3) show ?thesis
    by (auto simp: unit_matches_def unit_for_item_def checkpoint_target_def Let_def split: option.splits)
qed

text \<open>What an association list holds under its sorted keys.\<close>

lemma sorted_lookup_set:
  assumes "v \<in> set (map (\<lambda>i. the (map_of al i)) (sort_slice (map fst al)))" "distinct (map fst al)"
  shows "\<exists>k. (k, v) \<in> set al"
proof -
  obtain k where k: "k \<in> fst ` set al" "v = the (map_of al k)" using assms(1) by auto
  then obtain w where "(k, w) \<in> set al" by force
  with assms(2) k show ?thesis by (metis map_of_is_SomeI option.sel)
qed

lemma sorted_lookup_keys:
  assumes "distinct (map fst al)" "\<And>k v. (k, v) \<in> set al \<Longrightarrow> f v = k"
  shows "map f (map (\<lambda>i. the (map_of al i)) (sort_slice (map fst al))) = sort_slice (map fst al)"
proof -
  have "f (the (map_of al k)) = k" if "k \<in> set (sort_slice (map fst al))" for k
  proof -
    from that obtain w where "(k, w) \<in> set al" by force
    with assms show ?thesis by (metis map_of_is_SomeI option.sel)
  qed
  then show ?thesis by (simp only: map_map comp_def) (rule map_idI)
qed

text \<open>At most one unit of a package keeps its instrumentation.\<close>

lemma instrumented_unit_package:
  "unit_for_item item unit \<Longrightarrow> pkg \<in> set (instrumented_package unit) \<Longrightarrow> pkg = t_Package (bi_Target item)"
  by (auto simp: instrumented_package_def unit_for_item_def checkpoint_target_def split: option.splits if_splits)

lemma distinct_instrumented_packages:
  assumes "distinct (map bt_ID units)" "\<And>unit. unit \<in> set units \<Longrightarrow> unit_kept items anchor (bt_ID unit, unit)"
  shows "distinct (instrumented_packages units)"
  using assms
proof (induction units)
  case (Cons unit units)
  have "pkg \<notin> set (instrumented_packages units)" if pkg: "pkg \<in> set (instrumented_package unit)" for pkg
  proof
    assume "pkg \<in> set (instrumented_packages units)"
    then obtain other where other: "other \<in> set units" "pkg \<in> set (instrumented_package other)"
      by (auto simp: instrumented_packages_def)
    have "unit_kept items anchor (bt_ID unit, unit)" "unit_kept items anchor (bt_ID other, other)"
      using Cons.prems(2) other(1) by simp_all
    then have "bt_ID unit = anchor pkg" "bt_ID other = anchor pkg"
      using pkg other(2) instrumented_unit_package by (force simp: unit_kept_def)+
    then show False using Cons.prems(1) other(1) by (metis distinct.simps(2) image_eqI list.set_map list.simps(9))
  qed
  moreover have "distinct (instrumented_package unit)" by (simp add: instrumented_package_def split: option.splits)
  moreover have "instrumented_packages (unit # units) = instrumented_package unit @ instrumented_packages units"
    by (simp add: instrumented_packages_def)
  ultimately show ?case using Cons by auto
qed (simp add: instrumented_packages_def)

lemma strip_facts [simp]:
  "bt_ID (strip_instrumentation unit) = bt_ID unit"
  "instrumented_package (strip_instrumentation unit) = []"
  "target_unit_error (strip_instrumentation unit) = target_unit_error unit"
  "bt_Inventory (strip_instrumentation unit) = bt_Inventory unit"
  "bt_Target (strip_instrumentation unit) = map_option (\<lambda>t. t\<lparr>ke_Instrumented := None\<rparr>) (bt_Target unit)"
  by (auto simp: strip_instrumentation_def instrumented_package_def target_unit_error_def split: option.splits)

lemma stripped_evidence:
  "target_evidence_error unit t = None \<Longrightarrow> target_evidence_error (strip_instrumentation unit) (t\<lparr>ke_Instrumented := None\<rparr>) = None"
  by (cases "ke_Coverage t") (simp_all add: target_evidence_error_def del: validate_coverage_simps(2) split: if_split_asm)

lemma stripped_for_item:
  assumes "unit_for_item item unit" shows "unit_for_item item (strip_instrumentation unit)"
proof -
  have "good_target_unit (strip_instrumentation unit)"
    using assms stripped_evidence [of unit] by (auto simp: unit_for_item_def good_target_unit_def)
  with assms show ?thesis by (auto simp: unit_for_item_def)
qed

lemma stripped_instrumented: "instrumented_packages (map strip_instrumentation units) = []"
  by (simp add: instrumented_packages_def)

text \<open>The units of a progress, as they are written.\<close>

lemma kept_units:
  assumes "progress_ok items anchor p" "items_ok items"
  defines "units \<equiv> map (\<lambda>i. the (map_of (lp_completed p) i)) (sort_slice (map fst (lp_completed p)))"
  shows "\<forall>unit \<in> set units. good_target_unit unit \<and> unit_matches (map bi_Target items) unit \<and>
      good_target_unit (strip_instrumentation unit) \<and> unit_matches (map bi_Target items) (strip_instrumentation unit)"
    and "distinct (map bt_ID units)" "distinct (instrumented_packages units)"
proof -
  have keys: "distinct (map fst (lp_completed p))" using assms(1) by (simp add: progress_ok_def)
  have kept: "unit_kept items anchor e" if "e \<in> set (lp_completed p)" for e using assms(1) that by (simp add: progress_ok_def)
  have entry: "unit_kept items anchor (bt_ID unit, unit)" if unit: "unit \<in> set units" for unit
  proof -
    from sorted_lookup_set [OF unit [unfolded units_def] keys] obtain k where "(k, unit) \<in> set (lp_completed p)" by blast
    with kept have "unit_kept items anchor (k, unit)" by blast
    then show ?thesis by (auto simp: unit_kept_def unit_for_item_def)
  qed
  have "good_target_unit unit \<and> unit_matches (map bi_Target items) unit" if "item \<in> set items" "unit_for_item item unit" for item unit
    using unit_for_item_matches [OF assms(2) that] that(2) by (simp add: unit_for_item_def)
  with entry show "\<forall>unit \<in> set units. good_target_unit unit \<and> unit_matches (map bi_Target items) unit \<and>
      good_target_unit (strip_instrumentation unit) \<and> unit_matches (map bi_Target items) (strip_instrumentation unit)"
    unfolding unit_kept_def using stripped_for_item by (metis snd_conv)
  have "bt_ID v = k" if "(k, v) \<in> set (lp_completed p)" for k v
    using kept [OF that] by (auto simp: unit_kept_def unit_for_item_def)
  then have "map bt_ID units = sort_slice (map fst (lp_completed p))"
    unfolding units_def by (rule sorted_lookup_keys [OF keys])
  then show "distinct (map bt_ID units)" using keys by simp
  then show "distinct (instrumented_packages units)" using entry by (rule distinct_instrumented_packages)
qed

lemma kept_suites:
  assumes "progress_ok items anchor p"
  shows "validate_each partial_suite_error bs_Package PartialSuiteDuplicate partial_suite_coverage_error []
    (map (\<lambda>i. the (map_of (lp_suites p) i)) (sort_slice (map fst (lp_suites p)))) = None"
proof -
  let ?suites = "map (\<lambda>i. the (map_of (lp_suites p) i)) (sort_slice (map fst (lp_suites p)))"
  have keys: "distinct (map fst (lp_suites p))" and kept: "\<forall>e \<in> set (lp_suites p). suite_kept e"
    using assms by (simp_all add: progress_ok_def)
  have ok: "partial_suite_error s = None \<and> partial_suite_coverage_error s = None" if s: "s \<in> set ?suites" for s
  proof -
    from sorted_lookup_set [OF s keys] obtain k where "(k, s) \<in> set (lp_suites p)" by blast
    with kept show ?thesis by (auto simp: suite_kept_def)
  qed
  have "bs_Package v = k" if "(k, v) \<in> set (lp_suites p)" for k v using kept that by (auto simp: suite_kept_def)
  then have "map bs_Package ?suites = sort_slice (map fst (lp_suites p))" by (rule sorted_lookup_keys [OF keys])
  then have "distinct (map bs_Package ?suites)" using keys by simp
  with ok show ?thesis unfolding validate_each_None by simp
qed

lemma kept_routing:
  assumes "progress_ok items anchor p"
  shows "validate_routing (Some (checkpoint_baseline_routing (ba_Instrumented (lp_result p)) (files_of (ba_Suites (lp_result p))))) = None"
proof -
  let ?suites = "files_of (ba_Suites (lp_result p))"
  have files: "good_files (ba_Instrumented (lp_result p))" and suites: "\<forall>(pkg, s) \<in> set ?suites. pkg \<noteq> [] \<and> suite_ok s"
    using assms by (simp_all add: progress_ok_def)
  have found: "pkg \<noteq> [] \<and> suite_ok (the (map_of ?suites pkg))" if "pkg \<in> fst ` set ?suites" for pkg
  proof -
    from that obtain s where "map_of ?suites pkg = Some s" by (metis map_of_eq_None_iff not_None_eq)
    with suites show ?thesis by (auto dest: map_of_SomeD)
  qed
  have covered: "suite_coverage_error \<lparr>su_Package = pkg, su_Covered = checkpoint_coverage_value (sv_Covered s),
      su_Instrumented = checkpoint_coverage_value (sv_Instrumented s), su_DurationNS = d, su_WholeTree = w\<rparr> = None"
    if "suite_ok s" for pkg s d w
    using that by (simp add: suite_coverage_error_def suite_ok_def good_files_checkpoint del: validate_coverage_simps)
  let ?routing = "checkpoint_baseline_routing (ba_Instrumented (lp_result p)) ?suites"
  have "validate_coverage (Some (br_Instrumented ?routing)) = None"
    using files by (simp add: checkpoint_baseline_routing_def good_files_checkpoint del: validate_coverage_simps)
  moreover have "(if su_Package s = [] \<or> su_DurationNS s < 0 then Some SuiteIdentity else None) = None \<and> suite_coverage_error s = None"
    if "s \<in> set (br_Suites ?routing)" for s
    using that found covered by (fastforce simp: checkpoint_baseline_routing_def Let_def suite_ok_def)
  moreover have "distinct (map su_Package (br_Suites ?routing))"
    by (simp add: checkpoint_baseline_routing_def Let_def comp_def)
  ultimately show ?thesis
    unfolding validate_routing_def option.case err_then_None wrap_error_None validate_each_None by simp
qed

lemma saved_accepted:
  assumes "progress_ok items anchor p" "items_ok items"
  shows "baseline_accepted (map bi_Target items) (baseline_checkpoint complete p)"
proof -
  define units where "units = map (\<lambda>i. the (map_of (lp_completed p) i)) (sort_slice (map fst (lp_completed p)))"
  note kept = kept_units [OF assms, folded units_def]
  let ?b = "baseline_checkpoint complete p"
  have targets: "bl_Targets ?b = (if complete then map strip_instrumentation units else units)"
    by (simp add: baseline_checkpoint_def Let_def units_def)
  have "distinct (map bt_ID (map strip_instrumentation units))" using kept(2) by (simp add: comp_def)
  then have valid: "validate_baseline_targets complete [] [] (bl_Targets ?b) = None"
    "list_all (unit_matches (map bi_Target items)) (bl_Targets ?b)"
    unfolding validate_baseline_targets_None targets
    using kept by (auto simp: stripped_instrumented list_all_iff)
  show ?thesis
    unfolding baseline_accepted_def validate_checkpoint_None
    using valid kept_suites [OF assms(1)] kept_routing [OF assms(1)]
    by (cases complete) (simp_all add: baseline_checkpoint_def Let_def validate_routing_def)
qed

section \<open>The run keeps it so\<close>

definition saves_accepted :: "baseline_item list \<Rightarrow> 'w baseline_effects \<Rightarrow> 'w baseline_effects \<Rightarrow> bool" where
  "saves_accepted items io io' \<longleftrightarrow>
     (\<exists>bs. be_saved io' = be_saved io @ bs \<and> (\<forall>b \<in> set bs. baseline_accepted (map bi_Target items) b))"

lemma saves_same: "be_saved io' = be_saved io \<Longrightarrow> saves_accepted items io io'"
  by (simp add: saves_accepted_def)

lemma saves_trans: "saves_accepted items io io' \<Longrightarrow> saves_accepted items io' io'' \<Longrightarrow> saves_accepted items io io''"
  by (fastforce simp: saves_accepted_def)

lemma saves_checkpoint:
  "progress_ok items anchor p \<Longrightarrow> items_ok items \<Longrightarrow> saves_accepted items io (checkpoint_now options complete p io)"
  using saved_accepted by (fastforce simp: saves_accepted_def checkpoint_now_def)

lemma saves_progress [simp]:
  "be_saved (publish_progress p items io) = be_saved io" "be_saved (set_world w io) = be_saved io"
  by (simp_all add: publish_progress_def set_world_def)

definition anchor_of :: "baseline_progress \<Rightarrow> baseline_item list \<Rightarrow> string \<Rightarrow> string" where
  "anchor_of start items pkg = (case package_targets start items pkg of [] \<Rightarrow> [] | item # _ \<Rightarrow> bi_ID item)"

definition control_ok :: "baseline_progress \<Rightarrow> baseline_item list \<Rightarrow> package_control \<Rightarrow> bool" where
  "control_ok start items control \<longleftrightarrow>
     cl_importPath control \<noteq> [] \<and> cl_targets control = package_targets start items (cl_importPath control)"

lemma control_anchor: "control_ok start items control \<Longrightarrow> instrumentation_anchor control = anchor_of start items (cl_importPath control)"
  by (simp add: control_ok_def instrumentation_anchor_def anchor_of_def)

lemma control_item:
  assumes "control_ok start items control" "i < length (cl_targets control)"
  shows "cl_targets control ! i \<in> set items" "t_Package (bi_Target (cl_targets control ! i)) = cl_importPath control"
proof -
  have "cl_targets control ! i \<in> set (package_targets start items (cl_importPath control))"
    using assms by (metis control_ok_def nth_mem)
  then show "cl_targets control ! i \<in> set items" "t_Package (bi_Target (cl_targets control ! i)) = cl_importPath control"
    by (simp_all add: package_targets_def)
qed

lemma committed_target:
  assumes "progress_ok items (anchor_of start items) p" "control_ok start items control" "run_for_item item run"
    and "item \<in> set items" "t_Package (bi_Target item) = cl_importPath control"
  shows "progress_ok items (anchor_of start items) (commit_target control run p)"
proof -
  have unit: "unit_for_item item (ut_unit run)" "bt_ID (ut_unit run) = bi_ID item"
    using assms(3) by (simp_all add: run_for_item_def unit_for_item_def)
  define p' where "p' = (case ut_evidence run of None \<Rightarrow> p
    | Some t \<Rightarrow> p\<lparr>lp_measured := AList.update (bt_ID (ut_unit run)) (t\<lparr>te_Instrumented := None\<rparr>) (lp_measured p)\<rparr>)"
  define kept where "kept = (if cl_importPath control \<in> set (lp_anchored p') \<or> bt_ID (ut_unit run) \<noteq> instrumentation_anchor control
    then strip_instrumentation (ut_unit run) else ut_unit run)"
  have "progress_ok items (anchor_of start items) p'" using assms(1) by (simp add: p'_def split: option.split)
  moreover have "unit_for_item item kept" using unit(1) stripped_for_item by (simp add: kept_def)
  moreover have "instrumented_package kept = [] \<or> bi_ID item = anchor_of start items (t_Package (bi_Target item))"
    using unit(2) assms(5) control_anchor [OF assms(2)] by (simp add: kept_def)
  ultimately have "progress_ok items (anchor_of start items) (complete_unit kept p')"
    using assms(4) by (intro progress_completes)
  moreover have "commit_target control run p = merge_instrumented (ut_instrumented run) (complete_unit kept p')"
    unfolding commit_target_def Let_def kept_def p'_def by (rule refl)
  ultimately show ?thesis using assms(3) by (simp add: progress_merges run_for_item_def)
qed

lemma target_turn_keeps:
  assumes "bw_exec world = Some exec" "timed_runs world" "named_profiles world model" "items_ok items" "control_ok start items control"
    and "target_turn world exec model options items control timeout i (errors, p, io) = (errors', p', io')"
    and "i < length (cl_targets control)" "progress_ok items (anchor_of start items) p"
  shows "progress_ok items (anchor_of start items) p' \<and> be_saved io' = be_saved io"
proof (cases "bw_cancelled world (be_world io)")
  case None
  let ?item = "cl_targets control ! i"
  note item = control_item [OF assms(5,7)]
  obtain reply io1 where run: "execute_target world exec model options control ?item timeout io = (reply, io1)" by (metis surj_pair)
  have ran: "be_saved io1 = be_saved io \<and> (\<forall>run. reply = Inr run \<longrightarrow> run_for_item ?item run)"
    using run execute_baseline_target_run [OF _ assms(1-4) item(1)] execute_prepared_baseline_target_run [OF _ assms(2-4) item(1)]
    by (simp add: execute_target_def split: if_split_asm)
  show ?thesis
  proof (cases reply)
    case (Inl e)
    then show ?thesis using assms(6,8) None run ran by (auto simp: target_turn_def)
  next
    case (Inr r)
    have "progress_ok items (anchor_of start items) (commit_target control r p)"
      using ran Inr by (intro committed_target [OF assms(8,5) _ item]) simp
    then show ?thesis using assms(6) None run ran Inr by (auto simp: target_turn_def Let_def)
  qed
qed (use assms(6,8) in \<open>auto simp: target_turn_def\<close>)

lemma target_turns_keep:
  assumes "bw_exec world = Some exec" "timed_runs world" "named_profiles world model" "items_ok items" "control_ok start items control"
  shows "fold (target_turn world exec model options items control timeout) order (errors, p, io) = (errors', p', io') \<Longrightarrow>
    set order \<subseteq> {..<length (cl_targets control)} \<Longrightarrow> progress_ok items (anchor_of start items) p \<Longrightarrow>
    progress_ok items (anchor_of start items) p' \<and> be_saved io' = be_saved io"
proof (induction order arbitrary: errors p io)
  case (Cons i order)
  obtain errors1 p1 io1 where turn: "target_turn world exec model options items control timeout i (errors, p, io) = (errors1, p1, io1)"
    by (metis prod_cases3)
  then have "progress_ok items (anchor_of start items) p1 \<and> be_saved io1 = be_saved io"
    using Cons.prems by (intro target_turn_keeps [OF assms]) auto
  with Cons.IH [of errors1 p1 io1] Cons.prems turn show ?case by simp
qed simp

lemma collect_packages_keep:
  assumes "bw_exec world = Some exec" "timed_runs world" "named_profiles world model" "items_ok items" "schedule_ok schedule"
  shows "collect_packages world exec model options items timeout (sh_targets schedule) controls (p, io) = (e, p', io') \<Longrightarrow>
    list_all (control_ok start items) controls \<Longrightarrow> progress_ok items (anchor_of start items) p \<Longrightarrow>
    progress_ok items (anchor_of start items) p' \<and> saves_accepted items io io'"
proof (induction controls arbitrary: p io)
  case Nil
  then show ?case by (simp add: saves_same)
next
  case (Cons control controls)
  let ?n = "length (cl_targets control)" and ?order = "sh_targets schedule (cl_importPath control) (length (cl_targets control))"
  have control: "control_ok start items control" and order: "set ?order \<subseteq> {..<?n}"
    using Cons.prems assms(5) by (auto simp: schedule_ok_def)
  obtain e1 p1 io1 where one: "collect_package_baseline_targets world exec model options items control timeout ?order (p, io) = (e1, p1, io1)"
    by (metis prod_cases3)
  have kept: "progress_ok items (anchor_of start items) p1 \<and> be_saved io1 = be_saved io"
    using one target_turns_keep [OF assms(1-4) control _ order Cons.prems(3)] Cons.prems(3)
    by (auto simp: collect_package_baseline_targets_def split: if_split_asm prod.splits option.splits)
  define io2 where "io2 = (if cl_targets control \<noteq> [] then checkpoint_now options False p1 io1 else io1)"
  have base: "saves_accepted items io io1" using kept by (simp add: saves_same)
  have saved: "saves_accepted items io io2"
    unfolding io2_def using base saves_trans [OF base saves_checkpoint [OF kept [THEN conjunct1] assms(4)]] by simp
  show ?case
  proof (cases e1)
    case None
    then have "collect_packages world exec model options items timeout (sh_targets schedule) controls (p1, io2) = (e, p', io')"
      using Cons.prems(1) one by (simp add: io2_def Let_def)
    with Cons.IH [OF this] Cons.prems(2) kept saved saves_trans show ?thesis by auto
  next
    case (Some e2)
    then have "p' = p1" "io' = io2" using Cons.prems(1) one by (auto simp: io2_def Let_def)
    with kept saved show ?thesis by simp
  qed
qed

text \<open>Packages whose test binary does not compile.\<close>

lemma not_run_keeps:
  assumes "items_ok items" "set own \<subseteq> set items"
  shows "progress_ok items anchor p \<Longrightarrow> progress_ok items anchor (fold (\<lambda>item. complete_unit (not_run_unit detail item)) own p)"
  using assms(2)
proof (induction own arbitrary: p)
  case (Cons item own)
  have "unit_for_item item (not_run_unit detail item)"
    using Cons.prems(2) unfolding not_run_unit_def by (intro classified_unit_for_item [OF assms(1)]) simp_all
  moreover have "instrumented_package (not_run_unit detail item) = []"
    by (simp add: not_run_unit_def instrumented_package_def classified_unit_fields)
  ultimately have "progress_ok items anchor (complete_unit (not_run_unit detail item) p)"
    using Cons.prems by (intro progress_completes) auto
  with Cons show ?case by simp
qed simp

lemma reject_package_keeps:
  assumes "progress_ok items anchor p" "items_ok items" "set own \<subseteq> set items" "importPath \<noteq> []"
  obtains p' io' where "reject_package world options items own suite importPath compiled (p, io) = (p', io')"
    "progress_ok items anchor p'" "saves_accepted items io io'"
proof -
  let ?none = "\<lparr>bs_Package = importPath, bs_Measured = False, bs_Covered = None, bs_Instrumented = None, bs_DurationNS = 0, bs_WholeTree = False\<rparr>"
  define p1 where "p1 = fold (\<lambda>item. complete_unit (not_run_unit ''test binary did not compile'' item)) own
    (add_structural (build_failure (bw_sha world) importPath compiled) p)"
  define p2 where "p2 = (if suite then p1\<lparr>lp_suites := AList.update importPath ?none (lp_suites p1)\<rparr> else p1)"
  have "progress_ok items anchor p1" unfolding p1_def using assms(1-3) by (intro not_run_keeps) simp_all
  moreover have "suite_kept (importPath, ?none)"
    using assms(4) by (simp add: suite_kept_def partial_suite_error_def partial_suite_coverage_error_def)
  ultimately have ok: "progress_ok items anchor p2" by (simp add: p2_def progress_suite)
  have "reject_package world options items own suite importPath compiled (p, io) =
      (p2, checkpoint_now options False p2 (publish_progress p2 items io))"
    unfolding reject_package_def Let_def prod.case p2_def p1_def by (rule refl)
  moreover have "saves_accepted items io (checkpoint_now options False p2 (publish_progress p2 items io))"
    by (rule saves_trans [OF saves_same saves_checkpoint [OF ok assms(2)]]) simp
  ultimately show ?thesis using ok that by blast
qed

lemma package_targets_items: "set (package_targets start items importPath) \<subseteq> set items"
  by (auto simp: package_targets_def)

lemma prepare_package_keeps:
  assumes "prepare_package world exec model options items timeout (package_targets start items importPath) suite importPath (p, io) =
      (reply, p', io')"
    and "items_ok items" "importPath \<noteq> []" "progress_ok items anchor p"
  shows "progress_ok items anchor p' \<and> saves_accepted items io io' \<and>
    (\<forall>control. reply = Inr (Some control) \<longrightarrow> control_ok start items control)"
proof -
  let ?own = "package_targets start items importPath"
  have rejected: "progress_ok items anchor p1 \<and> saves_accepted items io io1"
    if "reject_package world options items ?own suite importPath compiled (p, set_world w io) = (p1, io1)" for compiled w p1 io1
  proof -
    obtain p2 io2 where two: "reject_package world options items ?own suite importPath compiled (p, set_world w io) = (p2, io2)"
      "progress_ok items anchor p2" "saves_accepted items (set_world w io) io2"
      using reject_package_keeps [OF assms(4,2) package_targets_items assms(3)] by metis
    have "saves_accepted items io io2" by (rule saves_trans [OF saves_same two(3)]) simp
    with two that show ?thesis by simp
  qed
  show ?thesis
    using assms(1,3,4) rejected saves_same [of io io items] saves_same [of "set_world w io" io items for w]
    by (auto simp: prepare_package_def control_ok_def Let_def split: option.splits prod.splits sum.splits if_splits)
qed

lemma prepare_packages_keep:
  assumes "items_ok items"
  shows "prepare_packages world exec model options items timeout start suites paths controls (p, io) = (reply, p', io') \<Longrightarrow>
    [] \<notin> set paths \<Longrightarrow> list_all (control_ok start items) controls \<Longrightarrow> progress_ok items anchor p \<Longrightarrow>
    saves_accepted items io io' \<and> progress_ok items anchor p' \<and>
    (\<forall>controls'. reply = Inr controls' \<longrightarrow> list_all (control_ok start items) controls')"
proof (induction paths arbitrary: controls p io)
  case Nil
  then show ?case by (auto simp: saves_same)
next
  case (Cons importPath paths)
  obtain r p1 io1 where one: "prepare_package world exec model options items timeout (package_targets start items importPath)
      (importPath \<in> set suites) importPath (p, io) = (r, p1, io1)" by (metis prod_cases3)
  from prepare_package_keeps [OF one assms] Cons.prems(2,4)
  have kept: "progress_ok items anchor p1" "saves_accepted items io io1"
    "\<And>control. r = Inr (Some control) \<Longrightarrow> control_ok start items control" by auto
  show ?case
  proof (cases r)
    case (Inl e)
    with Cons.prems(1) one kept show ?thesis by auto
  next
    case (Inr control)
    define controls' where "controls' = controls @ (case control of None \<Rightarrow> [] | Some c \<Rightarrow> [c])"
    have "prepare_packages world exec model options items timeout start suites paths controls' (p1, io1) = (reply, p', io')"
      using Cons.prems(1) one Inr by (simp add: controls'_def split: option.splits)
    moreover have "list_all (control_ok start items) controls'"
      using Cons.prems(3) kept(3) Inr by (simp add: controls'_def split: option.splits)
    ultimately show ?thesis using Cons.IH [of controls' p1 io1] Cons.prems(2) kept(1) saves_trans [OF kept(2)] by simp
  qed
qed

text \<open>The suites.\<close>

lemma committed_suite:
  assumes "progress_ok items anchor p" "suite_run_ok pkg run" "pkg \<noteq> []" "commit_suite run p = Some p'"
  shows "progress_ok items anchor p'"
proof -
  let ?unit = "checkpoint_baseline_suite run"
  define p1 where "p1 = p\<lparr>lp_suites := AList.update (us_importPath run) ?unit (lp_suites p)\<rparr>"
  have "suite_kept (pkg, ?unit)"
    using assms(2,3) good_files_checkpoint
    by (auto simp: suite_kept_def checkpoint_baseline_suite_def partial_suite_error_def partial_suite_coverage_error_def
        suite_run_ok_def suite_ok_def simp del: validate_coverage_simps(2))
  then have p1: "progress_ok items anchor p1" using assms(1,2) by (simp add: p1_def suite_run_ok_def progress_suite)
  define p2 where "p2 = (if us_measured run
    then merge_instrumented (sv_Instrumented (us_suite run))
      (p1\<lparr>lp_result := (lp_result p1)\<lparr>ba_Suites := map_option (AList.update (us_importPath run) (us_suite run)) (ba_Suites (lp_result p1))\<rparr>\<rparr>)
    else p1)"
  have "progress_ok items anchor p2"
  proof (cases "us_measured run")
    case True
    with assms(2) have suite: "suite_ok (us_suite run)" "us_importPath run = pkg" by (simp_all add: suite_run_ok_def)
    have "progress_ok items anchor (p1\<lparr>lp_result := (lp_result p1)\<lparr>ba_Suites :=
        map_option (AList.update pkg (us_suite run)) (ba_Suites (lp_result p1))\<rparr>\<rparr>)"
      using p1 suite(1) assms(3)
      by (cases "ba_Suites (lp_result p1)") (auto simp: progress_ok_def files_of_def dest!: set_alist_update)
    with True suite show ?thesis by (simp add: p2_def progress_merges suite_ok_def)
  qed (simp add: p2_def p1)
  moreover have "commit_suite run p = (if us_measured run \<and> ba_Suites (lp_result p1) = None \<or>
      us_probe run \<noteq> None \<and> ba_ProbeSuites (lp_result p1) = None then None
    else Some (case us_probe run of None \<Rightarrow> p2
      | Some probe \<Rightarrow> p2\<lparr>lp_result := (lp_result p2)\<lparr>ba_ProbeSuites :=
          map_option (AList.update (us_importPath run) probe) (ba_ProbeSuites (lp_result p2))\<rparr>\<rparr>))"
    unfolding commit_suite_def Let_def p2_def p1_def by (rule refl)
  ultimately show ?thesis using assms(4) by (auto split: if_split_asm option.splits)
qed

lemma collect_suites_keep:
  assumes "bw_exec world = Some exec" "timed_runs world" "named_profiles world model" "items_ok items"
    and "list_all (control_ok start items) controls"
  shows "collect_package_suite_coverages world exec model options controls timeout targets order (errors, p, io) =
      (panicked, errors', p', io') \<Longrightarrow> set order \<subseteq> {..<length controls} \<Longrightarrow> progress_ok items anchor p \<Longrightarrow>
    saves_accepted items io io' \<and> progress_ok items anchor p'"
proof (induction order arbitrary: errors p io)
  case Nil
  then show ?case by (simp add: saves_same)
next
  case (Cons i order)
  have i: "control_ok start items (controls ! i)" using Cons.prems(2) assms(5) by (simp add: list_all_length)
  obtain reply io1 where run: "execute_suite world exec model options (controls ! i) timeout targets io = (reply, io1)"
    by (metis surj_pair)
  note ran = execute_suite_run [OF run assms(1-3)]
  then have same: "saves_accepted items io io1" by (simp add: saves_same)
  show ?case
  proof (cases reply)
    case (Inl e)
    then have "collect_package_suite_coverages world exec model options controls timeout targets order (errors[i := Some e], p, io1) =
        (panicked, errors', p', io')" using Cons.prems(1) run by simp
    from Cons.IH [OF this] Cons.prems(2,3) same saves_trans show ?thesis by auto
  next
    case (Inr r)
    show ?thesis
    proof (cases "commit_suite r p")
      case None
      with Inr run Cons.prems(1,3) same show ?thesis by auto
    next
      case (Some p1)
      with ran Inr i have ok: "progress_ok items anchor p1"
        using committed_suite [OF Cons.prems(3)] by (auto simp: control_ok_def)
      have "collect_package_suite_coverages world exec model options controls timeout targets order
          (errors, p1, checkpoint_now options False p1 io1) = (panicked, errors', p', io')"
        using Cons.prems(1) run Inr Some by simp
      from Cons.IH [OF this _ ok] Cons.prems(2) saves_trans [OF saves_trans [OF same saves_checkpoint [OF ok assms(4)]]]
      show ?thesis by auto
    qed
  qed
qed

section \<open>A run saves what the next one accepts\<close>

definition nothing_measured :: "baseline_state option \<Rightarrow> bool" where
  "nothing_measured saved \<longleftrightarrow> (\<forall>b. saved = Some b \<longrightarrow> bl_Targets b = [] \<and> bl_Suites b = [] \<and> bl_Routing b = None)"

lemma start_ok [simp]: "progress_ok items anchor (baseline_start options)"
  by (simp add: progress_ok_def baseline_start_def files_of_def)

lemma resume_nothing:
  assumes "nothing_measured (bo_Resume options)"
  shows "progress_ok items anchor (fst (resume_baseline model options))"
proof (cases "bo_Resume options")
  case None
  then show ?thesis by (simp add: resume_baseline_def)
next
  case (Some b)
  then have empty: "bl_Targets b = []" "bl_Suites b = []" "bl_Routing b = None" using assms by (simp_all add: nothing_measured_def)
  show ?thesis
    by (simp add: resume_baseline_def Some empty Let_def) (simp add: progress_ok_def baseline_start_def files_of_def)
qed

lemma run_checks_keep:
  assumes "run_checks world exec options items timeout checks (p, io) = (step, io')" "progress_ok items anchor p"
  shows "be_saved io' = be_saved io \<and> (\<forall>p'. step = BaselineGoesOn p' \<longrightarrow> progress_ok items anchor p')"
  using assms
proof (induction checks arbitrary: p io)
  case (Cons check checks)
  obtain name kind argv where check: "check = (name, kind, argv)" by (metis prod_cases3)
  obtain reply w where run: "exec (be_world io) \<lparr>cm_Argv = argv, cm_Dir = [], cm_Env = [], cm_Timeout = timeout\<rparr> = (reply, w)"
    by (metis surj_pair)
  show ?case
    using Cons.prems Cons.IH [of _ "set_world w io"] run
    by (auto simp: check Let_def reject_project_def split: sum.splits if_splits)
qed auto

lemma imports_named:
  assumes "items_ok items"
  shows "[] \<notin> set (baseline_imports p items (package_suites options p resume_routing items))"
  using assms by (auto simp: baseline_imports_def package_suites_def items_ok_def Let_def split: option.splits)

lemma measure_baseline_keeps:
  assumes "bw_exec world = Some exec" "timed_runs world" "named_profiles world model" "items_ok items" "schedule_ok schedule"
    and "measure_baseline world exec model options items schedule resume_routing (p, io) = (reply, io')"
    and "progress_ok items (anchor_of p items) p"
  shows "saves_accepted items io io'"
proof -
  let ?anchor = "anchor_of p items" and ?suites = "package_suites options p resume_routing items"
  let ?timeout = "positive_timeout (bo_TargetTimeout options)"
  obtain r1 p1 io1 where prepared: "prepare_packages world exec model options items (positive_timeout (bo_CommandTimeout options)) p
      ?suites (baseline_imports p items ?suites) [] (p, io) = (r1, p1, io1)" by (metis prod_cases3)
  from prepare_packages_keep [OF assms(4) prepared imports_named [OF assms(4)] _ assms(7)]
  have one: "saves_accepted items io io1" "progress_ok items ?anchor p1" "\<And>cs. r1 = Inr cs \<Longrightarrow> list_all (control_ok p items) cs"
    by simp_all
  show ?thesis
  proof (cases r1)
    case (Inl e)
    then show ?thesis using assms(6) prepared one(1) by (simp add: measure_baseline_def Let_def)
  next
    case (Inr controls)
    obtain e p2 io2 where collected: "collect_packages world exec model options items ?timeout (sh_targets schedule) controls (p1, io1) =
        (e, p2, io2)" by (metis prod_cases3)
    from collect_packages_keep [OF assms(1-5) collected one(3) [OF Inr] one(2)]
    have two: "progress_ok items ?anchor p2" "saves_accepted items io1 io2" by simp_all
    define targets where "targets = completed_target_evidence items (lp_completed p2)"
    define needed where "needed = (case bo_Session options of None \<Rightarrow> sort_slice ?suites
      | Some cat \<Rightarrow> needed_baseline_suite_packages cat targets (ba_Instrumented (lp_result p2)))"
    define cs where "cs = filter (\<lambda>c. cl_importPath c \<in> set needed) controls"
    have cs: "list_all (control_ok p items) cs" using one(3) [OF Inr] by (auto simp: cs_def list_all_iff)
    obtain panicked errors p3 io3 where suites: "collect_package_suite_coverages world exec model options cs ?timeout targets
        (sh_suites schedule (length cs)) (replicate (length cs) None, p2, io2) = (panicked, errors, p3, io3)" by (metis prod_cases4)
    have "set (sh_suites schedule (length cs)) \<subseteq> {..<length cs}" using assms(5) by (simp add: schedule_ok_def)
    from collect_suites_keep [OF assms(1-4) cs suites this two(1)]
    have three: "saves_accepted items io2 io3" "progress_ok items ?anchor p3" by simp_all
    have upto: "saves_accepted items io io3" "saves_accepted items io io2"
      using saves_trans [OF saves_trans [OF one(1) two(2)] three(1)] saves_trans [OF one(1) two(2)] by simp_all
    define p4 where "p4 = p3\<lparr>lp_result := append_completed_baseline_targets items (lp_completed p3) (lp_measured p3) (lp_result p3)\<rparr>"
    have appended: "ba_Instrumented (append_completed_baseline_targets its c m r) = ba_Instrumented r \<and>
        ba_Suites (append_completed_baseline_targets its c m r) = ba_Suites r" for its c m r
      unfolding append_completed_baseline_targets_def
      by (induction its arbitrary: r) (auto simp: append_baseline_unit_def split: option.splits)
    have "progress_ok items ?anchor p4" using three(2) by (simp add: p4_def progress_ok_def appended)
    from saves_trans [OF upto(1) saves_checkpoint [OF this assms(4)]]
    have last: "saves_accepted items io (checkpoint_now options True p4 io3)" .
    have "io' = (case e of Some _ \<Rightarrow> io2 | None \<Rightarrow>
        if panicked then io3 else case first_error id errors of Some _ \<Rightarrow> io3 | None \<Rightarrow> checkpoint_now options True p4 io3)"
      using assms(6) prepared Inr collected suites
      by (auto simp: measure_baseline_def Let_def targets_def needed_def cs_def p4_def simp del: first_error_None
          split: option.splits if_split_asm)
    then show ?thesis using last upto by (simp split: option.splits)
  qed
qed

text \<open>
  C13. Whatever its commands and its session answer and in whatever order its workers take the
  targets and the suites, a run that starts with nothing measured only saves baselines that
  leave a valid checkpoint valid and whose targets are those of the run: each write passes
  \<open>Validate\<close>, and a later run over the same targets accepts what it reads.
\<close>

theorem baseline_checkpoints_accepted:
  assumes "collect_baseline world model items options schedule io = (reply, io')" "nothing_measured (bo_Resume options)"
    and "items_ok items" "timed_runs world" "named_profiles world model" "schedule_ok schedule"
  shows "\<exists>bs. be_saved io' = be_saved io @ bs \<and> (\<forall>b \<in> set bs. baseline_accepted (map bi_Target items) b)"
proof -
  have "saves_accepted items io io'"
  proof (cases "bw_exec world")
    case None
    with assms(1) show ?thesis by (simp add: collect_baseline_def saves_same)
  next
    case (Some exec)
    obtain p resume_routing where resumed: "resume_baseline model options = (p, resume_routing)" by (metis surj_pair)
    have p: "progress_ok items anchor p" for anchor using resume_nothing [OF assms(2)] resumed by (metis fst_conv)
    obtain e w where made: "bw_mkdir world (be_world io) (bo_ArtifactDirectory options) = (e, w)" by (metis surj_pair)
    define io1 where "io1 = publish_progress p items (set_world w io)"
    obtain step io2 where checks: "run_checks world exec options items (positive_timeout (bo_CommandTimeout options))
        (if lp_vetted p then [] else baseline_checks options) (p, io1) = (step, io2)" by (metis surj_pair)
    have checked: "be_saved io2 = be_saved io" "step = BaselineGoesOn p1 \<Longrightarrow> progress_ok items anchor p1" for p1 anchor
      using run_checks_keep [OF checks p] by (simp_all add: io1_def)
    then have same: "saves_accepted items io io2" by (simp add: saves_same)
    have goes_on: "saves_accepted items io io'" if step: "step = BaselineGoesOn p1" and rest:
        "(let vetted = lp_vetted p1; p = p1\<lparr>lp_vetted := True\<rparr>; io = (if \<not> vetted then checkpoint_now options False p io2 else io2)
          in if bo_StopAfterChecks options then (Inr (lp_result p), io)
             else measure_baseline world exec model options items schedule resume_routing (p, io)) = (reply, io')" for p1
    proof -
      define p2 where "p2 = p1\<lparr>lp_vetted := True\<rparr>"
      define io3 where "io3 = (if \<not> lp_vetted p1 then checkpoint_now options False p2 io2 else io2)"
      have p2: "progress_ok items anchor p2" for anchor using checked(2) [OF step] by (simp add: p2_def)
      have io3: "saves_accepted items io io3"
        unfolding io3_def using same saves_trans [OF same saves_checkpoint [OF p2 assms(3)]] by simp
      show ?thesis
      proof (cases "bo_StopAfterChecks options")
        case True
        then have "io' = io3" using rest by (auto simp: p2_def io3_def Let_def)
        with io3 show ?thesis by simp
      next
        case False
        then have "measure_baseline world exec model options items schedule resume_routing (p2, io3) = (reply, io')"
          using rest by (auto simp: p2_def io3_def Let_def)
        from measure_baseline_keeps [OF Some assms(4,5,3,6) this p2] saves_trans [OF io3] show ?thesis by blast
      qed
    qed
    have "saves_accepted items io (set_world w io)" "saves_accepted items io io" by (simp_all add: saves_same)
    then show ?thesis
      using assms(1) Some resumed made checks same goes_on
      by (auto simp: collect_baseline_def io1_def split: option.splits if_splits baseline_step.splits)
  qed
  then show ?thesis by (simp add: saves_accepted_def)
qed

text \<open>A module with one package and two tests, every command of which passes.\<close>

definition sample_model :: go_model where
  "sample_model = \<lparr>gm_ModulePath = ''m.test'', gm_Packages =
     Some [\<lparr>pk_ImportPath = ''m.test'', pk_RelativeDir = ''.'', pk_Dependencies = [], pk_EmbedFiles = []\<rparr>]\<rparr>"

definition sample_items :: "baseline_item list" where
  "sample_items = map (\<lambda>i. \<lparr>bi_Target = te_Target (sample_target i ''m.test'' []), bi_Environment = []\<rparr>) [''t1'', ''t2'']"

definition sample_baseline_options :: "baseline_state option \<Rightarrow> baseline_options" where
  "sample_baseline_options saved = \<lparr>bo_ArtifactDirectory = ''/tmp'', bo_CommandTimeout = 0, bo_TargetTimeout = 0, bo_PackageSuites = True,
     bo_SuiteEnvironment = [], bo_Packages = [], bo_BuildTags = [], bo_TestArgs = [], bo_UseTestFraming = True,
     bo_ClassifyUserFailures = True, bo_Resume = saved, bo_Checkpoint = True, bo_Observer = None, bo_Session = None,
     bo_StopAfterChecks = False\<rparr>"

definition passing_world :: "nat baseline_world" where
  "passing_world = \<lparr>
     bw_exec = Some (\<lambda>w c. (Inr \<lparr>com_TimedOut = False, com_ExitCode = 0, com_Output = [], com_Duration = 7\<rparr>, Suc w)),
     bw_probe = (\<lambda>w q. (Inl (ProbeFailed ''none''), w)), bw_timedOut = ProbeOutcome ''timed-out'', bw_cancelled = (\<lambda>w. None),
     bw_mkdir = (\<lambda>w path. (None, w)), bw_read = (\<lambda>w path. Inr sample_profile),
     bw_files = \<lparr>lf_create = (\<lambda>w d. (None, w)), lf_read = (\<lambda>w n. (None, w)), lf_stat = (\<lambda>w n. None)\<rparr>,
     bw_sha = (\<lambda>s. s)\<rparr>"

definition backward_schedule :: baseline_schedule where
  "backward_schedule = \<lparr>sh_targets = (\<lambda>pkg n. rev [0..<n]), sh_suites = (\<lambda>n. rev [0..<n])\<rparr>"

definition no_baseline_effects :: "nat baseline_effects" where
  "no_baseline_effects = \<lparr>be_world = 0, be_traced = [], be_saved = [], be_progress = []\<rparr>"

lemma sample_world_ok:
  "items_ok sample_items" "timed_runs passing_world" "named_profiles passing_world sample_model" "schedule_ok backward_schedule"
proof -
  show "items_ok sample_items" by (simp add: items_ok_def sample_items_def sample_target_def)
  show "timed_runs passing_world" by (simp add: timed_runs_def passing_world_def)
  show "schedule_ok backward_schedule" by (auto simp: schedule_ok_def backward_schedule_def)
  have "case parse_coverage sample_profile ''m.test'' of Inl _ \<Rightarrow> True
      | Inr c \<Rightarrow> list_all (\<lambda>f. fc_path f \<noteq> []) (Covered c @ Instrumented c)" by code_simp
  then show "named_profiles passing_world sample_model"
    by (auto simp: named_profiles_def passing_world_def sample_model_def list_all_iff)
qed

theorem baseline_checkpoints_accepted_witness:
  "let saved = be_saved (snd (collect_baseline passing_world sample_model sample_items (sample_baseline_options None) backward_schedule no_baseline_effects))
   in list_all (baseline_accepted (map bi_Target sample_items)) saved \<and>
      map (\<lambda>b. (length (bl_Targets b), length (bl_Suites b), bl_Complete b)) saved =
        [(0, 0, False), (2, 0, False), (2, 1, False), (2, 0, True)]"
proof -
  let ?run = "collect_baseline passing_world sample_model sample_items (sample_baseline_options None) backward_schedule no_baseline_effects"
  have shape: "map (\<lambda>b. (length (bl_Targets b), length (bl_Suites b), bl_Complete b)) (be_saved (snd ?run)) =
      [(0, 0, False), (2, 0, False), (2, 1, False), (2, 0, True)]" by code_simp
  have "nothing_measured (bo_Resume (sample_baseline_options None))" by (simp add: nothing_measured_def sample_baseline_options_def)
  from baseline_checkpoints_accepted [OF prod.collapse [symmetric] this sample_world_ok, of no_baseline_effects]
  have "list_all (baseline_accepted (map bi_Target sample_items)) (be_saved (snd ?run))"
    by (auto simp: list_all_iff no_baseline_effects_def)
  with shape show ?thesis by (simp add: Let_def)
qed

section \<open>A run that resumes saves what the next one refuses\<close>

definition resumed_unit :: "go_model \<Rightarrow> baseline_target \<Rightarrow> baseline_target" where
  "resumed_unit model unit = unit\<lparr>bt_Target := map_option (\<lambda>saved. checkpoint_target_evidence
     (restrict_target_evidence_to_packages (restore_target_evidence saved) (gm_Packages model))) (bt_Target unit)\<rparr>"

lemma resume_unit_completed:
  "lp_completed (resume_unit model unit p) = AList.update (bt_ID unit) (resumed_unit model unit) (lp_completed p)"
  by (cases unit) (auto simp: resume_unit_def resumed_unit_def complete_unit_def merge_instrumented_def Let_def split: option.split)

lemma resume_units_completed:
  "distinct (map bt_ID units) \<Longrightarrow> unit \<in> set units \<Longrightarrow>
   map_of (lp_completed (fold (resume_unit model) units p)) (bt_ID unit) = Some (resumed_unit model unit)"
proof (induction units arbitrary: p rule: rev_induct)
  case (snoc last units)
  show ?case
  proof (cases "unit = last")
    case False
    then have "unit \<in> set units" "bt_ID last \<noteq> bt_ID unit" using snoc.prems by (auto dest: imageI [of unit _ bt_ID])
    with snoc show ?thesis by (simp add: resume_unit_completed update_conv')
  qed (simp add: resume_unit_completed update_conv')
qed simp

lemma resume_suites_completed: "lp_completed (fold resume_suite suites p) = lp_completed p"
  by (induction suites arbitrary: p) (simp_all add: resume_suite_def merge_instrumented_def Let_def)

lemma resumed_completed:
  assumes "bo_Resume options = Some saved" "distinct (map bt_ID (bl_Targets saved))" "unit \<in> set (bl_Targets saved)"
  shows "map_of (lp_completed (fst (resume_baseline model options))) (bt_ID unit) = Some (resumed_unit model unit)"
  using resume_units_completed [OF assms(2,3)]
  by (simp add: resume_baseline_def assms(1) Let_def resume_suites_completed split: option.split prod.split)

lemma resumed_unit_instrumented:
  "bt_Target unit = Some saved \<Longrightarrow> instrumented_package (resumed_unit model unit) = [kt_Package (ke_Target saved)]"
  by (simp add: instrumented_package_def resumed_unit_def checkpoint_target_evidence_def checkpoint_target_def restore_target_evidence_def
      restore_target_def restrict_target_evidence_to_packages_def Let_def)

lemma instrumented_twice:
  assumes "u \<in> set units" "v \<in> set units" "u \<noteq> v" "instrumented_package u = [pkg]" "instrumented_package v = [pkg]"
  shows "\<not> distinct (instrumented_packages units)"
proof -
  obtain before after where units: "units = before @ u # after" using assms(1) by (meson split_list)
  then have "v \<in> set before \<or> v \<in> set after" using assms(2,3) by auto
  then have "pkg \<in> set (instrumented_packages before) \<or> pkg \<in> set (instrumented_packages after)"
    using assms(5) by (auto simp: instrumented_packages_def intro!: bexI [of _ v])
  moreover have "instrumented_packages units = instrumented_packages before @ [pkg] @ instrumented_packages after"
    using assms(4) by (simp add: units instrumented_packages_def)
  ultimately show ?thesis by auto
qed

text \<open>
  C14. A run that resumes two measured targets of one package gives each of them an
  instrumentation, an empty one where the checkpoint had none: from then on every unfinished
  baseline it saves is refused by \<open>Validate\<close>, so the checkpoint is given up and removed.
\<close>

theorem resumed_checkpoint_refused:
  assumes "bo_Resume options = Some saved" "distinct (map bt_ID (bl_Targets saved))"
    and "u \<in> set (bl_Targets saved)" "v \<in> set (bl_Targets saved)" "u \<noteq> v"
    and "bt_Target u = Some s" "bt_Target v = Some t" "kt_Package (ke_Target s) = kt_Package (ke_Target t)"
    and "map_of (lp_completed p) (bt_ID u) = map_of (lp_completed (fst (resume_baseline model options))) (bt_ID u)"
    and "map_of (lp_completed p) (bt_ID v) = map_of (lp_completed (fst (resume_baseline model options))) (bt_ID v)"
  shows "validate_checkpoint (st\<lparr>ck_Baseline := baseline_checkpoint False p\<rparr>) \<noteq> None"
proof -
  let ?units = "bl_Targets (baseline_checkpoint False p)"
  have ids: "bt_ID u \<noteq> bt_ID v" using assms(2-5) by (auto simp: distinct_map inj_on_def)
  have found: "map_of (lp_completed p) (bt_ID u) = Some (resumed_unit model u)"
    "map_of (lp_completed p) (bt_ID v) = Some (resumed_unit model v)"
    using assms(9,10) resumed_completed [OF assms(1,2,3)] resumed_completed [OF assms(1,2,4)] by simp_all
  have listed: "x \<in> set ?units" if "map_of (lp_completed p) i = Some x" for i x
    using that by (force simp: baseline_checkpoint_def Let_def dest: map_of_SomeD intro!: image_eqI [where x = i])
  have "resumed_unit model u \<noteq> resumed_unit model v"
  proof
    assume "resumed_unit model u = resumed_unit model v"
    then have "bt_ID (resumed_unit model u) = bt_ID (resumed_unit model v)" by simp
    with ids show False by (simp add: resumed_unit_def)
  qed
  then have "\<not> distinct (instrumented_packages ?units)"
    using instrumented_twice [OF listed [OF found(1)] listed [OF found(2)]]
      resumed_unit_instrumented [OF assms(6)] resumed_unit_instrumented [OF assms(7)] assms(8) by simp
  then have "validate_baseline_targets (bl_Complete (baseline_checkpoint False p)) [] [] ?units \<noteq> None"
    unfolding validate_baseline_targets_None by simp
  then show ?thesis unfolding validate_checkpoint_None by simp
qed

text \<open>The second baseline of the run above, with both its tests measured, and the run that resumes it.\<close>

definition interrupted_baseline :: baseline_state where
  "interrupted_baseline = be_saved (snd (collect_baseline passing_world sample_model sample_items (sample_baseline_options None) backward_schedule no_baseline_effects)) ! 1"

theorem resumed_checkpoint_refused_witness:
  "validate_checkpoint (sample_checkpoint\<lparr>ck_Baseline := interrupted_baseline\<rparr>) = None \<and>
   validate_checkpoint (sample_checkpoint\<lparr>ck_Baseline :=
     baseline_checkpoint False (fst (resume_baseline sample_model (sample_baseline_options (Some interrupted_baseline))))\<rparr>) \<noteq> None"
proof -
  have ids: "map bt_ID (bl_Targets interrupted_baseline) = [''t1'', ''t2'']"
    and measured: "map (\<lambda>u. map_option (kt_Package \<circ> ke_Target) (bt_Target u)) (bl_Targets interrupted_baseline) = [Some ''m.test'', Some ''m.test'']"
    and valid: "validate_checkpoint (sample_checkpoint\<lparr>ck_Baseline := interrupted_baseline\<rparr>) = None"
    by code_simp+
  from ids obtain u v where units: "bl_Targets interrupted_baseline = [u, v]" "bt_ID u = ''t1''" "bt_ID v = ''t2''" by (auto simp: Cons_eq_map_conv map_eq_Cons_conv)
  with measured obtain s t where targets: "bt_Target u = Some s" "bt_Target v = Some t" "kt_Package (ke_Target s) = kt_Package (ke_Target t)"
    by auto
  have "bo_Resume (sample_baseline_options (Some interrupted_baseline)) = Some interrupted_baseline" by (simp add: sample_baseline_options_def)
  from resumed_checkpoint_refused [OF this _ _ _ _ targets, of "fst (resume_baseline sample_model (sample_baseline_options (Some interrupted_baseline)))" sample_model sample_checkpoint]
  moreover have "u \<noteq> v" using units by auto
  ultimately show ?thesis using units valid by auto
qed

end
