(* ===== verification/BaselineAudit.thy ===== *)
theory BaselineAudit
  imports BaselineCheckpoint
begin

text \<open>
  The inventory a baseline returns (\<open>internal/assure/baseline.go: CollectBaseline\<close>) against the
  audit of a report (\<open>internal/report/audit.go\<close>): a run that measures, fresh or resumed, hands
  over one disposition per target, in their order, each counted as executed or as skipped.
\<close>

section \<open>Units the audit accepts\<close>

definition audited_unit :: "baseline_item \<Rightarrow> baseline_target \<Rightarrow> bool" where
  "audited_unit item unit \<longleftrightarrow> bt_ID unit = bi_ID item \<and> bt_Executed unit \<noteq> bt_Skipped unit \<and>
     (let d = bt_Inventory unit; t = bi_Target item in
      td_ID d = t_ID t \<and> td_Name d = t_Name t \<and> td_Kind d = t_Kind t \<and> td_Package d = t_Package t \<and>
      trim_space (td_Status d) \<noteq> [] \<and> \<not> td_Line d < 0 \<and> \<not> td_DurationMS d < 0)"

definition audited_items :: "baseline_item list \<Rightarrow> bool" where
  "audited_items items \<longleftrightarrow> distinct (map bi_ID items) \<and>
     (\<forall>item \<in> set items. let t = bi_Target item in trim_space (t_ID t) \<noteq> [] \<and> trim_space (t_Name t) \<noteq> [] \<and>
        trim_space (t_Kind t) \<noteq> [] \<and> trim_space (t_Package t) \<noteq> [])"

definition baseline_statuses :: "string list" where
  "baseline_statuses = [''passed'', ''failed'', ''skipped'', ''not-run'']"

lemma statuses_trimmed: "status \<in> set baseline_statuses \<Longrightarrow> trim_space status \<noteq> []"
proof -
  have "list_all (\<lambda>status. trim_space status \<noteq> []) baseline_statuses" by code_simp
  then show "status \<in> set baseline_statuses \<Longrightarrow> ?thesis" by (simp add: list_all_iff)
qed

lemma classified_unit_audited:
  "status \<in> set baseline_statuses \<Longrightarrow> executed \<noteq> skipped \<Longrightarrow>
   audited_unit item (baseline_classified_unit item status detail duration executed skipped measured es fs)"
  using statuses_trimmed [of status] by (simp add: audited_unit_def classified_unit_fields Let_def)

lemma strip_audited: "audited_unit item unit \<Longrightarrow> audited_unit item (strip_instrumentation unit)"
  by (cases unit) (simp add: audited_unit_def strip_instrumentation_def)

lemma runs_audited [simp]:
  "audited_unit item (ut_unit (skipped_run sha item kind summary duration))"
  "audited_unit item (ut_unit (failed_run sha item attempt))"
  "audited_unit item (ut_unit (passed_run item c duration widened probe))"
  by (simp_all add: skipped_run_def failed_run_def passed_run_def Let_def classified_unit_audited baseline_statuses_def split: prod.splits)

lemma settled_run_audited:
  "settle_target_run world model options item profile first failed widened probe w = Inr run \<Longrightarrow> audited_unit item (ut_unit run)"
  by (auto simp: settle_target_run_def Let_def map_sum_def split: sum.splits option.splits if_splits)

lemma execute_target_audited:
  assumes "execute_target world exec model options control item timeout io = (Inr run, io')"
  shows "audited_unit item (ut_unit run)"
  using assms
  by (auto simp: execute_target_def execute_baseline_target_def execute_prepared_baseline_target_def Let_def
      split: if_splits prod.splits sum.splits intro: settled_run_audited)

section \<open>What the run adds\<close>

definition tally :: "baseline_progress \<Rightarrow> target_disposition list \<times> int \<times> int" where
  "tally p = (ba_Inventory (lp_result p), ba_Executed (lp_result p), ba_Skipped (lp_result p))"

lemma tally_updates [simp]:
  "tally (complete_unit unit p) = tally p" "tally (merge_instrumented files p) = tally p" "tally (add_structural f p) = tally p"
  "tally (p\<lparr>lp_measured := m\<rparr>) = tally p" "tally (p\<lparr>lp_suites := s\<rparr>) = tally p" "tally (p\<lparr>lp_vetted := v\<rparr>) = tally p"
  "tally (p\<lparr>lp_anchored := a\<rparr>) = tally p"
  "tally (p\<lparr>lp_result := (lp_result p)\<lparr>ba_Evidence := es\<rparr>\<rparr>) = tally p"
  "tally (p\<lparr>lp_result := (lp_result p)\<lparr>ba_Suites := ss\<rparr>\<rparr>) = tally p"
  "tally (p\<lparr>lp_result := (lp_result p)\<lparr>ba_ProbeSuites := ps\<rparr>\<rparr>) = tally p"
  by (simp_all add: tally_def complete_unit_def merge_instrumented_def add_structural_def)

lemma merge_completed [simp]: "lp_completed (merge_instrumented files p) = lp_completed p"
  by (simp add: merge_instrumented_def)

text \<open>Every entry is as it was or belongs to an item and passes the audit; nothing is tallied yet.\<close>

definition grows :: "baseline_item list \<Rightarrow> baseline_progress \<Rightarrow> baseline_progress \<Rightarrow> bool" where
  "grows items p p' \<longleftrightarrow> tally p' = tally p \<and> (\<forall>i. map_of (lp_completed p') i = map_of (lp_completed p) i \<or>
     (\<exists>item \<in> set items. \<exists>unit. i = bi_ID item \<and> map_of (lp_completed p') i = Some unit \<and> audited_unit item unit))"

lemma grows_same: "lp_completed p' = lp_completed p \<Longrightarrow> tally p' = tally p \<Longrightarrow> grows items p p'"
  by (simp add: grows_def)

lemma grows_trans: "grows items p p' \<Longrightarrow> grows items p' p'' \<Longrightarrow> grows items p p''"
  unfolding grows_def by metis

lemma grows_completed: "grows items p p' \<Longrightarrow> completed_item p item \<Longrightarrow> completed_item p' item"
  unfolding grows_def completed_item_def by (metis option.distinct(1))

lemma completes_grow:
  "item \<in> set items \<Longrightarrow> audited_unit item unit \<Longrightarrow> grows items p (complete_unit unit p) \<and> completed_item (complete_unit unit p) item"
  by (auto simp: grows_def completed_item_def) (auto simp: complete_unit_def update_conv' audited_unit_def)

lemma commit_completes:
  assumes "item \<in> set items" "audited_unit item (ut_unit run)"
  shows "grows items p (commit_target control run p) \<and> completed_item (commit_target control run p) item"
proof -
  obtain unit p1 where commit: "lp_completed (commit_target control run p) = lp_completed (complete_unit unit p1)"
    "tally (commit_target control run p) = tally p1" "tally p1 = tally p" "lp_completed p1 = lp_completed p" "unit \<in> {ut_unit run, strip_instrumentation (ut_unit run)}"
    by (cases "ut_evidence run") (auto simp: commit_target_def Let_def)
  then have "audited_unit item unit" using assms(2) strip_audited by auto
  with completes_grow [OF assms(1) this, of p1] commit(1-4) show ?thesis
    by (simp add: grows_def completed_item_def)
qed

lemma target_turns_complete:
  assumes "set (cl_targets control) \<subseteq> set items"
  shows "fold (target_turn world exec model options items control timeout) order (errors, p, io) = (errors', p', io') \<Longrightarrow>
    set order \<subseteq> {..<length (cl_targets control)} \<Longrightarrow> length errors = length (cl_targets control) \<Longrightarrow>
    grows items p p' \<and> length errors' = length errors \<and> (\<forall>i < length errors. errors ! i \<noteq> None \<longrightarrow> errors' ! i \<noteq> None) \<and>
    (bw_cancelled world (be_world io) \<noteq> None \<longrightarrow> io' = io) \<and>
    (bw_cancelled world (be_world io') = None \<longrightarrow> (\<forall>i \<in> set order. errors' ! i \<noteq> None \<or> completed_item p' (cl_targets control ! i)))"
proof (induction order arbitrary: errors p io)
  case Nil
  then show ?case by (simp add: grows_same)
next
  case (Cons i order)
  let ?item = "cl_targets control ! i"
  have i: "i < length (cl_targets control)" "?item \<in> set items" using Cons.prems(2) assms nth_mem by fastforce+
  obtain errors1 p1 io1 where turn: "target_turn world exec model options items control timeout i (errors, p, io) = (errors1, p1, io1)"
    by (metis prod_cases3)
  then have rest: "fold (target_turn world exec model options items control timeout) order (errors1, p1, io1) = (errors', p', io')"
    using Cons.prems(1) by simp
  have one: "grows items p p1 \<and> length errors1 = length errors \<and> (\<forall>j < length errors. errors ! j \<noteq> None \<longrightarrow> errors1 ! j \<noteq> None) \<and>
      (bw_cancelled world (be_world io) \<noteq> None \<longrightarrow> io1 = io) \<and>
      (bw_cancelled world (be_world io) = None \<longrightarrow> errors1 ! i \<noteq> None \<or> completed_item p1 ?item)"
  proof (cases "bw_cancelled world (be_world io)")
    case None
    obtain reply io2 where run: "execute_target world exec model options control ?item timeout io = (reply, io2)" by (metis surj_pair)
    show ?thesis
    proof (cases reply)
      case (Inl e)
      then show ?thesis using turn None run i(1) Cons.prems(3) by (auto simp: target_turn_def grows_same nth_list_update)
    next
      case (Inr r)
      then have "grows items p (commit_target control r p) \<and> completed_item (commit_target control r p) ?item"
        using execute_target_audited run i(2) by (intro commit_completes) auto
      then show ?thesis using turn None run Inr by (auto simp: target_turn_def Let_def)
    qed
  qed (use turn in \<open>auto simp: target_turn_def grows_same\<close>)
  from Cons.IH [OF rest] Cons.prems(2,3) one
  have two: "grows items p1 p' \<and> length errors' = length errors1 \<and> (\<forall>j < length errors1. errors1 ! j \<noteq> None \<longrightarrow> errors' ! j \<noteq> None) \<and>
      (bw_cancelled world (be_world io1) \<noteq> None \<longrightarrow> io' = io1) \<and>
      (bw_cancelled world (be_world io') = None \<longrightarrow> (\<forall>i \<in> set order. errors' ! i \<noteq> None \<or> completed_item p' (cl_targets control ! i)))"
    by simp
  have now: "errors' ! i \<noteq> None \<or> completed_item p' ?item" if "bw_cancelled world (be_world io') = None"
  proof -
    have "bw_cancelled world (be_world io) = None" using that one two by (metis option.distinct(1))
    with one have "errors1 ! i \<noteq> None \<or> completed_item p1 ?item" by blast
    then show ?thesis using two one i(1) Cons.prems(3) grows_completed by (metis (no_types))
  qed
  from one two grows_trans [of items p p1 p'] now show ?case by auto
qed

lemma collected_targets_complete:
  assumes "collect_package_baseline_targets world exec model options items control timeout order (p, io) = (None, p', io')"
    and "set (cl_targets control) \<subseteq> set items" "set order = {..<length (cl_targets control)}"
  shows "grows items p p' \<and> (\<forall>item \<in> set (cl_targets control). completed_item p' item)"
proof (cases "cl_targets control = []")
  case True
  then show ?thesis using assms(1) by (simp add: collect_package_baseline_targets_def grows_same)
next
  case False
  let ?n = "length (cl_targets control)"
  obtain errors io1 where run: "fold (target_turn world exec model options items control timeout) order (replicate ?n None, p, io) = (errors, p', io1)"
    "first_error id errors = None" "bw_cancelled world (be_world io1) = None"
    using assms(1) False by (auto simp: collect_package_baseline_targets_def simp del: first_error_None split: prod.splits option.splits)
  from target_turns_complete [OF assms(2) run(1)] assms(3) run(3)
  have all: "grows items p p'" "length errors = ?n" "\<forall>i < ?n. errors ! i \<noteq> None \<or> completed_item p' (cl_targets control ! i)" by auto
  have "completed_item p' (cl_targets control ! i)" if "i < ?n" for i
  proof -
    have "errors ! i = None" using run(2) all(2) that by (simp add: all_set_conv_all_nth)
    with all(3) that show ?thesis by blast
  qed
  with all(1) show ?thesis by (metis in_set_conv_nth)
qed

lemma collect_packages_complete:
  assumes "\<And>pkg n. set (order pkg n) = {..<n}"
  shows "collect_packages world exec model options items timeout order controls (p, io) = (None, p', io') \<Longrightarrow>
    \<forall>control \<in> set controls. set (cl_targets control) \<subseteq> set items \<Longrightarrow>
    grows items p p' \<and> (\<forall>control \<in> set controls. \<forall>item \<in> set (cl_targets control). completed_item p' item)"
proof (induction controls arbitrary: p io)
  case Nil
  then show ?case by (simp add: grows_same)
next
  case (Cons control controls)
  obtain e p1 io1 where one: "collect_package_baseline_targets world exec model options items control timeout
      (order (cl_importPath control) (length (cl_targets control))) (p, io) = (e, p1, io1)" by (metis prod_cases3)
  define io2 where "io2 = (if cl_targets control \<noteq> [] then checkpoint_now options False p1 io1 else io1)"
  have e: "e = None" using Cons.prems(1) one by (auto simp: Let_def split: if_split_asm)
  then have "collect_packages world exec model options items timeout order controls (p1, io2) = (None, p', io')"
    using Cons.prems(1) one by (auto simp: io2_def Let_def)
  from Cons.IH [OF this] Cons.prems(2) have rest: "grows items p1 p'"
    "\<forall>control \<in> set controls. \<forall>item \<in> set (cl_targets control). completed_item p' item" by auto
  have "grows items p p1 \<and> (\<forall>item \<in> set (cl_targets control). completed_item p1 item)"
    using collected_targets_complete [OF one [unfolded e]] Cons.prems(2) assms by simp
  with rest show ?case using grows_trans [of items p p1 p'] grows_completed [of items p1 p'] by auto
qed

text \<open>A package whose binary does not compile is complete at once.\<close>

lemma not_run_audited: "audited_unit item (not_run_unit detail item)"
  unfolding not_run_unit_def by (rule classified_unit_audited) (simp_all add: baseline_statuses_def)

lemma not_run_completes:
  "set own \<subseteq> set items \<Longrightarrow> grows items p (fold (\<lambda>item. complete_unit (not_run_unit detail item)) own p) \<and>
   (\<forall>item \<in> set own. completed_item (fold (\<lambda>item. complete_unit (not_run_unit detail item)) own p) item)"
proof (induction own arbitrary: p)
  case (Cons item own)
  let ?p = "complete_unit (not_run_unit detail item) p"
  have one: "grows items p ?p \<and> completed_item ?p item" using Cons.prems by (intro completes_grow not_run_audited) simp
  from Cons.IH [of ?p] Cons.prems one show ?case by (auto intro: grows_trans grows_completed)
qed (simp add: grows_same)

lemma prepare_package_completes:
  assumes "prepare_package world exec model options items timeout own suite importPath (p, io) = (Inr reply, p', io')" "set own \<subseteq> set items"
  shows "grows items p p' \<and> (case reply of None \<Rightarrow> \<forall>item \<in> set own. completed_item p' item | Some control \<Rightarrow> cl_targets control = own)"
proof -
  have rejected: "grows items p p1 \<and> (\<forall>item \<in> set own. completed_item p1 item)"
    if "reject_package world options items own suite importPath compiled (p, io1) = (p1, io2)" for compiled p1 io1 io2
  proof -
    let ?p = "fold (\<lambda>item. complete_unit (not_run_unit ''test binary did not compile'' item)) own
      (add_structural (build_failure (bw_sha world) importPath compiled) p)"
    have "lp_completed p1 = lp_completed ?p" "tally p1 = tally ?p" using that by (auto simp: reject_package_def Let_def)
    moreover have "grows items (add_structural (build_failure (bw_sha world) importPath compiled) p) ?p \<and> (\<forall>item \<in> set own. completed_item ?p item)"
      by (rule not_run_completes [OF assms(2)])
    ultimately show ?thesis by (simp add: grows_def completed_item_def) (simp add: add_structural_def)
  qed
  show ?thesis
    using assms(1) rejected grows_same [of p p items]
    by (auto simp: prepare_package_def Let_def split: option.splits prod.splits sum.splits if_splits)
qed

lemma prepare_packages_complete:
  "prepare_packages world exec model options items timeout start suites paths controls (p, io) = (Inr controls', p', io') \<Longrightarrow>
   grows items p p' \<and> set controls \<subseteq> set controls' \<and>
   (\<forall>control \<in> set controls' - set controls. set (cl_targets control) \<subseteq> set items) \<and>
   (\<forall>path \<in> set paths. (\<forall>item \<in> set (package_targets start items path). completed_item p' item) \<or>
      (\<exists>control \<in> set controls'. cl_targets control = package_targets start items path))"
proof (induction paths arbitrary: controls p io)
  case Nil
  then show ?case by (simp add: grows_same)
next
  case (Cons path paths)
  let ?own = "package_targets start items path"
  obtain r p1 io1 where one: "prepare_package world exec model options items timeout ?own (path \<in> set suites) path (p, io) = (r, p1, io1)"
    by (metis prod_cases3)
  then obtain reply where r: "r = Inr reply" using Cons.prems by (cases r) auto
  define controls1 where "controls1 = controls @ (case reply of None \<Rightarrow> [] | Some c \<Rightarrow> [c])"
  have "prepare_packages world exec model options items timeout start suites paths controls1 (p1, io1) = (Inr controls', p', io')"
    using Cons.prems one r by (simp add: controls1_def split: option.splits)
  note rest = Cons.IH [OF this]
  from prepare_package_completes [OF one [unfolded r] package_targets_items]
  have now: "grows items p p1" "case reply of None \<Rightarrow> \<forall>item \<in> set ?own. completed_item p1 item | Some control \<Rightarrow> cl_targets control = ?own" by auto
  have "(\<forall>item \<in> set ?own. completed_item p' item) \<or> (\<exists>control \<in> set controls'. cl_targets control = ?own)"
  proof (cases reply)
    case None
    then show ?thesis using now rest grows_completed by (metis option.simps(4))
  next
    case (Some c)
    then have "c \<in> set controls1" "cl_targets c = ?own" using now(2) by (simp_all add: controls1_def)
    then show ?thesis using rest by blast
  qed
  moreover have "set (cl_targets control) \<subseteq> set items" if "control \<in> set controls1 - set controls" for control
    using that now(2) package_targets_items by (auto simp: controls1_def split: option.splits)
  then have "set (cl_targets control) \<subseteq> set items" if "control \<in> set controls' - set controls" for control
    using that rest by (cases "control \<in> set controls1") blast+
  moreover have "set controls \<subseteq> set controls1" by (auto simp: controls1_def)
  then have "set controls \<subseteq> set controls'" using rest by blast
  moreover have "grows items p p'" using rest grows_trans [OF now(1)] by blast
  ultimately show ?case using rest by (simp del: prepare_packages.simps)
qed

lemma commit_suite_completed: "commit_suite run p = Some p' \<Longrightarrow> lp_completed p' = lp_completed p \<and> tally p' = tally p"
  by (auto simp: commit_suite_def merge_instrumented_def tally_def Let_def split: if_splits option.splits)

lemma collect_suites_completed:
  "collect_package_suite_coverages world exec model options controls timeout targets order (errors, p, io) = (panicked, errors', p', io') \<Longrightarrow>
   lp_completed p' = lp_completed p \<and> tally p' = tally p"
proof (induction order arbitrary: errors p io)
  case (Cons i order)
  show ?case
    using Cons.prems Cons.IH commit_suite_completed
    by (fastforce split: prod.splits sum.splits option.splits)
qed simp


section \<open>The whole run\<close>

text \<open>The progress the run appends: every completed entry of an item passes the audit.\<close>

definition audited_progress :: "baseline_item list \<Rightarrow> baseline_progress \<Rightarrow> bool" where
  "audited_progress items p \<longleftrightarrow> tally p = ([], 0, 0) \<and>
     (\<forall>item \<in> set items. \<forall>unit. map_of (lp_completed p) (bi_ID item) = Some unit \<longrightarrow> audited_unit item unit)"

lemma audited_grows:
  assumes "distinct (map bi_ID items)" "audited_progress items p" "grows items p p'" shows "audited_progress items p'"
proof -
  have "audited_unit item unit" if item: "item \<in> set items" "map_of (lp_completed p') (bi_ID item) = Some unit" for item unit
  proof (cases "map_of (lp_completed p') (bi_ID item) = map_of (lp_completed p) (bi_ID item)")
    case True
    then show ?thesis using item assms(2) by (simp add: audited_progress_def)
  next
    case False
    then obtain other where "other \<in> set items" "bi_ID item = bi_ID other" "audited_unit other unit"
      using assms(3) item(2) unfolding grows_def by force
    then show ?thesis using assms(1) item(1) by (metis distinct_map inj_onD)
  qed
  then show ?thesis using assms(2,3) by (simp add: audited_progress_def grows_def)
qed

lemma appended_inventory:
  assumes "\<forall>item \<in> set items. \<exists>unit. map_of completed (bi_ID item) = Some unit \<and> audited_unit item unit"
  shows "let r' = append_completed_baseline_targets items completed measured r in
    ba_Inventory r' = ba_Inventory r @ map (\<lambda>item. bt_Inventory (the (map_of completed (bi_ID item)))) items \<and>
    ba_Executed r' + ba_Skipped r' = ba_Executed r + ba_Skipped r + int (length items) \<and>
    ba_Executed r \<le> ba_Executed r' \<and> ba_Skipped r \<le> ba_Skipped r'"
  using assms
proof (induction items arbitrary: r)
  case Nil
  then show ?case by (simp add: append_completed_baseline_targets_def)
next
  case (Cons item items)
  from Cons.prems obtain unit where unit: "map_of completed (bi_ID item) = Some unit" "audited_unit item unit" by auto
  define r1 where "r1 = append_baseline_unit unit (map_of measured (bi_ID item)) r"
  have "append_completed_baseline_targets (item # items) completed measured r = append_completed_baseline_targets items completed measured r1"
    by (simp add: append_completed_baseline_targets_def unit(1) r1_def)
  moreover have "ba_Inventory r1 = ba_Inventory r @ [bt_Inventory unit]" "ba_Executed r1 + ba_Skipped r1 = ba_Executed r + ba_Skipped r + 1"
    "ba_Executed r \<le> ba_Executed r1" "ba_Skipped r \<le> ba_Skipped r1"
    using unit(2) by (auto simp: r1_def append_baseline_unit_def audited_unit_def)
  ultimately show ?case using Cons.IH [of r1] Cons.prems unit(1) by (simp add: Let_def)
qed

text \<open>What the report's audit asks of the inventory and its counts, where \<open>discovered\<close> targets were found.\<close>

definition inventory_audited :: "baseline_item list \<Rightarrow> baseline_result \<Rightarrow> bool" where
  "inventory_audited items r \<longleftrightarrow> map td_ID (ba_Inventory r) = map bi_ID items \<and>
     (\<forall>discovered \<ge> length items.
        let c = \<lparr>cDiscovered = int discovered, cSelected = int (length items), cExecuted = ba_Executed r, cSkipped = ba_Skipped r,
                 cExcluded = int (discovered - length items)\<rparr>
        in validate_count ''targets'' c = None \<and> validate_targets c (ba_Inventory r) = None)"

lemma validate_target_list_ok:
  "distinct (map td_ID ds) \<Longrightarrow> set (map td_ID ds) \<inter> set seen = {} \<Longrightarrow>
   \<forall>d \<in> set ds. trim_space (td_ID d) \<noteq> [] \<and> trim_space (td_Name d) \<noteq> [] \<and> trim_space (td_Kind d) \<noteq> [] \<and>
     trim_space (td_Package d) \<noteq> [] \<and> trim_space (td_Status d) \<noteq> [] \<and> \<not> td_Line d < 0 \<and> \<not> td_DurationMS d < 0 \<Longrightarrow>
   validate_target_list seen ds = None"
  by (induction ds arbitrary: seen) auto

lemma appended_audited:
  assumes "audited_items items" "audited_progress items p" "\<forall>item \<in> set items. completed_item p item"
    and "ba_Inventory r = [] \<and> ba_Executed r = 0 \<and> ba_Skipped r = 0"
  shows "inventory_audited items (append_completed_baseline_targets items (lp_completed p) measured r)"
proof -
  let ?r = "append_completed_baseline_targets items (lp_completed p) measured r"
  let ?d = "\<lambda>item. bt_Inventory (the (map_of (lp_completed p) (bi_ID item)))"
  have units: "\<forall>item \<in> set items. \<exists>unit. map_of (lp_completed p) (bi_ID item) = Some unit \<and> audited_unit item unit"
    using assms(2,3) by (fastforce simp: audited_progress_def completed_item_def)
  from appended_inventory [OF this, of measured r] assms(4)
  have r: "ba_Inventory ?r = map ?d items" "ba_Executed ?r + ba_Skipped ?r = int (length items)" "0 \<le> ba_Executed ?r" "0 \<le> ba_Skipped ?r"
    by (simp_all add: Let_def)
  have each: "td_ID (?d item) = bi_ID item" "trim_space (td_ID (?d item)) \<noteq> [] \<and> trim_space (td_Name (?d item)) \<noteq> [] \<and>
      trim_space (td_Kind (?d item)) \<noteq> [] \<and> trim_space (td_Package (?d item)) \<noteq> [] \<and> trim_space (td_Status (?d item)) \<noteq> [] \<and>
      \<not> td_Line (?d item) < 0 \<and> \<not> td_DurationMS (?d item) < 0" if "item \<in> set items" for item
    using units that assms(1) by (auto simp: audited_unit_def audited_items_def Let_def)
  have ids: "map td_ID (ba_Inventory ?r) = map bi_ID items" using each(1) by (simp add: r(1))
  have "validate_target_list [] (ba_Inventory ?r) = None"
    by (rule validate_target_list_ok) (use ids assms(1) each(2) in \<open>simp_all add: r(1) audited_items_def comp_def cong: map_cong\<close>)
  with ids r show ?thesis by (auto simp: inventory_audited_def validate_targets_def validate_count_def Let_def)
qed

text \<open>A check the project fails leaves every target it has not measured as not run.\<close>

lemma rejected_audited:
  assumes "reject_project sha name kind run items p io = (r, io')" "audited_items items" "audited_progress items p"
  shows "inventory_audited items r"
proof -
  have "grows items p0 (fold (\<lambda>item p. if completed_item p item then p else complete_unit (not_run_unit detail item) p) own p0) \<and>
      (\<forall>item \<in> set own. completed_item (fold (\<lambda>item p. if completed_item p item then p else complete_unit (not_run_unit detail item) p) own p0) item)"
    if "set own \<subseteq> set items" for own detail p0
    using that
  proof (induction own arbitrary: p0)
    case (Cons item own)
    let ?p = "if completed_item p0 item then p0 else complete_unit (not_run_unit detail item) p0"
    have "grows items p0 ?p \<and> completed_item ?p item"
      using Cons.prems completes_grow [where item = item and items = items and unit = "not_run_unit detail item" and p = p0] not_run_audited by (simp add: grows_same)
    with Cons.IH [of ?p] Cons.prems show ?case by (auto intro: grows_trans grows_completed)
  qed (simp add: grows_same)
  then obtain p1 where p1: "grows items (add_structural (check_failure sha kind name run) p) p1" "\<forall>item \<in> set items. completed_item p1 item"
    "r = append_completed_baseline_targets items (lp_completed p1) [] (lp_result p1)"
    using assms(1) unfolding reject_project_def Let_def prod.inject by blast
  have "grows items p p1" by (rule grows_trans [OF grows_same p1(1)]) (simp_all add: add_structural_def tally_def)
  then have "audited_progress items p1" using audited_grows assms(2,3) by (simp add: audited_items_def)
  then show ?thesis using appended_audited [OF assms(2) _ p1(2)] p1(3) by (simp add: audited_progress_def tally_def)
qed

lemma run_checks_audited:
  assumes "audited_items items"
  shows "run_checks world exec options items timeout checks (p, io) = (reply, io') \<Longrightarrow> audited_progress items p \<Longrightarrow>
    (\<forall>p'. reply = BaselineGoesOn p' \<longrightarrow> audited_progress items p') \<and> (\<forall>r. reply = BaselineReturns r \<longrightarrow> inventory_audited items r)"
proof (induction checks arbitrary: p io)
  case (Cons check checks)
  obtain name kind argv where check: "check = (name, kind, argv)" by (metis prod_cases3)
  have "audited_progress items (p\<lparr>lp_result := (lp_result p)\<lparr>ba_Evidence := es\<rparr>\<rparr>)" for es
    using Cons.prems(2) by (simp add: audited_progress_def)
  with Cons.prems Cons.IH rejected_audited [OF _ assms Cons.prems(2)] show ?case
    by (auto simp: check Let_def split: prod.splits sum.splits if_splits)
qed auto

text \<open>The units of a checkpoint a run may resume: what \<open>Validate\<close> and \<open>baseline\<close> check, with a status that is not blank.\<close>

definition resumable :: "baseline_item list \<Rightarrow> baseline_state \<Rightarrow> bool" where
  "resumable items saved \<longleftrightarrow> (\<forall>unit \<in> set (bl_Targets saved). target_unit_error unit = None \<and>
     unit_matches (map bi_Target items) unit \<and> trim_space (td_Status (bt_Inventory unit)) \<noteq> [])"

lemma resumable_audited:
  assumes "resumable items saved" "distinct (map bi_ID items)" "unit \<in> set (bl_Targets saved)" "item \<in> set items" "bt_ID unit = bi_ID item"
  shows "audited_unit item unit"
proof -
  have "distinct (map fst (rev (map (\<lambda>t. (t_ID t, t)) (map bi_Target items))))"
    using assms(2) by (simp add: comp_def rev_map [symmetric])
  moreover have "(bi_ID item, bi_Target item) \<in> set (rev (map (\<lambda>t. (t_ID t, t)) (map bi_Target items)))" using assms(4) by auto
  ultimately have "map_of (rev (map (\<lambda>t. (t_ID t, t)) (map bi_Target items))) (bt_ID unit) = Some (bi_Target item)"
    unfolding assms(5) by (rule map_of_is_SomeI)
  moreover have "target_unit_error unit = None" "unit_matches (map bi_Target items) unit" "trim_space (td_Status (bt_Inventory unit)) \<noteq> []"
    using assms(1,3) by (simp_all add: resumable_def)
  ultimately show ?thesis
    using assms(5) by (auto simp: audited_unit_def unit_matches_def target_unit_error_def Let_def split: if_split_asm)
qed

lemma resume_units_from:
  "map_of (lp_completed (fold (resume_unit model) units p)) i = Some u' \<Longrightarrow>
   map_of (lp_completed p) i = Some u' \<or> (\<exists>u \<in> set units. bt_ID u = i \<and> u' = resumed_unit model u)"
  by (induction units rule: rev_induct) (auto simp: resume_unit_completed update_conv' split: if_splits)

lemma resume_tallies [simp]:
  "tally (fold (resume_unit model) units p) = tally p" "tally (fold resume_suite suites p) = tally p"
proof -
  have "tally (resume_unit model unit p) = tally p" for unit p by (simp add: resume_unit_def Let_def split: option.split)
  then show "tally (fold (resume_unit model) units p) = tally p" by (induction units arbitrary: p) simp_all
  have "tally (resume_suite unit p) = tally p" for unit p
    by (simp add: resume_suite_def Let_def) (simp add: tally_def)
  then show "tally (fold resume_suite suites p) = tally p" by (induction suites arbitrary: p) simp_all
qed

lemma resumed_audited:
  assumes "distinct (map bi_ID items)" "\<forall>saved. bo_Resume options = Some saved \<longrightarrow> resumable items saved"
  shows "audited_progress items (fst (resume_baseline model options))"
proof (cases "bo_Resume options")
  case None
  then show ?thesis by (simp add: resume_baseline_def baseline_start_def audited_progress_def tally_def)
next
  case (Some saved)
  let ?start = "(baseline_start options)\<lparr>lp_vetted := bl_BuildVetComplete saved, lp_structural := bl_Findings saved,
    lp_result := (lp_result (baseline_start options))\<lparr>ba_Evidence := bl_Evidence saved, ba_Findings := bl_Findings saved\<rparr>\<rparr>"
  have completed: "lp_completed (fst (resume_baseline model options)) = lp_completed (fold (resume_unit model) (bl_Targets saved) ?start)"
    using Some by (simp add: resume_baseline_def Let_def resume_suites_completed split: option.split prod.split)
  have "tally (fst (resume_baseline model options)) = tally ?start"
    using Some resume_tallies [unfolded tally_def]
    by (simp add: resume_baseline_def Let_def tally_def split: option.split prod.split)
  then have tally: "tally (fst (resume_baseline model options)) = ([], 0, 0)" by (simp add: baseline_start_def tally_def)
  have "audited_unit item unit" if item: "item \<in> set items" "map_of (lp_completed (fst (resume_baseline model options))) (bi_ID item) = Some unit" for item unit
  proof -
    have "map_of (lp_completed ?start) (bi_ID item) = None" by (simp add: baseline_start_def)
    with resume_units_from [of model "bl_Targets saved" ?start "bi_ID item" unit] item(2) completed
    obtain u where u: "u \<in> set (bl_Targets saved)" "bt_ID u = bi_ID item" "unit = resumed_unit model u" by auto
    have "audited_unit item u" using assms Some u item(1) resumable_audited by blast
    then show ?thesis using u(3) by (simp add: audited_unit_def resumed_unit_def)
  qed
  with tally show ?thesis by (simp add: audited_progress_def)
qed

lemma measured_audited:
  assumes "measure_baseline world exec model options items schedule resume_routing (p, io) = (Inr r, io')"
    and "audited_items items" "audited_progress items p" "\<And>pkg n. set (sh_targets schedule pkg n) = {..<n}"
  shows "inventory_audited items r"
proof -
  define timeout where "timeout = positive_timeout (bo_TargetTimeout options)"
  define suites where "suites = package_suites options p resume_routing items"
  obtain controls p1 io1 where prepared: "prepare_packages world exec model options items (positive_timeout (bo_CommandTimeout options)) p suites
      (baseline_imports p items suites) [] (p, io) = (Inr controls, p1, io1)"
    using assms(1) by (auto simp: measure_baseline_def Let_def suites_def split: prod.splits sum.splits)
  obtain p2 io2 where collected: "collect_packages world exec model options items timeout (sh_targets schedule) controls (p1, io1) = (None, p2, io2)"
    using assms(1) prepared by (auto simp: measure_baseline_def Let_def suites_def timeout_def split: prod.splits option.splits)
  obtain suited errors p3 io3 targets where suites: "collect_package_suite_coverages world exec model options suited timeout targets
      (sh_suites schedule (length suited)) (replicate (length suited) None, p2, io2) = (False, errors, p3, io3)"
    "r = append_completed_baseline_targets items (lp_completed p3) (lp_measured p3) (lp_result p3)"
    using assms(1) prepared collected
    by (auto simp: measure_baseline_def Let_def suites_def timeout_def split: prod.splits option.splits if_split_asm)
  from prepare_packages_complete [OF prepared]
  have one: "grows items p p1" "\<forall>control \<in> set controls. set (cl_targets control) \<subseteq> set items"
    "\<forall>path \<in> set (baseline_imports p items suites). (\<forall>item \<in> set (package_targets p items path). completed_item p1 item) \<or>
      (\<exists>control \<in> set controls. cl_targets control = package_targets p items path)" by auto
  from collect_packages_complete [OF assms(4) collected one(2)]
  have two: "grows items p1 p2" "\<forall>control \<in> set controls. \<forall>item \<in> set (cl_targets control). completed_item p2 item" by auto
  have "grows items p2 p3" using collect_suites_completed [OF suites(1)] by (simp add: grows_same)
  then have three: "grows items p p3" "grows items p1 p3" "grows items p2 p3" using one(1) two(1) by (blast intro: grows_trans)+
  have "completed_item p3 item" if item: "item \<in> set items" for item
  proof (cases "completed_item p item")
    case True
    with three(1) show ?thesis by (rule grows_completed)
  next
    case False
    then have own: "item \<in> set (package_targets p items (t_Package (bi_Target item)))"
      and path: "t_Package (bi_Target item) \<in> set (baseline_imports p items suites)"
      using item by (auto simp: package_targets_def baseline_imports_def)
    have "completed_item p1 item \<or> completed_item p2 item" using bspec [OF one(3) path] own two(2) by (metis (full_types))
    then show ?thesis using three(2,3) grows_completed by blast
  qed
  moreover have "audited_progress items p3" using audited_grows [OF _ assms(3) three(1)] assms(2) by (simp add: audited_items_def)
  ultimately show ?thesis using appended_audited [OF assms(2)] suites(2) by (simp add: audited_progress_def tally_def)
qed

text \<open>
  C12. Whatever its commands and its session answer and in whatever order its workers take the
  targets, a baseline that returns, fresh or resumed, hands over one disposition per target, in
  the order of the targets, each executed or skipped; the report's audit accepts the inventory
  with its counts.
\<close>

theorem baseline_inventory_audited:
  assumes "collect_baseline world model items options schedule io = (Inr r, io')"
    and "\<not> bo_StopAfterChecks options" "audited_items items" "\<And>pkg n. set (sh_targets schedule pkg n) = {..<n}"
    and "\<forall>saved. bo_Resume options = Some saved \<longrightarrow> resumable items saved"
  shows "inventory_audited items r"
proof -
  obtain exec where exec: "bw_exec world = Some exec" using assms(1) by (cases "bw_exec world") (simp_all add: collect_baseline_def)
  obtain p resume_routing where resumed: "resume_baseline model options = (p, resume_routing)" by (metis surj_pair)
  have p: "audited_progress items p" using resumed_audited [OF _ assms(5), of model] resumed assms(3) by (simp add: audited_items_def)
  obtain e w where made: "bw_mkdir world (be_world io) (bo_ArtifactDirectory options) = (e, w)" by (metis surj_pair)
  define io1 where "io1 = publish_progress p items (set_world w io)"
  obtain step io2 where checks: "run_checks world exec options items (positive_timeout (bo_CommandTimeout options))
      (if lp_vetted p then [] else baseline_checks options) (p, io1) = (step, io2)" by (metis surj_pair)
  have step: "step = BaselineReturns r \<or> (\<exists>p1 io3. step = BaselineGoesOn p1 \<and>
      measure_baseline world exec model options items schedule resume_routing (p1\<lparr>lp_vetted := True\<rparr>, io3) = (Inr r, io'))"
    using assms(1,2) exec resumed made checks
    by (auto simp: collect_baseline_def Let_def io1_def split: option.splits if_split_asm baseline_step.splits)
  note checked = run_checks_audited [OF assms(3) checks p]
  show ?thesis
    using step
  proof (elim disjE exE conjE)
    fix p1 io3
    assume "step = BaselineGoesOn p1" and measured: "measure_baseline world exec model options items schedule resume_routing
      (p1\<lparr>lp_vetted := True\<rparr>, io3) = (Inr r, io')"
    then have "audited_progress items (p1\<lparr>lp_vetted := True\<rparr>)" using checked by (simp add: audited_progress_def)
    from measured_audited [OF measured assms(3) this assms(4)] show ?thesis .
  qed (use checked in blast)
qed

text \<open>The run that resumes the baseline interrupted above.\<close>

theorem baseline_inventory_audited_witness:
  "case fst (collect_baseline passing_world sample_model sample_items (sample_baseline_options (Some interrupted_baseline))
      backward_schedule no_baseline_effects) of
     Inl e \<Rightarrow> False
   | Inr r \<Rightarrow> inventory_audited sample_items r \<and> ba_Executed r = 2 \<and> map td_ID (ba_Inventory r) = [''t1'', ''t2'']"
proof -
  let ?run = "collect_baseline passing_world sample_model sample_items (sample_baseline_options (Some interrupted_baseline))
      backward_schedule no_baseline_effects"
  have "case fst ?run of Inl e \<Rightarrow> False | Inr r \<Rightarrow> ba_Executed r = 2 \<and> map td_ID (ba_Inventory r) = [''t1'', ''t2'']" by code_simp
  then obtain r where r: "fst ?run = Inr r" "ba_Executed r = 2" "map td_ID (ba_Inventory r) = [''t1'', ''t2'']" by (cases "fst ?run") auto
  have "distinct (map bi_ID sample_items) \<and> list_all (\<lambda>item. let t = bi_Target item in trim_space (t_ID t) \<noteq> [] \<and> trim_space (t_Name t) \<noteq> [] \<and>
      trim_space (t_Kind t) \<noteq> [] \<and> trim_space (t_Package t) \<noteq> []) sample_items" by code_simp
  then have "audited_items sample_items" by (simp add: audited_items_def list_all_iff)
  moreover have "list_all (\<lambda>unit. target_unit_error unit = None \<and> unit_matches (map bi_Target sample_items) unit \<and>
      trim_space (td_Status (bt_Inventory unit)) \<noteq> []) (bl_Targets interrupted_baseline)" by code_simp
  then have "\<forall>saved. bo_Resume (sample_baseline_options (Some interrupted_baseline)) = Some saved \<longrightarrow> resumable sample_items saved"
    by (simp add: resumable_def sample_baseline_options_def list_all_iff)
  moreover have "fst ?run = Inr r \<Longrightarrow> ?run = (Inr r, snd ?run)" by (simp add: prod_eq_iff)
  moreover have "\<not> bo_StopAfterChecks (sample_baseline_options (Some interrupted_baseline))" by (simp add: sample_baseline_options_def)
  moreover have "set (sh_targets backward_schedule pkg n) = {..<n}" for pkg n by (auto simp: backward_schedule_def)
  ultimately have "inventory_audited sample_items r"
    using r(1) by (intro baseline_inventory_audited [where io' = "snd ?run"]) simp_all
  with r show ?thesis by simp
qed

end
