(* ===== verification/WorkerPool.thy ===== *)
theory WorkerPool
  imports Race MutationRun BaselineAudit
begin

text \<open>
  The worker pools of the program: a closed channel of indexes, workers that take them until it
  is empty, and what waits for the workers (\<open>evaluateMutationSeeds\<close> in \<open>internal/assure/mutation.go\<close>
  and \<open>ProbeTargets\<close> in \<open>internal/assure/probe.go\<close>; with a channel of finished runs and a context
  that may be cancelled, \<open>collectPackageBaselineTargets\<close> in \<open>internal/assure/baseline.go\<close>). The
  definitions of those phases take the order the work finishes in as an argument; here it is the
  outcome of the workers' steps. A run is one step: what it does to the shared state happens when
  it finishes.
\<close>

section \<open>Systems that end\<close>

locale ending_system =
  fixes step :: "'p \<Rightarrow> 'p \<Rightarrow> bool" and valid :: "'p \<Rightarrow> bool" and fuel :: "'p \<Rightarrow> nat" and ended :: "'p \<Rightarrow> bool"
  assumes step_valid: "valid p \<Longrightarrow> step p p' \<Longrightarrow> valid p'"
    and step_fuel: "valid p \<Longrightarrow> step p p' \<Longrightarrow> fuel p' < fuel p"
    and progress: "valid p \<Longrightarrow> \<not> ended p \<Longrightarrow> \<exists>p'. step p p'"
begin

lemma reach_valid: "step\<^sup>*\<^sup>* p p' \<Longrightarrow> valid p \<Longrightarrow> valid p'"
  by (induction rule: rtranclp_induct) (auto intro: step_valid)

lemma path_bounded: "(step ^^ k) p p' \<Longrightarrow> valid p \<Longrightarrow> k + fuel p' \<le> fuel p"
proof (induction k arbitrary: p')
  case (Suc k)
  then obtain q where q: "(step ^^ k) p q" "step q p'" by auto
  have "step\<^sup>*\<^sup>* p q" using q(1) by (rule relpowp_imp_rtranclp)
  then have "fuel p' < fuel q" using Suc.prems(2) q(2) reach_valid step_fuel by blast
  with Suc.IH [OF q(1) Suc.prems(2)] show ?case by simp
qed simp

lemma stuck_ended: "step\<^sup>*\<^sup>* p p' \<Longrightarrow> valid p \<Longrightarrow> \<nexists>q. step p' q \<Longrightarrow> ended p'"
  using reach_valid progress by blast

lemma ends: "valid p \<Longrightarrow> \<exists>p'. step\<^sup>*\<^sup>* p p' \<and> ended p'"
proof (induction p rule: measure_induct_rule [of fuel])
  case (less p)
  show ?case
  proof (cases "ended p")
    case False
    then obtain q where q: "step p q" using less.prems progress by blast
    then obtain p' where "step\<^sup>*\<^sup>* q p'" "ended p'" using less step_valid step_fuel by blast
    with q show ?thesis by (meson converse_rtranclp_into_rtranclp)
  qed blast
qed

end

section \<open>The pool of seeds and of probes\<close>

datatype worker = Waiting | Running nat | Returned

record 's pool =
  wk_work :: "nat list"
  wk_workers :: "worker list"
  wk_order :: "nat list"
  wk_state :: 's

inductive pool_step :: "(nat \<Rightarrow> 's \<Rightarrow> 's) \<Rightarrow> 's pool \<Rightarrow> 's pool \<Rightarrow> bool" for turn where
  PoolTake: "w < length (wk_workers p) \<Longrightarrow> wk_workers p ! w = Waiting \<Longrightarrow> wk_work p = i # rest \<Longrightarrow>
     pool_step turn p (p\<lparr>wk_work := rest, wk_workers := (wk_workers p)[w := Running i]\<rparr>)"
| PoolFinish: "w < length (wk_workers p) \<Longrightarrow> wk_workers p ! w = Running i \<Longrightarrow>
     pool_step turn p (p\<lparr>wk_workers := (wk_workers p)[w := Waiting], wk_order := wk_order p @ [i], wk_state := turn i (wk_state p)\<rparr>)"
| PoolLeave: "w < length (wk_workers p) \<Longrightarrow> wk_workers p ! w = Waiting \<Longrightarrow> wk_work p = [] \<Longrightarrow>
     pool_step turn p (p\<lparr>wk_workers := (wk_workers p)[w := Returned]\<rparr>)"

definition job_limit :: "int \<Rightarrow> nat \<Rightarrow> nat" where
  "job_limit jobs n = nat (min (max jobs 1) (int n))"

definition pool_start :: "nat \<Rightarrow> nat \<Rightarrow> 's \<Rightarrow> 's pool" where
  "pool_start jobs n s = \<lparr>wk_work = [0..<n], wk_workers = replicate jobs Waiting, wk_order = [], wk_state = s\<rparr>"

text \<open>\<open>workers.Wait()\<close> returns.\<close>

definition all_returned :: "worker list \<Rightarrow> bool" where
  "all_returned workers = list_all (\<lambda>w. w = Returned) workers"

text \<open>The indexes the workers are at, and what is left to do.\<close>

definition in_flight :: "worker list \<Rightarrow> nat multiset" where
  "in_flight workers = (\<Sum>w\<in>#mset workers. case w of Running i \<Rightarrow> {#i#} | _ \<Rightarrow> {#})"

definition worker_fuel :: "nat \<Rightarrow> worker \<Rightarrow> nat" where
  "worker_fuel running w = (case w of Waiting \<Rightarrow> 1 | Running i \<Rightarrow> running | Returned \<Rightarrow> 0)"

definition workers_fuel :: "nat \<Rightarrow> worker list \<Rightarrow> nat" where
  "workers_fuel running workers = sum_list (map (worker_fuel running) workers)"

definition pool_fuel :: "'s pool \<Rightarrow> nat" where
  "pool_fuel p = 2 * length (wk_work p) + workers_fuel 2 (wk_workers p)"

lemma in_flight_update:
  "w < length ws \<Longrightarrow> in_flight (ws[w := x]) + (case ws ! w of Running i \<Rightarrow> {#i#} | _ \<Rightarrow> {#}) =
     in_flight ws + (case x of Running i \<Rightarrow> {#i#} | _ \<Rightarrow> {#})"
proof (induction ws arbitrary: w)
  case (Cons y ws)
  then show ?case by (cases w) (auto simp: in_flight_def ac_simps)
qed simp

lemma workers_fuel_update:
  "w < length ws \<Longrightarrow> workers_fuel running (ws[w := x]) + worker_fuel running (ws ! w) = workers_fuel running ws + worker_fuel running x"
proof (induction ws arbitrary: w)
  case (Cons y ws)
  then show ?case by (cases w) (auto simp: workers_fuel_def)
qed simp

lemma in_flight_returned: "all_returned ws \<Longrightarrow> in_flight ws = {#}"
  by (induction ws) (auto simp: all_returned_def in_flight_def)

text \<open>
  What always holds: each index is waiting, running or finished; the state is that of the
  finished runs in their order; a worker only leaves when no work is left.
\<close>

definition pool_valid :: "(nat \<Rightarrow> 's \<Rightarrow> 's) \<Rightarrow> nat \<Rightarrow> nat \<Rightarrow> 's \<Rightarrow> 's pool \<Rightarrow> bool" where
  "pool_valid turn jobs n s p \<longleftrightarrow>
     length (wk_workers p) = jobs \<and> mset (wk_work p) + in_flight (wk_workers p) + mset (wk_order p) = mset [0..<n] \<and>
     wk_state p = fold turn (wk_order p) s \<and> (Returned \<in> set (wk_workers p) \<longrightarrow> wk_work p = [])"

lemma pool_start_valid: "pool_valid turn jobs n s (pool_start jobs n s)"
proof -
  have "in_flight (replicate jobs Waiting) = {#}" by (induction jobs) (simp_all add: in_flight_def)
  then show ?thesis by (simp add: pool_valid_def pool_start_def)
qed

lemma returned_update: "Returned \<in> set (ws[w := x]) \<Longrightarrow> x \<noteq> Returned \<Longrightarrow> Returned \<in> set ws"
  using set_update_subset_insert [of ws w x] by auto

lemma pool_step_valid: "pool_step turn p p' \<Longrightarrow> pool_valid turn jobs n s p \<Longrightarrow> pool_valid turn jobs n s p'"
proof (induction rule: pool_step.induct)
  case (PoolTake w p i rest)
  then have "in_flight ((wk_workers p)[w := Running i]) = in_flight (wk_workers p) + {#i#}"
    using in_flight_update [of w "wk_workers p" "Running i"] by simp
  moreover have "Returned \<notin> set ((wk_workers p)[w := Running i])"
    using PoolTake returned_update [of "wk_workers p" w "Running i"] by (auto simp: pool_valid_def)
  ultimately show ?case using PoolTake by (simp add: pool_valid_def)
next
  case (PoolFinish w p i)
  then have flight: "in_flight (wk_workers p) = add_mset i (in_flight ((wk_workers p)[w := Waiting]))"
    using in_flight_update [of w "wk_workers p" Waiting] by simp
  have "Returned \<in> set ((wk_workers p)[w := Waiting]) \<Longrightarrow> wk_work p = []"
    using PoolFinish returned_update [of "wk_workers p" w Waiting] by (auto simp: pool_valid_def)
  with PoolFinish flight show ?case by (simp add: pool_valid_def)
next
  case (PoolLeave w p)
  then have "in_flight ((wk_workers p)[w := Returned]) = in_flight (wk_workers p)"
    using in_flight_update [of w "wk_workers p" Returned] by simp
  with PoolLeave show ?case by (simp add: pool_valid_def)
qed

lemma pool_step_fuel: "pool_step turn p p' \<Longrightarrow> pool_fuel p = Suc (pool_fuel p')"
proof (induction rule: pool_step.induct)
  case (PoolTake w p i rest)
  then show ?case using workers_fuel_update [of w "wk_workers p" 2 "Running i"] by (simp add: pool_fuel_def worker_fuel_def)
next
  case (PoolFinish w p i)
  then show ?case using workers_fuel_update [of w "wk_workers p" 2 Waiting] by (simp add: pool_fuel_def worker_fuel_def)
next
  case (PoolLeave w p)
  then show ?case using workers_fuel_update [of w "wk_workers p" 2 Returned] by (simp add: pool_fuel_def worker_fuel_def)
qed

lemma pool_progress: "\<not> all_returned (wk_workers p) \<Longrightarrow> \<exists>p'. pool_step turn p p'"
proof -
  assume "\<not> all_returned (wk_workers p)"
  then obtain w where w: "w < length (wk_workers p)" "wk_workers p ! w \<noteq> Returned" by (auto simp: all_returned_def list_all_length)
  show ?thesis
  proof (cases "wk_workers p ! w")
    case Waiting
    with w show ?thesis by (cases "wk_work p") (blast intro: PoolTake PoolLeave)+
  qed (use w in \<open>blast intro: PoolFinish\<close>)+
qed

interpretation pool: ending_system "pool_step turn" "pool_valid turn jobs n s" pool_fuel "\<lambda>p. all_returned (wk_workers p)"
  by unfold_locales (auto intro: pool_step_valid pool_progress dest: pool_step_fuel)


lemma pool_done:
  assumes "pool_valid turn jobs n s p" "all_returned (wk_workers p)" "0 < jobs"
  shows "mset (wk_order p) = mset [0..<n] \<and> wk_state p = fold turn (wk_order p) s"
proof -
  have "Returned \<in> set (wk_workers p)" using assms by (cases "wk_workers p") (auto simp: pool_valid_def all_returned_def)
  then show ?thesis using assms(1) in_flight_returned [OF assms(2)] by (auto simp: pool_valid_def)
qed

lemma job_limit_bounds: "0 < n \<Longrightarrow> 0 < job_limit jobs n \<and> job_limit jobs n \<le> n"
  by (auto simp: job_limit_def min_def max_def)

section \<open>The seeds\<close>

text \<open>A turn of a worker over the mutants of \<open>evaluateMutationSeeds\<close>: the seed and the write of its result.\<close>

definition seed_turn ::
  "'w session \<Rightarrow> mutation_options \<Rightarrow> target_evidence list \<Rightarrow> mutant list \<Rightarrow> nat \<Rightarrow>
   seed_results \<times> 'w evaluation_state \<Rightarrow> seed_results \<times> 'w evaluation_state" where
  "seed_turn session options targets mutants i state =
     (let (results, st) = state; (result, st) = run_seed session options targets (mutants ! i) st in (results[i := Some result], st))"

lemma seeds_are_turns:
  "evaluate_mutation_seeds session options targets mutants order st =
     fold (seed_turn session options targets mutants) order (replicate (length mutants) None, st)"
proof -
  have "(\<lambda>i (results, st). let (result, st) = run_seed session options targets (mutants ! i) st in (results[i := Some result], st)) =
      seed_turn session options targets mutants"
    by (intro ext) (simp add: seed_turn_def split: prod.split)
  then show ?thesis by (simp add: evaluate_mutation_seeds_def)
qed

text \<open>
  C18. The worker pool over the mutants ends, whatever the workers do and however many there
  are: a run takes at most two steps per mutant and one per worker, one that can go no further
  has every worker returned, and then each mutant was evaluated exactly once and the results are
  those of the evaluation in the order the seeds finished.
\<close>

theorem seed_pool_ends:
  assumes "mutants \<noteq> []"
    and "(pool_step (seed_turn session options targets mutants) ^^ k)
      (pool_start (job_limit (op_Jobs options) (length mutants)) (length mutants) (replicate (length mutants) None, st)) p"
  shows "k \<le> 2 * length mutants + job_limit (op_Jobs options) (length mutants) \<and>
    ((\<nexists>q. pool_step (seed_turn session options targets mutants) p q) \<longrightarrow>
       all_returned (wk_workers p) \<and> mset (wk_order p) = mset [0..<length mutants] \<and>
       wk_state p = evaluate_mutation_seeds session options targets mutants (wk_order p) st)"
proof -
  let ?n = "length mutants" and ?jobs = "job_limit (op_Jobs options) (length mutants)" and ?turn = "seed_turn session options targets mutants"
  let ?start = "pool_start ?jobs ?n (replicate ?n None, st)"
  have start: "pool_valid ?turn ?jobs ?n (replicate ?n None, st) ?start" by (rule pool_start_valid)
  have "workers_fuel 2 (replicate ?jobs Waiting) = ?jobs" by (simp add: workers_fuel_def worker_fuel_def sum_list_replicate)
  then have "k \<le> 2 * ?n + ?jobs"
    using pool.path_bounded [OF assms(2) start] by (simp add: pool_fuel_def pool_start_def)
  moreover have "all_returned (wk_workers p) \<and> mset (wk_order p) = mset [0..<?n] \<and>
      wk_state p = evaluate_mutation_seeds session options targets mutants (wk_order p) st" if stuck: "\<nexists>q. pool_step ?turn p q"
  proof -
    have path: "(pool_step ?turn)\<^sup>*\<^sup>* ?start p" using assms(2) by (rule relpowp_imp_rtranclp)
    have returned: "all_returned (wk_workers p)" using pool.stuck_ended [OF path start] stuck by blast
    have "0 < ?jobs" using assms(1) job_limit_bounds [of ?n] by simp
    with pool_done [OF pool.reach_valid [OF path start] returned] returned show ?thesis by (simp add: seeds_are_turns)
  qed
  ultimately show ?thesis by blast
qed

section \<open>The pool of targets\<close>

text \<open>
  The pool of a package's targets: a run that finishes goes to a channel the caller receives
  from, a worker that finds the context cancelled drops the index it took, and a goroutine closes
  the channel when every worker has returned. \<open>commit\<close> is what receiving a run does.
\<close>

record 's target_pool =
  tq_work :: "nat list"
  tq_workers :: "worker list"
  tq_finished :: "nat list"
  tq_received :: "nat list"
  tq_cancelled :: bool
  tq_closed :: bool
  tq_left :: bool
  tq_state :: 's

inductive target_step :: "(nat \<Rightarrow> 's \<Rightarrow> 's) \<Rightarrow> 's target_pool \<Rightarrow> 's target_pool \<Rightarrow> bool" for commit where
  TargetTake: "w < length (tq_workers p) \<Longrightarrow> tq_workers p ! w = Waiting \<Longrightarrow> tq_work p = i # rest \<Longrightarrow> \<not> tq_cancelled p \<Longrightarrow>
     target_step commit p (p\<lparr>tq_work := rest, tq_workers := (tq_workers p)[w := Running i]\<rparr>)"
| TargetDrop: "w < length (tq_workers p) \<Longrightarrow> tq_workers p ! w = Waiting \<Longrightarrow> tq_work p = i # rest \<Longrightarrow> tq_cancelled p \<Longrightarrow>
     target_step commit p (p\<lparr>tq_work := rest, tq_workers := (tq_workers p)[w := Returned]\<rparr>)"
| TargetLeave: "w < length (tq_workers p) \<Longrightarrow> tq_workers p ! w = Waiting \<Longrightarrow> tq_work p = [] \<Longrightarrow>
     target_step commit p (p\<lparr>tq_workers := (tq_workers p)[w := Returned]\<rparr>)"
| TargetFinish: "w < length (tq_workers p) \<Longrightarrow> tq_workers p ! w = Running i \<Longrightarrow>
     target_step commit p (p\<lparr>tq_workers := (tq_workers p)[w := Waiting], tq_finished := tq_finished p @ [i]\<rparr>)"
| TargetReceive: "\<not> tq_left p \<Longrightarrow> tq_finished p = i # rest \<Longrightarrow>
     target_step commit p (p\<lparr>tq_finished := rest, tq_received := tq_received p @ [i], tq_state := commit i (tq_state p)\<rparr>)"
| TargetClose: "all_returned (tq_workers p) \<Longrightarrow> \<not> tq_closed p \<Longrightarrow> target_step commit p (p\<lparr>tq_closed := True\<rparr>)"
| TargetLast: "tq_closed p \<Longrightarrow> tq_finished p = [] \<Longrightarrow> \<not> tq_left p \<Longrightarrow> target_step commit p (p\<lparr>tq_left := True\<rparr>)"
| TargetCancel: "\<not> tq_cancelled p \<Longrightarrow> \<not> tq_left p \<Longrightarrow> target_step commit p (p\<lparr>tq_cancelled := True\<rparr>)"

inductive_cases target_stepE: "target_step commit p p'"

text \<open>\<open>baselineJobLimitFor\<close>.\<close>

definition baseline_job_limit_for :: "int \<Rightarrow> int \<Rightarrow> int \<Rightarrow> int" where
  "baseline_job_limit_for requested work automatic =
     (let requested = (if requested \<le> 0 then automatic else requested) in min (max requested 1) (max work 1))"

definition target_start :: "nat \<Rightarrow> nat \<Rightarrow> 's \<Rightarrow> 's target_pool" where
  "target_start jobs n s =
     \<lparr>tq_work = [0..<n], tq_workers = replicate jobs Waiting, tq_finished = [], tq_received = [], tq_cancelled = False,
      tq_closed = False, tq_left = False, tq_state = s\<rparr>"

definition target_fuel :: "'s target_pool \<Rightarrow> nat" where
  "target_fuel p =
     3 * length (tq_work p) + workers_fuel 3 (tq_workers p) +
     length (tq_finished p) + (if tq_closed p then 0 else 1) + (if tq_left p then 0 else 1) + (if tq_cancelled p then 0 else 1)"

definition target_pool_valid :: "(nat \<Rightarrow> 's \<Rightarrow> 's) \<Rightarrow> nat \<Rightarrow> 's \<Rightarrow> 's target_pool \<Rightarrow> bool" where
  "target_pool_valid commit n s p \<longleftrightarrow>
     mset (tq_work p) + in_flight (tq_workers p) + mset (tq_finished p) + mset (tq_received p) \<subseteq># mset [0..<n] \<and>
     (\<not> tq_cancelled p \<longrightarrow> mset (tq_work p) + in_flight (tq_workers p) + mset (tq_finished p) + mset (tq_received p) = mset [0..<n] \<and>
        (Returned \<in> set (tq_workers p) \<longrightarrow> tq_work p = [])) \<and>
     tq_workers p \<noteq> [] \<and> (tq_closed p \<longrightarrow> all_returned (tq_workers p)) \<and> (tq_left p \<longrightarrow> tq_closed p \<and> tq_finished p = []) \<and>
     tq_state p = fold commit (tq_received p) s"

lemma target_start_valid: "0 < jobs \<Longrightarrow> target_pool_valid commit n s (target_start jobs n s)"
proof -
  have "in_flight (replicate jobs Waiting) = {#}" by (induction jobs) (simp_all add: in_flight_def)
  then show "0 < jobs \<Longrightarrow> ?thesis" by (simp add: target_pool_valid_def target_start_def)
qed

lemma not_all_returned: "w < length ws \<Longrightarrow> ws ! w \<noteq> Returned \<Longrightarrow> \<not> all_returned ws"
  by (auto simp: all_returned_def list_all_length)

lemma target_step_valid: "target_step commit p p' \<Longrightarrow> target_pool_valid commit n s p \<Longrightarrow> target_pool_valid commit n s p'"
proof (induction rule: target_step.induct)
  case (TargetTake w p i rest)
  then have "in_flight ((tq_workers p)[w := Running i]) = add_mset i (in_flight (tq_workers p))"
    using in_flight_update [of w "tq_workers p" "Running i"] by simp
  moreover have "Returned \<notin> set ((tq_workers p)[w := Running i])"
    using TargetTake returned_update [of "tq_workers p" w "Running i"] by (auto simp: target_pool_valid_def)
  moreover have "\<not> all_returned (tq_workers p)" using TargetTake by (simp add: not_all_returned)
  ultimately show ?case using TargetTake by (auto simp: target_pool_valid_def)
next
  case (TargetDrop w p i rest)
  then have flight: "in_flight ((tq_workers p)[w := Returned]) = in_flight (tq_workers p)"
    using in_flight_update [of w "tq_workers p" Returned] by simp
  have "\<not> all_returned (tq_workers p)" using TargetDrop by (simp add: not_all_returned)
  moreover have "mset rest + in_flight (tq_workers p) + mset (tq_finished p) + mset (tq_received p) \<subseteq># mset [0..<n]"
    using TargetDrop by (auto simp: target_pool_valid_def intro: subset_mset.order_trans [rotated])
  ultimately show ?case using TargetDrop flight by (auto simp: target_pool_valid_def)
next
  case (TargetLeave w p)
  then have "in_flight ((tq_workers p)[w := Returned]) = in_flight (tq_workers p)"
    using in_flight_update [of w "tq_workers p" Returned] by simp
  moreover have "\<not> all_returned (tq_workers p)" using TargetLeave by (simp add: not_all_returned)
  ultimately show ?case using TargetLeave by (auto simp: target_pool_valid_def)
next
  case (TargetFinish w p i)
  then have flight: "in_flight (tq_workers p) = add_mset i (in_flight ((tq_workers p)[w := Waiting]))"
    using in_flight_update [of w "tq_workers p" Waiting] by simp
  have "Returned \<in> set ((tq_workers p)[w := Waiting]) \<Longrightarrow> Returned \<in> set (tq_workers p)" by (erule returned_update) simp
  moreover have "\<not> all_returned (tq_workers p)" using TargetFinish by (simp add: not_all_returned)
  ultimately show ?case using TargetFinish flight by (auto simp: target_pool_valid_def)
next
  case (TargetReceive p i rest)
  then show ?case by (auto simp: target_pool_valid_def)
qed (auto simp: target_pool_valid_def)

lemma target_step_fuel: "target_step commit p p' \<Longrightarrow> target_fuel p' < target_fuel p"
proof (induction rule: target_step.induct)
  case (TargetTake w p i rest)
  then show ?case using workers_fuel_update [of w "tq_workers p" 3 "Running i"] by (simp add: target_fuel_def worker_fuel_def)
next
  case (TargetDrop w p i rest)
  then show ?case using workers_fuel_update [of w "tq_workers p" 3 Returned] by (simp add: target_fuel_def worker_fuel_def)
next
  case (TargetLeave w p)
  then show ?case using workers_fuel_update [of w "tq_workers p" 3 Returned] by (simp add: target_fuel_def worker_fuel_def)
next
  case (TargetFinish w p i)
  then show ?case using workers_fuel_update [of w "tq_workers p" 3 Waiting] by (simp add: target_fuel_def worker_fuel_def)
qed (auto simp: target_fuel_def)

lemma target_progress:
  assumes "target_pool_valid commit n s p" "\<not> tq_left p" shows "\<exists>p'. target_step commit p p'"
proof (cases "all_returned (tq_workers p)")
  case False
  then obtain w where w: "w < length (tq_workers p)" "tq_workers p ! w \<noteq> Returned" by (auto simp: all_returned_def list_all_length)
  show ?thesis
  proof (cases "tq_workers p ! w")
    case Waiting
    with w show ?thesis by (cases "tq_work p"; cases "tq_cancelled p") (blast intro: TargetTake TargetDrop TargetLeave)+
  qed (use w in \<open>blast intro: TargetFinish\<close>)+
next
  case True
  show ?thesis
  proof (cases "tq_closed p")
    case closed: True
    with assms(2) show ?thesis by (cases "tq_finished p") (blast intro: TargetLast TargetReceive)+
  qed (use True in \<open>blast intro: TargetClose\<close>)
qed

interpretation target_pools: ending_system "target_step commit" "target_pool_valid commit n s" target_fuel tq_left
  by unfold_locales (auto intro: target_step_valid target_progress dest: target_step_fuel)


lemma target_pool_done:
  assumes "target_pool_valid commit n s p" "tq_left p"
  shows "all_returned (tq_workers p) \<and> distinct (tq_received p) \<and> set (tq_received p) \<subseteq> {..<n} \<and>
    (\<not> tq_cancelled p \<longrightarrow> mset (tq_received p) = mset [0..<n]) \<and> tq_state p = fold commit (tq_received p) s"
proof -
  have returned: "all_returned (tq_workers p)" "tq_finished p = []" "tq_workers p \<noteq> []" using assms by (auto simp: target_pool_valid_def)
  note flight = in_flight_returned [OF returned(1)]
  have "mset (tq_work p) + mset (tq_received p) \<subseteq># mset [0..<n]"
    using assms(1) flight returned(2) unfolding target_pool_valid_def by simp
  then have sub: "mset (tq_received p) \<subseteq># mset [0..<n]" by (rule subset_mset.order_trans [rotated]) simp
  obtain ys where "mset ys = mset [0..<n] - mset (tq_received p)" by (metis ex_mset)
  with sub have "mset (tq_received p @ ys) = mset [0..<n]" by (simp only: mset_append subset_mset.add_diff_inverse)
  then have "distinct (tq_received p @ ys)" using mset_eq_imp_distinct_iff by (metis distinct_upt)
  then have "distinct (tq_received p)" by simp
  moreover have "set (tq_received p) \<subseteq> {..<n}" using set_mset_mono [OF sub] by (simp add: atLeast0LessThan)
  moreover have "Returned \<in> set (tq_workers p)" using returned(1,3) by (cases "tq_workers p") (auto simp: all_returned_def)
  ultimately show ?thesis using assms(1) flight returned by (auto simp: target_pool_valid_def)
qed

text \<open>
  C19. The worker pool over the targets of a package, with as many workers as
  \<open>baselineJobLimitFor\<close> says, never deadlocks: wherever it is, it can come to its end, after at
  most three steps per target, one per worker and three more. At the end every worker has
  returned, each target was received at most once, and exactly once unless the context was
  cancelled, and the state is the one the turns leave in the order they were received.
\<close>

theorem target_pool_ends:
  fixes requested automatic timeout :: int and control :: package_control and world :: "'w baseline_world"
    and exec :: "'w \<Rightarrow> command \<Rightarrow> (string + command_result) \<times> 'w" and model :: go_model and options :: baseline_options
    and items :: "baseline_item list"
  assumes "cl_targets control \<noteq> []"
  defines "n \<equiv> length (cl_targets control)"
    and "jobs \<equiv> nat (baseline_job_limit_for requested (int (length (cl_targets control))) automatic)"
    and "turn \<equiv> target_turn world exec model options items control timeout"
  assumes "(target_step turn ^^ k) (target_start jobs n (replicate n None, pio)) p"
  shows "k \<le> 3 * n + jobs + 3 \<and> jobs \<le> n \<and> (\<exists>q. (target_step turn)\<^sup>*\<^sup>* p q \<and> tq_left q) \<and>
    (tq_left p \<longrightarrow> all_returned (tq_workers p) \<and> distinct (tq_received p) \<and> set (tq_received p) \<subseteq> {..<n} \<and>
       (\<not> tq_cancelled p \<longrightarrow> mset (tq_received p) = mset [0..<n]) \<and>
       tq_state p = fold turn (tq_received p) (replicate n None, pio))"
proof -
  let ?s = "(replicate n None, pio) :: 'w target_state"
  let ?start = "target_start jobs n ?s"
  have jobs: "0 < jobs" "jobs \<le> n"
    using assms(1) by (cases "cl_targets control"; auto simp: n_def jobs_def baseline_job_limit_for_def Let_def min_def max_def)+
  have start: "target_pool_valid turn n ?s ?start" using jobs(1) by (rule target_start_valid)
  have path: "(target_step turn)\<^sup>*\<^sup>* ?start p" using assms(5) by (rule relpowp_imp_rtranclp)
  note valid = target_pools.reach_valid [OF path start]
  have "target_fuel ?start = 3 * n + jobs + 3"
    by (simp add: target_fuel_def target_start_def workers_fuel_def worker_fuel_def sum_list_replicate)
  then have "k \<le> 3 * n + jobs + 3" using target_pools.path_bounded [OF assms(5) start] by simp
  then show ?thesis using jobs(2) target_pools.ends [OF valid] target_pool_done [OF valid] by blast
qed

section \<open>Runs of the pools\<close>

inductive_cases pool_stepE: "pool_step turn p p'"

lemma returned_stuck: "all_returned (wk_workers p) \<Longrightarrow> \<not> pool_step turn p q"
  by (auto elim!: pool_stepE simp: all_returned_def list_all_length)

text \<open>One mutant, killed by the test that reaches it.\<close>

theorem seed_pool_ends_witness:
  "\<exists>p. (pool_step (seed_turn (sample_session OutcomeKilled) sample_options [sample_target ''1'' ''p'' []] [routed_mutant]))\<^sup>*\<^sup>*
       (pool_start 1 1 ([None], sample_state)) p \<and> wk_order p = [0] \<and>
     fst (wk_state p) = [Some (Inr (kill_only routed_mutant ''Test1''))]"
proof -
  let ?turn = "seed_turn (sample_session OutcomeKilled) sample_options [sample_target ''1'' ''p'' []] [routed_mutant]"
  let ?start = "pool_start 1 1 ([None] :: seed_results, sample_state)"
  have one: "job_limit (op_Jobs sample_options) (Suc 0) = Suc 0" by (simp add: job_limit_def sample_options_def)
  obtain p where p: "(pool_step ?turn)\<^sup>*\<^sup>* ?start p" "all_returned (wk_workers p)" using pool.ends [OF pool_start_valid [of ?turn]] by blast
  then obtain k where "(pool_step ?turn ^^ k) ?start p" using rtranclp_imp_relpowp by metis
  with seed_pool_ends [of "[routed_mutant]" k "sample_session OutcomeKilled" sample_options "[sample_target ''1'' ''p'' []]" sample_state p]
  have ended: "mset (wk_order p) = {#0#}"
    "wk_state p = evaluate_mutation_seeds (sample_session OutcomeKilled) sample_options [sample_target ''1'' ''p'' []] [routed_mutant] (wk_order p) sample_state"
    using returned_stuck [OF p(2)] by (simp_all add: one)
  then have order: "wk_order p = [0]" by simp
  have "fst (evaluate_mutation_seeds (sample_session OutcomeKilled) sample_options [sample_target ''1'' ''p'' []] [routed_mutant] [0] sample_state) =
      [Some (Inr (kill_only routed_mutant ''Test1''))]"
    using sample_evaluation by (auto simp: evaluate_mutation_seeds_def run_seed_def split: prod.splits sum.splits)
  with p(1) order ended(2) show ?thesis by auto
qed

text \<open>Two targets and one job.\<close>

definition sample_control :: package_control where
  "sample_control = \<lparr>cl_importPath = ''m.test'', cl_relativeDir = ''.'', cl_binary = ''t'', cl_targets = sample_items\<rparr>"

theorem target_pool_ends_witness:
  "\<exists>p. (target_step (target_turn passing_world passing_exec sample_model (sample_baseline_options None) sample_items sample_control 9))\<^sup>*\<^sup>*
       (target_start 1 2 ([None, None], baseline_start (sample_baseline_options None), no_baseline_effects)) p \<and>
     tq_left p \<and> all_returned (tq_workers p) \<and> distinct (tq_received p)"
proof -
  let ?turn = "target_turn passing_world passing_exec sample_model (sample_baseline_options None) sample_items sample_control 9"
  let ?pio = "(baseline_start (sample_baseline_options None), no_baseline_effects)"
  let ?two = "target_start 1 2 ([None, None], ?pio) :: nat target_state target_pool"
  have two: "length (cl_targets sample_control) = 2" "cl_targets sample_control \<noteq> []" by (simp_all add: sample_control_def sample_items_def)
  have start: "(target_step ?turn ^^ 0) (target_start (nat (baseline_job_limit_for 1 (int (length (cl_targets sample_control))) 4))
      (length (cl_targets sample_control)) (replicate (length (cl_targets sample_control)) None, ?pio)) ?two"
    by (simp add: two baseline_job_limit_for_def eval_nat_numeral)
  from target_pool_ends [OF two(2) start]
  obtain p where p: "(target_step ?turn)\<^sup>*\<^sup>* ?two p" "tq_left p" by blast
  then obtain k where "(target_step ?turn ^^ k) ?two p" using rtranclp_imp_relpowp by metis
  then have "(target_step ?turn ^^ k) (target_start (nat (baseline_job_limit_for 1 (int (length (cl_targets sample_control))) 4))
      (length (cl_targets sample_control)) (replicate (length (cl_targets sample_control)) None, ?pio)) p"
    by (simp add: two baseline_job_limit_for_def eval_nat_numeral)
  from target_pool_ends [OF two(2) this] p show ?thesis by blast
qed

end
