(* ===== verification/Fallible.thy ===== *)
theory Fallible
  imports GoPrelude
begin

text \<open>
  Go's sequences of steps that return at the first error: \<open>if cond { return err }\<close> (\<open>require\<close>),
  \<open>if err := f(); err != nil { return err }\<close> (\<open>check\<close>), \<open>x, err := f(); if err != nil { return err }\<close>
  (\<open>attempt\<close>), and the same for steps that change a state. What a sequence returned without an error
  says that every step of it did.
\<close>

named_theorems fallible_simps

definition require :: "bool \<Rightarrow> 'e \<Rightarrow> 'e + 'a \<Rightarrow> 'e + 'a" where
  "require ok e rest = (if ok then rest else Inl e)"

definition check :: "'e option \<Rightarrow> 'e + 'a \<Rightarrow> 'e + 'a" where
  "check e rest = (case e of Some x \<Rightarrow> Inl x | None \<Rightarrow> rest)"

definition attempt :: "'e + 'a \<Rightarrow> ('a \<Rightarrow> 'e + 'b) \<Rightarrow> 'e + 'b" where
  "attempt r f = (case r of Inl e \<Rightarrow> Inl e | Inr x \<Rightarrow> f x)"

lemma require_Inr [simp, fallible_simps]: "require ok e rest = Inr x \<longleftrightarrow> ok \<and> rest = Inr x"
  by (simp add: require_def)

lemma check_Inr [simp, fallible_simps]: "check e rest = Inr x \<longleftrightarrow> e = None \<and> rest = Inr x"
  by (simp add: check_def split: option.split)

lemma attempt_Inr [simp, fallible_simps]: "attempt r f = Inr x \<longleftrightarrow> (\<exists>y. r = Inr y \<and> f y = Inr x)"
  by (simp add: attempt_def split: sum.split)

lemma require_simps [simp]: "require True e rest = rest" "require False e rest = Inl e"
  by (simp_all add: require_def)

lemma check_simps [simp]: "check None rest = rest" "check (Some x) rest = Inl x"
  by (simp_all add: check_def)

lemma attempt_simps [simp]: "attempt (Inl e) f = Inl e" "attempt (Inr y) f = f y"
  by (simp_all add: attempt_def)

text \<open>\<open>for _, x := range xs { y, err := f(x); if err != nil { return err }; ys = append(ys, y) }\<close>\<close>

fun attempt_each :: "('a \<Rightarrow> 'e + 'b) \<Rightarrow> 'a list \<Rightarrow> 'e + 'b list" where
  "attempt_each f [] = Inr []"
| "attempt_each f (x # xs) = attempt (f x) (\<lambda>y. attempt (attempt_each f xs) (\<lambda>ys. Inr (y # ys)))"

lemma attempt_each_Inr: "attempt_each f xs = Inr ys \<longleftrightarrow> list_all2 (\<lambda>x y. f x = Inr y) xs ys"
proof (induction xs arbitrary: ys)
  case (Cons x xs)
  then show ?case by (cases ys) auto
qed auto

lemma attempt_each_member:
  assumes "attempt_each f xs = Inr ys" "y \<in> set ys" shows "\<exists>x \<in> set xs. f x = Inr y"
  using assms unfolding attempt_each_Inr by (induction rule: list_all2_induct) auto

text \<open>Steps of a state.\<close>

definition attempt_in :: "('e + 'a) \<times> 's \<Rightarrow> ('a \<Rightarrow> 's \<Rightarrow> ('e + 'b) \<times> 's) \<Rightarrow> ('e + 'b) \<times> 's" where
  "attempt_in r f = (case r of (Inl e, s) \<Rightarrow> (Inl e, s) | (Inr x, s) \<Rightarrow> f x s)"

lemma attempt_in_Inr [fallible_simps]:
  "attempt_in r f = (Inr y, s') \<longleftrightarrow> (\<exists>x s. r = (Inr x, s) \<and> f x s = (Inr y, s'))"
  by (auto simp: attempt_in_def split: prod.splits sum.splits)

lemma attempt_in_simps [simp]:
  "attempt_in (Inl e, s) f = (Inl e, s)" "attempt_in (Inr x, s) f = f x s"
  by (simp_all add: attempt_in_def)

end
