(* ===== verification/Repair.thy ===== *)
theory Repair
  imports Fallible Report
begin

text \<open>
  \<open>repair/repair.go\<close>: the candidates a generator proposes, their validation, and their application to the
  repository's files, all of them or none. The files are a tree of nodes that others may edit and whose
  operations may fail: a \<open>turn\<close> says for one system call which edits happen before it and whether it
  fails. \<open>tr_writes\<close> keeps what the code wrote and removed.
\<close>

section \<open>Files\<close>

type_synonym place = "string list"

text \<open>A node with its permissions; what a link points at lies outside the tree, and may be missing.\<close>

datatype node = Directory | Plain string nat | Link "(string \<times> nat) option"

record turn =
  tn_edits :: "(place \<times> node option) list"
  tn_fault :: bool

record tree =
  tr_nodes :: "place \<rightharpoonup> node"
  tr_turns :: "turn list"
  tr_writes :: "(place \<times> node option) list"

datatype repair_error =
    NotExist
  | SystemFault
  | PathOutside string
  | PathInvalid string
  | DuplicatePath string
  | KindInvalid string
  | RootNotDirectory
  | CrossesLink place
  | CrossesFile place
  | NoValidator
  | FailsOriginal string
  | MissesMutant string
  | FailsSuite string
  | ApplyFailed string "repair_error list"
  | RollbackFailed string repair_error
  | RollbackRefused string
  | EncodeFailed string
  | RecordInvalid
  | RecordTooLarge
  | RecordDiffers string
  | CandidateIDInvalid string
  | CandidateUnread string repair_error
  | CandidateUndecoded string
  | CandidateMismatch
  | CandidatesUnread repair_error
  | UnsafeCandidateFile string

definition edit :: "place \<times> node option \<Rightarrow> (place \<rightharpoonup> node) \<Rightarrow> (place \<rightharpoonup> node)" where
  "edit e nodes = nodes(fst e := snd e)"

text \<open>The start of a system call: the edits before it, and whether it fails.\<close>

definition begin_call :: "tree \<Rightarrow> bool \<times> tree" where
  "begin_call d =
     (case tr_turns d of
        [] \<Rightarrow> (False, d)
      | t # ts \<Rightarrow> (tn_fault t, d\<lparr>tr_nodes := fold edit (tn_edits t) (tr_nodes d), tr_turns := ts\<rparr>))"

definition call :: "(tree \<Rightarrow> (repair_error + 'a) \<times> tree) \<Rightarrow> tree \<Rightarrow> (repair_error + 'a) \<times> tree" where
  "call operation d = (let (failed, d) = begin_call d in if failed then (Inl SystemFault, d) else operation d)"

text \<open>The places above one, without the root.\<close>

definition parents :: "place \<Rightarrow> place list" where
  "parents place = map (\<lambda>k. take k place) [1..<length place]"

definition blocked :: "(place \<rightharpoonup> node) \<Rightarrow> place \<Rightarrow> bool" where
  "blocked nodes place = list_ex (\<lambda>p. nodes p \<noteq> None \<and> nodes p \<noteq> Some Directory) (parents place)"

definition node_content :: "node option \<Rightarrow> repair_error + string \<times> nat" where
  "node_content n =
     (case n of
        None \<Rightarrow> Inl NotExist
      | Some Directory \<Rightarrow> Inl SystemFault
      | Some (Plain content mode) \<Rightarrow> Inr (content, mode)
      | Some (Link None) \<Rightarrow> Inl NotExist
      | Some (Link (Some referent)) \<Rightarrow> Inr referent)"

definition read_file :: "place \<Rightarrow> tree \<Rightarrow> (repair_error + string) \<times> tree" where
  "read_file place = call (\<lambda>d.
     (if blocked (tr_nodes d) place then Inl SystemFault else map_sum id fst (node_content (tr_nodes d place)), d))"

text \<open>\<open>os.Stat\<close> of a file just read: its permissions.\<close>

definition stat_mode :: "place \<Rightarrow> tree \<Rightarrow> (repair_error + nat) \<times> tree" where
  "stat_mode place = call (\<lambda>d.
     (if blocked (tr_nodes d) place then Inl SystemFault
      else if tr_nodes d place = Some Directory then Inr 0
      else map_sum id snd (node_content (tr_nodes d place)), d))"

definition lstat :: "place \<Rightarrow> tree \<Rightarrow> (repair_error + node) \<times> tree" where
  "lstat place = call (\<lambda>d.
     (if blocked (tr_nodes d) place then Inl SystemFault
      else case tr_nodes d place of None \<Rightarrow> Inl NotExist | Some n \<Rightarrow> Inr n, d))"

definition mkdir_all :: "place list \<Rightarrow> tree \<Rightarrow> (repair_error + unit) \<times> tree" where
  "mkdir_all places = call (\<lambda>d.
     if list_ex (\<lambda>p. tr_nodes d p \<noteq> None \<and> tr_nodes d p \<noteq> Some Directory) places then (Inl SystemFault, d)
     else (Inr (), d\<lparr>tr_nodes := fold (\<lambda>p nodes. nodes(p \<mapsto> Directory)) places (tr_nodes d)\<rparr>))"

text \<open>\<open>CreateTemp\<close>, \<open>Write\<close>, \<open>Sync\<close>, \<open>Chmod\<close> and \<open>Close\<close> of the temporary file, which nothing else names.\<close>

fun temporary_calls :: "nat \<Rightarrow> tree \<Rightarrow> (repair_error + unit) \<times> tree" where
  "temporary_calls 0 d = (Inr (), d)"
| "temporary_calls (Suc n) d = attempt_in (call (Pair (Inr ())) d) (\<lambda>_ d. temporary_calls n d)"

definition write_node :: "place \<Rightarrow> node option \<Rightarrow> tree \<Rightarrow> tree" where
  "write_node place n d = d\<lparr>tr_nodes := (tr_nodes d)(place := n), tr_writes := tr_writes d @ [(place, n)]\<rparr>"

definition parents_present :: "(place \<rightharpoonup> node) \<Rightarrow> place \<Rightarrow> bool" where
  "parents_present nodes place = list_all (\<lambda>p. nodes p = Some Directory) (parents place)"

definition rename_to :: "place \<Rightarrow> string \<Rightarrow> nat \<Rightarrow> tree \<Rightarrow> (repair_error + unit) \<times> tree" where
  "rename_to place content mode = call (\<lambda>d.
     if \<not> parents_present (tr_nodes d) place \<or> tr_nodes d place = Some Directory then (Inl SystemFault, d)
     else (Inr (), write_node place (Some (Plain content mode)) d))"

definition remove_file :: "place \<Rightarrow> tree \<Rightarrow> (repair_error + unit) \<times> tree" where
  "remove_file place = call (\<lambda>d.
     if blocked (tr_nodes d) place \<or> tr_nodes d place = Some Directory then (Inl SystemFault, d)
     else if tr_nodes d place = None then (Inl NotExist, d)
     else (Inr (), write_node place None d))"

section \<open>Paths\<close>

definition normalize_path :: "string \<Rightarrow> string option" where
  "normalize_path path =
     (if path = [] \<or> has_prefix path ''/'' \<or> set path \<inter> {CHR 0x5C, CHR '':'', nul} \<noteq> {} then None
      else let clean = path_clean path in
        if clean = ''.'' \<or> clean = ''..'' \<or> has_prefix clean ''../'' then None else Some (to_slash clean))"

text \<open>A fuzz corpus file: \<open>testdata/fuzz\<close> with at least two components after it.\<close>

fun corpus_parts :: "string list \<Rightarrow> bool" where
  "corpus_parts (a # b # c # d # rest) = (a = ''testdata'' \<and> b = ''fuzz'' \<or> corpus_parts (b # c # d # rest))"
| "corpus_parts _ = False"

definition allowed_path :: "string \<Rightarrow> bool" where
  "allowed_path path =
     (case normalize_path path of
        None \<Rightarrow> False
      | Some normalized \<Rightarrow> has_suffix normalized ''_test.go'' \<or> corpus_parts (split_on (CHR ''/'') normalized))"

text \<open>The root and the places of a path, one \<open>Lstat\<close> each until one is missing.\<close>

fun confine_from :: "place \<Rightarrow> string list \<Rightarrow> tree \<Rightarrow> (repair_error + unit) \<times> tree" where
  "confine_from current [] d = (Inr (), d)"
| "confine_from current (part # parts) d =
     (case lstat (current @ [part]) d of
        (Inl e, d) \<Rightarrow> (if e = NotExist then Inr () else Inl e, d)
      | (Inr (Link _), d) \<Rightarrow> (Inl (CrossesLink (current @ [part])), d)
      | (Inr (Plain _ _), d) \<Rightarrow> if parts = [] then (Inr (), d) else (Inl (CrossesFile (current @ [part])), d)
      | (Inr Directory, d) \<Rightarrow> confine_from (current @ [part]) parts d)"

text \<open>\<open>Abs\<close>, \<open>EvalSymlinks\<close> and \<open>Stat\<close> of the root.\<close>

definition resolve_root :: "tree \<Rightarrow> (repair_error + unit) \<times> tree" where
  "resolve_root d =
     attempt_in (temporary_calls 2 d) (\<lambda>_. call (\<lambda>d.
       (if tr_nodes d [] = Some Directory then Inr () else Inl RootNotDirectory, d)))"

definition confined_path :: "string \<Rightarrow> tree \<Rightarrow> (repair_error + place) \<times> tree" where
  "confined_path normalized d =
     attempt_in (resolve_root d) (\<lambda>_ d.
     attempt_in (confine_from [] (split_on (CHR ''/'') normalized) d) (\<lambda>_ d.
     (Inr (split_on (CHR ''/'') normalized), d)))"

section \<open>Candidates\<close>

record candidate =
  cn_Kind :: string
  cn_Path :: string
  cn_PreimageSHA256 :: string
  cn_Content :: string
  cn_Replay :: string

text \<open>What the code takes from elsewhere: SHA-256 in hexadecimal, \<open>strings.ToUpper\<close> and \<open>json.MarshalIndent\<close> of an artifact.\<close>

record repair_tools =
  tl_sha :: "string \<Rightarrow> string"
  tl_upper :: "string \<Rightarrow> string"
  tl_json :: "string \<Rightarrow> candidate \<Rightarrow> string + string"

record 'v validator =
  va_original :: "candidate \<Rightarrow> 'v \<Rightarrow> string option \<times> 'v"
  va_kills :: "finding \<Rightarrow> candidate \<Rightarrow> 'v \<Rightarrow> string option \<times> 'v"
  va_suite :: "candidate \<Rightarrow> 'v \<Rightarrow> string option \<times> 'v"

definition validation_step :: "(string \<Rightarrow> repair_error) \<Rightarrow> string option \<times> 'v \<Rightarrow> (repair_error + unit) \<times> 'v" where
  "validation_step failure answer = (case answer of (Some e, v) \<Rightarrow> (Inl (failure e), v) | (None, v) \<Rightarrow> (Inr (), v))"

definition validate_candidate ::
  "'v validator option \<Rightarrow> finding \<Rightarrow> candidate \<Rightarrow> 'v \<times> tree \<Rightarrow> (repair_error + candidate) \<times> 'v \<times> tree" where
  "validate_candidate validator finding candidate state =
     (let (v, d) = state in
      case normalize_path (cn_Path candidate) of
        None \<Rightarrow> (Inl (PathOutside (cn_Path candidate)), v, d)
      | Some normalized \<Rightarrow>
          if \<not> allowed_path normalized then (Inl (PathOutside (cn_Path candidate)), v, d)
          else let candidate = candidate\<lparr>cn_Path := normalized\<rparr> in
          if cn_Kind candidate \<notin> {''patch'', ''corpus''} then (Inl (KindInvalid (cn_Kind candidate)), v, d)
          else case confined_path normalized d of
            (Inl e, d) \<Rightarrow> (Inl e, v, d)
          | (Inr _, d) \<Rightarrow>
              (case validator of
                 None \<Rightarrow> (Inl NoValidator, v, d)
               | Some checks \<Rightarrow>
                   let (answer, v) =
                     attempt_in (validation_step FailsOriginal (va_original checks candidate v)) (\<lambda>_ v.
                     attempt_in (validation_step MissesMutant (va_kills checks finding candidate v)) (\<lambda>_ v.
                     attempt_in (validation_step FailsSuite (va_suite checks candidate v)) (\<lambda>_ v. (Inr candidate, v))))
                   in (answer, v, d)))"

section \<open>Writing\<close>

definition atomic_write :: "string \<Rightarrow> string \<Rightarrow> nat \<Rightarrow> tree \<Rightarrow> (repair_error + unit) \<times> tree" where
  "atomic_write relative content mode d =
     attempt_in (confined_path relative d) (\<lambda>place d.
     attempt_in (mkdir_all (parents place) d) (\<lambda>_ d.
     attempt_in (temporary_calls 5 d) (\<lambda>_ d.
     rename_to place content mode d)))"

definition readable_file :: nat where "readable_file = 420"
definition private_file :: nat where "private_file = 384"

text \<open>The candidate is left beside the repository where the file is no longer what it was made for.\<close>

definition artifact_path :: "repair_tools \<Rightarrow> finding \<Rightarrow> candidate \<Rightarrow> string" where
  "artifact_path tools finding candidate =
     ''.goatest/patches/'' @
     finding_id (tl_sha tools) [''repair-artifact'', f_ID finding, cn_Kind candidate, cn_Path candidate, cn_PreimageSHA256 candidate] @ ''.json''"

definition write_artifact :: "repair_tools \<Rightarrow> finding \<Rightarrow> candidate \<Rightarrow> tree \<Rightarrow> (repair_error + string) \<times> tree" where
  "write_artifact tools finding candidate d =
     (case tl_json tools (f_ID finding) candidate of
        Inl e \<Rightarrow> (Inl (EncodeFailed e), d)
      | Inr payload \<Rightarrow>
          attempt_in (atomic_write (artifact_path tools finding candidate) (payload @ [CHR 0x0A]) private_file d) (\<lambda>_ d.
          (Inr (artifact_path tools finding candidate), d)))"

definition matches_preimage :: "repair_tools \<Rightarrow> place \<Rightarrow> string \<Rightarrow> tree \<Rightarrow> (repair_error + bool) \<times> tree" where
  "matches_preimage tools place expected d =
     (case read_file place d of
        (Inl e, d) \<Rightarrow> (if e = NotExist then Inr (expected = []) else Inl e, d)
      | (Inr content, d) \<Rightarrow>
          attempt_in (stat_mode place d) (\<lambda>_ d. (Inr (tl_sha tools content = expected), d)))"

section \<open>Applying\<close>

record repair_application =
  ap_Finding :: finding
  ap_Candidate :: candidate

record application_state =
  as_application :: repair_application
  as_target :: place
  as_original :: string
  as_existed :: bool
  as_mode :: nat

record repair_outcome =
  ou_Status :: string
  ou_Path :: string
  ou_Artifact :: string

definition status_applied :: string where "status_applied = ''applied''"
definition status_artifact :: string where "status_artifact = ''artifact''"
definition status_candidate :: string where "status_candidate = ''candidate''"

abbreviation as_candidate :: "application_state \<Rightarrow> candidate" where
  "as_candidate st \<equiv> ap_Candidate (as_application st)"

definition inspect_application ::
  "repair_tools \<Rightarrow> repair_application \<Rightarrow> tree \<Rightarrow> (repair_error + application_state \<times> bool) \<times> tree" where
  "inspect_application tools application d =
     attempt_in (confined_path (cn_Path (ap_Candidate application)) d) (\<lambda>target d.
       case read_file target d of
         (Inl e, d) \<Rightarrow>
           (if e = NotExist then
              Inr (\<lparr>as_application = application, as_target = target, as_original = [], as_existed = False, as_mode = readable_file\<rparr>,
                   cn_PreimageSHA256 (ap_Candidate application) = [])
            else Inl e, d)
       | (Inr content, d) \<Rightarrow>
           attempt_in (stat_mode target d) (\<lambda>mode d.
           (Inr (\<lparr>as_application = application, as_target = target, as_original = content, as_existed = True, as_mode = mode\<rparr>,
                 tl_sha tools content = cn_PreimageSHA256 (ap_Candidate application)), d)))"

text \<open>The first loop: every application is inspected, and a stale one is left as an artifact.\<close>

fun inspect_all ::
  "repair_tools \<Rightarrow> string list \<Rightarrow> repair_application list \<Rightarrow> tree \<Rightarrow>
   (repair_error + (application_state \<times> repair_outcome) list) \<times> tree" where
  "inspect_all tools seen [] d = (Inr [], d)"
| "inspect_all tools seen (application # applications) d =
     (case normalize_path (cn_Path (ap_Candidate application)) of
        None \<Rightarrow> (Inl (PathInvalid (cn_Path (ap_Candidate application))), d)
      | Some normalized \<Rightarrow>
          if \<not> allowed_path normalized then (Inl (PathInvalid (cn_Path (ap_Candidate application))), d)
          else if tl_upper tools normalized \<in> set seen then (Inl (DuplicatePath normalized), d)
          else let application = application\<lparr>ap_Candidate := (ap_Candidate application)\<lparr>cn_Path := normalized\<rparr>\<rparr> in
            attempt_in (inspect_application tools application d) (\<lambda>(st, matched) d.
            attempt_in (if matched then (Inr \<lparr>ou_Status = status_candidate, ou_Path = normalized, ou_Artifact = []\<rparr>, d)
                        else attempt_in (write_artifact tools (ap_Finding application) (ap_Candidate application) d) (\<lambda>artifact d.
                             (Inr \<lparr>ou_Status = status_artifact, ou_Path = normalized, ou_Artifact = artifact\<rparr>, d))) (\<lambda>outcome d.
            attempt_in (inspect_all tools (tl_upper tools normalized # seen) applications d) (\<lambda>rest d.
            (Inr ((st, outcome) # rest), d)))))"

text \<open>One file of a rollback: it is put back unless it is no longer what was written.\<close>

definition rollback_one :: "application_state \<Rightarrow> tree \<Rightarrow> repair_error list \<times> tree" where
  "rollback_one st d =
     (case read_file (as_target st) d of
        (Inl e, d) \<Rightarrow>
          if e = NotExist \<and> \<not> as_existed st then ([], d)
          else ([RollbackFailed (cn_Path (as_candidate st)) e], d)
      | (Inr current, d) \<Rightarrow>
          if current \<noteq> cn_Content (as_candidate st) then ([RollbackRefused (cn_Path (as_candidate st))], d)
          else if as_existed st then
            (case atomic_write (cn_Path (as_candidate st)) (as_original st) (as_mode st) d of
               (Inl e, d) \<Rightarrow> ([RollbackFailed (cn_Path (as_candidate st)) e], d)
             | (Inr _, d) \<Rightarrow> ([], d))
          else
            (case remove_file (as_target st) d of
               (Inl e, d) \<Rightarrow> (if e = NotExist then [] else [RollbackFailed (cn_Path (as_candidate st)) e], d)
             | (Inr _, d) \<Rightarrow> ([], d)))"

fun rollback_reversed :: "application_state list \<Rightarrow> tree \<Rightarrow> repair_error list \<times> tree" where
  "rollback_reversed [] d = ([], d)"
| "rollback_reversed (st # sts) d =
     (let (errs, d) = rollback_one st d; (more, d) = rollback_reversed sts d in (errs @ more, d))"

definition rollback_applications :: "application_state list \<Rightarrow> tree \<Rightarrow> repair_error list \<times> tree" where
  "rollback_applications states d = rollback_reversed (rev states) d"

definition outcome_of :: "string \<Rightarrow> string \<Rightarrow> application_state \<Rightarrow> repair_outcome" where
  "outcome_of status artifact st = \<lparr>ou_Status = status, ou_Path = cn_Path (as_candidate st), ou_Artifact = artifact\<rparr>"

text \<open>The second loop; \<open>applied\<close> are the states before the one at hand.\<close>

fun apply_from ::
  "repair_tools \<Rightarrow> application_state list \<Rightarrow> application_state list \<Rightarrow> tree \<Rightarrow> (repair_outcome list \<times> repair_error list) \<times> tree" where
  "apply_from tools applied [] d = ((map (outcome_of status_applied []) applied, []), d)"
| "apply_from tools applied (st # sts) d =
     (let before = map (outcome_of status_candidate []) applied; after = map (outcome_of status_candidate []) sts in
      case matches_preimage tools (as_target st) (cn_PreimageSHA256 (as_candidate st)) d of
        (Inl e, d) \<Rightarrow>
          let (errs, d) = rollback_applications applied d
          in ((before @ outcome_of status_candidate [] st # after, e # errs), d)
      | (Inr False, d) \<Rightarrow>
          let (errs, d) = rollback_applications applied d
          in (case write_artifact tools (ap_Finding (as_application st)) (as_candidate st) d of
                (Inl e, d) \<Rightarrow> ((before @ outcome_of status_artifact [] st # after, errs @ [e]), d)
              | (Inr artifact, d) \<Rightarrow> ((before @ outcome_of status_artifact artifact st # after, errs), d))
      | (Inr True, d) \<Rightarrow>
          (case atomic_write (cn_Path (as_candidate st)) (cn_Content (as_candidate st)) (as_mode st) d of
             (Inl e, d) \<Rightarrow>
               let (errs, d) = rollback_applications applied d
               in ((before @ outcome_of status_candidate [] st # after, [ApplyFailed (cn_Path (as_candidate st)) (e # errs)]), d)
           | (Inr _, d) \<Rightarrow> apply_from tools (applied @ [st]) sts d))"

definition apply_candidates ::
  "repair_tools \<Rightarrow> repair_application list \<Rightarrow> tree \<Rightarrow> (repair_outcome list \<times> repair_error list) \<times> tree" where
  "apply_candidates tools applications d =
     (case inspect_all tools [] applications d of
        (Inl e, d) \<Rightarrow> (([], [e]), d)
      | (Inr inspected, d) \<Rightarrow>
          if list_ex (\<lambda>(_, outcome). ou_Status outcome = status_artifact) inspected then ((map snd inspected, []), d)
          else apply_from tools [] (map fst inspected) d)"

definition apply_candidate :: "repair_tools \<Rightarrow> finding \<Rightarrow> candidate \<Rightarrow> tree \<Rightarrow> (repair_error list + repair_outcome) \<times> tree" where
  "apply_candidate tools finding candidate d =
     (let ((outcomes, errs), d) = apply_candidates tools [\<lparr>ap_Finding = finding, ap_Candidate = candidate\<rparr>] d
      in (if errs \<noteq> [] then Inl errs else Inr (hd outcomes), d))"

definition validate_and_apply ::
  "repair_tools \<Rightarrow> 'v validator option \<Rightarrow> finding \<Rightarrow> candidate \<Rightarrow> 'v \<times> tree \<Rightarrow> (repair_error list + repair_outcome) \<times> 'v \<times> tree" where
  "validate_and_apply tools validator finding candidate state =
     (case validate_candidate validator finding candidate state of
        (Inl e, state) \<Rightarrow> (Inl [e], state)
      | (Inr validated, v, d) \<Rightarrow> (let (r, d) = apply_candidate tools finding validated d in (r, v, d)))"

section \<open>Stored candidates\<close>

record candidate_record =
  cr_ID :: string
  cr_Snapshot :: string
  cr_Finding :: finding
  cr_Candidate :: candidate
  cr_Validation :: string

text \<open>JSON of a record with its version; \<open>cc_decode\<close> also refuses unknown fields and trailing data.\<close>

record candidate_codec =
  cc_encode :: "string \<Rightarrow> candidate_record \<Rightarrow> string + string"
  cc_decode :: "string \<Rightarrow> string + string \<times> candidate_record"

definition candidate_version :: string where "candidate_version = ''repair-candidate-v1''"
definition candidate_limit :: int where "candidate_limit = 8 * 2 ^ 20"

definition safe_candidate_id :: "string \<Rightarrow> bool" where
  "safe_candidate_id i \<longleftrightarrow>
     length i = 16 \<and> list_all (\<lambda>c. (CHR ''0'' \<le> c \<and> c \<le> CHR ''9'') \<or> (CHR ''a'' \<le> c \<and> c \<le> CHR ''f'')) i"

definition candidate_path :: "string \<Rightarrow> string" where
  "candidate_path i = ''.goatest/candidates/'' @ i @ ''.json''"

definition store_candidate :: "candidate_codec \<Rightarrow> candidate_record \<Rightarrow> tree \<Rightarrow> (repair_error + string) \<times> tree" where
  "store_candidate codec item d =
     (if \<not> safe_candidate_id (cr_ID item) \<or> f_ID (cr_Finding item) = [] \<or> cn_Path (cr_Candidate item) = [] then (Inl RecordInvalid, d)
      else case cc_encode codec candidate_version item of
        Inl e \<Rightarrow> (Inl (EncodeFailed e), d)
      | Inr text \<Rightarrow>
          let payload = text @ [CHR 0x0A]; relative = candidate_path (cr_ID item) in
          if candidate_limit < int (length payload) then (Inl RecordTooLarge, d)
          else attempt_in (confined_path relative d) (\<lambda>target d.
            case read_file target d of
              (Inr existing, d) \<Rightarrow> (if existing = payload then Inr relative else Inl (RecordDiffers (cr_ID item)), d)
            | (Inl e, d) \<Rightarrow>
                if e \<noteq> NotExist then (Inl e, d)
                else attempt_in (atomic_write relative payload private_file d) (\<lambda>_ d. (Inr relative, d))))"

definition load_candidate :: "candidate_codec \<Rightarrow> string \<Rightarrow> tree \<Rightarrow> (repair_error + candidate_record) \<times> tree" where
  "load_candidate codec i d =
     (if \<not> safe_candidate_id i then (Inl (CandidateIDInvalid i), d)
      else case read_file (split_on (CHR ''/'') (candidate_path i)) d of
        (Inl e, d) \<Rightarrow> (Inl (CandidateUnread i e), d)
      | (Inr content, d) \<Rightarrow>
          (require (int (length content) \<le> candidate_limit) RecordTooLarge
           (case cc_decode codec content of
              Inl e \<Rightarrow> Inl (CandidateUndecoded e)
            | Inr (version, item) \<Rightarrow>
                require (version = candidate_version \<and> cr_ID item = i \<and> f_ID (cr_Finding item) \<noteq> [] \<and>
                  cn_Path (cr_Candidate item) \<noteq> [] \<and> cn_Kind (cr_Candidate item) \<in> {''patch'', ''corpus''}) CandidateMismatch
                (Inr item)), d))"

text \<open>\<open>entries\<close> is the directory: the names with whether each is a directory.\<close>

fun load_listed :: "candidate_codec \<Rightarrow> (string \<times> bool) list \<Rightarrow> tree \<Rightarrow> (repair_error + candidate_record list) \<times> tree" where
  "load_listed codec [] d = (Inr [], d)"
| "load_listed codec ((name, directory) # entries) d =
     (if directory \<or> \<not> has_suffix name ''.json'' then load_listed codec entries d
      else let i = trim_suffix name ''.json'' in
        if \<not> safe_candidate_id i then (Inl (UnsafeCandidateFile name), d)
        else attempt_in (load_candidate codec i d) (\<lambda>item d.
             attempt_in (load_listed codec entries d) (\<lambda>items d. (Inr (item # items), d))))"

definition list_candidates ::
  "candidate_codec \<Rightarrow> repair_error + (string \<times> bool) list \<Rightarrow> tree \<Rightarrow> (repair_error + candidate_record list) \<times> tree" where
  "list_candidates codec entries d =
     (case entries of
        Inl e \<Rightarrow> (if e = NotExist then Inr [] else Inl (CandidatesUnread e), d)
      | Inr names \<Rightarrow>
          attempt_in (load_listed codec names d) (\<lambda>items d.
          (Inr (sort_func (\<lambda>a b. cmp_compare (cr_ID a) (cr_ID b)) items), d)))"

definition current_content :: "string \<Rightarrow> tree \<Rightarrow> (repair_error + string option) \<times> tree" where
  "current_content path d =
     (case normalize_path path of
        None \<Rightarrow> (Inl (PathInvalid path), d)
      | Some normalized \<Rightarrow>
          if \<not> allowed_path normalized then (Inl (PathInvalid path), d)
          else attempt_in (confined_path normalized d) (\<lambda>target d.
            case read_file target d of
              (Inr content, d) \<Rightarrow> (Inr (Some content), d)
            | (Inl e, d) \<Rightarrow> (if e = NotExist then Inr None else Inl e, d)))"

end
