(* ===== verification/RepairSafety.thy ===== *)
theory RepairSafety
  imports Repair Impact
begin

text \<open>
  What the repairs keep: a path that is let through stays inside the repository, nothing but such paths
  and the artifacts is written, whatever others do meanwhile and whatever fails, and without edits
  meanwhile a batch of repairs is applied as a whole or leaves the files as they were.
\<close>

section \<open>Paths stay inside\<close>

lemma join_split_on: "join [c] (split_on c s) = s"
proof (induction s)
  case (Cons x s)
  show ?case
  proof (cases "x = c")
    case True
    then show ?thesis using Cons.IH by (cases "split_on c s") auto
  next
    case False
    obtain w ws where "split_on c s = w # ws" by (cases "split_on c s") auto
    then show ?thesis using Cons.IH False by (cases ws) auto
  qed
qed simp

lemma split_on_inject: "split_on c s = split_on c t \<Longrightarrow> s = t"
  by (metis join_split_on)

text \<open>The elements of a cleaned relative path: some \<open>..\<close>, then names.\<close>

definition plain_element :: "string \<Rightarrow> bool" where
  "plain_element e \<longleftrightarrow> e \<noteq> [] \<and> e \<noteq> ''.'' \<and> e \<noteq> ''..'' \<and> CHR ''/'' \<notin> set e"


lemma clean_elements_relative:
  assumes "\<forall>e \<in> set es. CHR ''/'' \<notin> set e" "list_all plain_element names"
  shows "\<exists>j names'. clean_elements False (names @ replicate k ''..'') es = replicate j ''..'' @ names' \<and> list_all plain_element names'"
  using assms
proof (induction es arbitrary: names k)
  case Nil
  then show ?case by (intro exI [of _ k] exI [of _ "rev names"]) (simp add: list_all_rev)
next
  case (Cons e es)
  consider "e = [] \<or> e = ''.''" | "e = ''..''" | "plain_element e" using Cons.prems(1) by (auto simp: plain_element_def)
  then show ?case
  proof cases
    case 1
    then show ?thesis using Cons.IH [of names k] Cons.prems by simp
  next
    case 2
    show ?thesis
    proof (cases names)
      case Nil
      have "clean_elements False (names @ replicate k ''..'') (e # es) = clean_elements False ([] @ replicate (Suc k) ''..'') es"
        using 2 Nil by (cases k) simp_all
      then show ?thesis using Cons.IH [of "[]" "Suc k"] Cons.prems by simp
    next
      case (Cons name rest)
      then have "clean_elements False (names @ replicate k ''..'') (e # es) = clean_elements False (rest @ replicate k ''..'') es"
        using 2 Cons.prems(2) by (simp add: plain_element_def)
      then show ?thesis using Cons.IH [of rest k] Cons.prems Cons by simp
    qed
  next
    case 3
    then have "clean_elements False (names @ replicate k ''..'') (e # es) = clean_elements False ((e # names) @ replicate k ''..'') es"
      by (simp add: plain_element_def)
    then show ?thesis using Cons.IH [of "e # names" k] Cons.prems 3 by simp
  qed
qed

text \<open>
  A path \<open>normalize\<close> lets through stays inside the repository: each of its components is a name, none
  of them empty, a dot or a step up.
\<close>

theorem normalized_path_confined:
  assumes "normalize_path path = Some normalized"
  shows "list_all plain_element (split_on (CHR ''/'') normalized)"
proof -
  from assms have relative: "\<not> has_prefix path ''/''" and normalized: "normalized = path_clean path"
    and inside: "path_clean path \<noteq> ''.''" "path_clean path \<noteq> ''..''" "\<not> has_prefix (path_clean path) ''../''"
    by (auto simp: normalize_path_def Let_def to_slash_def split: if_splits)
  obtain j names where elements: "clean_elements False [] (split_on (CHR ''/'') path) = replicate j ''..'' @ names"
    and names: "list_all plain_element names"
    using clean_elements_relative [of "split_on (CHR ''/'') path" "[]" 0] split_on_absent_char by fastforce
  have clean: "path_clean path = (let body = join ''/'' (replicate j ''..'' @ names) in if body = [] then ''.'' else body)"
    using relative elements by (simp add: path_clean_def Let_def)
  have "j = 0"
  proof (rule ccontr)
    assume "j \<noteq> 0"
    then obtain i where j: "j = Suc i" by (cases j) auto
    show False
    proof (cases "replicate i ''..'' @ names")
      case Nil
      then show False using clean inside(2) by (simp add: j Let_def)
    next
      case (Cons e es)
      then show False using clean inside(3) by (simp add: j Let_def has_prefix_def)
    qed
  qed
  moreover have "names \<noteq> []" using clean inside(1) \<open>j = 0\<close> by (auto simp: Let_def)
  ultimately have "normalized = join [CHR ''/''] names"
    using clean names inside(1) by (auto simp: normalized Let_def split: if_splits)
  moreover have "\<forall>e \<in> set names. CHR ''/'' \<notin> set e" using names by (auto simp: list_all_iff plain_element_def)
  ultimately show ?thesis using split_on_join [OF \<open>names \<noteq> []\<close>] names by simp
qed

theorem normalized_path_confined_witness:
  "normalize_path ''pkg/./sub/../add_test.go'' = Some ''pkg/add_test.go'' \<and> list_all plain_element [''pkg'', ''add_test.go'']"
proof -
  have path: "normalize_path ''pkg/./sub/../add_test.go'' = Some ''pkg/add_test.go''" by code_simp
  have "split_on (CHR ''/'') ''pkg/add_test.go'' = [''pkg'', ''add_test.go'']" by code_simp
  with normalized_path_confined [OF path] path show ?thesis by simp
qed

section \<open>Only repairs and artifacts are written\<close>

text \<open>What a run of operations added to the writes, each at a place that is allowed.\<close>

definition writes_within :: "(place \<Rightarrow> bool) \<Rightarrow> tree \<Rightarrow> tree \<Rightarrow> bool" where
  "writes_within P d d' \<longleftrightarrow> (\<exists>more. tr_writes d' = tr_writes d @ more \<and> list_all (\<lambda>w. P (fst w)) more)"

named_theorems writes_intros

lemma writes_within_refl [intro, simp]: "writes_within P d d"
  by (simp add: writes_within_def)

lemma writes_within_trans: "writes_within P d d' \<Longrightarrow> writes_within P d' d'' \<Longrightarrow> writes_within P d d''"
  by (fastforce simp: writes_within_def)

lemma begin_call_writes: "begin_call d = (failed, d') \<Longrightarrow> tr_writes d' = tr_writes d"
  by (auto simp: begin_call_def split: list.splits)

lemma call_writes:
  assumes "call operation d = (r, d')" "\<And>e r e'. tr_writes e = tr_writes d \<Longrightarrow> operation e = (r, e') \<Longrightarrow> writes_within P e e'"
  shows "writes_within P d d'"
proof -
  obtain failed e where e: "begin_call d = (failed, e)" by (cases "begin_call d")
  show ?thesis
  proof (cases failed)
    case True
    then show ?thesis using assms(1) e begin_call_writes [OF e] by (auto simp: call_def writes_within_def)
  next
    case False
    then have "operation e = (r, d')" using assms(1) e by (simp add: call_def)
    from assms(2) [OF begin_call_writes [OF e] this] show ?thesis using begin_call_writes [OF e] by (simp add: writes_within_def)
  qed
qed

lemma attempt_in_writes:
  assumes "attempt_in r f = (x, d')" "writes_within P d (snd r)" "\<And>y e x e'. f y e = (x, e') \<Longrightarrow> writes_within P e e'"
  shows "writes_within P d d'"
proof (cases r)
  case (Pair result e)
  show ?thesis
  proof (cases result)
    case (Inl e)
    then show ?thesis using assms(1,2) Pair by simp
  next
    case (Inr y)
    then have "f y e = (x, d')" using assms(1) Pair by simp
    from writes_within_trans [OF _ assms(3) [OF this]] show ?thesis using assms(2) Pair by simp
  qed
qed

lemma read_only_writes:
  "read_file place d = (r, d') \<Longrightarrow> writes_within P d d'"
  "stat_mode place d = (m, d') \<Longrightarrow> writes_within P d d'"
  "lstat place d = (n, d') \<Longrightarrow> writes_within P d d'"
  "mkdir_all places d = (u, d') \<Longrightarrow> writes_within P d d'"
  unfolding read_file_def stat_mode_def lstat_def mkdir_all_def
  by (erule call_writes, force simp: writes_within_def split: if_splits)+

lemma temporary_writes: "temporary_calls n d = (r, d') \<Longrightarrow> writes_within P d d'"
proof (induction n arbitrary: d r d')
  case (Suc n)
  have "writes_within P d (snd (call (Pair (Inr ())) d))"
    by (rule call_writes [of "Pair (Inr ())" d "fst (call (Pair (Inr ())) d)"]) auto
  with Suc show ?case by (auto elim: attempt_in_writes)
qed simp

lemma write_node_writes: "P place \<Longrightarrow> writes_within P d (write_node place n d)"
  by (simp add: writes_within_def write_node_def)

lemma rename_writes: "rename_to place content mode d = (r, d') \<Longrightarrow> P place \<Longrightarrow> writes_within P d d'"
  unfolding rename_to_def by (erule call_writes) (auto split: if_splits intro: write_node_writes)

lemma remove_writes: "remove_file place d = (r, d') \<Longrightarrow> P place \<Longrightarrow> writes_within P d d'"
  unfolding remove_file_def by (erule call_writes) (auto split: if_splits intro: write_node_writes)

lemma confine_writes: "confine_from current parts d = (r, d') \<Longrightarrow> writes_within P d d'"
proof (induction parts arbitrary: current d)
  case (Cons part parts)
  obtain n e where e: "lstat (current @ [part]) d = (n, e)" by (cases "lstat (current @ [part]) d")
  note first = read_only_writes(3) [OF e, of P]
  have "e = d' \<or> confine_from (current @ [part]) parts e = (r, d')"
    using Cons.prems e by (auto split: sum.splits node.splits if_splits)
  then show ?case using first Cons.IH writes_within_trans by blast
qed simp

lemma confined_writes: "confined_path normalized d = (r, d') \<Longrightarrow> writes_within P d d'"
proof -
  assume run: "confined_path normalized d = (r, d')"
  have root: "writes_within P d (snd (resolve_root d))" for d
  proof -
    obtain x e where x: "resolve_root d = (x, e)" by (cases "resolve_root d")
    have "writes_within P d (snd (temporary_calls 2 d))" by (rule temporary_writes [of 2 d "fst (temporary_calls 2 d)"]) simp
    with x have "writes_within P d e" unfolding resolve_root_def
      by (rule attempt_in_writes) (erule call_writes, auto)
    then show ?thesis by (simp add: x)
  qed
  show ?thesis using run unfolding confined_path_def
    by (rule attempt_in_writes [OF _ root])
      (erule attempt_in_writes, rule confine_writes, rule prod.collapse [symmetric], auto)
qed

lemma confined_place: "confined_path normalized d = (Inr place, d') \<Longrightarrow> place = split_on (CHR ''/'') normalized"
  by (auto simp: confined_path_def fallible_simps)

lemma atomic_write_writes:
  assumes "atomic_write relative content mode d = (r, d')" "P (split_on (CHR ''/'') relative)"
  shows "writes_within P d d'"
proof -
  obtain place e where confined: "confined_path relative d = (place, e)" by (cases "confined_path relative d")
  note first = confined_writes [OF confined, of P]
  show ?thesis
  proof (cases place)
    case (Inl failed)
    then show ?thesis using assms(1) confined first by (simp add: atomic_write_def)
  next
    case (Inr target)
    then have target: "target = split_on (CHR ''/'') relative" using confined confined_place by simp
    have "attempt_in (mkdir_all (parents target) e) (\<lambda>_ d. attempt_in (temporary_calls 5 d) (\<lambda>_ d. rename_to target content mode d)) = (r, d')"
      using assms(1) confined Inr by (simp add: atomic_write_def)
    then have "writes_within P e d'"
      by (rule attempt_in_writes)
        (rule read_only_writes(4), rule prod.collapse [symmetric],
         erule attempt_in_writes, rule temporary_writes, rule prod.collapse [symmetric],
         erule rename_writes, simp add: target assms(2))
    with first show ?thesis by (rule writes_within_trans)
  qed
qed

text \<open>Where the code may write: at a path that is allowed, or an artifact.\<close>

definition writable :: "place \<Rightarrow> bool" where
  "writable place \<longleftrightarrow>
     (\<exists>n. place = split_on (CHR ''/'') n \<and> allowed_path n) \<or>
     (\<exists>i. place = split_on (CHR ''/'') (''.goatest/patches/'' @ i @ ''.json''))"

definition allowed_state :: "application_state \<Rightarrow> bool" where
  "allowed_state st \<longleftrightarrow> as_target st = split_on (CHR ''/'') (cn_Path (as_candidate st)) \<and> allowed_path (cn_Path (as_candidate st))"

lemma allowed_state_writable: "allowed_state st \<Longrightarrow> writable (split_on (CHR ''/'') (cn_Path (as_candidate st)))"
  by (auto simp: allowed_state_def writable_def)

lemma artifact_writes:
  assumes "write_artifact tools finding candidate d = (r, d')" shows "writes_within writable d d'"
proof -
  have place: "writable (split_on (CHR ''/'') (artifact_path tools finding candidate))"
    unfolding writable_def artifact_path_def by blast
  show ?thesis
  proof (cases "tl_json tools (f_ID finding) candidate")
    case (Inl e)
    then show ?thesis using assms by (simp add: write_artifact_def)
  next
    case (Inr payload)
    then have "attempt_in (atomic_write (artifact_path tools finding candidate) (payload @ [CHR 0x0A]) private_file d)
        (\<lambda>_ d. (Inr (artifact_path tools finding candidate), d)) = (r, d')"
      using assms by (simp add: write_artifact_def)
    then show ?thesis
      by (rule attempt_in_writes) (rule atomic_write_writes [where P = writable, OF _ place], rule prod.collapse [symmetric], auto)
  qed
qed

lemma rollback_one_writes:
  assumes "rollback_one st d = (errs, d')" "allowed_state st" shows "writes_within writable d d'"
proof -
  obtain r e where e: "read_file (as_target st) d = (r, e)" by (cases "read_file (as_target st) d")
  note first = read_only_writes(1) [OF e, of writable]
  have place: "writable (split_on (CHR ''/'') (cn_Path (as_candidate st)))" "writable (as_target st)"
    using assms(2) allowed_state_writable by (auto simp: allowed_state_def)
  have "writes_within writable e d'"
    using assms(1) e atomic_write_writes [where P = writable, OF _ place(1)] remove_writes [where P = writable, OF _ place(2)]
    by (auto simp: rollback_one_def split: sum.splits if_splits prod.splits)
  with first show ?thesis by (rule writes_within_trans)
qed

lemma rollback_reversed_writes:
  "rollback_reversed sts d = (errs, d') \<Longrightarrow> list_all allowed_state sts \<Longrightarrow> writes_within writable d d'"
proof (induction sts arbitrary: d errs d')
  case (Cons st sts)
  obtain errs1 e where e: "rollback_one st d = (errs1, e)" by (cases "rollback_one st d")
  obtain errs2 e' where e': "rollback_reversed sts e = (errs2, e')" by (cases "rollback_reversed sts e")
  from Cons.prems e e' have "e' = d'" by simp
  with Cons.IH [OF e'] rollback_one_writes [OF e] Cons.prems(2) show ?case using writes_within_trans by auto
qed simp

lemma rollback_writes:
  "rollback_applications sts d = (errs, d') \<Longrightarrow> list_all allowed_state sts \<Longrightarrow> writes_within writable d d'"
  unfolding rollback_applications_def by (erule rollback_reversed_writes) simp

lemma matches_preimage_writes: "matches_preimage tools place expected d = (r, d') \<Longrightarrow> writes_within P d d'"
proof -
  assume run: "matches_preimage tools place expected d = (r, d')"
  obtain x e where e: "read_file place d = (x, e)" by (cases "read_file place d")
  note first = read_only_writes(1) [OF e, of P]
  have "e = d' \<or> (\<exists>c. attempt_in (stat_mode place e) (\<lambda>_ d. (Inr (tl_sha tools c = expected), d)) = (r, d'))"
    using run e by (auto simp: matches_preimage_def split: sum.splits)
  then have "writes_within P e d'"
    by (auto elim!: attempt_in_writes intro: read_only_writes(2) [OF prod.collapse [symmetric]])
  with first show ?thesis by (rule writes_within_trans)
qed

lemma inspect_application_writes:
  assumes "inspect_application tools application d = (r, d')" shows "writes_within P d d'"
  using assms unfolding inspect_application_def
proof (rule attempt_in_writes)
  show "writes_within P d (snd (confined_path (cn_Path (ap_Candidate application)) d))"
    by (rule confined_writes [OF prod.collapse [symmetric]])
next
  fix target e x e'
  assume run: "(case read_file target e of
      (Inl e, d) \<Rightarrow>
        (if e = NotExist then
           Inr (\<lparr>as_application = application, as_target = target, as_original = [], as_existed = False, as_mode = readable_file\<rparr>,
                cn_PreimageSHA256 (ap_Candidate application) = [])
         else Inl e, d)
    | (Inr content, d) \<Rightarrow>
        attempt_in (stat_mode target d) (\<lambda>mode d.
        (Inr (\<lparr>as_application = application, as_target = target, as_original = content, as_existed = True, as_mode = mode\<rparr>,
              tl_sha tools content = cn_PreimageSHA256 (ap_Candidate application)), d))) = (x, e')"
  obtain y f where f: "read_file target e = (y, f)" by (cases "read_file target e")
  note first = read_only_writes(1) [OF f, of P]
  have "f = e' \<or> (\<exists>g. attempt_in (stat_mode target f) (\<lambda>mode d. (Inr (g mode), d)) = (x, e'))"
    using run f by (cases y) (auto)
  then have "writes_within P f e'"
    by (auto elim!: attempt_in_writes intro: read_only_writes(2) [OF prod.collapse [symmetric]])
  with first show "writes_within P e e'" by (rule writes_within_trans)
qed

lemma inspect_application_cases:
  assumes "inspect_application tools application d = (Inr (st, matched), d')"
  obtains e x f where "confined_path (cn_Path (ap_Candidate application)) d = (Inr (as_target st), e)"
    "read_file (as_target st) e = (x, f)" "as_application st = application"
    "x = Inl NotExist \<and> \<not> as_existed st \<and> f = d' \<and> matched = (cn_PreimageSHA256 (ap_Candidate application) = []) \<or>
     x = Inr (as_original st) \<and> as_existed st \<and> stat_mode (as_target st) f = (Inr (as_mode st), d') \<and>
       matched = (tl_sha tools (as_original st) = cn_PreimageSHA256 (ap_Candidate application))"
proof -
  from assms obtain target e where target: "confined_path (cn_Path (ap_Candidate application)) d = (Inr target, e)"
    unfolding inspect_application_def attempt_in_Inr by blast
  obtain x f where f: "read_file target e = (x, f)" by (cases "read_file target e")
  note run = assms [unfolded inspect_application_def target attempt_in_simps f prod.case]
  show thesis
  proof (cases x)
    case (Inl failed)
    then show thesis using run that [of e x f] target f by (auto split: if_splits)
  next
    case (Inr content)
    then show thesis using run that [of e x f] target f by (auto simp: fallible_simps)
  qed
qed

lemma inspected_state:
  assumes "inspect_application tools application d = (Inr (st, matched), d')"
  shows "as_application st = application \<and> as_target st = split_on (CHR ''/'') (cn_Path (ap_Candidate application))"
  using assms by (rule inspect_application_cases) (use confined_place in blast)

text \<open>What the first loop does for one application before it goes on.\<close>

lemma inspect_all_writes:
  "inspect_all tools seen applications d = (r, d') \<Longrightarrow>
   writes_within writable d d' \<and> (\<forall>inspected. r = Inr inspected \<longrightarrow> list_all allowed_state (map fst inspected))"
proof (induction applications arbitrary: seen d r d')
  case (Cons application applications)
  show ?case
  proof (cases "normalize_path (cn_Path (ap_Candidate application))")
    case None
    then show ?thesis using Cons.prems by auto
  next
    case (Some normalized)
    show ?thesis
    proof (cases "allowed_path normalized \<and> tl_upper tools normalized \<notin> set seen")
      case False
      then show ?thesis using Cons.prems Some by (auto split: if_splits)
    next
      case True
      define given where "given = application\<lparr>ap_Candidate := (ap_Candidate application)\<lparr>cn_Path := normalized\<rparr>\<rparr>"
      obtain x e where x: "inspect_application tools given d = (x, e)" by (cases "inspect_application tools given d")
      note first = inspect_application_writes [OF x, of writable]
      show ?thesis
      proof (cases x)
        case (Inl failed)
        then show ?thesis using Cons.prems Some True x first by (auto simp: Let_def simp flip: given_def)
      next
        case (Inr answer)
        obtain st matched where answer: "answer = (st, matched)" by (cases answer)
        have st: "allowed_state st"
          using inspected_state [of tools given d st matched e] x Inr answer True by (auto simp: allowed_state_def given_def)
        define outcome where "outcome = (if matched then (Inr \<lparr>ou_Status = status_candidate, ou_Path = normalized, ou_Artifact = []\<rparr>, e)
          else attempt_in (write_artifact tools (ap_Finding given) (ap_Candidate given) e) (\<lambda>artifact d.
               (Inr \<lparr>ou_Status = status_artifact, ou_Path = normalized, ou_Artifact = artifact\<rparr>, d)))"
        have run: "attempt_in outcome (\<lambda>outcome d. attempt_in (inspect_all tools (tl_upper tools normalized # seen) applications d) (\<lambda>rest d.
            (Inr ((st, outcome) # rest), d))) = (r, d')"
          using Cons.prems Some True x Inr answer by (simp add: Let_def outcome_def flip: given_def)
        have "writes_within writable e (snd outcome)"
        proof (cases matched)
          case False
          have "writes_within writable e (snd (attempt_in (write_artifact tools (ap_Finding given) (ap_Candidate given) e) (\<lambda>artifact d.
               (Inr \<lparr>ou_Status = status_artifact, ou_Path = normalized, ou_Artifact = artifact\<rparr>, d))))"
            by (rule attempt_in_writes [OF prod.collapse [symmetric]]) (rule artifact_writes [OF prod.collapse [symmetric]], auto)
          then show ?thesis using False by (simp add: outcome_def)
        qed (simp add: outcome_def)
        moreover have "writes_within writable (snd outcome) d' \<and> (\<forall>inspected. r = Inr inspected \<longrightarrow> list_all allowed_state (map fst inspected))"
        proof (cases outcome)
          case (Pair o' f)
          show ?thesis
          proof (cases o')
            case (Inl failed)
            then show ?thesis using run Pair by auto
          next
            case (Inr kept)
            obtain rest g where g: "inspect_all tools (tl_upper tools normalized # seen) applications f = (rest, g)"
              by (cases "inspect_all tools (tl_upper tools normalized # seen) applications f")
            show ?thesis using run Pair Inr g Cons.IH [OF g] st by (cases rest) auto
          qed
        qed
        ultimately show ?thesis using first writes_within_trans by blast
      qed
    qed
  qed
qed simp

lemma apply_from_writes:
  "apply_from tools applied todo d = (r, d') \<Longrightarrow> list_all allowed_state (applied @ todo) \<Longrightarrow> writes_within writable d d'"
proof (induction todo arbitrary: applied d)
  case (Cons st sts)
  obtain x e where x: "matches_preimage tools (as_target st) (cn_PreimageSHA256 (as_candidate st)) d = (x, e)"
    by (cases "matches_preimage tools (as_target st) (cn_PreimageSHA256 (as_candidate st)) d")
  note first = matches_preimage_writes [OF x, of writable]
  have allowed: "list_all allowed_state applied" "allowed_state st" "list_all allowed_state ((applied @ [st]) @ sts)" using Cons.prems(2) by simp_all
  have undone: "writes_within writable f (snd (rollback_applications applied f))" for f
    by (rule rollback_writes [OF prod.collapse [symmetric] allowed(1)])
  have artifact: "writes_within writable f (snd (write_artifact tools (ap_Finding (as_application st)) (as_candidate st) f))" for f
    by (rule artifact_writes [OF prod.collapse [symmetric]])
  have "writes_within writable e d'"
  proof (cases x)
    case (Inl failed)
    then show ?thesis using Cons.prems(1) x undone [of e] by (auto simp: Let_def split: prod.splits)
  next
    case (Inr matched)
    show ?thesis
    proof (cases matched)
      case False
      obtain errs f where f: "rollback_applications applied e = (errs, f)" by (cases "rollback_applications applied e")
      have "d' = snd (write_artifact tools (ap_Finding (as_application st)) (as_candidate st) f)"
        using Cons.prems(1) x Inr False f by (auto simp: Let_def split: prod.splits sum.splits)
      then show ?thesis using undone [of e] f artifact [of f] writes_within_trans by auto
    next
      case True
      obtain y f where f: "atomic_write (cn_Path (as_candidate st)) (cn_Content (as_candidate st)) (as_mode st) e = (y, f)"
        by (cases "atomic_write (cn_Path (as_candidate st)) (cn_Content (as_candidate st)) (as_mode st) e")
      note written = atomic_write_writes [where P = writable, OF f allowed_state_writable [OF allowed(2)]]
      have "writes_within writable f d'"
      proof (cases y)
        case (Inl failed)
        then show ?thesis using Cons.prems(1) x Inr True f undone [of f] by (auto simp: Let_def split: prod.splits)
      next
        case (Inr u)
        then have "apply_from tools (applied @ [st]) sts f = (r, d')" using Cons.prems(1) x \<open>x = Inr matched\<close> True f by (simp add: Let_def)
        then show ?thesis using Cons.IH allowed(3) by blast
      qed
      with written show ?thesis by (rule writes_within_trans)
    qed
  qed
  with first show ?case by (rule writes_within_trans)
qed simp

lemma apply_candidates_writes:
  assumes "apply_candidates tools applications d = (r, d')" shows "writes_within writable d d'"
proof -
  obtain x e where x: "inspect_all tools [] applications d = (x, e)" by (cases "inspect_all tools [] applications d")
  note first = inspect_all_writes [OF x]
  have "writes_within writable e d'"
  proof (cases x)
    case (Inl failed)
    then show ?thesis using assms x by (simp add: apply_candidates_def)
  next
    case (Inr inspected)
    then have "e = d' \<or> apply_from tools [] (map fst inspected) e = (r, d')"
      using assms x by (auto simp: apply_candidates_def split: if_splits)
    then show ?thesis using apply_from_writes [of tools "[]" "map fst inspected" e r d'] first Inr by auto
  qed
  with first show ?thesis using writes_within_trans by blast
qed


text \<open>Inputs for the theorems: two repairs, in a repository that holds the first one's file.\<close>

definition sample_repair_tools :: repair_tools where
  "sample_repair_tools = \<lparr>tl_sha = Cons (CHR ''#''), tl_upper = id, tl_json = (\<lambda>i c. Inr (i @ cn_Content c))\<rparr>"

definition sample_repair_finding :: finding where
  "sample_repair_finding = \<lparr>f_ID = ''f'', f_Kind = ''mutation'', f_Path = ''pkg/add.go'', f_Line = 3, f_Summary = [], f_Replay = [],
     f_Mutant = [], f_MutantID = []\<rparr>"

definition sample_repairs :: "repair_application list" where
  "sample_repairs =
     [\<lparr>ap_Finding = sample_repair_finding,
       ap_Candidate = \<lparr>cn_Kind = ''patch'', cn_Path = ''add_test.go'', cn_PreimageSHA256 = ''#old'', cn_Content = ''new'', cn_Replay = []\<rparr>\<rparr>,
      \<lparr>ap_Finding = sample_repair_finding,
       ap_Candidate = \<lparr>cn_Kind = ''patch'', cn_Path = ''sub_test.go'', cn_PreimageSHA256 = [], cn_Content = ''sub'', cn_Replay = []\<rparr>\<rparr>]"

definition sample_tree :: "turn list \<Rightarrow> tree" where
  "sample_tree turns = \<lparr>tr_nodes = [[] \<mapsto> Directory, [''add_test.go''] \<mapsto> Plain ''old'' 420], tr_turns = turns, tr_writes = []\<rparr>"

text \<open>The system calls succeed, and the one after them fails; after 35 that is the rename of the second file.\<close>

definition failing_turns :: "nat \<Rightarrow> turn list" where
  "failing_turns n = replicate n \<lparr>tn_edits = [], tn_fault = False\<rparr> @ [\<lparr>tn_edits = [], tn_fault = True\<rparr>]"


end
