(* ===== verification/RepairAtomic.thy ===== *)
theory RepairAtomic
  imports RepairSafety
begin

text \<open>
  A batch of repairs is all or nothing: on files no one else edits, and whatever fails, \<open>ApplyCandidates\<close>
  leaves every candidate's content in place, or every file as it was, or says that a rollback failed.
\<close>

section \<open>A tree no one else edits\<close>

definition quiet :: "tree \<Rightarrow> bool" where
  "quiet d \<longleftrightarrow> list_all (\<lambda>t. tn_edits t = []) (tr_turns d)"

definition tree_ok :: "(place \<rightharpoonup> node) \<Rightarrow> bool" where
  "tree_ok nodes \<longleftrightarrow> (\<forall>p. nodes p \<noteq> None \<longrightarrow> (\<forall>q \<in> set (parents p). nodes q = Some Directory))"

text \<open>The files of a tree: what is not a directory.\<close>

definition files_at :: "(place \<rightharpoonup> node) \<Rightarrow> (place \<rightharpoonup> node)" where
  "files_at nodes p = (if nodes p = Some Directory then None else nodes p)"

text \<open>An operation that only reads: the nodes are the same after it.\<close>

definition unchanged :: "tree \<Rightarrow> tree \<Rightarrow> bool" where
  "unchanged d d' \<longleftrightarrow> tr_nodes d' = tr_nodes d \<and> (quiet d \<longrightarrow> quiet d')"

lemma unchanged_refl [simp, intro]: "unchanged d d"
  by (simp add: unchanged_def)

lemma begin_call_quiet: "quiet d \<Longrightarrow> begin_call d = (failed, d') \<Longrightarrow> quiet d' \<and> tr_nodes d' = tr_nodes d"
  by (auto simp: begin_call_def quiet_def split: list.splits)

lemma call_cases:
  assumes "call operation d = (r, d')" "quiet d"
  obtains "r = Inl SystemFault" "quiet d'" "tr_nodes d' = tr_nodes d"
    | e where "operation e = (r, d')" "quiet e" "tr_nodes e = tr_nodes d"
proof -
  obtain failed e where e: "begin_call d = (failed, e)" by (cases "begin_call d")
  show thesis using begin_call_quiet [OF assms(2) e] assms(1) e that by (cases failed) (auto simp: call_def)
qed

lemma read_file_quiet:
  assumes "read_file place d = (r, d')" "quiet d"
  shows "quiet d' \<and> tr_nodes d' = tr_nodes d"
    and "r = Inr content \<Longrightarrow> \<exists>mode. tr_nodes d place = Some (Plain content mode) \<or> tr_nodes d place = Some (Link (Some (content, mode)))"
    and "r = Inl NotExist \<Longrightarrow> tr_nodes d place = None \<or> tr_nodes d place = Some (Link None)"
  using assms unfolding read_file_def
  by (auto elim!: call_cases simp: node_content_def split: if_splits option.splits node.splits)

lemma stat_mode_quiet:
  assumes "stat_mode place d = (r, d')" "quiet d"
  shows "quiet d' \<and> tr_nodes d' = tr_nodes d"
    and "r = Inr m \<Longrightarrow> tr_nodes d place = Some (Plain content mode) \<Longrightarrow> m = mode"
  using assms unfolding stat_mode_def
  by (auto elim!: call_cases simp: node_content_def split: if_splits option.splits node.splits)

lemma lstat_quiet:
  assumes "lstat place d = (r, d')" "quiet d"
  shows "quiet d' \<and> tr_nodes d' = tr_nodes d"
    and "r = Inr n \<Longrightarrow> tr_nodes d place = Some n" "r = Inl NotExist \<Longrightarrow> tr_nodes d place = None"
  using assms unfolding lstat_def by (auto elim!: call_cases split: if_splits option.splits)

lemma temporary_quiet: "temporary_calls n d = (r, d') \<Longrightarrow> quiet d \<Longrightarrow> quiet d' \<and> tr_nodes d' = tr_nodes d"
proof (induction n arbitrary: d)
  case (Suc n)
  obtain x e where x: "call (Pair (Inr ())) d = (x, e)" by (cases "call (Pair (Inr ())) d")
  have e: "quiet e \<and> tr_nodes e = tr_nodes d" using x Suc.prems(2) by (auto elim: call_cases)
  then show ?case using Suc.prems(1) Suc.IH [of e] x by (cases x) auto
qed simp

section \<open>A confined path\<close>

lemma parents_Cons: "parts \<noteq> [] \<Longrightarrow> current @ [part] \<in> set (parents (current @ part # parts))"
  by (auto simp: parents_def neq_Nil_conv intro!: image_eqI [where x = "length current + 1"])

lemma confine_quiet:
  assumes "confine_from current parts d = (r, d')" "quiet d"
  shows "quiet d' \<and> tr_nodes d' = tr_nodes d"
  using assms
proof (induction parts arbitrary: current d)
  case (Cons part parts)
  obtain n e where e: "lstat (current @ [part]) d = (n, e)" by (cases "lstat (current @ [part]) d")
  have "e = d' \<or> confine_from (current @ [part]) parts e = (r, d')"
    using Cons.prems e by (auto split: sum.splits node.splits if_splits)
  then show ?case using lstat_quiet(1) [OF e Cons.prems(2)] Cons.IH [of "current @ [part]" e] by auto
qed simp

text \<open>No link is let through: the place holds nothing, a file, or a directory.\<close>

lemma confine_no_link:
  assumes "confine_from current parts d = (Inr (), d')" "quiet d" "tree_ok (tr_nodes d)" "parts \<noteq> []"
  shows "tr_nodes d (current @ parts) \<noteq> Some (Link target)"
  using assms
proof (induction parts arbitrary: current d)
  case (Cons part parts)
  obtain n e where e: "lstat (current @ [part]) d = (n, e)" by (cases "lstat (current @ [part]) d")
  note quiet = lstat_quiet [OF e Cons.prems(2)]
  show ?case
  proof (cases n)
    case (Inl failed)
    then have "failed = NotExist" using Cons.prems(1) e by (auto split: if_splits)
    then have missing: "tr_nodes d (current @ [part]) = None" using quiet(3) Inl by simp
    have "tr_nodes d (current @ part # parts) = None"
    proof (cases "parts = []")
      case False
      then show ?thesis using missing Cons.prems(3) parents_Cons [OF False, of current part] unfolding tree_ok_def by (metis option.distinct(1))
    qed (simp add: missing)
    then show ?thesis by simp
  next
    case (Inr m)
    then have node: "tr_nodes d (current @ [part]) = Some m" using quiet(2) by simp
    show ?thesis
    proof (cases m)
      case Directory
      then have rest: "confine_from (current @ [part]) parts e = (Inr (), d')" using Cons.prems(1) e Inr by simp
      show ?thesis
      proof (cases "parts = []")
        case True
        then show ?thesis using node Directory by simp
      next
        case False
        then show ?thesis using Cons.IH [OF rest] quiet(1) Cons.prems(3) by simp
      qed
    next
      case (Plain content mode)
      then show ?thesis using Cons.prems(1) e Inr node by (auto split: if_splits)
    next
      case (Link x)
      then show ?thesis using Cons.prems(1) e Inr by simp
    qed
  qed
qed simp

lemma resolve_root_quiet: "resolve_root d = (r, d') \<Longrightarrow> quiet d \<Longrightarrow> quiet d' \<and> tr_nodes d' = tr_nodes d"
proof -
  assume run: "resolve_root d = (r, d')" and "quiet d"
  obtain x e where x: "temporary_calls 2 d = (x, e)" by (cases "temporary_calls 2 d")
  note e = temporary_quiet [OF x \<open>quiet d\<close>]
  show ?thesis using run x e unfolding resolve_root_def by (cases x) (auto elim!: call_cases)
qed

lemma confined_quiet:
  assumes "confined_path normalized d = (r, d')" "quiet d"
  shows "quiet d' \<and> tr_nodes d' = tr_nodes d"
    and "tree_ok (tr_nodes d) \<Longrightarrow> r = Inr place \<Longrightarrow> tr_nodes d place \<noteq> Some (Link target)"
proof -
  obtain x e where x: "resolve_root d = (x, e)" by (cases "resolve_root d")
  note e = resolve_root_quiet [OF x assms(2)]
  obtain y f where y: "confine_from [] (split_on (CHR ''/'') normalized) e = (y, f)"
    by (cases "confine_from [] (split_on (CHR ''/'') normalized) e")
  note f = confine_quiet [OF y conjunct1 [OF e]]
  show "quiet d' \<and> tr_nodes d' = tr_nodes d"
    using assms(1) x y e f unfolding confined_path_def by (cases x; cases y) auto
  assume ok: "tree_ok (tr_nodes d)" and "r = Inr place"
  then have "y = Inr ()" "place = split_on (CHR ''/'') normalized"
    using assms(1) x y unfolding confined_path_def by (cases x; cases y; auto)+
  then show "tr_nodes d place \<noteq> Some (Link target)"
    using confine_no_link [of "[]" "split_on (CHR ''/'') normalized" e f target] y e ok by simp
qed

section \<open>Writing\<close>

lemma parents_of_parent: "q \<in> set (parents p) \<Longrightarrow> set (parents q) \<subseteq> set (parents p) \<and> q \<noteq> p"
  by (auto simp: parents_def min_def intro!: image_eqI)

text \<open>A node that is not a directory has nothing below it.\<close>

lemma nothing_below: "tree_ok nodes \<Longrightarrow> nodes place \<noteq> Some Directory \<Longrightarrow> nodes p \<noteq> None \<Longrightarrow> place \<notin> set (parents p)"
  by (auto simp: tree_ok_def)

lemma tree_ok_file:
  assumes "tree_ok nodes" "nodes place \<noteq> Some Directory" "\<forall>q \<in> set (parents place). nodes q = Some Directory"
  shows "tree_ok (nodes(place \<mapsto> n))"
  unfolding tree_ok_def
proof (intro allI impI ballI)
  fix p q assume p: "(nodes(place \<mapsto> n)) p \<noteq> None" and q: "q \<in> set (parents p)"
  show "(nodes(place \<mapsto> n)) q = Some Directory"
  proof (cases "p = place")
    case True
    then show ?thesis using q assms(3) parents_of_parent [OF q] by auto
  next
    case False
    then have "nodes p \<noteq> None" using p by simp
    then have "q \<noteq> place" "nodes q = Some Directory" using q assms(1,2) nothing_below unfolding tree_ok_def by blast+
    then show ?thesis by simp
  qed
qed

lemma tree_ok_removed:
  assumes "tree_ok nodes" "nodes place \<noteq> Some Directory" shows "tree_ok (nodes(place := None))"
  using assms nothing_below [OF assms] unfolding tree_ok_def by auto

lemma fold_directories:
  "fold (\<lambda>p nodes. nodes(p \<mapsto> Directory)) places nodes p = (if p \<in> set places then Some Directory else nodes p)"
  by (induction places arbitrary: nodes) auto

lemma mkdir_quiet:
  assumes "mkdir_all (parents place) d = (r, d')" "quiet d" "tree_ok (tr_nodes d)"
  shows "quiet d' \<and> tree_ok (tr_nodes d') \<and> files_at (tr_nodes d') = files_at (tr_nodes d)"
    and "tr_nodes d place = None \<Longrightarrow> tr_nodes d' place = None"
proof -
  have "quiet d' \<and> tree_ok (tr_nodes d') \<and> files_at (tr_nodes d') = files_at (tr_nodes d) \<and> (tr_nodes d place = None \<longrightarrow> tr_nodes d' place = None)"
    using assms(1,2) unfolding mkdir_all_def
  proof (rule call_cases)
    assume "r = Inl SystemFault" "quiet d'" "tr_nodes d' = tr_nodes d"
    then show ?thesis using assms(3) by simp
  next
    fix e assume run: "(if list_ex (\<lambda>p. tr_nodes e p \<noteq> None \<and> tr_nodes e p \<noteq> Some Directory) (parents place) then (Inl SystemFault, e)
        else (Inr (), e\<lparr>tr_nodes := fold (\<lambda>p nodes. nodes(p \<mapsto> Directory)) (parents place) (tr_nodes e)\<rparr>)) = (r, d')"
      and e: "quiet e" "tr_nodes e = tr_nodes d"
    show ?thesis
    proof (cases "list_ex (\<lambda>p. tr_nodes e p \<noteq> None \<and> tr_nodes e p \<noteq> Some Directory) (parents place)")
      case True
      then show ?thesis using run e assms(3) by simp
    next
      case False
      then have "tr_nodes d' = fold (\<lambda>p nodes. nodes(p \<mapsto> Directory)) (parents place) (tr_nodes d)" and "quiet d'"
        using run e by (auto simp: quiet_def)
      then have nodes: "tr_nodes d' p = (if p \<in> set (parents place) then Some Directory else tr_nodes d p)" for p
        by (simp add: fold_directories)
      have free: "p \<in> set (parents place) \<Longrightarrow> tr_nodes d p = None \<or> tr_nodes d p = Some Directory" for p
        using False e by (auto simp: list_ex_iff)
      have "tree_ok (tr_nodes d')" unfolding tree_ok_def
      proof (intro allI impI ballI)
        fix p q assume "tr_nodes d' p \<noteq> None" and q: "q \<in> set (parents p)"
        then show "tr_nodes d' q = Some Directory"
          using assms(3) parents_of_parent [of p place] unfolding nodes tree_ok_def by (metis subsetD)
      qed
      moreover have "files_at (tr_nodes d') = files_at (tr_nodes d)"
      proof
        fix p
        show "files_at (tr_nodes d') p = files_at (tr_nodes d) p" using free [of p] by (auto simp: files_at_def nodes)
      qed
      moreover have "place \<notin> set (parents place)" using parents_of_parent by blast
      ultimately show ?thesis using \<open>quiet d'\<close> nodes by simp
    qed
  qed
  then show "quiet d' \<and> tree_ok (tr_nodes d') \<and> files_at (tr_nodes d') = files_at (tr_nodes d)"
    "tr_nodes d place = None \<Longrightarrow> tr_nodes d' place = None" by blast+
qed

lemma rename_quiet:
  assumes "rename_to place content mode d = (r, d')" "quiet d" "tree_ok (tr_nodes d)"
  shows "quiet d' \<and> tree_ok (tr_nodes d')"
    and "files_at (tr_nodes d') = (if r = Inr () then (files_at (tr_nodes d))(place \<mapsto> Plain content mode) else files_at (tr_nodes d))"
proof -
  have "quiet d' \<and> tree_ok (tr_nodes d') \<and>
    files_at (tr_nodes d') = (if r = Inr () then (files_at (tr_nodes d))(place \<mapsto> Plain content mode) else files_at (tr_nodes d))"
    using assms(1,2) unfolding rename_to_def
  proof (rule call_cases)
    assume "r = Inl SystemFault" "quiet d'" "tr_nodes d' = tr_nodes d"
    then show ?thesis using assms(3) by simp
  next
    fix e assume run: "(if \<not> parents_present (tr_nodes e) place \<or> tr_nodes e place = Some Directory then (Inl SystemFault, e)
        else (Inr (), write_node place (Some (Plain content mode)) e)) = (r, d')"
      and e: "quiet e" "tr_nodes e = tr_nodes d"
    show ?thesis
    proof (cases "\<not> parents_present (tr_nodes e) place \<or> tr_nodes e place = Some Directory")
      case True
      then show ?thesis using run e assms(3) by auto
    next
      case False
      then have "tree_ok ((tr_nodes d)(place \<mapsto> Plain content mode))"
        using e assms(3) by (intro tree_ok_file) (auto simp: parents_present_def list_all_iff)
      moreover have "r = Inr ()" "quiet d'" "tr_nodes d' = (tr_nodes d)(place \<mapsto> Plain content mode)"
        using run False e by (auto simp: write_node_def quiet_def)
      moreover have "files_at ((tr_nodes d)(place \<mapsto> Plain content mode)) = (files_at (tr_nodes d))(place \<mapsto> Plain content mode)"
        by (auto simp: files_at_def fun_eq_iff)
      ultimately show ?thesis by simp
    qed
  qed
  then show "quiet d' \<and> tree_ok (tr_nodes d')"
    "files_at (tr_nodes d') = (if r = Inr () then (files_at (tr_nodes d))(place \<mapsto> Plain content mode) else files_at (tr_nodes d))" by blast+
qed

lemma remove_quiet:
  assumes "remove_file place d = (r, d')" "quiet d" "tree_ok (tr_nodes d)"
  shows "quiet d' \<and> tree_ok (tr_nodes d')"
    and "files_at (tr_nodes d') = (if r = Inr () then (files_at (tr_nodes d))(place := None) else files_at (tr_nodes d))"
    and "tr_nodes d place \<noteq> None \<Longrightarrow> r \<noteq> Inl NotExist"
proof -
  have "quiet d' \<and> tree_ok (tr_nodes d') \<and>
    files_at (tr_nodes d') = (if r = Inr () then (files_at (tr_nodes d))(place := None) else files_at (tr_nodes d)) \<and>
    (tr_nodes d place \<noteq> None \<longrightarrow> r \<noteq> Inl NotExist)"
    using assms(1,2) unfolding remove_file_def
  proof (rule call_cases)
    assume "r = Inl SystemFault" "quiet d'" "tr_nodes d' = tr_nodes d"
    then show ?thesis using assms(3) by simp
  next
    fix e assume run: "(if blocked (tr_nodes e) place \<or> tr_nodes e place = Some Directory then (Inl SystemFault, e)
        else if tr_nodes e place = None then (Inl NotExist, e) else (Inr (), write_node place None e)) = (r, d')"
      and e: "quiet e" "tr_nodes e = tr_nodes d"
    show ?thesis
    proof (cases "blocked (tr_nodes e) place \<or> tr_nodes e place = Some Directory \<or> tr_nodes e place = None")
      case True
      then show ?thesis using run e assms(3) by (auto split: if_splits)
    next
      case False
      then have "tree_ok ((tr_nodes d)(place := None))" using e assms(3) by (intro tree_ok_removed) auto
      moreover have "r = Inr ()" "quiet d'" "tr_nodes d' = (tr_nodes d)(place := None)"
        using run False e by (auto simp: write_node_def quiet_def)
      moreover have "files_at ((tr_nodes d)(place := None)) = (files_at (tr_nodes d))(place := None)"
        by (auto simp: files_at_def fun_eq_iff)
      ultimately show ?thesis by simp
    qed
  qed
  then show "quiet d' \<and> tree_ok (tr_nodes d')"
    "files_at (tr_nodes d') = (if r = Inr () then (files_at (tr_nodes d))(place := None) else files_at (tr_nodes d))"
    "tr_nodes d place \<noteq> None \<Longrightarrow> r \<noteq> Inl NotExist" by blast+
qed

text \<open>An atomic write leaves the file it names with the new content, or every file as it was.\<close>

lemma atomic_write_quiet:
  assumes "atomic_write relative content mode d = (r, d')" "quiet d" "tree_ok (tr_nodes d)"
  shows "quiet d' \<and> tree_ok (tr_nodes d')"
    and "files_at (tr_nodes d') =
      (if r = Inr () then (files_at (tr_nodes d))(split_on (CHR ''/'') relative \<mapsto> Plain content mode) else files_at (tr_nodes d))"
proof -
  obtain x e where x: "confined_path relative d = (x, e)" by (cases "confined_path relative d")
  note e = confined_quiet(1) [OF x assms(2)]
  have "quiet d' \<and> tree_ok (tr_nodes d') \<and> files_at (tr_nodes d') =
      (if r = Inr () then (files_at (tr_nodes d))(split_on (CHR ''/'') relative \<mapsto> Plain content mode) else files_at (tr_nodes d))"
  proof (cases x)
    case (Inl failed)
    then show ?thesis using assms x e by (auto simp: atomic_write_def)
  next
    case (Inr place)
    then have place: "place = split_on (CHR ''/'') relative" using x confined_place by simp
    obtain y f where y: "mkdir_all (parents place) e = (y, f)" by (cases "mkdir_all (parents place) e")
    have f: "quiet f \<and> tree_ok (tr_nodes f) \<and> files_at (tr_nodes f) = files_at (tr_nodes d)"
      using mkdir_quiet(1) [OF y] e assms(3) by simp
    show ?thesis
    proof (cases y)
      case (Inl failed)
      then show ?thesis using assms(1) x \<open>x = Inr place\<close> y f by (auto simp: atomic_write_def)
    next
      case u: (Inr u)
      obtain z g where z: "temporary_calls 5 f = (z, g)" by (cases "temporary_calls 5 f")
      note g = temporary_quiet [OF z conjunct1 [OF f]]
      show ?thesis
      proof (cases z)
        case (Inl failed)
        then show ?thesis using assms(1) x \<open>x = Inr place\<close> y u z f g by (auto simp: atomic_write_def)
      next
        case (Inr v)
        then have "rename_to place content mode g = (r, d')"
          using assms(1) x \<open>x = Inr place\<close> y u z by (simp add: atomic_write_def)
        from rename_quiet [OF this] show ?thesis using f g place by simp
      qed
    qed
  qed
  then show "quiet d' \<and> tree_ok (tr_nodes d')" "files_at (tr_nodes d') =
      (if r = Inr () then (files_at (tr_nodes d))(split_on (CHR ''/'') relative \<mapsto> Plain content mode) else files_at (tr_nodes d))" by blast+
qed

section \<open>Rolling back\<close>

fun rollback_error :: "repair_error \<Rightarrow> bool" where
  "rollback_error (RollbackFailed path e) = True"
| "rollback_error (RollbackRefused path) = True"
| "rollback_error (ApplyFailed path es) = list_ex rollback_error es"
| "rollback_error e = False"

definition original_node :: "application_state \<Rightarrow> node option" where
  "original_node st = (if as_existed st then Some (Plain (as_original st) (as_mode st)) else None)"

definition written_node :: "application_state \<Rightarrow> node option" where
  "written_node st = Some (Plain (cn_Content (as_candidate st)) (as_mode st))"

definition targeted :: "application_state \<Rightarrow> bool" where
  "targeted st \<longleftrightarrow> as_target st = split_on (CHR ''/'') (cn_Path (as_candidate st))"

definition set_nodes :: "(application_state \<Rightarrow> node option) \<Rightarrow> application_state list \<Rightarrow> (place \<rightharpoonup> node) \<Rightarrow> (place \<rightharpoonup> node)" where
  "set_nodes value_of sts files = fold (\<lambda>st files. files(as_target st := value_of st)) sts files"

lemma set_nodes_apply:
  assumes "distinct (map as_target sts)"
  shows "st \<in> set sts \<Longrightarrow> set_nodes value_of sts files (as_target st) = value_of st"
    and "p \<notin> as_target ` set sts \<Longrightarrow> set_nodes value_of sts files p = files p"
proof -
  have "(\<forall>st \<in> set sts. set_nodes value_of sts files (as_target st) = value_of st) \<and>
    (\<forall>p. p \<notin> as_target ` set sts \<longrightarrow> set_nodes value_of sts files p = files p)"
    using assms by (induction sts arbitrary: files) (auto simp: set_nodes_def)
  then show "st \<in> set sts \<Longrightarrow> set_nodes value_of sts files (as_target st) = value_of st"
    "p \<notin> as_target ` set sts \<Longrightarrow> set_nodes value_of sts files p = files p" by blast+
qed

lemma restored:
  assumes "distinct (map as_target sts)" "\<forall>st \<in> set sts. files (as_target st) = original_node st"
  shows "set_nodes original_node (rev sts) (set_nodes written_node sts files) = files"
proof
  fix p
  have rev: "distinct (map as_target (rev sts))" using assms(1) by (metis distinct_rev rev_map)
  show "set_nodes original_node (rev sts) (set_nodes written_node sts files) p = files p"
  proof (cases "p \<in> as_target ` set sts")
    case True
    then obtain st where "st \<in> set (rev sts)" "p = as_target st" by auto
    then show ?thesis using set_nodes_apply(1) [OF rev] assms(2) by simp
  next
    case False
    then show ?thesis using set_nodes_apply(2) [OF rev, of p] set_nodes_apply(2) [OF assms(1) False] by simp
  qed
qed

lemma files_at_Plain: "files_at nodes p = Some (Plain content mode) \<Longrightarrow> nodes p = Some (Plain content mode)"
  by (auto simp: files_at_def split: if_splits)

lemma rollback_one_quiet:
  assumes "rollback_one st d = (errs, d')" "quiet d" "tree_ok (tr_nodes d)" "targeted st"
    and "files_at (tr_nodes d) (as_target st) = written_node st"
  shows "quiet d' \<and> tree_ok (tr_nodes d')" "list_all rollback_error errs"
    and "errs = [] \<Longrightarrow> files_at (tr_nodes d') = (files_at (tr_nodes d))(as_target st := original_node st)"
proof -
  obtain x e where x: "read_file (as_target st) d = (x, e)" by (cases "read_file (as_target st) d")
  note e = read_file_quiet [OF x assms(2)]
  have node: "tr_nodes d (as_target st) = Some (Plain (cn_Content (as_candidate st)) (as_mode st))"
    using assms(5) by (rule files_at_Plain [OF trans]) (simp add: written_node_def)
  have here: "quiet e" "tree_ok (tr_nodes e)" "tr_nodes e = tr_nodes d" using e(1) assms(3) by simp_all
  have "quiet d' \<and> tree_ok (tr_nodes d') \<and> list_all rollback_error errs \<and>
    (errs = [] \<longrightarrow> files_at (tr_nodes d') = (files_at (tr_nodes d))(as_target st := original_node st))"
  proof (cases x)
    case (Inl failed)
    then have "failed \<noteq> NotExist" using e(3) node by auto
    then show ?thesis using assms(1) x Inl here by (auto simp: rollback_one_def)
  next
    case (Inr current)
    then have current: "current = cn_Content (as_candidate st)" using e(2) node by auto
    show ?thesis
    proof (cases "as_existed st")
      case True
      obtain y f where y: "atomic_write (cn_Path (as_candidate st)) (as_original st) (as_mode st) e = (y, f)"
        by (cases "atomic_write (cn_Path (as_candidate st)) (as_original st) (as_mode st) e")
      note f = atomic_write_quiet [OF y here(1,2)]
      show ?thesis using assms(1,4) x Inr current True y f here
        by (cases y) (auto simp: rollback_one_def original_node_def targeted_def)
    next
      case False
      obtain y f where y: "remove_file (as_target st) e = (y, f)" by (cases "remove_file (as_target st) e")
      note f = remove_quiet [OF y here(1,2)]
      show ?thesis using assms(1) x Inr current False y f here node
        by (cases y) (auto simp: rollback_one_def original_node_def)
    qed
  qed
  then show "quiet d' \<and> tree_ok (tr_nodes d')" "list_all rollback_error errs"
    "errs = [] \<Longrightarrow> files_at (tr_nodes d') = (files_at (tr_nodes d))(as_target st := original_node st)" by blast+
qed

lemma rollback_reversed_quiet:
  assumes "rollback_reversed sts d = (errs, d')" "quiet d" "tree_ok (tr_nodes d)" "\<forall>st \<in> set sts. targeted st"
    and "distinct (map as_target sts)" "\<forall>st \<in> set sts. files_at (tr_nodes d) (as_target st) = written_node st"
    and "errs = []"
  shows "quiet d' \<and> tree_ok (tr_nodes d') \<and> files_at (tr_nodes d') = set_nodes original_node sts (files_at (tr_nodes d))"
  using assms
proof (induction sts arbitrary: d)
  case Nil
  then show ?case by (simp add: set_nodes_def)
next
  case (Cons st sts)
  obtain errs1 e where x: "rollback_one st d = (errs1, e)" by (cases "rollback_one st d")
  obtain errs2 f where y: "rollback_reversed sts e = (errs2, f)" by (cases "rollback_reversed sts e")
  have empty: "errs1 = []" "errs2 = []" "f = d'" using Cons.prems(1,7) x y by simp_all
  note one = rollback_one_quiet [OF x Cons.prems(2,3)]
  have first: "quiet e \<and> tree_ok (tr_nodes e)" "files_at (tr_nodes e) = (files_at (tr_nodes d))(as_target st := original_node st)"
    using one(1,3) Cons.prems(4,6) empty(1) by simp_all
  have others: "\<forall>u \<in> set sts. files_at (tr_nodes e) (as_target u) = written_node u"
    using Cons.prems(5,6) by (auto simp: first(2)) (metis image_eqI)
  have "quiet d' \<and> tree_ok (tr_nodes d') \<and> files_at (tr_nodes d') = set_nodes original_node sts (files_at (tr_nodes e))"
    using Cons.IH [of e] y empty first(1) Cons.prems(4,5,7) others by simp
  then show ?case by (simp add: first(2) set_nodes_def)
qed

lemma rollback_errors:
  assumes "rollback_reversed sts d = (errs, d')"
  shows "list_all rollback_error errs"
proof -
  have one: "list_all rollback_error (fst (rollback_one st d))" for st d
    by (auto simp: rollback_one_def split: prod.split sum.split)
  show ?thesis using assms
  proof (induction sts arbitrary: d errs)
    case (Cons st sts)
    obtain errs1 e where x: "rollback_one st d = (errs1, e)" by (cases "rollback_one st d")
    obtain errs2 f where y: "rollback_reversed sts e = (errs2, f)" by (cases "rollback_reversed sts e")
    have "list_all rollback_error errs1" using one [of st d] x by simp
    moreover have "list_all rollback_error errs2" using Cons.IH [of e errs2] y Cons.prems x by simp
    ultimately show ?case using Cons.prems x y by auto
  qed simp
qed

text \<open>A rollback that reports nothing puts every file back.\<close>

lemma rollback_quiet:
  assumes "rollback_applications sts d = (errs, d')" "quiet d" "tree_ok (tr_nodes d)" "\<forall>st \<in> set sts. targeted st"
    and "distinct (map as_target sts)" "\<forall>st \<in> set sts. files (as_target st) = original_node st"
    and "files_at (tr_nodes d) = set_nodes written_node sts files"
  shows "list_ex rollback_error errs \<or> errs = [] \<and> quiet d' \<and> tree_ok (tr_nodes d') \<and> files_at (tr_nodes d') = files"
proof (cases errs)
  case Nil
  have rev: "distinct (map as_target (rev sts))" using assms(5) by (metis distinct_rev rev_map)
  have "\<forall>st \<in> set (rev sts). files_at (tr_nodes d) (as_target st) = written_node st"
    using set_nodes_apply(1) [OF assms(5)] assms(7) by simp
  with assms rev Nil have "quiet d' \<and> tree_ok (tr_nodes d') \<and> files_at (tr_nodes d') = set_nodes original_node (rev sts) (files_at (tr_nodes d))"
    unfolding rollback_applications_def by (intro rollback_reversed_quiet) simp_all
  then show ?thesis using restored [OF assms(5,6)] assms(7) Nil by simp
next
  case (Cons e es)
  then show ?thesis using rollback_errors [of "rev sts" d errs d'] assms(1) by (simp add: rollback_applications_def)
qed

section \<open>Applying\<close>

lemma matches_preimage_quiet:
  "matches_preimage tools place expected d = (r, d') \<Longrightarrow> quiet d \<Longrightarrow> quiet d' \<and> tr_nodes d' = tr_nodes d"
proof -
  assume run: "matches_preimage tools place expected d = (r, d')" and "quiet d"
  obtain x e where x: "read_file place d = (x, e)" by (cases "read_file place d")
  note e = read_file_quiet(1) [OF x \<open>quiet d\<close>]
  obtain y f where y: "stat_mode place e = (y, f)" by (cases "stat_mode place e")
  note f = stat_mode_quiet(1) [OF y conjunct1 [OF e]]
  show ?thesis using run x e y f by (cases x; cases y) (auto simp: matches_preimage_def)
qed

text \<open>Places outside the directory of goatest itself.\<close>

definition outside :: "place \<Rightarrow> bool" where
  "outside p \<longleftrightarrow> take 1 p \<noteq> [''.goatest'']"

definition same_outside :: "(place \<rightharpoonup> node) \<Rightarrow> (place \<rightharpoonup> node) \<Rightarrow> bool" where
  "same_outside files files' \<longleftrightarrow> (\<forall>p. outside p \<longrightarrow> files' p = files p)"

lemma same_outside_refl [simp]: "same_outside files files"
  by (simp add: same_outside_def)

lemma same_outside_trans: "same_outside a b \<Longrightarrow> same_outside b c \<Longrightarrow> same_outside a c"
  by (simp add: same_outside_def)

lemma artifact_quiet:
  assumes "write_artifact tools finding candidate d = (r, d')" "quiet d" "tree_ok (tr_nodes d)"
  shows "quiet d' \<and> tree_ok (tr_nodes d') \<and> same_outside (files_at (tr_nodes d)) (files_at (tr_nodes d'))"
proof (cases "tl_json tools (f_ID finding) candidate")
  case (Inl e)
  then show ?thesis using assms by (simp add: write_artifact_def)
next
  case (Inr payload)
  obtain x e where x: "atomic_write (artifact_path tools finding candidate) (payload @ [CHR 0x0A]) private_file d = (x, e)"
    by (cases "atomic_write (artifact_path tools finding candidate) (payload @ [CHR 0x0A]) private_file d")
  have "d' = e" using assms(1) Inr x by (cases x) (auto simp: write_artifact_def)
  moreover have "\<not> outside (split_on (CHR ''/'') (artifact_path tools finding candidate))"
  proof -
    have "split_on (CHR ''/'') (''.goatest'' @ CHR ''/'' # rest) = ''.goatest'' # split_on (CHR ''/'') rest" for rest
      by (rule split_on_append) simp
    from this [of "''patches/'' @ finding_id (tl_sha tools)
        [''repair-artifact'', f_ID finding, cn_Kind candidate, cn_Path candidate, cn_PreimageSHA256 candidate] @ ''.json''"]
    show ?thesis by (simp add: outside_def artifact_path_def)
  qed
  ultimately show ?thesis using atomic_write_quiet [OF x assms(2,3)] by (auto simp: same_outside_def)
qed

text \<open>The three ends of a batch.\<close>

definition all_applied :: "application_state list \<Rightarrow> (place \<rightharpoonup> node) \<Rightarrow> repair_outcome list \<times> repair_error list \<Rightarrow> (place \<rightharpoonup> node) \<Rightarrow> bool" where
  "all_applied sts files r files' \<longleftrightarrow>
     snd r = [] \<and> fst r = map (outcome_of status_applied []) sts \<and> files' = set_nodes written_node sts files"

definition none_applied :: "(place \<rightharpoonup> node) \<Rightarrow> repair_outcome list \<times> repair_error list \<Rightarrow> (place \<rightharpoonup> node) \<Rightarrow> bool" where
  "none_applied files r files' \<longleftrightarrow>
     list_all (\<lambda>outcome. ou_Status outcome \<noteq> status_applied) (fst r) \<and> same_outside files files'"

lemma status_distinct [simp]: "status_candidate \<noteq> status_applied" "status_artifact \<noteq> status_applied"
  by (simp_all add: status_candidate_def status_applied_def status_artifact_def)

lemma apply_from_quiet:
  assumes "apply_from tools applied todo d = (r, d')" "quiet d" "tree_ok (tr_nodes d)"
    and "\<forall>st \<in> set (applied @ todo). targeted st" "distinct (map as_target (applied @ todo))"
    and "\<forall>st \<in> set (applied @ todo). files (as_target st) = original_node st"
    and "files_at (tr_nodes d) = set_nodes written_node applied files"
  shows "all_applied (applied @ todo) files r (files_at (tr_nodes d')) \<or> none_applied files r (files_at (tr_nodes d')) \<or>
    list_ex rollback_error (snd r)"
  using assms
proof (induction todo arbitrary: applied d)
  case Nil
  then show ?case by (auto simp: all_applied_def)
next
  case (Cons st sts)
  obtain x e where x: "matches_preimage tools (as_target st) (cn_PreimageSHA256 (as_candidate st)) d = (x, e)"
    by (cases "matches_preimage tools (as_target st) (cn_PreimageSHA256 (as_candidate st)) d")
  have e: "quiet e" "tr_nodes e = tr_nodes d" using matches_preimage_quiet [OF x Cons.prems(2)] by simp_all
  have states: "\<forall>u \<in> set applied. targeted u" "distinct (map as_target applied)" "\<forall>u \<in> set applied. files (as_target u) = original_node u"
    using Cons.prems(4-6) by auto
  have undone: "list_ex rollback_error errs \<or> errs = [] \<and> quiet g \<and> tree_ok (tr_nodes g) \<and> files_at (tr_nodes g) = files"
    if "rollback_applications applied f = (errs, g)" "quiet f" "tree_ok (tr_nodes f)" "files_at (tr_nodes f) = files_at (tr_nodes d)" for f errs g
    using rollback_quiet [OF that(1-3) states] that(4) Cons.prems(7) by simp
  have statuses: "list_all (\<lambda>outcome. ou_Status outcome \<noteq> status_applied)
      (map (outcome_of status_candidate []) applied @ outcome_of s a st # map (outcome_of status_candidate []) sts)"
    if "s \<noteq> status_applied" for s a
    using that by (auto simp: list_all_iff outcome_of_def)
  show ?case
  proof (cases x)
    case (Inl failed)
    obtain errs f where f: "rollback_applications applied e = (errs, f)" by (cases "rollback_applications applied e")
    then have "d' = f" "snd r = failed # errs"
      "fst r = map (outcome_of status_candidate []) applied @ outcome_of status_candidate [] st # map (outcome_of status_candidate []) sts"
      using Cons.prems(1) x Inl by (auto simp: Let_def)
    then show ?thesis using undone [OF f e(1)] e(2) Cons.prems(3) statuses by (auto simp: none_applied_def)
  next
    case (Inr matched)
    show ?thesis
    proof (cases matched)
      case False
      obtain errs f where f: "rollback_applications applied e = (errs, f)" by (cases "rollback_applications applied e")
      obtain y g where g: "write_artifact tools (ap_Finding (as_application st)) (as_candidate st) f = (y, g)"
        by (cases "write_artifact tools (ap_Finding (as_application st)) (as_candidate st) f")
      have run: "d' = g" "\<exists>more. snd r = errs @ more" "\<exists>a. fst r = map (outcome_of status_candidate []) applied @
          outcome_of status_artifact a st # map (outcome_of status_candidate []) sts"
        using Cons.prems(1) x Inr False f g by (cases y; auto simp: Let_def)+
      from undone [OF f e(1)] e(2) Cons.prems(3) consider "list_ex rollback_error errs"
        | "errs = []" "quiet f" "tree_ok (tr_nodes f)" "files_at (tr_nodes f) = files" by auto
      then show ?thesis
      proof cases
        case 1
        then show ?thesis using run(2) by auto
      next
        case 2
        obtain a where a: "fst r = map (outcome_of status_candidate []) applied @
          outcome_of status_artifact a st # map (outcome_of status_candidate []) sts" using run(3) by blast
        have "list_all (\<lambda>outcome. ou_Status outcome \<noteq> status_applied) (fst r)"
          unfolding a by (rule statuses [OF status_distinct(2)])
        moreover have "same_outside files (files_at (tr_nodes d'))" using artifact_quiet [OF g 2(2,3)] run(1) 2(4) by simp
        ultimately have "none_applied files r (files_at (tr_nodes d'))" by (simp add: none_applied_def)
        then show ?thesis by blast
      qed
    next
      case True
      obtain y f where y: "atomic_write (cn_Path (as_candidate st)) (cn_Content (as_candidate st)) (as_mode st) e = (y, f)"
        by (cases "atomic_write (cn_Path (as_candidate st)) (cn_Content (as_candidate st)) (as_mode st) e")
      have f: "quiet f" "tree_ok (tr_nodes f)" "files_at (tr_nodes f) =
        (if y = Inr () then (files_at (tr_nodes d))(as_target st := written_node st) else files_at (tr_nodes d))"
        using atomic_write_quiet [OF y e(1)] e(2) Cons.prems(3,4) by (auto simp: targeted_def written_node_def)
      show ?thesis
      proof (cases y)
        case (Inl failed)
        obtain errs g where g: "rollback_applications applied f = (errs, g)" by (cases "rollback_applications applied f")
        have "d' = g" "snd r = [ApplyFailed (cn_Path (as_candidate st)) (failed # errs)]"
          "fst r = map (outcome_of status_candidate []) applied @ outcome_of status_candidate [] st # map (outcome_of status_candidate []) sts"
          using Cons.prems(1) x Inr True y Inl g by (auto simp: Let_def)
        then show ?thesis using undone [OF g f(1,2)] f(3) Inl statuses by (auto simp: none_applied_def)
      next
        case (Inr u)
        have "apply_from tools (applied @ [st]) sts f = (r, d')"
          using Cons.prems(1) x \<open>x = Inr matched\<close> True y Inr by (simp add: Let_def)
        moreover have "files_at (tr_nodes f) = set_nodes written_node (applied @ [st]) files"
          using f(3) Inr Cons.prems(7) by (simp add: set_nodes_def)
        ultimately show ?thesis using Cons.IH [of "applied @ [st]" f] f(1,2) Cons.prems(4-6) by simp
      qed
    qed
  qed
qed

section \<open>A batch\<close>

lemma inspect_application_quiet:
  assumes "inspect_application tools application d = (r, d')" "quiet d" "tree_ok (tr_nodes d)"
  shows "quiet d' \<and> tr_nodes d' = tr_nodes d"
    and "r = Inr (st, matched) \<Longrightarrow> files_at (tr_nodes d) (as_target st) = original_node st"
proof -
  obtain x e where x: "confined_path (cn_Path (ap_Candidate application)) d = (x, e)" by (cases "confined_path (cn_Path (ap_Candidate application)) d")
  note e = confined_quiet [OF x assms(2)]
  have both: "quiet d' \<and> tr_nodes d' = tr_nodes d \<and> (\<forall>st matched. r = Inr (st, matched) \<longrightarrow> files_at (tr_nodes d) (as_target st) = original_node st)"
  proof (cases x)
    case (Inl failed)
    then show ?thesis using assms(1) x e(1) by (auto simp: inspect_application_def)
  next
    case (Inr place)
    obtain y f where y: "read_file place e = (y, f)" by (cases "read_file place e")
    note f = read_file_quiet [OF y conjunct1 [OF e(1)]]
    have no_link: "tr_nodes d place \<noteq> Some (Link target)" for target using e(2) assms(3) Inr by simp
    show ?thesis
    proof (cases y)
      case (Inl failed)
      have "failed = NotExist \<Longrightarrow> tr_nodes d place = None" using f(3) e(1) no_link Inl by auto
      then show ?thesis using assms(1) x \<open>x = Inr place\<close> y Inl e(1) f(1)
        by (auto simp: inspect_application_def original_node_def files_at_def split: if_splits)
    next
      case content: (Inr content)
      then obtain mode where node: "tr_nodes d place = Some (Plain content mode)" using f(2) e(1) no_link by auto
      obtain z g where z: "stat_mode place f = (z, g)" by (cases "stat_mode place f")
      note g = stat_mode_quiet [OF z conjunct1 [OF f(1)]]
      show ?thesis using assms(1) x \<open>x = Inr place\<close> y content z g f(1) e(1) node
        by (cases z) (auto simp: inspect_application_def original_node_def files_at_def)
    qed
  qed
  then show "quiet d' \<and> tr_nodes d' = tr_nodes d"
    "r = Inr (st, matched) \<Longrightarrow> files_at (tr_nodes d) (as_target st) = original_node st" by blast+
qed

definition stands_for :: "repair_application \<Rightarrow> application_state \<times> repair_outcome \<Rightarrow> bool" where
  "stands_for application inspected \<longleftrightarrow>
     normalize_path (cn_Path (ap_Candidate application)) = Some (cn_Path (as_candidate (fst inspected))) \<and>
     cn_Content (as_candidate (fst inspected)) = cn_Content (ap_Candidate application) \<and> targeted (fst inspected)"

definition no_artifact :: "(application_state \<times> repair_outcome) list \<Rightarrow> bool" where
  "no_artifact inspected \<longleftrightarrow> \<not> list_ex (\<lambda>(_, outcome). ou_Status outcome = status_artifact) inspected"

definition inspected_ok :: "repair_tools \<Rightarrow> string list \<Rightarrow> repair_application list \<Rightarrow> (application_state \<times> repair_outcome) list \<Rightarrow> bool" where
  "inspected_ok tools seen applications inspected \<longleftrightarrow>
     list_all (\<lambda>i. ou_Status (snd i) \<noteq> status_applied) inspected \<and> list_all2 stands_for applications inspected \<and>
     distinct (map (\<lambda>i. tl_upper tools (cn_Path (as_candidate (fst i)))) inspected) \<and>
     set (map (\<lambda>i. tl_upper tools (cn_Path (as_candidate (fst i)))) inspected) \<inter> set seen = {}"

text \<open>The result of one inspection: the file is as expected, or the candidate becomes an artifact.\<close>

lemma first_outcome_quiet:
  assumes "(if matched then (Inr \<lparr>ou_Status = status_candidate, ou_Path = normalized, ou_Artifact = []\<rparr>, e)
      else attempt_in (write_artifact tools finding candidate e) (\<lambda>artifact d.
        (Inr \<lparr>ou_Status = status_artifact, ou_Path = normalized, ou_Artifact = artifact\<rparr>, d))) = (y, f)"
    and "quiet e" "tree_ok (tr_nodes e)"
  shows "quiet f \<and> tree_ok (tr_nodes f) \<and> same_outside (files_at (tr_nodes e)) (files_at (tr_nodes f)) \<and>
    (\<forall>o'. y = Inr o' \<longrightarrow> (if matched then ou_Status o' = status_candidate \<and> f = e else ou_Status o' = status_artifact))"
proof (cases matched)
  case True
  then show ?thesis using assms by auto
next
  case False
  obtain z g where z: "write_artifact tools finding candidate e = (z, g)" by (cases "write_artifact tools finding candidate e")
  have "f = g" "\<forall>o'. y = Inr o' \<longrightarrow> ou_Status o' = status_artifact" using assms(1) z False by (cases z; auto)+
  then show ?thesis using artifact_quiet [OF z assms(2,3)] False by simp
qed

lemma inspect_all_quiet:
  "inspect_all tools seen applications d = (r, d') \<Longrightarrow> quiet d \<Longrightarrow> tree_ok (tr_nodes d) \<Longrightarrow>
   quiet d' \<and> tree_ok (tr_nodes d') \<and> same_outside (files_at (tr_nodes d)) (files_at (tr_nodes d')) \<and>
   (\<forall>inspected. r = Inr inspected \<longrightarrow>
      inspected_ok tools seen applications inspected \<and>
      (no_artifact inspected \<longrightarrow> tr_nodes d' = tr_nodes d \<and>
        (\<forall>i \<in> set inspected. files_at (tr_nodes d) (as_target (fst i)) = original_node (fst i))))"
proof (induction applications arbitrary: seen d r d')
  case Nil
  then show ?case by (auto simp: inspected_ok_def)
next
  case (Cons application applications)
  show ?case
  proof (cases "normalize_path (cn_Path (ap_Candidate application))")
    case None
    then show ?thesis using Cons.prems by auto
  next
    case (Some normalized)
    show ?thesis
    proof (cases "allowed_path normalized \<and> tl_upper tools normalized \<notin> set seen")
      case False
      then show ?thesis using Cons.prems Some by (auto split: if_splits)
    next
      case True
      define given where "given = application\<lparr>ap_Candidate := (ap_Candidate application)\<lparr>cn_Path := normalized\<rparr>\<rparr>"
      obtain x e where x: "inspect_application tools given d = (x, e)" by (cases "inspect_application tools given d")
      note e = inspect_application_quiet [OF x Cons.prems(2,3)]
      show ?thesis
      proof (cases x)
        case (Inl failed)
        then show ?thesis using Cons.prems Some True x e(1) by (auto simp: Let_def simp flip: given_def)
      next
        case (Inr answer)
        obtain st matched where answer: "answer = (st, matched)" by (cases answer)
        have original: "files_at (tr_nodes d) (as_target st) = original_node st" using e(2) Inr answer by simp
        have st: "as_application st = given \<and> targeted st"
          using inspected_state [of tools given d st matched e] x Inr answer by (auto simp: targeted_def)
        define outcome where "outcome = (if matched then (Inr \<lparr>ou_Status = status_candidate, ou_Path = normalized, ou_Artifact = []\<rparr>, e)
          else attempt_in (write_artifact tools (ap_Finding given) (ap_Candidate given) e) (\<lambda>artifact d.
               (Inr \<lparr>ou_Status = status_artifact, ou_Path = normalized, ou_Artifact = artifact\<rparr>, d)))"
        obtain y f where y: "outcome = (y, f)" by (cases outcome)
        have run: "attempt_in (y, f) (\<lambda>outcome d. attempt_in (inspect_all tools (tl_upper tools normalized # seen) applications d) (\<lambda>rest d.
            (Inr ((st, outcome) # rest), d))) = (r, d')"
          using Cons.prems Some True x Inr answer y by (simp add: Let_def outcome_def flip: given_def)
        have "tr_nodes e = tr_nodes d" "quiet e" using e(1) by simp_all
        note f' = first_outcome_quiet [OF y [unfolded outcome_def] this(2), unfolded this(1), OF Cons.prems(3)]
        note f = f' [THEN conjunct1] f' [THEN conjunct2, THEN conjunct1] f' [THEN conjunct2, THEN conjunct2, THEN conjunct1]
          and status = f' [THEN conjunct2, THEN conjunct2, THEN conjunct2]
        show ?thesis
        proof (cases y)
          case (Inl failed)
          then show ?thesis using run f by auto
        next
          case kept: (Inr kept)
          obtain z g where z: "inspect_all tools (tl_upper tools normalized # seen) applications f = (z, g)"
            by (cases "inspect_all tools (tl_upper tools normalized # seen) applications f")
          note g = Cons.IH [OF z f(1,2)]
          have d': "d' = g" using run kept z by (cases z) auto
          have outer: "quiet d' \<and> tree_ok (tr_nodes d') \<and> same_outside (files_at (tr_nodes d)) (files_at (tr_nodes d'))"
            using g f(3) same_outside_trans d' by blast
          show ?thesis
          proof (cases z)
            case (Inl failed)
            then show ?thesis using run kept z outer by auto
          next
            case (Inr rest)
            have r: "r = Inr ((st, kept) # rest)" using run kept z Inr by simp
            note rest = g [unfolded Inr, THEN conjunct2, THEN conjunct2, THEN conjunct2, rule_format, OF refl]
            have "stands_for application (st, kept)" using st Some by (simp add: stands_for_def given_def)
            moreover have path: "cn_Path (as_candidate st) = normalized" using st by (simp add: given_def)
            moreover have "ou_Status kept \<noteq> status_applied" using status kept by (metis status_distinct)
            ultimately have ok: "inspected_ok tools seen (application # applications) ((st, kept) # rest)"
              using rest True unfolding inspected_ok_def by simp
            have "no_artifact ((st, kept) # rest) \<Longrightarrow> tr_nodes d' = tr_nodes d \<and>
                (\<forall>i \<in> set ((st, kept) # rest). files_at (tr_nodes d) (as_target (fst i)) = original_node (fst i))"
            proof -
              assume none: "no_artifact ((st, kept) # rest)"
              have "ou_Status kept \<noteq> status_artifact" using none by (simp add: no_artifact_def)
              then have "f = e" using status kept by (cases matched) simp_all
              then have nodes: "tr_nodes f = tr_nodes d" using e(1) by simp
              moreover have "no_artifact rest" using none by (simp add: no_artifact_def)
              ultimately show ?thesis using rest original d' by simp
            qed
            then show ?thesis using outer ok r by blast
          qed
        qed
      qed
    qed
  qed
qed

lemma list_all2_member:
  assumes "list_all2 P xs ys"
  shows "x \<in> set xs \<Longrightarrow> \<exists>y \<in> set ys. P x y" "y \<in> set ys \<Longrightarrow> \<exists>x \<in> set xs. P x y"
  using assms by (induction rule: list_all2_induct) auto

text \<open>What the inspection leaves to apply: distinct places, each the one its candidate names.\<close>

lemma inspected_states:
  assumes "inspected_ok tools seen applications inspected"
  shows "\<forall>st \<in> set (map fst inspected). targeted st" "distinct (map as_target (map fst inspected))"
proof -
  have stands: "list_all2 stands_for applications inspected" using assms by (simp add: inspected_ok_def)
  show targeted: "\<forall>st \<in> set (map fst inspected). targeted st"
  proof
    fix st assume "st \<in> set (map fst inspected)"
    then obtain i where "i < length inspected" "st = fst (inspected ! i)" by (auto simp: in_set_conv_nth)
    then show "targeted st" using stands by (simp add: list_all2_conv_all_nth stands_for_def)
  qed
  have "distinct (map (tl_upper tools \<circ> (\<lambda>st. cn_Path (as_candidate st))) (map fst inspected))"
    using assms by (simp add: inspected_ok_def comp_def)
  then have "distinct (map (\<lambda>st. cn_Path (as_candidate st)) (map fst inspected))" by (metis distinct_map map_map)
  then have "distinct (map (\<lambda>st. split_on (CHR ''/'') (cn_Path (as_candidate st))) (map fst inspected))"
    by (auto simp: distinct_map inj_on_def dest: split_on_inject)
  moreover have "map (\<lambda>st. split_on (CHR ''/'') (cn_Path (as_candidate st))) (map fst inspected) = map as_target (map fst inspected)"
    using targeted by (simp add: targeted_def)
  ultimately show "distinct (map as_target (map fst inspected))" by (simp only:)
qed

text \<open>A batch that passed the inspection comes to one of its three ends.\<close>

lemma apply_inspected:
  assumes "apply_candidates tools applications d = (r, d')" "quiet d" "tree_ok (tr_nodes d)"
    and x: "inspect_all tools [] applications d = (Inr inspected, e)" and none: "no_artifact inspected"
  shows "all_applied (map fst inspected) (files_at (tr_nodes d)) r (files_at (tr_nodes d')) \<or>
    none_applied (files_at (tr_nodes d)) r (files_at (tr_nodes d')) \<or> list_ex rollback_error (snd r)"
proof -
  note e = inspect_all_quiet [OF x assms(2,3)]
  note ok = e [THEN conjunct2, THEN conjunct2, THEN conjunct2, rule_format, OF refl]
  have run: "apply_from tools [] (map fst inspected) e = (r, d')"
    using assms(1) x none by (auto simp: apply_candidates_def no_artifact_def)
  have nodes: "tr_nodes e = tr_nodes d"
    and original: "\<forall>st \<in> set (map fst inspected). files_at (tr_nodes d) (as_target st) = original_node st"
    using ok none by auto
  show ?thesis
    using apply_from_quiet [OF run, of "files_at (tr_nodes d)"] e nodes assms(3) inspected_states [OF conjunct1 [OF ok]] original
    by (simp add: set_nodes_def)
qed

lemma all_applied_result:
  assumes all: "all_applied (map fst inspected) files r files'" and stands: "list_all2 stands_for applications inspected"
  shows "snd r = [] \<and> length (fst r) = length applications \<and> list_all (\<lambda>outcome. ou_Status outcome = status_applied) (fst r)"
  using all list_all2_lengthD [OF stands] by (auto simp: all_applied_def list_all_iff outcome_of_def)

lemma all_applied_files:
  assumes all: "all_applied (map fst inspected) files r files'" and stands: "list_all2 stands_for applications inspected"
    and distinct: "distinct (map as_target (map fst inspected))"
  shows "a \<in> set applications \<Longrightarrow> \<exists>n mode. normalize_path (cn_Path (ap_Candidate a)) = Some n \<and>
      files' (split_on (CHR ''/'') n) = Some (Plain (cn_Content (ap_Candidate a)) mode)"
    and "\<forall>a \<in> set applications. map_option (split_on (CHR ''/'')) (normalize_path (cn_Path (ap_Candidate a))) \<noteq> Some p \<Longrightarrow>
      files' p = files p"
proof -
  assume "a \<in> set applications"
  then obtain i where i: "i \<in> set inspected" "stands_for a i" using list_all2_member(1) [OF stands] by blast
  then have "fst i \<in> set (map fst inspected)" by simp
  then have "files' (as_target (fst i)) = written_node (fst i)"
    using all set_nodes_apply(1) [OF distinct] by (simp add: all_applied_def)
  then show "\<exists>n mode. normalize_path (cn_Path (ap_Candidate a)) = Some n \<and>
      files' (split_on (CHR ''/'') n) = Some (Plain (cn_Content (ap_Candidate a)) mode)"
    using i(2) by (auto simp: stands_for_def written_node_def targeted_def)
next
  assume free: "\<forall>a \<in> set applications. map_option (split_on (CHR ''/'')) (normalize_path (cn_Path (ap_Candidate a))) \<noteq> Some p"
  have "p \<noteq> as_target st" if st: "st \<in> set (map fst inspected)" for st
  proof -
    from st obtain i where i: "i \<in> set inspected" "st = fst i" by auto
    then obtain a where "a \<in> set applications" "stands_for a i" using list_all2_member(2) [OF stands i(1)] by blast
    then show ?thesis using free i(2) by (auto simp: stands_for_def targeted_def)
  qed
  then have "p \<notin> as_target ` set (map fst inspected)" by blast
  then show "files' p = files p" using all set_nodes_apply(2) [OF distinct] by (simp add: all_applied_def)
qed

text \<open>
  C5. A batch of repairs is all or nothing. On files nobody else edits, and whichever of its system calls
  fail, \<open>ApplyCandidates\<close> either reports every repair as applied and then every candidate's content is at
  its place and no other file has changed; or it reports none as applied and then no file outside
  goatest's own directory has changed; or its error says that the rollback failed.
\<close>

theorem repairs_all_or_nothing:
  assumes "apply_candidates tools applications d = (r, d')" "quiet d" "tree_ok (tr_nodes d)"
  shows "(snd r = [] \<and> length (fst r) = length applications \<and> list_all (\<lambda>outcome. ou_Status outcome = status_applied) (fst r) \<and>
      (\<forall>a \<in> set applications. \<exists>n mode. normalize_path (cn_Path (ap_Candidate a)) = Some n \<and>
         files_at (tr_nodes d') (split_on (CHR ''/'') n) = Some (Plain (cn_Content (ap_Candidate a)) mode)) \<and>
      (\<forall>p. (\<forall>a \<in> set applications. map_option (split_on (CHR ''/'')) (normalize_path (cn_Path (ap_Candidate a))) \<noteq> Some p) \<longrightarrow>
         files_at (tr_nodes d') p = files_at (tr_nodes d) p)) \<or>
    (list_all (\<lambda>outcome. ou_Status outcome \<noteq> status_applied) (fst r) \<and>
      (\<forall>p. outside p \<longrightarrow> files_at (tr_nodes d') p = files_at (tr_nodes d) p)) \<or>
    list_ex rollback_error (snd r)"
proof -
  obtain x e where x: "inspect_all tools [] applications d = (x, e)" by (cases "inspect_all tools [] applications d")
  note e = inspect_all_quiet [OF x assms(2,3)]
  show ?thesis
  proof (cases x)
    case (Inl failed)
    then have "r = ([], [failed])" "d' = e" using assms(1) x by (simp_all add: apply_candidates_def)
    then show ?thesis using e by (simp add: same_outside_def)
  next
    case (Inr inspected)
    note ok = e [unfolded Inr, THEN conjunct2, THEN conjunct2, THEN conjunct2, rule_format, OF refl, THEN conjunct1]
    show ?thesis
    proof (cases "no_artifact inspected")
      case False
      then have "r = (map snd inspected, [])" "d' = e" using assms(1) x Inr by (auto simp: apply_candidates_def no_artifact_def)
      then show ?thesis using e ok by (simp add: same_outside_def inspected_ok_def list_all_iff)
    next
      case True
      have stands: "list_all2 stands_for applications inspected" using ok by (simp add: inspected_ok_def)
      from apply_inspected [OF assms x [unfolded Inr] True] show ?thesis
      proof (elim disjE)
        assume all: "all_applied (map fst inspected) (files_at (tr_nodes d)) r (files_at (tr_nodes d'))"
        show ?thesis
          using all_applied_result [OF all stands] all_applied_files [OF all stands inspected_states(2) [OF ok]] by blast
      qed (simp_all add: none_applied_def same_outside_def)
    qed
  qed
qed

theorem repairs_all_or_nothing_witness:
  "\<not> list_ex rollback_error (snd (fst (apply_candidates sample_repair_tools sample_repairs (sample_tree (failing_turns 35))))) \<and>
   files_at (tr_nodes (snd (apply_candidates sample_repair_tools sample_repairs (sample_tree (failing_turns 35))))) [''add_test.go'']
     = Some (Plain ''old'' 420)"
proof -
  let ?d = "sample_tree (failing_turns 35)"
  obtain r d' where run: "apply_candidates sample_repair_tools sample_repairs ?d = (r, d')"
    by (cases "apply_candidates sample_repair_tools sample_repairs ?d")
  have "snd (fst (apply_candidates sample_repair_tools sample_repairs ?d)) = [ApplyFailed ''sub_test.go'' [SystemFault]]"
    by code_simp
  then have failed: "snd r = [ApplyFailed ''sub_test.go'' [SystemFault]]" using run by simp
  then have kept: "\<not> list_ex rollback_error (snd r)" by simp
  have "quiet ?d" by code_simp
  moreover have "tree_ok (tr_nodes ?d)" by (auto simp: tree_ok_def sample_tree_def parents_def split: if_splits)
  moreover have "outside [''add_test.go'']" by code_simp
  ultimately have "files_at (tr_nodes d') [''add_test.go''] = files_at (tr_nodes ?d) [''add_test.go'']"
    using repairs_all_or_nothing [OF run] failed kept by auto
  then show ?thesis using run kept by (simp add: files_at_def sample_tree_def)
qed

end
