(* ===== verification/Environment.thy ===== *)
theory Environment
  imports Targets
begin

text \<open>
  The environments processes get: \<open>environment/environment.go\<close> (the names a provider or a digest may
  see), \<open>assure/run.go\<close> (\<open>mergeEnvironment\<close>, \<open>validationEnvironment\<close>, \<open>executionEnvironment\<close>,
  \<open>mutationEnvironment\<close>), \<open>assure/buildcache.go: overlayEnvironment\<close> and \<open>testargs/testargs.go\<close>.
  An environment is a list of \<open>NAME=value\<close> entries, \<open>None\<close> the nil slice that stands for the one of the
  process. \<open>upper\<close> is \<open>strings.ToUpper\<close>, whose tables are Unicode's.
\<close>

section \<open>Entries\<close>

text \<open>The maps \<open>values\<close> and \<open>names\<close> under one key, the name in upper case.\<close>

type_synonym environment_map = "(string \<times> string \<times> string) list"

definition entry_text :: "string \<times> string \<times> string \<Rightarrow> string" where
  "entry_text e = fst (snd e) @ ''='' @ snd (snd e)"

definition environment_entries :: "environment_map \<Rightarrow> string list" where
  "environment_entries env = sort (map entry_text env)"

text \<open>\<open>strings.Cut(entry, "=")\<close> where the key is not empty.\<close>

definition entry_pair :: "string \<Rightarrow> (string \<times> string) option" where
  "entry_pair entry = (case cut_at (CHR ''='') entry of None \<Rightarrow> None | Some (key, value) \<Rightarrow> if key = [] then None else Some (key, value))"

definition put_entry :: "(string \<Rightarrow> string) \<Rightarrow> (string \<Rightarrow> bool) \<Rightarrow> string \<Rightarrow> environment_map \<Rightarrow> environment_map" where
  "put_entry upper keep entry env =
     (case entry_pair entry of
        None \<Rightarrow> env
      | Some (key, value) \<Rightarrow> if keep (upper key) then AList.update (upper key) (key, value) env else env)"

definition put_entries :: "(string \<Rightarrow> string) \<Rightarrow> (string \<Rightarrow> bool) \<Rightarrow> string list \<Rightarrow> environment_map \<Rightarrow> environment_map" where
  "put_entries upper keep entries env = fold (put_entry upper keep) entries env"

definition process_or :: "string list \<Rightarrow> string list option \<Rightarrow> string list" where
  "process_or environ input = (case input of None \<Rightarrow> environ | Some entries \<Rightarrow> entries)"

section \<open>Selection\<close>

definition select_environment :: "(string \<Rightarrow> string) \<Rightarrow> string list \<Rightarrow> string list option \<Rightarrow> string list \<Rightarrow> string list" where
  "select_environment upper environ input allowed =
     (let selected = map upper allowed
      in environment_entries (put_entries upper (\<lambda>key. key \<in> set selected) (process_or environ input) []))"

definition provider_launch_names :: "string list" where
  "provider_launch_names =
     [''COMSPEC'', ''HOME'', ''PATH'', ''PATHEXT'', ''SYSTEMDRIVE'', ''SYSTEMROOT'',
      ''TEMP'', ''TMP'', ''TMPDIR'', ''USERPROFILE'', ''WINDIR'']"

definition provider_environment :: "(string \<Rightarrow> string) \<Rightarrow> string list \<Rightarrow> string list option \<Rightarrow> string list \<Rightarrow> string list" where
  "provider_environment upper environ input allowed = select_environment upper environ input (provider_launch_names @ allowed)"

definition build_environment_names :: "string list" where
  "build_environment_names =
     [''AR'', ''CC'', ''CGO_CFLAGS'', ''CGO_CPPFLAGS'', ''CGO_CXXFLAGS'', ''CGO_ENABLED'', ''CGO_FFLAGS'', ''CGO_LDFLAGS'',
      ''CXX'', ''FC'', ''GCCGO'', ''GODEBUG'', ''GOENV'', ''GOEXPERIMENT'', ''GOFLAGS'', ''GO386'', ''GOAMD64'', ''GOARM'',
      ''GOARM64'', ''GOMIPS'', ''GOMIPS64'', ''GOPPC64'', ''GORISCV64'', ''GOTOOLCHAIN'', ''GOWASM'', ''GOWORK'', ''PKG_CONFIG'']"

definition selected_environment :: "(string \<Rightarrow> string) \<Rightarrow> string list \<Rightarrow> string list option \<Rightarrow> string list \<Rightarrow> string list" where
  "selected_environment upper environ input configured =
     select_environment upper environ input (build_environment_names @ configured)"

section \<open>Merging and overlays\<close>

datatype environment_error = InvalidEntry string | ConflictingValues string

fun merge_entries :: "(string \<Rightarrow> string) \<Rightarrow> string list \<Rightarrow> (string \<times> string) list \<Rightarrow> environment_error + (string \<times> string) list" where
  "merge_entries upper [] values = Inr values"
| "merge_entries upper (entry # entries) values =
     (case entry_pair entry of
        None \<Rightarrow> Inl (InvalidEntry entry)
      | Some (key, value) \<Rightarrow>
          (case map_of values (upper key) of
             Some existing \<Rightarrow>
               if existing \<noteq> value then Inl (ConflictingValues key)
               else merge_entries upper entries (AList.update (upper key) value values)
           | None \<Rightarrow> merge_entries upper entries (AList.update (upper key) value values)))"

definition merge_environment :: "(string \<Rightarrow> string) \<Rightarrow> string list \<Rightarrow> string list \<Rightarrow> environment_error + string list" where
  "merge_environment upper base overlay =
     (case merge_entries upper (base @ overlay) [] of
        Inl e \<Rightarrow> Inl e
      | Inr values \<Rightarrow> Inr (sort (map (\<lambda>(key, value). key @ ''='' @ value) values)))"

definition validation_environment :: "(string \<Rightarrow> string) \<Rightarrow> string list \<Rightarrow> string list option \<Rightarrow> string list \<Rightarrow> string list" where
  "validation_environment upper environ base overlay =
     environment_entries (put_entries upper (\<lambda>_. True) overlay (put_entries upper (\<lambda>_. True) (process_or environ base) []))"

definition overlay_environment :: "(string \<Rightarrow> string) \<Rightarrow> string list \<Rightarrow> string list \<Rightarrow> string list" where
  "overlay_environment upper existing overlay =
     (let replaced = map (upper \<circ> fst) (List.map_filter (cut_at (CHR ''='')) overlay)
      in filter (\<lambda>entry. case cut_at (CHR ''='') entry of None \<Rightarrow> True | Some (key, _) \<Rightarrow> upper key \<notin> set replaced) existing @ overlay)"

section \<open>What an environment says\<close>

lemma entry_pair_Some: "entry_pair entry = Some (key, value) \<longleftrightarrow> entry = key @ ''='' @ value \<and> key \<noteq> [] \<and> CHR ''='' \<notin> set key"
proof
  assume "entry_pair entry = Some (key, value)"
  then show "entry = key @ ''='' @ value \<and> key \<noteq> [] \<and> CHR ''='' \<notin> set key"
    by (auto simp: entry_pair_def dest: cut_at_Some split: option.splits if_splits)
next
  assume "entry = key @ ''='' @ value \<and> key \<noteq> [] \<and> CHR ''='' \<notin> set key"
  then show "entry_pair entry = Some (key, value)" using cut_at_append [of "CHR ''=''" key "value"] by (simp add: entry_pair_def)
qed

text \<open>The last entry under a key that is kept.\<close>

fun last_entry :: "(string \<Rightarrow> string) \<Rightarrow> string list \<Rightarrow> string \<Rightarrow> (string \<times> string) option" where
  "last_entry upper [] key = None"
| "last_entry upper (entry # entries) key =
     (case last_entry upper entries key of
        Some nv \<Rightarrow> Some nv
      | None \<Rightarrow> (case entry_pair entry of
                  Some (name, value) \<Rightarrow> if upper name = key then Some (name, value) else None
                | None \<Rightarrow> None))"

lemma put_entry_simps:
  "map_of (put_entry upper keep entry env) =
     (case entry_pair entry of
        Some (name, value) \<Rightarrow> if keep (upper name) then (map_of env)(upper name \<mapsto> (name, value)) else map_of env
      | None \<Rightarrow> map_of env)"
  by (auto simp: put_entry_def AList.update_conv' split: option.splits)

lemma put_entries_Cons: "put_entries upper keep (entry # entries) env = put_entries upper keep entries (put_entry upper keep entry env)"
  by (simp add: put_entries_def)

lemma map_of_put_entries:
  "map_of (put_entries upper keep entries env) key =
     (if keep key then (case last_entry upper entries key of Some nv \<Rightarrow> Some nv | None \<Rightarrow> map_of env key) else map_of env key)"
proof (induction entries arbitrary: env)
  case (Cons entry entries)
  show ?case unfolding put_entries_Cons Cons.IH by (auto simp: put_entry_simps split: option.splits)
qed (simp add: put_entries_def)

lemma distinct_put_entries:
  assumes "distinct (map fst env)" shows "distinct (map fst (put_entries upper keep entries env))"
  using assms
proof (induction entries arbitrary: env)
  case (Cons entry entries)
  have "distinct (map fst (put_entry upper keep entry env))"
    using Cons.prems by (auto simp: put_entry_def distinct_update split: option.splits)
  then show ?case unfolding put_entries_Cons by (rule Cons.IH)
qed (simp add: put_entries_def)

lemma last_entry_pair:
  "last_entry upper entries key = Some (name, value) \<Longrightarrow>
   upper name = key \<and> name \<noteq> [] \<and> CHR ''='' \<notin> set name \<and> name @ ''='' @ value \<in> set entries"
  by (induction entries) (auto simp: entry_pair_Some split: option.splits if_splits)

lemma set_environment_entries:
  assumes "distinct (map fst env)"
  shows "set (environment_entries env) = {name @ ''='' @ value | name value key. map_of env key = Some (name, value)}"
  using assms by (force simp: environment_entries_def entry_text_def map_of_eq_Some_iff)

lemma entry_listed:
  assumes "distinct (map fst env)" "map_of env key = Some (name, v)"
  shows "name @ ''='' @ v \<in> set (environment_entries env)"
  using assms unfolding set_environment_entries [OF assms(1)] by blast

text \<open>
  An environment without two names of one key, whose names a text \<open>NAME=value\<close> determines.
\<close>

definition environment_ok :: "(string \<Rightarrow> string) \<Rightarrow> environment_map \<Rightarrow> bool" where
  "environment_ok upper env \<longleftrightarrow>
     distinct (map fst env) \<and>
     (\<forall>key name value. map_of env key = Some (name, value) \<longrightarrow> upper name = key \<and> name \<noteq> [] \<and> CHR ''='' \<notin> set name)"

lemma environment_ok_put_entries:
  assumes "environment_ok upper env" shows "environment_ok upper (put_entries upper keep entries env)"
  using assms unfolding environment_ok_def
  by (auto simp: map_of_put_entries distinct_put_entries dest: last_entry_pair split: if_splits option.splits)

lemma environment_ok_Nil [simp]: "environment_ok upper []"
  by (simp add: environment_ok_def)

lemma environment_ok_update:
  assumes "environment_ok upper env" "upper name = key" "name \<noteq> []" "CHR ''='' \<notin> set name"
  shows "environment_ok upper (AList.update key (name, value) env)"
  using assms unfolding environment_ok_def by (auto simp: AList.update_conv' distinct_update split: if_splits)

lemma entries_of_key:
  assumes "environment_ok upper env" "x \<in> set (environment_entries env)" "entry_pair x = Some (name, value)"
  shows "map_of env (upper name) = Some (name, value)"
proof -
  have distinct: "distinct (map fst env)" using assms(1) by (simp add: environment_ok_def)
  from assms(2) obtain n v k where x: "x = n @ ''='' @ v" "map_of env k = Some (n, v)"
    unfolding set_environment_entries [OF distinct] by blast
  have ok: "upper n = k" "n \<noteq> []" "CHR ''='' \<notin> set n" using assms(1) x(2) unfolding environment_ok_def by blast+
  then have "entry_pair x = Some (n, v)" using x(1) by (simp add: entry_pair_Some)
  then show ?thesis using x ok assms(3) by simp
qed

text \<open>
  A provider, a generator or a digest sees of an environment what its list of names lets
  through and nothing else: the entries \<open>Select\<close> returns are exactly the last well-formed entries of
  the allowed names, without regard to case, in ascending order and each name once.
\<close>

theorem selected_environment_exact:
  "x \<in> set (select_environment upper environ input allowed) \<longleftrightarrow>
     (\<exists>name value. x = name @ ''='' @ value \<and> last_entry upper (process_or environ input) (upper name) = Some (name, value) \<and>
        upper name \<in> upper ` set allowed)"
  "sorted (select_environment upper environ input allowed)"
  "distinct (map (\<lambda>x. map_option (upper \<circ> fst) (entry_pair x)) (select_environment upper environ input allowed))"
proof -
  define keep where "keep = (\<lambda>key. key \<in> upper ` set allowed)"
  define env where "env = put_entries upper keep (process_or environ input) []"
  have env: "select_environment upper environ input allowed = environment_entries env"
    by (simp add: select_environment_def env_def keep_def)
  have ok: "environment_ok upper env" unfolding env_def by (rule environment_ok_put_entries) simp
  then have distinct: "distinct (map fst env)" by (simp add: environment_ok_def)
  have bound: "map_of env key = Some nv \<longleftrightarrow> keep key \<and> last_entry upper (process_or environ input) key = Some nv" for key nv
    by (auto simp: env_def map_of_put_entries split: option.splits)
  show "x \<in> set (select_environment upper environ input allowed) \<longleftrightarrow>
     (\<exists>name value. x = name @ ''='' @ value \<and> last_entry upper (process_or environ input) (upper name) = Some (name, value) \<and>
        upper name \<in> upper ` set allowed)"
    unfolding env set_environment_entries [OF distinct] bound
    by (auto simp: keep_def dest: last_entry_pair) (metis last_entry_pair rev_image_eqI)+
  show "sorted (select_environment upper environ input allowed)" by (simp add: env environment_entries_def)
  have pair: "entry_pair (entry_text e) = Some (snd e)" "upper (fst (snd e)) = fst e" if "e \<in> set env" for e
  proof -
    obtain key name bound where e: "e = (key, name, bound)" by (cases e)
    then have "map_of env key = Some (name, bound)" using that distinct by simp
    with ok have "upper name = key" "name \<noteq> []" "CHR ''='' \<notin> set name" unfolding environment_ok_def by blast+
    then show "entry_pair (entry_text e) = Some (snd e)" "upper (fst (snd e)) = fst e"
      by (simp_all add: e entry_text_def entry_pair_Some)
  qed
  have "distinct (map (\<lambda>x. map_option (upper \<circ> fst) (entry_pair x)) (map entry_text env))"
    using distinct pair by (auto simp: distinct_map inj_on_def)
  then show "distinct (map (\<lambda>x. map_option (upper \<circ> fst) (entry_pair x)) (select_environment upper environ input allowed))"
    unfolding env environment_entries_def
    by (metis distinct_map mset_map mset_sort set_sort distinct_sort mset_eq_imp_distinct_iff)
qed

section \<open>The environment of executions\<close>

text \<open>\<open>strings.Contains\<close>\<close>

fun contains_text :: "string \<Rightarrow> string \<Rightarrow> bool" where
  "contains_text [] part = (part = [])"
| "contains_text (c # cs) part = (has_prefix (c # cs) part \<or> contains_text cs part)"

definition ephemeral_environment_key :: "string \<Rightarrow> bool" where
  "ephemeral_environment_key key \<longleftrightarrow> key = ''STARSHIP_SESSION_KEY'' \<or> key = ''__MISE_SESSION''"

definition offline_settings :: environment_map where
  "offline_settings =
     map (\<lambda>(key, value). (key, key, value))
       [(''GOPROXY'', ''off''), (''GOSUMDB'', ''off''), (''GOTELEMETRY'', ''off''), (''GOTOOLCHAIN'', ''local'')]"

text \<open>\<open>strings.TrimSpace\<close> and a space where something is left.\<close>

definition flags_before :: "string \<Rightarrow> string" where
  "flags_before flags = (let trimmed = trim_space flags in if trimmed \<noteq> [] then trimmed @ '' '' else trimmed)"

definition with_build_flags :: "environment_map \<Rightarrow> environment_map" where
  "with_build_flags env =
     (let (name, flags) = (case map_of env ''GOFLAGS'' of None \<Rightarrow> (''GOFLAGS'', []) | Some nv \<Rightarrow> nv)
      in if contains_text flags ''-buildvcs='' then env
         else AList.update ''GOFLAGS'' (name, flags_before flags @ ''-buildvcs=false'') env)"

definition execution_map :: "(string \<Rightarrow> string) \<Rightarrow> string list \<Rightarrow> environment_map" where
  "execution_map upper entries =
     with_build_flags
       (fold (\<lambda>(key, nv). AList.update key nv) offline_settings
         (put_entries upper (\<lambda>key. \<not> ephemeral_environment_key key) entries []))"

definition execution_environment :: "(string \<Rightarrow> string) \<Rightarrow> string list \<Rightarrow> string list option \<Rightarrow> string list" where
  "execution_environment upper environ input = environment_entries (execution_map upper (process_or environ input))"

text \<open>\<open>fold\<close> is \<open>strings.EqualFold\<close> with \<open>GOFLAGS\<close>.\<close>

fun add_goflags :: "(string \<Rightarrow> bool) \<Rightarrow> string \<Rightarrow> string list \<Rightarrow> string list option" where
  "add_goflags goflags flag [] = None"
| "add_goflags goflags flag (entry # entries) =
     (case cut_at (CHR ''='') entry of
        Some (key, value) \<Rightarrow>
          if goflags key then Some ((key @ ''='' @ flags_before value @ flag) # entries)
          else map_option (Cons entry) (add_goflags goflags flag entries)
      | None \<Rightarrow> map_option (Cons entry) (add_goflags goflags flag entries))"

definition mutation_environment ::
  "(string \<Rightarrow> string) \<Rightarrow> (string \<Rightarrow> bool) \<Rightarrow> string list \<Rightarrow> string list option \<Rightarrow> string list \<Rightarrow> string list" where
  "mutation_environment upper goflags environ input buildTags =
     (let environment = execution_environment upper environ input;
          flag = ''-tags='' @ join '','' buildTags
      in if buildTags = [] then environment
         else sort (case add_goflags goflags flag environment of
                      Some changed \<Rightarrow> changed
                    | None \<Rightarrow> environment @ [''GOFLAGS='' @ flag]))"

section \<open>Arguments of test binaries\<close>

definition normalize_argument :: "string \<Rightarrow> string option" where
  "normalize_argument argument =
     (if argument \<in> {''-short'', ''--short'', ''-test.short'', ''--test.short''} then Some ''-test.short=true''
      else if has_prefix argument ''-short='' then Some (''-test.short='' @ trim_prefix argument ''-short='')
      else if has_prefix argument ''--short='' then Some (''-test.short='' @ trim_prefix argument ''--short='')
      else if has_prefix argument ''-test.short='' then Some argument
      else if has_prefix argument ''--test.short='' then Some (''-test.short='' @ trim_prefix argument ''--test.short='')
      else if argument = ''--test.parallel'' \<or> has_prefix argument ''--test.parallel='' then Some (''-'' @ trim_prefix argument ''--'')
      else if argument = ''-test.parallel'' \<or> has_prefix argument ''-test.parallel='' then Some argument
      else if has_prefix argument ''-test.'' \<or> has_prefix argument ''--test.'' then None
      else Some argument)"

text \<open>The error names the first argument that is the run's own.\<close>

fun normalize_arguments :: "string list \<Rightarrow> string + string list" where
  "normalize_arguments [] = Inr []"
| "normalize_arguments (argument # arguments) =
     (case normalize_argument argument of
        None \<Rightarrow> Inl argument
      | Some normal \<Rightarrow> (case normalize_arguments arguments of Inl e \<Rightarrow> Inl e | Inr rest \<Rightarrow> Inr (normal # rest)))"

section \<open>What executions see\<close>

lemma environment_ok_settings:
  assumes "environment_ok upper env" "\<forall>(key, name, value) \<in> set settings. upper name = key \<and> name \<noteq> [] \<and> CHR ''='' \<notin> set name"
  shows "environment_ok upper (fold (\<lambda>(key, nv). AList.update key nv) settings env)"
  using assms by (induction settings arbitrary: env) (auto intro!: environment_ok_update)

lemma map_of_settings:
  assumes "distinct (map fst settings)"
  shows "map_of (fold (\<lambda>(key, nv). AList.update key nv) settings env) key =
    (case map_of settings key of Some nv \<Rightarrow> Some nv | None \<Rightarrow> map_of env key)"
  using assms by (induction settings arbitrary: env) (auto simp: AList.update_conv' split: option.splits dest: map_of_SomeD, (metis fst_conv image_eqI)+)

definition plain_keys :: "string list" where
  "plain_keys = [''GOPROXY'', ''GOSUMDB'', ''GOTELEMETRY'', ''GOTOOLCHAIN'', ''GOFLAGS'']"

lemma execution_map_ok:
  assumes "\<forall>key \<in> set plain_keys. upper key = key"
  shows "environment_ok upper (execution_map upper entries)"
proof -
  define env where
    "env = fold (\<lambda>(key, nv). AList.update key nv) offline_settings (put_entries upper (\<lambda>key. \<not> ephemeral_environment_key key) entries [])"
  have ok: "environment_ok upper env" unfolding env_def
    using assms by (intro environment_ok_settings environment_ok_put_entries) (simp_all add: offline_settings_def plain_keys_def)
  obtain name flags where nf: "(case map_of env ''GOFLAGS'' of None \<Rightarrow> (''GOFLAGS'', []) | Some nv \<Rightarrow> nv) = (name, flags)"
    by (metis surj_pair)
  have "upper name = ''GOFLAGS'' \<and> name \<noteq> [] \<and> CHR ''='' \<notin> set name"
  proof (cases "map_of env ''GOFLAGS''")
    case None
    then show ?thesis using nf assms by (auto simp: plain_keys_def)
  next
    case (Some nv)
    then have "map_of env ''GOFLAGS'' = Some (name, flags)" using nf by simp
    with ok show ?thesis unfolding environment_ok_def by blast
  qed
  then show ?thesis using ok nf
    by (auto simp: execution_map_def with_build_flags_def Let_def simp flip: env_def intro: environment_ok_update)
qed

lemma execution_map_settings:
  "map_of (execution_map upper entries) ''GOPROXY'' = Some (''GOPROXY'', ''off'')"
  "map_of (execution_map upper entries) ''GOSUMDB'' = Some (''GOSUMDB'', ''off'')"
  "map_of (execution_map upper entries) ''GOTELEMETRY'' = Some (''GOTELEMETRY'', ''off'')"
  "map_of (execution_map upper entries) ''GOTOOLCHAIN'' = Some (''GOTOOLCHAIN'', ''local'')"
  by (simp_all add: execution_map_def with_build_flags_def AList.update_conv' map_of_settings offline_settings_def Let_def
    split: prod.split)

lemma execution_map_flags:
  "\<exists>name flags. map_of (execution_map upper entries) ''GOFLAGS'' = Some (name, flags) \<and> contains_text flags ''-buildvcs=''"
proof -
  define env where
    "env = fold (\<lambda>(key, nv). AList.update key nv) offline_settings (put_entries upper (\<lambda>key. \<not> ephemeral_environment_key key) entries [])"
  obtain name flags where nf: "(case map_of env ''GOFLAGS'' of None \<Rightarrow> (''GOFLAGS'', []) | Some nv \<Rightarrow> nv) = (name, flags)"
    by (metis surj_pair)
  have appended: "contains_text (flags_before flags @ ''-buildvcs=false'') ''-buildvcs=''"
  proof -
    have "contains_text (a @ part @ b) part" for a part b
    proof (induction a)
      case Nil
      have "has_prefix (part @ b) part" by (simp add: has_prefix_def)
      then show ?case by (cases "part @ b") simp_all
    qed simp
    from this [of "flags_before flags" "''-buildvcs=''" "''false''"] show ?thesis by simp
  qed
  show ?thesis
  proof (cases "contains_text flags ''-buildvcs=''")
    case True
    then have "flags \<noteq> []" by auto
    then have "map_of env ''GOFLAGS'' = Some (name, flags)" using nf by (auto split: option.splits)
    then show ?thesis using True nf by (auto simp: execution_map_def with_build_flags_def simp flip: env_def)
  next
    case False
    then show ?thesis using appended nf
      by (auto simp: execution_map_def with_build_flags_def AList.update_conv' simp flip: env_def)
  qed
qed

lemma execution_map_ephemeral:
  "ephemeral_environment_key key \<Longrightarrow> map_of (execution_map upper entries) key = None"
  by (auto simp: ephemeral_environment_key_def execution_map_def with_build_flags_def AList.update_conv' map_of_settings
    offline_settings_def map_of_put_entries Let_def split: prod.split)

text \<open>
  C38. What a run executes sees an offline toolchain: whatever the environment of the run says, in any
  spelling, \<open>executionEnvironment\<close> leaves one binding for each of the module proxy, the checksum
  database, the telemetry and the toolchain, which turns it off, has build flags that say whether to
  stamp the version control system, and lets no session key through.
\<close>

theorem execution_environment_offline:
  assumes "\<forall>key \<in> set plain_keys. upper key = key"
    and "x \<in> set (execution_environment upper environ input)" "entry_pair x = Some (name, value)"
  shows "\<not> ephemeral_environment_key (upper name) \<and>
    (upper name \<in> {''GOPROXY'', ''GOSUMDB'', ''GOTELEMETRY''} \<longrightarrow> value = ''off'') \<and>
    (upper name = ''GOTOOLCHAIN'' \<longrightarrow> value = ''local'') \<and>
    (upper name = ''GOFLAGS'' \<longrightarrow> contains_text value ''-buildvcs='') \<and>
    {''GOPROXY=off'', ''GOSUMDB=off'', ''GOTELEMETRY=off'', ''GOTOOLCHAIN=local''} \<subseteq> set (execution_environment upper environ input)"
proof (intro conjI impI)
  note ok = execution_map_ok [OF assms(1), of "process_or environ input"]
  have bound: "map_of (execution_map upper (process_or environ input)) (upper name) = Some (name, value)"
    using entries_of_key [OF ok] assms(2,3) by (simp add: execution_environment_def)
  show "\<not> ephemeral_environment_key (upper name)" using bound execution_map_ephemeral by fastforce
  show "upper name \<in> {''GOPROXY'', ''GOSUMDB'', ''GOTELEMETRY''} \<Longrightarrow> value = ''off''"
    using bound by (auto simp: execution_map_settings)
  show "upper name = ''GOTOOLCHAIN'' \<Longrightarrow> value = ''local''" using bound by (auto simp: execution_map_settings)
  show "upper name = ''GOFLAGS'' \<Longrightarrow> contains_text value ''-buildvcs=''"
    using bound execution_map_flags [of upper "process_or environ input"] by auto
  have distinct: "distinct (map fst (execution_map upper (process_or environ input)))" using ok by (simp add: environment_ok_def)
  show "{''GOPROXY=off'', ''GOSUMDB=off'', ''GOTELEMETRY=off'', ''GOTOOLCHAIN=local''} \<subseteq> set (execution_environment upper environ input)"
    using entry_listed [OF distinct execution_map_settings(1)] entry_listed [OF distinct execution_map_settings(2)]
      entry_listed [OF distinct execution_map_settings(3)] entry_listed [OF distinct execution_map_settings(4)]
    by (simp add: execution_environment_def)
qed

text \<open>The names in upper case, on the letters of ASCII.\<close>

definition ascii_upper :: "string \<Rightarrow> string" where
  "ascii_upper s = map (\<lambda>c. if CHR ''a'' \<le> c \<and> c \<le> CHR ''z'' then char_of (of_char c - (32 :: nat)) else c) s"

lemma execution_environment_offline_witness:
  "\<not> ephemeral_environment_key (ascii_upper ''GOPROXY'') \<and>
   execution_environment ascii_upper [] (Some [''goproxy=direct'', ''GoFlags=-v'', ''__MISE_SESSION=x'', ''A=1'']) =
    [''A=1'', ''GOPROXY=off'', ''GOSUMDB=off'', ''GOTELEMETRY=off'', ''GOTOOLCHAIN=local'', ''GoFlags=-v -buildvcs=false'']"
proof (rule conjI)
  show sample: "execution_environment ascii_upper [] (Some [''goproxy=direct'', ''GoFlags=-v'', ''__MISE_SESSION=x'', ''A=1'']) =
    [''A=1'', ''GOPROXY=off'', ''GOSUMDB=off'', ''GOTELEMETRY=off'', ''GOTOOLCHAIN=local'', ''GoFlags=-v -buildvcs=false'']"
    by code_simp
  have names: "\<forall>key \<in> set plain_keys. ascii_upper key = key" by code_simp
  have pair: "entry_pair ''GOPROXY=off'' = Some (''GOPROXY'', ''off'')" by code_simp
  show "\<not> ephemeral_environment_key (ascii_upper ''GOPROXY'')"
    using execution_environment_offline [OF names _ pair,
      of "[]" "Some [''goproxy=direct'', ''GoFlags=-v'', ''__MISE_SESSION=x'', ''A=1'']"] sample by simp
qed

section \<open>Merging\<close>

text \<open>What a successful merge has seen.\<close>

lemma merge_entries_iff:
  assumes "distinct (map fst values)"
  shows "merge_entries upper entries values = Inr result \<Longrightarrow>
    distinct (map fst result) \<and> (\<forall>entry \<in> set entries. entry_pair entry \<noteq> None) \<and>
    (\<forall>key. map_of result key = (case map_of values key of Some v \<Rightarrow> Some v | None \<Rightarrow> map_option snd (last_entry upper entries key))) \<and>
    (\<forall>entry \<in> set entries. \<forall>name v. entry_pair entry = Some (name, v) \<longrightarrow> map_of result (upper name) = Some v)"
  using assms
proof (induction entries arbitrary: "values")
  case (Cons entry entries)
  from Cons.prems(1) obtain name v where pair: "entry_pair entry = Some (name, v)"
    by (auto split: option.splits)
  have same: "map_of values (upper name) \<in> {None, Some v}"
    and rest: "merge_entries upper entries (AList.update (upper name) v values) = Inr result"
    using Cons.prems(1) pair by (auto split: option.splits if_splits)
  have distinct: "distinct (map fst (AList.update (upper name) v values))" using Cons.prems(2) by (simp add: distinct_update)
  note IH = Cons.IH [OF rest distinct]
  have bound: "map_of result key =
    (case ((map_of values)(upper name \<mapsto> v)) key of Some v \<Rightarrow> Some v | None \<Rightarrow> map_option snd (last_entry upper entries key))" for key
    using IH by (simp add: AList.update_conv')
  have consistent: "last_entry upper entries (upper name) = Some (n, w) \<Longrightarrow> w = v" for n w
  proof -
    assume last: "last_entry upper entries (upper name) = Some (n, w)"
    from last_entry_pair [OF this] have n: "upper n = upper name" "n @ ''='' @ w \<in> set entries" "entry_pair (n @ ''='' @ w) = Some (n, w)"
      by (auto simp: entry_pair_Some)
    with IH have "map_of result (upper n) = Some w" by blast
    with bound [of "upper name"] n show ?thesis by simp
  qed
  have "map_of result key = (case map_of values key of Some v \<Rightarrow> Some v | None \<Rightarrow> map_option snd (last_entry upper (entry # entries) key))" for key
  proof (cases "key = upper name")
    case True
    then show ?thesis using bound [of key] same pair consistent
      by (cases "last_entry upper entries key"; cases "map_of values key") auto
  next
    case False
    then have "last_entry upper (entry # entries) key = last_entry upper entries key"
      using pair by (simp split: option.split)
    then show ?thesis using bound [of key] False unfolding fun_upd_other [OF False] by (cases "map_of values key") simp_all
  qed
  moreover have "map_of result (upper name) = Some v" using bound [of "upper name"] by simp
  moreover have "\<forall>e \<in> set (entry # entries). entry_pair e \<noteq> None" using IH pair by simp
  ultimately show ?case using IH pair unfolding list.set ball_simps by (metis Pair_inject option.inject)
qed (simp split: option.split)

text \<open>No two entries give one name, without regard to case, two values.\<close>

definition consistent_entries :: "(string \<Rightarrow> string) \<Rightarrow> string list \<Rightarrow> bool" where
  "consistent_entries upper entries \<longleftrightarrow>
     (\<forall>a \<in> set entries. \<forall>b \<in> set entries. \<forall>m n v w.
        entry_pair a = Some (m, v) \<and> entry_pair b = Some (n, w) \<and> upper m = upper n \<longrightarrow> v = w)"

lemma merge_entries_succeeds:
  assumes "\<forall>entry \<in> set entries. entry_pair entry \<noteq> None" "consistent_entries upper entries"
    and "\<forall>entry \<in> set entries. \<forall>name v w. entry_pair entry = Some (name, v) \<and> map_of values (upper name) = Some w \<longrightarrow> v = w"
  shows "\<exists>result. merge_entries upper entries values = Inr result"
  using assms
proof (induction entries arbitrary: "values")
  case (Cons entry entries)
  from Cons.prems(1) obtain name v where pair: "entry_pair entry = Some (name, v)" by (cases "entry_pair entry") auto
  have tail: "\<forall>entry \<in> set entries. entry_pair entry \<noteq> None" "consistent_entries upper entries"
    using Cons.prems(1) by simp (use Cons.prems(2) in \<open>unfold consistent_entries_def, meson list.set_intros(2)\<close>)
  have "\<forall>e \<in> set entries. \<forall>n u w.
      entry_pair e = Some (n, u) \<and> map_of (AList.update (upper name) v values) (upper n) = Some w \<longrightarrow> u = w"
  proof (intro ballI allI impI)
    fix e n u w assume e: "e \<in> set entries" "entry_pair e = Some (n, u) \<and> map_of (AList.update (upper name) v values) (upper n) = Some w"
    show "u = w"
    proof (cases "upper n = upper name")
      case True
      have "u = v" using Cons.prems(2) e pair True unfolding consistent_entries_def by (meson list.set_intros)
      then show ?thesis using e True by (simp add: AList.update_conv')
    next
      case False
      then have "map_of values (upper n) = Some w" using e(2) by (simp add: AList.update_conv')
      then show ?thesis using Cons.prems(3) e by (meson list.set_intros(2))
    qed
  qed
  from Cons.IH [OF tail this] obtain result where "merge_entries upper entries (AList.update (upper name) v values) = Inr result" by blast
  moreover have "map_of values (upper name) \<in> {None, Some v}"
    using Cons.prems(3) pair by (cases "map_of values (upper name)") auto
  ultimately show ?case using pair by auto
qed simp

text \<open>
  \<open>mergeEnvironment\<close> succeeds on exactly the entries that are well formed and agree on every name
  without regard to case, and then returns the value of each name once, in ascending order and under
  the name in upper case.
\<close>

theorem merge_environment_exact:
  "(\<exists>result. merge_environment upper base overlay = Inr result) \<longleftrightarrow>
     list_all (\<lambda>entry. entry_pair entry \<noteq> None) (base @ overlay) \<and> consistent_entries upper (base @ overlay)"
  "merge_environment upper base overlay = Inr result \<Longrightarrow>
     sorted result \<and>
     set result = {upper name @ ''='' @ v | name v entry. entry \<in> set (base @ overlay) \<and> entry_pair entry = Some (name, v)}"
proof -
  have exact: "list_all (\<lambda>entry. entry_pair entry \<noteq> None) (base @ overlay) \<and> consistent_entries upper (base @ overlay) \<and>
      sorted result \<and>
      set result = {upper name @ ''='' @ v | name v entry. entry \<in> set (base @ overlay) \<and> entry_pair entry = Some (name, v)}"
    if merged: "merge_environment upper base overlay = Inr result" for result
  proof -
    from merged obtain bound where bound: "merge_entries upper (base @ overlay) [] = Inr bound"
      and result: "result = sort (map (\<lambda>(key, v). key @ ''='' @ v) bound)"
      by (auto simp: merge_environment_def split: sum.splits)
    have "distinct (map fst bound)"
      and listed: "\<forall>entry \<in> set (base @ overlay). entry_pair entry \<noteq> None"
      and last: "map_of bound key = map_option snd (last_entry upper (base @ overlay) key)"
      and kept: "entry \<in> set (base @ overlay) \<Longrightarrow> entry_pair entry = Some (name, v) \<Longrightarrow> map_of bound (upper name) = Some v"
      for key entry name v
    proof -
      note seen = merge_entries_iff [OF _ bound, simplified]
      show "distinct (map fst bound)" "\<forall>entry \<in> set (base @ overlay). entry_pair entry \<noteq> None"
        "map_of bound key = map_option snd (last_entry upper (base @ overlay) key)" using seen by auto
      show "entry \<in> set (base @ overlay) \<Longrightarrow> entry_pair entry = Some (name, v) \<Longrightarrow> map_of bound (upper name) = Some v"
        using seen unfolding set_append by metis
    qed
    have "consistent_entries upper (base @ overlay)"
      unfolding consistent_entries_def using kept by (metis option.inject)
    moreover have "(key, v) \<in> set bound \<longleftrightarrow> (\<exists>entry \<in> set (base @ overlay). \<exists>name. entry_pair entry = Some (name, v) \<and> upper name = key)"
      for key v
    proof
      assume "(key, v) \<in> set bound"
      then have "map_of bound key = Some v" by (rule map_of_is_SomeI [OF \<open>distinct (map fst bound)\<close>])
      then obtain name where "last_entry upper (base @ overlay) key = Some (name, v)" unfolding last by auto
      from last_entry_pair [OF this] have "name @ ''='' @ v \<in> set (base @ overlay)" "entry_pair (name @ ''='' @ v) = Some (name, v)" "upper name = key"
        by (simp_all add: entry_pair_Some)
      then show "\<exists>entry \<in> set (base @ overlay). \<exists>name. entry_pair entry = Some (name, v) \<and> upper name = key" by blast
    next
      assume "\<exists>entry \<in> set (base @ overlay). \<exists>name. entry_pair entry = Some (name, v) \<and> upper name = key"
      then have "map_of bound key = Some v" using kept by blast
      then show "(key, v) \<in> set bound" by (rule map_of_SomeD)
    qed
    ultimately show ?thesis using listed by (force simp: result list_all_iff)
  qed
  show "(\<exists>result. merge_environment upper base overlay = Inr result) \<longleftrightarrow>
     list_all (\<lambda>entry. entry_pair entry \<noteq> None) (base @ overlay) \<and> consistent_entries upper (base @ overlay)"
    using exact merge_entries_succeeds [of "base @ overlay" upper "[]"]
    by (auto simp: list_all_iff merge_environment_def split: sum.splits)
  show "merge_environment upper base overlay = Inr result \<Longrightarrow>
     sorted result \<and>
     set result = {upper name @ ''='' @ v | name v entry. entry \<in> set (base @ overlay) \<and> entry_pair entry = Some (name, v)}"
    using exact by blast
qed

lemma merge_environment_exact_witness:
  "merge_environment ascii_upper [''db_url=x'', ''B=2''] [''b=2''] = Inr [''B=2'', ''DB_URL=x'']"
  "''DB_URL=x'' \<in> {ascii_upper name @ ''='' @ v | name v entry.
     entry \<in> set ([''db_url=x'', ''B=2''] @ [''b=2'']) \<and> entry_pair entry = Some (name, v)}"
  "merge_environment ascii_upper [''a=1''] [''A=2''] = Inl (ConflictingValues ''A'')"
proof -
  show sample: "merge_environment ascii_upper [''db_url=x'', ''B=2''] [''b=2''] = Inr [''B=2'', ''DB_URL=x'']" by code_simp
  show "''DB_URL=x'' \<in> {ascii_upper name @ ''='' @ v | name v entry.
     entry \<in> set ([''db_url=x'', ''B=2''] @ [''b=2'']) \<and> entry_pair entry = Some (name, v)}"
    unfolding merge_environment_exact(2) [OF sample, THEN conjunct2, symmetric] by simp
  show "merge_environment ascii_upper [''a=1''] [''A=2''] = Inl (ConflictingValues ''A'')" by code_simp
qed

section \<open>Arguments\<close>

lemma has_prefix_obtain: "has_prefix s p \<Longrightarrow> \<exists>rest. s = p @ rest"
  unfolding has_prefix_def by (metis append_take_drop_id)

lemma has_prefix_append [simp]: "has_prefix (p @ rest) p"
  by (simp add: has_prefix_def)

definition owned_argument :: "string \<Rightarrow> bool" where
  "owned_argument a \<longleftrightarrow>
     (has_prefix a ''-test.'' \<or> has_prefix a ''--test.'') \<and> \<not> has_prefix a ''-test.short='' \<and> \<not> has_prefix a ''-test.parallel''"

lemma normal_short: "normalize_argument (''-test.short='' @ x) = Some (''-test.short='' @ x)" "\<not> owned_argument (''-test.short='' @ x)"
  by (simp_all add: normalize_argument_def owned_argument_def has_prefix_def)

lemma normal_parallel:
  "normalize_argument ''-test.parallel'' = Some ''-test.parallel''" "\<not> owned_argument ''-test.parallel''"
  "normalize_argument (''-test.parallel='' @ x) = Some (''-test.parallel='' @ x)" "\<not> owned_argument (''-test.parallel='' @ x)"
  by (simp_all add: normalize_argument_def owned_argument_def has_prefix_def)

lemma normalize_argument_cases:
  assumes "normalize_argument a = Some b"
  shows "(\<exists>x. b = ''-test.short='' @ x) \<or> b = ''-test.parallel'' \<or> (\<exists>x. b = ''-test.parallel='' @ x) \<or>
    (b = a \<and> \<not> has_prefix a ''-test.'' \<and> \<not> has_prefix a ''--test.'')"
proof -
  have dashes: "trim_prefix ''--test.parallel'' ''--'' = ''test.parallel''" by (simp add: trim_prefix_def has_prefix_def)
  have argument: "trim_prefix (''--test.parallel='' @ x) ''--'' = ''test.parallel='' @ x" for x by (simp add: trim_prefix_def has_prefix_def)
  consider (short) x where "b = ''-test.short='' @ x" | (kept) "a = b" "has_prefix a ''-test.short=''"
    | (dashed) "b = ''-'' @ trim_prefix a ''--''" "a = ''--test.parallel'' \<or> has_prefix a ''--test.parallel=''"
    | (plain) "a = b" "a = ''-test.parallel'' \<or> has_prefix a ''-test.parallel=''"
    | (other) "a = b" "\<not> has_prefix a ''-test.'' \<and> \<not> has_prefix a ''--test.''"
  proof -
    have "''-test.short=true'' = ''-test.short='' @ ''true''" by simp
    then show thesis using assms short kept dashed plain other unfolding normalize_argument_def by (metis option.distinct(1) option.inject)
  qed
  then show ?thesis
  proof cases
    case kept
    then show ?thesis using has_prefix_obtain by blast
  next
    case dashed
    then show ?thesis using dashes argument has_prefix_obtain by fastforce
  next
    case plain
    then show ?thesis using has_prefix_obtain by blast
  qed blast+
qed

lemma normalize_argument_normal:
  assumes "normalize_argument a = Some b" shows "normalize_argument b = Some b" "\<not> owned_argument b"
proof -
  note cases = normalize_argument_cases [OF assms]
  show "normalize_argument b = Some b" using cases assms normal_short(1) normal_parallel(1,3) by blast
  show "\<not> owned_argument b" using cases normal_short(2) normal_parallel(2,4) by (auto simp: owned_argument_def)
qed

text \<open>
  The arguments \<open>Normalize\<close> returns are normal: normalizing them again changes nothing, one stands
  for each argument given, and none is in the name space of the test binary's own flags but the two a
  caller may set.
\<close>

theorem normalize_arguments_normal:
  assumes "normalize_arguments arguments = Inr normal"
  shows "normalize_arguments normal = Inr normal" "length normal = length arguments"
    and "list_all (\<lambda>a. \<not> owned_argument a) normal"
proof -
  have "normalize_arguments normal = Inr normal \<and> length normal = length arguments \<and> list_all (\<lambda>a. \<not> owned_argument a) normal"
    using assms
  proof (induction arguments arbitrary: normal)
    case (Cons a arguments)
    then obtain b rest where "normalize_argument a = Some b" "normalize_arguments arguments = Inr rest" "normal = b # rest"
      by (auto split: option.splits sum.splits)
    with Cons.IH [of rest] normalize_argument_normal [of a b] show ?case by simp
  qed simp
  then show "normalize_arguments normal = Inr normal" "length normal = length arguments"
    "list_all (\<lambda>a. \<not> owned_argument a) normal" by blast+
qed

lemma normalize_arguments_normal_witness:
  "normalize_arguments [''-short'', ''--test.parallel=3'', ''-custom=value''] = Inr [''-test.short=true'', ''-test.parallel=3'', ''-custom=value'']"
  "normalize_arguments [''-test.short=true'', ''-test.parallel=3'', ''-custom=value''] = Inr [''-test.short=true'', ''-test.parallel=3'', ''-custom=value'']"
  "normalize_arguments [''-x'', ''-test.run=A''] = Inl ''-test.run=A''"
proof -
  show sample: "normalize_arguments [''-short'', ''--test.parallel=3'', ''-custom=value''] = Inr [''-test.short=true'', ''-test.parallel=3'', ''-custom=value'']"
    by code_simp
  show "normalize_arguments [''-test.short=true'', ''-test.parallel=3'', ''-custom=value''] = Inr [''-test.short=true'', ''-test.parallel=3'', ''-custom=value'']"
    by (rule normalize_arguments_normal(1) [OF sample])
  show "normalize_arguments [''-x'', ''-test.run=A''] = Inl ''-test.run=A''" by code_simp
qed

end
