(* ===== verification/PathMatch.thy ===== *)
theory PathMatch
  imports Evaluation
begin

text \<open>
  \<open>path.Match\<close> of the Go standard library, which the exclusion of project paths
  (\<open>internal/assure/run.go: projectPathExcluded\<close>) and the paths a repair may touch
  (\<open>internal/assure/generation.go: generationPathAllowed\<close>) rest on: \<open>None\<close> is \<open>ErrBadPattern\<close>. A rune is
  its UTF-8 bytes, whose order is the order of the code points.
\<close>

section \<open>Chunks\<close>

text \<open>\<open>scanChunk\<close>: the part of a pattern up to a star outside a class.\<close>

fun scan_to :: "bool \<Rightarrow> string \<Rightarrow> string \<times> string" where
  "scan_to inrange [] = ([], [])"
| "scan_to inrange (c # cs) =
     (if c = backslash then
        (case cs of [] \<Rightarrow> ([c], []) | d # ds \<Rightarrow> let (chunk, rest) = scan_to inrange ds in (c # d # chunk, rest))
      else if c = CHR ''*'' \<and> \<not> inrange then ([], c # cs)
      else
        let inrange = (if c = CHR ''['' then True else if c = CHR '']'' then False else inrange);
            (chunk, rest) = scan_to inrange cs
        in (c # chunk, rest))"

definition scan_chunk :: "string \<Rightarrow> bool \<times> string \<times> string" where
  "scan_chunk pattern =
     (let body = dropWhile (\<lambda>c. c = CHR ''*'') pattern in (length body < length pattern, scan_to False body))"

lemma scan_to_split: "fst (scan_to inrange s) @ snd (scan_to inrange s) = s"
  by (induction inrange s rule: scan_to.induct) (auto simp: case_prod_beta' Let_def split: list.splits)

lemma scan_to_Nil: "fst (scan_to False s) = [] \<Longrightarrow> s = [] \<or> hd s = CHR ''*''"
  by (cases s) (auto simp: case_prod_beta' Let_def split: list.splits if_splits)

lemma scan_chunk_shorter: "pattern \<noteq> [] \<Longrightarrow> length (snd (snd (scan_chunk pattern))) < length pattern"
proof -
  assume "pattern \<noteq> []"
  let ?body = "dropWhile (\<lambda>c. c = CHR ''*'') pattern"
  have split: "fst (scan_to False ?body) @ snd (scan_to False ?body) = ?body" by (rule scan_to_split)
  then have "length (snd (scan_to False ?body)) \<le> length ?body" by (metis length_append le_add2)
  moreover have "length ?body \<le> length pattern" by (rule length_dropWhile_le)
  moreover have "fst (scan_to False ?body) = [] \<Longrightarrow> length ?body < length pattern"
  proof -
    assume "fst (scan_to False ?body) = []"
    then have "?body = [] \<or> hd ?body = CHR ''*''" by (rule scan_to_Nil)
    then have "?body = []" by (metis (mono_tags, lifting) hd_dropWhile)
    then show ?thesis using \<open>pattern \<noteq> []\<close> by (metis length_greater_0_conv list.size(3))
  qed
  moreover have "fst (scan_to False ?body) \<noteq> [] \<Longrightarrow> length (snd (scan_to False ?body)) < length ?body"
    using split by (metis append_eq_append_conv2 length_append length_greater_0_conv less_add_same_cancel2)
  moreover have "snd (snd (scan_chunk pattern)) = snd (scan_to False ?body)" by (simp add: scan_chunk_def Let_def)
  ultimately show ?thesis by (cases "fst (scan_to False ?body) = []") fastforce+
qed

section \<open>Classes\<close>

definition get_esc :: "string \<Rightarrow> (string \<times> string) option" where
  "get_esc chunk =
     (case chunk of
        [] \<Rightarrow> None
      | c # cs \<Rightarrow>
          if c = CHR ''-'' \<or> c = CHR '']'' then None
          else
            let body = (if c = backslash then cs else chunk) in
            if body = [] then None
            else
              let (n, r) = rune_of body; rest = drop n body
              in if n = 1 \<and> length r \<noteq> 1 \<or> rest = [] then None else Some (r, rest))"

lemma get_esc_shorter: "get_esc chunk = Some (r, rest) \<Longrightarrow> length rest < length chunk"
proof -
  assume esc: "get_esc chunk = Some (r, rest)"
  then obtain c cs where chunk: "chunk = c # cs" by (cases chunk) (auto simp: get_esc_def)
  define body where "body = (if c = backslash then cs else chunk)"
  have "body \<noteq> []" "rest = drop (fst (rune_of body)) body" "length body \<le> length chunk"
    using esc by (auto simp: get_esc_def chunk body_def Let_def split: if_split_asm prod.splits)
  moreover have "0 < length body" using \<open>body \<noteq> []\<close> by simp
  moreover have "0 < fst (rune_of body)" using rune_of_positive \<open>body \<noteq> []\<close> by auto
  moreover have "length rest = length body - fst (rune_of body)" using calculation(2) by simp
  ultimately show ?thesis by linarith
qed

text \<open>The ranges of a class after \<open>[\<close> and \<open>^\<close>: whether one holds the rune, and what follows.\<close>

function class_ranges :: "string \<Rightarrow> bool \<Rightarrow> bool \<Rightarrow> string \<Rightarrow> (bool \<times> string) option" where
  "class_ranges r some matched chunk =
     (if chunk \<noteq> [] \<and> hd chunk = CHR '']'' \<and> some then Some (matched, tl chunk)
      else case get_esc chunk of
        None \<Rightarrow> None
      | Some (lo, rest) \<Rightarrow>
          if rest \<noteq> [] \<and> hd rest = CHR ''-'' then
            (case get_esc (tl rest) of
               None \<Rightarrow> None
             | Some (hi, rest') \<Rightarrow> class_ranges r True (matched \<or> lo \<le> r \<and> r \<le> hi) rest')
          else class_ranges r True (matched \<or> lo = r) rest)"
  by pat_completeness auto
termination
proof (relation "measure (\<lambda>(r, some, matched, chunk). length chunk)", goal_cases)
  case (2 r some matched chunk esc lo rest esc' hi rest')
  then have "length rest < length chunk" "length rest' < length (tl rest)" by (auto dest: get_esc_shorter)
  then show ?case by simp
qed (auto dest: get_esc_shorter)

declare class_ranges.simps [simp del]

lemma class_ranges_shorter: "class_ranges r some matched chunk = Some (m, rest) \<Longrightarrow> length rest < length chunk"
proof (induction r some matched chunk rule: class_ranges.induct)
  case (1 r some matched chunk)
  show ?case
  proof (cases "chunk \<noteq> [] \<and> hd chunk = CHR '']'' \<and> some")
    case True
    then have "class_ranges r some matched chunk = Some (matched, tl chunk)" by (subst class_ranges.simps) simp
    with 1(3) True show ?thesis by simp
  next
    case False
    then obtain lo rest1 where esc: "get_esc chunk = Some (lo, rest1)"
      using 1(3) by (auto simp: class_ranges.simps [of r some matched chunk] split: option.splits if_split_asm)
    note short = get_esc_shorter [OF esc]
    show ?thesis
    proof (cases "rest1 \<noteq> [] \<and> hd rest1 = CHR ''-''")
      case range: True
      then obtain hi rest2 where hi: "get_esc (tl rest1) = Some (hi, rest2)"
        using 1(3) False esc by (auto simp: class_ranges.simps [of r some matched chunk] split: option.splits if_split_asm)
      have "class_ranges r True (matched \<or> lo \<le> r \<and> r \<le> hi) rest2 = Some (m, rest)"
        using 1(3) False esc range hi by (auto simp: class_ranges.simps [of r some matched chunk])
      from 1(1) [OF False esc refl range hi refl this] short get_esc_shorter [OF hi] show ?thesis by simp
    next
      case single: False
      have "class_ranges r True (matched \<or> lo = r) rest1 = Some (m, rest)"
        using 1(3) False esc single by (auto simp: class_ranges.simps [of r some matched chunk] split: if_split_asm)
      from 1(2) [OF False esc refl single this] short show ?thesis by simp
    qed
  qed
qed

section \<open>Matching\<close>

text \<open>\<open>matchChunk\<close>: after a failure the chunk is still read for its syntax.\<close>

function match_chunk :: "string \<Rightarrow> string \<Rightarrow> bool \<Rightarrow> string option option" where
  "match_chunk [] s failed = Some (if failed then None else Some s)"
| "match_chunk (c # chunk) s failed =
     (let failed = (failed \<or> s = []) in
      if c = CHR ''['' then
        (let negated = (chunk \<noteq> [] \<and> hd chunk = CHR ''^'');
             body = (if negated then tl chunk else chunk);
             (n, r) = (if failed then (0, []) else rune_of s)
         in case class_ranges r False False body of
              None \<Rightarrow> None
            | Some (matched, rest) \<Rightarrow> match_chunk rest (drop n s) (failed \<or> matched = negated))
      else if c = CHR ''?'' then
        (if failed then match_chunk chunk s True
         else match_chunk chunk (drop (fst (rune_of s)) s) (hd s = CHR ''/''))
      else if c = backslash then
        (case chunk of
           [] \<Rightarrow> None
         | d # ds \<Rightarrow> if failed then match_chunk ds s True else match_chunk ds (tl s) (d \<noteq> hd s))
      else if failed then match_chunk chunk s True else match_chunk chunk (tl s) (c \<noteq> hd s))"
  by pat_completeness auto
termination
proof (relation "measure (\<lambda>(chunk, s, failed). length chunk)", goal_cases)
  case (2 c chunk s failed failed' negated body x n r option matched rest)
  then have "length rest < length body" by (auto dest: class_ranges_shorter)
  moreover have "length body \<le> length chunk" using 2 by auto
  ultimately show ?case by simp
qed auto

text \<open>The places after a star: no byte of a step over a slash.\<close>

datatype star_result = BadPattern | NoPlace | Place string

fun star_search :: "string \<Rightarrow> bool \<Rightarrow> string \<Rightarrow> star_result" where
  "star_search chunk final [] = NoPlace"
| "star_search chunk final (c # name) =
     (if c = CHR ''/'' then NoPlace
      else case match_chunk chunk name False of
        None \<Rightarrow> BadPattern
      | Some None \<Rightarrow> star_search chunk final name
      | Some (Some rest) \<Rightarrow> if final \<and> rest \<noteq> [] then star_search chunk final name else Place rest)"

function well_formed_rest :: "string \<Rightarrow> bool" where
  "well_formed_rest pattern =
     (if pattern = [] then True
      else match_chunk (fst (snd (scan_chunk pattern))) [] False \<noteq> None \<and> well_formed_rest (snd (snd (scan_chunk pattern))))"
  by pat_completeness auto
termination
  by (relation "measure length") (auto dest: scan_chunk_shorter)

declare well_formed_rest.simps [simp del]

function path_match :: "string \<Rightarrow> string \<Rightarrow> bool option" where
  "path_match pattern name =
     (if pattern = [] then Some (name = [])
      else
        let star = fst (scan_chunk pattern); chunk = fst (snd (scan_chunk pattern)); rest = snd (snd (scan_chunk pattern));
            fail = (if well_formed_rest rest then Some False else None)
        in if star \<and> chunk = [] then Some (CHR ''/'' \<notin> set name)
           else case match_chunk chunk name False of
             None \<Rightarrow> None
           | Some found \<Rightarrow>
               if found \<noteq> None \<and> (found = Some [] \<or> rest \<noteq> []) then path_match rest (the found)
               else if star then
                 (case star_search chunk (rest = []) name of
                    BadPattern \<Rightarrow> None
                  | NoPlace \<Rightarrow> fail
                  | Place left \<Rightarrow> path_match rest left)
               else fail)"
  by pat_completeness auto
termination
  by (relation "measure (\<lambda>(pattern, name). length pattern)") (auto dest: scan_chunk_shorter)

declare path_match.simps [simp del]

section \<open>Patterns without special characters\<close>

definition literal_pattern :: "string \<Rightarrow> bool" where
  "literal_pattern pattern \<longleftrightarrow> set pattern \<inter> {CHR ''*'', CHR ''?'', CHR ''['', backslash} = {}"

lemma literal_pattern_Cons:
  "literal_pattern (c # s) \<longleftrightarrow>
     c \<noteq> CHR ''*'' \<and> c \<noteq> CHR ''?'' \<and> c \<noteq> CHR ''['' \<and> c \<noteq> backslash \<and> literal_pattern s"
  by (auto simp: literal_pattern_def)

lemma scan_to_literal: "literal_pattern s \<Longrightarrow> scan_to inrange s = (s, [])"
proof (induction s arbitrary: inrange)
  case (Cons c s)
  then show ?case by (simp add: literal_pattern_Cons Let_def)
qed simp

lemma match_chunk_literal:
  "literal_pattern chunk \<Longrightarrow>
   match_chunk chunk s failed = Some (if failed \<or> \<not> has_prefix s chunk then None else Some (drop (length chunk) s))"
proof (induction chunk arbitrary: s failed)
  case (Cons c chunk)
  then have plain: "c \<noteq> CHR ''?''" "c \<noteq> CHR ''[''" "c \<noteq> backslash" "literal_pattern chunk"
    by (simp_all add: literal_pattern_Cons)
  have "match_chunk (c # chunk) s failed =
    (if failed \<or> s = [] then match_chunk chunk s True else match_chunk chunk (tl s) (c \<noteq> hd s))"
    unfolding match_chunk.simps Let_def using plain by simp
  then show ?case unfolding Cons.IH [OF plain(4)] by (cases s) (auto simp: has_prefix_def)
qed (simp add: has_prefix_def)

lemma path_match_literal:
  assumes "literal_pattern pattern" shows "path_match pattern name = Some (name = pattern)"
proof (cases pattern)
  case (Cons c cs)
  then have "dropWhile (\<lambda>c. c = CHR ''*'') pattern = pattern" using assms by (simp add: literal_pattern_Cons)
  then have scan: "scan_chunk pattern = (False, pattern, [])"
    using scan_to_literal [OF assms] by (simp add: scan_chunk_def Let_def)
  have empty: "well_formed_rest []" "path_match [] x = Some (x = [])" for x
    by (simp_all add: well_formed_rest.simps path_match.simps)
  have "pattern \<noteq> []" using Cons by simp
  then show ?thesis
    using match_chunk_literal [OF assms, of name False]
    by (simp add: path_match.simps [of pattern name] scan empty Let_def has_prefix_def)
      (metis append_Nil2 append_take_drop_id drop_eq_Nil order_refl take_all)
qed (simp add: path_match.simps)

lemma path_match_samples:
  "path_match ''*.go'' ''a.go'' = Some True" "path_match ''*.go'' ''d/a.go'' = Some False"
  "path_match ''a[b-d]?'' ''acx'' = Some True" "path_match ''a['' ''a'' = None" "path_match ''a*b*c'' ''axxbyyc'' = Some True"
  by code_simp+

end
