(* ===== verification/Config.thy ===== *)
theory Config
  imports Environment PathMatch GoTime Fallible
begin

text \<open>
  \<open>config/config.go\<close>: the configuration file of a repository, its validation, and the acceptance a user
  adds to it. The TOML library is a parameter: \<open>Load\<close> gets the decoded document and \<open>save\<close> returns the
  one to encode. \<open>durations\<close> is \<open>time.ParseDuration\<close> (whose fractions are floating point) and the
  texts are \<open>Duration.String\<close> and \<open>Time.Format\<close>. A time is an instant as in \<open>GoTime\<close>.
\<close>

section \<open>Data\<close>

record resource_config =
  rc_Command :: "string list"
  rc_Timeout :: int
  rc_Shared :: bool
  rc_Exclusive :: bool
  rc_Environment :: "string list"

record accepted_risk =
  ak_ID :: string
  ak_Reason :: string
  ak_Expires :: int
  ak_Owner :: string
  ak_Ticket :: string

record config =
  cf_Contract :: string
  cf_ProjectPackages :: "string list"
  cf_ProjectExclude :: "string list"
  cf_BuildTags :: "string list"
  cf_TestBinaryArgs :: "string list"
  cf_ExecutionEnvironment :: "string list"
  cf_ExecutionTimeout :: int
  cf_ExecutionJobs :: int
  cf_CacheMaxBytes :: int
  cf_CacheTTL :: int
  cf_BuildMaxBytes :: int
  cf_BuildDir :: string
  cf_ReportsKeep :: int
  cf_Resources :: "(string \<times> resource_config) list"
  cf_GenerationCommand :: "string list"
  cf_GenerationAllowedPaths :: "string list"
  cf_GenerationEnvironment :: "string list"
  cf_Acceptance :: "accepted_risk list"

record raw_resource =
  rw_Command :: "string list"
  rw_Timeout :: string
  rw_Shared :: bool
  rw_Exclusive :: bool
  rw_Environment :: "string list"

record raw_acceptance =
  ra_ID :: string
  ra_Reason :: string
  ra_Expires :: string
  ra_Owner :: string
  ra_Ticket :: string

record raw_config =
  raw_Version :: int
  raw_Contract :: string
  raw_ProjectPackages :: "string list"
  raw_ProjectExclude :: "string list"
  raw_BuildTags :: "string list"
  raw_TestBinaryArgs :: "string list"
  raw_ExecutionEnvironment :: "string list"
  raw_ExecutionTimeout :: string
  raw_ExecutionJobs :: int
  raw_CacheMaxBytes :: int
  raw_CacheTTL :: string
  raw_BuildMaxBytes :: int
  raw_BuildDir :: string
  raw_ReportsKeep :: int
  raw_Resources :: "(string \<times> raw_resource) list"
  raw_GenerationCommand :: "string list"
  raw_GenerationAllowedPaths :: "string list"
  raw_GenerationEnvironment :: "string list"
  raw_Acceptances :: "raw_acceptance list"

datatype config_error =
    ConfigVersion int
  | ConfigContract string
  | ExcludeInvalid string
  | ExcludeEscapes string
  | ExcludeDuplicated string
  | TimeoutNotPositive string
  | NegativeJobs
  | ExecutionArguments string
  | NameInvalid string string
  | NameDuplicated string string
  | NegativeMaxBytes
  | NegativeBuildMaxBytes
  | BuildDirWhitespace string
  | NegativeKeep
  | TTLNotPositive string
  | ResourceCommand string
  | ResourceTimeoutInvalid string string
  | ResourceTimeoutNotPositive string string
  | SharedAndExclusive string
  | AcceptanceIncomplete
  | AcceptanceWhitespace string
  | AcceptanceDuplicated string
  | AcceptanceExpiry string

section \<open>Validation\<close>

definition valid_name_start :: "char \<Rightarrow> bool" where
  "valid_name_start c \<longleftrightarrow> c = CHR ''_'' \<or> CHR ''A'' \<le> c \<and> c \<le> CHR ''Z'' \<or> CHR ''a'' \<le> c \<and> c \<le> CHR ''z''"

definition valid_name_character :: "char \<Rightarrow> bool" where
  "valid_name_character c \<longleftrightarrow> valid_name_start c \<or> CHR ''0'' \<le> c \<and> c \<le> CHR ''9''"

definition valid_environment_name :: "string \<Rightarrow> bool" where
  "valid_environment_name name \<longleftrightarrow> name \<noteq> [] \<and> valid_name_start (hd name) \<and> list_all valid_name_character (tl name)"

fun validate_environment_names :: "(string \<Rightarrow> string) \<Rightarrow> string \<Rightarrow> string list \<Rightarrow> string list \<Rightarrow> config_error option" where
  "validate_environment_names upper place seen [] = None"
| "validate_environment_names upper place seen (name # names) =
     (if \<not> valid_environment_name name then Some (NameInvalid place name)
      else if upper name \<in> set seen then Some (NameDuplicated place name)
      else validate_environment_names upper place (upper name # seen) names)"

fun validate_project_excludes :: "string list \<Rightarrow> string list \<Rightarrow> config_error option" where
  "validate_project_excludes seen [] = None"
| "validate_project_excludes seen (pattern # patterns) =
     (if pattern = [] \<or> trim_space pattern \<noteq> pattern \<or> has_prefix pattern ''/'' \<or>
         set pattern \<inter> {backslash, CHR '':'', nul} \<noteq> {} then Some (ExcludeInvalid pattern)
      else if ''..'' \<in> set (split_on (CHR ''/'') pattern) then Some (ExcludeEscapes pattern)
      else if path_match pattern ''probe'' = None then Some (ExcludeInvalid pattern)
      else if pattern \<in> set seen then Some (ExcludeDuplicated pattern)
      else validate_project_excludes (pattern # seen) patterns)"

section \<open>Loading\<close>

definition default_execution_timeout :: int where "default_execution_timeout = 10 * 60 * 10 ^ 9"
definition default_cache_max_bytes :: int where "default_cache_max_bytes = 5 * 2 ^ 30"
definition default_cache_ttl :: int where "default_cache_ttl = 30 * 24 * 3600 * 10 ^ 9"
definition default_build_max_bytes :: int where "default_build_max_bytes = 2 * 2 ^ 30"
definition default_resource_timeout :: int where "default_resource_timeout = 30 * 10 ^ 9"
definition default_reports_keep :: int where "default_reports_keep = 20"

definition default_config :: config where
  "default_config =
     \<lparr>cf_Contract = ''standard-v1'', cf_ProjectPackages = [''./...''], cf_ProjectExclude = [],
      cf_BuildTags = [], cf_TestBinaryArgs = [], cf_ExecutionEnvironment = [],
      cf_ExecutionTimeout = default_execution_timeout, cf_ExecutionJobs = 0,
      cf_CacheMaxBytes = default_cache_max_bytes, cf_CacheTTL = default_cache_ttl,
      cf_BuildMaxBytes = default_build_max_bytes, cf_BuildDir = [], cf_ReportsKeep = default_reports_keep,
      cf_Resources = [], cf_GenerationCommand = [], cf_GenerationAllowedPaths = [], cf_GenerationEnvironment = [],
      cf_Acceptance = []\<rparr>"

definition zero_default :: "int \<Rightarrow> int \<Rightarrow> int" where
  "zero_default n fallback = (if n = 0 then fallback else n)"

text \<open>A duration of the file, which has to be positive where it is given.\<close>

definition positive_duration :: "(string \<Rightarrow> int option) \<Rightarrow> (string \<Rightarrow> config_error) \<Rightarrow> int \<Rightarrow> string \<Rightarrow> config_error + int" where
  "positive_duration durations failure fallback text =
     (if text = [] then Inr fallback
      else case durations text of
        None \<Rightarrow> Inl (failure text)
      | Some d \<Rightarrow> if d \<le> 0 then Inl (failure text) else Inr d)"

definition load_resource ::
  "(string \<Rightarrow> int option) \<Rightarrow> (string \<Rightarrow> string) \<Rightarrow> string \<times> raw_resource \<Rightarrow> config_error + string \<times> resource_config" where
  "load_resource durations upper item =
     (let (name, raw) = item in
      require (\<not> (name = [] \<or> rw_Command raw = [] \<or> hd (rw_Command raw) = [])) (ResourceCommand name)
      (attempt (if rw_Timeout raw = [] then Inr default_resource_timeout
                else case durations (rw_Timeout raw) of
                  None \<Rightarrow> Inl (ResourceTimeoutInvalid name (rw_Timeout raw))
                | Some d \<Rightarrow> if d \<le> 0 then Inl (ResourceTimeoutNotPositive name (rw_Timeout raw)) else Inr d) (\<lambda>timeout.
       require (\<not> (rw_Shared raw \<and> rw_Exclusive raw)) (SharedAndExclusive name)
      (check (validate_environment_names upper name [] (rw_Environment raw))
      (Inr (name, \<lparr>rc_Command = rw_Command raw, rc_Timeout = timeout, rc_Shared = rw_Shared raw,
                   rc_Exclusive = rw_Exclusive raw, rc_Environment = rw_Environment raw\<rparr>))))))"

fun load_acceptances :: "string list \<Rightarrow> raw_acceptance list \<Rightarrow> config_error + accepted_risk list" where
  "load_acceptances seen [] = Inr []"
| "load_acceptances seen (raw # raws) =
     (if trim_space (ra_ID raw) = [] \<or> trim_space (ra_Reason raw) = [] \<or> ra_Expires raw = [] then Inl AcceptanceIncomplete
      else if ra_ID raw \<noteq> trim_space (ra_ID raw) \<or> ra_Reason raw \<noteq> trim_space (ra_Reason raw) \<or>
              ra_Owner raw \<noteq> trim_space (ra_Owner raw) \<or> ra_Ticket raw \<noteq> trim_space (ra_Ticket raw)
        then Inl (AcceptanceWhitespace (ra_ID raw))
      else if ra_ID raw \<in> set seen then Inl (AcceptanceDuplicated (ra_ID raw))
      else case parse_rfc3339 (ra_Expires raw) of
        None \<Rightarrow> Inl (AcceptanceExpiry (ra_ID raw))
      | Some expires \<Rightarrow>
          attempt (load_acceptances (ra_ID raw # seen) raws) (\<lambda>rest.
          Inr (\<lparr>ak_ID = ra_ID raw, ak_Reason = ra_Reason raw, ak_Expires = expires,
                ak_Owner = ra_Owner raw, ak_Ticket = ra_Ticket raw\<rparr> # rest)))"

definition contract_or_default :: "string \<Rightarrow> string" where
  "contract_or_default contract = (if contract = [] then ''standard-v1'' else contract)"

text \<open>The checks before the resources, in the order of the code.\<close>

definition checked_settings :: "(string \<Rightarrow> int option) \<Rightarrow> (string \<Rightarrow> string) \<Rightarrow> raw_config \<Rightarrow> config_error + config" where
  "checked_settings durations upper raw =
     require (raw_Version raw = 1) (ConfigVersion (raw_Version raw))
     (require (contract_or_default (raw_Contract raw) \<in> {''standard-v1'', ''deep-v1''})
        (ConfigContract (contract_or_default (raw_Contract raw)))
     (check (validate_project_excludes [] (raw_ProjectExclude raw))
     (attempt (positive_duration durations TimeoutNotPositive default_execution_timeout (raw_ExecutionTimeout raw)) (\<lambda>timeout.
      require (0 \<le> raw_ExecutionJobs raw) NegativeJobs
     (attempt (case normalize_arguments (raw_TestBinaryArgs raw) of Inl a \<Rightarrow> Inl (ExecutionArguments a) | Inr normal \<Rightarrow> Inr normal) (\<lambda>arguments.
      check (validate_environment_names upper ''execution'' [] (raw_ExecutionEnvironment raw))
     (check (validate_environment_names upper ''generation'' [] (raw_GenerationEnvironment raw))
     (require (0 \<le> zero_default (raw_CacheMaxBytes raw) default_cache_max_bytes) NegativeMaxBytes
     (require (0 \<le> zero_default (raw_BuildMaxBytes raw) default_build_max_bytes) NegativeBuildMaxBytes
     (require (trim_space (raw_BuildDir raw) = raw_BuildDir raw) (BuildDirWhitespace (raw_BuildDir raw))
     (require (0 \<le> zero_default (raw_ReportsKeep raw) default_reports_keep) NegativeKeep
     (attempt (positive_duration durations TTLNotPositive default_cache_ttl (raw_CacheTTL raw)) (\<lambda>ttl.
      Inr \<lparr>cf_Contract = contract_or_default (raw_Contract raw),
           cf_ProjectPackages = (if raw_ProjectPackages raw = [] then [''./...''] else raw_ProjectPackages raw),
           cf_ProjectExclude = raw_ProjectExclude raw,
           cf_BuildTags = raw_BuildTags raw, cf_TestBinaryArgs = arguments,
           cf_ExecutionEnvironment = raw_ExecutionEnvironment raw,
           cf_ExecutionTimeout = timeout, cf_ExecutionJobs = raw_ExecutionJobs raw,
           cf_CacheMaxBytes = zero_default (raw_CacheMaxBytes raw) default_cache_max_bytes, cf_CacheTTL = ttl,
           cf_BuildMaxBytes = zero_default (raw_BuildMaxBytes raw) default_build_max_bytes,
           cf_BuildDir = trim_space (raw_BuildDir raw),
           cf_ReportsKeep = zero_default (raw_ReportsKeep raw) default_reports_keep,
           cf_Resources = [], cf_GenerationCommand = raw_GenerationCommand raw,
           cf_GenerationAllowedPaths = raw_GenerationAllowedPaths raw,
           cf_GenerationEnvironment = raw_GenerationEnvironment raw, cf_Acceptance = []\<rparr>)))))))))))))"

text \<open>\<open>None\<close> is the file that does not exist.\<close>

definition load_config :: "(string \<Rightarrow> int option) \<Rightarrow> (string \<Rightarrow> string) \<Rightarrow> raw_config option \<Rightarrow> config_error + config" where
  "load_config durations upper document =
     (case document of
        None \<Rightarrow> Inr default_config
      | Some raw \<Rightarrow>
          attempt (checked_settings durations upper raw) (\<lambda>settings.
          attempt (attempt_each (load_resource durations upper) (raw_Resources raw)) (\<lambda>resources.
          attempt (load_acceptances [] (raw_Acceptances raw)) (\<lambda>acceptance.
          Inr (settings\<lparr>cf_Resources := resources, cf_Acceptance := acceptance\<rparr>)))))"

section \<open>Saving\<close>

record texts =
  tx_duration :: "int \<Rightarrow> string"
  tx_time :: "int \<Rightarrow> string"

definition raw_resource_of :: "texts \<Rightarrow> resource_config \<Rightarrow> raw_resource" where
  "raw_resource_of texts r =
     \<lparr>rw_Command = rc_Command r, rw_Timeout = tx_duration texts (rc_Timeout r), rw_Shared = rc_Shared r,
      rw_Exclusive = rc_Exclusive r, rw_Environment = rc_Environment r\<rparr>"

definition raw_acceptance_of :: "texts \<Rightarrow> accepted_risk \<Rightarrow> raw_acceptance" where
  "raw_acceptance_of texts a =
     \<lparr>ra_ID = ak_ID a, ra_Reason = ak_Reason a, ra_Expires = tx_time texts (ak_Expires a),
      ra_Owner = ak_Owner a, ra_Ticket = ak_Ticket a\<rparr>"

definition saved_config :: "texts \<Rightarrow> config \<Rightarrow> raw_config" where
  "saved_config texts input =
     \<lparr>raw_Version = 1, raw_Contract = cf_Contract input,
      raw_ProjectPackages = cf_ProjectPackages input, raw_ProjectExclude = cf_ProjectExclude input,
      raw_BuildTags = cf_BuildTags input, raw_TestBinaryArgs = cf_TestBinaryArgs input,
      raw_ExecutionEnvironment = cf_ExecutionEnvironment input,
      raw_ExecutionTimeout = tx_duration texts (cf_ExecutionTimeout input), raw_ExecutionJobs = cf_ExecutionJobs input,
      raw_CacheMaxBytes = cf_CacheMaxBytes input, raw_CacheTTL = tx_duration texts (cf_CacheTTL input),
      raw_BuildMaxBytes = cf_BuildMaxBytes input, raw_BuildDir = cf_BuildDir input,
      raw_ReportsKeep = cf_ReportsKeep input,
      raw_Resources = map (\<lambda>(name, r). (name, raw_resource_of texts r)) (cf_Resources input),
      raw_GenerationCommand = cf_GenerationCommand input, raw_GenerationAllowedPaths = cf_GenerationAllowedPaths input,
      raw_GenerationEnvironment = cf_GenerationEnvironment input,
      raw_Acceptances = map (raw_acceptance_of texts) (cf_Acceptance input)\<rparr>"

datatype add_error =
    AddIncomplete
  | AddWhitespace
  | AddLoad config_error
  | AddExists string

text \<open>The instant \<open>IsZero\<close> asks for: the first of January of the year 1.\<close>

definition zero_time :: int where "zero_time = 366 * (86400 * 10 ^ 9)"

definition compare_risks :: "accepted_risk \<Rightarrow> accepted_risk \<Rightarrow> int" where
  "compare_risks a b = cmp_compare (ak_ID a) (ak_ID b)"

text \<open>The document \<open>AddAcceptance\<close> hands to \<open>save\<close>.\<close>

definition add_acceptance ::
  "(string \<Rightarrow> int option) \<Rightarrow> (string \<Rightarrow> string) \<Rightarrow> texts \<Rightarrow> raw_config option \<Rightarrow> accepted_risk \<Rightarrow> add_error + raw_config" where
  "add_acceptance durations upper texts document a =
     (if trim_space (ak_ID a) = [] \<or> trim_space (ak_Reason a) = [] \<or> ak_Expires a = zero_time then Inl AddIncomplete
      else if ak_ID a \<noteq> trim_space (ak_ID a) \<or> ak_Reason a \<noteq> trim_space (ak_Reason a) \<or>
              ak_Owner a \<noteq> trim_space (ak_Owner a) \<or> ak_Ticket a \<noteq> trim_space (ak_Ticket a) then Inl AddWhitespace
      else case load_config durations upper document of
        Inl e \<Rightarrow> Inl (AddLoad e)
      | Inr loaded \<Rightarrow>
          if ak_ID a \<in> ak_ID ` set (cf_Acceptance loaded) then Inl (AddExists (ak_ID a))
          else Inr (saved_config texts
                 (loaded\<lparr>cf_Acceptance := sort_func compare_risks (cf_Acceptance loaded @ [a])\<rparr>)))"

section \<open>What a loaded configuration is\<close>

definition risk_ok :: "accepted_risk \<Rightarrow> bool" where
  "risk_ok a \<longleftrightarrow>
     ak_ID a \<noteq> [] \<and> ak_Reason a \<noteq> [] \<and> trim_space (ak_ID a) = ak_ID a \<and> trim_space (ak_Reason a) = ak_Reason a \<and>
     trim_space (ak_Owner a) = ak_Owner a \<and> trim_space (ak_Ticket a) = ak_Ticket a"

definition resource_ok :: "(string \<Rightarrow> string) \<Rightarrow> string \<times> resource_config \<Rightarrow> bool" where
  "resource_ok upper item \<longleftrightarrow>
     fst item \<noteq> [] \<and> rc_Command (snd item) \<noteq> [] \<and> hd (rc_Command (snd item)) \<noteq> [] \<and> 0 < rc_Timeout (snd item) \<and>
     \<not> (rc_Shared (snd item) \<and> rc_Exclusive (snd item)) \<and>
     validate_environment_names upper (fst item) [] (rc_Environment (snd item)) = None"

definition settings_ok :: "(string \<Rightarrow> string) \<Rightarrow> config \<Rightarrow> bool" where
  "settings_ok upper cf \<longleftrightarrow>
     cf_Contract cf \<in> {''standard-v1'', ''deep-v1''} \<and> cf_ProjectPackages cf \<noteq> [] \<and>
     validate_project_excludes [] (cf_ProjectExclude cf) = None \<and> 0 < cf_ExecutionTimeout cf \<and> 0 \<le> cf_ExecutionJobs cf \<and>
     normalize_arguments (cf_TestBinaryArgs cf) = Inr (cf_TestBinaryArgs cf) \<and>
     validate_environment_names upper ''execution'' [] (cf_ExecutionEnvironment cf) = None \<and>
     validate_environment_names upper ''generation'' [] (cf_GenerationEnvironment cf) = None \<and>
     0 < cf_CacheMaxBytes cf \<and> 0 < cf_BuildMaxBytes cf \<and> trim_space (cf_BuildDir cf) = cf_BuildDir cf \<and>
     0 < cf_ReportsKeep cf \<and> 0 < cf_CacheTTL cf"

definition config_ok :: "(string \<Rightarrow> string) \<Rightarrow> config \<Rightarrow> bool" where
  "config_ok upper cf \<longleftrightarrow>
     settings_ok upper cf \<and> list_all (resource_ok upper) (cf_Resources cf) \<and> list_all risk_ok (cf_Acceptance cf) \<and>
     distinct (map ak_ID (cf_Acceptance cf))"

lemma positive_duration_Inr:
  "positive_duration durations failure fallback text = Inr d \<Longrightarrow> 0 < fallback \<Longrightarrow> 0 < d"
  by (auto simp: positive_duration_def split: if_splits option.splits)

lemma normalize_twice: "normalize_arguments arguments = Inr normal \<Longrightarrow> normalize_arguments normal = Inr normal"
proof (induction arguments arbitrary: normal)
  case (Cons a arguments)
  then obtain b rest where "normalize_argument a = Some b" "normalize_arguments arguments = Inr rest" "normal = b # rest"
    by (auto split: option.splits sum.splits)
  with Cons.IH [of rest] normalize_argument_normal [of a b] show ?case by simp
qed simp

lemma checked_settings_ok:
  assumes "checked_settings durations upper raw = Inr cf"
  shows "settings_ok upper cf \<and> cf_Resources cf = [] \<and> cf_Acceptance cf = []"
proof -
  from assms obtain timeout arguments ttl where
    "positive_duration durations TimeoutNotPositive default_execution_timeout (raw_ExecutionTimeout raw) = Inr timeout"
    "positive_duration durations TTLNotPositive default_cache_ttl (raw_CacheTTL raw) = Inr ttl"
    "normalize_arguments (raw_TestBinaryArgs raw) = Inr arguments"
    and cf: "cf_ExecutionTimeout cf = timeout" "cf_CacheTTL cf = ttl" "cf_TestBinaryArgs cf = arguments"
    by (auto simp: checked_settings_def split: sum.split_asm)
  then have "0 < timeout" "0 < ttl" "normalize_arguments arguments = Inr arguments"
    using positive_duration_Inr normalize_twice by (fastforce simp: default_execution_timeout_def default_cache_ttl_def)+
  then show ?thesis using assms unfolding settings_ok_def cf
    by (auto simp: checked_settings_def zero_default_def default_cache_max_bytes_def default_build_max_bytes_def default_reports_keep_def
        split: if_splits)
qed

lemma load_resource_ok: "load_resource durations upper item = Inr r \<Longrightarrow> resource_ok upper r"
  by (cases item) (auto simp: load_resource_def resource_ok_def default_resource_timeout_def split: if_splits option.splits)

lemma load_acceptances_ok:
  "load_acceptances seen raws = Inr risks \<Longrightarrow>
   list_all risk_ok risks \<and> distinct (map ak_ID risks) \<and> set (map ak_ID risks) \<inter> set seen = {}"
proof (induction raws arbitrary: seen risks)
  case (Cons raw raws)
  then obtain expires rest where raw: "\<not> (trim_space (ra_ID raw) = [] \<or> trim_space (ra_Reason raw) = [] \<or> ra_Expires raw = [])"
    "\<not> (ra_ID raw \<noteq> trim_space (ra_ID raw) \<or> ra_Reason raw \<noteq> trim_space (ra_Reason raw) \<or>
        ra_Owner raw \<noteq> trim_space (ra_Owner raw) \<or> ra_Ticket raw \<noteq> trim_space (ra_Ticket raw))"
    "ra_ID raw \<notin> set seen" "load_acceptances (ra_ID raw # seen) raws = Inr rest"
    and risks: "risks = \<lparr>ak_ID = ra_ID raw, ak_Reason = ra_Reason raw, ak_Expires = expires,
      ak_Owner = ra_Owner raw, ak_Ticket = ra_Ticket raw\<rparr> # rest"
    by (auto split: if_split_asm option.split_asm)
  then have fields: "ak_ID (hd risks) = ra_ID raw" "ak_Reason (hd risks) = ra_Reason raw" "ak_Owner (hd risks) = ra_Owner raw"
    "ak_Ticket (hd risks) = ra_Ticket raw" by simp_all
  have "risk_ok (hd risks)" using raw(1,2) unfolding risk_ok_def fields by metis
  then show ?case using Cons.IH [OF raw(4)] raw(3) by (auto simp: risks)
qed simp

lemma load_config_ok:
  assumes "load_config durations upper document = Inr cf"
  shows "config_ok upper cf"
proof (cases document)
  case None
  then have "cf = default_config" using assms by (simp add: load_config_def)
  moreover have "trim_space [] = []" by code_simp
  ultimately show ?thesis
    by (simp add: config_ok_def settings_ok_def default_config_def default_execution_timeout_def default_cache_max_bytes_def
        default_build_max_bytes_def default_cache_ttl_def default_reports_keep_def)
next
  case (Some raw)
  then obtain settings resources risks where settings: "checked_settings durations upper raw = Inr settings"
    and resources: "attempt_each (load_resource durations upper) (raw_Resources raw) = Inr resources"
    and risks: "load_acceptances [] (raw_Acceptances raw) = Inr risks"
    and cf: "cf = settings\<lparr>cf_Resources := resources, cf_Acceptance := risks\<rparr>"
    using assms by (auto simp: load_config_def)
  have "list_all (resource_ok upper) resources"
    using attempt_each_member [OF resources] load_resource_ok by (metis list_all_iff)
  then show ?thesis using checked_settings_ok [OF settings] load_acceptances_ok [OF risks]
    by (auto simp: cf config_ok_def settings_ok_def)
qed


section \<open>What a saved configuration loads as\<close>

text \<open>The durations and the times of a configuration read back from their texts.\<close>

definition readable :: "(string \<Rightarrow> int option) \<Rightarrow> texts \<Rightarrow> config \<Rightarrow> bool" where
  "readable durations texts cf \<longleftrightarrow>
     list_all (\<lambda>d. tx_duration texts d \<noteq> [] \<and> durations (tx_duration texts d) = Some d)
       ([cf_ExecutionTimeout cf, cf_CacheTTL cf] @ map (rc_Timeout \<circ> snd) (cf_Resources cf)) \<and>
     list_all (\<lambda>a. tx_time texts (ak_Expires a) \<noteq> [] \<and> parse_rfc3339 (tx_time texts (ak_Expires a)) = Some (ak_Expires a)) (cf_Acceptance cf)"

lemma load_saved_resource:
  assumes "resource_ok upper item" "tx_duration texts (rc_Timeout (snd item)) \<noteq> []"
    and "durations (tx_duration texts (rc_Timeout (snd item))) = Some (rc_Timeout (snd item))"
  shows "load_resource durations upper (fst item, raw_resource_of texts (snd item)) = Inr item"
  using assms by (cases item) (simp add: load_resource_def resource_ok_def raw_resource_of_def)

lemma load_saved_acceptances:
  assumes "list_all risk_ok risks" "distinct (map ak_ID risks)" "set (map ak_ID risks) \<inter> set seen = {}"
    and "list_all (\<lambda>a. tx_time texts (ak_Expires a) \<noteq> [] \<and> parse_rfc3339 (tx_time texts (ak_Expires a)) = Some (ak_Expires a)) risks"
  shows "load_acceptances seen (map (raw_acceptance_of texts) risks) = Inr risks"
  using assms
proof (induction risks arbitrary: seen)
  case (Cons a risks)
  from Cons.prems have "load_acceptances (ak_ID a # seen) (map (raw_acceptance_of texts) risks) = Inr risks"
    by (intro Cons.IH) auto
  moreover have "risk_ok a" "ak_ID a \<notin> set seen" using Cons.prems by simp_all
  moreover have "ra_ID (raw_acceptance_of texts a) = ak_ID a" "ra_Reason (raw_acceptance_of texts a) = ak_Reason a"
    "ra_Owner (raw_acceptance_of texts a) = ak_Owner a" "ra_Ticket (raw_acceptance_of texts a) = ak_Ticket a"
    "ra_Expires (raw_acceptance_of texts a) = tx_time texts (ak_Expires a)" by (simp_all add: raw_acceptance_of_def)
  ultimately show ?case using Cons.prems(4) by (simp add: risk_ok_def)
qed simp

lemma load_saved_config:
  assumes "config_ok upper cf" "readable durations texts cf"
  shows "load_config durations upper (Some (saved_config texts cf)) = Inr cf"
proof -
  define raw where "raw = saved_config texts cf"
  have settings: "checked_settings durations upper raw = Inr (cf\<lparr>cf_Resources := [], cf_Acceptance := []\<rparr>)"
    using assms
    by (auto simp: raw_def saved_config_def checked_settings_def config_ok_def settings_ok_def readable_def positive_duration_def
        contract_or_default_def zero_default_def)
  have "attempt_each (load_resource durations upper) (raw_Resources raw) = Inr (cf_Resources cf)"
  proof -
    have "\<forall>item \<in> set (cf_Resources cf). load_resource durations upper (fst item, raw_resource_of texts (snd item)) = Inr item"
      using assms by (auto simp: list_all_iff config_ok_def readable_def intro!: load_saved_resource)
    then show ?thesis unfolding attempt_each_Inr raw_def saved_config_def
      by (simp add: list_all2_map1 case_prod_beta' list_all2_same)
  qed
  moreover have "load_acceptances [] (raw_Acceptances raw) = Inr (cf_Acceptance cf)"
    using assms load_saved_acceptances [of "cf_Acceptance cf" "[]" texts]
    by (simp add: raw_def saved_config_def config_ok_def readable_def)
  ultimately show ?thesis using settings by (simp add: load_config_def flip: raw_def)
qed


section \<open>A configuration\<close>

text \<open>Seconds and hours, and the times of one zone, as \<open>Duration.String\<close> and \<open>Format\<close> write them.\<close>

definition sample_durations :: "string \<Rightarrow> int option" where
  "sample_durations text = map_of [(''10m0s'', 600 * 10 ^ 9), (''720h0m0s'', 2592000 * 10 ^ 9), (''30s'', 30 * 10 ^ 9)] text"

definition sample_texts :: texts where
  "sample_texts =
     \<lparr>tx_duration = (\<lambda>d. if d = 600 * 10 ^ 9 then ''10m0s'' else if d = 30 * 10 ^ 9 then ''30s'' else ''720h0m0s''),
      tx_time = (\<lambda>_. ''2030-01-02T00:00:00Z'')\<rparr>"

definition sample_risk :: accepted_risk where
  "sample_risk =
     \<lparr>ak_ID = ''a1'', ak_Reason = ''known'', ak_Expires = the (parse_rfc3339 ''2030-01-02T00:00:00Z''), ak_Owner = [], ak_Ticket = []\<rparr>"



end
