(* ===== verification/RunPolicy.thy ===== *)
theory RunPolicy
  imports Config Race RunCheckpoint
begin

text \<open>
  What a run decides before and between its phases (\<open>assure/run.go\<close>, \<open>assure/plan.go\<close>): the options and
  their defaults, the paths outside the project, the acceptances in force, the jobs, the scope and the
  inputs a report names, what \<open>go list\<close> says of the workspace, the resources, the progress it prints
  and the controls of the mutation phase. \<open>upper\<close> is \<open>strings.ToUpper\<close>, \<open>environ\<close> the environment of the
  process, \<open>sha\<close> SHA-256 in hexadecimal.
\<close>

section \<open>Options\<close>

record run_options =
  opt_Contract :: string
  opt_NoApply :: bool
  opt_Changed :: bool
  opt_ChangedRef :: string
  opt_Packages :: "string list"
  opt_PackageScope :: bool
  opt_TestArgs :: "string list"
  opt_BuildTags :: "string list"
  opt_CommandTimeout :: int
  opt_TargetTimeout :: int
  opt_Environment :: "string list option"
  opt_MutationOperators :: "string list"
  opt_ReplayFindingID :: string
  opt_ReplayMutantID :: string
  opt_MutationJobs :: int
  opt_ExecutionPinned :: bool
  opt_AllowedGenerationPaths :: "string list"

definition or_default :: "'a list \<Rightarrow> 'a list \<Rightarrow> 'a list" where
  "or_default given fallback = (if given = [] then fallback else given)"

definition positive_or :: "int \<Rightarrow> int \<Rightarrow> int" where
  "positive_or given fallback = (if given \<le> 0 then fallback else given)"

definition apply_execution_defaults :: "config \<Rightarrow> run_options \<Rightarrow> run_options" where
  "apply_execution_defaults loaded options =
     (let options = options\<lparr>opt_Packages := or_default (opt_Packages options) (cf_ProjectPackages loaded)\<rparr> in
      if opt_ExecutionPinned options then options
      else options\<lparr>
        opt_TestArgs := or_default (opt_TestArgs options) (cf_TestBinaryArgs loaded),
        opt_BuildTags := or_default (opt_BuildTags options) (cf_BuildTags loaded),
        opt_CommandTimeout := positive_or (opt_CommandTimeout options) (cf_ExecutionTimeout loaded),
        opt_TargetTimeout := positive_or (opt_TargetTimeout options) (cf_ExecutionTimeout loaded),
        opt_MutationJobs := positive_or (opt_MutationJobs options) (cf_ExecutionJobs loaded)\<rparr>)"

definition default_package_patterns :: "string list \<Rightarrow> bool" where
  "default_package_patterns patterns \<longleftrightarrow> patterns = [] \<or> patterns = [''./...'']"

text \<open>\<open>procs\<close> is \<open>runtime.GOMAXPROCS(0)\<close>.\<close>

definition default_mutation_job_limit :: int where "default_mutation_job_limit = 4"

definition mutation_job_limit :: "int \<Rightarrow> run_options \<Rightarrow> config \<Rightarrow> int" where
  "mutation_job_limit procs options loaded =
     (if list_ex (\<lambda>(_, spec). rc_Exclusive spec) (cf_Resources loaded) then 1
      else if 0 < opt_MutationJobs options then opt_MutationJobs options
      else max 1 (min procs default_mutation_job_limit))"

definition report_execution :: "run_options \<Rightarrow> int \<Rightarrow> execution" where
  "report_execution options jobs =
     \<lparr>TestArgs = opt_TestArgs options, BuildTags = opt_BuildTags options, MutationOperators = opt_MutationOperators options,
      MutationJobs = jobs, CommandTimeoutNS = opt_CommandTimeout options, TargetTimeoutNS = opt_TargetTimeout options\<rparr>"

section \<open>The project\<close>

text \<open>The tails of the components of a path, joined.\<close>

fun path_suffixes :: "string list \<Rightarrow> string list" where
  "path_suffixes [] = []"
| "path_suffixes (component # components) = join ''/'' (component # components) # path_suffixes components"

definition pattern_excludes :: "string \<Rightarrow> string \<Rightarrow> bool" where
  "pattern_excludes candidate given =
     (let pattern = trim_prefix given ''./'' in
      pattern = ''**'' \<or>
      (has_suffix pattern ''/**'' \<and>
         (candidate = trim_suffix pattern ''/**'' \<or> has_prefix candidate (trim_suffix pattern ''/**'' @ ''/''))) \<or>
      (has_prefix pattern ''**/'' \<and>
         list_ex (\<lambda>suffix. path_match (trim_prefix pattern ''**/'') suffix = Some True)
           (path_suffixes (split_on (CHR ''/'') candidate))) \<or>
      path_match pattern candidate = Some True)"

definition project_path_excluded :: "string \<Rightarrow> string list \<Rightarrow> bool" where
  "project_path_excluded candidate patterns =
     list_ex (pattern_excludes (trim_prefix (replace_backslash candidate) ''./'')) patterns"

definition included_project_targets :: "target list \<Rightarrow> string list \<Rightarrow> target list" where
  "included_project_targets targets excludes =
     (if excludes = [] then targets else filter (\<lambda>t. \<not> project_path_excluded (t_Path t) excludes) targets)"

definition included_project_packages :: "go_package list \<Rightarrow> string list \<Rightarrow> go_package list" where
  "included_project_packages packages excludes = filter (\<lambda>pkg. \<not> project_path_excluded (pk_RelativeDir pkg) excludes) packages"

text \<open>\<open>quote\<close> is the verb \<open>%q\<close>.\<close>

definition project_exclude_limitations :: "(string \<Rightarrow> string) \<Rightarrow> string list \<Rightarrow> limitation list" where
  "project_exclude_limitations quote excludes =
     map (\<lambda>pattern. \<lparr>lim_Code = ''project-exclude'',
       lim_Summary = ''paths matching '' @ quote pattern @ '' are outside the configured assurance boundary'', lim_Estimated = False\<rparr>) excludes"

definition model_package_paths :: "go_package list \<Rightarrow> string list" where
  "model_package_paths packages = remdups_adj (sort_slice (map pk_ImportPath packages))"

definition report_scope :: "run_options \<Rightarrow> go_model \<Rightarrow> impact_selection \<Rightarrow> scope" where
  "report_scope options model selection =
     (let kind = (if opt_ReplayFindingID options \<noteq> [] \<or> opt_ReplayMutantID options \<noteq> [] then RunReplay
                  else if opt_Changed options then RunChangeset
                  else if opt_PackageScope options then RunPackage
                  else RunFull);
          paths = model_package_paths (files_of (gm_Packages model));
          requested = \<lparr>sc_Kind = kind, sc_Project = ''.'', sc_Modules = [gm_ModulePath model],
            sc_Packages = opt_Packages options, sc_Files = [], sc_Ref = opt_ChangedRef options\<rparr>
      in if opt_Changed options then
           (let requested = requested\<lparr>sc_Files := im_changed selection\<rparr>
            in \<lparr>Requested = requested,
                Resolved = (if im_broad selection
                  then requested\<lparr>sc_Kind := RunFull, sc_Packages := paths, sc_Files := []\<rparr> else requested)\<rparr>)
         else if kind = RunFull then
           \<lparr>Requested = requested\<lparr>sc_Packages := paths\<rparr>, Resolved = requested\<lparr>sc_Packages := paths\<rparr>\<rparr>
         else \<lparr>Requested = requested, Resolved = requested\<rparr>)"

definition mutation_target_count :: "catalog \<Rightarrow> string \<Rightarrow> nat" where
  "mutation_target_count cat replay =
     length (filter (\<lambda>m. mu_Accepted m \<and> (replay = [] \<or> mu_ID m = replay)) (cat_Mutants cat))"

section \<open>Acceptances and verdicts\<close>

definition active_acceptance :: "config \<Rightarrow> int \<Rightarrow> string \<Rightarrow> bool" where
  "active_acceptance loaded now i = list_ex (\<lambda>a. now < ak_Expires a \<and> ak_ID a = i) (cf_Acceptance loaded)"

definition active_acceptance_metadata :: "(int \<Rightarrow> string) \<Rightarrow> config \<Rightarrow> int \<Rightarrow> acceptance list" where
  "active_acceptance_metadata rfc3339 loaded now =
     sort_func (\<lambda>a b. cmp_compare (acc_ID a) (acc_ID b))
       (map (\<lambda>a. \<lparr>acc_ID = ak_ID a, acc_Reason = ak_Reason a, acc_Expires = rfc3339 (ak_Expires a),
                  acc_Owner = ak_Owner a, acc_Ticket = ak_Ticket a\<rparr>)
         (filter (\<lambda>a. now < ak_Expires a) (cf_Acceptance loaded)))"

definition later_phases_not_run_code :: string where "later_phases_not_run_code = ''later-phases-not-run''"

definition cached_acceptance_valid :: "report \<Rightarrow> (string \<Rightarrow> bool) \<Rightarrow> bool" where
  "cached_acceptance_valid cached accepted \<longleftrightarrow>
     list_all (\<lambda>item. accepted (acc_ID item)) (Acceptances cached) \<and>
     list_all (\<lambda>item. \<not> (ev_Kind item = ''mutation'' \<and> ev_Status item = ''accepted'' \<and> \<not> accepted (ev_Detail item))) (Evidence cached)"

definition cached_report_reusable :: "report \<Rightarrow> (string \<Rightarrow> bool) \<Rightarrow> bool" where
  "cached_report_reusable cached accepted \<longleftrightarrow>
     cached_acceptance_valid cached accepted \<and> \<not> list_ex (\<lambda>item. lim_Code item = later_phases_not_run_code) (Limitations cached)"

definition baseline_verdict :: "finding list \<Rightarrow> string" where
  "baseline_verdict findings =
     (if list_ex (\<lambda>f. f_Kind f \<in> {''baseline-failure'', ''baseline-timeout'', ''vet-failure'', ''build-failure'', ''test-binary-build-failure''}) findings
      then VerdictDefect else VerdictInsufficient)"

section \<open>Progress\<close>

text \<open>
  The callback of \<open>boundedProgress\<close>: it keeps what it was last called with, and says whether the call is
  printed. \<open>None\<close> stands for the -1 before the first call.
\<close>

definition progress_divisions :: nat where "progress_divisions = 100"

definition progress_step :: "nat \<Rightarrow> nat" where
  "progress_step whole = max 1 ((whole + progress_divisions - 1) div progress_divisions)"

definition bounded_progress :: "nat \<times> nat \<Rightarrow> (nat \<times> nat) option \<Rightarrow> bool \<times> (nat \<times> nat) option" where
  "bounded_progress call previous =
     (let (completed, whole) = call in
      if previous = Some (completed, whole) then (False, previous)
      else (completed = 0 \<or> completed = 1 \<or> completed = whole \<or> completed mod progress_step whole = 0, Some (completed, whole)))"

fun printed_progress :: "(nat \<times> nat) option \<Rightarrow> (nat \<times> nat) list \<Rightarrow> (nat \<times> nat) list" where
  "printed_progress previous [] = []"
| "printed_progress previous (call # calls) =
     (let (printed, previous) = bounded_progress call previous
      in if printed then call # printed_progress previous calls else printed_progress previous calls)"

section \<open>The workspace\<close>

text \<open>A module of \<open>go list -m\<close>; a replacement names its version and its sums.\<close>

record module_version =
  mo_Path :: string
  mo_Version :: string
  mo_Sum :: string
  mo_GoModSum :: string
  mo_Dir :: string

record listed_module =
  lm_Module :: module_version
  lm_Main :: bool
  lm_Replace :: "module_version option"

datatype workspace_error =
    EmptyToolchain
  | ListError string string
  | ListFailed string int bool string
  | ListPackages packages_error
  | ModuleUndecoded string
  | EmptyModulePath
  | NoMainModule
  | OtherMainModule string string
  | SeveralMainModules "string list"
  | ReplacementUnread string string

text \<open>What the decoder read of the module graph, and its error where it stopped at one.\<close>

type_synonym decoded_modules = "listed_module list \<times> string option"

fun main_modules :: "listed_module list \<Rightarrow> string option \<Rightarrow> workspace_error + string list" where
  "main_modules [] failed = (case failed of Some e \<Rightarrow> Inl (ModuleUndecoded e) | None \<Rightarrow> Inr [])"
| "main_modules (modul # moduls) failed =
     require (mo_Path (lm_Module modul) \<noteq> []) EmptyModulePath
     (attempt (main_modules moduls failed) (\<lambda>mains. Inr (if lm_Main modul then mo_Path (lm_Module modul) # mains else mains)))"

definition validate_workspace_module_graph :: "decoded_modules \<Rightarrow> string \<Rightarrow> workspace_error option" where
  "validate_workspace_module_graph decoded selected =
     (case main_modules (fst decoded) (snd decoded) of
        Inl e \<Rightarrow> Some e
      | Inr mains \<Rightarrow>
          (case remdups_adj (sort_slice mains) of
             [] \<Rightarrow> Some NoMainModule
           | [main] \<Rightarrow> if main \<noteq> selected then Some (OtherMainModule selected main) else None
           | several \<Rightarrow> Some (SeveralMainModules several)))"

text \<open>\<open>scan\<close> is \<open>evidence.Scan\<close> of a directory: the digests of its files and of its corpus.\<close>

definition module_identity :: "(string \<Rightarrow> string) \<Rightarrow> (string \<Rightarrow> string + string_map \<times> string_map) \<Rightarrow> listed_module \<Rightarrow> workspace_error + string" where
  "module_identity sha scan modul =
     (let m = lm_Module modul; text = mo_Version m @ [nul] @ mo_Sum m @ [nul] @ mo_GoModSum m in
      case lm_Replace modul of
        None \<Rightarrow> Inr text
      | Some r \<Rightarrow>
          let text = text @ [nul] @ ''replace'' @ [nul] @ mo_Path r @ [nul] @ mo_Version r @ [nul] @ mo_Sum r @ [nul] @ mo_GoModSum r
          in if mo_Version r = [] \<and> mo_Sum r = [] \<and> mo_Dir r \<noteq> [] then
               (case scan (mo_Dir r) of
                  Inl e \<Rightarrow> Inl (ReplacementUnread (mo_Path m) e)
                | Inr (files, corpus) \<Rightarrow>
                    Inr (text @ [nul] @ ''content'' @ [nul] @
                      evidence_digest sha \<lparr>ei_Files = files, ei_Dependencies = [], ei_Toolchain = [], ei_Platform = [], ei_Environment = [],
                        ei_Resources = [], ei_Corpus = corpus, ei_Contract = [], ei_GoatestVersion = [], ei_GoatestBuild = [],
                        ei_GoMutantsVersion = []\<rparr>))
             else Inr text)"

fun dependency_digests_from ::
  "(string \<Rightarrow> string) \<Rightarrow> (string \<Rightarrow> string + string_map \<times> string_map) \<Rightarrow> listed_module list \<Rightarrow> string option \<Rightarrow> string_map \<Rightarrow> workspace_error + string_map" where
  "dependency_digests_from sha scan [] failed result = (case failed of Some e \<Rightarrow> Inl (ModuleUndecoded e) | None \<Rightarrow> Inr result)"
| "dependency_digests_from sha scan (modul # moduls) failed result =
     require (mo_Path (lm_Module modul) \<noteq> []) EmptyModulePath
     (attempt (module_identity sha scan modul) (\<lambda>identity.
      dependency_digests_from sha scan moduls failed (AList.update (mo_Path (lm_Module modul)) (sha identity) result)))"

definition dependency_digests ::
  "(string \<Rightarrow> string) \<Rightarrow> (string \<Rightarrow> string + string_map \<times> string_map) \<Rightarrow> decoded_modules \<Rightarrow> workspace_error + string_map" where
  "dependency_digests sha scan decoded = dependency_digests_from sha scan (fst decoded) (snd decoded) []"

record round_metadata =
  md_model :: go_model
  md_toolchain :: string
  md_dependencies :: string_map

text \<open>The decoders of the two listings, and what \<open>DecodePackages\<close> and \<open>Scan\<close> need.\<close>

record listing =
  ls_packages :: "string \<Rightarrow> string + listed_package list"
  ls_modules :: "string \<Rightarrow> decoded_modules"
  ls_rel :: "string \<Rightarrow> string \<Rightarrow> string option"
  ls_scan :: "string \<Rightarrow> string + string_map \<times> string_map"
  ls_sha :: "string \<Rightarrow> string"

definition workspace_inspection_timeout :: int where "workspace_inspection_timeout = 300 * 10 ^ 9"

definition plain_command :: "string list \<Rightarrow> int \<Rightarrow> command" where
  "plain_command argv timeout = \<lparr>cm_Argv = argv, cm_Dir = [], cm_Env = [], cm_Timeout = timeout\<rparr>"

definition listing_argv :: "string list \<Rightarrow> string list \<Rightarrow> string list" where
  "listing_argv patterns tags =
     [''go'', ''list'', ''-json''] @ (if tags = [] then [] else [''-tags='' @ join '','' tags]) @ or_default patterns [''./...'']"

text \<open>A listing that did not run, or ran and failed, is an error.\<close>

definition listed_output ::
  "('w \<Rightarrow> command \<Rightarrow> (string + command_result) \<times> 'w) \<Rightarrow> string \<Rightarrow> command \<Rightarrow> 'w \<Rightarrow> (workspace_error + string) \<times> 'w" where
  "listed_output exec name cmd w =
     (case exec w cmd of
        (Inl e, w) \<Rightarrow> (Inl (ListError name e), w)
      | (Inr result, w) \<Rightarrow>
          if com_ExitCode result \<noteq> 0 \<or> com_TimedOut result
          then (Inl (ListFailed name (com_ExitCode result) (com_TimedOut result) (summarize (com_Output result))), w)
          else (Inr (com_Output result), w))"

definition inspect_workspace ::
  "listing \<Rightarrow> ('w \<Rightarrow> command \<Rightarrow> (string + command_result) \<times> 'w) \<Rightarrow> string \<Rightarrow> string list \<Rightarrow> string list \<Rightarrow> int \<Rightarrow> 'w \<Rightarrow>
   (workspace_error + round_metadata) \<times> 'w" where
  "inspect_workspace decoders exec toolchain patterns tags timeout w =
     (if trim_space toolchain = [] then (Inl EmptyToolchain, w)
      else
        attempt_in (listed_output exec ''go list'' (plain_command (listing_argv patterns tags) timeout) w) (\<lambda>packages w.
        case decode_packages (ls_rel decoders) (ls_packages decoders packages) of
          Inl e \<Rightarrow> (Inl (ListPackages e), w)
        | Inr (model, _) \<Rightarrow>
            attempt_in (listed_output exec ''go list -m'' (plain_command [''go'', ''list'', ''-m'', ''-json'', ''all''] workspace_inspection_timeout) w) (\<lambda>modules w.
            (check (validate_workspace_module_graph (ls_modules decoders modules) (gm_ModulePath model))
             (attempt (dependency_digests (ls_sha decoders) (ls_scan decoders) (ls_modules decoders modules)) (\<lambda>dependencies.
              Inr \<lparr>md_model = model, md_toolchain = trim_space toolchain, md_dependencies = dependencies\<rparr>)), w))))"

section \<open>The inputs of a run\<close>

text \<open>
  \<open>mode_json\<close> and \<open>resource_json\<close> are \<open>json.Marshal\<close> of the anonymous structs; a \<open>%t\<close> prints a boolean.
\<close>

definition show_bool :: "bool \<Rightarrow> string" where
  "show_bool b = (if b then ''true'' else ''false'')"

definition mode_identity :: "(run_options \<Rightarrow> string) \<Rightarrow> run_options \<Rightarrow> string" where
  "mode_identity mode_json options =
     '';apply='' @ show_bool (\<not> opt_NoApply options) @ '';changed='' @ show_bool (opt_Changed options) @ '';ref='' @ opt_ChangedRef options @
     (if opt_ReplayMutantID options \<noteq> [] then '';replay='' @ opt_ReplayMutantID options else []) @
     (if opt_ReplayFindingID options \<noteq> [] then '';replay-finding='' @ opt_ReplayFindingID options else []) @
     (if opt_Packages options \<noteq> [] \<or> opt_PackageScope options \<or> opt_TestArgs options \<noteq> [] \<or> opt_BuildTags options \<noteq> [] \<or>
         opt_MutationOperators options \<noteq> [] \<or> opt_MutationJobs options \<noteq> 0 \<or> opt_CommandTimeout options \<noteq> 0 \<or> opt_TargetTimeout options \<noteq> 0
      then '';execution='' @ mode_json options else [])"

record build_identity =
  id_goatestVersion :: string
  id_goatestBuild :: string
  id_goMutants :: string
  id_platform :: string

record encoders =
  en_upper :: "string \<Rightarrow> string"
  en_environ :: "string list"
  en_mode_json :: "run_options \<Rightarrow> string"
  en_resource_json :: "resource_config \<Rightarrow> string list \<Rightarrow> string"
  en_sha :: "string \<Rightarrow> string"

text \<open>\<open>tree\<close> is \<open>evidence.Scan(root)\<close>.\<close>

definition assurance_inputs ::
  "encoders \<Rightarrow> build_identity \<Rightarrow> string + string_map \<times> string_map \<Rightarrow> string \<Rightarrow> run_options \<Rightarrow> config \<Rightarrow> round_metadata \<Rightarrow>
   string + evidence_inputs \<times> string" where
  "assurance_inputs en built tree contract options loaded metadata =
     attempt tree (\<lambda>(files, corpus).
       let resources = map (\<lambda>(name, spec). (name, en_sha en (en_resource_json en spec
             (provider_environment (en_upper en) (en_environ en) (opt_Environment options) (rc_Environment spec))))) (cf_Resources loaded);
           environment = execution_environment (en_upper en) (en_environ en) (opt_Environment options);
           inputs = \<lparr>ei_Files = files, ei_Dependencies = md_dependencies metadata, ei_Toolchain = md_toolchain metadata,
             ei_Platform = id_platform built,
             ei_Environment = selected_environment (en_upper en) (en_environ en) (Some environment) (cf_ExecutionEnvironment loaded),
             ei_Resources = resources, ei_Corpus = corpus, ei_Contract = contract @ mode_identity (en_mode_json en) options,
             ei_GoatestVersion = id_goatestVersion built, ei_GoatestBuild = id_goatestBuild built, ei_GoMutantsVersion = id_goMutants built\<rparr>
       in Inr (inputs, evidence_digest (en_sha en) inputs))"

section \<open>Resources\<close>

datatype resource_failure =
    AcquireFailed string
  | ResourceConflict string environment_error
  | TargetConflict string environment_error
  | Unconfigured string string

record 'w resource_manager =
  rm_acquire :: "string \<Rightarrow> 'w \<Rightarrow> (string + string list) \<times> 'w"
  rm_close :: "'w \<Rightarrow> string option \<times> 'w"

record acquired_resources =
  aq_items :: "baseline_item list"
  aq_evidence :: "evidence list"
  aq_environment :: "string list"

text \<open>The loop over the names: the environment of each, and all of them merged.\<close>

fun acquire_each ::
  "(string \<Rightarrow> string) \<Rightarrow> 'w resource_manager \<Rightarrow> string list \<Rightarrow> string list \<Rightarrow> 'w \<Rightarrow>
   (resource_failure + (string \<times> string list) list \<times> string list) \<times> 'w" where
  "acquire_each upper manager [] merged w = (Inr ([], merged), w)"
| "acquire_each upper manager (name # names) merged w =
     (case rm_acquire manager name w of
        (Inl e, w) \<Rightarrow> (Inl (AcquireFailed e), w)
      | (Inr env, w) \<Rightarrow>
          (case merge_environment upper merged env of
             Inl e \<Rightarrow> (Inl (ResourceConflict name e), w)
           | Inr merged \<Rightarrow>
               attempt_in (acquire_each upper manager names merged w) (\<lambda>(environments, merged) w.
               (Inr ((name, env) # environments, merged), w))))"

definition environment_of :: "(string \<times> string list) list \<Rightarrow> string \<Rightarrow> string list" where
  "environment_of environments name = (case map_of environments name of Some env \<Rightarrow> env | None \<Rightarrow> [])"

fun merge_each :: "(string \<Rightarrow> string) \<Rightarrow> string list list \<Rightarrow> string list \<Rightarrow> environment_error + string list" where
  "merge_each upper [] merged = Inr merged"
| "merge_each upper (env # envs) merged = attempt (merge_environment upper merged env) (merge_each upper envs)"

definition resource_item :: "(string \<Rightarrow> string) \<Rightarrow> (string \<times> string list) list \<Rightarrow> target \<Rightarrow> resource_failure + baseline_item" where
  "resource_item upper environments t =
     (case t_Capabilities t of
        [capability] \<Rightarrow> Inr \<lparr>bi_Target = t, bi_Environment = environment_of environments capability\<rparr>
      | capabilities \<Rightarrow>
          (case merge_each upper (map (environment_of environments) capabilities) [] of
             Inl e \<Rightarrow> Inl (TargetConflict (t_Name t) e)
           | Inr env \<Rightarrow> Inr \<lparr>bi_Target = t, bi_Environment = env\<rparr>))"

text \<open>Whatever fails closes the manager.\<close>

definition closing :: "'w resource_manager \<Rightarrow> ('e + 'a) \<times> 'w \<Rightarrow> ('e + 'a) \<times> 'w" where
  "closing manager r = (case r of (Inl e, w) \<Rightarrow> (Inl e, snd (rm_close manager w)) | (Inr x, w) \<Rightarrow> (Inr x, w))"

definition acquire_resources ::
  "(string \<Rightarrow> string) \<Rightarrow> 'w resource_manager \<Rightarrow> target list \<Rightarrow> 'w \<Rightarrow> (resource_failure + acquired_resources) \<times> 'w" where
  "acquire_resources upper manager targets w =
     (let names = sort_slice (remdups (concat (map t_Capabilities targets))) in
      closing manager
        (attempt_in (acquire_each upper manager names [] w) (\<lambda>(environments, merged) w.
          (attempt (attempt_each (resource_item upper environments) targets) (\<lambda>items.
             Inr \<lparr>aq_items = items,
                  aq_evidence = map (\<lambda>name. \<lparr>ev_Kind = ''resource'', ev_ID = name, ev_Status = ''ready'', ev_Detail = []\<rparr>) names,
                  aq_environment = merged\<rparr>), w))))"

fun planned_capabilities :: "config \<Rightarrow> target list \<Rightarrow> resource_failure + string list" where
  "planned_capabilities loaded [] = Inr []"
| "planned_capabilities loaded (t # targets) =
     (case find (\<lambda>capability. map_of (cf_Resources loaded) capability = None) (t_Capabilities t) of
        Some capability \<Rightarrow> Inl (Unconfigured (t_Name t) capability)
      | None \<Rightarrow> attempt (planned_capabilities loaded targets) (\<lambda>rest. Inr (t_Capabilities t @ rest)))"

definition planned_resources :: "target list \<Rightarrow> config \<Rightarrow> resource_failure + string list" where
  "planned_resources targets loaded = attempt (planned_capabilities loaded targets) (\<lambda>set. Inr (sort_slice (remdups set)))"

section \<open>Controls of the mutation phase\<close>

definition original_control_argv :: "exec_request \<Rightarrow> string list \<Rightarrow> string list" where
  "original_control_argv request tags =
     [''go'', ''test'', ''-count=1''] @ (if tags = [] then [] else [''-tags='' @ join '','' tags]) @
     [if rq_Package request = [] then ''./...'' else rq_Package request] @
     (if rq_Args request = [] then [] else ''-args'' # rq_Args request)"

definition run_original_mutation_control ::
  "('w \<Rightarrow> command \<Rightarrow> (string + command_result) \<times> 'w) \<Rightarrow> string list \<Rightarrow> 'w \<Rightarrow> exec_request \<Rightarrow> (string + command_result) \<times> 'w" where
  "run_original_mutation_control exec tags w request =
     exec w \<lparr>cm_Argv = original_control_argv request tags, cm_Dir = [], cm_Env = rq_Env request, cm_Timeout = rq_Timeout request\<rparr>"

datatype control_error =
    ControlFailed string
  | NegativeControl int
  | MeasuredNonzero int
  | UnmeasuredZero string
  | UnknownControl string

text \<open>
  \<open>failed\<close>, \<open>unavailable\<close> and \<open>timed_out\<close> are the other outcomes the library names; a control answers as
  the command of the same run would.
\<close>

definition prepared_control_error :: "string \<Rightarrow> string \<Rightarrow> string \<Rightarrow> probe_result \<Rightarrow> control_error option" where
  "prepared_control_error failed unavailable timed_out result =
     (if pr_Duration result < 0 then Some (NegativeControl (pr_Duration result))
      else case pr_Outcome result of
        ProbeMeasured \<Rightarrow> if pr_ExitCode result \<noteq> 0 then Some (MeasuredNonzero (pr_ExitCode result)) else None
      | ProbeOutcome outcome \<Rightarrow>
          if outcome = failed \<or> outcome = unavailable
          then (if pr_ExitCode result = 0 then Some (UnmeasuredZero outcome) else None)
          else if outcome = timed_out then None else Some (UnknownControl outcome))"

definition mutation_control_probe_target :: "string \<Rightarrow> string" where
  "mutation_control_probe_target pkg = ''mutation-control:'' @ (if pkg = [] then ''all'' else pkg)"

definition prepared_probe_mutation_control ::
  "string \<Rightarrow> string \<Rightarrow> string \<Rightarrow> ('w \<Rightarrow> probe_request \<Rightarrow> (string + probe_result) \<times> 'w) \<Rightarrow> 'w \<Rightarrow> exec_request \<Rightarrow>
   (control_error + command_result) \<times> 'w" where
  "prepared_probe_mutation_control failed unavailable timed_out probe w request =
     (case probe w \<lparr>pq_Package = rq_Package request, pq_Args = rq_Args request, pq_Env = rq_Env request, pq_Timeout = rq_Timeout request\<rparr> of
        (Inl e, w) \<Rightarrow> (Inl (ControlFailed e), w)
      | (Inr result, w) \<Rightarrow>
          (check (prepared_control_error failed unavailable timed_out result)
            (Inr \<lparr>com_TimedOut = (pr_Outcome result = ProbeOutcome timed_out), com_ExitCode = pr_ExitCode result,
                  com_Output = pr_Output result, com_Duration = pr_Duration result\<rparr>), w))"

section \<open>What built the program\<close>

record build_module =
  bm_Path :: string
  bm_Version :: string
  bm_Replace :: "string option"

datatype version_error = NoBuildInfo | RepeatedModule | NoAuditableVersion | AbsentModule

definition go_mutants_module_path :: string where "go_mutants_module_path = ''github.com/P4suta/go-mutants''"

text \<open>\<open>None\<close> among the dependencies is a nil pointer; \<open>bm_Replace\<close> is the version of the replacement.\<close>

fun find_module :: "build_module option list \<Rightarrow> build_module option \<Rightarrow> version_error + build_module option" where
  "find_module [] found = Inr found"
| "find_module (dependency # dependencies) found =
     (case dependency of
        None \<Rightarrow> find_module dependencies found
      | Some m \<Rightarrow>
          if bm_Path m \<noteq> go_mutants_module_path then find_module dependencies found
          else require (found = None) RepeatedModule (find_module dependencies (Some m)))"

definition go_mutants_version_from :: "build_module option list option \<Rightarrow> version_error + string" where
  "go_mutants_version_from info =
     (case info of
        None \<Rightarrow> Inl NoBuildInfo
      | Some dependencies \<Rightarrow>
          attempt (find_module dependencies None) (\<lambda>found.
          case found of
            None \<Rightarrow> Inl AbsentModule
          | Some m \<Rightarrow>
              let version = (case bm_Replace m of Some replaced \<Rightarrow> replaced | None \<Rightarrow> bm_Version m)
              in require (version \<notin> {[], ''(devel)''}) NoAuditableVersion (Inr version)))"

definition go_mutants_identity_from ::
  "build_module option list option \<Rightarrow> string + string \<Rightarrow> (version_error \<times> string option) + string" where
  "go_mutants_identity_from info executable =
     (case go_mutants_version_from info of
        Inr version \<Rightarrow> Inr version
      | Inl e \<Rightarrow>
          (case executable of
             Inl failed \<Rightarrow> Inl (e, Some failed)
           | Inr digest \<Rightarrow> if digest = [] then Inl (e, None) else Inr (''executable-sha256:'' @ digest)))"

definition goatest_devel_version :: string where "goatest_devel_version = ''v0.1.0-dev''"

text \<open>\<open>main\<close> is the version of the main module, where there is build information.\<close>

definition resolved_goatest_version_from :: "string \<Rightarrow> string option \<Rightarrow> string" where
  "resolved_goatest_version_from stamped main =
     (if stamped \<noteq> goatest_devel_version then stamped
      else case main of None \<Rightarrow> stamped | Some version \<Rightarrow> if version \<in> {[], ''(devel)''} then stamped else version)"

section \<open>What the policies give\<close>

subsection \<open>Progress\<close>

lemma printed_progress_filter:
  assumes "distinct cs" "previous \<notin> (\<lambda>c. Some (c, whole)) ` set cs"
  shows "printed_progress previous (map (\<lambda>c. (c, whole)) cs) =
    map (\<lambda>c. (c, whole)) (filter (\<lambda>c. c = 0 \<or> c = 1 \<or> c = whole \<or> c mod progress_step whole = 0) cs)"
  using assms
proof (induction cs arbitrary: previous)
  case (Cons c cs)
  have "Some (c, whole) \<notin> (\<lambda>c. Some (c, whole)) ` set cs" using Cons.prems(1) by auto
  moreover have "previous \<noteq> Some (c, whole)" using Cons.prems(2) by auto
  ultimately show ?case using Cons.IH [of "Some (c, whole)"] Cons.prems(1) by (simp add: bounded_progress_def)
qed simp

lemma progress_multiples: "card {c. c \<le> whole \<and> c mod progress_step whole = 0} \<le> 101"
proof -
  have step: "0 < progress_step whole" by (simp add: progress_step_def)
  have few: "whole div progress_step whole \<le> 100"
  proof -
    have "whole \<le> 100 * ((whole + 99) div 100)"
      using div_mult_mod_eq [of "whole + 99" 100] mod_less_divisor [of 100 "whole + 99"] by linarith
    also have "\<dots> \<le> 100 * progress_step whole" by (simp add: progress_step_def progress_divisions_def)
    finally have "whole \<le> progress_divisions * progress_step whole" by (simp add: progress_divisions_def)
    then have "whole div progress_step whole \<le> (progress_divisions * progress_step whole) div progress_step whole" by (rule div_le_mono)
    then show ?thesis using step by (simp add: progress_divisions_def)
  qed
  have "{c. c \<le> whole \<and> c mod progress_step whole = 0} \<subseteq> (\<lambda>k. k * progress_step whole) ` {0..whole div progress_step whole}"
  proof
    fix c assume "c \<in> {c. c \<le> whole \<and> c mod progress_step whole = 0}"
    then have "c = (c div progress_step whole) * progress_step whole" "c div progress_step whole \<le> whole div progress_step whole"
      by (auto intro: div_le_mono)
    then show "c \<in> (\<lambda>k. k * progress_step whole) ` {0..whole div progress_step whole}" by (metis atLeastAtMost_iff image_eqI le0)
  qed
  then have "card {c. c \<le> whole \<and> c mod progress_step whole = 0} \<le> card {0..whole div progress_step whole}"
    by (meson card_image_le card_mono finite_atLeastAtMost finite_imageI order_trans)
  then show ?thesis using few by simp
qed

text \<open>
  A phase prints a bounded number of lines however many units it has: of the calls that report its
  completed units, each once and in any order, \<open>boundedProgress\<close> prints at most 103.
\<close>

theorem printed_progress_bounded:
  assumes "distinct cs" "list_all (\<lambda>c. c \<le> whole) cs"
  shows "length (printed_progress None (map (\<lambda>c. (c, whole)) cs)) \<le> 103"
proof -
  define keep where "keep = (\<lambda>c. c = 0 \<or> c = 1 \<or> c = whole \<or> c mod progress_step whole = 0)"
  have "set (filter keep cs) \<subseteq> {1, whole} \<union> {c. c \<le> whole \<and> c mod progress_step whole = 0}"
    using assms(2) by (auto simp: keep_def list_all_iff)
  then have "card (set (filter keep cs)) \<le> card ({1, whole} \<union> {c. c \<le> whole \<and> c mod progress_step whole = 0})"
    by (rule card_mono [rotated]) auto
  also have "\<dots> \<le> card {1, whole} + card {c. c \<le> whole \<and> c mod progress_step whole = 0}" by (rule card_Un_le)
  also have "\<dots> \<le> 2 + 101" using progress_multiples [of whole] card_insert_le_m1 [of 2 "{whole}" 1] by (intro add_mono) auto
  finally have "card (set (filter keep cs)) \<le> 103" by simp
  moreover have "length (filter keep cs) = card (set (filter keep cs))" using assms(1) by (metis distinct_card distinct_filter)
  moreover have "None \<notin> (\<lambda>c. Some (c, whole)) ` set cs" by blast
  ultimately show ?thesis using printed_progress_filter [OF assms(1), of None whole] by (simp add: keep_def)
qed

lemma printed_progress_bounded_witness:
  "length (printed_progress None (map (\<lambda>c. (c, 1000)) [0..<1001])) \<le> 103"
  "printed_progress None (map (\<lambda>c. (c, 205)) [0, 1, 2, 3, 4]) = [(0, 205), (1, 205), (3, 205)]"
proof -
  have "list_all (\<lambda>c. c \<le> 1000) [0..<1001]" by (auto simp: list_all_iff)
  then show "length (printed_progress None (map (\<lambda>c. (c, 1000)) [0..<1001])) \<le> 103"
    by (intro printed_progress_bounded) simp_all
  show "printed_progress None (map (\<lambda>c. (c, 205)) [0, 1, 2, 3, 4]) = [(0, 205), (1, 205), (3, 205)]" by code_simp
qed

subsection \<open>The module graph\<close>

lemma main_modules_Inr:
  "main_modules moduls failed = Inr mains \<longleftrightarrow>
     failed = None \<and> (\<forall>m \<in> set moduls. mo_Path (lm_Module m) \<noteq> []) \<and>
     mains = map (\<lambda>m. mo_Path (lm_Module m)) (filter lm_Main moduls)"
proof (induction moduls arbitrary: mains)
  case (Cons m moduls)
  show ?case using Cons.IH by auto
qed (auto split: option.split)

lemma remdups_adj_singleton_iff: "remdups_adj xs = [x] \<longleftrightarrow> xs \<noteq> [] \<and> set xs = {x}"
proof
  assume "remdups_adj xs = [x]"
  then show "xs \<noteq> [] \<and> set xs = {x}" by (metis list.set(1,2) list.distinct(1) remdups_adj.simps(1) remdups_adj_set)
next
  assume "xs \<noteq> [] \<and> set xs = {x}"
  then have "xs = replicate (length xs) x" "length xs \<noteq> 0" by (simp_all add: replicate_length_same)
  then show "remdups_adj xs = [x]" using remdups_adj_replicate [of "length xs" x] by argo
qed

text \<open>
  A run refuses a workspace of several modules: \<open>validateWorkspaceModuleGraph\<close> accepts a listing
  exactly when it decodes, every module has a path, and the main modules of it are the selected one.
\<close>

theorem workspace_module_graph_iff:
  "validate_workspace_module_graph (moduls, failed) selected = None \<longleftrightarrow>
     failed = None \<and> (\<forall>m. m \<in> set moduls \<longrightarrow> mo_Path (lm_Module m) \<noteq> []) \<and>
     {mo_Path (lm_Module m) | m. m \<in> set moduls \<and> lm_Main m} = {selected}"
proof (cases "main_modules moduls failed")
  case (Inl e)
  then have "\<not> (failed = None \<and> (\<forall>m \<in> set moduls. mo_Path (lm_Module m) \<noteq> []))" using main_modules_Inr by (metis sum.distinct(1))
  then show ?thesis using Inl by (auto simp: validate_workspace_module_graph_def)
next
  case (Inr mains)
  have mains: "set mains = {mo_Path (lm_Module m) | m. m \<in> set moduls \<and> lm_Main m}"
    using Inr unfolding main_modules_Inr by auto
  have "validate_workspace_module_graph (moduls, failed) selected = None \<longleftrightarrow> remdups_adj (sort_slice mains) = [selected]"
    using Inr by (auto simp: validate_workspace_module_graph_def split: list.split)
  also have "\<dots> \<longleftrightarrow> set mains = {selected}"
  proof -
    have members: "set (sort_slice mains) = set mains" by simp
    moreover from members have "set mains = {selected} \<Longrightarrow> sort_slice mains \<noteq> []" by (metis empty_not_insert list.set(1))
    ultimately show ?thesis unfolding remdups_adj_singleton_iff by argo
  qed
  finally have accepted: "validate_workspace_module_graph (moduls, failed) selected = None \<longleftrightarrow> set mains = {selected}" .
  have "failed = None" "\<forall>m. m \<in> set moduls \<longrightarrow> mo_Path (lm_Module m) \<noteq> []" using Inr unfolding main_modules_Inr by blast+
  then show ?thesis unfolding accepted mains by blast
qed

subsection \<open>Controls\<close>

text \<open>
  A control that a prepared session answers stands for the original program having passed only when
  the session measured it: an answer that did not time out and exited with 0 comes of a measured run, and
  a run whose outcome and exit code disagree is an error.
\<close>

theorem prepared_control_passes_measured:
  assumes "prepared_probe_mutation_control failed unavailable timed_out probe w request = (Inr answer, w')"
    and "\<not> com_TimedOut answer" "com_ExitCode answer = 0"
  shows "\<exists>result.
    probe w \<lparr>pq_Package = rq_Package request, pq_Args = rq_Args request, pq_Env = rq_Env request, pq_Timeout = rq_Timeout request\<rparr> = (Inr result, w') \<and>
    pr_Outcome result = ProbeMeasured \<and> com_Duration answer = pr_Duration result \<and> 0 \<le> pr_Duration result"
  using assms
  by (auto simp: prepared_probe_mutation_control_def prepared_control_error_def
      split: prod.splits sum.splits if_splits probe_outcome.splits)

lemma prepared_control_passes_measured_witness:
  "\<exists>result :: probe_result. pr_Outcome result = ProbeMeasured \<and> 0 \<le> pr_Duration result"
proof -
  define request where "request = \<lparr>rq_Mutant = ''m'', rq_Package = ''p'', rq_Args = [], rq_Env = [], rq_Timeout = 5\<rparr>"
  define probe :: "unit \<Rightarrow> probe_request \<Rightarrow> (string + probe_result) \<times> unit" where
    "probe = (\<lambda>_ _. (Inr \<lparr>pr_Outcome = ProbeMeasured, pr_ExitCode = 0, pr_Duration = 3, pr_Infected = [], pr_Output = []\<rparr>, ()))"
  have "prepared_probe_mutation_control ''failed'' ''unavailable'' ''timed-out'' probe () request =
    (Inr \<lparr>com_TimedOut = False, com_ExitCode = 0, com_Output = [], com_Duration = 3\<rparr>, ())"
    by (simp add: prepared_probe_mutation_control_def prepared_control_error_def probe_def)
  from prepared_control_passes_measured [OF this] show ?thesis by (simp, blast)
qed

subsection \<open>Resources\<close>

lemma acquire_each_names:
  "acquire_each upper manager names merged w = (Inr (environments, merged'), w') \<Longrightarrow> map fst environments = names"
proof (induction names arbitrary: merged w environments merged' w')
  case (Cons name names)
  then show ?case
    by (auto simp: fallible_simps split: prod.splits sum.splits)
qed simp


lemma ascii_upper_twice: "ascii_upper (ascii_upper s) = ascii_upper s"
proof -
  have "\<not> (CHR ''a'' \<le> char_of (of_char c - (32 :: nat)) \<and> char_of (of_char c - (32 :: nat)) \<le> CHR ''z'')"
    if "CHR ''a'' \<le> c \<and> c \<le> CHR ''z''" for c
    using that by (auto simp: less_eq_char_def)
  then show ?thesis by (auto simp: ascii_upper_def)
qed

lemma ascii_upper_plain: "CHR ''='' \<notin> set s \<Longrightarrow> CHR ''='' \<notin> set (ascii_upper s)"
proof -
  have differ: "CHR ''='' \<noteq> char_of (of_char c - (32 :: nat))" if "CHR ''a'' \<le> c" "c \<le> CHR ''z''" for c
  proof
    assume "CHR ''='' = char_of (of_char c - (32 :: nat))"
    then have "of_char (CHR ''='') = (of_char (char_of (of_char c - (32 :: nat)) :: char) :: nat)" by (rule arg_cong)
    then have "(of_char c - 32) mod 256 = (61 :: nat)" unfolding of_char_of by simp
    then show False using that by (auto simp: less_eq_char_def)
  qed
  assume "CHR ''='' \<notin> set s"
  then have "CHR ''='' \<noteq> (if CHR ''a'' \<le> c \<and> c \<le> CHR ''z'' then char_of (of_char c - (32 :: nat)) else c)" if "c \<in> set s" for c
    using that differ [of c] by (cases "CHR ''a'' \<le> c \<and> c \<le> CHR ''z''") auto
  then show ?thesis unfolding ascii_upper_def set_map image_iff by blast
qed

definition database_target :: target where
  "database_target =
     \<lparr>t_ID = ''t'', t_Name = ''TestStore'', t_Kind = ''test'', t_Package = ''m/store'', t_RelativeDir = ''store'', t_Path = ''store/store_test.go'',
      t_Line = 3, t_Capabilities = [''database''], t_Dependencies = []\<rparr>"

definition database_manager :: "unit resource_manager" where
  "database_manager = \<lparr>rm_acquire = (\<lambda>_ w. (Inr [''db_url=x''], w)), rm_close = (\<lambda>w. (None, w))\<rparr>"


end
