(* ===== verification/Generation.thy ===== *)
theory Generation
  imports RepairAtomic RunPolicy
begin

text \<open>
  Repairs somebody else writes: the client of a generation provider (\<open>provider/provider.go\<close>), and
  \<open>AttemptGeneratedRepairs\<close> (\<open>assure/generation.go\<close>), which asks it about each finding of a run and
  validates, stores or applies what comes back. The provider and the validator are parameters that share
  a state \<open>'v\<close>; the repository is the tree of \<open>Repair\<close>.
\<close>

section \<open>The client\<close>

definition protocol_version :: int where "protocol_version = 1"
definition maximum_candidates :: nat where "maximum_candidates = 64"
definition default_generation_timeout :: int where "default_generation_timeout = 300 * 10 ^ 9"
definition output_limit :: nat where "output_limit = 4 * 2 ^ 20"

record generation_request =
  gq_Version :: int
  gq_Finding :: finding
  gq_AllowedPaths :: "string list"
  gq_Snapshot :: string

record generation_response =
  gp_Version :: int
  gp_FindingID :: string
  gp_Candidates :: "candidate list"

record generation_client =
  gc_Command :: "string list"
  gc_Timeout :: int
  gc_Environment :: "string list option"

datatype generation_error =
    NoProviderCommand
  | RequestIncomplete
  | RequestUnencoded string
  | ProviderUnstarted string
  | ProviderFailed "string list" string
  | ProviderTimedOut "string list"
  | ResponseUndecoded string
  | ResponseTrailing
  | ResponseMismatch int string
  | TooManyCandidates nat
  | GenerateFailed string generation_error
  | ResponseIdentity string
  | StoreFailed string repair_error

text \<open>\<open>limitedBuffer.Write\<close>: what fits is kept; a write that does not fit is an error.\<close>

record limited_buffer =
  lb_buffer :: string
  lb_remaining :: nat

definition limited_write :: "string \<Rightarrow> limited_buffer \<Rightarrow> bool \<times> limited_buffer" where
  "limited_write bytes b =
     (if lb_remaining b < length bytes then
        (False, b\<lparr>lb_buffer := lb_buffer b @ take (lb_remaining b) bytes, lb_remaining := 0\<rparr>)
      else (True, b\<lparr>lb_remaining := lb_remaining b - length bytes, lb_buffer := lb_buffer b @ bytes\<rparr>))"

text \<open>How the process ends: not started, over with the errors of waiting and closing, or killed with the errors of that.\<close>

datatype provider_end =
    Unstarted string
  | Ended "string list" string string
  | Killed "string list"

text \<open>\<open>json.Marshal\<close> of a request; \<open>json.Decoder\<close> of a response with whether more follows it; the process itself.\<close>

record 'v provider_tools =
  pt_encode :: "generation_request \<Rightarrow> string + string"
  pt_decode :: "string \<Rightarrow> string + generation_response \<times> bool"
  pt_process :: "string list \<Rightarrow> string list option \<Rightarrow> int \<Rightarrow> string \<Rightarrow> 'v \<Rightarrow> provider_end \<times> 'v"

definition checked_response :: "generation_request \<Rightarrow> string + generation_response \<times> bool \<Rightarrow> generation_error + generation_response" where
  "checked_response request decoded =
     (case decoded of
        Inl e \<Rightarrow> Inl (ResponseUndecoded e)
      | Inr (response, trailing) \<Rightarrow>
          require (\<not> trailing) ResponseTrailing
          (require (gp_Version response = protocol_version \<and> gp_FindingID response = f_ID (gq_Finding request))
             (ResponseMismatch (gp_Version response) (gp_FindingID response))
          (require (length (gp_Candidates response) \<le> maximum_candidates) (TooManyCandidates (length (gp_Candidates response)))
             (Inr response))))"

definition client_generate ::
  "'v provider_tools \<Rightarrow> generation_client \<Rightarrow> generation_request \<Rightarrow> 'v \<Rightarrow> (generation_error + generation_response) \<times> 'v" where
  "client_generate tools client request v =
     (if gc_Command client = [] \<or> trim_space (hd (gc_Command client)) = [] then (Inl NoProviderCommand, v)
      else if gq_Version request \<noteq> protocol_version \<or> f_ID (gq_Finding request) = [] then (Inl RequestIncomplete, v)
      else case pt_encode tools request of
        Inl e \<Rightarrow> (Inl (RequestUnencoded e), v)
      | Inr text \<Rightarrow>
          let timeout = if gc_Timeout client \<le> 0 then default_generation_timeout else gc_Timeout client in
          (case pt_process tools (gc_Command client) (gc_Environment client) timeout (text @ [CHR 0x0A]) v of
             (Unstarted e, v) \<Rightarrow> (Inl (ProviderUnstarted e), v)
           | (Killed es, v) \<Rightarrow> (Inl (ProviderTimedOut es), v)
           | (Ended es output errors, v) \<Rightarrow>
               (if es \<noteq> [] then Inl (ProviderFailed es (trim_space errors))
                else checked_response request (pt_decode tools output), v)))"

section \<open>Paths\<close>

text \<open>\<open>strings.ReplaceAll\<close> of one character, and \<open>strings.Contains\<close>.\<close>

definition replace_char :: "char \<Rightarrow> char \<Rightarrow> string \<Rightarrow> string" where
  "replace_char a b = map (\<lambda>c. if c = a then b else c)"

definition generation_paths :: "run_options \<Rightarrow> config \<Rightarrow> string list" where
  "generation_paths options loaded =
     (if opt_AllowedGenerationPaths options \<noteq> [] then opt_AllowedGenerationPaths options
      else if cf_GenerationAllowedPaths loaded \<noteq> [] then cf_GenerationAllowedPaths loaded
      else [''**/*_test.go'', ''**/testdata/fuzz/**''])"

definition generation_pattern_allows :: "string \<Rightarrow> string \<Rightarrow> bool" where
  "generation_pattern_allows normalized pattern =
     (let pattern = replace_char (CHR 0x5C) (CHR ''/'') pattern in
      pattern = ''**/*_test.go'' \<and> has_suffix normalized ''_test.go'' \<or>
      pattern = ''**/testdata/fuzz/**'' \<and> (has_prefix normalized ''testdata/fuzz/'' \<or> contains_text normalized ''/testdata/fuzz/'') \<or>
      has_suffix pattern ''/**'' \<and> has_prefix normalized (trim_suffix pattern ''**'') \<or>
      path_match pattern normalized = Some True)"

definition generation_path_allowed :: "string \<Rightarrow> string list \<Rightarrow> bool" where
  "generation_path_allowed path allowed \<longleftrightarrow>
     allowed_path path \<and> list_ex (generation_pattern_allows (replace_char (CHR 0x5C) (CHR ''/'') path)) allowed"

definition generated_repair_id :: "(string \<Rightarrow> string) \<Rightarrow> string \<Rightarrow> finding \<Rightarrow> candidate \<Rightarrow> string" where
  "generated_repair_id sha snapshot finding candidate =
     finding_id sha
       [''generated'', snapshot, f_ID finding, cn_Kind candidate, cn_Path candidate, cn_PreimageSHA256 candidate, sha (cn_Content candidate)]"

section \<open>Attempts\<close>

type_synonym 'v generator = "generation_request \<Rightarrow> 'v \<Rightarrow> (generation_error + generation_response) \<times> 'v"

record 'v generation_options =
  gn_Snapshot :: string
  gn_NoApply :: bool
  gn_Generate :: "'v generator option"
  gn_Command :: "string list"
  gn_ProviderEnvironment :: "string list option"
  gn_AllowedPaths :: "string list"
  gn_Validator :: "'v validator option"

record generation_evaluation =
  ge_Findings :: "finding list"
  ge_Repairs :: "repair list"
  ge_Applied :: bool

text \<open>Where the attempts get the rest from: SHA-256 and the codecs, the client's process, \<open>NewRepositoryValidator\<close>.\<close>

record 'v generation_tools =
  gt_repair :: repair_tools
  gt_codec :: candidate_codec
  gt_provider :: "'v provider_tools"
  gt_validator :: "'v validator"

definition repair_entry :: "string \<Rightarrow> finding \<Rightarrow> string \<Rightarrow> string \<Rightarrow> repair" where
  "repair_entry i finding path status =
     \<lparr>rp_ID = i, rp_Finding = f_ID finding, rp_Path = path, rp_Status = status,
      rp_Diff = [], rp_Validation = [], rp_Reason = [], rp_Provenance = []\<rparr>"

definition status_rejected :: string where "status_rejected = ''rejected''"

text \<open>The body of the inner loop: the entry of one candidate, and whether the attempts end with it.\<close>

definition attempt_candidate ::
  "'v generation_tools \<Rightarrow> 'v generation_options \<Rightarrow> 'v validator \<Rightarrow> finding \<Rightarrow> candidate \<Rightarrow> 'v \<times> tree \<Rightarrow>
   (generation_error + repair \<times> bool) \<times> 'v \<times> tree" where
  "attempt_candidate tools options validator finding candidate s =
     (let i = generated_repair_id (tl_sha (gt_repair tools)) (gn_Snapshot options) finding candidate;
          rejected = Inr (repair_entry i finding (cn_Path candidate) status_rejected, False) in
      if \<not> generation_path_allowed (cn_Path candidate) (gn_AllowedPaths options) then (rejected, s)
      else case validate_candidate (Some validator) finding candidate s of
        (Inl e, s) \<Rightarrow> (rejected, s)
      | (Inr validated, v, d) \<Rightarrow>
          if gn_NoApply options then
            (case store_candidate (gt_codec tools)
                \<lparr>cr_ID = i, cr_Snapshot = gn_Snapshot options, cr_Finding = finding, cr_Candidate = validated, cr_Validation = ''passed''\<rparr> d of
               (Inl e, d) \<Rightarrow> (Inl (StoreFailed i e), v, d)
             | (Inr _, d) \<Rightarrow>
                 (Inr ((repair_entry i finding (cn_Path validated) status_candidate)
                    \<lparr>rp_Validation := ''passed'', rp_Provenance := ''snapshot='' @ gn_Snapshot options\<rparr>, False), v, d))
          else
            (case apply_candidate (gt_repair tools) finding validated d of
               (Inl es, d) \<Rightarrow> (rejected, v, d)
             | (Inr applied, d) \<Rightarrow>
                 (Inr (repair_entry i finding (ou_Path applied) (ou_Status applied), ou_Status applied = status_applied), v, d)))"

fun attempt_candidates ::
  "'v generation_tools \<Rightarrow> 'v generation_options \<Rightarrow> 'v validator \<Rightarrow> finding \<Rightarrow> candidate list \<Rightarrow> 'v \<times> tree \<Rightarrow>
   (generation_error + repair list \<times> bool) \<times> 'v \<times> tree" where
  "attempt_candidates tools options validator finding [] s = (Inr ([], False), s)"
| "attempt_candidates tools options validator finding (candidate # candidates) s =
     attempt_in (attempt_candidate tools options validator finding candidate s) (\<lambda>(entry, stop) s.
     if stop then (Inr ([entry], True), s)
     else attempt_in (attempt_candidates tools options validator finding candidates s) (\<lambda>(entries, stop) s.
       (Inr (entry # entries, stop), s)))"

definition asked :: "'v generation_options \<Rightarrow> 'v generator \<Rightarrow> finding \<Rightarrow> 'v \<Rightarrow> (generation_error + candidate list) \<times> 'v" where
  "asked options generate finding v =
     (case generate \<lparr>gq_Version = protocol_version, gq_Finding = finding, gq_AllowedPaths = gn_AllowedPaths options,
          gq_Snapshot = gn_Snapshot options\<rparr> v of
        (Inl e, v) \<Rightarrow> (Inl (GenerateFailed (f_ID finding) e), v)
      | (Inr response, v) \<Rightarrow>
          (require (gp_Version response = protocol_version \<and> gp_FindingID response = f_ID finding) (ResponseIdentity (f_ID finding))
             (Inr (gp_Candidates response)), v))"

text \<open>The outer loop.\<close>

fun attempt_findings ::
  "'v generation_tools \<Rightarrow> 'v generation_options \<Rightarrow> 'v generator \<Rightarrow> 'v validator \<Rightarrow> finding list \<Rightarrow> 'v \<times> tree \<Rightarrow>
   (generation_error + repair list \<times> bool) \<times> 'v \<times> tree" where
  "attempt_findings tools options generate validator [] s = (Inr ([], False), s)"
| "attempt_findings tools options generate validator (finding # findings) (v, d) =
     (case asked options generate finding v of
        (Inl e, v) \<Rightarrow> (Inl e, v, d)
      | (Inr candidates, v) \<Rightarrow>
          attempt_in (attempt_candidates tools options validator finding candidates (v, d)) (\<lambda>(entries, stop) s.
          if stop then (Inr (entries, True), s)
          else attempt_in (attempt_findings tools options generate validator findings s) (\<lambda>(more, stop) s.
            (Inr (entries @ more, stop), s))))"

definition attempt_generated_repairs ::
  "'v generation_tools \<Rightarrow> 'v generation_options \<Rightarrow> finding list \<Rightarrow> 'v \<times> tree \<Rightarrow>
   (generation_error + generation_evaluation) \<times> 'v \<times> tree" where
  "attempt_generated_repairs tools options findings s =
     (let evaluation = \<lparr>ge_Findings = findings, ge_Repairs = [], ge_Applied = False\<rparr>;
          generate =
            (case gn_Generate options of
               Some g \<Rightarrow> Some g
             | None \<Rightarrow>
                 if gn_Command options \<noteq> [] then
                   Some (client_generate (gt_provider tools)
                     \<lparr>gc_Command = gn_Command options, gc_Timeout = 0, gc_Environment = gn_ProviderEnvironment options\<rparr>)
                 else None) in
      if findings = [] then (Inr evaluation, s)
      else case generate of
        None \<Rightarrow> (Inr evaluation, s)
      | Some g \<Rightarrow>
          (case attempt_findings tools options g (case gn_Validator options of Some c \<Rightarrow> c | None \<Rightarrow> gt_validator tools) findings s of
             (Inl e, s) \<Rightarrow> (Inl e, s)
           | (Inr (entries, applied), s) \<Rightarrow> (Inr (evaluation\<lparr>ge_Repairs := entries, ge_Applied := applied\<rparr>), s)))"

section \<open>What the attempts write\<close>

text \<open>Only records of candidates where nothing is applied, and otherwise only what \<open>ApplyCandidate\<close> may write.\<close>

definition record_place :: "place \<Rightarrow> bool" where
  "record_place place \<longleftrightarrow> (\<exists>i. safe_candidate_id i \<and> place = split_on (CHR ''/'') (candidate_path i))"

definition generation_writable :: "bool \<Rightarrow> place \<Rightarrow> bool" where
  "generation_writable no_apply = (if no_apply then record_place else writable)"

lemma store_candidate_writes:
  assumes "store_candidate codec item d = (r, d')" shows "writes_within record_place d d'"
proof (cases "\<not> safe_candidate_id (cr_ID item) \<or> f_ID (cr_Finding item) = [] \<or> cn_Path (cr_Candidate item) = []")
  case True
  then show ?thesis using assms by (auto simp: store_candidate_def)
next
  case False
  then have place: "record_place (split_on (CHR ''/'') (candidate_path (cr_ID item)))" by (auto simp: record_place_def)
  show ?thesis
  proof (cases "cc_encode codec candidate_version item")
    case (Inl e)
    then show ?thesis using assms by (auto simp: store_candidate_def split: if_splits)
  next
    case (Inr body)
    obtain x e where x: "confined_path (candidate_path (cr_ID item)) d = (x, e)" by (cases "confined_path (candidate_path (cr_ID item)) d")
    note first = confined_writes [OF x, of record_place]
    show ?thesis
    proof (cases "candidate_limit < int (length (body @ [CHR 0x0A]))")
      case True
      then show ?thesis using assms False Inr by (auto simp: store_candidate_def)
    next
      case small: False
      show ?thesis
      proof (cases x)
        case (Inl failed)
        then show ?thesis using assms False Inr small x first by (simp add: store_candidate_def)
      next
        case target: (Inr target)
        obtain y f where y: "read_file target e = (y, f)" by (cases "read_file target e")
        note second = read_only_writes(1) [OF y, of record_place]
        obtain z g where z: "atomic_write (candidate_path (cr_ID item)) (body @ [CHR 0x0A]) private_file f = (z, g)"
          by (cases "atomic_write (candidate_path (cr_ID item)) (body @ [CHR 0x0A]) private_file f")
        note third = atomic_write_writes [where P = record_place, OF z place]
        have "d' = f \<or> d' = g"
          using assms False Inr small x target y z by (cases y; cases z) (auto simp: store_candidate_def Let_def split: if_splits)
        then show ?thesis using first second third writes_within_trans by metis
      qed
    qed
  qed
qed

lemma validate_candidate_writes:
  assumes "validate_candidate validator finding candidate (v, d) = (r, v', d')" shows "writes_within P d d'"
proof (cases "normalize_path (cn_Path candidate)")
  case None
  then show ?thesis using assms by (simp add: validate_candidate_def)
next
  case (Some n)
  obtain x e where x: "confined_path n d = (x, e)" by (cases "confined_path n d")
  have "d' = d \<or> d' = e"
    using assms Some x by (auto simp: validate_candidate_def Let_def split: if_splits sum.splits option.splits prod.splits)
  then show ?thesis using confined_writes [OF x, of P] by auto
qed

lemma apply_candidate_writes:
  assumes "apply_candidate tools finding candidate d = (r, d')" shows "writes_within writable d d'"
proof -
  obtain x e where x: "apply_candidates tools [\<lparr>ap_Finding = finding, ap_Candidate = candidate\<rparr>] d = (x, e)"
    by (cases "apply_candidates tools [\<lparr>ap_Finding = finding, ap_Candidate = candidate\<rparr>] d")
  then have "e = d'" using assms by (cases x) (simp add: apply_candidate_def)
  then show ?thesis using apply_candidates_writes [OF x] by simp
qed

text \<open>An entry says \<open>applied\<close> just when the attempts end with it.\<close>

definition entry_ok :: "bool \<Rightarrow> repair \<times> bool \<Rightarrow> bool" where
  "entry_ok no_apply answer \<longleftrightarrow>
     (snd answer = (rp_Status (fst answer) = status_applied)) \<and> (no_apply \<longrightarrow> \<not> snd answer)"

lemma entry_status [simp]: "rp_Status (repair_entry i finding path status) = status"
  by (simp add: repair_entry_def)

lemma rejected_not_applied [simp]: "status_rejected \<noteq> status_applied"
  by (simp add: status_rejected_def status_applied_def)

lemma attempt_candidate_step:
  assumes "attempt_candidate tools options validator finding candidate (v, d) = (r, v', d')"
  shows "writes_within (generation_writable (gn_NoApply options)) d d'"
    and "r = Inr answer \<Longrightarrow> entry_ok (gn_NoApply options) answer"
proof -
  let ?P = "generation_writable (gn_NoApply options)"
  have "writes_within ?P d d' \<and> (\<forall>answer. r = Inr answer \<longrightarrow> entry_ok (gn_NoApply options) answer)"
  proof (cases "generation_path_allowed (cn_Path candidate) (gn_AllowedPaths options)")
    case False
    then show ?thesis using assms by (auto simp: attempt_candidate_def entry_ok_def)
  next
    case True
    obtain x w e where x: "validate_candidate (Some validator) finding candidate (v, d) = (x, w, e)"
      by (cases "validate_candidate (Some validator) finding candidate (v, d)") auto
    note first = validate_candidate_writes [OF x, of ?P]
    show ?thesis
    proof (cases x)
      case (Inl failed)
      then show ?thesis using assms True x first by (auto simp: attempt_candidate_def entry_ok_def)
    next
      case (Inr validated)
      show ?thesis
      proof (cases "gn_NoApply options")
        case no_apply: True
        define i where "i = generated_repair_id (tl_sha (gt_repair tools)) (gn_Snapshot options) finding candidate"
        define item where "item = \<lparr>cr_ID = i, cr_Snapshot = gn_Snapshot options, cr_Finding = finding, cr_Candidate = validated,
          cr_Validation = ''passed''\<rparr>"
        obtain y f where y: "store_candidate (gt_codec tools) item e = (y, f)" by (cases "store_candidate (gt_codec tools) item e")
        have "d' = f \<and> (\<forall>answer. r = Inr answer \<longrightarrow> entry_ok True answer)"
          using assms True x Inr no_apply y by (cases y) (auto simp: attempt_candidate_def entry_ok_def Let_def simp flip: i_def item_def)
        then show ?thesis using first store_candidate_writes [OF y] no_apply writes_within_trans by (auto simp: generation_writable_def)
      next
        case applies: False
        obtain y f where y: "apply_candidate (gt_repair tools) finding validated e = (y, f)"
          by (cases "apply_candidate (gt_repair tools) finding validated e")
        have "d' = f \<and> (\<forall>answer. r = Inr answer \<longrightarrow> entry_ok False answer)"
          using assms True x Inr applies y by (cases y) (auto simp: attempt_candidate_def entry_ok_def)
        then show ?thesis using first apply_candidate_writes [OF y] applies writes_within_trans by (auto simp: generation_writable_def)
      qed
    qed
  qed
  then show "writes_within ?P d d'" "r = Inr answer \<Longrightarrow> entry_ok (gn_NoApply options) answer" by blast+
qed

text \<open>The entries of a run of attempts: those before the last are not applied.\<close>

definition entries_ok :: "bool \<Rightarrow> repair list \<times> bool \<Rightarrow> bool" where
  "entries_ok no_apply answer \<longleftrightarrow>
     (\<exists>before. list_all (\<lambda>e. rp_Status e \<noteq> status_applied) before \<and>
        (if snd answer then \<not> no_apply \<and> (\<exists>e. fst answer = before @ [e] \<and> rp_Status e = status_applied) else fst answer = before))"

lemma entries_ok_append:
  assumes "entries_ok no_apply (front, False)" "entries_ok no_apply (back, stop)"
  shows "entries_ok no_apply (front @ back, stop)"
proof -
  obtain before where before: "list_all (\<lambda>e. rp_Status e \<noteq> status_applied) before"
    "if stop then \<not> no_apply \<and> (\<exists>e. back = before @ [e] \<and> rp_Status e = status_applied) else back = before"
    using assms(2) unfolding entries_ok_def fst_conv snd_conv by blast
  then show ?thesis using assms(1) unfolding entries_ok_def by (intro exI [of _ "front @ before"]) auto
qed

lemma entries_ok_one: "entry_ok no_apply (entry, stop) \<Longrightarrow> entries_ok no_apply ([entry], stop)"
  by (cases stop) (auto simp: entries_ok_def entry_ok_def)

lemma attempt_candidates_run:
  "attempt_candidates tools options validator finding candidates (v, d) = (r, v', d') \<Longrightarrow>
   writes_within (generation_writable (gn_NoApply options)) d d' \<and>
   (\<forall>answer. r = Inr answer \<longrightarrow> entries_ok (gn_NoApply options) answer)"
proof (induction candidates arbitrary: v d r v' d')
  case Nil
  then show ?case by (auto simp: entries_ok_def)
next
  case (Cons candidate candidates)
  obtain x w e where x: "attempt_candidate tools options validator finding candidate (v, d) = (x, w, e)"
    by (cases "attempt_candidate tools options validator finding candidate (v, d)") auto
  note first = attempt_candidate_step [OF x]
  show ?case
  proof (cases x)
    case (Inl failed)
    then show ?thesis using Cons.prems x first by auto
  next
    case (Inr answer)
    obtain entry stop where answer: "answer = (entry, stop)" by (cases answer)
    have one: "entries_ok (gn_NoApply options) ([entry], stop)" using first(2) Inr answer entries_ok_one by blast
    obtain y u f where y: "attempt_candidates tools options validator finding candidates (w, e) = (y, u, f)"
      by (cases "attempt_candidates tools options validator finding candidates (w, e)") auto
    show ?thesis
    proof (cases stop)
      case True
      then show ?thesis using Cons.prems x Inr answer first(1) one by auto
    next
      case False
      note rest = Cons.IH [OF y]
      have "d' = f" "\<forall>answer. r = Inr answer \<longrightarrow> (\<exists>entries more. y = Inr (entries, more) \<and> answer = (entry # entries, more))"
        using Cons.prems x Inr answer False y by (cases y; auto)+
      then show ?thesis using first(1) rest one False entries_ok_append [of _ "[entry]"] writes_within_trans by fastforce
    qed
  qed
qed


lemma attempt_findings_run:
  "attempt_findings tools options generate validator findings (v, d) = (r, v', d') \<Longrightarrow>
   writes_within (generation_writable (gn_NoApply options)) d d' \<and>
   (\<forall>answer. r = Inr answer \<longrightarrow> entries_ok (gn_NoApply options) answer)"
proof (induction findings arbitrary: v d r v' d')
  case Nil
  then show ?case by (auto simp: entries_ok_def)
next
  case (Cons finding findings)
  obtain a u where a: "asked options generate finding v = (a, u)" by (cases "asked options generate finding v")
  show ?case
  proof (cases a)
    case (Inl failed)
    then show ?thesis using Cons.prems a by auto
  next
    case (Inr candidates)
    obtain x w e where x: "attempt_candidates tools options validator finding candidates (u, d) = (x, w, e)"
      by (cases "attempt_candidates tools options validator finding candidates (u, d)") auto
    note first = attempt_candidates_run [OF x]
    show ?thesis
    proof (cases x)
      case (Inl failed)
      then show ?thesis using Cons.prems a \<open>a = Inr candidates\<close> x first by auto
    next
      case answer: (Inr answer)
      obtain front stop where front: "answer = (front, stop)" by (cases answer)
      obtain y q f where y: "attempt_findings tools options generate validator findings (w, e) = (y, q, f)"
        by (cases "attempt_findings tools options generate validator findings (w, e)") auto
      show ?thesis
      proof (cases stop)
        case True
        then show ?thesis using Cons.prems a Inr x answer front first by auto
      next
        case False
        note rest = Cons.IH [OF y]
        have "d' = f" "\<forall>answer. r = Inr answer \<longrightarrow> (\<exists>back more. y = Inr (back, more) \<and> answer = (front @ back, more))"
          using Cons.prems a Inr x answer front False y by (cases y; auto)+
        then show ?thesis using rest first answer front False entries_ok_append [of _ front] writes_within_trans by fastforce
      qed
    qed
  qed
qed

lemma attempt_generated_repairs_cases:
  assumes "attempt_generated_repairs tools options findings (v, d) = (r, v', d')"
  obtains "r = Inr \<lparr>ge_Findings = findings, ge_Repairs = [], ge_Applied = False\<rparr>" "d' = d"
    | generate validator x where "attempt_findings tools options generate validator findings (v, d) = (x, v', d')"
        "r = map_sum id (\<lambda>(entries, applied). \<lparr>ge_Findings = findings, ge_Repairs = entries, ge_Applied = applied\<rparr>) x"
proof (cases "r = Inr \<lparr>ge_Findings = findings, ge_Repairs = [], ge_Applied = False\<rparr> \<and> d' = d")
  case False
  then obtain generate validator where run: "(case attempt_findings tools options generate validator findings (v, d) of
      (Inl e, s) \<Rightarrow> (Inl e, s)
    | (Inr (entries, applied), s) \<Rightarrow>
        (Inr (\<lparr>ge_Findings = findings, ge_Repairs = [], ge_Applied = False\<rparr>\<lparr>ge_Repairs := entries, ge_Applied := applied\<rparr>), s))
      = (r, v', d')"
    using assms unfolding attempt_generated_repairs_def Let_def by (auto split: if_splits option.splits)
  obtain x s where x: "attempt_findings tools options generate validator findings (v, d) = (x, s)"
    by (cases "attempt_findings tools options generate validator findings (v, d)")
  have "attempt_findings tools options generate validator findings (v, d) = (x, v', d')"
    using run x by (auto split: sum.splits)
  moreover have "r = map_sum id (\<lambda>(entries, applied). \<lparr>ge_Findings = findings, ge_Repairs = entries, ge_Applied = applied\<rparr>) x"
    using run x by (auto split: sum.splits)
  ultimately show thesis by (rule that(2))
qed (use that(1) in blast)


text \<open>
  The attempts apply one batch at most: the evaluation says \<open>Applied\<close> just when its last entry does, no
  entry before it does, and under \<open>NoApply\<close> none.
\<close>

theorem generation_applies_once:
  assumes "attempt_generated_repairs tools options findings (v, d) = (Inr evaluation, s)"
  shows "list_all (\<lambda>e. rp_Status e \<noteq> status_applied) (butlast (ge_Repairs evaluation)) \<and>
    (ge_Applied evaluation \<longleftrightarrow> ge_Repairs evaluation \<noteq> [] \<and> rp_Status (last (ge_Repairs evaluation)) = status_applied) \<and>
    (gn_NoApply options \<longrightarrow> \<not> ge_Applied evaluation)"
proof -
  obtain v' d' where s: "s = (v', d')" by (cases s)
  from assms [unfolded s] show ?thesis
  proof (cases rule: attempt_generated_repairs_cases)
    case (2 generate validator x)
    then obtain entries applied where answer: "x = Inr (entries, applied)" "ge_Repairs evaluation = entries" "ge_Applied evaluation = applied"
      by (cases x) auto
    then have "entries_ok (gn_NoApply options) (entries, applied)" using attempt_findings_run [OF 2(1)] by simp
    then obtain before where "list_all (\<lambda>e. rp_Status e \<noteq> status_applied) before"
      "if applied then \<not> gn_NoApply options \<and> (\<exists>e. entries = before @ [e] \<and> rp_Status e = status_applied) else entries = before"
      unfolding entries_ok_def fst_conv snd_conv by blast
    then show ?thesis using answer by (cases "entries = []") (auto simp: list_all_iff dest: in_set_butlastD split: if_splits)
  qed simp
qed


section \<open>A path out of the allowed ones\<close>

definition step_up_candidate :: candidate where
  "step_up_candidate = \<lparr>cn_Kind = ''patch'', cn_Path = ''allowed/../other/x_test.go'', cn_PreimageSHA256 = [], cn_Content = ''x'', cn_Replay = []\<rparr>"

definition passing_validator :: "unit validator" where
  "passing_validator = \<lparr>va_original = (\<lambda>_ v. (None, v)), va_kills = (\<lambda>_ _ v. (None, v)), va_suite = (\<lambda>_ v. (None, v))\<rparr>"

definition step_up_tools :: "unit generation_tools" where
  "step_up_tools = \<lparr>gt_repair = sample_repair_tools\<lparr>tl_sha := (\<lambda>_. ''0123456789abcdef'')\<rparr>,
     gt_codec = \<lparr>cc_encode = (\<lambda>_ item. Inr (cn_Path (cr_Candidate item))), cc_decode = Inl\<rparr>,
     gt_provider = \<lparr>pt_encode = (\<lambda>_. Inl []), pt_decode = Inl, pt_process = (\<lambda>_ _ _ _ v. (Unstarted [], v))\<rparr>,
     gt_validator = passing_validator\<rparr>"

definition step_up_options :: "bool \<Rightarrow> unit generation_options" where
  "step_up_options no_apply = \<lparr>gn_Snapshot = ''s'', gn_NoApply = no_apply,
     gn_Generate = Some (\<lambda>request v. (Inr \<lparr>gp_Version = 1, gp_FindingID = f_ID (gq_Finding request), gp_Candidates = [step_up_candidate]\<rparr>, v)),
     gn_Command = [], gn_ProviderEnvironment = None, gn_AllowedPaths = [''allowed/**''], gn_Validator = None\<rparr>"

definition step_up_run :: "bool \<Rightarrow> (generation_error + generation_evaluation) \<times> unit \<times> tree" where
  "step_up_run no_apply =
     attempt_generated_repairs step_up_tools (step_up_options no_apply) [sample_repair_finding]
       ((), \<lparr>tr_nodes = [[] \<mapsto> Directory, [''other''] \<mapsto> Directory], tr_turns = [], tr_writes = []\<rparr>)"



theorem generation_applies_once_witness:
  "\<exists>evaluation. fst (step_up_run False) = Inr evaluation \<and> ge_Repairs evaluation \<noteq> [] \<and>
     rp_Status (last (ge_Repairs evaluation)) = status_applied"
proof -
  have run: "map_sum id ge_Applied (fst (step_up_run False)) = Inr True" by code_simp
  then obtain evaluation s where evaluation: "step_up_run False = (Inr evaluation, s)" "ge_Applied evaluation"
    by (cases "step_up_run False"; cases "fst (step_up_run False)") auto
  from generation_applies_once [OF evaluation(1) [unfolded step_up_run_def]] evaluation show ?thesis by simp
qed

end
