(* ===== verification/RunDriver.thy ===== *)
theory RunDriver
  imports Generation
begin

text \<open>
  The run itself (\<open>runWithDependencies\<close> of \<open>assure/run.go\<close>): its rounds, their phases in order, what each
  phase is given of the ones before it, every early return, and what is closed on each. \<open>run_dependencies\<close>
  is the source's record of functions of the same name, with what the run uses of the build cache and of
  the temporary directories; their state is the world \<open>'w\<close>. The preparation of the mutants, a goroutine
  the run only hears of through a channel, is started by \<open>rd_start\<close> and waited for by \<open>rd_settle\<close>. A
  dependency that calls back into the run, to save what it has done or to run an original command, is a
  \<open>dialogue\<close>. Not modelled: the trace recorder, and the \<open>emit\<close> calls of what is swept and kept.
\<close>

section \<open>Data\<close>

type_synonym handle = nat

text \<open>What a run holds and has to give back.\<close>

datatype held =
    Workspace handle
  | Manager handle
  | Preparation
  | BaselineScratch string
  | RunScratch string

text \<open>What a run did, in order: what it acquired and released, what it showed, and what its phases answered.\<close>

datatype run_event =
    Acquired held
  | Released held
  | Emitted string string
  | InputsComputed string
  | CacheAnswered report
  | ChangesEmpty
  | BaselineSettled "finding list"
  | RaceSettled "finding list"
  | MutationSettled int
  | RepairsSettled "finding list" bool
  | Stored string report

datatype run_error =
    Failed string
  | UnknownContract string
  | ArgumentRefused string
  | SessionUnprepared
  | RepositoryChanged

text \<open>The workspace of the original commands: opened when first asked for, once.\<close>

datatype control = Unopened | OpenControl handle | FailedControl string | ClosedControl

record 'w driver =
  dv_world :: 'w
  dv_log :: "run_event list"
  dv_checkpoint :: "run_checkpoint option"
  dv_control :: control
  dv_preparing :: bool
  dv_baseline :: baseline_state

datatype ('q, 'a, 'r, 'w) dialogue =
    Finishes 'r 'w
  | Says 'q 'w "'a \<Rightarrow> 'w \<Rightarrow> ('q, 'a, 'r, 'w) dialogue"

datatype mutation_call = AsksControl exec_request | SavesMutant string mutation_evaluation

record preparation =
  pn_session :: "handle option"
  pn_catalog :: catalog
  pn_error :: "string option"

record prepare_options =
  pp_Contract :: string
  pp_Operators :: "string list"
  pp_Include :: "string list"
  pp_Exclude :: "string list"
  pp_DiscoveryPackages :: "string list"
  pp_Packages :: "string list"
  pp_ProbeCoverPackages :: "string list"
  pp_Jobs :: int
  pp_BuildTimeout :: int
  pp_MutantTimeout :: int
  pp_Probe :: bool

text \<open>What \<open>attemptRepairs\<close> is given of the run, with the environment of its validator and of the build cache.\<close>

record repair_request =
  rq_Snapshot :: string
  rq_NoApply :: bool
  rq_Command :: "string list"
  rq_ProviderEnvironment :: "string list"
  rq_AllowedPaths :: "string list"
  rq_Environment :: "string list"
  rq_BuildEnvironment :: "string list"

record 'w run_dependencies =
  rd_root :: "'w \<Rightarrow> (string + string) \<times> 'w"
  rd_config :: "string \<Rightarrow> 'w \<Rightarrow> (string + config) \<times> 'w"
  rd_now :: "'w \<Rightarrow> int \<times> 'w"
  rd_get :: "string \<Rightarrow> 'w \<Rightarrow> (string + report option) \<times> 'w"
  rd_put :: "string \<Rightarrow> report \<Rightarrow> 'w \<Rightarrow> string option \<times> 'w"
  rd_checkpoints :: "'w run_cache"
  rd_sweep :: "'w \<Rightarrow> 'w"
  rd_make_scratch :: "'w \<Rightarrow> (string + string) \<times> 'w"
  rd_claim_scratch :: "string \<Rightarrow> 'w \<Rightarrow> (string \<times> bool) option \<times> 'w"
  rd_remove_scratch :: "string \<Rightarrow> 'w \<Rightarrow> string option \<times> 'w"
  rd_release_scratch :: "string \<Rightarrow> 'w \<Rightarrow> 'w"
  rd_open_cache :: "string \<Rightarrow> int \<Rightarrow> 'w \<Rightarrow> string option \<times> 'w"
  rd_close_cache :: "config \<Rightarrow> 'w \<Rightarrow> (string \<times> string option) \<times> 'w"
  rd_preparation_environment :: "'w \<Rightarrow> string list"
  rd_build_environment :: "'w \<Rightarrow> string list"
  rd_persist_compile :: "'w \<Rightarrow> bool"
  rd_persist_preparation :: "'w \<Rightarrow> 'w"
  rd_open :: "string \<Rightarrow> string \<Rightarrow> string list \<Rightarrow> 'w \<Rightarrow> (string + handle) \<times> 'w"
  rd_close :: "handle \<Rightarrow> 'w \<Rightarrow> string option \<times> 'w"
  rd_exec :: "handle \<Rightarrow> 'w \<Rightarrow> command \<Rightarrow> (string + command_result) \<times> 'w"
  rd_inspect :: "handle \<Rightarrow> run_options \<Rightarrow> 'w \<Rightarrow> (string + round_metadata \<times> string) \<times> 'w"
  rd_inputs :: "string \<Rightarrow> string \<Rightarrow> run_options \<Rightarrow> config \<Rightarrow> round_metadata \<Rightarrow> 'w \<Rightarrow> (string + evidence_inputs \<times> string) \<times> 'w"
  rd_discover :: "string \<Rightarrow> go_package list \<Rightarrow> 'w \<Rightarrow> (string + target list) \<times> 'w"
  rd_impact :: "string \<Rightarrow> go_model \<Rightarrow> target list \<Rightarrow> run_options \<Rightarrow> 'w \<Rightarrow> impact_selection \<times> 'w"
  rd_resources :: "config \<Rightarrow> target list \<Rightarrow> string list option \<Rightarrow> 'w \<Rightarrow> (string + handle \<times> acquired_resources) \<times> 'w"
  rd_close_manager :: "handle \<Rightarrow> 'w \<Rightarrow> string option \<times> 'w"
  rd_candidates :: "string \<Rightarrow> go_package list \<Rightarrow> (string \<times> read_candidate) list"
  rd_observation :: "string \<Rightarrow> 'w \<Rightarrow> (string + string) \<times> 'w"
  rd_make_baseline :: "string \<Rightarrow> 'w \<Rightarrow> (string + string) \<times> 'w"
  rd_remove_baseline :: "string \<Rightarrow> 'w \<Rightarrow> string option \<times> 'w"
  rd_start :: "handle \<Rightarrow> prepare_options \<Rightarrow> 'w \<Rightarrow> 'w"
  rd_settle :: "bool \<Rightarrow> 'w \<Rightarrow> preparation \<times> 'w"
  rd_baseline :: "handle \<Rightarrow> handle option \<Rightarrow> go_model \<Rightarrow> baseline_item list \<Rightarrow> baseline_options \<Rightarrow> 'w \<Rightarrow>
    (baseline_state, unit, string + baseline_result, 'w) dialogue"
  rd_graph :: "string \<Rightarrow> go_model \<Rightarrow> target_evidence list \<Rightarrow> 'w \<Rightarrow> (string + impact_graph) \<times> 'w"
  rd_save_graph :: "string \<Rightarrow> graph_record \<Rightarrow> 'w \<Rightarrow> string option \<times> 'w"
  rd_concurrency :: "string \<Rightarrow> go_package list \<Rightarrow> 'w \<Rightarrow> (string + string list) \<times> 'w"
  rd_race :: "handle \<Rightarrow> go_model \<Rightarrow> string list \<Rightarrow> string \<Rightarrow> race_options \<Rightarrow> 'w \<Rightarrow> (string + race_result) \<times> 'w"
  rd_probe :: "handle \<Rightarrow> target_evidence list \<Rightarrow> probe_options \<Rightarrow> 'w \<Rightarrow> (string + probe_evaluation) \<times> 'w"
  rd_probe_control :: "handle \<Rightarrow> 'w \<Rightarrow> exec_request \<Rightarrow> (string + command_result) \<times> 'w"
  rd_load_evidence :: "string \<Rightarrow> 'w \<Rightarrow> (string + mutation_store) \<times> 'w"
  rd_save_evidence :: "mutation_store \<Rightarrow> 'w \<Rightarrow> string option \<times> 'w"
  rd_mutation :: "handle \<Rightarrow> target_evidence list \<Rightarrow> mutation_options \<Rightarrow> mutation_evidence option \<Rightarrow> 'w \<Rightarrow>
    (mutation_call, string + command_result, (string + mutation_evaluation) \<times> mutation_evidence option, 'w) dialogue"
  rd_repairs :: "string \<Rightarrow> finding list \<Rightarrow> repair_request \<Rightarrow> 'w \<Rightarrow> (string + generation_evaluation) \<times> 'w"

text \<open>What does not depend on the world.\<close>

record run_tools =
  ro_sha :: "string \<Rightarrow> string"
  ro_upper :: "string \<Rightarrow> string"
  ro_goflags :: "string \<Rightarrow> bool"
  ro_environ :: "string list"
  ro_quote :: "string \<Rightarrow> string"
  ro_rfc3339 :: "int \<Rightarrow> string"
  ro_abs :: "string \<Rightarrow> string option"
  ro_procs :: int
  ro_os :: string
  ro_arch :: string

section \<open>Steps\<close>

datatype 'a round_step = RoundFails "run_error list" | RoundReturns report | RoundGoesOn 'a

definition go_on :: "'a round_step \<times> 's \<Rightarrow> ('a \<Rightarrow> 's \<Rightarrow> 'b round_step \<times> 's) \<Rightarrow> 'b round_step \<times> 's" where
  "go_on r f = (case r of
      (RoundFails es, s) \<Rightarrow> (RoundFails es, s)
    | (RoundReturns x, s) \<Rightarrow> (RoundReturns x, s)
    | (RoundGoesOn x, s) \<Rightarrow> f x s)"

definition perform :: "('w \<Rightarrow> 'a \<times> 'w) \<Rightarrow> 'w driver \<Rightarrow> 'a \<times> 'w driver" where
  "perform f dv = (let (x, w) = f (dv_world dv) in (x, dv\<lparr>dv_world := w\<rparr>))"

definition log_event :: "run_event \<Rightarrow> 'w driver \<Rightarrow> 'w driver" where
  "log_event e dv = dv\<lparr>dv_log := dv_log dv @ [e]\<rparr>"

text \<open>\<open>x, err := f(); if err != nil { clean up; return err }\<close>.\<close>

definition trying :: "('w \<Rightarrow> (string + 'a) \<times> 'w) \<Rightarrow> ('w driver \<Rightarrow> 'w driver) \<Rightarrow> 'w driver \<Rightarrow> 'a round_step \<times> 'w driver" where
  "trying f cleanup dv = (case perform f dv of
      (Inl e, dv) \<Rightarrow> (RoundFails [Failed e], cleanup dv)
    | (Inr x, dv) \<Rightarrow> (RoundGoesOn x, dv))"

primrec converse :: "('q \<Rightarrow> 'w driver \<Rightarrow> 'a \<times> 'w driver) \<Rightarrow> ('q, 'a, 'r, 'w) dialogue \<Rightarrow> 'w driver \<Rightarrow> 'r \<times> 'w driver" where
  "converse hear (Finishes r w) = (\<lambda>dv. (r, dv\<lparr>dv_world := w\<rparr>))"
| "converse hear (Says q w continue) = (\<lambda>dv.
     case hear q (dv\<lparr>dv_world := w\<rparr>) of (a, dv) \<Rightarrow> converse hear (continue a (dv_world dv)) dv)"

definition with_checkpoint :: "(run_checkpoint \<times> 'w \<Rightarrow> run_checkpoint \<times> 'w) \<Rightarrow> 'w driver \<Rightarrow> 'w driver" where
  "with_checkpoint f dv = (case dv_checkpoint dv of
      None \<Rightarrow> dv
    | Some c \<Rightarrow> (let (c, w) = f (c, dv_world dv) in dv\<lparr>dv_checkpoint := Some c, dv_world := w\<rparr>))"

definition from_checkpoint :: "'a \<Rightarrow> (run_checkpoint \<times> 'w \<Rightarrow> 'a \<times> run_checkpoint \<times> 'w) \<Rightarrow> 'w driver \<Rightarrow> 'a \<times> 'w driver" where
  "from_checkpoint absent f dv = (case dv_checkpoint dv of
      None \<Rightarrow> (absent, dv)
    | Some c \<Rightarrow> (let (x, c, w) = f (c, dv_world dv) in (x, dv\<lparr>dv_checkpoint := Some c, dv_world := w\<rparr>)))"

definition resume_metadata :: "'w driver \<Rightarrow> resume option" where
  "resume_metadata dv = Option.bind (dv_checkpoint dv) rk_resume_metadata"

definition counted_noun :: "int \<Rightarrow> string \<Rightarrow> string \<Rightarrow> string" where
  "counted_noun n singular plural = (if n = 1 then ''1 '' @ singular else itoa n @ '' '' @ plural)"

section \<open>Before the rounds\<close>

record setting =
  st_Root :: string
  st_Config :: config
  st_Options :: run_options
  st_Contract :: string
  st_Jobs :: int
  st_Accepted :: "string \<Rightarrow> bool"
  st_Acceptances :: "acceptance list"
  st_Scratch :: string

definition open_run_scratch :: "'w run_dependencies \<Rightarrow> 'w driver \<Rightarrow> string round_step \<times> 'w driver" where
  "open_run_scratch d dv =
     go_on (trying (rd_make_scratch d) id dv) (\<lambda>directory dv.
     case perform (rd_claim_scratch d directory) dv of
       (None, dv) \<Rightarrow> (RoundGoesOn directory, log_event (Acquired (RunScratch directory)) dv)
     | (Some (failure, owned), dv) \<Rightarrow>
         if owned then (RoundFails [Failed failure], dv)
         else (case perform (rd_remove_scratch d directory) dv of
             (None, dv) \<Rightarrow> (RoundFails [Failed failure], dv)
           | (Some e, dv) \<Rightarrow> (RoundFails [Failed failure, Failed e], dv)))"

text \<open>The text of \<open>errors.Join\<close>; an error keeps the text of the dependency without the words put before it.\<close>

definition error_text :: "run_error list \<Rightarrow> string" where
  "error_text es = join [newline] (List.map_filter (\<lambda>e. case e of Failed s \<Rightarrow> Some s | _ \<Rightarrow> None) es)"

text \<open>What the run holds from its start to its end: the temporary directory, and the build cache in it where there is one.\<close>

definition hold_scratch :: "'w run_dependencies \<Rightarrow> setting \<Rightarrow> 'w driver \<Rightarrow> setting round_step \<times> 'w driver" where
  "hold_scratch d st dv =
     (case open_run_scratch d dv of
        (RoundFails es, dv) \<Rightarrow> (RoundFails es, log_event (Emitted ''temp-unavailable'' (error_text es)) dv)
      | (RoundReturns r, dv) \<Rightarrow> (RoundReturns r, dv)
      | (RoundGoesOn scratch, dv) \<Rightarrow>
          let (failure, dv) = perform (rd_open_cache d scratch (cf_BuildMaxBytes (st_Config st))) dv
          in (RoundGoesOn (st\<lparr>st_Scratch := scratch\<rparr>),
              case failure of None \<Rightarrow> dv | Some e \<Rightarrow> log_event (Emitted ''build-cache-unavailable'' e) dv))"

definition set_up :: "run_tools \<Rightarrow> 'w run_dependencies \<Rightarrow> run_options \<Rightarrow> 'w driver \<Rightarrow> setting round_step \<times> 'w driver" where
  "set_up o' d options dv =
     go_on (trying (rd_root d) id dv) (\<lambda>root dv.
     go_on (trying (rd_config d root) id dv) (\<lambda>loaded dv.
     let options = apply_execution_defaults loaded options;
         contract = (if opt_Contract options = [] then cf_Contract loaded else opt_Contract options) in
     if contract \<noteq> ''standard-v1'' \<and> contract \<noteq> ''deep-v1'' then (RoundFails [UnknownContract contract], dv)
     else case normalize_arguments (opt_TestArgs options) of
       Inl argument \<Rightarrow> (RoundFails [ArgumentRefused argument], dv)
     | Inr arguments \<Rightarrow>
         let options = options\<lparr>opt_TestArgs := arguments\<rparr>;
             (accepting, dv) = perform (rd_now d) dv;
             (listing, dv) = perform (rd_now d) dv
         in hold_scratch d
              \<lparr>st_Root = root, st_Config = loaded, st_Options = options, st_Contract = contract,
               st_Jobs = mutation_job_limit (ro_procs o') options loaded,
               st_Accepted = active_acceptance loaded accepting,
               st_Acceptances = active_acceptance_metadata (ro_rfc3339 o') loaded listing, st_Scratch = []\<rparr>
              (dv\<lparr>dv_world := rd_sweep d (dv_world dv)\<rparr>)))"

text \<open>What is deferred until the run returns: the build cache first, then the directory.\<close>

definition tear_down :: "'w run_dependencies \<Rightarrow> setting \<Rightarrow> 'w driver \<Rightarrow> 'w driver" where
  "tear_down d st dv =
     (let ((detail, failure), dv) = perform (rd_close_cache d (st_Config st)) dv;
          dv = (if detail = [] then dv else log_event (Emitted ''build-cache-summary'' detail) dv);
          dv = (case failure of None \<Rightarrow> dv | Some e \<Rightarrow> log_event (Emitted ''build-cache-unavailable'' e) dv)
      in log_event (Released (RunScratch (st_Scratch st))) (dv\<lparr>dv_world := rd_release_scratch d (st_Scratch st) (dv_world dv)\<rparr>))"

section \<open>Workspaces\<close>

definition close_workspace :: "'w run_dependencies \<Rightarrow> handle \<Rightarrow> 'w driver \<Rightarrow> string option \<times> 'w driver" where
  "close_workspace d h dv = (let (e, dv) = perform (rd_close d h) dv in (e, log_event (Released (Workspace h)) dv))"

definition abandon :: "'w run_dependencies \<Rightarrow> handle \<Rightarrow> 'w driver \<Rightarrow> 'w driver" where
  "abandon d h dv = snd (close_workspace d h dv)"

text \<open>\<open>openControl\<close>, with \<open>sync.Once\<close>: a workspace that could not be opened is not tried again.\<close>

definition control_environment :: "run_tools \<Rightarrow> setting \<Rightarrow> string list \<Rightarrow> string list" where
  "control_environment o' st build =
     overlay_environment (ro_upper o')
       (mutation_environment (ro_upper o') (ro_goflags o') (ro_environ o') (opt_Environment (st_Options st)) (opt_BuildTags (st_Options st))) build"

definition open_control :: "run_tools \<Rightarrow> 'w run_dependencies \<Rightarrow> setting \<Rightarrow> 'w driver \<Rightarrow> (string + handle) \<times> 'w driver" where
  "open_control o' d st dv = (case dv_control dv of
      ClosedControl \<Rightarrow> (Inl ''goatest: original-control workspace is closed'', dv)
    | FailedControl e \<Rightarrow> (Inl e, dv)
    | OpenControl h \<Rightarrow> (Inr h, dv)
    | Unopened \<Rightarrow>
        (case perform (rd_open d (st_Root st) (st_Scratch st) (control_environment o' st (rd_build_environment d (dv_world dv)))) dv of
           (Inl e, dv) \<Rightarrow> (Inl e, dv\<lparr>dv_control := FailedControl e\<rparr>)
         | (Inr h, dv) \<Rightarrow> (Inr h, log_event (Acquired (Workspace h)) dv\<lparr>dv_control := OpenControl h\<rparr>)))"

definition ask_original_control ::
  "run_tools \<Rightarrow> 'w run_dependencies \<Rightarrow> setting \<Rightarrow> exec_request \<Rightarrow> 'w driver \<Rightarrow> (string + command_result) \<times> 'w driver" where
  "ask_original_control o' d st request dv =
     attempt_in (open_control o' d st dv) (\<lambda>h dv.
     perform (\<lambda>w. run_original_mutation_control (rd_exec d h) (opt_BuildTags (st_Options st)) w request) dv)"

definition close_control :: "'w run_dependencies \<Rightarrow> 'w driver \<Rightarrow> string option \<times> 'w driver" where
  "close_control d dv = (case dv_control dv of
      OpenControl h \<Rightarrow> close_workspace d h (dv\<lparr>dv_control := ClosedControl\<rparr>)
    | _ \<Rightarrow> (None, dv\<lparr>dv_control := ClosedControl\<rparr>))"

text \<open>\<open>settlePreparation\<close>: nothing where there is none.\<close>

definition no_preparation :: preparation where
  "no_preparation = \<lparr>pn_session = None, pn_catalog = \<lparr>cat_Mutants = [], cat_Rejections = []\<rparr>, pn_error = None\<rparr>"

definition settle_preparation :: "'w run_dependencies \<Rightarrow> bool \<Rightarrow> 'w driver \<Rightarrow> preparation \<times> 'w driver" where
  "settle_preparation d cancel dv =
     (if \<not> dv_preparing dv then (no_preparation, dv)
      else let (result, dv) = perform (rd_settle d cancel) dv
           in (result, log_event (Released Preparation) dv\<lparr>dv_preparing := False\<rparr>))"

definition accepted_preparation :: "preparation \<Rightarrow> run_error + handle" where
  "accepted_preparation result =
     (case pn_error result of
        Some e \<Rightarrow> Inl (Failed e)
      | None \<Rightarrow> (case pn_session result of None \<Rightarrow> Inl SessionUnprepared | Some h \<Rightarrow> Inr h))"

text \<open>\<open>closeRound\<close>: the preparation is cancelled, and everything is closed whatever fails.\<close>

definition close_manager :: "'w run_dependencies \<Rightarrow> handle \<Rightarrow> 'w driver \<Rightarrow> string option \<times> 'w driver" where
  "close_manager d m dv = (let (e, dv) = perform (rd_close_manager d m) dv in (e, log_event (Released (Manager m)) dv))"

definition close_round :: "'w run_dependencies \<Rightarrow> handle \<Rightarrow> handle \<Rightarrow> 'w driver \<Rightarrow> run_error list \<times> 'w driver" where
  "close_round d workspace manager dv =
     (let (_, dv) = settle_preparation d True dv;
          (first, dv) = close_control d dv;
          (second, dv) = close_manager d manager dv;
          (third, dv) = close_workspace d workspace dv
      in (map Failed (List.map_filter id [first, second, third]), dv))"

definition abandon_round :: "'w run_dependencies \<Rightarrow> handle \<Rightarrow> handle \<Rightarrow> 'w driver \<Rightarrow> 'w driver" where
  "abandon_round d workspace manager dv = snd (close_round d workspace manager dv)"

text \<open>A report the round ends with, unless closing it fails.\<close>

definition return_closed :: "'w run_dependencies \<Rightarrow> handle \<Rightarrow> handle \<Rightarrow> report \<Rightarrow> 'w driver \<Rightarrow> 'a round_step \<times> 'w driver" where
  "return_closed d workspace manager r dv =
     (case close_round d workspace manager dv of
        ([], dv) \<Rightarrow> (RoundReturns r, dv)
      | (es, dv) \<Rightarrow> (RoundFails es, dv))"

definition return_alone :: "'w run_dependencies \<Rightarrow> handle \<Rightarrow> report \<Rightarrow> 'w driver \<Rightarrow> 'a round_step \<times> 'w driver" where
  "return_alone d workspace r dv =
     (case close_workspace d workspace dv of
        (None, dv) \<Rightarrow> (RoundReturns r, dv)
      | (Some e, dv) \<Rightarrow> (RoundFails [Failed e], dv))"

definition store_report :: "'w run_dependencies \<Rightarrow> string \<Rightarrow> report \<Rightarrow> 'w driver \<Rightarrow> 'a round_step \<times> 'w driver" where
  "store_report d digest r dv =
     (case perform (rd_put d digest r) dv of
        (None, dv) \<Rightarrow> (RoundReturns r, log_event (Stored digest r) dv)
      | (Some e, dv) \<Rightarrow> (RoundFails [Failed e], dv))"


section \<open>A round: what it is about\<close>

record opened_round =
  or_workspace :: handle
  or_metadata :: round_metadata
  or_directory :: string
  or_inputs :: evidence_inputs
  or_digest :: string

text \<open>The metadata and the inputs of a workspace; \<open>round_start\<close> first opens one and forgets the last round's control.\<close>

definition round_inputs :: "'w run_dependencies \<Rightarrow> setting \<Rightarrow> handle \<Rightarrow> 'w driver \<Rightarrow> opened_round round_step \<times> 'w driver" where
  "round_inputs d st workspace dv =
     go_on (trying (rd_inspect d workspace (st_Options st)) (abandon d workspace) dv) (\<lambda>(metadata, directory) dv.
     go_on (trying (rd_inputs d (st_Root st) (st_Contract st) (st_Options st) (st_Config st) metadata) (abandon d workspace) dv) (\<lambda>(inputs, digest) dv.
     (RoundGoesOn \<lparr>or_workspace = workspace, or_metadata = metadata, or_directory = directory, or_inputs = inputs, or_digest = digest\<rparr>,
      log_event (InputsComputed digest) dv)))"

definition round_start :: "run_tools \<Rightarrow> 'w run_dependencies \<Rightarrow> setting \<Rightarrow> nat \<Rightarrow> 'w driver \<Rightarrow> opened_round round_step \<times> 'w driver" where
  "round_start o' d st n dv =
     (let dv = log_event (Emitted ''snapshot'' (''repair round '' @ itoa (int n + 1))) (dv\<lparr>dv_control := Unopened\<rparr>);
          environment = control_environment o' st (rd_preparation_environment d (dv_world dv)) in
      go_on (trying (rd_open d (st_Root st) (st_Scratch st) environment) id dv) (\<lambda>workspace dv.
      round_inputs d st workspace (log_event (Acquired (Workspace workspace)) dv)))"

text \<open>The exact cache: only the first round, and only where no resource has state of its own.\<close>

definition exact_reuse :: "setting \<Rightarrow> nat \<Rightarrow> bool" where
  "exact_reuse st n \<longleftrightarrow> n = 0 \<and> cf_Resources (st_Config st) = []"

definition cache_check :: "'w run_dependencies \<Rightarrow> setting \<Rightarrow> nat \<Rightarrow> opened_round \<Rightarrow> 'w driver \<Rightarrow> unit round_step \<times> 'w driver" where
  "cache_check d st n opened dv =
     (if \<not> exact_reuse st n then (RoundGoesOn (), dv)
      else go_on (trying (rd_get d (or_digest opened)) (abandon d (or_workspace opened)) dv) (\<lambda>found dv.
        case found of
          None \<Rightarrow> (RoundGoesOn (), dv)
        | Some cached \<Rightarrow>
            if \<not> cached_report_reusable cached (st_Accepted st) then (RoundGoesOn (), dv)
            else return_alone d (or_workspace opened) cached
              (log_event (CacheAnswered cached) (log_event (Emitted ''cache-hit'' (or_digest opened)) dv))))"

record planned_round =
  pl_all :: "target list"
  pl_targets :: "target list"
  pl_selection :: impact_selection

abbreviation round_packages :: "opened_round \<Rightarrow> go_package list" where
  "round_packages opened \<equiv> files_of (gm_Packages (md_model (or_metadata opened)))"

definition emit_impact :: "setting \<Rightarrow> target list \<Rightarrow> impact_selection \<Rightarrow> 'w driver \<Rightarrow> 'w driver" where
  "emit_impact st targets selection dv =
     (if \<not> opt_Changed (st_Options st) then dv
      else if im_broad selection then log_event (Emitted ''impact-broad'' ''dependency or prior evidence was unknown'') dv
      else log_event (Emitted ''impact-targeted''
        (itoa (int (length (im_targets selection))) @ '' of '' @ itoa (int (length targets)) @ '' targets'')) dv)"

definition no_counts :: count_accounting where
  "no_counts = \<lparr>cDiscovered = 0, cSelected = 0, cExecuted = 0, cSkipped = 0, cExcluded = 0\<rparr>"

text \<open>The fields every report of a round has.\<close>

definition round_report :: "run_tools \<Rightarrow> setting \<Rightarrow> opened_round \<Rightarrow> impact_selection \<Rightarrow> report" where
  "round_report o' st opened selection =
     (let metadata = or_metadata opened; model = md_model metadata in
      \<lparr>Schema = SchemaV1, RunID = [], RunKind = [], Verdict = [], Contract = st_Contract st, Snapshot = or_digest opened,
       Scope = report_scope (st_Options st) model selection,
       Repository = \<lparr>repo_Module = gm_ModulePath model, repo_Packages = model_package_paths (round_packages opened),
         repo_Git = \<lparr>git_Available = False, git_Commit = [], git_Dirty = False, git_MergeBase = [], git_ChangedFiles = []\<rparr>\<rparr>,
       ConfigurationDigest = [],
       Execution = report_execution (st_Options st) (st_Jobs st),
       Toolchain = \<lparr>tc_Go = md_toolchain metadata, tc_Goatest = ei_GoatestVersion (or_inputs opened),
         tc_GoMutants = ei_GoMutantsVersion (or_inputs opened), tc_OS = ro_os o', tc_Arch = ro_arch o'\<rparr>,
       Timing = \<lparr>StartedAt = [], FinishedAt = [], DurationMS = 0\<rparr>,
       Cache = \<lparr>Derived = False, SourceRunID = []\<rparr>,
       Accounting = \<lparr>acc_Targets = no_counts, acc_Mutants = no_mutants 0,
         acc_Race = no_counts\<lparr>cDiscovered := int (length (round_packages opened)), cExcluded := int (length (round_packages opened))\<rparr>\<rparr>,
       Targets = [], Mutants = [], Resume = None, Acceptances = st_Acceptances st, Evidence = [], Findings = [],
       Repairs = [], Limitations = project_exclude_limitations (ro_quote o') (cf_ProjectExclude (st_Config st))\<rparr>)"

definition unchanged_report :: "run_tools \<Rightarrow> setting \<Rightarrow> opened_round \<Rightarrow> planned_round \<Rightarrow> report" where
  "unchanged_report o' st opened plan =
     (let r = round_report o' st opened (pl_selection plan) in
      r\<lparr>Verdict := VerdictChangeAssured,
        Accounting := (Accounting r)\<lparr>acc_Targets := no_counts\<lparr>cDiscovered := int (length (pl_all plan)), cExcluded := int (length (pl_all plan))\<rparr>\<rparr>,
        Evidence := [\<lparr>ev_Kind = ''changeset'', ev_ID = ''changed-files'', ev_Status = ''empty'', ev_Detail = []\<rparr>]\<rparr>)"

text \<open>The targets, those the changes concern, and the run that ends here because nothing has changed.\<close>

definition plan_round ::
  "run_tools \<Rightarrow> 'w run_dependencies \<Rightarrow> setting \<Rightarrow> opened_round \<Rightarrow> 'w driver \<Rightarrow> planned_round round_step \<times> 'w driver" where
  "plan_round o' d st opened dv =
     go_on (trying (rd_discover d (st_Root st) (round_packages opened)) (abandon d (or_workspace opened)) dv) (\<lambda>discovered dv.
     let targets = included_project_targets discovered (cf_ProjectExclude (st_Config st));
         (selection, dv) = perform (rd_impact d (st_Root st) (md_model (or_metadata opened)) targets (st_Options st)) dv;
         dv = emit_impact st targets selection dv;
         plan = \<lparr>pl_all = discovered, pl_targets = im_targets selection, pl_selection = selection\<rparr> in
     if opt_Changed (st_Options st) \<and> \<not> im_broad selection \<and> im_changed selection = [] then
       (case close_workspace d (or_workspace opened) dv of
          (Some e, dv) \<Rightarrow> (RoundFails [Failed e], dv)
        | (None, dv) \<Rightarrow> store_report d (or_digest opened) (unchanged_report o' st opened plan) (log_event ChangesEmpty dv))
     else (RoundGoesOn plan, dv))"


section \<open>A round: the baseline\<close>

record supplied_round =
  sp_opened :: opened_round
  sp_plan :: planned_round
  sp_manager :: handle
  sp_resources :: acquired_resources
  sp_resume :: "baseline_state option"
  sp_sources :: "target_key_sources option"
  sp_observer :: "repository_observer option"

abbreviation sp_model :: "supplied_round \<Rightarrow> go_model" where
  "sp_model supplied \<equiv> md_model (or_metadata (sp_opened supplied))"

definition mutation_evidence_guarded :: "nat \<Rightarrow> setting \<Rightarrow> bool" where
  "mutation_evidence_guarded n st \<longleftrightarrow>
     (let options = st_Options st in
      n = 0 \<and> cf_Resources (st_Config st) = [] \<and> \<not> opt_Changed options \<and> \<not> opt_PackageScope options \<and>
      default_package_patterns (opt_Packages options) \<and> opt_ReplayMutantID options = [] \<and> opt_ReplayFindingID options = [])"

definition repository_observation_scope ::
  "(string \<times> read_candidate) list \<Rightarrow> go_package list \<Rightarrow> (string \<times> read_candidate) list \<times> (string \<times> bool) list" where
  "repository_observation_scope found packages =
     (fold (\<lambda>pkg m. if map_of m (pk_ImportPath pkg) = None
                     then AList.update (pk_ImportPath pkg) \<lparr>Unobservable = False, rc_Reasons = []\<rparr> m else m) packages found,
      fold (\<lambda>pkg m. AList.update (pk_ImportPath pkg) True m) packages [])"

text \<open>The checkpoint of the round and what it has of the baseline.\<close>

definition open_checkpoint :: "'w run_dependencies \<Rightarrow> setting \<Rightarrow> nat \<Rightarrow> string \<Rightarrow> 'w driver \<Rightarrow> 'w driver" where
  "open_checkpoint d st n digest dv =
     (let (c, w) = open_run_checkpoint (Some (rd_checkpoints d)) digest (exact_reuse st n) (dv_world dv)
      in dv\<lparr>dv_checkpoint := c, dv_world := w\<rparr>)"

definition resumed_baseline :: "'w run_dependencies \<Rightarrow> target list \<Rightarrow> 'w driver \<Rightarrow> baseline_state option \<times> 'w driver" where
  "resumed_baseline d targets dv =
     (let (saved, dv) = from_checkpoint None (rk_baseline (rd_checkpoints d) targets) dv
      in (saved, case saved of
            None \<Rightarrow> dv
          | Some b \<Rightarrow> log_event (Emitted ''resume-baseline'' (itoa (int (length (bl_Targets b))) @ '' targets'')) dv))"

definition observe_repository ::
  "run_tools \<Rightarrow> 'w run_dependencies \<Rightarrow> setting \<Rightarrow> nat \<Rightarrow> opened_round \<Rightarrow> 'w driver \<Rightarrow>
   (target_key_sources option \<times> repository_observer option) \<times> 'w driver" where
  "observe_repository o' d st n opened dv =
     (if \<not> mutation_evidence_guarded n st then ((None, None), dv)
      else
        let packages = round_packages opened; options = st_Options st;
            (candidates, readers) = repository_observation_scope (rd_candidates d (st_Root st) packages) packages;
            sources = new_target_key_sources (or_inputs opened) packages (st_Contract st) (Some (opt_TestArgs options))
              (Some (opt_BuildTags options)) (opt_CommandTimeout options) (opt_TargetTimeout options) readers;
            root = or_directory opened in
        if candidates = [] then ((Some sources, None), dv)
        else
          let (directory, dv) = perform (rd_observation d (st_Scratch st)) dv;
              dv = (case directory of
                  Inl e \<Rightarrow> log_event (Emitted ''repository-observation-unavailable'' e) dv | Inr _ \<Rightarrow> dv)
          in ((Some sources, Some (new_repository_observer (ro_abs o' root) root (case directory of Inl _ \<Rightarrow> [] | Inr place \<Rightarrow> place)
                candidates packages sources)), dv))"

definition supply_round ::
  "run_tools \<Rightarrow> 'w run_dependencies \<Rightarrow> setting \<Rightarrow> nat \<Rightarrow> opened_round \<Rightarrow> planned_round \<Rightarrow> 'w driver \<Rightarrow> supplied_round round_step \<times> 'w driver" where
  "supply_round o' d st n opened plan dv =
     (let (saved, dv) = resumed_baseline d (pl_targets plan) (open_checkpoint d st n (or_digest opened) dv) in
      go_on (trying (rd_resources d (st_Config st) (pl_targets plan) (opt_Environment (st_Options st))) (abandon d (or_workspace opened)) dv)
        (\<lambda>(manager, resources) dv.
         let ((sources, observer), dv) = observe_repository o' d st n opened (log_event (Acquired (Manager manager)) dv)
         in (RoundGoesOn \<lparr>sp_opened = opened, sp_plan = plan, sp_manager = manager, sp_resources = resources, sp_resume = saved,
               sp_sources = sources, sp_observer = observer\<rparr>, dv)))"

abbreviation abandon_supplied :: "'w run_dependencies \<Rightarrow> supplied_round \<Rightarrow> 'w driver \<Rightarrow> 'w driver" where
  "abandon_supplied d supplied \<equiv> abandon_round d (or_workspace (sp_opened supplied)) (sp_manager supplied)"

text \<open>\<open>startPreparation\<close>: what the mutants are prepared for.\<close>

definition preparation_options :: "setting \<Rightarrow> supplied_round \<Rightarrow> prepare_options" where
  "preparation_options st supplied =
     (let options = st_Options st;
          (include, packages) =
            (if \<not> default_package_patterns (opt_Packages options) \<and> \<not> opt_Changed options
             then (scoped_mutation_include (round_packages (sp_opened supplied)), opt_Packages options)
             else mutation_scope (pl_selection (sp_plan supplied)));
          probe = (opt_ReplayMutantID options = []) in
      \<lparr>pp_Contract = st_Contract st, pp_Operators = opt_MutationOperators options, pp_Include = include,
       pp_Exclude = cf_ProjectExclude (st_Config st), pp_DiscoveryPackages = mutation_discovery_packages include packages,
       pp_Packages = packages, pp_ProbeCoverPackages = (if probe then [gm_ModulePath (sp_model supplied) @ ''/...''] else []),
       pp_Jobs = st_Jobs st, pp_BuildTimeout = opt_CommandTimeout options, pp_MutantTimeout = opt_CommandTimeout options,
       pp_Probe = probe\<rparr>)"

definition start_preparation :: "'w run_dependencies \<Rightarrow> setting \<Rightarrow> supplied_round \<Rightarrow> 'w driver \<Rightarrow> 'w driver" where
  "start_preparation d st supplied dv =
     (let dv = log_event (Emitted ''mutation-jobs'' (itoa (st_Jobs st))) dv
      in log_event (Acquired Preparation)
           (dv\<lparr>dv_world := rd_start d (or_workspace (sp_opened supplied)) (preparation_options st supplied) (dv_world dv), dv_preparing := True\<rparr>))"

definition baseline_options_of :: "setting \<Rightarrow> supplied_round \<Rightarrow> string \<Rightarrow> baseline_options" where
  "baseline_options_of st supplied directory =
     (let options = st_Options st in
      \<lparr>bo_ArtifactDirectory = directory, bo_CommandTimeout = opt_CommandTimeout options, bo_TargetTimeout = opt_TargetTimeout options,
       bo_PackageSuites = True, bo_SuiteEnvironment = aq_environment (sp_resources supplied), bo_Packages = opt_Packages options,
       bo_BuildTags = opt_BuildTags options, bo_TestArgs = opt_TestArgs options, bo_UseTestFraming = True, bo_ClassifyUserFailures = True,
       bo_Resume = sp_resume supplied, bo_Checkpoint = True, bo_Observer = sp_observer supplied, bo_Session = None,
       bo_StopAfterChecks = (opt_ReplayMutantID options = [])\<rparr>)"

text \<open>One \<open>collectBaseline\<close>: every state it saves goes to the checkpoint, and the last one is kept for the next.\<close>

definition save_baseline :: "'w run_dependencies \<Rightarrow> baseline_state \<Rightarrow> 'w driver \<Rightarrow> unit \<times> 'w driver" where
  "save_baseline d saved dv = ((), with_checkpoint (rk_save_baseline (rd_checkpoints d) saved) (dv\<lparr>dv_baseline := saved\<rparr>))"

definition collect_with ::
  "'w run_dependencies \<Rightarrow> supplied_round \<Rightarrow> handle \<Rightarrow> handle option \<Rightarrow> baseline_options \<Rightarrow> 'w driver \<Rightarrow> (string + baseline_result) \<times> 'w driver" where
  "collect_with d supplied pristine session options dv =
     converse (save_baseline d)
       (rd_baseline d pristine session (sp_model supplied) (aq_items (sp_resources supplied)) options (dv_world dv)) dv"

text \<open>
  The baseline, with the mutants prepared meanwhile: a preparation is cancelled unless the checks pass, and
  accepted before the targets are measured in it.
\<close>

definition measure_round ::
  "'w run_dependencies \<Rightarrow> setting \<Rightarrow> supplied_round \<Rightarrow> handle \<Rightarrow> baseline_options \<Rightarrow> 'w driver \<Rightarrow>
   (run_error + baseline_result \<times> handle option \<times> catalog) \<times> 'w driver" where
  "measure_round d st supplied pristine options dv =
     (case collect_with d supplied pristine None options dv of
        (Inl e, dv) \<Rightarrow> (Inl (Failed e), snd (settle_preparation d True dv))
      | (Inr checked, dv) \<Rightarrow>
          if ba_Findings checked \<noteq> [] then (Inr (checked, None, pn_catalog no_preparation), snd (settle_preparation d True dv))
          else
            let (prepared, dv) = settle_preparation d False dv in
            case accepted_preparation prepared of
              Inl e \<Rightarrow> (Inl e, dv)
            | Inr session \<Rightarrow>
                let dv = dv\<lparr>dv_world := rd_persist_preparation d (dv_world dv)\<rparr> in
                if opt_ReplayMutantID (st_Options st) \<noteq> [] then (Inr (checked, Some session, pn_catalog prepared), dv)
                else (case collect_with d supplied pristine (Some session)
                    (options\<lparr>bo_StopAfterChecks := False, bo_Session := Some (pn_catalog prepared), bo_Resume := Some (dv_baseline dv)\<rparr>) dv of
                  (Inl e, dv) \<Rightarrow> (Inl (Failed e), dv)
                | (Inr baseline, dv) \<Rightarrow> (Inr (baseline, Some session, pn_catalog prepared), dv)))"

definition remove_baseline_scratch :: "'w run_dependencies \<Rightarrow> string \<Rightarrow> 'w driver \<Rightarrow> run_error list \<times> 'w driver" where
  "remove_baseline_scratch d directory dv =
     (let (e, dv) = perform (rd_remove_baseline d directory) dv
      in (case e of None \<Rightarrow> [] | Some e \<Rightarrow> [Failed e], log_event (Released (BaselineScratch directory)) dv))"

definition baseline_phase ::
  "run_tools \<Rightarrow> 'w run_dependencies \<Rightarrow> setting \<Rightarrow> supplied_round \<Rightarrow> 'w driver \<Rightarrow>
   (baseline_result \<times> handle option \<times> catalog) round_step \<times> 'w driver" where
  "baseline_phase o' d st supplied dv =
     go_on (trying (rd_make_baseline d (st_Scratch st)) (abandon_supplied d supplied) dv) (\<lambda>directory dv.
     let dv = log_event (Acquired (BaselineScratch directory))
           (dv\<lparr>dv_baseline := (case sp_resume supplied of None \<Rightarrow> empty_baseline | Some b \<Rightarrow> b)\<rparr>) in
     case open_control o' d st (start_preparation d st supplied dv) of
       (Inl e, dv) \<Rightarrow>
         let (_, dv) = settle_preparation d True dv;
             (es, dv) = remove_baseline_scratch d directory dv
         in (RoundFails (Failed e # es), abandon_supplied d supplied dv)
     | (Inr pristine, dv) \<Rightarrow>
         let (measured, dv) = measure_round d st supplied pristine (baseline_options_of st supplied directory) dv;
             (es, dv) = remove_baseline_scratch d directory dv
         in (case measured of
               Inl e \<Rightarrow> (RoundFails (e # es), abandon_supplied d supplied dv)
             | Inr answer \<Rightarrow>
                 if es \<noteq> [] then (RoundFails es, abandon_supplied d supplied dv) else (RoundGoesOn answer, dv)))"

section \<open>A round: its report\<close>

record measured_round =
  ms_supplied :: supplied_round
  ms_baseline :: baseline_result
  ms_session :: "handle option"
  ms_catalog :: catalog
  ms_report :: report

definition whole_tree_key_limitation :: "target_evidence list \<Rightarrow> (string \<times> package_suite_coverage) list \<Rightarrow> limitation list" where
  "whole_tree_key_limitation targets suites =
     (let widened_targets = length (filter te_WholeTree targets);
          widened_suites = length (filter (\<lambda>(_, suite). sv_WholeTree suite) suites) in
      if widened_targets = 0 \<and> widened_suites = 0 then []
      else [\<lparr>lim_Code = ''whole-tree-behaviour-keys'',
        lim_Summary = itoa (int widened_targets) @ '' of '' @ itoa (int (length targets)) @ '' targets and '' @
          itoa (int widened_suites) @ '' of '' @ itoa (int (length suites)) @
          '' package suites read outside their ordinary inputs, so their evidence is reused only while nothing in the tree changes; goatest trace summary names which boundary widened each one'',
        lim_Estimated = False\<rparr>])"

definition stated :: "string \<Rightarrow> string \<Rightarrow> limitation" where
  "stated code summary = \<lparr>lim_Code = code, lim_Summary = summary, lim_Estimated = False\<rparr>"

definition base_report :: "run_tools \<Rightarrow> setting \<Rightarrow> supplied_round \<Rightarrow> baseline_result \<Rightarrow> resume option \<Rightarrow> report" where
  "base_report o' st supplied baseline resumed =
     (let plan = sp_plan supplied; r = round_report o' st (sp_opened supplied) (pl_selection plan) in
      r\<lparr>Evidence := aq_evidence (sp_resources supplied) @ ba_Evidence baseline, Findings := ba_Findings baseline,
        Accounting := (Accounting r)\<lparr>acc_Targets :=
          \<lparr>cDiscovered = int (length (pl_all plan)), cSelected = int (length (pl_targets plan)), cExecuted = ba_Executed baseline,
           cSkipped = ba_Skipped baseline, cExcluded = int (length (pl_all plan)) - int (length (pl_targets plan))\<rparr>\<rparr>,
        Targets := ba_Inventory baseline, Resume := resumed,
        Limitations := Limitations r @ whole_tree_key_limitation (ba_Targets baseline) (files_of (ba_Suites baseline)) @
          (if cf_Resources (st_Config st) = [] then []
           else [stated ''resource-cache-disabled'' ''exact cache reuse is disabled because configured resources have runtime state''])\<rparr>)"

definition discard_checkpoint :: "'w run_dependencies \<Rightarrow> 'w driver \<Rightarrow> 'w driver" where
  "discard_checkpoint d dv = with_checkpoint (rk_discard (rd_checkpoints d)) dv"

text \<open>The report a baseline starts, or ends with where it found something.\<close>

definition report_baseline ::
  "run_tools \<Rightarrow> 'w run_dependencies \<Rightarrow> setting \<Rightarrow> supplied_round \<Rightarrow> baseline_result \<times> handle option \<times> catalog \<Rightarrow> 'w driver \<Rightarrow>
   measured_round round_step \<times> 'w driver" where
  "report_baseline o' d st supplied answer dv =
     (let (baseline, session, cat) = answer;
          r = base_report o' st supplied baseline (resume_metadata dv);
          dv = log_event (BaselineSettled (ba_Findings baseline)) dv in
      if ba_Findings baseline \<noteq> [] then
        return_closed d (or_workspace (sp_opened supplied)) (sp_manager supplied)
          (r\<lparr>Verdict := baseline_verdict (ba_Findings baseline),
             Limitations := Limitations r @ [stated later_phases_not_run_code
               ''race and mutation phases were not run because baseline verification did not pass'']\<rparr>)
          (discard_checkpoint d dv)
      else (RoundGoesOn \<lparr>ms_supplied = supplied, ms_baseline = baseline, ms_session = session, ms_catalog = cat, ms_report = r\<rparr>, dv))"

text \<open>\<open>graph-v1.json\<close>: what the next changed run starts from.\<close>

definition graph_phase :: "'w run_dependencies \<Rightarrow> setting \<Rightarrow> measured_round \<Rightarrow> 'w driver \<Rightarrow> unit round_step \<times> 'w driver" where
  "graph_phase d st measured dv =
     (let supplied = ms_supplied measured; selection = pl_selection (sp_plan supplied) in
      go_on (trying (rd_graph d (st_Root st) (sp_model supplied) (ba_Targets (ms_baseline measured))) (abandon_supplied d supplied) dv)
        (\<lambda>current dv.
         case perform (rd_save_graph d (st_Root st)
             \<lparr>gr_ModulePath = gm_ModulePath (sp_model supplied), gr_Graph = merge_graph current (im_prior selection) selection\<rparr>) dv of
           (Some e, dv) \<Rightarrow> (RoundFails [Failed e], abandon_supplied d supplied dv)
         | (None, dv) \<Rightarrow> (RoundGoesOn (), dv)))"

section \<open>A round: the race run\<close>

text \<open>The packages the race run is about, and the limitation where they are estimated.\<close>

definition race_plan :: "setting \<Rightarrow> supplied_round \<Rightarrow> string list \<Rightarrow> target_evidence list \<Rightarrow> go_model \<times> string list \<times> limitation list" where
  "race_plan st supplied concurrent targets =
     (let model = sp_model supplied; packages = files_of (gm_Packages model) in
      if st_Contract st = ''deep-v1'' then
        (let included = included_project_packages packages (cf_ProjectExclude (st_Config st))
         in (model\<lparr>gm_Packages := Some included\<rparr>, model_package_paths included, []))
      else (model, relevant_race_packages packages concurrent targets,
        [\<lparr>lim_Code = ''race-scope-static-estimate'',
          lim_Summary = ''standard-v1 selects race packages using static concurrency and observed reachability'', lim_Estimated = True\<rparr>]))"

definition race_run ::
  "run_tools \<Rightarrow> 'w run_dependencies \<Rightarrow> setting \<Rightarrow> supplied_round \<Rightarrow> go_model \<Rightarrow> string list \<Rightarrow> 'w driver \<Rightarrow> race_result round_step \<times> 'w driver" where
  "race_run o' d st supplied model packages dv =
     (case from_checkpoint None (rk_race (rd_checkpoints d) packages) dv of
        (Some saved, dv) \<Rightarrow>
          (RoundGoesOn \<lparr>rr_Evidence = ra_Evidence saved, rr_Findings = ra_Findings saved\<rparr>,
           log_event (Emitted ''resume-race'' (itoa (int (length packages)) @ '' packages'')) dv)
      | (None, dv) \<Rightarrow>
          let options = \<lparr>rt_Environment = aq_environment (sp_resources supplied), rt_TestArgs = opt_TestArgs (st_Options st),
                rt_BuildTags = opt_BuildTags (st_Options st), rt_PersistCompile = rd_persist_compile d (dv_world dv),
                rt_Timeout = opt_CommandTimeout (st_Options st)\<rparr> in
          (case open_control o' d st dv of
             (Inl e, dv) \<Rightarrow> (RoundFails [Failed e], abandon_supplied d supplied dv)
           | (Inr pristine, dv) \<Rightarrow>
               go_on (trying (rd_race d pristine model packages (st_Contract st) options) (abandon_supplied d supplied) dv) (\<lambda>result dv.
               (RoundGoesOn result,
                with_checkpoint (rk_save_race (rd_checkpoints d) packages (rr_Evidence result) (rr_Findings result)) dv))))"

text \<open>What the race run adds to the report, or ends it with.\<close>

definition report_race ::
  "'w run_dependencies \<Rightarrow> measured_round \<Rightarrow> report \<Rightarrow> race_result \<Rightarrow> 'w driver \<Rightarrow> measured_round round_step \<times> 'w driver" where
  "report_race d measured r result dv =
     (let supplied = ms_supplied measured;
          r = r\<lparr>Resume := resume_metadata dv, Evidence := Evidence r @ rr_Evidence result\<rparr>;
          dv = log_event (RaceSettled (rr_Findings result)) dv in
      if rr_Findings result \<noteq> [] then
        return_closed d (or_workspace (sp_opened supplied)) (sp_manager supplied)
          (r\<lparr>Verdict := VerdictDefect, Findings := rr_Findings result,
             Limitations := Limitations r @ [stated later_phases_not_run_code
               ''mutation phases were not run because race verification did not pass'']\<rparr>)
          (discard_checkpoint d dv)
      else (RoundGoesOn (measured\<lparr>ms_report := r\<rparr>), dv))"

definition race_phase ::
  "run_tools \<Rightarrow> 'w run_dependencies \<Rightarrow> setting \<Rightarrow> measured_round \<Rightarrow> 'w driver \<Rightarrow> measured_round round_step \<times> 'w driver" where
  "race_phase o' d st measured dv =
     (let supplied = ms_supplied measured; discovered = int (length (round_packages (sp_opened supplied))) in
      go_on (trying (rd_concurrency d (st_Root st) (round_packages (sp_opened supplied))) (abandon_supplied d supplied) dv) (\<lambda>concurrent dv.
      let (model, packages, estimated) = race_plan st supplied concurrent (ba_Targets (ms_baseline measured));
          raced = int (length packages);
          r = ms_report measured;
          r = r\<lparr>Limitations := Limitations r @ estimated,
                Accounting := (Accounting r)\<lparr>acc_Race := \<lparr>cDiscovered = discovered, cSelected = raced, cExecuted = raced, cSkipped = 0,
                  cExcluded = discovered - raced\<rparr>\<rparr>\<rparr> in
      go_on (race_run o' d st supplied model packages (log_event (Emitted ''race'' (itoa raced @ '' packages'')) dv)) (report_race d measured r)))"


section \<open>A round: the mutants\<close>

record probed_round =
  pb_round :: measured_round
  pb_resume :: "(string \<times> mutation_evaluation) list option"
  pb_suites :: "(string \<times> package_probe_evidence) list"

definition probe_summary :: "probe_evaluation \<Rightarrow> string" where
  "probe_summary probed =
     counted_noun (pb_Measured probed) ''target'' ''targets'' @ '' measured, '' @ itoa (pb_Unmeasured probed) @ '' without facts; '' @
     counted_noun (pb_SuitesMeasured probed) ''package suite'' ''package suites'' @ '' measured, '' @
     itoa (pb_SuitesUnmeasured probed) @ '' without facts''"

text \<open>The probes, taken over from the checkpoint or run; \<open>resume\<close> is what it has of the mutants, which stale probes void.\<close>

definition probe_round ::
  "run_tools \<Rightarrow> 'w run_dependencies \<Rightarrow> setting \<Rightarrow> measured_round \<Rightarrow> handle \<Rightarrow> (string \<times> mutation_evaluation) list option \<Rightarrow> 'w driver \<Rightarrow>
   probed_round round_step \<times> 'w driver" where
  "probe_round o' d st measured session resume dv =
     (let supplied = ms_supplied measured; baseline = ms_baseline measured; cat = ms_catalog measured; options = st_Options st;
          packages = needed_probe_suite_packages cat (ba_Targets baseline) (ba_Instrumented baseline) (map_of (files_of (ba_Suites baseline)));
          prepared = filter (\<lambda>(pkg, suite). pkg \<in> set packages \<and> pe_Measured suite) (files_of (ba_ProbeSuites baseline));
          detail = counted_noun (probe_target_count (ba_Targets baseline)) ''target'' ''targets'' @ '', '' @
            counted_noun (int (length packages) - int (length prepared)) ''package suite'' ''package suites'';
          dv = log_event (Emitted ''probe-target'' detail) dv;
          ((saved, _, valid), dv) =
            from_checkpoint (None, False, True) (rk_probe (rd_checkpoints d) (ro_sha o') cat (ba_Targets baseline) packages) dv;
          answer = (case saved of
              Some probed \<Rightarrow> (RoundGoesOn probed, log_event (Emitted ''resume-probe'' detail) dv)
            | None \<Rightarrow>
                go_on (trying (rd_probe d session (ba_Targets baseline)
                    \<lparr>po_Timeout = opt_CommandTimeout options, po_TestArgs = opt_TestArgs options, po_Jobs = st_Jobs st, po_PackageSuites = False,
                     po_SuitePackages = packages, po_Suites = prepared, po_SuiteEnvironment = aq_environment (sp_resources supplied),
                     po_SuiteCoverage = map_of (files_of (ba_Suites baseline)), po_Observer = sp_observer supplied\<rparr>)
                  (abandon_supplied d supplied) dv) (\<lambda>probed dv.
                (RoundGoesOn probed, with_checkpoint (rk_save_probe (rd_checkpoints d) (ro_sha o') cat probed) dv)))
      in go_on answer (\<lambda>probed dv.
           (RoundGoesOn \<lparr>pb_round = measured\<lparr>ms_baseline := baseline\<lparr>ba_Targets := pb_Targets probed\<rparr>\<rparr>,
              pb_resume = (if valid then resume else None), pb_suites = pb_Suites probed\<rparr>,
            log_event (Emitted ''probe-summary'' (probe_summary probed)) dv)))"

text \<open>The mutants of the session, what the checkpoint has of them, and the probes unless one mutant is replayed.\<close>

definition probe_phase ::
  "run_tools \<Rightarrow> 'w run_dependencies \<Rightarrow> setting \<Rightarrow> measured_round \<Rightarrow> 'w driver \<Rightarrow> (handle \<times> probed_round) round_step \<times> 'w driver" where
  "probe_phase o' d st measured dv =
     (case ms_session measured of
        None \<Rightarrow> (RoundFails [SessionUnprepared], abandon_supplied d (ms_supplied measured) dv)
      | Some session \<Rightarrow>
          let replay = opt_ReplayMutantID (st_Options st);
              dv = log_event (Emitted ''mutation-target''
                (counted_noun (int (mutation_target_count (ms_catalog measured) replay)) ''mutant'' ''mutants'')) dv;
              (resume, dv) = from_checkpoint None (rk_mutation (rd_checkpoints d) (ro_sha o') (ms_catalog measured)) dv in
          if replay \<noteq> [] then (RoundGoesOn (session, \<lparr>pb_round = measured, pb_resume = resume, pb_suites = []\<rparr>), dv)
          else go_on (probe_round o' d st measured session resume dv) (\<lambda>probed dv. (RoundGoesOn (session, probed), dv)))"

text \<open>The evidence of earlier runs; a store that cannot be read counts as empty.\<close>

definition round_evidence ::
  "run_tools \<Rightarrow> 'w run_dependencies \<Rightarrow> setting \<Rightarrow> nat \<Rightarrow> measured_round \<Rightarrow> 'w driver \<Rightarrow> mutation_evidence option \<times> 'w driver" where
  "round_evidence o' d st n measured dv =
     (case sp_sources (ms_supplied measured) of
        None \<Rightarrow> (None, dv)
      | Some sources \<Rightarrow>
          if \<not> mutation_evidence_guarded n st then (None, dv)
          else
            let supplied = ms_supplied measured; baseline = ms_baseline measured;
                (loaded, dv) = perform (rd_load_evidence d (gm_ModulePath (sp_model supplied))) dv;
                (store, dv) = (case loaded of
                    Inl e \<Rightarrow> (\<lparr>ms_Schema = [], ms_ModulePath = [], ms_Records = []\<rparr>, log_event (Emitted ''mutation-evidence-rejected'' e) dv)
                  | Inr store \<Rightarrow> (store, dv))
            in (Some (new_run_mutation_evidence (ro_sha o') store sources (ba_Targets baseline) (ba_Inventory baseline)
                  (aq_environment (sp_resources supplied)) (or_digest (sp_opened supplied))), dv))"

text \<open>What the evaluation calls back: a control of the original code, and each mutant it has settled.\<close>

definition hear_mutation ::
  "run_tools \<Rightarrow> 'w run_dependencies \<Rightarrow> setting \<Rightarrow> handle \<Rightarrow> mutation_call \<Rightarrow> 'w driver \<Rightarrow> (string + command_result) \<times> 'w driver" where
  "hear_mutation o' d st session c dv = (case c of
      AsksControl request \<Rightarrow>
        if opt_ReplayMutantID (st_Options st) = [] then perform (\<lambda>w. rd_probe_control d session w request) dv
        else ask_original_control o' d st request dv
    | SavesMutant i evaluation \<Rightarrow> (Inl [], with_checkpoint (rk_save_mutant (rd_checkpoints d) i evaluation) dv))"

definition mutation_options_of :: "setting \<Rightarrow> probed_round \<Rightarrow> mutation_options" where
  "mutation_options_of st probed =
     (let measured = pb_round probed; baseline = ms_baseline measured; supplied = ms_supplied measured; options = st_Options st in
      \<lparr>op_ReplayMutantID = opt_ReplayMutantID options, op_TestArgs = opt_TestArgs options, op_Timeout = opt_CommandTimeout options,
       op_Jobs = st_Jobs st, op_Accepted = st_Accepted st, op_Resume = files_of (pb_resume probed), op_Instrumented = ba_Instrumented baseline,
       op_Observer = sp_observer supplied, op_SuiteProbes = map_of (pb_suites probed),
       op_SuiteCoverage = map_of (files_of (ba_Suites baseline)), op_SuiteEnvironment = aq_environment (sp_resources supplied)\<rparr>)"

definition save_round_evidence ::
  "'w run_dependencies \<Rightarrow> measured_round \<Rightarrow> mutation_evidence option \<Rightarrow> 'w driver \<Rightarrow> 'w driver" where
  "save_round_evidence d measured evidence dv = (case evidence of
      None \<Rightarrow> dv
    | Some c \<Rightarrow>
        (case perform (rd_save_evidence d (evidence_store c (ms_catalog measured) (gm_ModulePath (sp_model (ms_supplied measured))))) dv of
           (None, dv) \<Rightarrow> dv
         | (Some e, dv) \<Rightarrow> log_event (Emitted ''mutation-evidence-unsaved'' e) dv))"

text \<open>The evaluation of the mutants, and what the report says of them.\<close>

definition mutation_phase ::
  "run_tools \<Rightarrow> 'w run_dependencies \<Rightarrow> setting \<Rightarrow> nat \<Rightarrow> handle \<Rightarrow> probed_round \<Rightarrow> 'w driver \<Rightarrow>
   (measured_round \<times> mutation_evaluation) round_step \<times> 'w driver" where
  "mutation_phase o' d st n session probed dv =
     (let measured = pb_round probed;
          (evidence, dv) = round_evidence o' d st n measured dv;
          ((answer, evidence), dv) = converse (hear_mutation o' d st session)
            (rd_mutation d session (ba_Targets (ms_baseline measured)) (mutation_options_of st probed) evidence (dv_world dv)) dv in
      case answer of
        Inl e \<Rightarrow> (RoundFails [Failed e], abandon_supplied d (ms_supplied measured) dv)
      | Inr mutation \<Rightarrow>
          let dv = save_round_evidence d measured evidence (with_checkpoint (rk_complete_mutation (rd_checkpoints d)) dv);
              r = ms_report measured;
              r = r\<lparr>Accounting := (Accounting r)\<lparr>acc_Mutants := mv_Accounting mutation\<rparr>, Mutants := mv_Mutants mutation,
                    Resume := resume_metadata dv\<rparr>
          in (RoundGoesOn (measured\<lparr>ms_report := r\<rparr>, mutation), log_event (MutationSettled (mUnknown (mv_Accounting mutation))) dv))"

section \<open>A round: repairs and the end\<close>

definition repair_request_of :: "run_tools \<Rightarrow> setting \<Rightarrow> supplied_round \<Rightarrow> string list \<Rightarrow> repair_request" where
  "repair_request_of o' st supplied build =
     (let options = st_Options st; loaded = st_Config st in
      \<lparr>rq_Snapshot = or_digest (sp_opened supplied), rq_NoApply = opt_NoApply options, rq_Command = cf_GenerationCommand loaded,
       rq_ProviderEnvironment = provider_environment (ro_upper o') (ro_environ o') (opt_Environment options) (cf_GenerationEnvironment loaded),
       rq_AllowedPaths = generation_paths options loaded,
       rq_Environment = validation_environment (ro_upper o') (ro_environ o')
         (Some (execution_environment (ro_upper o') (ro_environ o') (opt_Environment options))) (aq_environment (sp_resources supplied)),
       rq_BuildEnvironment = build\<rparr>)"

definition repair_phase ::
  "run_tools \<Rightarrow> 'w run_dependencies \<Rightarrow> setting \<Rightarrow> supplied_round \<Rightarrow> mutation_evaluation \<Rightarrow> 'w driver \<Rightarrow>
   generation_evaluation round_step \<times> 'w driver" where
  "repair_phase o' d st supplied mutation dv =
     go_on (trying (rd_repairs d (st_Root st) (mv_Findings mutation) (repair_request_of o' st supplied (rd_build_environment d (dv_world dv))))
       (abandon_supplied d supplied) dv) (\<lambda>generated dv.
     let dv = log_event (RepairsSettled (ge_Findings generated) (ge_Applied generated)) dv in
     case close_round d (or_workspace (sp_opened supplied)) (sp_manager supplied) dv of
       ([], dv) \<Rightarrow> (RoundGoesOn generated, dv)
     | (es, dv) \<Rightarrow> (RoundFails es, dv))"

definition maximum_rounds :: nat where "maximum_rounds = 3"

definition summarized :: "string \<Rightarrow> string \<Rightarrow> string \<Rightarrow> finding" where
  "summarized i kind summary = \<lparr>f_ID = i, f_Kind = kind, f_Path = [], f_Line = 0, f_Summary = summary, f_Replay = [], f_Mutant = [], f_MutantID = []\<rparr>"

text \<open>The report of a round that repaired nothing.\<close>

definition final_report :: "run_tools \<Rightarrow> string \<Rightarrow> report \<Rightarrow> mutation_evaluation \<Rightarrow> generation_evaluation \<Rightarrow> repair list \<Rightarrow> report" where
  "final_report o' digest base mutation generated applied =
     (let r = base\<lparr>Snapshot := digest, Evidence := Evidence base @ mv_Evidence mutation, Findings := ge_Findings generated,
            Repairs := applied @ ge_Repairs generated, Accounting := (Accounting base)\<lparr>acc_Mutants := mv_Accounting mutation\<rparr>\<rparr>;
          r = (if Findings r = [] then r\<lparr>Verdict := VerdictAssured\<rparr>
               else r\<lparr>Verdict := VerdictInsufficient,
                      Limitations := Limitations r @ [stated ''unresolved-mutation-gaps'' ''Unresolved mutation evidence gaps remain'']\<rparr>)
      in if mUnknown (acc_Mutants (Accounting r)) = 0 then r
         else r\<lparr>Verdict := VerdictError, Findings := Findings r @
           [summarized (finding_id (ro_sha o') [''mutation-accounting'', digest]) ''mutation-accounting''
              ''one or more discovered mutants have no auditable disposition'']\<rparr>)"

text \<open>\<open>refusing stale evidence\<close>: the inputs are read again, and the report is stored only where they are the same.\<close>

definition finish_unrepaired ::
  "run_tools \<Rightarrow> 'w run_dependencies \<Rightarrow> setting \<Rightarrow> measured_round \<Rightarrow> mutation_evaluation \<Rightarrow> generation_evaluation \<Rightarrow> repair list \<Rightarrow> 'w driver \<Rightarrow>
   'a round_step \<times> 'w driver" where
  "finish_unrepaired o' d st measured mutation generated applied dv =
     (let opened = sp_opened (ms_supplied measured) in
      go_on (trying (rd_inputs d (st_Root st) (st_Contract st) (st_Options st) (st_Config st) (or_metadata opened)) id dv) (\<lambda>(_, digest) dv.
      if digest \<noteq> or_digest opened then (RoundFails [RepositoryChanged], dv)
      else store_report d digest (final_report o' digest (ms_report measured) mutation generated applied) (log_event (InputsComputed digest) dv)))"

text \<open>The repairs of a round are kept; after the last one the report is insufficient.\<close>

definition exhausted_report :: "run_tools \<Rightarrow> report \<Rightarrow> generation_evaluation \<Rightarrow> repair list \<Rightarrow> report" where
  "exhausted_report o' base generated applied =
     base\<lparr>Verdict := VerdictInsufficient, Repairs := applied,
       Findings := ge_Findings generated @ [summarized (finding_id (ro_sha o') [''repair-round-limit'', Snapshot base]) ''repair-round-limit''
         ''three repair rounds completed without establishing the full contract'']\<rparr>"

definition finish_round ::
  "run_tools \<Rightarrow> 'w run_dependencies \<Rightarrow> setting \<Rightarrow> nat \<Rightarrow> measured_round \<Rightarrow> mutation_evaluation \<Rightarrow> generation_evaluation \<Rightarrow> repair list \<Rightarrow>
   'w driver \<Rightarrow> repair list round_step \<times> 'w driver" where
  "finish_round o' d st n measured mutation generated applied dv =
     (if \<not> ge_Applied generated then finish_unrepaired o' d st measured mutation generated applied dv
      else
        let applied = applied @ ge_Repairs generated;
            dv = log_event (Emitted ''repair-applied'' (itoa (int (length (ge_Repairs generated))) @ '' files'')) (discard_checkpoint d dv)
        in if n + 1 = maximum_rounds then (RoundReturns (exhausted_report o' (ms_report measured) generated applied), dv)
           else (RoundGoesOn applied, dv))"

section \<open>The rounds\<close>

text \<open>The body of the loop: it goes on to the next round with the repairs so far.\<close>

definition verify_round ::
  "run_tools \<Rightarrow> 'w run_dependencies \<Rightarrow> setting \<Rightarrow> nat \<Rightarrow> supplied_round \<Rightarrow> 'w driver \<Rightarrow>
   (measured_round \<times> mutation_evaluation) round_step \<times> 'w driver" where
  "verify_round o' d st n supplied dv =
     go_on (baseline_phase o' d st supplied dv) (\<lambda>answer dv.
     go_on (report_baseline o' d st supplied answer dv) (\<lambda>measured dv.
     go_on (graph_phase d st measured dv) (\<lambda>_ dv.
     go_on (race_phase o' d st measured dv) (\<lambda>measured dv.
     go_on (probe_phase o' d st measured dv) (\<lambda>(session, probed) dv.
     mutation_phase o' d st n session probed dv)))))"

definition run_round ::
  "run_tools \<Rightarrow> 'w run_dependencies \<Rightarrow> setting \<Rightarrow> nat \<Rightarrow> repair list \<Rightarrow> 'w driver \<Rightarrow> repair list round_step \<times> 'w driver" where
  "run_round o' d st n applied dv =
     go_on (round_start o' d st n dv) (\<lambda>opened dv.
     go_on (cache_check d st n opened dv) (\<lambda>_ dv.
     go_on (plan_round o' d st opened dv) (\<lambda>plan dv.
     go_on (supply_round o' d st n opened plan dv) (\<lambda>supplied dv.
     go_on (verify_round o' d st n supplied dv) (\<lambda>(measured, mutation) dv.
     go_on (repair_phase o' d st supplied mutation dv) (\<lambda>generated dv.
     finish_round o' d st n measured mutation generated applied dv))))))"

text \<open>\<open>for round := 0; ; round++\<close>, which nothing bounds but the rounds themselves.\<close>

partial_function (option) run_rounds ::
  "run_tools \<Rightarrow> 'w run_dependencies \<Rightarrow> setting \<Rightarrow> nat \<Rightarrow> repair list \<Rightarrow> 'w driver \<Rightarrow> ((run_error list + report) \<times> 'w driver) option" where
  "run_rounds o' d st n applied dv =
     (case run_round o' d st n applied dv of
        (RoundFails es, dv) \<Rightarrow> Some (Inl es, dv)
      | (RoundReturns r, dv) \<Rightarrow> Some (Inr r, dv)
      | (RoundGoesOn applied, dv) \<Rightarrow> run_rounds o' d st (n + 1) applied dv)"

definition run_with_dependencies ::
  "run_tools \<Rightarrow> 'w run_dependencies \<Rightarrow> run_options \<Rightarrow> 'w driver \<Rightarrow> ((run_error list + report) \<times> 'w driver) option" where
  "run_with_dependencies o' d options dv =
     (case set_up o' d options dv of
        (RoundFails es, dv) \<Rightarrow> Some (Inl es, dv)
      | (RoundReturns r, dv) \<Rightarrow> Some (Inr r, dv)
      | (RoundGoesOn st, dv) \<Rightarrow> map_option (\<lambda>(answer, dv). (answer, tear_down d st dv)) (run_rounds o' d st 0 [] dv))"

text \<open>A run starts with nothing acquired.\<close>

definition new_driver :: "'w \<Rightarrow> 'w driver" where
  "new_driver w = \<lparr>dv_world = w, dv_log = [], dv_checkpoint = None, dv_control = Unopened, dv_preparing = False, dv_baseline = empty_baseline\<rparr>"

end
