(* ===== verification/RunDriverSafety.thy ===== *)
theory RunDriverSafety
  imports RunDriver
begin

text \<open>
  What a run guarantees whatever its dependencies answer: it returns after three rounds at most, it gives back
  everything it acquired on every path, and it says \<open>ASSURED\<close> only of inputs that are still the same after
  every phase has passed. \<open>ends\<close> states what holds of a step that fails, returns or goes on; each phase has
  one lemma about it, and the round composes them with \<open>ends_go_on\<close>.
\<close>

named_theorems ends_intros
named_theorems driver_simps

definition ends ::
  "('w driver \<Rightarrow> bool) \<Rightarrow> (report \<Rightarrow> 'w driver \<Rightarrow> bool) \<Rightarrow> ('a \<Rightarrow> 'w driver \<Rightarrow> bool) \<Rightarrow> 'a round_step \<times> 'w driver \<Rightarrow> bool" where
  "ends F R P r = (case r of (RoundFails es, dv) \<Rightarrow> F dv | (RoundReturns x, dv) \<Rightarrow> R x dv | (RoundGoesOn x, dv) \<Rightarrow> P x dv)"

lemma ends_simps [simp]:
  "ends F R P (RoundFails es, dv) = F dv" "ends F R P (RoundReturns x, dv) = R x dv" "ends F R P (RoundGoesOn y, dv) = P y dv"
  by (simp_all add: ends_def)

lemma ends_go_on:
  assumes "ends F R P r" "\<And>x dv. P x dv \<Longrightarrow> ends F R Q (f x dv)" shows "ends F R Q (go_on r f)"
proof -
  obtain x dv where r: "r = (x, dv)" by (cases r)
  show ?thesis using assms by (cases x) (auto simp: r go_on_def)
qed

text \<open>A predicate of the driver that does not depend on the world.\<close>

definition worldless :: "('w driver \<Rightarrow> bool) \<Rightarrow> bool" where
  "worldless I \<longleftrightarrow> (\<forall>dv w. I (dv\<lparr>dv_world := w\<rparr>) = I dv)"

lemma worldlessD: "worldless I \<Longrightarrow> I (dv\<lparr>dv_world := w\<rparr>) = I dv"
  by (simp add: worldless_def)

lemma perform_keeps:
  assumes "worldless I" "perform f dv = (x, dv')" shows "I dv' = I dv"
proof -
  obtain y w where "f (dv_world dv) = (y, w)" by (cases "f (dv_world dv)")
  then have "dv' = dv\<lparr>dv_world := w\<rparr>" using assms(2) by (simp add: perform_def)
  then show ?thesis by (simp only: worldlessD [OF assms(1)])
qed

lemma ends_trying:
  assumes "worldless I" "I dv" "\<And>dv. I dv \<Longrightarrow> F (cleanup dv)"
  shows "ends F R (\<lambda>_. I) (trying f cleanup dv)"
proof -
  obtain x dv' where x: "perform f dv = (x, dv')" by (cases "perform f dv")
  have "I dv'" using perform_keeps [OF assms(1) x] assms(2) by simp
  then show ?thesis using x assms(3) by (cases x) (auto simp: trying_def)
qed

text \<open>A conversation keeps what each answer keeps.\<close>

lemma converse_keeps:
  assumes "worldless I" "\<And>q dv a dv'. I dv \<Longrightarrow> hear q dv = (a, dv') \<Longrightarrow> I dv'"
  shows "I dv \<Longrightarrow> converse hear d dv = (r, dv') \<Longrightarrow> I dv'"
proof (induction d arbitrary: dv)
  case (Finishes x w)
  then have "dv' = dv\<lparr>dv_world := w\<rparr>" by simp
  then show ?case using Finishes.prems(1) by (simp only: worldlessD [OF assms(1)])
next
  case (Says q w continue)
  obtain a dv1 where a: "hear q (dv\<lparr>dv_world := w\<rparr>) = (a, dv1)" by (cases "hear q (dv\<lparr>dv_world := w\<rparr>)")
  have "I (dv\<lparr>dv_world := w\<rparr>)" using Says.prems(1) by (simp only: worldlessD [OF assms(1)])
  then have "I dv1" using a by (rule assms(2))
  moreover have "converse hear (continue a (dv_world dv1)) dv1 = (r, dv')" using Says.prems(2) a by simp
  ultimately show ?case by (rule Says.IH [OF rangeI rangeI])
qed

text \<open>A predicate that depends on neither the world nor the checkpoint.\<close>

definition free :: "('w driver \<Rightarrow> bool) \<Rightarrow> bool" where
  "free I \<longleftrightarrow> (\<forall>dv w c. I (dv\<lparr>dv_world := w\<rparr>) = I dv \<and> I (dv\<lparr>dv_checkpoint := c\<rparr>) = I dv)"

lemma free_worldless: "free I \<Longrightarrow> worldless I"
  by (simp add: free_def worldless_def)

lemma freeD: "free I \<Longrightarrow> I (dv\<lparr>dv_world := w\<rparr>) = I dv" "free I \<Longrightarrow> I (dv\<lparr>dv_checkpoint := c\<rparr>) = I dv"
  by (simp_all add: free_def)

lemma with_checkpoint_keeps: assumes "free I" shows "I (with_checkpoint f dv) = I dv"
proof (cases "dv_checkpoint dv")
  case (Some c)
  obtain c' w where "f (c, dv_world dv) = (c', w)" by (cases "f (c, dv_world dv)")
  then have "with_checkpoint f dv = dv\<lparr>dv_checkpoint := Some c'\<rparr>\<lparr>dv_world := w\<rparr>" using Some by (simp add: with_checkpoint_def)
  then show ?thesis by (simp only: freeD [OF assms])
qed (simp add: with_checkpoint_def)

lemma from_checkpoint_keeps:
  assumes "free I" "from_checkpoint absent f dv = (x, dv')" shows "I dv' = I dv"
proof (cases "dv_checkpoint dv")
  case (Some c)
  obtain y c' w where "f (c, dv_world dv) = (y, c', w)" by (cases "f (c, dv_world dv)") auto
  then have "dv' = dv\<lparr>dv_checkpoint := Some c'\<rparr>\<lparr>dv_world := w\<rparr>" using Some assms(2) by (simp add: from_checkpoint_def)
  then show ?thesis by (simp only: freeD [OF assms(1)])
qed (use assms(2) in \<open>simp add: from_checkpoint_def\<close>)

section \<open>What a run holds\<close>

fun acquired :: "run_event list \<Rightarrow> held multiset" where
  "acquired [] = {#}"
| "acquired (Acquired x # es) = add_mset x (acquired es)"
| "acquired (e # es) = acquired es"

fun released :: "run_event list \<Rightarrow> held multiset" where
  "released [] = {#}"
| "released (Released x # es) = add_mset x (released es)"
| "released (e # es) = released es"

lemma acquired_append [simp]: "acquired (es @ es') = acquired es + acquired es'"
  by (induction es rule: acquired.induct) auto

lemma released_append [simp]: "released (es @ es') = released es + released es'"
  by (induction es rule: released.induct) auto

definition holding :: "held multiset \<Rightarrow> 'w driver \<Rightarrow> bool" where
  "holding X dv \<longleftrightarrow> acquired (dv_log dv) = released (dv_log dv) + X"

definition control_held :: "control \<Rightarrow> held multiset" where
  "control_held c = (case c of OpenControl h \<Rightarrow> {#Workspace h#} | _ \<Rightarrow> {#})"

text \<open>Within a round: \<open>X\<close>, the control's workspace where it is open, and the preparation where one runs.\<close>

definition in_round :: "held multiset \<Rightarrow> 'w driver \<Rightarrow> bool" where
  "in_round X dv \<longleftrightarrow> holding (X + control_held (dv_control dv) + (if dv_preparing dv then {#Preparation#} else {#})) dv"

definition idle :: "held multiset \<Rightarrow> 'w driver \<Rightarrow> bool" where
  "idle X dv \<longleftrightarrow> holding X dv \<and> control_held (dv_control dv) = {#} \<and> \<not> dv_preparing dv"

lemma idle_in_round: "idle X dv \<Longrightarrow> in_round X dv"
  by (simp add: idle_def in_round_def)

lemma holding_events [simp]:
  "holding X (log_event (Emitted k s) dv) = holding X dv" "holding X (log_event (InputsComputed t) dv) = holding X dv"
  "holding X (log_event (CacheAnswered r) dv) = holding X dv" "holding X (log_event ChangesEmpty dv) = holding X dv"
  "holding X (log_event (BaselineSettled fs) dv) = holding X dv" "holding X (log_event (RaceSettled fs) dv) = holding X dv"
  "holding X (log_event (MutationSettled n) dv) = holding X dv" "holding X (log_event (RepairsSettled fs b) dv) = holding X dv"
  "holding X (log_event (Stored t r) dv) = holding X dv"
  "holding (add_mset x X) (log_event (Acquired x) dv) = holding X dv"
  "holding X (log_event (Released x) dv) = holding (add_mset x X) dv"
  by (simp_all add: holding_def log_event_def)

lemma log_event_fields [simp]:
  "dv_control (log_event e dv) = dv_control dv" "dv_preparing (log_event e dv) = dv_preparing dv"
  "dv_world (log_event e dv) = dv_world dv" "dv_checkpoint (log_event e dv) = dv_checkpoint dv"
  by (simp_all add: log_event_def)

lemma holding_fields [simp]:
  "holding X (dv\<lparr>dv_world := w\<rparr>) = holding X dv" "holding X (dv\<lparr>dv_checkpoint := c\<rparr>) = holding X dv"
  "holding X (dv\<lparr>dv_control := t\<rparr>) = holding X dv" "holding X (dv\<lparr>dv_preparing := b\<rparr>) = holding X dv"
  "holding X (dv\<lparr>dv_baseline := s\<rparr>) = holding X dv"
  by (simp_all add: holding_def)

lemma in_round_free [simp]: "free (in_round X)" "free (idle X)"
  by (simp_all add: free_def in_round_def idle_def)

lemmas round_worldless = in_round_free [THEN free_worldless]
lemmas kept = perform_keeps [OF round_worldless(1)] perform_keeps [OF round_worldless(2)]
  from_checkpoint_keeps [OF in_round_free(1)] from_checkpoint_keeps [OF in_round_free(2)]

lemma in_round_updates [simp]:
  "in_round X (with_checkpoint f dv) = in_round X dv" "idle X (with_checkpoint f dv) = idle X dv"
  "in_round X (dv\<lparr>dv_world := w\<rparr>) = in_round X dv" "idle X (dv\<lparr>dv_world := w\<rparr>) = idle X dv"
  "in_round X (dv\<lparr>dv_baseline := s\<rparr>) = in_round X dv"
  by (simp_all add: with_checkpoint_keeps) (simp_all add: in_round_def idle_def)

lemma in_round_events [simp]:
  "in_round X (log_event (Emitted k s) dv) = in_round X dv" "idle X (log_event (Emitted k s) dv) = idle X dv"
  "idle X (log_event (InputsComputed t) dv) = idle X dv" "idle X (log_event (CacheAnswered r) dv) = idle X dv"
  "idle X (log_event ChangesEmpty dv) = idle X dv" "in_round X (log_event (BaselineSettled fs) dv) = in_round X dv"
  "in_round X (log_event (RaceSettled fs) dv) = in_round X dv" "in_round X (log_event (MutationSettled n) dv) = in_round X dv"
  "in_round X (log_event (RepairsSettled fs b) dv) = in_round X dv" "idle X (log_event (Stored t r) dv) = idle X dv"
  "in_round (add_mset x X) (log_event (Acquired x) dv) = in_round X dv" "idle (add_mset x X) (log_event (Acquired x) dv) = idle X dv"
  "in_round X (log_event (Released x) dv) = in_round (add_mset x X) dv" "idle X (log_event (Released x) dv) = idle (add_mset x X) dv"
  by (simp_all add: in_round_def idle_def)

section \<open>Closing\<close>

lemma close_workspace_holding:
  "close_workspace d h dv = (e, dv') \<Longrightarrow> idle (add_mset (Workspace h) X) dv \<Longrightarrow> idle X dv'"
  by (auto simp: close_workspace_def perform_def split: prod.splits)

lemma abandon_holding: "idle (add_mset (Workspace h) X) dv \<Longrightarrow> idle X (abandon d h dv)"
  by (simp add: abandon_def close_workspace_holding [OF prod.collapse [symmetric]])

lemma open_control_holding:
  assumes "open_control o' d st dv = (r, dv')" "in_round X dv" shows "in_round X dv'"
proof (cases "dv_control dv")
  case Unopened
  obtain x e where x: "perform (rd_open d (st_Root st) (st_Scratch st) (control_environment o' st (rd_build_environment d (dv_world dv)))) dv = (x, e)"
    by (cases "perform (rd_open d (st_Root st) (st_Scratch st) (control_environment o' st (rd_build_environment d (dv_world dv)))) dv")
  have e: "in_round X e" "dv_control e = Unopened" using kept(1) [OF x] assms(2) x Unopened by (auto simp: perform_def split: prod.splits)
  show ?thesis
  proof (cases x)
    case (Inl failed)
    then show ?thesis using assms(1) Unopened x e by (auto simp: open_control_def in_round_def control_held_def)
  next
    case (Inr h)
    then have "dv' = log_event (Acquired (Workspace h)) e\<lparr>dv_control := OpenControl h\<rparr>"
      using assms(1) Unopened x by (simp add: open_control_def)
    then show ?thesis using e by (simp add: in_round_def control_held_def)
  qed
qed (use assms in \<open>auto simp: open_control_def\<close>)

lemma settle_holding:
  assumes "settle_preparation d cancel dv = (r, dv')" "in_round X dv"
  shows "in_round X dv' \<and> \<not> dv_preparing dv' \<and> dv_control dv' = dv_control dv"
proof (cases "dv_preparing dv")
  case True
  obtain x e where x: "perform (rd_settle d cancel) dv = (x, e)" by (cases "perform (rd_settle d cancel) dv")
  have "in_round X e" "dv_preparing e" "dv_control e = dv_control dv"
    using kept(1) [OF x] assms(2) x True by (auto simp: perform_def split: prod.splits)
  moreover have "dv' = log_event (Released Preparation) e\<lparr>dv_preparing := False\<rparr>"
    using assms(1) True x by (simp add: settle_preparation_def)
  ultimately show ?thesis by (simp add: in_round_def)
qed (use assms in \<open>simp add: settle_preparation_def\<close>)

lemma close_control_holding:
  assumes "close_control d dv = (e, dv')" "in_round X dv" "\<not> dv_preparing dv" shows "idle X dv'"
proof -
  have "idle (X + control_held (dv_control dv)) (dv\<lparr>dv_control := ClosedControl\<rparr>)"
    using assms(2,3) by (simp add: idle_def in_round_def control_held_def)
  then show ?thesis using assms(1) close_workspace_holding [of d _ "dv\<lparr>dv_control := ClosedControl\<rparr>" e dv' X]
    by (cases "dv_control dv") (auto simp: close_control_def control_held_def)
qed

lemma close_manager_holding:
  "close_manager d m dv = (e, dv') \<Longrightarrow> idle (add_mset (Manager m) X) dv \<Longrightarrow> idle X dv'"
  by (auto simp: close_manager_def perform_def split: prod.splits)

lemma close_round_holding:
  assumes "close_round d w m dv = (es, dv')" "in_round (add_mset (Manager m) (add_mset (Workspace w) X)) dv"
  shows "idle X dv'"
proof -
  obtain p dv1 where p: "settle_preparation d True dv = (p, dv1)" by (cases "settle_preparation d True dv")
  obtain a dv2 where a: "close_control d dv1 = (a, dv2)" by (cases "close_control d dv1")
  obtain b dv3 where b: "close_manager d m dv2 = (b, dv3)" by (cases "close_manager d m dv2")
  obtain c dv4 where c: "close_workspace d w dv3 = (c, dv4)" by (cases "close_workspace d w dv3")
  have "idle (add_mset (Manager m) (add_mset (Workspace w) X)) dv2"
    using settle_holding [OF p assms(2)] close_control_holding [OF a] by blast
  then have "idle X dv4" using close_manager_holding [OF b] close_workspace_holding [OF c] by blast
  moreover have "dv' = dv4" using assms(1) p a b c by (simp add: close_round_def)
  ultimately show ?thesis by simp
qed

lemma abandon_round_holding:
  "in_round (add_mset (Manager m) (add_mset (Workspace w) X)) dv \<Longrightarrow> idle X (abandon_round d w m dv)"
  by (simp add: abandon_round_def close_round_holding [OF prod.collapse [symmetric]])

text \<open>The ends of a round with only its workspace, and with everything.\<close>

abbreviation releases :: "held multiset \<Rightarrow> ('a \<Rightarrow> 'w driver \<Rightarrow> bool) \<Rightarrow> 'a round_step \<times> 'w driver \<Rightarrow> bool" where
  "releases X \<equiv> ends (idle X) (\<lambda>_. idle X)"

lemma return_alone_holding: "idle (add_mset (Workspace w) X) dv \<Longrightarrow> releases X P (return_alone d w r dv)"
  by (cases "close_workspace d w dv") (auto simp: return_alone_def split: option.splits dest: close_workspace_holding)

lemma return_closed_holding:
  "in_round (add_mset (Manager m) (add_mset (Workspace w) X)) dv \<Longrightarrow> releases X P (return_closed d w m r dv)"
  by (cases "close_round d w m dv") (auto simp: return_closed_def split: list.splits dest: close_round_holding)

lemma store_report_holding: "idle X dv \<Longrightarrow> releases X P (store_report d digest r dv)"
  by (cases "perform (rd_put d digest r) dv") (auto simp: store_report_def kept(2) split: option.splits)


section \<open>What each phase releases\<close>

lemma trying_idle:
  "idle X dv \<Longrightarrow> (\<And>dv. idle X dv \<Longrightarrow> idle Y (cleanup dv)) \<Longrightarrow> ends (idle Y) R (\<lambda>_. idle X) (trying f cleanup dv)"
  by (rule ends_trying) (rule round_worldless)

lemma trying_in_round:
  "in_round X dv \<Longrightarrow> (\<And>dv. in_round X dv \<Longrightarrow> idle Y (cleanup dv)) \<Longrightarrow> ends (idle Y) R (\<lambda>_. in_round X) (trying f cleanup dv)"
  by (rule ends_trying) (rule round_worldless)

lemma ends_weaken: "ends F R P r \<Longrightarrow> (\<And>x dv. P x dv \<Longrightarrow> Q x dv) \<Longrightarrow> ends F R Q r"
  by (auto simp: ends_def split: prod.splits round_step.splits)

lemma round_start_releases:
  assumes "idle X dv"
  shows "releases X (\<lambda>opened. idle (add_mset (Workspace (or_workspace opened)) X)) (round_start o' d st n dv)"
  unfolding round_start_def Let_def
proof (rule ends_go_on [OF trying_idle])
  show "idle X (log_event (Emitted ''snapshot'' (''repair round '' @ itoa (int n + 1))) (dv\<lparr>dv_control := Unopened\<rparr>))"
    using assms by (simp add: idle_def control_held_def)
next
  fix w dv assume "idle X (dv :: 'a driver)"
  then have dv: "idle (add_mset (Workspace w) X) (log_event (Acquired (Workspace w)) dv)" by simp
  show "releases X (\<lambda>opened. idle (add_mset (Workspace (or_workspace opened)) X)) (round_inputs d st w (log_event (Acquired (Workspace w)) dv))"
    unfolding round_inputs_def
    by (rule ends_go_on [OF trying_idle [OF dv abandon_holding]], assumption, split prod.split, intro allI impI,
        rule ends_go_on [OF trying_idle [OF _ abandon_holding]]) (auto split: prod.splits)
qed simp

lemma cache_check_releases:
  assumes "idle (add_mset (Workspace (or_workspace opened)) X) dv"
  shows "releases X (\<lambda>_. idle (add_mset (Workspace (or_workspace opened)) X)) (cache_check d st n opened dv)"
proof (cases "exact_reuse st n")
  case True
  have "releases X (\<lambda>_. idle (add_mset (Workspace (or_workspace opened)) X))
      (go_on (trying (rd_get d (or_digest opened)) (abandon d (or_workspace opened)) dv) (\<lambda>found dv.
        case found of
          None \<Rightarrow> (RoundGoesOn (), dv)
        | Some cached \<Rightarrow>
            if \<not> cached_report_reusable cached (st_Accepted st) then (RoundGoesOn (), dv)
            else return_alone d (or_workspace opened) cached
              (log_event (CacheAnswered cached) (log_event (Emitted ''cache-hit'' (or_digest opened)) dv))))"
    by (rule ends_go_on [OF trying_idle [OF assms abandon_holding]]) (auto split: option.split intro: return_alone_holding)
  then show ?thesis using True by (simp add: cache_check_def)
qed (use assms in \<open>simp add: cache_check_def\<close>)

lemma plan_round_releases:
  assumes "idle (add_mset (Workspace (or_workspace opened)) X) dv"
  shows "releases X (\<lambda>_. idle (add_mset (Workspace (or_workspace opened)) X)) (plan_round o' d st opened dv)"
  unfolding plan_round_def
proof (rule ends_go_on [OF trying_idle [OF assms abandon_holding]])
  fix discovered dv
  let ?W = "add_mset (Workspace (or_workspace opened)) X"
  assume dv: "idle ?W (dv :: 'a driver)"
  let ?targets = "included_project_targets discovered (cf_ProjectExclude (st_Config st))"
  obtain selection dv1 where x: "perform (rd_impact d (st_Root st) (md_model (or_metadata opened)) ?targets (st_Options st)) dv = (selection, dv1)"
    by (cases "perform (rd_impact d (st_Root st) (md_model (or_metadata opened)) ?targets (st_Options st)) dv")
  have dv1: "idle ?W (emit_impact st ?targets selection dv1)" using kept(2) [OF x] dv by (simp add: emit_impact_def)
  obtain e dv2 where e: "close_workspace d (or_workspace opened) (emit_impact st ?targets selection dv1) = (e, dv2)"
    by (cases "close_workspace d (or_workspace opened) (emit_impact st ?targets selection dv1)")
  have "idle X dv2" using close_workspace_holding [OF e dv1] .
  then show "releases X (\<lambda>_. idle ?W)
     (let targets = included_project_targets discovered (cf_ProjectExclude (st_Config st));
         (selection, dv) = perform (rd_impact d (st_Root st) (md_model (or_metadata opened)) targets (st_Options st)) dv;
         dv = emit_impact st targets selection dv;
         plan = \<lparr>pl_all = discovered, pl_targets = im_targets selection, pl_selection = selection\<rparr> in
     if opt_Changed (st_Options st) \<and> \<not> im_broad selection \<and> im_changed selection = [] then
       (case close_workspace d (or_workspace opened) dv of
          (Some e, dv) \<Rightarrow> (RoundFails [Failed e], dv)
        | (None, dv) \<Rightarrow> store_report d (or_digest opened) (unchanged_report o' st opened plan) (log_event ChangesEmpty dv))
     else (RoundGoesOn plan, dv))"
    using dv1 by (auto simp: Let_def x e intro: store_report_holding split: option.split)
qed

abbreviation whole_round :: "held multiset \<Rightarrow> supplied_round \<Rightarrow> held multiset" where
  "whole_round X supplied \<equiv> add_mset (Manager (sp_manager supplied)) (add_mset (Workspace (or_workspace (sp_opened supplied))) X)"

lemma observe_idle: "observe_repository o' d st n opened dv = (x, dv') \<Longrightarrow> idle X dv' = idle X dv"
  by (auto simp: observe_repository_def Let_def kept(2) split: if_splits prod.splits sum.splits)

lemma observe_acquired:
  assumes "idle Y dv" "observe_repository o' d st n opened (log_event (Acquired x) dv) = (y, dv')" shows "idle (add_mset x Y) dv'"
  using observe_idle [OF assms(2), of "add_mset x Y"] assms(1) by simp

lemma supply_round_releases:
  assumes "idle (add_mset (Workspace (or_workspace opened)) X) dv"
  shows "releases X (\<lambda>supplied. idle (whole_round X supplied)) (supply_round o' d st n opened plan dv)"
proof -
  let ?W = "add_mset (Workspace (or_workspace opened)) X"
  obtain saved dv1 where saved: "resumed_baseline d (pl_targets plan) (open_checkpoint d st n (or_digest opened) dv) = (saved, dv1)"
    by (cases "resumed_baseline d (pl_targets plan) (open_checkpoint d st n (or_digest opened) dv)")
  have "idle ?W (open_checkpoint d st n (or_digest opened) dv)"
    using assms by (simp add: open_checkpoint_def idle_def split: prod.split)
  then have dv1: "idle ?W dv1" using saved
    by (auto simp: resumed_baseline_def kept(4) split: prod.splits option.splits)
  show ?thesis unfolding supply_round_def saved Let_def prod.case
    by (rule ends_go_on [OF trying_idle [OF dv1 abandon_holding]]) (auto intro: observe_acquired split: prod.split)
qed


text \<open>The baseline, with the preparation running beside it.\<close>

lemma start_preparation_holding:
  "in_round X dv \<Longrightarrow> \<not> dv_preparing dv \<Longrightarrow> in_round X (start_preparation d st supplied dv)"
  by (simp add: start_preparation_def in_round_def Let_def)

lemma save_baseline_holding: "in_round X dv \<Longrightarrow> save_baseline d saved dv = (a, dv') \<Longrightarrow> in_round X dv'"
  by (auto simp: save_baseline_def)

lemma collect_holding: "collect_with d supplied pristine session options dv = (r, dv') \<Longrightarrow> in_round X dv \<Longrightarrow> in_round X dv'"
  unfolding collect_with_def by (rule converse_keeps [OF round_worldless(1)]) (rule save_baseline_holding)

lemma measure_round_holding:
  assumes "measure_round d st supplied pristine options dv = (r, dv')" "in_round X dv" shows "in_round X dv'"
proof -
  obtain x e where x: "collect_with d supplied pristine None options dv = (x, e)" by (cases "collect_with d supplied pristine None options dv")
  note e = collect_holding [OF x assms(2)]
  have cancelled: "in_round X (snd (settle_preparation d cancel e))" for cancel
    using settle_holding [OF prod.collapse [symmetric] e] by blast
  show ?thesis
  proof (cases x)
    case (Inl failed)
    then show ?thesis using assms(1) x cancelled by (auto simp: measure_round_def)
  next
    case (Inr checked)
    obtain prepared f where f: "settle_preparation d False e = (prepared, f)" by (cases "settle_preparation d False e")
    have "in_round X f" using cancelled [of False] f by simp
    then show ?thesis using assms(1) x Inr cancelled f
      by (auto simp: measure_round_def Let_def split: if_splits sum.splits prod.splits dest: collect_holding)
  qed
qed

lemma remove_scratch_holding:
  assumes "remove_baseline_scratch d directory dv = (es, dv')" "in_round (add_mset (BaselineScratch directory) X) dv"
  shows "in_round X dv'"
proof -
  obtain e f where e: "perform (rd_remove_baseline d directory) dv = (e, f)" by (cases "perform (rd_remove_baseline d directory) dv")
  have "in_round (add_mset (BaselineScratch directory) X) f" using kept(1) [OF e] assms(2) by simp
  then show ?thesis using assms(1) e by (auto simp: remove_baseline_scratch_def)
qed

lemma baseline_phase_releases:
  assumes "idle (whole_round X supplied) dv"
  shows "releases X (\<lambda>_. in_round (whole_round X supplied)) (baseline_phase o' d st supplied dv)"
proof -
  let ?W = "whole_round X supplied"
  obtain x e where x: "perform (rd_make_baseline d (st_Scratch st)) dv = (x, e)" by (cases "perform (rd_make_baseline d (st_Scratch st)) dv")
  have e: "in_round ?W e" "\<not> dv_preparing e"
    using kept(2) [OF x] assms by (auto simp: idle_in_round) (simp add: idle_def)
  show ?thesis
  proof (cases x)
    case (Inl failed)
    then show ?thesis using x e by (simp add: baseline_phase_def go_on_def trying_def abandon_round_holding)
  next
    case (Inr directory)
    let ?S = "add_mset (BaselineScratch directory) ?W"
    define f where "f = start_preparation d st supplied (log_event (Acquired (BaselineScratch directory))
           (e\<lparr>dv_baseline := (case sp_resume supplied of None \<Rightarrow> empty_baseline | Some b \<Rightarrow> b)\<rparr>))"
    have f: "in_round ?S f" unfolding f_def by (rule start_preparation_holding) (use e in simp_all)
    obtain y g where y: "open_control o' d st f = (y, g)" by (cases "open_control o' d st f")
    have g: "in_round ?S g" by (rule open_control_holding [OF y f])
    have rest: "releases X (\<lambda>_. in_round ?W) (case remove_baseline_scratch d directory h of
        (es, dv) \<Rightarrow> (case m of Inl e \<Rightarrow> (RoundFails (e # es), abandon_supplied d supplied dv)
             | Inr answer \<Rightarrow> if es \<noteq> [] then (RoundFails es, abandon_supplied d supplied dv) else (RoundGoesOn answer, dv)))"
      if "in_round ?S h" for h m
    proof -
      obtain es k where k: "remove_baseline_scratch d directory h = (es, k)" by (cases "remove_baseline_scratch d directory h")
      from remove_scratch_holding [OF k that] show ?thesis by (cases m) (simp_all add: k abandon_round_holding)
    qed
    show ?thesis
    proof (cases y)
      case (Inl failed)
      obtain p h where p: "settle_preparation d True g = (p, h)" by (cases "settle_preparation d True g")
      have "in_round ?S h" using settle_holding [OF p g] by blast
      from rest [OF this, of "Inl (Failed failed)"] show ?thesis
        using x Inr y Inl p by (simp add: baseline_phase_def go_on_def trying_def Let_def f_def [symmetric] split: prod.splits)
    next
      case pristine: (Inr pristine)
      obtain m h where m: "measure_round d st supplied pristine (baseline_options_of st supplied directory) g = (m, h)"
        by (cases "measure_round d st supplied pristine (baseline_options_of st supplied directory) g")
      from rest [OF measure_round_holding [OF m g], of m] show ?thesis
        using x Inr y pristine m by (simp add: baseline_phase_def go_on_def trying_def Let_def f_def [symmetric])
    qed
  qed
qed


lemma report_baseline_releases:
  assumes "in_round (whole_round X supplied) dv"
  shows "releases X (\<lambda>measured dv. ms_supplied measured = supplied \<and> in_round (whole_round X supplied) dv)
    (report_baseline o' d st supplied answer dv)"
  using assms by (cases answer) (auto simp: report_baseline_def Let_def discard_checkpoint_def intro: return_closed_holding)

lemma graph_phase_releases:
  assumes "in_round (whole_round X (ms_supplied measured)) dv"
  shows "releases X (\<lambda>_. in_round (whole_round X (ms_supplied measured))) (graph_phase d st measured dv)"
  unfolding graph_phase_def Let_def
proof (rule ends_go_on [OF trying_in_round [OF assms abandon_round_holding]])
  fix current dv
  let ?g = "rd_save_graph d (st_Root st) \<lparr>gr_ModulePath = gm_ModulePath (sp_model (ms_supplied measured)),
      gr_Graph = merge_graph current (im_prior (pl_selection (sp_plan (ms_supplied measured)))) (pl_selection (sp_plan (ms_supplied measured)))\<rparr>"
  assume dv: "in_round (whole_round X (ms_supplied measured)) (dv :: 'a driver)"
  obtain e dv1 where e: "perform ?g dv = (e, dv1)" by (cases "perform ?g dv")
  have "in_round (whole_round X (ms_supplied measured)) dv1" using kept(1) [OF e] dv by simp
  then show "releases X (\<lambda>_. in_round (whole_round X (ms_supplied measured))) (case perform ?g dv of
      (None, dv) \<Rightarrow> (RoundGoesOn (), dv) | (Some e, dv) \<Rightarrow> (RoundFails [Failed e], abandon_supplied d (ms_supplied measured) dv))"
    by (cases e) (simp_all add: \<open>perform ?g dv = (e, dv1)\<close> abandon_round_holding)
qed

lemma race_run_releases:
  assumes "in_round (whole_round X supplied) dv"
  shows "releases X (\<lambda>_. in_round (whole_round X supplied)) (race_run o' d st supplied model packages dv)"
proof -
  obtain saved e where saved: "from_checkpoint None (rk_race (rd_checkpoints d) packages) dv = (saved, e)"
    by (cases "from_checkpoint None (rk_race (rd_checkpoints d) packages) dv")
  have e: "in_round (whole_round X supplied) e" using kept(3) [OF saved] assms by simp
  obtain y f where y: "open_control o' d st e = (y, f)" by (cases "open_control o' d st e")
  note f = open_control_holding [OF y e]
  show ?thesis
  proof (cases saved)
    case (Some r)
    then show ?thesis using saved e by (simp add: race_run_def)
  next
    case None
    show ?thesis
    proof (cases y)
      case (Inl failed)
      then show ?thesis using saved None y f by (simp add: race_run_def abandon_round_holding)
    next
      case (Inr pristine)
      then show ?thesis using saved None y unfolding race_run_def saved None prod.case option.case Let_def y Inr sum.case
        by (intro ends_go_on [OF trying_in_round [OF f abandon_round_holding]]) simp_all
    qed
  qed
qed

lemma race_phase_releases:
  assumes "in_round (whole_round X (ms_supplied measured)) dv"
  shows "releases X (\<lambda>after dv. ms_supplied after = ms_supplied measured \<and> in_round (whole_round X (ms_supplied measured)) dv)
    (race_phase o' d st measured dv)"
proof -
  have report: "releases X (\<lambda>after dv. ms_supplied after = ms_supplied measured \<and> in_round (whole_round X (ms_supplied measured)) dv)
      (report_race d measured r result dv)" if "in_round (whole_round X (ms_supplied measured)) dv" for r result dv
    using that by (auto simp: report_race_def Let_def discard_checkpoint_def intro: return_closed_holding)
  have run: "releases X (\<lambda>after dv. ms_supplied after = ms_supplied measured \<and> in_round (whole_round X (ms_supplied measured)) dv)
      (go_on (race_run o' d st (ms_supplied measured) model packages dv) (report_race d measured r))"
    if "in_round (whole_round X (ms_supplied measured)) dv" for model packages r dv
    by (rule ends_go_on [OF race_run_releases [OF that]]) (rule report)
  show ?thesis unfolding race_phase_def Let_def
    by (rule ends_go_on [OF trying_in_round [OF assms abandon_round_holding]]) (auto intro!: run split: prod.split)
qed


lemma probe_round_releases:
  assumes "in_round (whole_round X (ms_supplied measured)) dv"
  shows "releases X (\<lambda>probed dv. ms_supplied (pb_round probed) = ms_supplied measured \<and> in_round (whole_round X (ms_supplied measured)) dv)
    (probe_round o' d st measured session resume dv)"
proof -
  let ?W = "whole_round X (ms_supplied measured)"
  have run: "releases X (\<lambda>_. in_round ?W) (go_on (trying f (abandon_supplied d (ms_supplied measured)) dv) (\<lambda>probed dv.
      (RoundGoesOn probed, with_checkpoint (g probed) dv)))" if "in_round ?W dv" for f g dv
    by (rule ends_go_on [OF trying_in_round [OF that abandon_round_holding]]) simp_all
  have answer: "releases X (\<lambda>probed dv. ms_supplied (pb_round probed) = ms_supplied measured \<and> in_round ?W dv)
      (go_on a (\<lambda>probed dv. (RoundGoesOn \<lparr>pb_round = measured\<lparr>ms_baseline := b probed\<rparr>, pb_resume = r, pb_suites = pb_Suites probed\<rparr>,
            log_event (Emitted ''probe-summary'' (probe_summary probed)) dv)))"
    if "releases X (\<lambda>_. in_round ?W) a" for a b r
    by (rule ends_go_on [OF that]) simp
  show ?thesis unfolding probe_round_def Let_def
    by (split prod.split, intro allI impI, split prod.split, intro allI impI, split prod.split, intro allI impI, rule answer)
      (use assms in \<open>auto intro!: run split: option.split simp: kept(3)\<close>)
qed

lemma probe_phase_releases:
  assumes "in_round (whole_round X (ms_supplied measured)) dv"
  shows "releases X (\<lambda>(session, probed) dv. ms_supplied (pb_round probed) = ms_supplied measured \<and> in_round (whole_round X (ms_supplied measured)) dv)
    (probe_phase o' d st measured dv)"
proof -
  let ?W = "whole_round X (ms_supplied measured)"
  have run: "releases X (\<lambda>(session, probed) dv. ms_supplied (pb_round probed) = ms_supplied measured \<and> in_round ?W dv)
      (go_on (probe_round o' d st measured session resume dv) (\<lambda>probed dv. (RoundGoesOn (session, probed), dv)))"
    if "in_round ?W dv" for session resume dv
    by (rule ends_go_on [OF probe_round_releases [OF that]]) simp
  show ?thesis using assms unfolding probe_phase_def Let_def
    by (auto intro!: run abandon_round_holding split: option.split prod.split simp: kept(3))
qed

lemma ask_original_control_holding:
  assumes "ask_original_control o' d st request dv = (r, dv')" "in_round X dv" shows "in_round X dv'"
proof -
  obtain x e where x: "open_control o' d st dv = (x, e)" by (cases "open_control o' d st dv")
  note e = open_control_holding [OF x assms(2)]
  show ?thesis using assms(1) x e by (cases x) (auto simp: ask_original_control_def kept(1))
qed

lemma hear_mutation_holding: "in_round X dv \<Longrightarrow> hear_mutation o' d st session c dv = (a, dv') \<Longrightarrow> in_round X dv'"
  by (auto simp: hear_mutation_def kept(1) split: mutation_call.splits if_splits dest: ask_original_control_holding)

lemma round_evidence_holding: "round_evidence o' d st n measured dv = (x, dv') \<Longrightarrow> in_round X dv' = in_round X dv"
  by (auto simp: round_evidence_def Let_def kept(1) split: option.splits if_splits prod.splits sum.splits)

lemma save_evidence_holding: "in_round X (save_round_evidence d measured evidence dv) = in_round X dv"
  by (auto simp: save_round_evidence_def kept(1) split: option.split prod.split)

lemma mutation_phase_releases:
  assumes "in_round (whole_round X (ms_supplied (pb_round probed))) dv"
  shows "releases X (\<lambda>(measured, _) dv. ms_supplied measured = ms_supplied (pb_round probed) \<and> in_round (whole_round X (ms_supplied (pb_round probed))) dv)
    (mutation_phase o' d st n session probed dv)"
proof -
  let ?W = "whole_round X (ms_supplied (pb_round probed))"
  obtain c e where c: "round_evidence o' d st n (pb_round probed) dv = (c, e)" by (cases "round_evidence o' d st n (pb_round probed) dv")
  have e: "in_round ?W e" using round_evidence_holding [OF c] assms by simp
  obtain answer c' f where f: "converse (hear_mutation o' d st session)
      (rd_mutation d session (ba_Targets (ms_baseline (pb_round probed))) (mutation_options_of st probed) c (dv_world e)) e = ((answer, c'), f)"
    by (cases "converse (hear_mutation o' d st session)
      (rd_mutation d session (ba_Targets (ms_baseline (pb_round probed))) (mutation_options_of st probed) c (dv_world e)) e") auto
  have "in_round ?W f" by (rule converse_keeps [OF round_worldless(1) hear_mutation_holding e f])
  then show ?thesis using c f by (cases answer) (auto simp: mutation_phase_def Let_def abandon_round_holding save_evidence_holding)
qed

lemma repair_phase_releases:
  assumes "in_round (whole_round X supplied) dv"
  shows "releases X (\<lambda>_. idle X) (repair_phase o' d st supplied mutation dv)"
proof -
  have closed: "releases X (\<lambda>_. idle X) (case close_round d (or_workspace (sp_opened supplied)) (sp_manager supplied) dv of
      ([], dv) \<Rightarrow> (RoundGoesOn generated, dv) | (es, dv) \<Rightarrow> (RoundFails es, dv))"
    if "in_round (whole_round X supplied) dv" for generated and dv
    by (cases "close_round d (or_workspace (sp_opened supplied)) (sp_manager supplied) dv")
      (auto split: list.split dest: close_round_holding [OF _ that])
  show ?thesis unfolding repair_phase_def Let_def
    by (rule ends_go_on [OF trying_in_round [OF assms abandon_round_holding]]) (auto intro!: closed)
qed

lemma finish_round_releases:
  assumes "idle X dv" shows "releases X (\<lambda>_. idle X) (finish_round o' d st n measured mutation generated applied dv)"
proof -
  have unrepaired: "releases X (\<lambda>_. idle X) (finish_unrepaired o' d st measured mutation generated applied dv)"
    unfolding finish_unrepaired_def Let_def
    by (rule ends_go_on [OF trying_idle [OF assms]]) (auto intro!: store_report_holding split: prod.split)
  then show ?thesis using assms by (auto simp: finish_round_def Let_def discard_checkpoint_def)
qed

lemma verify_round_releases:
  assumes "idle (whole_round X supplied) dv"
  shows "releases X (\<lambda>(measured, _) dv. ms_supplied measured = supplied \<and> in_round (whole_round X supplied) dv) (verify_round o' d st n supplied dv)"
  unfolding verify_round_def
proof (rule ends_go_on [OF baseline_phase_releases [OF assms]], rule ends_go_on [OF report_baseline_releases], assumption)
  fix measured :: measured_round and dv :: "'a driver"
  assume m: "ms_supplied measured = supplied \<and> in_round (whole_round X supplied) dv"
  have mutation: "releases X (\<lambda>(measured, _) dv. ms_supplied measured = supplied \<and> in_round (whole_round X supplied) dv)
      (case x of (session, probed) \<Rightarrow> mutation_phase o' d st n session probed dv)"
    if "case x of (session, probed) \<Rightarrow> ms_supplied (pb_round probed) = supplied \<and> in_round (whole_round X supplied) dv" for x dv
    using that mutation_phase_releases [where probed = "snd x" and session = "fst x" and X = X and dv = dv] by (simp add: case_prod_beta)
  have probes: "releases X (\<lambda>(measured, _) dv. ms_supplied measured = supplied \<and> in_round (whole_round X supplied) dv)
      (go_on (probe_phase o' d st after dv) (\<lambda>(session, probed) dv. mutation_phase o' d st n session probed dv))"
    if "ms_supplied after = supplied \<and> in_round (whole_round X supplied) dv" for after dv
    by (rule ends_go_on [OF probe_phase_releases [where measured = after and X = X]]) (use that mutation in \<open>auto simp: case_prod_beta\<close>)
  show "releases X (\<lambda>(measured, _) dv. ms_supplied measured = supplied \<and> in_round (whole_round X supplied) dv)
      (go_on (graph_phase d st measured dv) (\<lambda>_ dv. go_on (race_phase o' d st measured dv) (\<lambda>measured dv.
       go_on (probe_phase o' d st measured dv) (\<lambda>(session, probed) dv. mutation_phase o' d st n session probed dv))))"
    by (rule ends_go_on [OF graph_phase_releases [where measured = measured and X = X]], use m in simp, rule ends_go_on [OF race_phase_releases [where X = X]], use m in simp)
      (rule probes, use m in simp)
qed

lemma run_round_releases:
  assumes "idle X dv" shows "releases X (\<lambda>_. idle X) (run_round o' d st n applied dv)"
proof -
  have finish: "releases X (\<lambda>_. idle X) (case x of (measured, mutation) \<Rightarrow>
      go_on (repair_phase o' d st supplied mutation dv) (\<lambda>generated dv. finish_round o' d st n measured mutation generated applied dv))"
    if "case x of (measured, _) \<Rightarrow> ms_supplied measured = supplied \<and> in_round (whole_round X supplied) dv" for x supplied dv
  proof -
    obtain measured mutation where x: "x = (measured, mutation)" by (cases x)
    have "in_round (whole_round X supplied) dv" using that x by simp
    from ends_go_on [OF repair_phase_releases [OF this] finish_round_releases] show ?thesis by (simp add: x)
  qed
  show ?thesis unfolding run_round_def
    by (rule ends_go_on [OF round_start_releases [OF assms]], rule ends_go_on [OF cache_check_releases], assumption,
        rule ends_go_on [OF plan_round_releases], assumption, rule ends_go_on [OF supply_round_releases], assumption,
        rule ends_go_on [OF verify_round_releases], assumption) (use finish in \<open>auto simp: case_prod_beta\<close>)
qed


section \<open>The run returns, and has released everything\<close>

lemma ends_anything: "ends (\<lambda>_. True) (\<lambda>_ _. True) (\<lambda>_ _. True) r"
  by (auto simp: ends_def split: prod.split round_step.split)

lemma last_round_ends:
  assumes "n + 1 = maximum_rounds"
  shows "ends (\<lambda>_. True) (\<lambda>_ _. True) (\<lambda>_ _. False) (run_round o' d st n applied dv)"
proof -
  have finish: "ends (\<lambda>_. True) (\<lambda>_ _. True) (\<lambda>_ _. False) (finish_round o' d st n measured mutation generated applied dv)"
    for measured mutation generated and dv :: "'a driver"
  proof -
    have "ends (\<lambda>_. True) (\<lambda>_ _. True) (\<lambda>_ _. False) (finish_unrepaired o' d st measured mutation generated applied dv)"
      unfolding finish_unrepaired_def Let_def
      by (rule ends_go_on [OF ends_anything]) (auto simp: store_report_def split: prod.split option.split)
    then show ?thesis using assms by (auto simp: finish_round_def Let_def)
  qed
  show ?thesis unfolding run_round_def
    by (rule ends_go_on [OF ends_anything])+ (auto simp: case_prod_beta intro!: ends_go_on [OF ends_anything] finish)
qed

lemma run_rounds_returns:
  "n < maximum_rounds \<Longrightarrow> idle X dv \<Longrightarrow> \<exists>answer dv'. run_rounds o' d st n applied dv = Some (answer, dv') \<and> idle X dv'"
proof (induction "maximum_rounds - n" arbitrary: n applied dv rule: less_induct)
  case less
  obtain x dv1 where x: "run_round o' d st n applied dv = (x, dv1)" by (cases "run_round o' d st n applied dv")
  have released: "releases X (\<lambda>_. idle X) (x, dv1)" using run_round_releases [OF less.prems(2)] unfolding x [symmetric] .
  show ?case
  proof (cases x)
    case (RoundGoesOn more)
    have "n + 1 \<noteq> maximum_rounds" using last_round_ends [of n o' d st applied dv] x RoundGoesOn by auto
    then have "n + 1 < maximum_rounds" "maximum_rounds - (n + 1) < maximum_rounds - n" using less.prems(1) by simp_all
    moreover have "idle X dv1" using released RoundGoesOn by simp
    ultimately show ?thesis using less.hyps [of "n + 1" dv1 more] x RoundGoesOn by (simp add: run_rounds.simps [of o' d st n applied dv])
  qed (use released x in \<open>simp_all add: run_rounds.simps [of o' d st n applied dv]\<close>)
qed

lemma open_run_scratch_releases:
  assumes "idle {#} dv" shows "releases {#} (\<lambda>scratch. idle {#RunScratch scratch#}) (open_run_scratch d dv)"
  unfolding open_run_scratch_def
  by (rule ends_go_on [OF trying_idle [OF assms]]) (auto split: prod.split option.split simp: kept(2))

lemma hold_scratch_releases:
  assumes "idle {#} dv" shows "releases {#} (\<lambda>st. idle {#RunScratch (st_Scratch st)#}) (hold_scratch d st dv)"
proof -
  obtain x dv1 where x: "open_run_scratch d dv = (x, dv1)" by (cases "open_run_scratch d dv")
  have "releases {#} (\<lambda>scratch. idle {#RunScratch scratch#}) (x, dv1)" using open_run_scratch_releases [OF assms] unfolding x [symmetric] .
  then show ?thesis using x by (cases x) (auto simp: hold_scratch_def kept(2) split: prod.split option.split)
qed

lemma set_up_releases:
  assumes "idle {#} dv" shows "releases {#} (\<lambda>st. idle {#RunScratch (st_Scratch st)#}) (set_up o' d options dv)"
  unfolding set_up_def Let_def
  by (rule ends_go_on [OF trying_idle [OF assms]], simp, rule ends_go_on [OF trying_idle], assumption, simp)
    (auto split: sum.split prod.split intro!: hold_scratch_releases simp: kept(2))

lemma tear_down_holding: "idle {#RunScratch (st_Scratch st)#} dv \<Longrightarrow> idle {#} (tear_down d st dv)"
  by (auto simp: tear_down_def Let_def kept(2) split: prod.split option.split)

lemma new_driver_idle: "idle {#} (new_driver w)"
  by (simp add: new_driver_def idle_def holding_def control_held_def)

text \<open>
  C4. A run returns, whatever its dependencies answer and although nothing but the repairs of its rounds
  bounds the loop; and by then it has closed every workspace and manager it opened, waited for every
  preparation it started and removed every scratch directory it made, each exactly once, on every path.
\<close>

theorem run_returns_and_releases:
  "\<exists>answer dv. run_with_dependencies o' d options (new_driver w) = Some (answer, dv) \<and> acquired (dv_log dv) = released (dv_log dv)"
proof -
  have balanced: "acquired (dv_log dv) = released (dv_log dv)" if "idle {#} dv" for dv :: "'a driver"
    using that by (simp add: idle_def holding_def)
  obtain x dv1 where x: "set_up o' d options (new_driver w) = (x, dv1)" by (cases "set_up o' d options (new_driver w)")
  have set_up: "releases {#} (\<lambda>st. idle {#RunScratch (st_Scratch st)#}) (x, dv1)"
    using set_up_releases [OF new_driver_idle] unfolding x [symmetric] .
  show ?thesis
  proof (cases x)
    case (RoundGoesOn st)
    then have "idle {#RunScratch (st_Scratch st)#} dv1" using set_up by simp
    then obtain answer dv2 where "run_rounds o' d st 0 [] dv1 = Some (answer, dv2)" "idle {#RunScratch (st_Scratch st)#} dv2"
      using run_rounds_returns [of 0 "{#RunScratch (st_Scratch st)#}" dv1 o' d st "[]"] by (auto simp: maximum_rounds_def)
    then show ?thesis using x RoundGoesOn balanced [OF tear_down_holding] by (simp add: run_with_dependencies_def)
  qed (use x set_up balanced in \<open>auto simp: run_with_dependencies_def\<close>)
qed

end
