(* ===== verification/RunAssurance.thy ===== *)
theory RunAssurance
  imports RunDriverSafety
begin

text \<open>
  What stands behind the verdict of a run: the facts its phases answered, read off its log. A report that says
  \<open>ASSURED\<close> comes from the exact cache, or from a round in which every phase passed and whose inputs were
  computed again at the end with the same digest.
\<close>

section \<open>Facts\<close>

fun fact :: "run_event \<Rightarrow> bool" where
  "fact (Acquired x) = False"
| "fact (Released x) = False"
| "fact (Emitted k s) = False"
| "fact _ = True"

definition facts :: "'w driver \<Rightarrow> run_event list" where
  "facts dv = filter fact (dv_log dv)"

lemma facts_log [simp]: "facts (log_event e dv) = facts dv @ (if fact e then [e] else [])"
  by (simp add: facts_def log_event_def)

lemma facts_fields [simp]:
  "facts (dv\<lparr>dv_world := w\<rparr>) = facts dv" "facts (dv\<lparr>dv_checkpoint := c\<rparr>) = facts dv" "facts (dv\<lparr>dv_control := t\<rparr>) = facts dv"
  "facts (dv\<lparr>dv_preparing := b\<rparr>) = facts dv" "facts (dv\<lparr>dv_baseline := s\<rparr>) = facts dv"
  by (simp_all add: facts_def)

definition told :: "run_event list \<Rightarrow> 'w driver \<Rightarrow> bool" where
  "told fs dv \<longleftrightarrow> facts dv = fs"

lemma told_free: "free (told fs)"
  by (simp add: free_def told_def)

lemma perform_facts: assumes "perform f dv = (x, dv')" shows "facts dv' = facts dv"
  using perform_keeps [OF free_worldless [OF told_free [of "facts dv"]] assms] by (simp add: told_def)

lemma from_checkpoint_facts: assumes "from_checkpoint absent f dv = (x, dv')" shows "facts dv' = facts dv"
  using from_checkpoint_keeps [OF told_free [of "facts dv"] assms] by (simp add: told_def)

lemma with_checkpoint_facts [simp]: "facts (with_checkpoint f dv) = facts dv"
  using with_checkpoint_keeps [OF told_free, of "facts dv" f dv] by (simp add: told_def)

lemma converse_facts:
  assumes "\<And>q dv a dv'. hear q dv = (a, dv') \<Longrightarrow> facts dv' = facts dv" "converse hear d dv = (r, dv')"
  shows "facts dv' = facts dv"
proof -
  have "told (facts dv) dv'"
    by (rule converse_keeps [OF free_worldless [OF told_free] _ _ assms(2)]) (auto simp: told_def dest: assms(1))
  then show ?thesis by (simp add: told_def)
qed

lemmas same_facts = perform_facts from_checkpoint_facts

text \<open>What opens, closes and saves tells nothing.\<close>

lemma close_workspace_facts: "close_workspace d h dv = (e, dv') \<Longrightarrow> facts dv' = facts dv"
  by (auto simp: close_workspace_def same_facts split: prod.splits)

lemma open_control_facts: "open_control o' d st dv = (r, dv') \<Longrightarrow> facts dv' = facts dv"
  by (auto simp: open_control_def same_facts split: control.splits prod.splits sum.splits)

lemma settle_facts: "settle_preparation d cancel dv = (r, dv') \<Longrightarrow> facts dv' = facts dv"
  by (auto simp: settle_preparation_def same_facts split: if_splits prod.splits)

lemma close_round_facts:
  assumes "close_round d w m dv = (es, dv')" shows "facts dv' = facts dv"
proof -
  have control: "close_control d dv = (e, dv') \<Longrightarrow> facts dv' = facts dv" for e and dv dv' :: "'a driver"
    by (auto simp: close_control_def dest: close_workspace_facts split: control.splits)
  have manager: "close_manager d m dv = (e, dv') \<Longrightarrow> facts dv' = facts dv" for e and dv dv' :: "'a driver"
    by (auto simp: close_manager_def same_facts split: prod.splits)
  show ?thesis using assms
    by (auto simp: close_round_def Let_def split: prod.splits dest!: settle_facts control manager close_workspace_facts)
qed

text \<open>A step of which only what it goes on with is of interest.\<close>

abbreviation goes_on :: "(report \<Rightarrow> 'w driver \<Rightarrow> bool) \<Rightarrow> ('a \<Rightarrow> 'w driver \<Rightarrow> bool) \<Rightarrow> 'a round_step \<times> 'w driver \<Rightarrow> bool" where
  "goes_on R P \<equiv> ends (\<lambda>_. True) R P"

lemma trying_facts: "goes_on R (\<lambda>_ dv'. facts dv' = facts dv) (trying f cleanup dv)"
  by (auto simp: trying_def perform_facts split: prod.split sum.split)

section \<open>What is behind a verdict\<close>

definition passed_facts :: "string \<Rightarrow> run_event list" where
  "passed_facts digest = [InputsComputed digest, BaselineSettled [], RaceSettled [], MutationSettled 0, RepairsSettled [] False, InputsComputed digest]"

text \<open>The last facts of a run that returns a report.\<close>

definition warranted :: "report \<Rightarrow> run_event list \<Rightarrow> bool" where
  "warranted r fs \<longleftrightarrow>
     (\<exists>before. fs = before @ [CacheAnswered r]) \<or>
     (if Verdict r = VerdictAssured then \<exists>before. fs = before @ passed_facts (Snapshot r) @ [Stored (Snapshot r) r]
      else if Verdict r = VerdictChangeAssured then \<exists>before. fs = before @ [InputsComputed (Snapshot r), ChangesEmpty, Stored (Snapshot r) r]
      else True)"

abbreviation backed :: "report \<Rightarrow> 'w driver \<Rightarrow> bool" where
  "backed r dv \<equiv> warranted r (facts dv)"

lemma return_closed_backed: "Verdict r \<notin> {VerdictAssured, VerdictChangeAssured} \<Longrightarrow> goes_on backed P (return_closed d w m r dv)"
  by (auto simp: return_closed_def warranted_def split: prod.split list.split)

lemma round_start_facts: "goes_on R (\<lambda>opened dv'. facts dv' = facts dv @ [InputsComputed (or_digest opened)]) (round_start o' d st n dv)"
proof -
  have inputs: "goes_on R (\<lambda>opened dv'. facts dv' = facts dv @ [InputsComputed (or_digest opened)]) (round_inputs d st w dv)"
    for w and dv :: "'a driver"
    unfolding round_inputs_def
    by (rule ends_go_on [OF trying_facts], split prod.split, intro allI impI, rule ends_go_on [OF trying_facts]) (auto split: prod.split)
  show ?thesis unfolding round_start_def Let_def
    by (rule ends_go_on [OF trying_facts], rule ends_weaken [OF inputs]) simp
qed

lemma cache_check_facts: "goes_on backed (\<lambda>_ dv'. facts dv' = facts dv) (cache_check d st n opened dv)"
proof (cases "exact_reuse st n")
  case True
  then show ?thesis unfolding cache_check_def if_not_P [OF iffD2 [OF not_not True]]
    by (intro ends_go_on [OF trying_facts])
      (auto simp: return_alone_def warranted_def dest: close_workspace_facts split: option.split prod.split)
qed (simp add: cache_check_def)

lemma plan_round_facts:
  assumes "facts dv = before @ [InputsComputed (or_digest opened)]"
  shows "goes_on backed (\<lambda>_ dv'. facts dv' = facts dv) (plan_round o' d st opened dv)"
proof -
  have impact: "facts (emit_impact st targets selection dv) = facts dv" for targets selection and dv :: "'a driver"
    by (simp add: emit_impact_def)
  have unchanged: "Verdict (unchanged_report o' st opened plan) = VerdictChangeAssured" "Snapshot (unchanged_report o' st opened plan) = or_digest opened" for plan
    by (simp_all add: unchanged_report_def round_report_def Let_def)
  show ?thesis unfolding plan_round_def Let_def
    by (rule ends_go_on [OF trying_facts])
      (auto simp: store_report_def warranted_def unchanged impact assms same_facts dest!: close_workspace_facts split: prod.split option.split)
qed

lemma supply_round_facts:
  "goes_on R (\<lambda>supplied dv'. sp_opened supplied = opened \<and> facts dv' = facts dv) (supply_round o' d st n opened plan dv)"
proof -
  have observe: "observe_repository o' d st n opened dv = (x, dv') \<Longrightarrow> facts dv' = facts dv" for x and dv dv' :: "'a driver"
    by (auto simp: observe_repository_def Let_def same_facts split: if_splits prod.splits sum.splits)
  have resumed: "resumed_baseline d targets (open_checkpoint d st n digest dv) = (x, dv') \<Longrightarrow> facts dv' = facts dv" for x targets digest and dv dv' :: "'a driver"
    by (auto simp: resumed_baseline_def open_checkpoint_def same_facts split: prod.splits option.splits)
  show ?thesis unfolding supply_round_def Let_def
    by (split prod.split, intro allI impI, rule ends_go_on [OF trying_facts]) (auto dest!: observe resumed split: prod.split)
qed

lemma collect_facts: "collect_with d supplied pristine session options dv = (r, dv') \<Longrightarrow> facts dv' = facts dv"
  unfolding collect_with_def by (rule converse_facts) (auto simp: save_baseline_def)

lemma baseline_phase_facts: "goes_on R (\<lambda>_ dv'. facts dv' = facts dv) (baseline_phase o' d st supplied dv)"
proof -
  have measure: "measure_round d st supplied pristine options dv = (r, dv') \<Longrightarrow> facts dv' = facts dv" for r pristine options and dv dv' :: "'a driver"
    by (auto simp: measure_round_def Let_def split: prod.splits sum.splits if_splits dest!: collect_facts)
      (metis settle_facts prod.collapse collect_facts)+
  have removed: "remove_baseline_scratch d directory dv = (es, dv') \<Longrightarrow> facts dv' = facts dv" for es directory and dv dv' :: "'a driver"
    by (auto simp: remove_baseline_scratch_def same_facts split: prod.splits)
  have start: "facts (start_preparation d st supplied dv) = facts dv" for dv :: "'a driver"
    by (simp add: start_preparation_def Let_def)
  show ?thesis unfolding baseline_phase_def Let_def
    by (rule ends_go_on [OF trying_facts])
      (auto simp: start split: prod.split sum.split dest!: open_control_facts measure removed)
qed

lemma report_baseline_facts:
  "goes_on backed (\<lambda>measured dv'. ms_supplied measured = supplied \<and> facts dv' = facts dv @ [BaselineSettled []]) (report_baseline o' d st supplied answer dv)"
proof -
  have verdict: "baseline_verdict fs \<notin> {VerdictAssured, VerdictChangeAssured}" for fs by (simp add: baseline_verdict_def)
  show ?thesis unfolding report_baseline_def Let_def
    by (auto simp: discard_checkpoint_def intro!: return_closed_backed verdict split: prod.split) (use verdict in auto)
qed

lemma graph_phase_facts: "goes_on R (\<lambda>_ dv'. facts dv' = facts dv) (graph_phase d st measured dv)"
  unfolding graph_phase_def Let_def
  by (rule ends_go_on [OF trying_facts]) (auto simp: same_facts split: prod.split option.split)

lemma race_run_facts: "goes_on R (\<lambda>_ dv'. facts dv' = facts dv) (race_run o' d st supplied model packages dv)"
  unfolding race_run_def Let_def
  by (auto simp: same_facts split: prod.split option.split sum.split intro!: ends_go_on [OF trying_facts] dest!: open_control_facts)

lemma race_phase_facts:
  "goes_on backed (\<lambda>after dv'. ms_supplied after = ms_supplied measured \<and> facts dv' = facts dv @ [RaceSettled []]) (race_phase o' d st measured dv)"
proof -
  have report: "goes_on backed (\<lambda>after dv'. ms_supplied after = ms_supplied measured \<and> facts dv' = facts dv @ [RaceSettled []])
      (report_race d measured r result dv)" for r result and dv :: "'a driver"
    by (auto simp: report_race_def Let_def discard_checkpoint_def intro!: return_closed_backed)
  have run: "goes_on backed (\<lambda>after dv'. ms_supplied after = ms_supplied measured \<and> facts dv' = facts dv @ [RaceSettled []])
      (go_on (race_run o' d st supplied model packages dv) (report_race d measured r))" for supplied model packages r and dv :: "'a driver"
    by (rule ends_go_on [OF race_run_facts], rule ends_weaken [OF report]) simp
  show ?thesis unfolding race_phase_def Let_def
    by (rule ends_go_on [OF trying_facts]) (auto intro!: ends_weaken [OF run] split: prod.split)
qed

lemma probe_phase_facts:
  "goes_on R (\<lambda>(session, probed) dv'. ms_supplied (pb_round probed) = ms_supplied measured \<and> facts dv' = facts dv) (probe_phase o' d st measured dv)"
proof -
  have answer: "goes_on R (\<lambda>probed dv'. ms_supplied (pb_round probed) = ms_supplied measured \<and> facts dv' = fs)
      (go_on a (\<lambda>probed dv. (RoundGoesOn \<lparr>pb_round = measured\<lparr>ms_baseline := b probed\<rparr>, pb_resume = r, pb_suites = pb_Suites probed\<rparr>,
            log_event (Emitted ''probe-summary'' (probe_summary probed)) dv)))"
    if "goes_on R (\<lambda>_ dv'. facts dv' = fs) a" for a fs b r
    by (rule ends_go_on [OF that]) simp
  have run: "goes_on R (\<lambda>_ dv'. facts dv' = facts dv) (go_on (trying f cleanup dv) (\<lambda>probed dv. (RoundGoesOn probed, with_checkpoint (g probed) dv)))"
    for f cleanup g and dv :: "'a driver"
    by (rule ends_go_on [OF trying_facts]) simp
  have probe: "goes_on R (\<lambda>probed dv'. ms_supplied (pb_round probed) = ms_supplied measured \<and> facts dv' = facts dv)
      (probe_round o' d st measured session resume dv)" for session resume and dv :: "'a driver"
    unfolding probe_round_def Let_def
    by (split prod.split, intro allI impI, split prod.split, intro allI impI, split prod.split, intro allI impI, rule answer)
      (auto intro!: ends_weaken [OF run] split: option.split simp: same_facts)
  have wrapped: "goes_on R (\<lambda>(session, probed) dv'. ms_supplied (pb_round probed) = ms_supplied measured \<and> facts dv' = facts dv)
      (go_on (probe_round o' d st measured session resume dv) (\<lambda>probed dv. (RoundGoesOn (session, probed), dv)))" for session resume and dv :: "'a driver"
    by (rule ends_go_on [OF probe]) simp
  show ?thesis unfolding probe_phase_def Let_def
    by (auto intro!: ends_weaken [OF wrapped] split: option.split prod.split simp: same_facts)
qed

lemma mutation_phase_facts:
  "goes_on R (\<lambda>(measured, mutation) dv'. ms_supplied measured = ms_supplied (pb_round probed) \<and>
     facts dv' = facts dv @ [MutationSettled (mUnknown (mv_Accounting mutation))]) (mutation_phase o' d st n session probed dv)"
proof -
  obtain c e where c: "round_evidence o' d st n (pb_round probed) dv = (c, e)" by (cases "round_evidence o' d st n (pb_round probed) dv")
  have e: "facts e = facts dv"
    using c by (auto simp: round_evidence_def Let_def same_facts split: option.splits if_splits prod.splits sum.splits)
  obtain answer c' f where f: "converse (hear_mutation o' d st session)
      (rd_mutation d session (ba_Targets (ms_baseline (pb_round probed))) (mutation_options_of st probed) c (dv_world e)) e = ((answer, c'), f)"
    by (cases "converse (hear_mutation o' d st session)
      (rd_mutation d session (ba_Targets (ms_baseline (pb_round probed))) (mutation_options_of st probed) c (dv_world e)) e") auto
  have original: "ask_original_control o' d st request dv = (r, dv') \<Longrightarrow> facts dv' = facts dv" for request r and dv dv' :: "'a driver"
    by (cases "open_control o' d st dv"; cases "fst (open_control o' d st dv)") (auto simp: ask_original_control_def same_facts dest: open_control_facts)
  have heard: "hear_mutation o' d st session q dv = (a, dv') \<Longrightarrow> facts dv' = facts dv" for q a and dv dv' :: "'a driver"
    by (auto simp: hear_mutation_def same_facts split: mutation_call.splits if_splits dest: original)
  have "facts f = facts dv" using converse_facts [OF heard f] e by simp
  moreover have "facts (save_round_evidence d m c dv) = facts dv" for m c and dv :: "'a driver"
    by (auto simp: save_round_evidence_def same_facts split: option.split prod.split)
  ultimately show ?thesis using c f by (cases answer) (auto simp: mutation_phase_def Let_def)
qed

lemma repair_phase_facts:
  "goes_on R (\<lambda>generated dv'. facts dv' = facts dv @ [RepairsSettled (ge_Findings generated) (ge_Applied generated)]) (repair_phase o' d st supplied mutation dv)"
  unfolding repair_phase_def Let_def
  by (rule ends_go_on [OF trying_facts]) (auto split: prod.split list.split dest!: close_round_facts)

lemma finish_round_backed:
  assumes "facts dv = before @ [InputsComputed (or_digest (sp_opened (ms_supplied measured))), BaselineSettled [], RaceSettled [],
      MutationSettled (mUnknown (mv_Accounting mutation)), RepairsSettled (ge_Findings generated) (ge_Applied generated)]"
  shows "goes_on backed (\<lambda>_ _. True) (finish_round o' d st n measured mutation generated applied dv)"
proof -
  let ?digest = "or_digest (sp_opened (ms_supplied measured))"
  let ?r = "final_report o' ?digest (ms_report measured) mutation generated applied"
  have snapshot: "Snapshot ?r = ?digest" by (simp add: final_report_def Let_def)
  have "Verdict ?r \<noteq> VerdictChangeAssured" by (simp add: final_report_def Let_def)
  moreover have "ge_Findings generated = [] \<and> mUnknown (mv_Accounting mutation) = 0" if "Verdict ?r = VerdictAssured"
    using that by (auto simp: final_report_def Let_def split: if_splits)
  ultimately have stored: "warranted ?r (facts dv @ [InputsComputed ?digest, Stored ?digest ?r])" if "\<not> ge_Applied generated"
    using that assms snapshot by (auto simp: warranted_def passed_facts_def)
  have "goes_on backed (\<lambda>_ _. True) (finish_unrepaired o' d st measured mutation generated applied dv)" if "\<not> ge_Applied generated"
    unfolding finish_unrepaired_def Let_def
    by (rule ends_go_on [OF trying_facts]) (use stored [OF that] in \<open>auto simp: store_report_def same_facts split: prod.split option.split\<close>)
  moreover have "backed (exhausted_report o' base generated applied) dv" for base applied and dv :: "'a driver"
    by (simp add: exhausted_report_def warranted_def)
  ultimately show ?thesis by (auto simp: finish_round_def Let_def)
qed

section \<open>A run\<close>

lemma verify_round_facts:
  "goes_on backed (\<lambda>(measured, mutation) dv'. ms_supplied measured = supplied \<and>
     facts dv' = facts dv @ [BaselineSettled [], RaceSettled [], MutationSettled (mUnknown (mv_Accounting mutation))]) (verify_round o' d st n supplied dv)"
proof -
  let ?Q = "\<lambda>fs (measured, mutation) dv'. ms_supplied measured = supplied \<and> facts dv' = fs @ [MutationSettled (mUnknown (mv_Accounting mutation))]"
  have mutation: "goes_on backed (?Q fs) (mutation_phase o' d st n session probed dv)"
    if "ms_supplied (pb_round probed) = supplied" "facts dv = fs" for fs session probed and dv :: "'a driver"
    by (rule ends_weaken [OF mutation_phase_facts]) (use that in auto)
  have probes: "goes_on backed (?Q fs) (go_on (probe_phase o' d st measured dv) (\<lambda>(session, probed) dv. mutation_phase o' d st n session probed dv))"
    if "ms_supplied measured = supplied" "facts dv = fs" for fs measured and dv :: "'a driver"
    by (rule ends_go_on [OF probe_phase_facts]) (use that mutation in auto)
  have race: "goes_on backed (?Q (fs @ [RaceSettled []])) (go_on (race_phase o' d st measured dv) (\<lambda>measured dv.
      go_on (probe_phase o' d st measured dv) (\<lambda>(session, probed) dv. mutation_phase o' d st n session probed dv)))"
    if "ms_supplied measured = supplied" "facts dv = fs" for fs measured and dv :: "'a driver"
    by (rule ends_go_on [OF race_phase_facts], rule probes) (use that in auto)
  have graph: "goes_on backed (?Q (fs @ [RaceSettled []])) (go_on (graph_phase d st measured dv) (\<lambda>_ dv. go_on (race_phase o' d st measured dv) (\<lambda>measured dv.
      go_on (probe_phase o' d st measured dv) (\<lambda>(session, probed) dv. mutation_phase o' d st n session probed dv))))"
    if "ms_supplied measured = supplied" "facts dv = fs" for fs measured and dv :: "'a driver"
    by (rule ends_go_on [OF graph_phase_facts], rule race) (use that in auto)
  have report: "goes_on backed (?Q ((facts dv @ [BaselineSettled []]) @ [RaceSettled []])) (go_on (report_baseline o' d st supplied answer dv1) (\<lambda>measured dv.
      go_on (graph_phase d st measured dv) (\<lambda>_ dv. go_on (race_phase o' d st measured dv) (\<lambda>measured dv.
      go_on (probe_phase o' d st measured dv) (\<lambda>(session, probed) dv. mutation_phase o' d st n session probed dv)))))"
    if "facts dv1 = facts dv" for answer dv1
    by (rule ends_go_on [OF report_baseline_facts], rule graph) (use that in auto)
  show ?thesis unfolding verify_round_def
    by (rule ends_weaken [OF ends_go_on [OF baseline_phase_facts report]]) auto
qed

lemma run_round_backed: "goes_on backed (\<lambda>_ _. True) (run_round o' d st n applied dv)"
proof -
  let ?F = "\<lambda>opened fs mutation. fs @ [InputsComputed (or_digest opened), BaselineSettled [], RaceSettled [], MutationSettled (mUnknown (mv_Accounting mutation))]"
  have repair: "goes_on backed (\<lambda>_ _. True) (go_on (repair_phase o' d st supplied mutation dv) (\<lambda>generated dv.
      finish_round o' d st n measured mutation generated applied dv))"
    if "ms_supplied measured = supplied" "facts dv = ?F (sp_opened supplied) fs mutation" for supplied measured mutation fs and dv :: "'a driver"
    by (rule ends_go_on [OF repair_phase_facts]) (use that finish_round_backed in auto)
  have verify: "goes_on backed (\<lambda>_ _. True) (go_on (verify_round o' d st n supplied dv) (\<lambda>(measured, mutation) dv.
      go_on (repair_phase o' d st supplied mutation dv) (\<lambda>generated dv. finish_round o' d st n measured mutation generated applied dv)))"
    if "facts dv = fs @ [InputsComputed (or_digest (sp_opened supplied))]" for supplied fs and dv :: "'a driver"
    by (rule ends_go_on [OF verify_round_facts]) (use that repair in auto)
  have supplying: "goes_on backed (\<lambda>_ _. True) (go_on (supply_round o' d st n opened plan dv) (\<lambda>supplied dv.
      go_on (verify_round o' d st n supplied dv) (\<lambda>(measured, mutation) dv.
      go_on (repair_phase o' d st supplied mutation dv) (\<lambda>generated dv. finish_round o' d st n measured mutation generated applied dv))))"
    if "facts dv = fs @ [InputsComputed (or_digest opened)]" for opened plan fs and dv :: "'a driver"
    by (rule ends_go_on [OF supply_round_facts], rule verify) (use that in auto)
  have plan: "goes_on backed (\<lambda>_ _. True) (go_on (plan_round o' d st opened dv) (\<lambda>plan dv. go_on (supply_round o' d st n opened plan dv) (\<lambda>supplied dv.
      go_on (verify_round o' d st n supplied dv) (\<lambda>(measured, mutation) dv.
      go_on (repair_phase o' d st supplied mutation dv) (\<lambda>generated dv. finish_round o' d st n measured mutation generated applied dv)))))"
    if "facts dv = fs @ [InputsComputed (or_digest opened)]" for opened fs and dv :: "'a driver"
    by (rule ends_go_on [OF plan_round_facts [OF that]], rule supplying) (use that in auto)
  have cache: "goes_on backed (\<lambda>_ _. True) (go_on (cache_check d st n opened dv) (\<lambda>_ dv. go_on (plan_round o' d st opened dv) (\<lambda>plan dv.
      go_on (supply_round o' d st n opened plan dv) (\<lambda>supplied dv. go_on (verify_round o' d st n supplied dv) (\<lambda>(measured, mutation) dv.
      go_on (repair_phase o' d st supplied mutation dv) (\<lambda>generated dv. finish_round o' d st n measured mutation generated applied dv))))))"
    if "facts dv = fs @ [InputsComputed (or_digest opened)]" for opened fs and dv :: "'a driver"
    by (rule ends_go_on [OF cache_check_facts], rule plan) (use that in auto)
  show ?thesis unfolding run_round_def
    by (rule ends_go_on [OF round_start_facts]) (rule cache)
qed

lemma run_rounds_backed:
  "n < maximum_rounds \<Longrightarrow> run_rounds o' d st n applied dv = Some (Inr r, dv') \<Longrightarrow> backed r dv'"
proof (induction "maximum_rounds - n" arbitrary: n applied dv rule: less_induct)
  case less
  obtain x dv1 where x: "run_round o' d st n applied dv = (x, dv1)" by (cases "run_round o' d st n applied dv")
  have backed: "goes_on backed (\<lambda>_ _. True) (x, dv1)" using run_round_backed [of o' d st n applied dv] unfolding x .
  note run = less.prems(2) [unfolded run_rounds.simps [of o' d st n applied dv] x prod.case]
  show ?case
  proof (cases x)
    case (RoundGoesOn more)
    have "n + 1 \<noteq> maximum_rounds" using last_round_ends [of n o' d st applied dv] x RoundGoesOn by auto
    then have "n + 1 < maximum_rounds" "maximum_rounds - (n + 1) < maximum_rounds - n" using less.prems(1) by simp_all
    then show ?thesis using less.hyps [of "n + 1" more dv1] run RoundGoesOn by simp
  qed (use run backed in auto)
qed

lemma set_up_returns_nothing: "ends (\<lambda>_. True) (\<lambda>_ _. False) (\<lambda>_ _. True) (set_up o' d options dv)"
proof -
  have trying: "ends (\<lambda>_. True) (\<lambda>_ _. False) (\<lambda>_ _. True) (trying f cleanup dv)" for f :: "'a \<Rightarrow> (string + 'b) \<times> 'a" and cleanup dv
    by (auto simp: trying_def split: prod.split sum.split)
  have scratch: "ends (\<lambda>_. True) (\<lambda>_ _. False) (\<lambda>_ _. True) (open_run_scratch d dv)" for dv :: "'a driver"
    unfolding open_run_scratch_def
    by (rule ends_go_on) (auto simp: trying_def split: prod.split sum.split option.split)
  have hold: "ends (\<lambda>_. True) (\<lambda>_ _. False) (\<lambda>_ _. True) (hold_scratch d st dv)" for st and dv :: "'a driver"
    using scratch [of dv] by (auto simp: hold_scratch_def ends_def split: prod.split round_step.split)
  show ?thesis unfolding set_up_def Let_def
    by (rule ends_go_on, (auto simp: trying_def split: prod.split sum.split)[1], rule ends_go_on, (auto simp: trying_def split: prod.split sum.split)[1])
      (auto split: sum.split prod.split intro: hold)
qed

lemma tear_down_facts: "facts (tear_down d st dv) = facts dv"
  by (auto simp: tear_down_def Let_def same_facts split: prod.split option.split)

text \<open>
  C3. A report that says \<open>ASSURED\<close> is warranted: it is the one the exact cache answered, or the run that
  returned it ended with a round in which, for the inputs the report names, the baseline and the race run
  found nothing, no mutant was left without an answer, no finding was left after the attempts to repair
  and none was repaired, the inputs had the same digest again, and it is the report stored for them. One that says
  \<open>CHANGE_ASSURED\<close> comes from the cache or from a run whose changeset was empty.
\<close>

theorem assured_report_warranted:
  assumes "run_with_dependencies o' d options (new_driver w) = Some (Inr r, dv)"
  shows "(\<exists>before. facts dv = before @ [CacheAnswered r]) \<or>
    (Verdict r = VerdictAssured \<longrightarrow> (\<exists>before. facts dv = before @
       [InputsComputed (Snapshot r), BaselineSettled [], RaceSettled [], MutationSettled 0, RepairsSettled [] False,
        InputsComputed (Snapshot r), Stored (Snapshot r) r])) \<and>
    (Verdict r = VerdictChangeAssured \<longrightarrow>
       (\<exists>before. facts dv = before @ [InputsComputed (Snapshot r), ChangesEmpty, Stored (Snapshot r) r]))"
proof -
  obtain x dv1 where x: "set_up o' d options (new_driver w) = (x, dv1)" by (cases "set_up o' d options (new_driver w)")
  have "ends (\<lambda>_. True) (\<lambda>_ _. False) (\<lambda>_ _. True) (x, dv1)" using set_up_returns_nothing [of o' d options "new_driver w"] unfolding x .
  then obtain st where st: "x = RoundGoesOn st" using assms x by (cases x) (auto simp: run_with_dependencies_def)
  then obtain dv2 where "run_rounds o' d st 0 [] dv1 = Some (Inr r, dv2)" "dv = tear_down d st dv2"
    using assms x by (auto simp: run_with_dependencies_def)
  then have "warranted r (facts dv)" using run_rounds_backed [of 0 o' d st "[]" dv1 r dv2] by (simp add: maximum_rounds_def tear_down_facts)
  then show ?thesis by (auto simp: warranted_def passed_facts_def split: if_splits)
qed


section \<open>A run that assures\<close>

text \<open>A module without packages: every dependency answers, and nothing is found.\<close>

definition calm_config :: config where
  "calm_config = \<lparr>cf_Contract = ''standard-v1'', cf_ProjectPackages = [], cf_ProjectExclude = [], cf_BuildTags = [], cf_TestBinaryArgs = [],
     cf_ExecutionEnvironment = [], cf_ExecutionTimeout = 0, cf_ExecutionJobs = 0, cf_CacheMaxBytes = 0, cf_CacheTTL = 0, cf_BuildMaxBytes = 0,
     cf_BuildDir = [], cf_ReportsKeep = 0, cf_Resources = [], cf_GenerationCommand = [], cf_GenerationAllowedPaths = [],
     cf_GenerationEnvironment = [], cf_Acceptance = []\<rparr>"

definition calm_options :: run_options where
  "calm_options = \<lparr>opt_Contract = [], opt_NoApply = True, opt_Changed = False, opt_ChangedRef = [], opt_Packages = [], opt_PackageScope = True,
     opt_TestArgs = [], opt_BuildTags = [], opt_CommandTimeout = 0, opt_TargetTimeout = 0, opt_Environment = Some [], opt_MutationOperators = [],
     opt_ReplayFindingID = [], opt_ReplayMutantID = [], opt_MutationJobs = 1, opt_ExecutionPinned = True, opt_AllowedGenerationPaths = []\<rparr>"

definition calm_inputs :: evidence_inputs where
  "calm_inputs = \<lparr>ei_Files = [], ei_Dependencies = [], ei_Toolchain = ''go1.24'', ei_Platform = [], ei_Environment = [], ei_Resources = [],
     ei_Corpus = [], ei_Contract = [], ei_GoatestVersion = [], ei_GoatestBuild = [], ei_GoMutantsVersion = []\<rparr>"

definition calm_baseline :: baseline_result where
  "calm_baseline = \<lparr>ba_Evidence = [], ba_Findings = [], ba_Targets = [], ba_Suites = Some [], ba_ProbeSuites = None, ba_Instrumented = [],
     ba_Inventory = [], ba_Executed = 0, ba_Skipped = 0\<rparr>"

definition calm_dependencies :: "unit run_dependencies" where
  "calm_dependencies = \<lparr>rd_root = Pair (Inr ''/m''), rd_config = (\<lambda>_. Pair (Inr calm_config)), rd_now = Pair 0,
     rd_get = (\<lambda>_. Pair (Inr None)), rd_put = (\<lambda>_ _. Pair None),
     rd_checkpoints = \<lparr>rc_get = (\<lambda>_. Pair (Inr None)), rc_put = (\<lambda>_ _. Pair None), rc_delete = (\<lambda>_. Pair None), rc_journal = None\<rparr>,
     rd_sweep = id, rd_make_scratch = Pair (Inr ''/tmp/run''), rd_claim_scratch = (\<lambda>_. Pair None), rd_remove_scratch = (\<lambda>_. Pair None),
     rd_release_scratch = (\<lambda>_. id), rd_open_cache = (\<lambda>_ _. Pair None), rd_close_cache = (\<lambda>_. Pair ([], None)),
     rd_preparation_environment = (\<lambda>_. []), rd_build_environment = (\<lambda>_. []), rd_persist_compile = (\<lambda>_. False), rd_persist_preparation = id,
     rd_open = (\<lambda>_ _ _. Pair (Inr 1)), rd_close = (\<lambda>_. Pair None),
     rd_exec = (\<lambda>_ w _. (Inl ''no command'', w)),
     rd_inspect = (\<lambda>_ _. Pair (Inr (\<lparr>md_model = \<lparr>gm_ModulePath = ''m'', gm_Packages = Some []\<rparr>, md_toolchain = ''go1.24'', md_dependencies = []\<rparr>, ''/m''))),
     rd_inputs = (\<lambda>_ _ _ _ _. Pair (Inr (calm_inputs, ''digest''))), rd_discover = (\<lambda>_ _. Pair (Inr [])),
     rd_impact = (\<lambda>_ _ _ _. Pair \<lparr>im_targets = [], im_changed = [], im_broad = True, im_prior = None\<rparr>),
     rd_resources = (\<lambda>_ _ _. Pair (Inr (2, \<lparr>aq_items = [], aq_evidence = [], aq_environment = []\<rparr>))), rd_close_manager = (\<lambda>_. Pair None),
     rd_candidates = (\<lambda>_ _. []), rd_observation = (\<lambda>_. Pair (Inl ''no directory'')),
     rd_make_baseline = (\<lambda>_. Pair (Inr ''/tmp/run/baseline'')), rd_remove_baseline = (\<lambda>_. Pair None),
     rd_start = (\<lambda>_ _. id), rd_settle = (\<lambda>_. Pair (no_preparation\<lparr>pn_session := Some 3\<rparr>)),
     rd_baseline = (\<lambda>_ _ _ _ _. Finishes (Inr calm_baseline)),
     rd_graph = (\<lambda>_ _ _. Pair (Inr \<lparr>FilePackages = [], GraphTargets = []\<rparr>)), rd_save_graph = (\<lambda>_ _. Pair None),
     rd_concurrency = (\<lambda>_ _. Pair (Inr [])), rd_race = (\<lambda>_ _ _ _ _. Pair (Inr \<lparr>rr_Evidence = [], rr_Findings = []\<rparr>)),
     rd_probe = (\<lambda>_ _ _. Pair (Inr \<lparr>pb_Targets = [], pb_Measured = 0, pb_Unmeasured = 0, pb_Suites = [], pb_SuitesMeasured = 0, pb_SuitesUnmeasured = 0\<rparr>)),
     rd_probe_control = (\<lambda>_ w _. (Inl ''no control'', w)), rd_load_evidence = (\<lambda>_. Pair (Inl ''no evidence'')), rd_save_evidence = (\<lambda>_. Pair None),
     rd_mutation = (\<lambda>_ _ _ c. Finishes (Inr empty_evaluation, c)),
     rd_repairs = (\<lambda>_ findings _. Pair (Inr \<lparr>ge_Findings = findings, ge_Repairs = [], ge_Applied = False\<rparr>))\<rparr>"

definition calm_tools :: run_tools where
  "calm_tools = \<lparr>ro_sha = id, ro_upper = id, ro_goflags = (\<lambda>k. k = ''GOFLAGS''), ro_environ = [], ro_quote = id, ro_rfc3339 = (\<lambda>_. []), ro_abs = Some,
     ro_procs = 1, ro_os = ''linux'', ro_arch = ''amd64''\<rparr>"

declare run_rounds.simps [code]

lemma calm_run:
  "map_option (\<lambda>(answer, dv). (map_sum id (\<lambda>r. (Verdict r, Snapshot r)) answer,
      list_all (\<lambda>e. case e of CacheAnswered _ \<Rightarrow> False | _ \<Rightarrow> True) (facts dv)))
     (run_with_dependencies calm_tools calm_dependencies calm_options (new_driver ())) = Some (Inr (VerdictAssured, ''digest''), True)"
  by code_simp

theorem assured_report_warranted_witness:
  "\<exists>r dv before. run_with_dependencies calm_tools calm_dependencies calm_options (new_driver ()) = Some (Inr r, dv) \<and>
     Verdict r = VerdictAssured \<and>
     facts dv = before @ [InputsComputed ''digest'', BaselineSettled [], RaceSettled [], MutationSettled 0, RepairsSettled [] False,
       InputsComputed ''digest'', Stored ''digest'' r]"
proof -
  from calm_run obtain answer dv where run: "run_with_dependencies calm_tools calm_dependencies calm_options (new_driver ()) = Some (answer, dv)"
    "map_sum id (\<lambda>r. (Verdict r, Snapshot r)) answer = Inr (VerdictAssured, ''digest'')"
    "list_all (\<lambda>e. case e of CacheAnswered _ \<Rightarrow> False | _ \<Rightarrow> True) (facts dv)"
    by (auto simp: map_option_case split: option.splits)
  then obtain r where r: "answer = Inr r" "Verdict r = VerdictAssured" "Snapshot r = ''digest''" by (cases answer) auto
  then have "\<not> (\<exists>before. facts dv = before @ [CacheAnswered r])" using run(3) by auto
  with assured_report_warranted [OF run(1) [unfolded r(1)]] r
  obtain before where "facts dv = before @ [InputsComputed ''digest'', BaselineSettled [], RaceSettled [], MutationSettled 0,
    RepairsSettled [] False, InputsComputed ''digest'', Stored ''digest'' r]" by auto
  with run(1) r show ?thesis by blast
qed

end
