(* ===== verification/Spec2Isabelle.thy ===== *)
theory Spec2Isabelle
  imports CheckpointDisk WorkerPool RunAssurance
begin

text \<open>
  A verification development of goatest, a mutation-testing driver for Go modules
  (\<open>src/internal\<close>). goatest measures which tests cover a module, asks the go-mutants library
  for a catalog of mutants, decides for every mutant which tests could notice it, runs those
  with the mutant active, and writes a report whose verdict rests on what it observed. Much of
  the program is about not running what an earlier run or a measurement already decided, so
  most of what makes it correct is that an answer is never taken from evidence that does not
  support it.

  The program's parts and their theories, in the order the code uses them:

  \<^item> \<open>GoPrelude\<close>, \<open>GoTime\<close>, \<open>Framing\<close>: what the sources use of the Go standard library
    (\<open>slices.SortFunc\<close> and \<open>BinarySearchFunc\<close>, \<open>strings\<close>, \<open>strconv\<close>, \<open>path\<close>, RFC 3339 times) and
    the length-prefixed framing of the digests (\<open>evidence/digest.go: write\<close>), with the shared
    lemmas and the locale \<open>comparator\<close> of three-way comparisons, interpreted for every
    comparison of the program.
  \<^item> \<open>Coverage\<close>: \<open>golang/coverage.go\<close>, the parser of coverage profiles and the operations on
    them.
  \<^item> \<open>Report\<close>, \<open>ReportAudit\<close>: \<open>report/report.go\<close> and \<open>report/audit.go\<close>, the data of a report, its
    canonical form and the audit it passes before it is written.
  \<^item> \<open>Targets\<close>, \<open>Routing\<close>: the first half of \<open>assure/mutation.go\<close>: targets, budgets,
    execution groups, requests, and the route of a mutant to the targets that could notice it
    with the discharges that need no execution.
  \<^item> \<open>EvidenceKey\<close>, \<open>EvidenceStore\<close>: \<open>evidence/key.go\<close>, \<open>digest.go\<close>, \<open>graph.go\<close> and
    \<open>mutation.go\<close>: the bytes a key is the hash of, the impact graph, and the validation of
    stored records.
  \<^item> \<open>MutationEvidence\<close>, \<open>EvidenceReuse\<close>: \<open>assure/mutation_evidence.go\<close>: the keys of a run, its
    caches (the locale \<open>memo_table\<close>), what it reuses and what it records; and the step relation
    \<open>evidence_step\<close> of a run's questions and records in any order.
  \<^item> \<open>RepositoryObservation\<close>: \<open>assure/repository_observation.go\<close>: the test log of a run and what it
    does to a target's key.
  \<^item> \<open>Evaluation\<close>: \<open>evaluateMutationSeed\<close> and what it calls: the original control, the second
    execution after a timeout, the groups, the package suite.
  \<^item> \<open>Accounting\<close>: \<open>EvaluateMutations\<close>: the catalog, resumed and rejected mutants, checkpoints, and
    the accounting the report carries.
  \<^item> \<open>MutationRun\<close>: what a whole run of \<open>EvaluateMutations\<close> leaves: the inventory it returns passes
    the report's audit, and every checkpoint it wrote is one a later run may resume.
  \<^item> \<open>Checkpoint\<close>: \<open>checkpoint/checkpoint.go\<close>: the state of an interrupted run, its validation and
    the canonical form it is written in.
  \<^item> \<open>CheckpointJournal\<close>, \<open>JournalRecovery\<close>: \<open>cache/checkpoint.go\<close>: the base file and the journal of
    a checkpoint, their replay, and the places a publication, an append or a removal can stop at;
    what the next process reads after each of them.
  \<^item> \<open>Probe\<close>, \<open>ProbeRestore\<close>: \<open>assure/probe.go\<close>: the probe phase that measures which mutants a target
    infects, its checkpoint, and the measurements a later run restores from it.
  \<^item> \<open>RunCheckpoint\<close>, \<open>CheckpointRefinement\<close>, \<open>CheckpointDisk\<close>: \<open>assure/resume.go\<close>: what a run saves
    and when it gives the checkpoint up; the step relation \<open>run_step\<close> of a run's saves in any order;
    the locale \<open>checkpoint_store\<close> of what a run relies on in the cache (a read after a write returns
    the state, a failed write leaves the old one or the new one); and its interpretation on the
    files of \<open>CheckpointJournal\<close> over a disk that fails when it likes, which gives that the disk
    follows the run.

  \<^item> \<open>TestFraming\<close>, \<open>Baseline\<close>, \<open>BaselineCheckpoint\<close>, \<open>BaselineAudit\<close>: \<open>assure/baseline.go\<close>: the reading of
    framed test output; \<open>CollectBaseline\<close> with its checks, packages, targets and suites, by commands
    or by a prepared session; the checkpoints it saves, which a later run accepts; and the
    inventory it returns, which passes the report's audit.

  \<^item> \<open>Packages\<close>, \<open>Impact\<close>: \<open>golang/packages.go\<close>, the identities of \<open>golang/targets.go\<close> and
    \<open>assure/impact.go\<close>: the targets a run over a changeset takes, the graph it leaves for the next
    one, and the files whose mutants it asks for.
  \<^item> \<open>Race\<close>: \<open>assure/race.go\<close>: the packages of the race phase and what its run says.
  \<^item> \<open>WorkerPool\<close>: the worker pools as step relations, with the locale \<open>ending_system\<close> of what ends
    (every step uses fuel, nothing but an end is stuck), interpreted on both; it gives that the
    schedules of the phases above are the outcomes of their pools.

  \<^item> \<open>PathMatch\<close>, \<open>Environment\<close>, \<open>Fallible\<close>, \<open>Config\<close>: what the sources use of \<open>path.Match\<close>; the environments
    of \<open>environment/environment.go\<close>, \<open>assure/run.go\<close> and \<open>assure/buildcache.go\<close> and the arguments of
    \<open>testargs/testargs.go\<close>; the combinators for \<open>if err != nil\<close>; and \<open>config/config.go\<close>, whose \<open>Load\<close> yields
    only well-formed configurations and reads back what \<open>AddAcceptance\<close> saves.
  \<^item> \<open>RunPolicy\<close>: the functions of \<open>assure/run.go\<close> and \<open>assure/plan.go\<close> that decide what a run takes,
    excludes, accepts and reuses, the identity of its inputs, its resources and its original controls.
  \<^item> \<open>Repair\<close>, \<open>RepairSafety\<close>, \<open>RepairAtomic\<close>: \<open>repair/repair.go\<close> on a tree of files with directories and
    symbolic links. The tree carries turns, one for each system call to come: what others edit before it,
    and whether it fails. The first safety result holds under all turns: what is written is a test file,
    a corpus or goatest's own artifact, inside the repository. The second holds where nobody else edits
    and any call may fail: a batch is applied as a whole or not at all, or the error tells of a rollback
    that failed.
  \<^item> \<open>Generation\<close>: the client of \<open>provider/provider.go\<close> and \<open>assure/generation.go\<close>: what a provider may
    answer, and the attempts to validate, store or apply its candidates.
  \<^item> \<open>RunDriver\<close>, \<open>RunDriverSafety\<close>, \<open>RunAssurance\<close>: \<open>runWithDependencies\<close> of \<open>assure/run.go\<close>: the rounds and
    their phases over \<open>run_dependencies\<close>, the record of the dependencies the source has. A dependency that
    calls back is a \<open>dialogue\<close>, and the run keeps a log of what it acquires, releases, shows and learns. \<open>ends\<close>
    carries an invariant through every early return; with what a run holds it gives that a run
    returns and has released everything, with what it has learned that an \<open>ASSURED\<close> report is warranted.

  Correspondence. A Go struct is a record whose selectors keep the field names (with a short
  prefix where two structs share one); an error is a constructor of an error datatype carrying
  what its message prints; a \<open>nil\<close> slice that the code distinguishes from an empty one is an
  option; maps are association lists where the code iterates over them and functions to option
  where it only looks up. \<open>time.Duration\<close> is an integer in the range of an int64 with the wrap
  written out (\<open>wrap64\<close>) where the code adds; the counts of a report are unbounded integers.
  The state a call reads and writes is passed explicitly: the mutation phase threads an
  \<open>evaluation_state\<close> with the world of the session, the memoised controls, the run's evidence,
  the routes traced, the executions started and the checkpoints written.

  Parameters. \<open>sha\<close> is SHA-256 to hexadecimal; theorems that need it say what they need (the
  injectivity statements are about the bytes hashed). A \<open>session\<close> is the go-mutants library
  together with the processes it runs: executing a request and running the original control are
  functions of its world, constrained by nothing unless a theorem names it. \<open>log_files\<close> is the
  directory of test logs. A \<open>checkpoint_codec\<close> is \<open>encoding/json\<close> on checkpoints and journal records
  together with the hash of their bytes; the theorems about files say on which states and lines
  it has to read back what it wrote (\<open>fits\<close>, \<open>fits_unit\<close>, \<open>line_ok\<close>), and that two states they name
  have different bytes. A \<open>probe_session\<close> is the library's prober, \<open>clocked\<close> when its durations are
  not negative. A \<open>baseline_world\<close> is the workspace, the session and the file system of the baseline:
  \<open>timed_runs\<close> says no command takes a negative time, \<open>named_profiles\<close> that a coverage profile names
  the files of its module. A \<open>baseline_schedule\<close> is the order in which the workers finish targets and
  suites: one run is one step of it. A \<open>disk\<close> carries the fate of each operation to come: a read may fail, a write may
  not be published or leave the old journal beside the new base, an append may be cut after any
  number of bytes.

  A \<open>run_dependencies\<close> and a \<open>run_tools\<close> are constrained by nothing: the theorems about a whole run hold for
  any answers. \<open>upper\<close> is \<open>strings.ToUpper\<close> and \<open>environ\<close> is \<open>os.Environ\<close>; the durations and texts of a
  configuration are \<open>time.ParseDuration\<close> and the printing of durations and times, \<open>readable\<close> where what
  is printed parses; a \<open>validator\<close> runs the tests of a candidate; the \<open>provider_tools\<close> are the process of a
  provider and \<open>encoding/json\<close>; a \<open>resource_manager\<close> starts what provides a resource.

  Bounds. No definition uses fuel: loops are structural recursion over their input, and the
  binary search and the rune splitter have termination proofs. The loop over the rounds, which the
  source writes without a condition, is a \<open>partial_function\<close> with the value None where it would not
  end; \<open>run_returns_and_releases\<close> shows that it does, after \<open>maximum_rounds\<close> rounds at most.

  Not modelled: the trace recorder, the sweep of old temporary directories and what is kept of a run; the
  processes of resources, validators and the build cache, which the run takes as dependencies; the
  discovery of targets in Go syntax trees; reading and writing files, JSON bytes, processes, clocks, terminal output, and
  the rendering of reports; Windows differences (upper-casing of environment names,
  backslashes in paths: \<open>to_slash\<close> is the identity, as on Unix); the trace records except
  routes; a run without a checkpoint controller or a session (both \<open>nil\<close> in tests only); the
  difference of a \<open>nil\<close> and an empty slice in a checkpoint, which JSON does not keep; the interleaving of two seeds' evaluations, or of two targets' runs, inside a worker pool (one
  is one step of the schedule). The components of the manifest marked \<open>not_modelled\<close> name the rest.
\<close>

end
